(* ===== verification/Account.thy ===== *)
theory Account
  imports Prelude
begin

text \<open>
  The account component (\<open>keetanetwork-account\<close>): key pair types, the textual \<open>keeta_\<close> address
  format, parsing of typed public keys, and derivation of identifier accounts.  An account is its
  key type and public key, which is the identity the source compares; private keys are added in
  \<open>KeyedAccount\<close>.  SHA3-256, base32, hex and the curve-point parsers are third-party code and are
  the fields of \<open>crypto_lib\<close>; what the component relies on is the locale \<open>crypto_laws\<close>.
\<close>

section \<open>Third-party functions\<close>

record crypto_lib =
  sha3_256 :: "bytes \<Rightarrow> bytes"
  base32_encode :: "bytes \<Rightarrow> string"
  base32_decode :: "string \<Rightarrow> bytes option"
  hex_encode :: "bytes \<Rightarrow> string"
  hex_encode_upper :: "bytes \<Rightarrow> string"
  hex_decode :: "string \<Rightarrow> bytes option"
  k256_compress :: "bytes \<Rightarrow> bytes option"
  p256_compress :: "bytes \<Rightarrow> bytes option"
  ed25519_point :: "bytes \<Rightarrow> bool"

section \<open>Key types and errors\<close>

datatype account_error =
    InvalidPrefix | InvalidKeyType | InvalidKeyTypeExternal | InvalidX509Certificate
  | PassphraseWeak | InvalidConstruction | NoIdentifierSign | NoIdentifierVerify
  | NoIdentifierVerifyCertificate | InvalidIdentifierConstruction | SeedIndexUndefined
  | SeedIndexNegative | SeedIndexNotInt | SeedIndexTooLarge | EncryptionNotSupported

datatype keypair_type =
    ECDSASECP256K1 | ED25519 | NETWORK | TOKEN | STORAGE | ECDSASECP256R1 | MULTISIG

fun keypair_type_id :: "keypair_type \<Rightarrow> byte" where
  "keypair_type_id ECDSASECP256K1 = 0"
| "keypair_type_id ED25519 = 1"
| "keypair_type_id NETWORK = 2"
| "keypair_type_id TOKEN = 3"
| "keypair_type_id STORAGE = 4"
| "keypair_type_id ECDSASECP256R1 = 6"
| "keypair_type_id MULTISIG = 7"

definition IDENTIFIER_KEY_TYPES :: "keypair_type list" where
  "IDENTIFIER_KEY_TYPES = [NETWORK, TOKEN, STORAGE, MULTISIG]"

definition is_identifier :: "keypair_type \<Rightarrow> bool" where
  "is_identifier t \<longleftrightarrow> t \<in> set IDENTIFIER_KEY_TYPES"

fun supports_crypto :: "keypair_type \<Rightarrow> bool" where
  "supports_crypto ECDSASECP256K1 = True"
| "supports_crypto ED25519 = True"
| "supports_crypto ECDSASECP256R1 = True"
| "supports_crypto _ = False"

datatype algorithm = Secp256k1 | Ed25519Alg | Secp256r1

fun algorithm_id :: "algorithm \<Rightarrow> byte" where
  "algorithm_id Secp256k1 = 0"
| "algorithm_id Ed25519Alg = 1"
| "algorithm_id Secp256r1 = 6"

definition algorithm_from_id :: "byte \<Rightarrow> account_error + algorithm" where
  "algorithm_from_id i =
     (if i = 0 then Ok Secp256k1 else if i = 1 then Ok Ed25519Alg
      else if i = 6 then Ok Secp256r1 else Err InvalidKeyType)"

fun keypair_type_of_algorithm :: "algorithm \<Rightarrow> keypair_type" where
  "keypair_type_of_algorithm Secp256k1 = ECDSASECP256K1"
| "keypair_type_of_algorithm Ed25519Alg = ED25519"
| "keypair_type_of_algorithm Secp256r1 = ECDSASECP256R1"

fun algorithm_of_keypair_type :: "keypair_type \<Rightarrow> account_error + algorithm" where
  "algorithm_of_keypair_type ECDSASECP256K1 = Ok Secp256k1"
| "algorithm_of_keypair_type ED25519 = Ok Ed25519Alg"
| "algorithm_of_keypair_type ECDSASECP256R1 = Ok Secp256r1"
| "algorithm_of_keypair_type _ = Err InvalidKeyType"

section \<open>Accounts\<close>

datatype generic_account =
    EcdsaSecp256k1 bytes | EcdsaSecp256r1 bytes | Ed25519 bytes
  | Network bytes | Token bytes | Storage bytes | Multisig bytes

fun to_keypair_type :: "generic_account \<Rightarrow> keypair_type" where
  "to_keypair_type (EcdsaSecp256k1 _) = ECDSASECP256K1"
| "to_keypair_type (EcdsaSecp256r1 _) = ECDSASECP256R1"
| "to_keypair_type (Ed25519 _) = ED25519"
| "to_keypair_type (Network _) = NETWORK"
| "to_keypair_type (Token _) = TOKEN"
| "to_keypair_type (Storage _) = STORAGE"
| "to_keypair_type (Multisig _) = MULTISIG"

fun as_public_key_bytes :: "generic_account \<Rightarrow> bytes" where
  "as_public_key_bytes (EcdsaSecp256k1 k) = k"
| "as_public_key_bytes (EcdsaSecp256r1 k) = k"
| "as_public_key_bytes (Ed25519 k) = k"
| "as_public_key_bytes (Network k) = k"
| "as_public_key_bytes (Token k) = k"
| "as_public_key_bytes (Storage k) = k"
| "as_public_key_bytes (Multisig k) = k"

definition public_key_with_type :: "bytes \<Rightarrow> keypair_type \<Rightarrow> bytes" where
  "public_key_with_type raw_key t = keypair_type_id t # raw_key"

definition to_public_key_with_type :: "generic_account \<Rightarrow> bytes" where
  "to_public_key_with_type a = public_key_with_type (as_public_key_bytes a) (to_keypair_type a)"

definition account_eq :: "generic_account \<Rightarrow> generic_account \<Rightarrow> bool" where
  "account_eq a b \<longleftrightarrow>
     to_keypair_type a = to_keypair_type b \<and> as_public_key_bytes a = as_public_key_bytes b"

fun mk_account :: "keypair_type \<Rightarrow> bytes \<Rightarrow> generic_account" where
  "mk_account ECDSASECP256K1 k = EcdsaSecp256k1 k"
| "mk_account ECDSASECP256R1 k = EcdsaSecp256r1 k"
| "mk_account ED25519 k = Ed25519 k"
| "mk_account NETWORK k = Network k"
| "mk_account TOKEN k = Token k"
| "mk_account STORAGE k = Storage k"
| "mk_account MULTISIG k = Multisig k"

section \<open>Hashing, addresses\<close>

definition hash_array :: "crypto_lib \<Rightarrow> nat \<Rightarrow> bytes \<Rightarrow> account_error + bytes" where
  "hash_array L n data = (if n \<noteq> 32 then Err PassphraseWeak else Ok (sha3_256 L data))"

definition hash_default :: "crypto_lib \<Rightarrow> bytes \<Rightarrow> bytes" where
  "hash_default L data = sha3_256 L data"

definition block_hash_opening :: "crypto_lib \<Rightarrow> bytes \<Rightarrow> bytes" where
  "block_hash_opening L raw_public_key = hash_default L raw_public_key"

definition combine_seed_and_index :: "bytes \<Rightarrow> 32 word \<Rightarrow> bytes" where
  "combine_seed_and_index seed index =
     seed @ [ucast (drop_bit 24 index), ucast (drop_bit 16 index), ucast (drop_bit 8 index), ucast index]"

definition format_public_key_string :: "crypto_lib \<Rightarrow> bytes \<Rightarrow> byte \<Rightarrow> account_error + string" where
  "format_public_key_string L key_data key_type =
     and_then
       (if key_type \<in> {2, 3, 4, 7}
        then (if length key_data = 32 then Ok key_data else hash_array L 32 key_data)
        else Ok key_data)
       (\<lambda>normalized.
          let pub_key_values = key_type # normalized in
          and_then (hash_array L 32 pub_key_values)
            (\<lambda>checksum. Ok (''keeta_'' @ base32_encode L (pub_key_values @ take 5 checksum))))"

definition decode_public_key_string :: "crypto_lib \<Rightarrow> string \<Rightarrow> account_error + byte \<times> bytes" where
  "decode_public_key_string L formatted_key =
     and_then (ok_or InvalidPrefix (strip_prefix ''keeta_'' formatted_key)) (\<lambda>encoded.
     and_then (ok_or InvalidPrefix (base32_decode L encoded)) (\<lambda>decoded.
     if length decoded < 6 then Err InvalidPrefix
     else
       let pubkey_end = length decoded - 5 in
       and_then (hash_array L 32 (take pubkey_end decoded)) (\<lambda>calculated.
       if drop pubkey_end decoded \<noteq> take 5 calculated then Err InvalidPrefix
       else Ok (decoded ! 0, drop 1 (take pubkey_end decoded)))))"

definition parse_public_key_hex :: "crypto_lib \<Rightarrow> string \<Rightarrow> account_error + bytes \<times> algorithm" where
  "parse_public_key_hex L hex_key =
     and_then (ok_or InvalidPrefix (strip_prefix ''0x'' hex_key)) (\<lambda>hex_data.
     and_then (ok_or InvalidPrefix (hex_decode L hex_data)) (\<lambda>decoded.
     if decoded = [] then Err InvalidPrefix
     else and_then (algorithm_from_id (hd decoded)) (\<lambda>alg.
       let public_key_bytes = tl decoded;
           expected_lengths = (case alg of Ed25519Alg \<Rightarrow> [32] | _ \<Rightarrow> [33, 65])
       in if length public_key_bytes \<notin> set expected_lengths then Err InvalidConstruction
          else Ok (public_key_bytes, alg))))"

definition parse_public_key :: "crypto_lib \<Rightarrow> string \<Rightarrow> account_error + bytes \<times> algorithm option" where
  "parse_public_key L formatted_key =
     (if starts_with formatted_key ''0x''
      then and_then (parse_public_key_hex L formatted_key) (\<lambda>(bs, alg). Ok (bs, Some alg))
      else and_then (decode_public_key_string L formatted_key) (\<lambda>(key_type, public_key_bytes).
        case algorithm_from_id key_type of
          Inr alg \<Rightarrow> Ok (public_key_bytes, Some alg)
        | Inl _ \<Rightarrow> (if key_type \<in> {2, 3, 4, 7} then Ok (public_key_bytes, None) else Err InvalidKeyType)))"

definition to_public_key_string :: "crypto_lib \<Rightarrow> generic_account \<Rightarrow> account_error + string" where
  "to_public_key_string L a =
     (case to_public_key_with_type a of
        [] \<Rightarrow> Err InvalidConstruction
      | key_type # raw_key \<Rightarrow> format_public_key_string L raw_key key_type)"

definition account_to_string :: "crypto_lib \<Rightarrow> generic_account \<Rightarrow> string" where
  "account_to_string L a = (case to_public_key_string L a of Inr s \<Rightarrow> s | Inl _ \<Rightarrow> [])"

section \<open>Construction\<close>

definition identifier_key_new :: "bytes \<Rightarrow> account_error + bytes" where
  "identifier_key_new raw = (if length raw \<noteq> 32 then Err InvalidConstruction else Ok raw)"

definition crypto_key_lengths :: "keypair_type \<Rightarrow> nat list" where
  "crypto_key_lengths t = (if t = ED25519 then [32] else [33, 65])"

definition public_key_try_from :: "crypto_lib \<Rightarrow> keypair_type \<Rightarrow> bytes \<Rightarrow> bytes option" where
  "public_key_try_from L t raw =
     (case t of
        ECDSASECP256K1 \<Rightarrow> k256_compress L raw
      | ECDSASECP256R1 \<Rightarrow> map_option (\<lambda>_. raw) (p256_compress L raw)
      | ED25519 \<Rightarrow> (if length raw = 32 \<and> ed25519_point L raw then Some raw else None)
      | _ \<Rightarrow> None)"

definition crypto_key_from_public_key :: "crypto_lib \<Rightarrow> keypair_type \<Rightarrow> bytes \<Rightarrow> account_error + generic_account" where
  "crypto_key_from_public_key L t raw =
     (if length raw \<notin> set (crypto_key_lengths t) then Err InvalidConstruction
      else and_then (ok_or InvalidConstruction (public_key_try_from L t raw)) (\<lambda>k. Ok (mk_account t k)))"

definition crypto_key_from_public_key_string ::
    "crypto_lib \<Rightarrow> keypair_type \<Rightarrow> string \<Rightarrow> account_error + generic_account" where
  "crypto_key_from_public_key_string L t s =
     (if \<not> starts_with s ''keeta_'' then Err InvalidPrefix
      else and_then (parse_public_key L s) (\<lambda>(raw, alg).
           and_then (ok_or InvalidKeyType alg) (\<lambda>alg.
           if Ok alg \<noteq> algorithm_of_keypair_type t then Err InvalidKeyType
           else and_then (ok_or InvalidConstruction (public_key_try_from L t raw)) (\<lambda>k. Ok (mk_account t k)))))"

fun identifier_prefixes :: "keypair_type \<Rightarrow> string list" where
  "identifier_prefixes NETWORK = [''keeta_ai'', ''keeta_aj'', ''keeta_ak'', ''keeta_al'']"
| "identifier_prefixes TOKEN = [''keeta_an'', ''keeta_am'', ''keeta_ao'', ''keeta_ap'']"
| "identifier_prefixes STORAGE = [''keeta_aq'', ''keeta_ar'', ''keeta_as'', ''keeta_at'']"
| "identifier_prefixes MULTISIG = [''keeta_a4'', ''keeta_a5'', ''keeta_a6'', ''keeta_a7'']"
| "identifier_prefixes _ = []"

definition identifier_from_public_key_string ::
    "crypto_lib \<Rightarrow> keypair_type \<Rightarrow> string \<Rightarrow> account_error + generic_account" where
  "identifier_from_public_key_string L t s =
     (if list_ex (starts_with s) (identifier_prefixes t)
      then and_then (parse_public_key L s) (\<lambda>(decoded, _).
           and_then (identifier_key_new decoded) (\<lambda>k. Ok (mk_account t k)))
      else Err InvalidConstruction)"

definition create_identifier_key :: "crypto_lib \<Rightarrow> bytes \<Rightarrow> 32 word \<Rightarrow> account_error + string \<times> string" where
  "create_identifier_key L seed index =
     and_then (hash_array L 32 (combine_seed_and_index seed index)) (\<lambda>h.
       let identifier = hex_encode L h in Ok (identifier, identifier))"

definition identifier_from_seed ::
    "crypto_lib \<Rightarrow> keypair_type \<Rightarrow> bytes \<Rightarrow> 32 word \<Rightarrow> account_error + generic_account" where
  "identifier_from_seed L t seed index =
     and_then (create_identifier_key L seed index) (\<lambda>(identifier, _).
     and_then (ok_or InvalidConstruction (hex_decode L identifier)) (\<lambda>key_data.
     and_then (identifier_key_new key_data) (\<lambda>k. Ok (mk_account t k))))"

definition identifier_from_id :: "crypto_lib \<Rightarrow> keypair_type \<Rightarrow> bytes \<Rightarrow> account_error + generic_account" where
  "identifier_from_id L t id_bytes =
     and_then (hash_array L 32 id_bytes) (\<lambda>h.
     and_then (identifier_key_new h) (\<lambda>k. Ok (mk_account t k)))"

definition keypair_type_of_byte :: "byte \<Rightarrow> account_error + keypair_type" where
  "keypair_type_of_byte b =
     (if b = 0 then Ok ECDSASECP256K1 else if b = 1 then Ok ED25519
      else if b = 2 then Ok NETWORK else if b = 3 then Ok TOKEN
      else if b = 4 then Ok STORAGE else if b = 6 then Ok ECDSASECP256R1
      else if b = 7 then Ok MULTISIG else Err InvalidKeyType)"

definition account_from_hex :: "crypto_lib \<Rightarrow> string \<Rightarrow> account_error + generic_account" where
  "account_from_hex L hex =
     and_then (ok_or InvalidConstruction (hex_decode L hex)) (\<lambda>data.
     case data of
       [] \<Rightarrow> Err InvalidConstruction
     | key_type_byte # public_key_bytes \<Rightarrow>
         and_then (keypair_type_of_byte key_type_byte) (\<lambda>key_type.
           if key_type \<in> {ECDSASECP256K1, ED25519, ECDSASECP256R1}
           then crypto_key_from_public_key L key_type public_key_bytes
           else and_then (format_public_key_string L public_key_bytes (keypair_type_id key_type)) (\<lambda>s.
             identifier_from_public_key_string L key_type s)))"

definition account_from_str :: "crypto_lib \<Rightarrow> string \<Rightarrow> account_error + generic_account" where
  "account_from_str L s =
     and_then (decode_public_key_string L s) (\<lambda>(key_type, public_key).
       account_from_hex L (hex_encode L (key_type # public_key)))"

definition parse_account_with_type :: "crypto_lib \<Rightarrow> bytes \<Rightarrow> account_error + generic_account" where
  "parse_account_with_type L bs = account_from_hex L (hex_encode L bs)"

definition to_opening_hash :: "crypto_lib \<Rightarrow> generic_account \<Rightarrow> bytes" where
  "to_opening_hash L a = block_hash_opening L (as_public_key_bytes a)"

definition generate_identifier ::
    "crypto_lib \<Rightarrow> generic_account \<Rightarrow> keypair_type \<Rightarrow> bytes option \<Rightarrow> 32 word \<Rightarrow> account_error + generic_account" where
  "generate_identifier L a identifier_type block_hash operation_index =
     (if \<not> is_identifier identifier_type then Err InvalidIdentifierConstruction
      else
        let hash_to_use = (case block_hash of Some h \<Rightarrow> h | None \<Rightarrow> to_opening_hash L a) in
        if is_identifier (to_keypair_type a) \<and>
           \<not> (to_keypair_type a = NETWORK \<and> identifier_type = TOKEN \<and> operation_index = 0 \<and> block_hash = None)
        then Err InvalidIdentifierConstruction
        else
          let seed_data = keypair_type_id (to_keypair_type a) # as_public_key_bytes a @ hash_to_use in
          and_then (hash_array L 32 seed_data) (\<lambda>seed_hash.
            if identifier_type \<in> {NETWORK, TOKEN, STORAGE, MULTISIG}
            then identifier_from_seed L identifier_type seed_hash operation_index
            else Err InvalidIdentifierConstruction))"

definition u64_to_be_bytes :: "64 word \<Rightarrow> bytes" where
  "u64_to_be_bytes w = map (\<lambda>i. ucast (drop_bit (8 * i) w)) [7, 6, 5, 4, 3, 2, 1, 0]"

definition generate_network_address :: "crypto_lib \<Rightarrow> 64 word \<Rightarrow> account_error + generic_account" where
  "generate_network_address L network_id =
     identifier_from_seed L NETWORK (replicate 24 0 @ u64_to_be_bytes network_id) 0"

section \<open>Helpers of the block crate\<close>

definition accounts_equal :: "generic_account \<Rightarrow> generic_account \<Rightarrow> bool" where
  "accounts_equal a b \<longleftrightarrow> to_public_key_with_type a = to_public_key_with_type b"

definition unique_account_count :: "crypto_lib \<Rightarrow> generic_account list \<Rightarrow> nat" where
  "unique_account_count L accounts = card (set (map (account_to_string L) accounts))"

section \<open>Well-formed accounts and the laws of the third-party functions\<close>

definition wf_account :: "crypto_lib \<Rightarrow> generic_account \<Rightarrow> bool" where
  "wf_account L a \<longleftrightarrow>
     (case a of
        EcdsaSecp256k1 k \<Rightarrow> length k = 33 \<and> k256_compress L k = Some k
      | EcdsaSecp256r1 k \<Rightarrow> length k \<in> {33, 65} \<and> p256_compress L k \<noteq> None
      | Ed25519 k \<Rightarrow> length k = 32 \<and> ed25519_point L k
      | Network k \<Rightarrow> length k = 32
      | Token k \<Rightarrow> length k = 32
      | Storage k \<Rightarrow> length k = 32
      | Multisig k \<Rightarrow> length k = 32)"

definition b32_char :: "nat \<Rightarrow> char" where
  "b32_char n = ''abcdefghijklmnopqrstuvwxyz234567'' ! n"

lemma keypair_type_of_byte_id [simp]: "keypair_type_of_byte (keypair_type_id t) = Inr t"
  by (cases t) (simp_all add: keypair_type_of_byte_def)

lemma keypair_type_of_byte_inv: "keypair_type_of_byte b = Inr t \<Longrightarrow> b = keypair_type_id t"
  by (auto simp: keypair_type_of_byte_def split: if_splits)

lemma keypair_type_id_inject [simp]: "keypair_type_id s = keypair_type_id t \<longleftrightarrow> s = t"
  by (metis keypair_type_of_byte_id sum.inject(2))

lemma is_identifier_iff: "is_identifier t \<longleftrightarrow> t \<in> {NETWORK, TOKEN, STORAGE, MULTISIG}"
  by (simp add: is_identifier_def IDENTIFIER_KEY_TYPES_def)

lemma mk_account_sel [simp]:
  "to_keypair_type (mk_account t k) = t" "as_public_key_bytes (mk_account t k) = k"
  by (cases t; simp)+

lemma mk_account_to [simp]: "mk_account (to_keypair_type a) (as_public_key_bytes a) = a"
  by (cases a) auto

lemma account_eq_iff [simp]: "account_eq a b \<longleftrightarrow> a = b"
  by (metis account_eq_def mk_account_to)

lemma to_public_key_with_type_inject [simp]:
  "to_public_key_with_type a = to_public_key_with_type b \<longleftrightarrow> a = b"
  by (metis to_public_key_with_type_def public_key_with_type_def keypair_type_id_inject
      list.inject mk_account_to)

lemma accounts_equal_iff [simp]: "accounts_equal a b \<longleftrightarrow> a = b"
  by (simp add: accounts_equal_def)

lemma hash_array_32 [simp]: "hash_array L 32 bs = Inr (sha3_256 L bs)"
  by (simp add: hash_array_def)

lemma algorithm_from_id_identifier [simp]:
  "is_identifier t \<Longrightarrow> algorithm_from_id (keypair_type_id t) = Inl InvalidKeyType"
  by (cases t) (auto simp: algorithm_from_id_def is_identifier_iff)

lemma format_public_key_string_ok:
  "\<exists>s. format_public_key_string L raw t = Inr s"
  by (simp add: format_public_key_string_def Let_def)

lemma account_to_string_eq:
  "format_public_key_string L (as_public_key_bytes a) (keypair_type_id (to_keypair_type a)) =
     Inr (account_to_string L a)"
  using format_public_key_string_ok[of L "as_public_key_bytes a" "keypair_type_id (to_keypair_type a)"]
  by (auto simp: account_to_string_def to_public_key_string_def to_public_key_with_type_def
      public_key_with_type_def)

lemma wf_account_identifier:
  "is_identifier t \<Longrightarrow> wf_account L (mk_account t k) \<longleftrightarrow> length k = 32"
  by (cases t) (auto simp: wf_account_def is_identifier_iff)

lemma identifier_from_public_key_string_wf:
  "is_identifier t \<Longrightarrow> identifier_from_public_key_string L t s = Inr a \<Longrightarrow>
     wf_account L a \<and> to_keypair_type a = t"
  by (auto simp: identifier_from_public_key_string_def identifier_key_new_def wf_account_identifier
      split: if_splits)

lemma identifier_from_seed_wf:
  "is_identifier t \<Longrightarrow> identifier_from_seed L t seed i = Inr a \<Longrightarrow>
     wf_account L a \<and> to_keypair_type a = t"
  by (auto simp: identifier_from_seed_def identifier_key_new_def wf_account_identifier
      split: if_splits)

lemma list_ex_prefixes: "list_ex (starts_with s) (identifier_prefixes t) \<longleftrightarrow> take 8 s \<in> set (identifier_prefixes t)"
proof -
  have "length p = 8" if "p \<in> set (identifier_prefixes t)" for p using that by (cases t) auto
  then show ?thesis by (auto simp: list_ex_iff starts_with_def)
qed

locale crypto_laws =
  fixes L :: crypto_lib
  assumes sha3_length: "length (sha3_256 L bs) = 32"
    and base32_roundtrip: "base32_decode L (base32_encode L bs) = Some bs"
    and base32_head: "2 \<le> length bs \<Longrightarrow>
      take 2 (base32_encode L bs) =
        [b32_char (unat (bs ! 0) div 8), b32_char (unat (bs ! 0) mod 8 * 4 + unat (bs ! 1) div 64)]"
    and hex_roundtrip: "hex_decode L (hex_encode L bs) = Some bs"
    and hex_upper_roundtrip: "hex_decode L (hex_encode_upper L bs) = Some bs"
    and hex_upper_length: "length (hex_encode_upper L bs) = 2 * length bs"
    and k256_canonical: "k256_compress L bs = Some k \<Longrightarrow> length k = 33 \<and> k256_compress L k = Some k"
    and p256_canonical: "p256_compress L bs = Some k \<Longrightarrow> length k = 33 \<and> p256_compress L k = Some k"
    and p256_length: "p256_compress L bs = Some k \<Longrightarrow> length bs \<in> {33, 65}"
begin

lemma hex_upper_inject: "hex_encode_upper L bs = hex_encode_upper L cs \<Longrightarrow> bs = cs"
  by (metis hex_upper_roundtrip option.inject)

lemma decode_format:
  assumes "t \<in> {2, 3, 4, 7} \<longrightarrow> length raw = 32"
    and "format_public_key_string L raw t = Inr s"
  shows "decode_public_key_string L s = Inr (t, raw)"
proof -
  have n: "t \<in> {2, 3, 4, 7} \<Longrightarrow> length raw = 32" using assms(1) by simp
  let ?v = "t # raw"
  have s: "s = ''keeta_'' @ base32_encode L (?v @ take 5 (sha3_256 L ?v))"
    using assms by (auto simp: format_public_key_string_def Let_def split: if_splits)
  have "strip_prefix ''keeta_'' s = Some (base32_encode L (?v @ take 5 (sha3_256 L ?v)))"
    unfolding s by (rule strip_prefix_append)
  then show ?thesis
    by (simp add: decode_public_key_string_def base32_roundtrip sha3_length min_def)
qed

lemma identifier_prefix:
  assumes "is_identifier t" and "format_public_key_string L raw (keypair_type_id t) = Inr s"
    and "length raw = 32"
  shows "list_ex (starts_with s) (identifier_prefixes t)"
proof -
  let ?v = "keypair_type_id t # raw"
  have s: "s = ''keeta_'' @ base32_encode L (?v @ take 5 (sha3_256 L ?v))"
    using assms by (auto simp: format_public_key_string_def Let_def split: if_splits)
  define q where "q = unat (raw ! 0) div 64"
  have "unat (raw ! 0) < 256" using unsigned_less[of "raw ! 0"] by simp
  then have q: "q = 0 \<or> q = 1 \<or> q = 2 \<or> q = 3" unfolding q_def by auto
  have "take 2 (base32_encode L (?v @ take 5 (sha3_256 L ?v))) =
      [b32_char (unat (keypair_type_id t) div 8), b32_char (unat (keypair_type_id t) mod 8 * 4 + q)]"
    using base32_head[of "?v @ take 5 (sha3_256 L ?v)"] assms(3)
    by (simp add: q_def nth_append)
  then have "take 8 s = ''keeta_'' @
      [b32_char (unat (keypair_type_id t) div 8), b32_char (unat (keypair_type_id t) mod 8 * 4 + q)]"
    unfolding s by simp
  then have "take 8 s \<in> set (identifier_prefixes t)"
    using assms(1) q by (cases t) (auto simp: is_identifier_iff b32_char_def)
  then show ?thesis by (simp add: list_ex_prefixes)
qed

lemma identifier_from_format:
  assumes "is_identifier t" and "length raw = 32"
    and "format_public_key_string L raw (keypair_type_id t) = Inr s"
  shows "identifier_from_public_key_string L t s = Inr (mk_account t raw)"
proof -
  have "decode_public_key_string L s = Inr (keypair_type_id t, raw)"
    using decode_format assms by simp
  moreover have "\<not> starts_with s ''0x''"
    using assms by (auto simp: format_public_key_string_def Let_def starts_with_def split: if_splits)
  ultimately have "parse_public_key L s = Inr (raw, None)"
    using assms(1) by (cases t) (auto simp: parse_public_key_def is_identifier_iff algorithm_from_id_def)
  then show ?thesis
    using identifier_prefix[OF assms(1,3,2)] assms(2)
    by (simp add: identifier_from_public_key_string_def identifier_key_new_def)
qed

lemma parse_account_with_type_Cons:
  "parse_account_with_type L (b # raw) =
     and_then (keypair_type_of_byte b) (\<lambda>t.
       if is_identifier t
       then Inr (mk_account t (if length raw = 32 then raw else sha3_256 L raw))
       else crypto_key_from_public_key L t raw)"
proof (cases "keypair_type_of_byte b")
  case (Inr t)
  show ?thesis
  proof (cases "is_identifier t")
    case True
    let ?k = "if length raw = 32 then raw else sha3_256 L raw"
    obtain s where s: "format_public_key_string L raw (keypair_type_id t) = Inr s"
      using format_public_key_string_ok by blast
    have "keypair_type_id t \<in> {2, 3, 4, 7}" using True by (cases t) (auto simp: is_identifier_iff)
    then have "format_public_key_string L ?k (keypair_type_id t) =
        format_public_key_string L raw (keypair_type_id t)"
      by (simp add: format_public_key_string_def sha3_length)
    then have "identifier_from_public_key_string L t s = Inr (mk_account t ?k)"
      using identifier_from_format[OF True, of ?k s] s sha3_length by simp
    then show ?thesis using Inr True s
      by (auto simp: parse_account_with_type_def account_from_hex_def hex_roundtrip is_identifier_iff)
  next
    case False
    then have "t \<in> {ECDSASECP256K1, ED25519, ECDSASECP256R1}" by (cases t) (auto simp: is_identifier_iff)
    then show ?thesis using Inr False
      by (auto simp: parse_account_with_type_def account_from_hex_def hex_roundtrip)
  qed
qed (simp add: parse_account_with_type_def account_from_hex_def hex_roundtrip)

lemma parse_account_with_type_roundtrip:
  "wf_account L a \<Longrightarrow> parse_account_with_type L (to_public_key_with_type a) = Inr a"
  by (cases a)
    (simp_all add: to_public_key_with_type_def public_key_with_type_def parse_account_with_type_Cons
      is_identifier_iff keypair_type_of_byte_def wf_account_def crypto_key_from_public_key_def crypto_key_lengths_def
      public_key_try_from_def split: option.splits)

lemma parse_account_with_type_wf:
  assumes "parse_account_with_type L bs = Inr a"
  shows "wf_account L a"
proof (cases bs)
  case Nil
  then show ?thesis using assms
    by (simp add: parse_account_with_type_def account_from_hex_def hex_roundtrip)
next
  case (Cons b raw)
  obtain t where t: "keypair_type_of_byte b = Inr t"
    using assms by (auto simp: Cons parse_account_with_type_Cons)
  show ?thesis
  proof (cases "is_identifier t")
    case True
    then show ?thesis using assms t
      by (auto simp: Cons parse_account_with_type_Cons wf_account_identifier sha3_length split: if_splits)
  next
    case False
    then show ?thesis using assms t
      by (cases t)
        (auto simp: Cons parse_account_with_type_Cons is_identifier_iff crypto_key_from_public_key_def
          public_key_try_from_def wf_account_def crypto_key_lengths_def
          dest: k256_canonical split: if_splits)
  qed
qed

lemma account_from_str_roundtrip:
  assumes "wf_account L a"
  shows "account_from_str L (account_to_string L a) = Inr a"
proof -
  have "keypair_type_id (to_keypair_type a) \<in> {2, 3, 4, 7} \<longrightarrow> length (as_public_key_bytes a) = 32"
    using assms by (cases a) (auto simp: wf_account_def)
  then have "decode_public_key_string L (account_to_string L a) =
      Inr (keypair_type_id (to_keypair_type a), as_public_key_bytes a)"
    using decode_format[OF _ account_to_string_eq] by blast
  then show ?thesis
    using parse_account_with_type_roundtrip[OF assms]
    by (simp add: account_from_str_def parse_account_with_type_def to_public_key_with_type_def
        public_key_with_type_def)
qed

end

sublocale crypto_laws \<subseteq> acct: sound_codec to_public_key_with_type "parse_account_with_type L" "wf_account L"
  by unfold_locales (auto intro: parse_account_with_type_roundtrip parse_account_with_type_wf)

sublocale crypto_laws \<subseteq> addr: codec "account_to_string L" "account_from_str L" "wf_account L"
  by unfold_locales (rule account_from_str_roundtrip)

context crypto_laws
begin

lemma account_from_str_wf:
  assumes "account_from_str L s = Inr a"
  shows "wf_account L a"
  using assms parse_account_with_type_wf
  by (auto simp: account_from_str_def parse_account_with_type_def)

lemma unique_account_count_card:
  "list_all (wf_account L) xs \<Longrightarrow> unique_account_count L xs = card (set xs)"
  unfolding unique_account_count_def
  by (simp add: card_image inj_on_subset[OF addr.enc_inj_on] list_all_iff subset_eq)

lemma identifier_from_seed_ok:
  "identifier_from_seed L t seed i = Inr (mk_account t (sha3_256 L (combine_seed_and_index seed i)))"
  by (simp add: identifier_from_seed_def create_identifier_key_def Let_def hex_roundtrip
      identifier_key_new_def sha3_length)

lemma generate_identifier_eq:
  "generate_identifier L a t h i =
     (if is_identifier t \<and>
         (is_identifier (to_keypair_type a) \<longrightarrow>
            to_keypair_type a = NETWORK \<and> t = TOKEN \<and> i = 0 \<and> h = None)
      then Inr (mk_account t (sha3_256 L (combine_seed_and_index
             (sha3_256 L (to_public_key_with_type a @ (case h of None \<Rightarrow> to_opening_hash L a | Some x \<Rightarrow> x))) i)))
      else Inl InvalidIdentifierConstruction)"
  by (auto simp: generate_identifier_def identifier_from_seed_ok is_identifier_iff
      to_public_key_with_type_def public_key_with_type_def split: option.splits)

end

end
