(* ===== verification/CryptoRef.thy ===== *)
theory CryptoRef
  imports Account
begin

text \<open>
  An executable instance of the third-party functions that \<open>Account\<close> is parametric in: base32 and
  hex are the RFC 4648 encodings; the digest keeps the last 32 bytes and stands in for SHA3-256,
  of which the development only relies on the length; key parsing accepts every string
  of 33 or 65 octets and compresses to the first 33.  It discharges \<open>crypto_laws\<close>, so that the theorems
  about the model can be evaluated on concrete inputs.
\<close>

section \<open>Bit groups\<close>

definition bits_of :: "nat \<Rightarrow> nat \<Rightarrow> bool list" where
  "bits_of w n = map (\<lambda>i. odd (n div 2 ^ (w - Suc i))) [0..<w]"

fun of_bits :: "bool list \<Rightarrow> nat" where
  "of_bits [] = 0"
| "of_bits (b # bs) = (if b then 2 ^ length bs else 0) + of_bits bs"

function chunks :: "nat \<Rightarrow> 'a list \<Rightarrow> 'a list list" where
  "chunks n xs = (if n = 0 \<or> xs = [] then [] else take n xs # chunks n (drop n xs))"
  by auto
termination by (relation "measure (\<lambda>(n, xs). length xs)") auto

declare chunks.simps [simp del]

lemma chunks_Nil [simp]: "chunks n [] = []"
  by (simp add: chunks.simps)

lemma chunks_append [simp]: "length xs = n \<Longrightarrow> 0 < n \<Longrightarrow> chunks n (xs @ ys) = xs # chunks n ys"
  by (subst chunks.simps) auto

lemma chunks_concat: "0 < n \<Longrightarrow> (\<And>x. x \<in> set xs \<Longrightarrow> length x = n) \<Longrightarrow> chunks n (concat xs) = xs"
  by (induction xs) auto

lemma concat_chunks: "0 < n \<Longrightarrow> concat (chunks n xs) = xs"
  by (induction n xs rule: chunks.induct) (subst chunks.simps, auto)

lemma length_bits_of [simp]: "length (bits_of w n) = w"
  by (simp add: bits_of_def)

lemma bits_of_Suc: "bits_of (Suc w) n = odd (n div 2 ^ w) # bits_of w n"
  by (auto simp: bits_of_def upt_conv_Cons map_Suc_upt[symmetric] simp del: upt_Suc)

lemma of_bits_bits_of: "of_bits (bits_of w n) = n mod 2 ^ w"
proof (induction w)
  case (Suc w)
  have "n mod 2 ^ Suc w = 2 ^ w * (n div 2 ^ w mod 2) + n mod 2 ^ w"
    by (simp add: mult.commute[of 2] mod_mult2_eq)
  then show ?case using Suc by (auto simp: bits_of_Suc odd_iff_mod_2_eq_one)
qed (simp add: bits_of_def)

lemma of_bits_less: "of_bits bs < 2 ^ length bs"
  by (induction bs) auto

lemma bits_of_of_bits: "length bs = w \<Longrightarrow> bits_of w (of_bits bs) = bs"
proof (induction w arbitrary: bs)
  case (Suc w)
  then obtain b bs' where bs: "bs = b # bs'" "length bs' = w" by (cases bs) auto
  have "bits_of w (of_bits bs) = bits_of w (of_bits bs')"
  proof -
    have "bits_of w (2 ^ w + m) = bits_of w m" for m
      unfolding bits_of_def
    proof (intro map_cong refl)
      fix i assume "i \<in> set [0..<w]"
      then have "w = (w - Suc i) + Suc i" by auto
      then have "(2::nat) ^ w = 2 ^ (w - Suc i) * (2 * 2 ^ i)" by (metis power_Suc power_add)
      then have "(2 ^ w + m) div 2 ^ (w - Suc i) = 2 * 2 ^ i + m div 2 ^ (w - Suc i)" by simp
      then show "odd ((2 ^ w + m) div 2 ^ (w - Suc i)) = odd (m div 2 ^ (w - Suc i))" by simp
    qed
    then show ?thesis using bs by simp
  qed
  moreover have "odd (of_bits bs div 2 ^ w) = b"
    using bs of_bits_less[of bs'] by (auto simp: div_add_self1)
  ultimately show ?case using bs Suc.IH[of bs'] by (simp add: bits_of_Suc)
qed (simp add: bits_of_def)

section \<open>Hex\<close>

definition hex_char :: "nat \<Rightarrow> char" where
  "hex_char n = ''0123456789abcdef'' ! n"

fun position :: "char \<Rightarrow> string \<Rightarrow> nat option" where
  "position c [] = None"
| "position c (x # xs) = (if c = x then Some 0 else map_option Suc (position c xs))"

definition hex_value :: "char \<Rightarrow> nat option" where
  "hex_value c =
     (case position c ''0123456789abcdef'' of Some n \<Rightarrow> Some n | None \<Rightarrow> position c ''0123456789ABCDEF'')"

lemma position_nth: "distinct s \<Longrightarrow> n < length s \<Longrightarrow> position (s ! n) s = Some n"
  by (induction s arbitrary: n) (auto simp: nth_Cons' less_Suc_eq_0_disj)

definition ref_hex_encode :: "bytes \<Rightarrow> string" where
  "ref_hex_encode bs = concat (map (\<lambda>b. [hex_char (unat b div 16), hex_char (unat b mod 16)]) bs)"

fun ref_hex_decode :: "string \<Rightarrow> bytes option" where
  "ref_hex_decode [] = Some []"
| "ref_hex_decode [c] = None"
| "ref_hex_decode (c # d # cs) =
     (case (hex_value c, hex_value d, ref_hex_decode cs) of
        (Some h, Some l, Some bs) \<Rightarrow> Some (word_of_nat (16 * h + l) # bs)
      | _ \<Rightarrow> None)"

lemma hex_value_char [simp]: "n < 16 \<Longrightarrow> hex_value (hex_char n) = Some n"
  unfolding hex_value_def hex_char_def using position_nth[of "''0123456789abcdef''" n] by simp

lemma byte_unat_less [simp]: "unat (b :: byte) < 256"
  using unsigned_less[of b] by simp

lemma ref_hex_roundtrip: "ref_hex_decode (ref_hex_encode bs) = Some bs"
proof (induction bs)
  case (Cons b bs)
  have "unat b div 16 < 16" using byte_unat_less[of b] by linarith
  moreover have "word_of_nat (16 * (unat b div 16) + unat b mod 16) = b" by simp
  ultimately show ?case using Cons by (simp add: ref_hex_encode_def)
qed (simp add: ref_hex_encode_def)

definition ref_hex_encode_upper :: "bytes \<Rightarrow> string" where
  "ref_hex_encode_upper bs =
     concat (map (\<lambda>b. [''0123456789ABCDEF'' ! (unat b div 16), ''0123456789ABCDEF'' ! (unat b mod 16)]) bs)"

lemma hex_value_upper [simp]: "n < 16 \<Longrightarrow> hex_value (''0123456789ABCDEF'' ! n) = Some n"
proof -
  have "list_all (\<lambda>n. hex_value (''0123456789ABCDEF'' ! n) = Some n) [0..<16]" by code_simp
  then show "n < 16 \<Longrightarrow> hex_value (''0123456789ABCDEF'' ! n) = Some n" by (simp only: list_all_iff set_upt) simp
qed

lemma ref_hex_upper_roundtrip: "ref_hex_decode (ref_hex_encode_upper bs) = Some bs"
proof (induction bs)
  case (Cons b bs)
  have "unat b div 16 < 16" using byte_unat_less[of b] by linarith
  moreover have "word_of_nat (16 * (unat b div 16) + unat b mod 16) = b" by simp
  ultimately show ?case using Cons by (simp add: ref_hex_encode_upper_def del: nth_Cons_numeral)
qed (simp add: ref_hex_encode_upper_def)

lemma ref_hex_upper_length: "length (ref_hex_encode_upper bs) = 2 * length bs"
  by (induction bs) (simp_all add: ref_hex_encode_upper_def)

section \<open>Base32\<close>

definition pad5 :: "bool list \<Rightarrow> bool list" where
  "pad5 bs = bs @ replicate ((5 - length bs mod 5) mod 5) False"

definition byte_bits :: "bytes \<Rightarrow> bool list" where
  "byte_bits bs = concat (map (\<lambda>b. bits_of 8 (unat b)) bs)"

definition ref_base32_encode :: "bytes \<Rightarrow> string" where
  "ref_base32_encode bs = map (\<lambda>g. b32_char (of_bits g)) (chunks 5 (pad5 (byte_bits bs)))"

definition b32_value :: "char \<Rightarrow> nat option" where
  "b32_value c = position c ''abcdefghijklmnopqrstuvwxyz234567''"

definition ref_base32_decode :: "string \<Rightarrow> bytes option" where
  "ref_base32_decode cs =
     (if list_all (\<lambda>c. b32_value c \<noteq> None) cs
      then (let bits = concat (map (\<lambda>c. bits_of 5 (the (b32_value c))) cs);
                n = length bits div 8
            in Some (map (\<lambda>g. word_of_nat (of_bits g)) (chunks 8 (take (8 * n) bits))))
      else None)"

lemma b32_value_char [simp]: "n < 32 \<Longrightarrow> b32_value (b32_char n) = Some n"
  unfolding b32_value_def b32_char_def by (rule position_nth) auto

lemma pad5_length: "\<exists>k. length (pad5 bs) = 5 * k \<and> length (pad5 bs) < length bs + 5"
proof -
  have "5 dvd length (pad5 bs)"
  proof -
    have "(n + (5 - n mod 5)) mod 5 = 0" for n :: nat
    proof -
      have "n + (5 - n mod 5) = 5 * (n div 5) + 5"
        using mult_div_mod_eq[of 5 n] mod_less_divisor[of 5 n] by linarith
      then show ?thesis by simp
    qed
    then show ?thesis unfolding pad5_def by (simp add: dvd_eq_mod_eq_0 mod_add_right_eq)
  qed
  moreover have "(5 - length bs mod 5) mod 5 < (5::nat)" by simp
  ultimately show ?thesis unfolding pad5_def by (auto elim: dvdE)
qed

lemma chunks_length:
  assumes "0 < n" and "n dvd length xs" and "g \<in> set (chunks n xs)"
  shows "length g = n"
  using assms
proof (induction n xs rule: chunks.induct)
  case (1 n xs)
  show ?case
  proof (cases "xs = []")
    case False
    then have le: "n \<le> length xs" using 1 by (simp add: dvd_imp_le)
    then have "n dvd length (drop n xs)" using 1 by (simp add: dvd_minus_self)
    moreover have "chunks n xs = take n xs # chunks n (drop n xs)"
      using 1(2) False by (subst chunks.simps) auto
    ultimately show ?thesis using 1 False le by auto
  qed (use 1 in simp)
qed

lemma length_byte_bits [simp]: "length (byte_bits bs) = 8 * length bs"
  by (induction bs) (auto simp: byte_bits_def)

lemma byte_bits_decode: "map (\<lambda>g. word_of_nat (of_bits g)) (chunks 8 (byte_bits bs)) = bs"
proof -
  have "chunks 8 (byte_bits bs) = map (\<lambda>b. bits_of 8 (unat b)) bs"
    unfolding byte_bits_def by (rule chunks_concat) auto
  then show ?thesis by (auto simp: of_bits_bits_of comp_def intro!: map_idI)
qed

lemma ref_base32_roundtrip: "ref_base32_decode (ref_base32_encode bs) = Some bs"
proof -
  let ?p = "pad5 (byte_bits bs)"
  obtain k where k: "length ?p = 5 * k" "length ?p < 8 * length bs + 5"
    using pad5_length[of "byte_bits bs"] by auto
  have g: "length g = 5" if "g \<in> set (chunks 5 ?p)" for g
    using chunks_length[of 5 ?p g] that k(1) by simp
  have lt: "of_bits g < 32" if "g \<in> set (chunks 5 ?p)" for g
    using of_bits_less[of g] g[OF that] by simp
  have "list_all (\<lambda>c. b32_value c \<noteq> None) (ref_base32_encode bs)"
    using lt by (auto simp: ref_base32_encode_def list_all_iff)
  moreover have "concat (map (\<lambda>c. bits_of 5 (the (b32_value c))) (ref_base32_encode bs)) =
      concat (map (\<lambda>g. g) (chunks 5 ?p))"
    unfolding ref_base32_encode_def map_map comp_def
    by (rule arg_cong[where f = concat], rule map_cong) (simp_all add: lt g bits_of_of_bits)
  then have "concat (map (\<lambda>c. bits_of 5 (the (b32_value c))) (ref_base32_encode bs)) = ?p"
    by (simp add: concat_chunks)
  moreover have "8 * (length ?p div 8) = 8 * length bs"
  proof -
    have "8 * length bs \<le> length ?p" by (simp add: pad5_def)
    then show ?thesis using k(2) by simp
  qed
  moreover have "take (8 * length bs) ?p = byte_bits bs"
    by (simp add: pad5_def)
  ultimately show ?thesis
    by (simp add: ref_base32_decode_def Let_def byte_bits_decode)
qed

lemma bits_of_8: "bits_of 8 n =
  [odd (n div 128), odd (n div 64), odd (n div 32), odd (n div 16), odd (n div 8), odd (n div 4),
   odd (n div 2), odd n]"
  by (simp add: bits_of_def upt_rec)

lemma of_bits_5:
  "of_bits [odd (n div 128), odd (n div 64), odd (n div 32), odd (n div 16), odd (n div 8)] = n div 8 mod 32"
proof -
  have "bits_of 5 (n div 8) = [odd (n div 128), odd (n div 64), odd (n div 32), odd (n div 16), odd (n div 8)]"
    by (simp add: bits_of_def upt_rec div_mult2_eq[symmetric])
  then show ?thesis using of_bits_bits_of[of 5 "n div 8"] by simp
qed

lemma of_bits_3_2:
  assumes "m < 256"
  shows "of_bits [odd (n div 4), odd (n div 2), odd n, odd (m div 128), odd (m div 64)] = n mod 8 * 4 + m div 64"
proof -
  have "n mod 8 = of_bits [odd (n div 4), odd (n div 2), odd n]"
    using of_bits_bits_of[of 3 n] by (simp add: bits_of_def upt_rec)
  moreover have "m div 64 = of_bits [odd (m div 128), odd (m div 64)]"
    using of_bits_bits_of[of 2 "m div 64"] assms
    by (simp add: bits_of_def upt_rec div_mult2_eq[symmetric])
  moreover have "of_bits [a, b, c, d, e] = of_bits [a, b, c] * 4 + of_bits [d, e]" for a b c d e
    by simp
  ultimately show ?thesis by presburger
qed

lemma ref_base32_head:
  assumes "2 \<le> length bs"
  shows "take 2 (ref_base32_encode bs) =
    [b32_char (unat (bs ! 0) div 8), b32_char (unat (bs ! 0) mod 8 * 4 + unat (bs ! 1) div 64)]"
proof -
  obtain a b cs where bs: "bs = a # b # cs"
    using assms by (cases bs; cases "tl bs") auto
  define n m where "n = unat a" and "m = unat b"
  have lt: "n < 256" "m < 256" by (simp_all add: n_def m_def)
  let ?g1 = "[odd (n div 128), odd (n div 64), odd (n div 32), odd (n div 16), odd (n div 8)]"
  let ?g2 = "[odd (n div 4), odd (n div 2), odd n, odd (m div 128), odd (m div 64)]"
  let ?r = "[odd (m div 32), odd (m div 16), odd (m div 8), odd (m div 4), odd (m div 2), odd m]"
  have "pad5 (byte_bits bs) = ?g1 @ ?g2 @
      (?r @ byte_bits cs @ replicate ((5 - length (byte_bits bs) mod 5) mod 5) False)"
    by (simp add: pad5_def byte_bits_def bs bits_of_8 n_def m_def)
  then obtain r where "pad5 (byte_bits bs) = ?g1 @ ?g2 @ r" by blast
  then have r: "chunks 5 (pad5 (byte_bits bs)) = ?g1 # ?g2 # chunks 5 r"
    using chunks_append[of ?g1 5 "?g2 @ r"] chunks_append[of ?g2 5 r] by simp
  have "take 2 (ref_base32_encode bs) = [b32_char (of_bits ?g1), b32_char (of_bits ?g2)]"
    unfolding ref_base32_encode_def r by (simp add: numeral_2_eq_2 del: of_bits.simps)
  moreover have "n div 8 mod 32 = n div 8" using lt by simp
  ultimately show ?thesis
    unfolding of_bits_5 of_bits_3_2[OF lt(2)] by (simp add: bs n_def m_def)
qed

section \<open>The instance\<close>

definition ref_hash :: "bytes \<Rightarrow> bytes" where
  "ref_hash bs = take 32 (rev bs @ replicate 32 0)"

definition ref_compress :: "bytes \<Rightarrow> bytes option" where
  "ref_compress bs = (if length bs = 33 then Some bs else if length bs = 65 then Some (take 33 bs) else None)"

definition ref_lib :: crypto_lib where
  "ref_lib = \<lparr> sha3_256 = ref_hash, base32_encode = ref_base32_encode, base32_decode = ref_base32_decode,
     hex_encode = ref_hex_encode, hex_encode_upper = ref_hex_encode_upper, hex_decode = ref_hex_decode, k256_compress = ref_compress,
     p256_compress = ref_compress, ed25519_point = (\<lambda>_. True) \<rparr>"

lemma ref_lib_sel [simp]:
  "sha3_256 ref_lib = ref_hash" "base32_encode ref_lib = ref_base32_encode"
  "base32_decode ref_lib = ref_base32_decode" "hex_encode ref_lib = ref_hex_encode"
  "hex_encode_upper ref_lib = ref_hex_encode_upper"
  "hex_decode ref_lib = ref_hex_decode" "k256_compress ref_lib = ref_compress"
  "p256_compress ref_lib = ref_compress" "ed25519_point ref_lib k"
  by (simp_all add: ref_lib_def)

interpretation ref: crypto_laws ref_lib
proof unfold_locales
  show "length (sha3_256 ref_lib bs) = 32" for bs
    by (simp add: ref_hash_def)
qed (auto simp: ref_hex_upper_roundtrip ref_hex_upper_length ref_base32_roundtrip ref_base32_head ref_hex_roundtrip ref_compress_def split: if_splits)

end
