(* ===== verification/AccountProps.thy ===== *)
theory AccountProps
  imports CryptoRef
begin

text \<open>
  Properties of accounts and addresses, for every third-party library that satisfies
  \<open>crypto_laws\<close>; the witnesses are at the reference library of \<open>CryptoRef\<close>.
\<close>

section \<open>Addresses\<close>

text \<open>C36: printing an account as an address and parsing the address gives the account back, for
  all seven key types, so no two well-formed accounts share an address.\<close>
theorem account_string_roundtrip:
  assumes "crypto_laws L" and "wf_account L a"
  shows "account_from_str L (account_to_string L a) = Inr a"
  by (rule crypto_laws.account_from_str_roundtrip[OF assms])

theorem account_string_roundtrip_witness:
  "account_from_str ref_lib (account_to_string ref_lib (Token (replicate 32 7))) = Inr (Token (replicate 32 7))"
  by (rule account_string_roundtrip[OF ref.crypto_laws_axioms]) (simp add: wf_account_def)

lemma decode_public_key_string_ok:
  "decode_public_key_string L s = Inr (t, k) \<longleftrightarrow>
     (\<exists>payload. s = ''keeta_'' @ payload \<and> (\<exists>check. length check = 5 \<and>
        base32_decode L payload = Some ((t # k) @ check) \<and> check = take 5 (sha3_256 L (t # k))))"
  (is "?lhs \<longleftrightarrow> ?rhs")
proof
  assume ?lhs
  then obtain payload d where s: "s = ''keeta_'' @ payload" and d: "base32_decode L payload = Some d" "6 \<le> length d"
    and c: "drop (length d - 5) d = take 5 (sha3_256 L (take (length d - 5) d))"
    and tk: "t = d ! 0" "k = drop 1 (take (length d - 5) d)"
    unfolding decode_public_key_string_def Let_def
    by (auto simp: strip_prefix_eq_Some simp del: append.simps split: if_splits option.splits)
  define check where "check = drop (length d - 5) d"
  have key: "t # k = take (length d - 5) d"
    using d(2) tk by (cases d) (auto simp: take_Cons' drop_Cons')
  then have "d = (t # k) @ check" by (simp add: check_def)
  moreover have "length check = 5" using d(2) by (simp add: check_def)
  moreover have "check = take 5 (sha3_256 L (t # k))" unfolding key check_def by (rule c)
  ultimately show ?rhs using s d(1) by blast
next
  assume ?rhs
  then obtain payload check where s: "s = ''keeta_'' @ payload" and "length check = 5"
    "base32_decode L payload = Some ((t # k) @ check)" "check = take 5 (sha3_256 L (t # k))" by blast
  moreover have "strip_prefix ''keeta_'' s = Some payload" unfolding s by (rule strip_prefix_append)
  ultimately show ?lhs by (simp add: decode_public_key_string_def)
qed

text \<open>The decoder accepts exactly the strings with the prefix \<open>keeta_\<close> whose base-32 payload
  is the type octet, the key and the first five octets of the hash of type and key.\<close>
theorem decode_public_key_string_spec:
  "(decode_public_key_string L s = Inr (t, k)) =
     (\<exists>payload. s = ''keeta_'' @ payload \<and> (\<exists>check. length check = 5 \<and>
        base32_decode L payload = Some ((t # k) @ check) \<and> check = take 5 (sha3_256 L (t # k))))"
  by (rule decode_public_key_string_ok)

text \<open>The length guard of the decoder admits an address without any key octet: a type octet
  followed by its checksum decodes to an empty key.\<close>
theorem decode_accepts_empty_key:
  assumes "crypto_laws L"
  shows "decode_public_key_string L (''keeta_'' @ base32_encode L (t # take 5 (sha3_256 L [t]))) = Inr (t, [])"
proof -
  have "length (take 5 (sha3_256 L [t])) = 5" using crypto_laws.sha3_length[OF assms] by simp
  then show ?thesis
    unfolding decode_public_key_string_ok
    by (intro exI conjI) (auto simp: crypto_laws.base32_roundtrip[OF assms])
qed

theorem decode_accepts_empty_key_witness:
  "decode_public_key_string ref_lib (''keeta_'' @ base32_encode ref_lib (1 # take 5 (sha3_256 ref_lib [1]))) =
     Inr (1, [])"
  by (rule decode_accepts_empty_key[OF ref.crypto_laws_axioms])

section \<open>Typed keys\<close>

text \<open>An account parsed from its typed octets (type octet and key) is well-formed, and its own
  typed octets parse back to it; the typed octets determine the account.\<close>
theorem typed_key_parse_sound:
  assumes "crypto_laws L" and "parse_account_with_type L bs = Inr a"
  shows "wf_account L a \<and> parse_account_with_type L (to_public_key_with_type a) = Inr a"
  using crypto_laws.parse_account_with_type_wf[OF assms]
    crypto_laws.parse_account_with_type_roundtrip[OF assms(1)] by blast

theorem typed_key_parse_sound_witness:
  "parse_account_with_type ref_lib (to_public_key_with_type (Storage (replicate 32 9))) = Inr (Storage (replicate 32 9))"
proof -
  have "parse_account_with_type ref_lib (4 # replicate 32 9) = Inr (Storage (replicate 32 9))"
    by (simp add: ref.parse_account_with_type_Cons keypair_type_of_byte_def is_identifier_iff)
  from typed_key_parse_sound[OF ref.crypto_laws_axioms this] show ?thesis by blast
qed

section \<open>Derived identifiers\<close>

text \<open>Identifier generation succeeds exactly when the requested type is an identifier type and
  the parent either holds a key or is the network account creating its base token (index 0, no
  block hash); the result is the account of the requested type whose key is the hash of the hashed
  parent and block hash followed by the big-endian operation index.\<close>
theorem generate_identifier_spec:
  assumes "crypto_laws L"
  shows "generate_identifier L a t h i =
     (if is_identifier t \<and>
         (is_identifier (to_keypair_type a) = False \<or>
            (to_keypair_type a = NETWORK \<and> t = TOKEN \<and> i = 0 \<and> h = None))
      then Inr (mk_account t (sha3_256 L (combine_seed_and_index
             (sha3_256 L (to_public_key_with_type a @ (case h of None \<Rightarrow> to_opening_hash L a | Some x \<Rightarrow> x))) i)))
      else Inl InvalidIdentifierConstruction)"
proof -
  have "(P \<longrightarrow> Q) = (P = False \<or> Q)" for P Q by blast
  then show ?thesis unfolding crypto_laws.generate_identifier_eq[OF assms] by simp
qed

theorem generate_identifier_spec_witness:
  "generate_identifier ref_lib (Token (replicate 32 0)) STORAGE None 0 = Inl InvalidIdentifierConstruction \<and>
   is_ok (generate_identifier ref_lib (Network (replicate 32 0)) TOKEN None 0)"
  unfolding generate_identifier_spec[OF ref.crypto_laws_axioms]
  by (simp add: is_identifier_iff is_ok_def)

section \<open>Encodings of one public key\<close>

text \<open>C39: a secp256r1 account keeps the octets its public key was parsed from, so the compressed and
  the uncompressed encoding of one key are two accounts, unequal and with different addresses,
  although the type documents the compressed form; a secp256k1 account keeps the compressed form
  and both encodings give the same account.\<close>
theorem secp256r1_key_two_accounts:
  assumes "crypto_laws L" and "p256_compress L uncompressed = Some compressed" and "length uncompressed = 65"
    and "k256_compress L other = Some other_compressed" and "length other = 65"
  shows "(\<exists>a b. parse_account_with_type L (keypair_type_id ECDSASECP256R1 # uncompressed) = Inr a \<and>
      parse_account_with_type L (keypair_type_id ECDSASECP256R1 # compressed) = Inr b \<and>
      account_eq a b = False \<and> account_to_string L a \<noteq> account_to_string L b) \<and>
    parse_account_with_type L (keypair_type_id ECDSASECP256K1 # other) =
      parse_account_with_type L (keypair_type_id ECDSASECP256K1 # other_compressed)"
proof -
  have c: "length compressed = 33" "p256_compress L compressed = Some compressed"
    using crypto_laws.p256_canonical[OF assms(1,2)] by auto
  let ?a = "EcdsaSecp256r1 uncompressed" and ?b = "EcdsaSecp256r1 compressed"
  have wf: "wf_account L ?a" "wf_account L ?b" using assms(2,3) c by (simp_all add: wf_account_def)
  then have "parse_account_with_type L (to_public_key_with_type ?a) = Inr ?a"
    "parse_account_with_type L (to_public_key_with_type ?b) = Inr ?b"
    using crypto_laws.parse_account_with_type_roundtrip[OF assms(1)] by blast+
  moreover have "?a \<noteq> ?b" using assms(3) c(1) by auto
  moreover have "account_to_string L ?a \<noteq> account_to_string L ?b"
    using crypto_laws.account_from_str_roundtrip[OF assms(1)] wf calculation(3) by (metis sum.inject(2))
  ultimately have r1: "\<exists>a b. parse_account_with_type L (keypair_type_id ECDSASECP256R1 # uncompressed) = Inr a \<and>
      parse_account_with_type L (keypair_type_id ECDSASECP256R1 # compressed) = Inr b \<and>
      account_eq a b = False \<and> account_to_string L a \<noteq> account_to_string L b"
    by (intro exI[of _ ?a] exI[of _ ?b]) (simp add: to_public_key_with_type_def public_key_with_type_def)
  have "k256_compress L other_compressed = Some other_compressed" "length other_compressed = 33"
    using crypto_laws.k256_canonical[OF assms(1,4)] by auto
  then show ?thesis
    using assms(4,5) r1
    by (simp add: crypto_laws.parse_account_with_type_Cons[OF assms(1)] keypair_type_of_byte_def is_identifier_iff
        crypto_key_from_public_key_def crypto_key_lengths_def public_key_try_from_def)
qed

theorem secp256r1_key_two_accounts_witness:
  "\<exists>a b. parse_account_with_type ref_lib (keypair_type_id ECDSASECP256R1 # replicate 65 4) = Inr a \<and>
     parse_account_with_type ref_lib (keypair_type_id ECDSASECP256R1 # replicate 33 4) = Inr b \<and>
     account_to_string ref_lib a \<noteq> account_to_string ref_lib b"
proof -
  have "ref_compress (replicate 65 4) = Some (replicate 33 4)" by (simp add: ref_compress_def)
  then show ?thesis
    using secp256r1_key_two_accounts[OF ref.crypto_laws_axioms, of "replicate 65 4" "replicate 33 4" "replicate 65 4" "replicate 33 4"]
    by auto
qed

end
