(* ===== verification/BlockError.thy ===== *)
theory BlockError
  imports Account
begin

text \<open>
  The error values of the ASN.1, crypto and block crates (\<open>asn1/src/error.rs\<close>,
  \<open>crypto/src/error.rs\<close>, \<open>block/src/error.rs\<close>).  Free-text payloads are dropped; every
  structured payload is kept.
\<close>

datatype vote_decode_slot =
    SlotWrapper | SlotWrapperExtraData | SlotTbsContent | SlotVersion | SlotVersionValue | SlotSerial
  | SlotSignatureAlgorithm | SlotIssuer | SlotValidity | SlotSubject | SlotSubjectPublicKey
  | SlotExtensions | SlotTbsExtraData | SlotWrapperSignatureAlgorithm | SlotSignatureValue

datatype vote_staple_decode_slot =
    StapleWrapper | StapleBlocks | StapleVotes | StapleWrapperExtraData

datatype asn1_error =
    DerError | InvalidOid | InvalidPublicKeyFormat | InvalidBlockVersion | InvalidVoteVersion
  | VoteDecode vote_decode_slot | VoteStapleDecode vote_staple_decode_slot

datatype crypto_error =
    CryptoInvalidKeyMaterial | CryptoKeyDerivationFailed | CryptoInvalidPublicKey
  | CryptoInvalidPrivateKey | CryptoSignatureVerificationFailed | CryptoSignatureError
  | CryptoUnsupportedAlgorithm | CryptoInternalError | CryptoInvalidLength | CryptoInvalidInput
  | CryptoEncryptionFailed | CryptoDecryptionFailed | CryptoInvalidOperation | CryptoInvalidKeySize
  | CryptoInvalidIvSize | CryptoEncryptionNotSupported

fun account_error_of_crypto :: "crypto_error \<Rightarrow> account_error" where
  "account_error_of_crypto CryptoInvalidKeyMaterial = InvalidConstruction"
| "account_error_of_crypto CryptoKeyDerivationFailed = InvalidConstruction"
| "account_error_of_crypto CryptoInvalidPrivateKey = InvalidConstruction"
| "account_error_of_crypto CryptoInvalidPublicKey = InvalidPrefix"
| "account_error_of_crypto CryptoInvalidLength = PassphraseWeak"
| "account_error_of_crypto CryptoInvalidInput = PassphraseWeak"
| "account_error_of_crypto CryptoUnsupportedAlgorithm = InvalidKeyType"
| "account_error_of_crypto CryptoSignatureVerificationFailed = InvalidConstruction"
| "account_error_of_crypto CryptoSignatureError = InvalidConstruction"
| "account_error_of_crypto CryptoEncryptionFailed = InvalidConstruction"
| "account_error_of_crypto CryptoDecryptionFailed = InvalidConstruction"
| "account_error_of_crypto CryptoInvalidOperation = InvalidConstruction"
| "account_error_of_crypto CryptoEncryptionNotSupported = EncryptionNotSupported"
| "account_error_of_crypto CryptoInternalError = InvalidConstruction"
| "account_error_of_crypto CryptoInvalidKeySize = InvalidKeyType"
| "account_error_of_crypto CryptoInvalidIvSize = InvalidConstruction"

datatype block_field =
  FieldVersion | FieldNetwork | FieldAccount | FieldPrevious | FieldSigner | FieldDate

datatype info_field = InfoName | InfoDescription | InfoMetadata

datatype (plugins only: code) block_error =
    CodecError asn1_error | AccountErr account_error | CryptoErr crypto_error | CertificateErr
  | InvalidVersion | PreviousSelf | NegativeNetwork | NegativeSubnet | UnknownNetwork
  | MultisigAccountForbidden | MissingField block_field | RedundantAccountField
  | SignatureRequired | SignatureCountMismatch nat nat | InvalidSignature nat bytes
  | InvalidSignatureLength nat | InvalidSignatureSequence | RecalculatedBytesMismatch
  | V1SingleSignerOnly | V1PurposeInvalid
  | IdempotentTooLong nat nat | FeePurposeRequiresSend nat | InvalidPurpose | InvalidOperationType
  | InvalidAdjustMethod | AdjustMethodSetForbidden
  | MultisigSignerDepthExceeded nat nat | MultisigSignerCountInvalid nat nat
  | MultisigSignerDuplicate | MultisigQuorumInvalid | MalformedSigner
  | AmountBelowZero | SupplyInvalid | TokenFieldNotToken | TokenOperationForbidden
  | TokenAccountRequired | TokenReceiveDiffers | ExternalTooLong nat nat | ExternalInvalid
  | ExternalMissing | ForwardToSelf | ForwardRequiresExact | IdentifierDelegationForbidden
  | MultipleSetRep | InfoFieldInvalid info_field | DefaultPermissionRequired
  | IdentifierAccountRequired | IdentifierInvalid | InvalidCreateIdentifierArguments
  | InvalidPrincipal | PermissionsRequireSet | AdminWithTarget | DelegationForbidden
  | DuplicatePermissionModification
  | PermissionsCannotMix | PermissionsExternalOffsetTooLarge nat nat | PermissionsInvalidDefault
  | PermissionsInvalidEntity | PermissionsInvalidPrincipal | PermissionsInvalidTarget
  | PermissionsExternalDefaultForbidden
  | InvalidCertificateValue | CertificateSubjectMismatch | IntermediateCertificatesOnlyAdd
  | DuplicateCertificateOperation

definition block_error_code :: "block_error \<Rightarrow> string option" where
  "block_error_code e =
     (case e of
        InvalidVersion \<Rightarrow> Some ''BLOCK_INVALID_VERSION''
      | PreviousSelf \<Rightarrow> Some ''BLOCK_PREVIOUS_SELF''
      | MultisigAccountForbidden \<Rightarrow> Some ''BLOCK_NO_MULTISIG_OP''
      | SignatureRequired \<Rightarrow> Some ''BLOCK_SIGNATURE_REQUIRED''
      | SignatureCountMismatch _ _ \<Rightarrow> Some ''BLOCK_INVALID_SIGNER''
      | V1SingleSignerOnly \<Rightarrow> Some ''BLOCK_INVALID_SIGNER''
      | InvalidSignature _ _ \<Rightarrow> Some ''BLOCK_INVALID_SIGNATURE''
      | RecalculatedBytesMismatch \<Rightarrow> Some ''BLOCK_INVALID_SIGNATURE''
      | IdempotentTooLong _ _ \<Rightarrow> Some ''BLOCK_INVALID_IDEMPOTENT_LENGTH''
      | FeePurposeRequiresSend _ \<Rightarrow> Some ''BLOCK_INVALID_PURPOSE_VALIDATION''
      | V1PurposeInvalid \<Rightarrow> Some ''BLOCK_INVALID_PURPOSE_VALIDATION''
      | InvalidOperationType \<Rightarrow> Some ''BLOCK_INVALID_TYPE''
      | MultisigSignerDepthExceeded _ _ \<Rightarrow> Some ''BLOCK_INVALID_MULTISIG_SIGNER_DEPTH''
      | MultisigSignerCountInvalid _ _ \<Rightarrow> Some ''BLOCK_INVALID_MULTISIG_SIGNER_COUNT''
      | MultisigSignerDuplicate \<Rightarrow> Some ''BLOCK_INVALID_MULTISIG_SIGNER_DUPLICATE''
      | MultisigQuorumInvalid \<Rightarrow> Some ''BLOCK_INVALID_MULTISIG_QUORUM''
      | AmountBelowZero \<Rightarrow> Some ''BLOCK_AMOUNT_BELOW_ZERO''
      | SupplyInvalid \<Rightarrow> Some ''BLOCK_SUPPLY_INVALID''
      | TokenFieldNotToken \<Rightarrow> Some ''BLOCK_CANNOT_SEND_NON_TOKEN''
      | TokenOperationForbidden \<Rightarrow> Some ''BLOCK_NO_TOKEN_OP''
      | TokenAccountRequired \<Rightarrow> Some ''BLOCK_ONLY_TOKEN_OP''
      | TokenReceiveDiffers \<Rightarrow> Some ''BLOCK_TOKEN_RECEIVE_DIFFERS''
      | ExternalTooLong _ _ \<Rightarrow> Some ''BLOCK_EXTERNAL_TOO_LONG''
      | ExternalInvalid \<Rightarrow> Some ''BLOCK_EXTERNAL_INVALID''
      | ExternalMissing \<Rightarrow> Some ''BLOCK_EXTERNAL_MISSING''
      | ForwardToSelf \<Rightarrow> Some ''BLOCK_CANNOT_FORWARD_TO_SELF''
      | ForwardRequiresExact \<Rightarrow> Some ''BLOCK_EXACT_TRUE_WHEN_FORWARDING''
      | IdentifierDelegationForbidden \<Rightarrow> Some ''BLOCK_NO_IDENTIFIER_OP''
      | MultipleSetRep \<Rightarrow> Some ''BLOCK_NO_MULTIPLE_SET_REP''
      | InfoFieldInvalid _ \<Rightarrow> Some ''BLOCK_GENERAL_FIELD_INVALID''
      | PermissionsExternalDefaultForbidden \<Rightarrow> Some ''BLOCK_GENERAL_FIELD_INVALID''
      | DefaultPermissionRequired \<Rightarrow> Some ''BLOCK_IDENTIFIER_NEED_DEFAULT_PERMISSIONS''
      | IdentifierAccountRequired \<Rightarrow> Some ''BLOCK_ONLY_IDENTIFIER_OP''
      | IdentifierInvalid \<Rightarrow> Some ''BLOCK_IDENTIFIER_INVALID''
      | InvalidCreateIdentifierArguments \<Rightarrow> Some ''BLOCK_INVALID_CREATE_IDENTIFIER_ARGS''
      | InvalidPrincipal \<Rightarrow> Some ''BLOCK_INVALID_PRINCIPAL''
      | AdminWithTarget \<Rightarrow> Some ''BLOCK_NO_ADMIN_ON_TARGET''
      | DelegationForbidden \<Rightarrow> Some ''BLOCK_NO_DELEGATE_ADMIN''
      | DuplicatePermissionModification \<Rightarrow> Some ''BLOCK_NO_MODIFY_PERMISSION_DUPE''
      | PermissionsCannotMix \<Rightarrow> Some ''PERMISSIONS_CANNOT_MIX_FLAGS_AND_TYPES''
      | PermissionsExternalOffsetTooLarge _ _ \<Rightarrow> Some ''PERMISSIONS_EXTERNAL_OFFSET_TOO_LARGE''
      | PermissionsInvalidDefault \<Rightarrow> Some ''BLOCK_PERMISSIONS_INVALID_DEFAULT''
      | PermissionsInvalidEntity \<Rightarrow> Some ''BLOCK_PERMISSIONS_INVALID_ENTITY''
      | PermissionsInvalidPrincipal \<Rightarrow> Some ''BLOCK_PERMISSIONS_INVALID_PRINCIPAL''
      | PermissionsInvalidTarget \<Rightarrow> Some ''BLOCK_PERMISSIONS_INVALID_TARGET''
      | InvalidCertificateValue \<Rightarrow> Some ''BLOCK_INVALID_CERTIFICATE_VALUE''
      | CertificateSubjectMismatch \<Rightarrow> Some ''BLOCK_CERTIFICATE_SUBJECT_MISMATCH''
      | IntermediateCertificatesOnlyAdd \<Rightarrow> Some ''BLOCK_INTERMEDIATE_CERTIFICATES_ONLY_ADD''
      | DuplicateCertificateOperation \<Rightarrow> Some ''BLOCK_NO_DUPLICATE_CERTIFICATE_OPERATION''
      | _ \<Rightarrow> None)"

end
