(* ===== verification/Permissions.thy ===== *)
theory Permissions
  imports BlockError
begin

unbundle bit_operations_syntax

text \<open>
  Account permissions (\<open>block/src/permissions.rs\<close>): the base flags with their bit offsets, the
  group rule of each flag, normalisation of a bit field into a flag set, the external offsets, and
  the question whether a permission set grants some flags.  \<open>BigInt\<close> is \<open>int\<close>, whose bits are
  those of the two's complement, as in the source.
\<close>

section \<open>Flags and their rules\<close>

datatype base_flag =
    Access | Owner | Admin | UpdateInfo | SendOnBehalf | TokenAdminCreate | TokenAdminSupplyFlag
  | TokenAdminModifyBalanceFlag | StorageCreate | StorageCanHold | StorageDeposit
  | PermissionDelegateAdd | PermissionDelegateRemove | ManageCertificateFlag | MultisigSignerFlag

fun flag_offset :: "base_flag \<Rightarrow> nat" where
  "flag_offset Access = 0"
| "flag_offset Owner = 1"
| "flag_offset Admin = 2"
| "flag_offset UpdateInfo = 3"
| "flag_offset SendOnBehalf = 4"
| "flag_offset TokenAdminCreate = 5"
| "flag_offset TokenAdminSupplyFlag = 6"
| "flag_offset TokenAdminModifyBalanceFlag = 7"
| "flag_offset StorageCreate = 8"
| "flag_offset StorageCanHold = 9"
| "flag_offset StorageDeposit = 10"
| "flag_offset PermissionDelegateAdd = 11"
| "flag_offset PermissionDelegateRemove = 12"
| "flag_offset ManageCertificateFlag = 13"
| "flag_offset MultisigSignerFlag = 14"

definition ALL_BASE_FLAGS :: "base_flag list" where
  "ALL_BASE_FLAGS =
     [Access, Owner, Admin, UpdateInfo, SendOnBehalf, TokenAdminCreate, TokenAdminSupplyFlag,
      TokenAdminModifyBalanceFlag, StorageCreate, StorageCanHold, StorageDeposit,
      PermissionDelegateAdd, PermissionDelegateRemove, ManageCertificateFlag, MultisigSignerFlag]"

datatype permission_group =
    GroupNever | GroupAny | GroupNonIdentifier | GroupNetwork | GroupToken | GroupStorage
  | GroupNonIdentifierOrMultisig | GroupMultisig

datatype group_kind = Entity | Principal | Target

record flag_rule =
  can_be_default :: bool
  entity_group :: permission_group
  principal_group :: permission_group
  target_group :: permission_group

fun rule_group :: "flag_rule \<Rightarrow> group_kind \<Rightarrow> permission_group" where
  "rule_group r Entity = entity_group r"
| "rule_group r Principal = principal_group r"
| "rule_group r Target = target_group r"

definition mk_rule ::
    "bool \<Rightarrow> permission_group \<Rightarrow> permission_group \<Rightarrow> permission_group \<Rightarrow> flag_rule" where
  "mk_rule d e p t = \<lparr>can_be_default = d, entity_group = e, principal_group = p, target_group = t\<rparr>"

fun rule_for :: "base_flag \<Rightarrow> flag_rule" where
  "rule_for Access = mk_rule True GroupAny GroupAny GroupAny"
| "rule_for Owner = mk_rule False GroupAny GroupNonIdentifier GroupNever"
| "rule_for Admin = mk_rule False GroupAny GroupNonIdentifier GroupNever"
| "rule_for UpdateInfo = mk_rule False GroupAny GroupNonIdentifier GroupNever"
| "rule_for SendOnBehalf = mk_rule False GroupAny GroupNonIdentifier GroupToken"
| "rule_for StorageCreate = mk_rule True GroupNetwork GroupNonIdentifier GroupNever"
| "rule_for TokenAdminCreate = mk_rule True GroupNetwork GroupNonIdentifier GroupNever"
| "rule_for StorageCanHold = mk_rule True GroupStorage GroupToken GroupNever"
| "rule_for StorageDeposit = mk_rule True GroupStorage GroupAny GroupToken"
| "rule_for TokenAdminSupplyFlag = mk_rule False GroupToken GroupNonIdentifier GroupNever"
| "rule_for TokenAdminModifyBalanceFlag = mk_rule False GroupToken GroupNonIdentifier GroupAny"
| "rule_for PermissionDelegateAdd = mk_rule False GroupAny GroupNonIdentifier GroupAny"
| "rule_for PermissionDelegateRemove = mk_rule False GroupAny GroupNonIdentifier GroupAny"
| "rule_for ManageCertificateFlag = mk_rule True GroupAny GroupAny GroupNever"
| "rule_for MultisigSignerFlag = mk_rule False GroupMultisig GroupNonIdentifierOrMultisig GroupNever"

definition bit_set :: "int \<Rightarrow> nat \<Rightarrow> bool" where
  "bit_set bits offset \<longleftrightarrow> bits AND push_bit offset 1 \<noteq> 0"

fun account_matches_group :: "permission_group \<Rightarrow> generic_account \<Rightarrow> bool" where
  "account_matches_group GroupAny a = True"
| "account_matches_group GroupNever a = False"
| "account_matches_group GroupNonIdentifier a =
     (\<not> is_identifier (to_keypair_type a) \<or> to_keypair_type a = MULTISIG)"
| "account_matches_group GroupNonIdentifierOrMultisig a =
     (\<not> is_identifier (to_keypair_type a) \<or> to_keypair_type a = MULTISIG)"
| "account_matches_group GroupNetwork a = (to_keypair_type a = NETWORK)"
| "account_matches_group GroupToken a = (to_keypair_type a = TOKEN)"
| "account_matches_group GroupStorage a = (to_keypair_type a = STORAGE)"
| "account_matches_group GroupMultisig a = (to_keypair_type a = MULTISIG)"

section \<open>Base sets\<close>

record base_set =
  base_bits :: int
  base_flags :: "base_flag list"

fun compute_flag_group_from ::
    "group_kind \<Rightarrow> permission_group \<Rightarrow> base_flag list \<Rightarrow> block_error + permission_group" where
  "compute_flag_group_from kind final_group [] = Ok final_group"
| "compute_flag_group_from kind final_group (flag # flags) =
     (let found = rule_group (rule_for flag) kind in
      if found = GroupAny \<or> found = final_group then compute_flag_group_from kind final_group flags
      else if found = GroupNever then Ok found
      else if final_group = GroupAny then compute_flag_group_from kind found flags
      else Err PermissionsCannotMix)"

definition compute_flag_group :: "group_kind \<Rightarrow> base_flag list \<Rightarrow> block_error + permission_group" where
  "compute_flag_group kind flags = compute_flag_group_from kind GroupAny flags"

definition raw_flags :: "int \<Rightarrow> base_flag list" where
  "raw_flags bits = filter (\<lambda>f. bit_set bits (flag_offset f)) ALL_BASE_FLAGS"

definition override_flags :: "base_flag list \<Rightarrow> base_flag list" where
  "override_flags raw =
     (let flags = (if Owner \<in> set raw then [Owner] else raw);
          flags = (if Admin \<in> set flags then [Admin] else flags)
      in if flags \<noteq> [] \<and> Access \<notin> set flags then flags @ [Access] else flags)"

definition rewrite_bit :: "base_flag list \<Rightarrow> base_flag \<Rightarrow> int \<Rightarrow> int" where
  "rewrite_bit flags flag bits =
     (let mask = push_bit (flag_offset flag) 1 in
      if flag \<in> set flags then bits OR mask
      else if bit_set bits (flag_offset flag) then bits XOR mask
      else bits)"

definition base_set_try_from :: "int \<Rightarrow> block_error + base_set" where
  "base_set_try_from bits =
     (let raw = raw_flags bits in
      and_then (compute_flag_group Entity raw) (\<lambda>_.
      and_then (compute_flag_group Principal raw) (\<lambda>_.
      and_then (compute_flag_group Target raw) (\<lambda>_.
      let flags = override_flags raw in
      Ok \<lparr>base_bits = fold (rewrite_bit flags) ALL_BASE_FLAGS bits, base_flags = flags\<rparr>))))"

definition base_set_from_flags :: "base_flag list \<Rightarrow> block_error + base_set" where
  "base_set_from_flags flags =
     base_set_try_from (fold (\<lambda>f bits. bits OR push_bit (flag_offset f) 1) flags 0)"

definition has_flags :: "base_set \<Rightarrow> base_flag list \<Rightarrow> bool" where
  "has_flags s flags \<longleftrightarrow> list_all (\<lambda>f. f \<in> set (base_flags s)) flags"

definition is_valid_for_default :: "base_set \<Rightarrow> bool" where
  "is_valid_for_default s \<longleftrightarrow> list_all (\<lambda>f. can_be_default (rule_for f)) (base_flags s)"

definition check_account_matches_group :: "base_set \<Rightarrow> group_kind \<Rightarrow> generic_account option \<Rightarrow> bool" where
  "check_account_matches_group s kind account =
     (case compute_flag_group kind (base_flags s) of
        Inl _ \<Rightarrow> False
      | Inr g \<Rightarrow>
          (case account of
             None \<Rightarrow> kind = Target \<or> g = GroupNever
           | Some a \<Rightarrow> account_matches_group g a))"

section \<open>External sets and permissions\<close>

record external_set =
  external_bits :: int

fun radix2_digits :: "nat \<Rightarrow> nat" where
  "radix2_digits n = (if n < 2 then 1 else Suc (radix2_digits (n div 2)))"

definition to_str_radix2_len :: "int \<Rightarrow> nat" where
  "to_str_radix2_len n = (if n < 0 then 1 else 0) + radix2_digits (nat \<bar>n\<bar>)"

definition has_offset :: "external_set \<Rightarrow> byte \<Rightarrow> bool" where
  "has_offset s offset = bit_set (external_bits s) (unat offset)"

definition external_set_validate :: "external_set \<Rightarrow> nat \<Rightarrow> block_error + unit" where
  "external_set_validate s max_external_offset =
     (let size = to_str_radix2_len (external_bits s) in
      if size \<ge> max_external_offset
      then Err (PermissionsExternalOffsetTooLarge size max_external_offset) else Ok ())"

record permissions =
  perm_base :: base_set
  perm_external :: external_set

definition permissions_from_bigints :: "int \<Rightarrow> int \<Rightarrow> block_error + permissions" where
  "permissions_from_bigints base external =
     and_then (base_set_try_from base) (\<lambda>b.
       Ok \<lparr>perm_base = b, perm_external = \<lparr>external_bits = external\<rparr>\<rparr>)"

definition permissions_from_flags :: "base_flag list \<Rightarrow> byte list \<Rightarrow> block_error + permissions" where
  "permissions_from_flags flags external_offsets =
     (let external = fold (\<lambda>off bits. bits OR push_bit (unat off) 1) external_offsets 0 in
      and_then (base_set_from_flags flags) (\<lambda>b.
        Ok \<lparr>perm_base = b, perm_external = \<lparr>external_bits = external\<rparr>\<rparr>))"

definition permissions_validate :: "permissions \<Rightarrow> nat \<Rightarrow> block_error + unit" where
  "permissions_validate p max_external_offset = external_set_validate (perm_external p) max_external_offset"

definition permissions_has :: "permissions \<Rightarrow> base_flag list \<Rightarrow> byte list \<Rightarrow> bool" where
  "permissions_has p flags offsets =
     (if flags = [] \<and> offsets = [] then True
      else if \<not> has_flags (perm_base p) [Access] then False
      else if has_flags (perm_base p) [Owner] then True
      else if Owner \<notin> set flags \<and> has_flags (perm_base p) [Admin] then True
      else list_all (\<lambda>f. has_flags (perm_base p) [f]) flags \<and>
           list_all (has_offset (perm_external p)) offsets)"

definition can_use_delegation :: "permissions \<Rightarrow> bool" where
  "can_use_delegation p \<longleftrightarrow>
     \<not> list_ex (\<lambda>f. permissions_has p [f] []) [Admin, PermissionDelegateAdd, PermissionDelegateRemove]"

section \<open>Bits\<close>

lemma bit_set_iff [simp]: "bit_set bits n \<longleftrightarrow> bit bits n"
proof -
  have "bits AND push_bit n 1 = (if bit bits n then push_bit n 1 else 0)"
    by (rule bit_eqI) (auto simp: bit_and_iff bit_exp_iff)
  then show ?thesis by (simp add: bit_set_def push_bit_eq_mult)
qed

lemma flag_offset_inject [simp]: "flag_offset f = flag_offset g \<longleftrightarrow> f = g"
  by (cases f; cases g) simp_all

lemma flag_offset_less: "flag_offset f < 15"
  by (cases f) simp_all

lemma flag_in_all [simp]: "f \<in> set ALL_BASE_FLAGS"
  by (cases f) (simp_all add: ALL_BASE_FLAGS_def)

lemma set_ALL_BASE_FLAGS [simp]: "set ALL_BASE_FLAGS = UNIV"
  by auto

lemma distinct_ALL_BASE_FLAGS [simp]: "distinct ALL_BASE_FLAGS"
  by (simp add: ALL_BASE_FLAGS_def)

lemma offset_is_flag: "n < 15 \<Longrightarrow> \<exists>f. n = flag_offset f"
proof -
  assume "n < 15"
  then have "n \<in> set (map flag_offset ALL_BASE_FLAGS)"
    by (auto simp: ALL_BASE_FLAGS_def numeral_eq_Suc less_Suc_eq)
  then show ?thesis by auto
qed

lemma bit_rewrite_bit:
  "bit (rewrite_bit flags f bits) n \<longleftrightarrow>
     (if n = flag_offset f then f \<in> set flags else bit bits n)"
  by (auto simp: rewrite_bit_def Let_def bit_or_iff bit_xor_iff bit_exp_iff)

lemma bit_fold_rewrite:
  "bit (fold (rewrite_bit flags) fs bits) n \<longleftrightarrow>
     (if \<exists>f \<in> set fs. n = flag_offset f then \<exists>f \<in> set flags. n = flag_offset f else bit bits n)"
  by (induction fs arbitrary: bits) (auto simp: bit_rewrite_bit)

lemma set_raw_flags [simp]: "f \<in> set (raw_flags bits) \<longleftrightarrow> bit bits (flag_offset f)"
  by (simp add: raw_flags_def)

lemma bit_fold_or:
  "bit (fold (\<lambda>f bits. bits OR push_bit (k f) (1::int)) fs b) n \<longleftrightarrow> bit b n \<or> (\<exists>f \<in> set fs. n = k f)"
  by (induction fs arbitrary: b) (auto simp: bit_or_iff bit_exp_iff)

section \<open>Normalisation\<close>

text \<open>The declarative reading of normalisation: which flags a bit field stands for.\<close>

definition normal_flags :: "int \<Rightarrow> base_flag set" where
  "normal_flags bits =
     (let present = {f. bit bits (flag_offset f)} in
      if Owner \<in> present then {Owner, Access}
      else if Admin \<in> present then {Admin, Access}
      else if present = {} then {} else insert Access present)"

lemma set_override_raw: "set (override_flags (raw_flags bits)) = normal_flags bits"
proof -
  have "raw_flags bits = [] \<longleftrightarrow> {f. bit bits (flag_offset f)} = {}"
    by (metis (mono_tags, lifting) Collect_empty_eq empty_set ex_in_conv set_raw_flags set_empty)
  then show ?thesis
    by (auto simp: override_flags_def normal_flags_def Let_def)
qed

lemma base_set_try_from_ok:
  assumes "base_set_try_from bits = Inr s"
  shows "set (base_flags s) = normal_flags bits"
    and "bit (base_bits s) n \<longleftrightarrow>
      (if n < 15 then \<exists>f \<in> normal_flags bits. n = flag_offset f else bit bits n)"
proof -
  have s: "s = \<lparr>base_bits = fold (rewrite_bit (override_flags (raw_flags bits))) ALL_BASE_FLAGS bits,
      base_flags = override_flags (raw_flags bits)\<rparr>"
    using assms by (auto simp: base_set_try_from_def Let_def)
  show "set (base_flags s) = normal_flags bits"
    by (simp add: s set_override_raw)
  have "(\<exists>f. n = flag_offset f) \<longleftrightarrow> n < 15" using offset_is_flag flag_offset_less by blast
  then show "bit (base_bits s) n \<longleftrightarrow>
      (if n < 15 then \<exists>f \<in> normal_flags bits. n = flag_offset f else bit bits n)"
    by (simp add: s bit_fold_rewrite set_override_raw)
qed

lemma normal_flags_idem:
  assumes "base_set_try_from bits = Inr s"
  shows "normal_flags (base_bits s) = normal_flags bits"
proof -
  have "bit (base_bits s) (flag_offset f) \<longleftrightarrow> f \<in> normal_flags bits" for f
    using base_set_try_from_ok(2)[OF assms, of "flag_offset f"] flag_offset_less[of f] by auto
  then show ?thesis by (auto simp: normal_flags_def Let_def split: if_splits)
qed

section \<open>Group rules\<close>

definition groups_compatible :: "group_kind \<Rightarrow> base_flag set \<Rightarrow> bool" where
  "groups_compatible kind fs \<longleftrightarrow>
     (\<forall>f \<in> fs. \<forall>g \<in> fs.
        rule_group (rule_for f) kind = GroupAny \<or> rule_group (rule_for g) kind = GroupAny \<or>
        rule_group (rule_for f) kind = rule_group (rule_for g) kind)"

lemma group_not_never:
  "kind \<noteq> Target \<Longrightarrow> rule_group (rule_for f) kind \<noteq> GroupNever"
  by (cases kind; cases f) (simp_all add: mk_rule_def)

lemma target_groups:
  "rule_group (rule_for f) Target \<in> {GroupAny, GroupNever, GroupToken}"
  by (cases f) (simp_all add: mk_rule_def)

lemma compute_flag_group_from_ok_iff:
  assumes "kind \<noteq> Target"
  shows "is_ok (compute_flag_group_from kind fin fs) \<longleftrightarrow>
     groups_compatible kind (set fs) \<and>
     (fin \<noteq> GroupAny \<longrightarrow> (\<forall>f \<in> set fs. rule_group (rule_for f) kind \<in> {GroupAny, fin}))"
proof (induction fs arbitrary: fin)
  case (Cons f fs)
  define g where "g = rule_group (rule_for f) kind"
  have g: "g \<noteq> GroupNever" using assms group_not_never by (simp add: g_def)
  show ?case
  proof (cases "g = GroupAny \<or> g = fin \<or> fin \<noteq> GroupAny")
    case True
    then show ?thesis using g Cons.IH[of fin]
      by (auto simp: g_def groups_compatible_def Let_def)
  next
    case False
    then show ?thesis using g Cons.IH[of g]
      by (auto simp: g_def groups_compatible_def Let_def)
  qed
qed (simp add: groups_compatible_def)

lemma compute_flag_group_from_target:
  "fin \<in> {GroupAny, GroupToken} \<Longrightarrow> is_ok (compute_flag_group_from Target fin fs)"
proof (induction fs arbitrary: fin)
  case (Cons f fs)
  then show ?case using target_groups[of f] by (auto simp: Let_def)
qed simp

lemma compute_flag_group_ok_iff:
  "is_ok (compute_flag_group kind fs) \<longleftrightarrow> kind = Target \<or> groups_compatible kind (set fs)"
  using compute_flag_group_from_ok_iff[of kind GroupAny fs] compute_flag_group_from_target[of GroupAny fs]
  by (cases "kind = Target") (auto simp: compute_flag_group_def)

lemma base_set_try_from_is_ok:
  "is_ok (base_set_try_from bits) \<longleftrightarrow>
     groups_compatible Entity {f. bit bits (flag_offset f)} \<and>
     groups_compatible Principal {f. bit bits (flag_offset f)}"
proof -
  have raw: "set (raw_flags bits) = {f. bit bits (flag_offset f)}" by auto
  have "is_ok (base_set_try_from bits) \<longleftrightarrow>
      (\<forall>k. is_ok (compute_flag_group k (raw_flags bits)))"
    by (auto simp: base_set_try_from_def Let_def is_ok_iff) (metis group_kind.exhaust)
  also have "\<dots> \<longleftrightarrow> (\<forall>k. k = Target \<or> groups_compatible k (set (raw_flags bits)))"
    by (simp add: compute_flag_group_ok_iff)
  also have "\<dots> \<longleftrightarrow> groups_compatible Entity (set (raw_flags bits)) \<and>
      groups_compatible Principal (set (raw_flags bits))"
    by (metis group_kind.exhaust group_kind.distinct(3) group_kind.distinct(5))
  finally show ?thesis by (simp only: raw)
qed

lemma groups_compatible_mono: "groups_compatible k fs \<Longrightarrow> gs \<subseteq> fs \<Longrightarrow> groups_compatible k gs"
  by (auto simp: groups_compatible_def)

lemma groups_compatible_access:
  "groups_compatible k fs \<Longrightarrow> groups_compatible k (insert Access fs)"
  by (cases k) (auto simp: groups_compatible_def mk_rule_def)

lemma reparse_base_set:
  assumes "base_set_try_from bits = Inr s"
  shows "\<exists>s'. base_set_try_from (base_bits s) = Inr s' \<and> base_bits s' = base_bits s \<and>
     set (base_flags s') = set (base_flags s)"
proof -
  note ok = base_set_try_from_ok[OF assms]
  let ?P = "{f. bit bits (flag_offset f)}" and ?N = "{f. bit (base_bits s) (flag_offset f)}"
  have N: "?N = normal_flags bits"
    using ok(2) flag_offset_less by (auto simp: set_eq_iff)
  have "normal_flags bits \<subseteq> insert Access ?P"
    by (auto simp: normal_flags_def Let_def split: if_splits)
  moreover have "groups_compatible Entity ?P" "groups_compatible Principal ?P"
    using base_set_try_from_is_ok[of bits] assms by (simp_all add: is_ok_iff)
  ultimately have "groups_compatible Entity ?N" "groups_compatible Principal ?N"
    unfolding N by (meson groups_compatible_access groups_compatible_mono)+
  then obtain s' where s': "base_set_try_from (base_bits s) = Inr s'"
    using base_set_try_from_is_ok[of "base_bits s"] by (auto simp: is_ok_iff)
  note ok' = base_set_try_from_ok[OF s']
  have "base_bits s' = base_bits s"
    by (rule bit_eqI) (simp add: ok'(2) normal_flags_idem[OF assms] ok(2))
  then show ?thesis
    using s' ok'(1) ok(1) normal_flags_idem[OF assms] by auto
qed

section \<open>Well-formed permission sets\<close>

text \<open>
  A set is canonical when it is what decoding its own bit field yields.  One decoding step makes
  every accepted set canonical; before that only the order of its flags can differ.
\<close>

definition canonical_permissions :: "permissions \<Rightarrow> bool" where
  "canonical_permissions p \<longleftrightarrow>
     permissions_from_bigints (base_bits (perm_base p)) (external_bits (perm_external p)) = Inr p"

definition wf_base_set :: "base_set \<Rightarrow> bool" where
  "wf_base_set s \<longleftrightarrow>
     (\<forall>f. f \<in> set (base_flags s) \<longleftrightarrow> bit (base_bits s) (flag_offset f)) \<and>
     set (base_flags s) = normal_flags (base_bits s) \<and> is_ok (base_set_try_from (base_bits s))"

lemma base_set_try_from_wf: "base_set_try_from bits = Inr s \<Longrightarrow> wf_base_set s"
  using reparse_base_set[of bits s] base_set_try_from_ok[of bits s] normal_flags_idem[of bits s]
    flag_offset_less
  by (auto simp: wf_base_set_def is_ok_iff)

lemma from_flags_wf: "base_set_from_flags fs = Inr s \<Longrightarrow> wf_base_set s"
  unfolding base_set_from_flags_def by (rule base_set_try_from_wf)

lemma normal_flags_access: "f \<in> normal_flags bits \<Longrightarrow> Access \<in> normal_flags bits"
  by (auto simp: normal_flags_def Let_def split: if_splits)

lemma permissions_from_bigints_wf:
  "permissions_from_bigints b e = Inr p \<Longrightarrow>
     wf_base_set (perm_base p) \<and> external_bits (perm_external p) = e"
  by (auto simp: permissions_from_bigints_def dest: base_set_try_from_wf)

lemma permissions_has_wf:
  assumes "wf_base_set (perm_base p)"
  shows "permissions_has p flags offsets \<longleftrightarrow>
    (let F = set (base_flags (perm_base p)) in
       flags = [] \<and> offsets = [] \<or> Owner \<in> F \<or> Admin \<in> F \<and> Owner \<notin> set flags \<or>
       F \<noteq> {} \<and> set flags \<subseteq> F \<and> (\<forall>off \<in> set offsets. has_offset (perm_external p) off))"
proof -
  have "base_flags (perm_base p) \<noteq> [] \<Longrightarrow> Access \<in> set (base_flags (perm_base p))"
    using assms normal_flags_access by (metis list.set_intros(1) neq_Nil_conv wf_base_set_def)
  then show ?thesis
    by (cases "base_flags (perm_base p) = []")
      (auto simp: permissions_has_def has_flags_def list_all_iff Let_def)
qed

section \<open>Properties\<close>

text \<open>A bit field is accepted as a base permission set exactly when the flags it sets agree on
  their entity group and on their principal group, flags of group ANY aside.\<close>
theorem base_set_accepts:
  "is_ok (base_set_try_from bits) \<longleftrightarrow>
     groups_compatible Entity {f. bit bits (flag_offset f)} \<and>
     groups_compatible Principal {f. bit bits (flag_offset f)}"
  by (rule base_set_try_from_is_ok)

text \<open>Normalisation keeps OWNER over ADMIN over the rest, adds ACCESS to every non-empty set,
  writes exactly these flags into the known bits and leaves every unknown bit alone.\<close>
theorem base_set_normalised:
  assumes "base_set_try_from bits = Inr s"
  shows "set (base_flags s) = normal_flags bits \<and>
    (\<forall>n. bit (base_bits s) n \<longleftrightarrow>
       (if n < 15 then (\<exists>f. f \<in> normal_flags bits \<and> n = flag_offset f) else bit bits n))"
  using base_set_try_from_ok[OF assms] by auto

theorem base_set_normalised_witness:
  "\<exists>s. base_set_try_from 32778 = Inr s \<and> set (base_flags s) = normal_flags 32778 \<and>
    (\<forall>n. bit (base_bits s) n \<longleftrightarrow>
       (if n < 15 then (\<exists>f. f \<in> normal_flags 32778 \<and> n = flag_offset f) else bit (32778::int) n))"
proof -
  have "is_ok (base_set_try_from 32778)" by code_simp
  then obtain s where s: "base_set_try_from 32778 = Inr s" by (auto simp: is_ok_iff)
  from base_set_normalised[OF s] s show ?thesis by blast
qed

text \<open>Reading an accepted set's own bit field back gives the same bits and the same flags, and a
  second reading gives exactly the same value.\<close>
theorem base_set_reparse:
  assumes "base_set_try_from bits = Inr s"
  shows "\<exists>s'. base_set_try_from (base_bits s) = Inr s' \<and> base_bits s' = base_bits s \<and>
    set (base_flags s') = set (base_flags s) \<and> base_set_try_from (base_bits s') = Inr s'"
  using reparse_base_set[OF assms] by auto

theorem base_set_reparse_witness:
  "\<exists>s s'. base_set_try_from 8 = Inr s \<and> base_set_try_from (base_bits s) = Inr s' \<and>
    base_bits s' = base_bits s \<and> set (base_flags s') = set (base_flags s) \<and>
    base_set_try_from (base_bits s') = Inr s'"
proof -
  have "is_ok (base_set_try_from 8)" by code_simp
  then obtain s where s: "base_set_try_from 8 = Inr s" by (auto simp: is_ok_iff)
  from base_set_reparse[OF s] s show ?thesis by blast
qed

text \<open>Flag order is part of the derived equality: the set built from UPDATE_INFO alone differs
  from the set decoded from its own bit field, although both hold the same bits and flags.\<close>
theorem base_set_order_sensitive:
  "\<exists>s s'. base_set_from_flags [UpdateInfo] = Inr s \<and> base_set_try_from (base_bits s) = Inr s' \<and>
    base_bits s' = base_bits s \<and> s' \<noteq> s"
proof -
  have "base_set_from_flags [UpdateInfo] = Inr \<lparr>base_bits = 9, base_flags = [UpdateInfo, Access]\<rparr>"
    by code_simp
  moreover have "base_set_try_from 9 = Inr \<lparr>base_bits = 9, base_flags = [Access, UpdateInfo]\<rparr>"
    by code_simp
  ultimately show ?thesis by simp
qed

text \<open>A permission set read from its bit fields grants flags and offsets as documented: OWNER
  grants everything, ADMIN everything but OWNER, and otherwise each requested flag and each
  requested external offset has to be present in a non-empty set.\<close>
theorem permissions_has_spec:
  assumes "permissions_from_bigints base external = Inr p"
  shows "permissions_has p flags offsets \<longleftrightarrow>
    flags = [] \<and> offsets = [] \<or> Owner \<in> normal_flags base \<or>
    Admin \<in> normal_flags base \<and> Owner \<notin> set flags \<or>
    normal_flags base \<noteq> {} \<and> set flags \<subseteq> normal_flags base \<and>
      list_all (\<lambda>off. bit external (unat off)) offsets"
proof -
  obtain b where b: "base_set_try_from base = Inr b"
    and p: "p = \<lparr>perm_base = b, perm_external = \<lparr>external_bits = external\<rparr>\<rparr>"
    using assms by (auto simp: permissions_from_bigints_def)
  have "set (base_flags (perm_base p)) = normal_flags base"
    using base_set_try_from_ok(1)[OF b] by (simp add: p)
  moreover have "wf_base_set (perm_base p)" using base_set_try_from_wf[OF b] by (simp add: p)
  ultimately show ?thesis
    by (auto simp: permissions_has_wf Let_def has_offset_def p list_all_iff)
qed

theorem permissions_has_spec_witness:
  "\<exists>p. permissions_from_bigints 4 0 = Inr p \<and>
    (permissions_has p [SendOnBehalf] [3] \<longleftrightarrow>
      [SendOnBehalf] = [] \<and> [3::byte] = [] \<or> Owner \<in> normal_flags 4 \<or>
      Admin \<in> normal_flags 4 \<and> Owner \<notin> set [SendOnBehalf] \<or>
      normal_flags 4 \<noteq> {} \<and> set [SendOnBehalf] \<subseteq> normal_flags 4 \<and>
        list_all (\<lambda>off. bit (0::int) (unat off)) [3::byte])"
proof -
  have "is_ok (permissions_from_bigints 4 0)" by code_simp
  then obtain p where p: "permissions_from_bigints 4 0 = Inr p" by (auto simp: is_ok_iff)
  from permissions_has_spec[OF p, of "[SendOnBehalf]" "[3]"] p show ?thesis by blast
qed

end
