(* ===== verification/Validation.thy ===== *)
theory Validation
  imports BlockError
begin

text \<open>
  Network parameters and the elementary checks of \<open>block/src/validation.rs\<close>: known networks,
  text rules, signer limits, supply and the cutoff for negative amounts.  A Rust string is its
  UTF-8 byte list; \<open>str_chars\<close> are its scalar values.
\<close>

section \<open>Strings\<close>

type_synonym rust_string = bytes

definition is_cont :: "nat \<Rightarrow> bool" where
  "is_cont b \<longleftrightarrow> 128 \<le> b \<and> b < 192"

fun utf8_chars :: "nat list \<Rightarrow> nat list option" where
  "utf8_chars [] = Some []"
| "utf8_chars (a # bs) =
     (if a < 128 then map_option ((#) a) (utf8_chars bs)
      else if 194 \<le> a \<and> a < 224 then
        (case bs of
           b # bs' \<Rightarrow>
             if is_cont b then map_option ((#) ((a - 192) * 64 + (b - 128))) (utf8_chars bs') else None
         | _ \<Rightarrow> None)
      else if 224 \<le> a \<and> a < 240 then
        (case bs of
           b # c # bs' \<Rightarrow>
             let cp = (a - 224) * 4096 + (b - 128) * 64 + (c - 128) in
             if is_cont b \<and> is_cont c \<and> 2048 \<le> cp \<and> \<not> (55296 \<le> cp \<and> cp < 57344)
             then map_option ((#) cp) (utf8_chars bs') else None
         | _ \<Rightarrow> None)
      else if 240 \<le> a \<and> a < 245 then
        (case bs of
           b # c # d # bs' \<Rightarrow>
             let cp = (a - 240) * 262144 + (b - 128) * 4096 + (c - 128) * 64 + (d - 128) in
             if is_cont b \<and> is_cont c \<and> is_cont d \<and> 65536 \<le> cp \<and> cp < 1114112
             then map_option ((#) cp) (utf8_chars bs') else None
         | _ \<Rightarrow> None)
      else None)"

definition valid_utf8 :: "bytes \<Rightarrow> bool" where
  "valid_utf8 s \<longleftrightarrow> utf8_chars (map unat s) \<noteq> None"

definition str_chars :: "rust_string \<Rightarrow> nat list" where
  "str_chars s = (case utf8_chars (map unat s) of None \<Rightarrow> [] | Some cs \<Rightarrow> cs)"

definition utf16_count :: "rust_string \<Rightarrow> nat" where
  "utf16_count s = sum_list (map (\<lambda>c. if c < 65536 then 1 else 2) (str_chars s))"

definition str :: "string \<Rightarrow> rust_string" where
  "str s = map (\<lambda>c. word_of_nat (of_char c)) s"

section \<open>Networks\<close>

datatype network = TestDefault | MainNet | Staging | TestNet | Dev

fun network_id :: "network \<Rightarrow> nat" where
  "network_id TestDefault = 0"
| "network_id MainNet = 0x5382"
| "network_id Staging = 0x538201"
| "network_id TestNet = 0x54455354"
| "network_id Dev = 0x444556"

definition network_try_from :: "int \<Rightarrow> block_error + network" where
  "network_try_from value =
     ok_or UnknownNetwork (find (\<lambda>n. int (network_id n) = value) [TestDefault, MainNet, Staging, TestNet, Dev])"

section \<open>Text rules\<close>

datatype text_rule_violation = TooLong nat nat | InvalidCharacter

record text_rule =
  max_length :: nat
  can_be_empty :: bool
  is_valid_char :: "nat \<Rightarrow> bool"

definition text_rule_check :: "text_rule \<Rightarrow> rust_string \<Rightarrow> text_rule_violation + unit" where
  "text_rule_check r value =
     (if can_be_empty r \<and> value = [] then Ok ()
      else
        let len = utf16_count value in
        if len > max_length r then Err (TooLong len (max_length r))
        else if \<not> list_all (is_valid_char r) (str_chars value) then Err InvalidCharacter
        else Ok ())"

definition text_rule_is_valid :: "text_rule \<Rightarrow> rust_string \<Rightarrow> bool" where
  "text_rule_is_valid r value = is_ok (text_rule_check r value)"

definition is_ascii_uppercase :: "nat \<Rightarrow> bool" where
  "is_ascii_uppercase c \<longleftrightarrow> 65 \<le> c \<and> c \<le> 90"

definition is_ascii_alphanumeric :: "nat \<Rightarrow> bool" where
  "is_ascii_alphanumeric c \<longleftrightarrow> 48 \<le> c \<and> c \<le> 57 \<or> 65 \<le> c \<and> c \<le> 90 \<or> 97 \<le> c \<and> c \<le> 122"

definition name_char :: "nat \<Rightarrow> bool" where
  "name_char c \<longleftrightarrow> is_ascii_uppercase c \<or> c = of_char CHR ''_''"

definition description_char :: "nat \<Rightarrow> bool" where
  "description_char c \<longleftrightarrow> is_ascii_alphanumeric c \<or>
     c \<in> set (map of_char (''_!'' @ [CHR 0x22] @ ''#$%&'' @ [CHR 0x27] @ ''()*+,-./:;?@'' @ [CHR 0x5C] @ ''^~ '')) \<or>
     c = 0x2018"

definition metadata_char :: "nat \<Rightarrow> bool" where
  "metadata_char c \<longleftrightarrow> is_ascii_alphanumeric c \<or> c \<in> set (map of_char ''-+/='')"

definition external_char :: "nat \<Rightarrow> bool" where
  "external_char c \<longleftrightarrow> is_ascii_alphanumeric c \<or> c \<in> set (map of_char ''-_+/= '')"

section \<open>The configuration\<close>

record validation_config =
  cfg_name :: text_rule
  cfg_description :: text_rule
  cfg_metadata :: text_rule
  cfg_external :: text_rule
  max_supply :: int
  max_signer_count :: nat
  max_signer_depth :: nat
  max_external_offset :: nat
  numeric_cutoff_epoch_ms :: int
  max_idempotent_bytes :: nat

definition default_config :: validation_config where
  "default_config = \<lparr>
     cfg_name = \<lparr>max_length = 50, can_be_empty = False, is_valid_char = name_char\<rparr>,
     cfg_description = \<lparr>max_length = 250, can_be_empty = False, is_valid_char = description_char\<rparr>,
     cfg_metadata = \<lparr>max_length = 5464, can_be_empty = True, is_valid_char = metadata_char\<rparr>,
     cfg_external = \<lparr>max_length = 1024, can_be_empty = True, is_valid_char = external_char\<rparr>,
     max_supply = 10 ^ 200 - 1,
     max_signer_count = 16,
     max_signer_depth = 3,
     max_external_offset = 32,
     numeric_cutoff_epoch_ms = 1763683200000,
     max_idempotent_bytes = 36\<rparr>"

definition config_for_network :: "int \<Rightarrow> block_error + validation_config" where
  "config_for_network n = and_then (network_try_from n) (\<lambda>_. Ok default_config)"

definition validate_signer_count :: "validation_config \<Rightarrow> nat \<Rightarrow> block_error + unit" where
  "validate_signer_count cfg count =
     (if count > max_signer_count cfg \<or> count < 1
      then Err (MultisigSignerCountInvalid count (max_signer_count cfg)) else Ok ())"

definition validate_signer_depth :: "validation_config \<Rightarrow> nat \<Rightarrow> block_error + unit" where
  "validate_signer_depth cfg depth =
     (if depth > max_signer_depth cfg
      then Err (MultisigSignerDepthExceeded depth (max_signer_depth cfg)) else Ok ())"

definition validate_supply :: "validation_config \<Rightarrow> int \<Rightarrow> block_error + unit" where
  "validate_supply cfg amount = (if amount > max_supply cfg then Err SupplyInvalid else Ok ())"

definition validate_numeric_value :: "validation_config \<Rightarrow> int \<Rightarrow> int \<Rightarrow> block_error + unit" where
  "validate_numeric_value cfg value block_date_ms =
     (if value \<ge> 0 then Ok ()
      else if block_date_ms < numeric_cutoff_epoch_ms cfg then Ok ()
      else Err AmountBelowZero)"

section \<open>Lemmas\<close>

lemma network_try_from_id [simp]: "network_try_from (int (network_id n)) = Inr n"
  by (cases n) (simp_all add: network_try_from_def)

lemma network_try_from_inv: "network_try_from v = Inr n \<Longrightarrow> v = int (network_id n)"
  by (auto simp: network_try_from_def split: if_splits)

lemma config_for_network_ok [simp]:
  "config_for_network v = Inr cfg \<longleftrightarrow> (\<exists>n. v = int (network_id n)) \<and> cfg = default_config"
  by (auto simp: config_for_network_def dest: network_try_from_inv)

lemma validate_signer_count_ok [simp]:
  "validate_signer_count cfg c = Inr u \<longleftrightarrow> 1 \<le> c \<and> c \<le> max_signer_count cfg"
  by (auto simp: validate_signer_count_def)

lemma validate_signer_depth_ok [simp]:
  "validate_signer_depth cfg d = Inr u \<longleftrightarrow> d \<le> max_signer_depth cfg"
  by (auto simp: validate_signer_depth_def)

lemma validate_supply_ok [simp]: "validate_supply cfg a = Inr u \<longleftrightarrow> a \<le> max_supply cfg"
  by (auto simp: validate_supply_def)

lemma validate_numeric_value_ok [simp]:
  "validate_numeric_value cfg v d = Inr u \<longleftrightarrow> 0 \<le> v \<or> d < numeric_cutoff_epoch_ms cfg"
  by (auto simp: validate_numeric_value_def)

lemma text_rule_check_ok:
  "text_rule_check r v = Inr u \<longleftrightarrow>
     can_be_empty r \<and> v = [] \<or>
     utf16_count v \<le> max_length r \<and> (\<forall>c \<in> set (str_chars v). is_valid_char r c)"
  by (auto simp: text_rule_check_def Let_def list_all_iff)

lemma utf16_count_bmp: "(\<forall>c \<in> set (str_chars v). c < 65536) \<Longrightarrow> utf16_count v = length (str_chars v)"
proof -
  assume a: "\<forall>c \<in> set (str_chars v). c < 65536"
  have "sum_list (map (\<lambda>c. if c < 65536 then 1 else 2) cs) = length cs"
    if "\<forall>c \<in> set cs. c < (65536::nat)" for cs
    using that by (induction cs) auto
  then show ?thesis using a by (simp add: utf16_count_def)
qed

lemma config_chars_bmp:
  assumes "r \<in> {cfg_name default_config, cfg_description default_config, cfg_metadata default_config,
      cfg_external default_config}" and "is_valid_char r c"
  shows "c < 65536"
proof -
  have "(name_char c \<or> description_char c \<or> metadata_char c \<or> external_char c)"
    using assms by (auto simp: default_config_def)
  then show ?thesis
    by (auto simp: name_char_def description_char_def metadata_char_def external_char_def
        is_ascii_uppercase_def is_ascii_alphanumeric_def)
qed

section \<open>Properties\<close>

text \<open>For each text rule of the default configuration the UTF-16 length limit is a limit on the
  number of characters: a value is accepted exactly when it is an allowed empty value, or has at
  most the maximal number of characters, all of them permitted.\<close>
theorem text_rule_length_is_char_count:
  assumes "r \<in> {cfg_name default_config, cfg_description default_config, cfg_metadata default_config,
      cfg_external default_config}"
  shows "text_rule_is_valid r v \<longleftrightarrow>
     can_be_empty r \<and> v = [] \<or>
     length (str_chars v) \<le> max_length r \<and> list_all (is_valid_char r) (str_chars v)"
proof -
  have "(\<forall>c \<in> set (str_chars v). is_valid_char r c) \<Longrightarrow> utf16_count v = length (str_chars v)"
    using config_chars_bmp[OF assms] utf16_count_bmp by blast
  then show ?thesis
    by (auto simp: text_rule_is_valid_def is_ok_iff text_rule_check_ok list_all_iff)
qed

theorem text_rule_length_is_char_count_witness:
  "text_rule_is_valid (cfg_name default_config) (str ''MY_TOKEN'') \<longleftrightarrow>
     can_be_empty (cfg_name default_config) \<and> str ''MY_TOKEN'' = [] \<or>
     length (str_chars (str ''MY_TOKEN'')) \<le> max_length (cfg_name default_config) \<and>
     list_all (is_valid_char (cfg_name default_config)) (str_chars (str ''MY_TOKEN''))"
  by (rule text_rule_length_is_char_count) simp

end
