(* ===== verification/Signer.thy ===== *)
theory Signer
  imports CryptoRef
begin

text \<open>
  The signer field of a block (\<open>block/src/signer.rs\<close>): a keyed account, or a multisig address
  with the signers that act for it.  \<open>required_signers\<close> is the source's work-list traversal; it
  is shown to list the leaves in pre-order without repetition.
\<close>

datatype signer = Single generic_account | MultisigSigner (ms_address: generic_account) (ms_signers: "signer list")

fun signer_principal :: "signer \<Rightarrow> generic_account" where
  "signer_principal (Single account) = account"
| "signer_principal (MultisigSigner address _) = address"

fun signer_nodes :: "signer \<Rightarrow> nat" where
  "signer_nodes (Single _) = 1"
| "signer_nodes (MultisigSigner _ ss) = 1 + sum_list (map signer_nodes ss)"

lemma fold_push_front [simp]: "fold (#) (rev xs) ys = xs @ ys"
  by (induction xs arbitrary: ys) (auto simp: fold_append)

function required_signers_loop ::
    "crypto_lib \<Rightarrow> signer list \<Rightarrow> string set \<Rightarrow> generic_account list \<Rightarrow> generic_account list" where
  "required_signers_loop L [] visited out = out"
| "required_signers_loop L (Single account # queue) visited out =
     (if account_to_string L account \<in> visited
      then required_signers_loop L queue visited out
      else required_signers_loop L queue (insert (account_to_string L account) visited) (out @ [account]))"
| "required_signers_loop L (MultisigSigner _ signers # queue) visited out =
     required_signers_loop L (fold (#) (rev signers) queue) visited out"
  by pat_completeness auto

termination
  by (relation "measure (\<lambda>(L, queue, visited, out). sum_list (map signer_nodes queue))") auto

definition required_signers :: "crypto_lib \<Rightarrow> signer \<Rightarrow> generic_account list" where
  "required_signers L s = required_signers_loop L [s] {} []"

section \<open>Specification\<close>

fun leaves :: "signer \<Rightarrow> generic_account list" where
  "leaves (Single account) = [account]"
| "leaves (MultisigSigner _ ss) = concat (map leaves ss)"

fun signer_accounts :: "signer \<Rightarrow> generic_account list" where
  "signer_accounts (Single account) = [account]"
| "signer_accounts (MultisigSigner address ss) = address # concat (map signer_accounts ss)"

lemma leaves_subset: "set (leaves s) \<subseteq> set (signer_accounts s)"
  by (induction s) auto

lemma required_signers_loop_eq:
  "required_signers_loop L queue visited out =
     out @ dedup_by (account_to_string L) visited (concat (map leaves queue))"
  by (induction L queue visited out rule: required_signers_loop.induct) auto

lemma required_signers_eq: "required_signers L s = dedup_by (account_to_string L) {} (leaves s)"
  by (simp add: required_signers_def required_signers_loop_eq)

context crypto_laws
begin

lemma required_signers_distinct_set:
  assumes "list_all (wf_account L) (leaves s)"
  shows "distinct (required_signers L s) \<and> set (required_signers L s) = set (leaves s)"
proof -
  have "distinct (map (account_to_string L) (required_signers L s))"
    unfolding required_signers_eq by (rule dedup_by_keys_distinct)
  then have "distinct (required_signers L s)" by (simp add: distinct_map)
  moreover have "set (required_signers L s) \<subseteq> set (leaves s)"
    unfolding required_signers_eq by (rule dedup_by_subset)
  moreover have "account_to_string L ` set (required_signers L s) = account_to_string L ` set (leaves s)"
    unfolding required_signers_eq by (simp add: dedup_by_keys)
  then have "set (required_signers L s) = set (leaves s)"
    using inj_on_image_eq_iff[OF addr.enc_inj_on, of "set (required_signers L s)" "set (leaves s)"]
      assms calculation(2) by (auto simp: list_all_iff)
  ultimately show ?thesis by auto
qed

end

section \<open>Properties\<close>

text \<open>C34: the accounts that have to sign a block are the leaves of its signer tree in depth-first
  pre-order, each one at its first occurrence: no account signs twice and none is left out.\<close>
theorem required_signers_spec:
  assumes "crypto_laws L" and "list_all (wf_account L) (leaves s)"
  shows "required_signers L s = dedup_by (account_to_string L) {} (leaves s) \<and>
    distinct (required_signers L s) \<and> set (required_signers L s) = set (leaves s)"
  using crypto_laws.required_signers_distinct_set[OF assms] required_signers_eq by blast

theorem required_signers_spec_witness:
  "required_signers ref_lib (MultisigSigner (Multisig (replicate 32 9))
       [Single (Ed25519 (replicate 32 1)), Single (Ed25519 (replicate 32 1))]) =
     dedup_by (account_to_string ref_lib) {} [Ed25519 (replicate 32 1), Ed25519 (replicate 32 1)] \<and>
   distinct (required_signers ref_lib (MultisigSigner (Multisig (replicate 32 9))
       [Single (Ed25519 (replicate 32 1)), Single (Ed25519 (replicate 32 1))])) \<and>
   set (required_signers ref_lib (MultisigSigner (Multisig (replicate 32 9))
       [Single (Ed25519 (replicate 32 1)), Single (Ed25519 (replicate 32 1))])) = {Ed25519 (replicate 32 1)}"
  using required_signers_spec[OF ref.crypto_laws_axioms, of "MultisigSigner (Multisig (replicate 32 9))
       [Single (Ed25519 (replicate 32 1)), Single (Ed25519 (replicate 32 1))]"]
  by (simp add: wf_account_def)

end
