(* ===== verification/Operation.thy ===== *)
theory Operation
  imports Permissions Validation Signer
begin

text \<open>
  Block operations and their validators (\<open>block/src/operation/\<close>): each operation is a record with
  the source's fields, and each validator is the source's sequence of guards.  X.509 parsing and
  signature primitives are fields of \<open>block_lib\<close>; a parsed certificate is represented by its
  canonical encoding.
\<close>

record block_lib =
  crypto :: crypto_lib
  x509_parse :: "bytes \<Rightarrow> bytes option"
  x509_subject_key :: "bytes \<Rightarrow> bytes"
  x509_graph :: "bytes \<Rightarrow> bytes set \<Rightarrow> bool"
  signature_verify :: "generic_account \<Rightarrow> bytes \<Rightarrow> bytes \<Rightarrow> bool"
  signature_sign :: "generic_account \<Rightarrow> bytes \<Rightarrow> account_error + bytes"

section \<open>Data\<close>

datatype adjust_method = Add | Subtract | SetMethod

fun adjust_method_to_bigint :: "adjust_method \<Rightarrow> int" where
  "adjust_method_to_bigint Add = 0"
| "adjust_method_to_bigint Subtract = 1"
| "adjust_method_to_bigint SetMethod = 2"

definition adjust_method_of_u8 :: "nat \<Rightarrow> block_error + adjust_method" where
  "adjust_method_of_u8 v =
     (if v = 0 then Ok Add else if v = 1 then Ok Subtract else if v = 2 then Ok SetMethod
      else Err InvalidAdjustMethod)"

definition adjust_method_try_from :: "int \<Rightarrow> block_error + adjust_method" where
  "adjust_method_try_from v =
     (if 0 \<le> v \<and> v < 256 then adjust_method_of_u8 (nat v) else Err InvalidAdjustMethod)"

record send =
  send_to :: generic_account
  send_amount :: int
  send_token :: generic_account
  send_external :: "rust_string option"

record set_rep =
  set_rep_to :: generic_account

record set_info =
  info_name :: rust_string
  info_description :: rust_string
  info_metadata :: rust_string
  info_default_permission :: "permissions option"

datatype modify_permissions_principal =
    PrincipalAccount generic_account
  | PrincipalCertificate (principal_hash: bytes) (principal_cert_account: generic_account)

record modify_permissions =
  mp_principal :: modify_permissions_principal
  mp_method :: adjust_method
  mp_permissions :: "permissions option"
  mp_target :: "generic_account option"

record multisig_create_arguments =
  ms_create_signers :: "generic_account list"
  ms_create_quorum :: int

datatype identifier_create_arguments = MultisigArguments multisig_create_arguments

record create_identifier =
  ci_identifier :: generic_account
  ci_arguments :: "identifier_create_arguments option"

record token_admin_supply =
  tas_amount :: int
  tas_method :: adjust_method

record token_admin_modify_balance =
  tamb_token :: generic_account
  tamb_amount :: int
  tamb_method :: adjust_method

record receive =
  recv_amount :: int
  recv_token :: generic_account
  recv_from :: generic_account
  recv_exact :: bool
  recv_forward :: "generic_account option"

datatype certificate_or_hash = Certificate bytes | CertHash bytes

datatype intermediate_certificates = NoIntermediates | Bundle "bytes list"

record manage_certificate =
  mc_method :: adjust_method
  mc_certificate_or_hash :: certificate_or_hash
  mc_intermediates :: "intermediate_certificates option"

datatype operation =
    OpSend send | OpSetRep set_rep | OpSetInfo set_info | OpModifyPermissions modify_permissions
  | OpCreateIdentifier create_identifier | OpTokenAdminSupply token_admin_supply
  | OpTokenAdminModifyBalance token_admin_modify_balance | OpReceive receive
  | OpManageCertificate manage_certificate

fun operation_type :: "operation \<Rightarrow> nat" where
  "operation_type (OpSend _) = 0"
| "operation_type (OpSetRep _) = 1"
| "operation_type (OpSetInfo _) = 2"
| "operation_type (OpModifyPermissions _) = 3"
| "operation_type (OpCreateIdentifier _) = 4"
| "operation_type (OpTokenAdminSupply _) = 5"
| "operation_type (OpTokenAdminModifyBalance _) = 6"
| "operation_type (OpReceive _) = 7"
| "operation_type (OpManageCertificate _) = 8"

section \<open>Context\<close>

record operation_context =
  ctx_config :: "validation_config option"
  ctx_account :: generic_account
  ctx_operations :: "operation list"
  ctx_previous :: bytes
  ctx_date_ms :: int
  ctx_index :: nat

definition ctx_get_config :: "operation_context \<Rightarrow> block_error + validation_config" where
  "ctx_get_config ctx = ok_or UnknownNetwork (ctx_config ctx)"

definition validate_numeric :: "operation_context \<Rightarrow> int \<Rightarrow> block_error + unit" where
  "validate_numeric ctx value =
     (if value \<ge> 0 then Ok ()
      else and_then (ctx_get_config ctx) (\<lambda>cfg. validate_numeric_value cfg value (ctx_date_ms ctx)))"

definition account_is_token :: "operation_context \<Rightarrow> bool" where
  "account_is_token ctx \<longleftrightarrow> to_keypair_type (ctx_account ctx) = TOKEN"

definition require_token :: "generic_account \<Rightarrow> block_error + unit" where
  "require_token a = (if to_keypair_type a \<noteq> TOKEN then Err TokenFieldNotToken else Ok ())"

definition guard_token_amount :: "operation_context \<Rightarrow> generic_account \<Rightarrow> int \<Rightarrow> block_error + unit" where
  "guard_token_amount ctx token amount =
     and_then (require_token token) (\<lambda>_. validate_numeric ctx amount)"

definition reject_token_account :: "operation_context \<Rightarrow> block_error + unit" where
  "reject_token_account ctx = (if account_is_token ctx then Err TokenOperationForbidden else Ok ())"

definition can_delegate :: "keypair_type \<Rightarrow> bool" where
  "can_delegate t \<longleftrightarrow> (if \<not> is_identifier t then True else t = STORAGE)"

fun the_set_rep :: "operation \<Rightarrow> set_rep option" where
  "the_set_rep (OpSetRep r) = Some r" | "the_set_rep _ = None"

fun the_modify_permissions :: "operation \<Rightarrow> modify_permissions option" where
  "the_modify_permissions (OpModifyPermissions m) = Some m" | "the_modify_permissions _ = None"

fun the_manage_certificate :: "operation \<Rightarrow> manage_certificate option" where
  "the_manage_certificate (OpManageCertificate m) = Some m" | "the_manage_certificate _ = None"

definition iter_type :: "(operation \<Rightarrow> 'a option) \<Rightarrow> operation_context \<Rightarrow> 'a list" where
  "iter_type downcast ctx = List.map_filter downcast (ctx_operations ctx)"

section \<open>Validators\<close>

definition send_external_validate :: "validation_config \<Rightarrow> rust_string option \<Rightarrow> block_error + unit" where
  "send_external_validate cfg external =
     (case external of
        Some text \<Rightarrow>
          if text \<noteq> []
          then (case text_rule_check (cfg_external cfg) text of
                  Inl (TooLong len m) \<Rightarrow> Err (ExternalTooLong len m)
                | Inl InvalidCharacter \<Rightarrow> Err ExternalInvalid
                | Inr _ \<Rightarrow> Ok ())
          else if \<not> can_be_empty (cfg_external cfg) then Err ExternalMissing else Ok ()
      | None \<Rightarrow> if \<not> can_be_empty (cfg_external cfg) then Err ExternalMissing else Ok ())"

definition send_validate :: "operation_context \<Rightarrow> send \<Rightarrow> block_error + unit" where
  "send_validate ctx op =
     and_then (guard_token_amount ctx (send_token op) (send_amount op)) (\<lambda>_.
     if account_is_token ctx \<and> \<not> accounts_equal (send_token op) (ctx_account ctx)
     then Err TokenOperationForbidden
     else if to_keypair_type (send_to op) = TOKEN \<and> \<not> accounts_equal (send_to op) (send_token op)
     then Err TokenReceiveDiffers
     else and_then (ctx_get_config ctx) (\<lambda>cfg. send_external_validate cfg (send_external op)))"

definition set_rep_validate :: "operation_context \<Rightarrow> set_rep \<Rightarrow> block_error + unit" where
  "set_rep_validate ctx op =
     (if \<not> can_delegate (to_keypair_type (ctx_account ctx)) then Err IdentifierDelegationForbidden
      else if is_identifier (to_keypair_type (set_rep_to op)) then Err IdentifierDelegationForbidden
      else if length (iter_type the_set_rep ctx) > 1 then Err MultipleSetRep
      else Ok ())"

definition set_info_validate :: "operation_context \<Rightarrow> set_info \<Rightarrow> block_error + unit" where
  "set_info_validate ctx op =
     and_then (ctx_get_config ctx) (\<lambda>cfg.
     and_then (for_each (\<lambda>(field, value, rule). ensure (text_rule_is_valid rule value) (InfoFieldInvalid field))
         [(InfoName, info_name op, cfg_name cfg),
          (InfoDescription, info_description op, cfg_description cfg),
          (InfoMetadata, info_metadata op, cfg_metadata cfg)]) (\<lambda>_.
     if is_identifier (to_keypair_type (ctx_account ctx)) then
       (case info_default_permission op of
          None \<Rightarrow> Err DefaultPermissionRequired
        | Some p \<Rightarrow>
            if external_bits (perm_external p) \<noteq> 0 then Err PermissionsExternalDefaultForbidden
            else if \<not> is_valid_for_default (perm_base p) then Err PermissionsInvalidDefault
            else if \<not> check_account_matches_group (perm_base p) Entity (Some (ctx_account ctx))
            then Err PermissionsInvalidEntity
            else Ok ())
     else if info_default_permission op \<noteq> None then Err IdentifierAccountRequired
     else Ok ()))"

definition validate_payload ::
    "operation_context \<Rightarrow> modify_permissions \<Rightarrow> permissions \<Rightarrow> block_error + unit" where
  "validate_payload ctx op p =
     and_then (ctx_get_config ctx) (\<lambda>cfg.
     and_then (permissions_validate p (max_external_offset cfg)) (\<lambda>_.
     if \<not> is_identifier (to_keypair_type (ctx_account ctx)) \<and> permissions_has p [Owner] []
     then Err IdentifierAccountRequired
     else and_then
       (case mp_principal op of
          PrincipalAccount who \<Rightarrow>
            ensure (check_account_matches_group (perm_base p) Principal (Some who)) PermissionsInvalidPrincipal
        | PrincipalCertificate _ _ \<Rightarrow>
            ensure (is_valid_for_default (perm_base p)) PermissionsInvalidDefault) (\<lambda>_.
     and_then
       (case mp_target op of
          Some target \<Rightarrow>
            ensure (check_account_matches_group (perm_base p) Target (Some target)) PermissionsInvalidTarget
        | None \<Rightarrow> Ok ()) (\<lambda>_.
     if \<not> check_account_matches_group (perm_base p) Entity (Some (ctx_account ctx))
     then Err PermissionsInvalidEntity
     else if mp_target op \<noteq> None \<and> permissions_has p [Admin] [] then Err AdminWithTarget
     else if mp_method op \<noteq> SetMethod \<and> \<not> can_use_delegation p then Err DelegationForbidden
     else Ok ()))))"

definition dedup_key :: "crypto_lib \<Rightarrow> modify_permissions_principal \<Rightarrow> string" where
  "dedup_key L p =
     (case p of
        PrincipalAccount a \<Rightarrow> account_to_string L a
      | PrincipalCertificate h a \<Rightarrow>
          ''cert:'' @ hex_encode_upper L h @ '':'' @ account_to_string L a)"

definition target_key :: "crypto_lib \<Rightarrow> operation_context \<Rightarrow> modify_permissions \<Rightarrow> string" where
  "target_key L ctx op =
     account_to_string L (case mp_target op of Some t \<Rightarrow> t | None \<Rightarrow> ctx_account ctx)"

definition reject_duplicate_step ::
    "crypto_lib \<Rightarrow> operation_context \<Rightarrow> (string \<times> string \<rightharpoonup> adjust_method) \<Rightarrow> modify_permissions \<Rightarrow>
      block_error + (string \<times> string \<rightharpoonup> adjust_method)" where
  "reject_duplicate_step L ctx found other =
     (let key = (dedup_key L (mp_principal other), target_key L ctx other);
          previous = found key
      in if previous \<noteq> None \<and> mp_method other = SetMethod then Err DuplicatePermissionModification
         else Ok (found(key \<mapsto> mp_method other)))"

definition reject_duplicate_set :: "crypto_lib \<Rightarrow> operation_context \<Rightarrow> block_error + unit" where
  "reject_duplicate_set L ctx =
     and_then (try_fold (reject_duplicate_step L ctx) Map.empty (iter_type the_modify_permissions ctx))
       (\<lambda>_. Ok ())"

definition modify_permissions_validate ::
    "crypto_lib \<Rightarrow> operation_context \<Rightarrow> modify_permissions \<Rightarrow> block_error + unit" where
  "modify_permissions_validate L ctx op =
     and_then
       (case mp_permissions op of
          None \<Rightarrow> if mp_method op \<noteq> SetMethod then Err PermissionsRequireSet else Ok ()
        | Some p \<Rightarrow> validate_payload ctx op p)
       (\<lambda>_. reject_duplicate_set L ctx)"

definition validate_multisig_arguments ::
    "crypto_lib \<Rightarrow> operation_context \<Rightarrow> keypair_type \<Rightarrow> multisig_create_arguments \<Rightarrow> block_error + unit" where
  "validate_multisig_arguments L ctx created_type args =
     (if created_type \<noteq> MULTISIG then Err InvalidCreateIdentifierArguments
      else
        let signer_count = length (ms_create_signers args) in
        and_then (ctx_get_config ctx) (\<lambda>cfg.
        and_then (validate_signer_count cfg signer_count) (\<lambda>_.
        and_then
          (for_each (\<lambda>s. ensure (supports_crypto (to_keypair_type s) \<or> to_keypair_type s = MULTISIG)
               InvalidCreateIdentifierArguments) (ms_create_signers args)) (\<lambda>_.
        let unique = unique_account_count L (ms_create_signers args) in
        if unique \<noteq> signer_count then Err MultisigSignerDuplicate
        else if ms_create_quorum args < 1 \<or> ms_create_quorum args > int unique then Err MultisigQuorumInvalid
        else Ok ()))))"

definition create_identifier_validate ::
    "crypto_lib \<Rightarrow> operation_context \<Rightarrow> create_identifier \<Rightarrow> block_error + unit" where
  "create_identifier_validate L ctx op =
     (if is_identifier (to_keypair_type (ctx_account ctx)) then Err TokenOperationForbidden
      else
        let created_type = to_keypair_type (ci_identifier op) in
        if \<not> is_identifier created_type then Err IdentifierInvalid
        else
          let block_hash = (if ctx_previous ctx = to_opening_hash L (ctx_account ctx) then None
                            else Some (ctx_previous ctx)) in
          and_then (map_err AccountErr
              (generate_identifier L (ctx_account ctx) created_type block_hash (word_of_nat (ctx_index ctx)))) (\<lambda>derived.
          if \<not> accounts_equal derived (ci_identifier op) then Err IdentifierInvalid
          else
            let requires_arguments = (created_type = MULTISIG) in
            if (ci_arguments op \<noteq> None) \<noteq> requires_arguments then Err InvalidCreateIdentifierArguments
            else (case ci_arguments op of
                    Some (MultisigArguments args) \<Rightarrow> validate_multisig_arguments L ctx created_type args
                  | None \<Rightarrow> Ok ())))"

definition token_admin_supply_validate :: "operation_context \<Rightarrow> token_admin_supply \<Rightarrow> block_error + unit" where
  "token_admin_supply_validate ctx op =
     (if tas_method op = SetMethod then Err AdjustMethodSetForbidden
      else and_then (validate_numeric ctx (tas_amount op)) (\<lambda>_.
        if \<not> account_is_token ctx then Err TokenAccountRequired
        else and_then (ctx_get_config ctx) (\<lambda>cfg. validate_supply cfg (tas_amount op))))"

definition token_admin_modify_balance_validate ::
    "operation_context \<Rightarrow> token_admin_modify_balance \<Rightarrow> block_error + unit" where
  "token_admin_modify_balance_validate ctx op =
     and_then (guard_token_amount ctx (tamb_token op) (tamb_amount op)) (\<lambda>_. reject_token_account ctx)"

definition receive_validate :: "operation_context \<Rightarrow> receive \<Rightarrow> block_error + unit" where
  "receive_validate ctx op =
     and_then (guard_token_amount ctx (recv_token op) (recv_amount op)) (\<lambda>_.
     and_then (reject_token_account ctx) (\<lambda>_.
     case recv_forward op of
       None \<Rightarrow> Ok ()
     | Some forward \<Rightarrow>
         if accounts_equal forward (ctx_account ctx) then Err ForwardToSelf
         else if \<not> recv_exact op then Err ForwardRequiresExact
         else if to_keypair_type forward = TOKEN \<and> \<not> accounts_equal forward (recv_token op)
         then Err TokenReceiveDiffers
         else Ok ()))"

definition certificate_hash :: "crypto_lib \<Rightarrow> bytes \<Rightarrow> bytes" where
  "certificate_hash L der = hash_default L der"

fun certificate_or_hash_hash :: "crypto_lib \<Rightarrow> certificate_or_hash \<Rightarrow> bytes" where
  "certificate_or_hash_hash L (Certificate der) = certificate_hash L der"
| "certificate_or_hash_hash L (CertHash h) = h"

definition canonical_certificate_or_hash :: "crypto_lib \<Rightarrow> manage_certificate \<Rightarrow> certificate_or_hash" where
  "canonical_certificate_or_hash L op =
     (case (mc_method op, mc_certificate_or_hash op) of
        (Subtract, Certificate der) \<Rightarrow> CertHash (certificate_hash L der)
      | (_, c) \<Rightarrow> c)"

definition manage_certificate_add_check ::
    "block_lib \<Rightarrow> operation_context \<Rightarrow> manage_certificate \<Rightarrow> block_error + unit" where
  "manage_certificate_add_check B ctx op =
     (case mc_certificate_or_hash op of
        CertHash _ \<Rightarrow> Err InvalidCertificateValue
      | Certificate der \<Rightarrow>
          and_then (ok_or CertificateErr (x509_parse B der)) (\<lambda>parsed.
          if x509_subject_key B parsed \<noteq> drop 1 (to_public_key_with_type (ctx_account ctx))
          then Err CertificateSubjectMismatch
          else (case mc_intermediates op of
                  Some (Bundle bundle) \<Rightarrow>
                    and_then (traverse (\<lambda>d. ok_or CertificateErr (x509_parse B d)) bundle) (\<lambda>graph.
                      ensure (x509_graph B parsed (set graph)) CertificateErr)
                | _ \<Rightarrow> Ok ())))"

definition seen_insert :: "'e \<Rightarrow> 'a set \<Rightarrow> 'a \<Rightarrow> 'e + 'a set" where
  "seen_insert e seen x = (if x \<in> seen then Err e else Ok (insert x seen))"

definition manage_certificate_validate ::
    "block_lib \<Rightarrow> operation_context \<Rightarrow> manage_certificate \<Rightarrow> block_error + unit" where
  "manage_certificate_validate B ctx op =
     (if mc_method op = SetMethod then Err AdjustMethodSetForbidden
      else if (mc_intermediates op = None) = (mc_method op = Add) then Err IntermediateCertificatesOnlyAdd
      else and_then (if mc_method op = Add then manage_certificate_add_check B ctx op else Ok ()) (\<lambda>_.
        and_then
          (try_fold (seen_insert DuplicateCertificateOperation) {}
             (map (\<lambda>other. certificate_or_hash_hash (crypto B) (mc_certificate_or_hash other))
                (iter_type the_manage_certificate ctx))) (\<lambda>_. Ok ())))"

fun operation_validate :: "block_lib \<Rightarrow> operation_context \<Rightarrow> operation \<Rightarrow> block_error + unit" where
  "operation_validate B ctx (OpSend op) = send_validate ctx op"
| "operation_validate B ctx (OpSetRep op) = set_rep_validate ctx op"
| "operation_validate B ctx (OpSetInfo op) = set_info_validate ctx op"
| "operation_validate B ctx (OpModifyPermissions op) = modify_permissions_validate (crypto B) ctx op"
| "operation_validate B ctx (OpCreateIdentifier op) = create_identifier_validate (crypto B) ctx op"
| "operation_validate B ctx (OpTokenAdminSupply op) = token_admin_supply_validate ctx op"
| "operation_validate B ctx (OpTokenAdminModifyBalance op) = token_admin_modify_balance_validate ctx op"
| "operation_validate B ctx (OpReceive op) = receive_validate ctx op"
| "operation_validate B ctx (OpManageCertificate op) = manage_certificate_validate B ctx op"

section \<open>Lemmas\<close>

lemma adjust_method_roundtrip [simp]: "adjust_method_try_from (adjust_method_to_bigint m) = Inr m"
  by (cases m) (simp_all add: adjust_method_try_from_def adjust_method_of_u8_def)

lemma validate_numeric_ok [simp]:
  "validate_numeric ctx v = Inr u \<longleftrightarrow>
     0 \<le> v \<or> (\<exists>cfg. ctx_config ctx = Some cfg \<and> ctx_date_ms ctx < numeric_cutoff_epoch_ms cfg)"
  by (auto simp: validate_numeric_def ctx_get_config_def)

lemma require_token_ok [simp]: "require_token a = Inr u \<longleftrightarrow> to_keypair_type a = TOKEN"
  by (simp add: require_token_def)

lemma guard_token_amount_ok [simp]:
  "guard_token_amount ctx a v = Inr u \<longleftrightarrow>
     to_keypair_type a = TOKEN \<and>
     (0 \<le> v \<or> (\<exists>cfg. ctx_config ctx = Some cfg \<and> ctx_date_ms ctx < numeric_cutoff_epoch_ms cfg))"
  by (auto simp: guard_token_amount_def)

lemma reject_token_account_ok [simp]:
  "reject_token_account ctx = Inr u \<longleftrightarrow> to_keypair_type (ctx_account ctx) \<noteq> TOKEN"
  by (simp add: reject_token_account_def account_is_token_def)

lemma send_external_validate_ok [simp]:
  "send_external_validate cfg external = Inr u \<longleftrightarrow>
     (if external \<in> {None, Some []} then can_be_empty (cfg_external cfg)
      else text_rule_is_valid (cfg_external cfg) (the external))"
  by (auto simp: send_external_validate_def text_rule_is_valid_def is_ok_def
      split: option.splits sum.splits text_rule_violation.splits)

lemma send_validate_iff:
  "send_validate ctx op = Inr u \<longleftrightarrow>
     (\<exists>cfg. ctx_config ctx = Some cfg \<and>
        to_keypair_type (send_token op) = TOKEN \<and>
        (0 \<le> send_amount op \<or> ctx_date_ms ctx < numeric_cutoff_epoch_ms cfg) \<and>
        (to_keypair_type (ctx_account ctx) = TOKEN \<longrightarrow> send_token op = ctx_account ctx) \<and>
        (to_keypair_type (send_to op) = TOKEN \<longrightarrow> send_to op = send_token op) \<and>
        (if send_external op \<in> {None, Some []} then can_be_empty (cfg_external cfg)
         else text_rule_is_valid (cfg_external cfg) (the (send_external op))))"
  unfolding send_validate_def account_is_token_def ctx_get_config_def accounts_equal_iff
    and_then_eq_Inr guard_token_amount_ok
  by (cases "ctx_config ctx") (simp_all del: insert_iff)

lemma receive_validate_iff:
  "receive_validate ctx op = Inr u \<longleftrightarrow>
     to_keypair_type (recv_token op) = TOKEN \<and>
     (0 \<le> recv_amount op \<or>
       (\<exists>cfg. ctx_config ctx = Some cfg \<and> ctx_date_ms ctx < numeric_cutoff_epoch_ms cfg)) \<and>
     to_keypair_type (ctx_account ctx) \<noteq> TOKEN \<and>
     (\<forall>f. recv_forward op = Some f \<longrightarrow>
        f \<noteq> ctx_account ctx \<and> recv_exact op \<and> (to_keypair_type f = TOKEN \<longrightarrow> f = recv_token op))"
  by (auto simp: receive_validate_def split: option.splits)

lemma try_fold_seen_insert:
  "try_fold (seen_insert e) seen xs = Inr s \<longleftrightarrow>
     distinct xs \<and> set xs \<inter> seen = {} \<and> s = seen \<union> set xs"
  by (induction xs arbitrary: seen) (auto simp: seen_insert_def)

lemma try_fold_seen_insert_ok:
  "(\<exists>s. try_fold (seen_insert e) {} xs = Inr s) \<longleftrightarrow> distinct xs"
  by (simp add: try_fold_seen_insert)

definition permission_key :: "crypto_lib \<Rightarrow> operation_context \<Rightarrow> modify_permissions \<Rightarrow> string \<times> string" where
  "permission_key L ctx m = (dedup_key L (mp_principal m), target_key L ctx m)"

lemma reject_duplicate_fold:
  "(\<exists>found'. try_fold (reject_duplicate_step L ctx) found ms = Inr found') \<longleftrightarrow>
     (\<forall>j < length ms. mp_method (ms ! j) = SetMethod \<longrightarrow>
        found (permission_key L ctx (ms ! j)) = None \<and>
        (\<forall>i < j. permission_key L ctx (ms ! i) \<noteq> permission_key L ctx (ms ! j)))"
proof (induction ms arbitrary: found)
  case (Cons m ms)
  let ?k = "permission_key L ctx"
  show ?case
  proof (cases "found (?k m) \<noteq> None \<and> mp_method m = SetMethod")
    case True
    then show ?thesis
      by (auto simp: reject_duplicate_step_def permission_key_def Let_def)
  next
    case False
    then have step: "reject_duplicate_step L ctx found m = Inr (found(?k m \<mapsto> mp_method m))"
      by (auto simp: reject_duplicate_step_def permission_key_def Let_def)
    show ?thesis
      using False by (simp add: step Cons.IH All_less_Suc2) auto
  qed
qed simp

lemma reject_duplicate_set_iff:
  "reject_duplicate_set L ctx = Inr u \<longleftrightarrow>
     (let ms = iter_type the_modify_permissions ctx in
      \<forall>j < length ms. mp_method (ms ! j) = SetMethod \<longrightarrow>
        (\<forall>i < j. permission_key L ctx (ms ! i) \<noteq> permission_key L ctx (ms ! j)))"
  using reject_duplicate_fold[of L ctx Map.empty "iter_type the_modify_permissions ctx"]
  by (auto simp: reject_duplicate_set_def Let_def)

lemma manage_certificate_distinct:
  "manage_certificate_validate B ctx op = Inr u \<Longrightarrow>
     distinct (map (\<lambda>m. certificate_or_hash_hash (crypto B) (mc_certificate_or_hash m))
       (iter_type the_manage_certificate ctx))"
  by (auto simp: manage_certificate_validate_def try_fold_seen_insert split: if_splits)

fun wf_principal :: "crypto_lib \<Rightarrow> modify_permissions_principal \<Rightarrow> bool" where
  "wf_principal L (PrincipalAccount a) = wf_account L a"
| "wf_principal L (PrincipalCertificate h a) = (length h = 32 \<and> wf_account L a)"

context crypto_laws
begin

lemma account_to_string_prefix: "\<exists>cs. account_to_string L a = ''keeta_'' @ cs"
proof -
  obtain cs where "Inr (''keeta_'' @ cs) = (Inr (account_to_string L a) :: account_error + string)"
    using account_to_string_eq[of L a] unfolding format_public_key_string_def Let_def hash_array_32
      and_then.simps and_then_eq_Inr by metis
  then show ?thesis by (metis sum.inject(2))
qed

lemma dedup_key_inject:
  assumes "wf_principal L p" and "wf_principal L q"
  shows "dedup_key L p = dedup_key L q \<longleftrightarrow> p = q"
proof (cases p; cases q)
  fix h a g b assume p: "p = PrincipalCertificate h a" and q: "q = PrincipalCertificate g b"
  have "length (hex_encode_upper L h) = length (hex_encode_upper L g)"
    using assms by (simp add: p q hex_upper_length)
  then show ?thesis using assms hex_upper_inject addr.enc_inject
    by (auto simp: p q dedup_key_def)
next
  fix a g b assume p: "p = PrincipalAccount a" and q: "q = PrincipalCertificate g b"
  show ?thesis using account_to_string_prefix[of a] by (auto simp: p q dedup_key_def)
next
  fix a g b assume p: "p = PrincipalCertificate g b" and q: "q = PrincipalAccount a"
  show ?thesis using account_to_string_prefix[of a] by (auto simp: p q dedup_key_def)
qed (use assms addr.enc_inject in \<open>auto simp: dedup_key_def\<close>)

lemma permission_key_inject:
  assumes "wf_principal L (mp_principal m)" "wf_principal L (mp_principal n)"
    and "wf_account L (ctx_account ctx)" "pred_option (wf_account L) (mp_target m)"
      "pred_option (wf_account L) (mp_target n)"
  shows "permission_key L ctx m = permission_key L ctx n \<longleftrightarrow>
    mp_principal m = mp_principal n \<and>
    case_option (ctx_account ctx) id (mp_target m) = case_option (ctx_account ctx) id (mp_target n)"
  using assms dedup_key_inject addr.enc_inject
  by (auto simp: permission_key_def target_key_def split: option.splits)

lemma create_identifier_validate_iff:
  "create_identifier_validate L ctx op = Inr u \<longleftrightarrow>
     (let t = to_keypair_type (ci_identifier op);
          h = (if ctx_previous ctx = to_opening_hash L (ctx_account ctx) then None
               else Some (ctx_previous ctx))
      in \<not> is_identifier (to_keypair_type (ctx_account ctx)) \<and> is_identifier t \<and>
         generate_identifier L (ctx_account ctx) t h (word_of_nat (ctx_index ctx)) = Inr (ci_identifier op) \<and>
         (case ci_arguments op of
            None \<Rightarrow> t \<noteq> MULTISIG
          | Some (MultisigArguments args) \<Rightarrow> validate_multisig_arguments L ctx t args = Inr ()))"
  by (auto simp: create_identifier_validate_def Let_def validate_multisig_arguments_def
      split: option.splits identifier_create_arguments.splits if_splits)

end

lemma validate_multisig_arguments_iff:
  "validate_multisig_arguments L ctx t args = Inr u \<longleftrightarrow>
     t = MULTISIG \<and>
     (\<exists>cfg. ctx_config ctx = Some cfg \<and> 1 \<le> length (ms_create_signers args) \<and>
        length (ms_create_signers args) \<le> max_signer_count cfg) \<and>
     (\<forall>s \<in> set (ms_create_signers args). supports_crypto (to_keypair_type s) \<or> to_keypair_type s = MULTISIG) \<and>
     unique_account_count L (ms_create_signers args) = length (ms_create_signers args) \<and>
     1 \<le> ms_create_quorum args \<and> ms_create_quorum args \<le> int (length (ms_create_signers args))"
  by (auto simp: validate_multisig_arguments_def ctx_get_config_def Let_def)

section \<open>Properties\<close>

text \<open>A SEND is accepted exactly when its network is known, its token field is a token account,
  a negative amount only dates from before the cutoff, a token account sends nothing but itself,
  a token account receives nothing but itself, and the external text obeys the network's rule.\<close>
theorem send_validate_spec:
  "send_validate ctx op = Inr () \<longleftrightarrow>
     (\<exists>cfg. ctx_config ctx = Some cfg \<and>
        to_keypair_type (send_token op) = TOKEN \<and>
        (0 \<le> send_amount op \<or> ctx_date_ms ctx < numeric_cutoff_epoch_ms cfg) \<and>
        (if to_keypair_type (ctx_account ctx) = TOKEN then send_token op = ctx_account ctx else True) \<and>
        (if to_keypair_type (send_to op) = TOKEN then send_to op = send_token op else True) \<and>
        (if send_external op \<in> {None, Some []} then can_be_empty (cfg_external cfg)
         else text_rule_is_valid (cfg_external cfg) (the (send_external op))))"
  unfolding send_validate_iff by simp

text \<open>A RECEIVE is accepted exactly when its token field is a token account, its amount passes
  the negative-amount rule, the block account is no token, and a forward target differs from the
  block account, comes with the exact flag, and is the received token if it is a token at all.\<close>
theorem receive_validate_spec:
  "receive_validate ctx op = Inr () \<longleftrightarrow>
     to_keypair_type (recv_token op) = TOKEN \<and>
     (0 \<le> recv_amount op \<or>
       (\<exists>cfg. ctx_config ctx = Some cfg \<and> ctx_date_ms ctx < numeric_cutoff_epoch_ms cfg)) \<and>
     to_keypair_type (ctx_account ctx) \<noteq> TOKEN \<and>
     (case recv_forward op of
        None \<Rightarrow> True
      | Some f \<Rightarrow> f \<noteq> ctx_account ctx \<and> recv_exact op \<and>
          (if to_keypair_type f = TOKEN then f = recv_token op else True))"
  unfolding receive_validate_iff by (auto split: option.splits)

text \<open>The duplicate check of MODIFY_PERMISSIONS rejects a block exactly when some SET follows an
  earlier modification of the same principal and the same target, an absent target standing for the
  block account.\<close>
theorem reject_duplicate_set_spec:
  fixes L ctx
  defines "ms \<equiv> iter_type the_modify_permissions ctx"
  assumes "crypto_laws L" and "wf_account L (ctx_account ctx)"
    and "list_all (\<lambda>m. wf_principal L (mp_principal m) \<and> pred_option (wf_account L) (mp_target m)) ms"
  shows "reject_duplicate_set L ctx \<noteq> Inr () \<longleftrightarrow>
    (\<exists>i j. i < j \<and> j < length ms \<and> mp_method (ms ! j) = SetMethod \<and>
       mp_principal (ms ! i) = mp_principal (ms ! j) \<and>
       case_option (ctx_account ctx) id (mp_target (ms ! i)) =
       case_option (ctx_account ctx) id (mp_target (ms ! j)))"
proof -
  have "permission_key L ctx (ms ! i) = permission_key L ctx (ms ! j) \<longleftrightarrow>
      mp_principal (ms ! i) = mp_principal (ms ! j) \<and>
      case_option (ctx_account ctx) id (mp_target (ms ! i)) =
      case_option (ctx_account ctx) id (mp_target (ms ! j))"
    if "i < length ms" "j < length ms" for i j
    using assms(3,4) that crypto_laws.permission_key_inject[OF assms(2)] by (simp add: list_all_length)
  then show ?thesis
    unfolding reject_duplicate_set_iff Let_def ms_def[symmetric]
    by (meson less_trans)
qed

theorem reject_duplicate_set_spec_witness:
  "\<exists>ctx. iter_type the_modify_permissions ctx \<noteq> [] \<and>
    (reject_duplicate_set ref_lib ctx \<noteq> Inr () \<longleftrightarrow>
    (\<exists>i j. i < j \<and> j < length (iter_type the_modify_permissions ctx) \<and>
       mp_method (iter_type the_modify_permissions ctx ! j) = SetMethod \<and>
       mp_principal (iter_type the_modify_permissions ctx ! i) =
         mp_principal (iter_type the_modify_permissions ctx ! j) \<and>
       case_option (ctx_account ctx) id (mp_target (iter_type the_modify_permissions ctx ! i)) =
       case_option (ctx_account ctx) id (mp_target (iter_type the_modify_permissions ctx ! j))))"
proof -
  let ?a = "Ed25519 (replicate 32 1)"
  let ?m = "\<lparr>mp_principal = PrincipalAccount (Ed25519 (replicate 32 2)), mp_method = SetMethod,
    mp_permissions = None, mp_target = Some ?a\<rparr>"
  let ?ctx = "\<lparr>ctx_config = Some default_config, ctx_account = ?a,
    ctx_operations = [OpModifyPermissions ?m, OpModifyPermissions (?m\<lparr>mp_target := None\<rparr>)],
    ctx_previous = [], ctx_date_ms = 0, ctx_index = 0\<rparr>"
  have "iter_type the_modify_permissions ?ctx = [?m, ?m\<lparr>mp_target := None\<rparr>]"
    by (simp add: iter_type_def map_filter_simps)
  then show ?thesis
    using reject_duplicate_set_spec[OF ref.crypto_laws_axioms, of ?ctx]
    by (intro exI[of _ ?ctx]) (simp add: wf_account_def)
qed

text \<open>CREATE_IDENTIFIER accepts exactly the identifier that hashing derives from the block
  account, the previous hash and the operation index, and only for a keyed account; a multisig
  identifier needs valid arguments and no other identifier may carry any.\<close>
theorem create_identifier_validate_spec:
  assumes "crypto_laws L"
  shows "create_identifier_validate L ctx op = Inr () \<longleftrightarrow>
    \<not> is_identifier (to_keypair_type (ctx_account ctx)) \<and>
    is_identifier (to_keypair_type (ci_identifier op)) \<and>
    as_public_key_bytes (ci_identifier op) =
      sha3_256 L (combine_seed_and_index
        (sha3_256 L (to_public_key_with_type (ctx_account ctx) @ ctx_previous ctx))
        (word_of_nat (ctx_index ctx))) \<and>
    (case ci_arguments op of
       None \<Rightarrow> to_keypair_type (ci_identifier op) \<noteq> MULTISIG
     | Some (MultisigArguments args) \<Rightarrow>
         validate_multisig_arguments L ctx (to_keypair_type (ci_identifier op)) args = Inr ())"
proof -
  have eq: "mk_account (to_keypair_type a) k = a \<longleftrightarrow> as_public_key_bytes a = k" for a k
    by (metis mk_account_sel(2) mk_account_to)
  show ?thesis
    unfolding crypto_laws.create_identifier_validate_iff[OF assms] Let_def
      crypto_laws.generate_identifier_eq[OF assms]
    by (auto simp: eq)
qed

theorem create_identifier_validate_spec_witness:
  "create_identifier_validate ref_lib
      \<lparr>ctx_config = Some default_config, ctx_account = Ed25519 (replicate 32 1), ctx_operations = [],
       ctx_previous = replicate 32 7, ctx_date_ms = 0, ctx_index = 3\<rparr>
      \<lparr>ci_identifier = Token (ref_hash (combine_seed_and_index
         (ref_hash (1 # replicate 32 1 @ replicate 32 7)) 3)), ci_arguments = None\<rparr> = Inr ()"
  by (simp add: create_identifier_validate_spec[OF ref.crypto_laws_axioms] is_identifier_iff
      to_public_key_with_type_def public_key_with_type_def)

text \<open>The arguments of a multisig CREATE_IDENTIFIER are accepted exactly when the number of
  signers is within the network's limit, each signer is a keyed account or a multisig account, no
  signer occurs twice and the quorum lies between one and the number of signers.\<close>
theorem multisig_arguments_spec:
  assumes "crypto_laws L" and "list_all (wf_account L) (ms_create_signers args)"
  shows "validate_multisig_arguments L ctx MULTISIG args = Inr () \<longleftrightarrow>
    (\<exists>cfg. ctx_config ctx = Some cfg \<and> length (ms_create_signers args) \<le> max_signer_count cfg) \<and>
    list_all (\<lambda>s. supports_crypto (to_keypair_type s) \<or> to_keypair_type s = MULTISIG) (ms_create_signers args) \<and>
    distinct (ms_create_signers args) \<and>
    1 \<le> ms_create_quorum args \<and> ms_create_quorum args \<le> int (length (ms_create_signers args))"
  unfolding validate_multisig_arguments_iff crypto_laws.unique_account_count_card[OF assms]
    card_distinct_iff
  by (auto simp: list_all_iff Suc_le_eq)

theorem multisig_arguments_spec_witness:
  "validate_multisig_arguments ref_lib
      \<lparr>ctx_config = Some default_config, ctx_account = Ed25519 (replicate 32 1), ctx_operations = [],
       ctx_previous = [], ctx_date_ms = 0, ctx_index = 0\<rparr> MULTISIG
      \<lparr>ms_create_signers = [Ed25519 (replicate 32 1), Multisig (replicate 32 2)], ms_create_quorum = 2\<rparr> = Inr ()"
  by (subst multisig_arguments_spec[OF ref.crypto_laws_axioms])
    (simp_all add: wf_account_def default_config_def)

end
