(* ===== verification/DerLib.thy ===== *)
theory DerLib
  imports BlockError Validation
begin

text \<open>
  The layer between the codecs of \<open>keetanetwork-asn1\<close> and the crates they call.  \<open>der_lib\<close> holds
  what the source takes from the \<open>der\<close>, \<open>num-bigint\<close> and \<open>chrono\<close> crates: writing and reading one
  tag-length-value element, peeking at a tag, signed big-endian integers, and the textual
  \<open>GeneralizedTime\<close> form.  The helpers are those of \<open>block/codec/der_codec.rs\<close> and
  \<open>asn1_time.rs\<close>; a reader is the list of bytes it has left.  \<open>der_laws\<close> states what the codecs
  rely on.
\<close>

datatype tag =
    TagBoolean | TagInteger | TagBitString | TagOctetString | TagNull | TagOid | TagUtf8String
  | TagGeneralizedTime | TagSequence | TagSet | TagContext (tag_constructed: bool) (tag_number: nat)
  | TagOther byte

record der_lib =
  tlv_encode :: "tag \<Rightarrow> bytes \<Rightarrow> bytes option"
  tlv_decode :: "bytes \<Rightarrow> (tag \<times> bytes \<times> bytes) option"
  tlv_peek :: "bytes \<Rightarrow> tag option"
  to_signed_bytes_be :: "int \<Rightarrow> bytes"
  from_signed_bytes_be :: "bytes \<Rightarrow> int"
  time_format :: "int \<Rightarrow> bytes"
  time_parse :: "bytes \<Rightarrow> int option"

type_synonym 'a reader = "bytes \<Rightarrow> asn1_error + 'a \<times> bytes"

fun tag_octet :: "tag \<Rightarrow> byte option" where
  "tag_octet TagSequence = Some 0x30"
| "tag_octet (TagContext True n) = (if n < 31 then Some (word_of_nat (160 + n)) else None)"
| "tag_octet _ = None"

section \<open>Writing\<close>

definition der_encode :: "der_lib \<Rightarrow> tag \<Rightarrow> bytes \<Rightarrow> asn1_error + bytes" where
  "der_encode D t v = ok_or DerError (tlv_encode D t v)"

definition encode_octet :: "der_lib \<Rightarrow> bytes \<Rightarrow> asn1_error + bytes" where
  "encode_octet D bs = der_encode D TagOctetString bs"

definition encode_utf8 :: "der_lib \<Rightarrow> rust_string \<Rightarrow> asn1_error + bytes" where
  "encode_utf8 D s = der_encode D TagUtf8String s"

definition encode_bigint :: "der_lib \<Rightarrow> int \<Rightarrow> asn1_error + bytes" where
  "encode_bigint D n = der_encode D TagInteger (to_signed_bytes_be D n)"

definition encode_null :: "der_lib \<Rightarrow> asn1_error + bytes" where
  "encode_null D = der_encode D TagNull []"

definition encode_bool :: "der_lib \<Rightarrow> bool \<Rightarrow> asn1_error + bytes" where
  "encode_bool D b = der_encode D TagBoolean [if b then 0xFF else 0]"

definition time_value_len :: "int \<Rightarrow> nat" where
  "time_value_len t = (if t mod 1000 = 0 then 15 else 19)"

definition encode_time :: "der_lib \<Rightarrow> int \<Rightarrow> asn1_error + bytes" where
  "encode_time D t =
     (if length (time_format D t) = time_value_len t
      then der_encode D TagGeneralizedTime (time_format D t) else Err DerError)"

definition wrap_sequence :: "der_lib \<Rightarrow> bytes \<Rightarrow> asn1_error + bytes" where
  "wrap_sequence D content = der_encode D TagSequence content"

definition wrap_context :: "der_lib \<Rightarrow> nat \<Rightarrow> bytes \<Rightarrow> asn1_error + bytes" where
  "wrap_context D n content = der_encode D (TagContext True n) content"

fun write_all :: "(asn1_error + bytes) list \<Rightarrow> asn1_error + bytes" where
  "write_all [] = Ok []"
| "write_all (w # ws) = and_then w (\<lambda>b. and_then (write_all ws) (\<lambda>bs. Ok (b @ bs)))"

definition write_opt :: "('a \<Rightarrow> asn1_error + bytes) \<Rightarrow> 'a option \<Rightarrow> asn1_error + bytes" where
  "write_opt f x = (case x of None \<Rightarrow> Ok [] | Some a \<Rightarrow> f a)"

section \<open>Reading\<close>

definition der_any :: "der_lib \<Rightarrow> (tag \<times> bytes) reader" where
  "der_any D r = and_then (ok_or DerError (tlv_decode D r)) (\<lambda>(t, v, rest). Ok ((t, v), rest))"

definition peek_tag :: "der_lib \<Rightarrow> bytes \<Rightarrow> asn1_error + tag" where
  "peek_tag D r = ok_or DerError (tlv_peek D r)"

definition read_tagged :: "der_lib \<Rightarrow> tag \<Rightarrow> bytes reader" where
  "read_tagged D t r =
     and_then (der_any D r) (\<lambda>((t', v), rest). if t' \<noteq> t then Err DerError else Ok (v, rest))"

definition read_octet :: "der_lib \<Rightarrow> bytes reader" where
  "read_octet D = read_tagged D TagOctetString"

definition read_bigint :: "der_lib \<Rightarrow> int reader" where
  "read_bigint D r =
     and_then (read_tagged D TagInteger r) (\<lambda>(v, rest). Ok (from_signed_bytes_be D v, rest))"

definition read_utf8 :: "der_lib \<Rightarrow> rust_string reader" where
  "read_utf8 D r =
     and_then (read_tagged D TagUtf8String r) (\<lambda>(v, rest).
       if valid_utf8 v then Ok (v, rest) else Err DerError)"

definition read_bool :: "der_lib \<Rightarrow> bool reader" where
  "read_bool D r =
     and_then (read_tagged D TagBoolean r) (\<lambda>(v, rest).
       if v = [0xFF] then Ok (True, rest) else if v = [0] then Ok (False, rest) else Err DerError)"

definition read_null :: "der_lib \<Rightarrow> unit reader" where
  "read_null D r =
     and_then (read_tagged D TagNull r) (\<lambda>(v, rest). if v = [] then Ok ((), rest) else Err DerError)"

definition parse_transport :: "der_lib \<Rightarrow> bytes \<Rightarrow> int option" where
  "parse_transport D text = (if length text \<in> {15, 19} then time_parse D text else None)"

definition read_time :: "der_lib \<Rightarrow> int reader" where
  "read_time D r =
     and_then (read_tagged D TagGeneralizedTime r) (\<lambda>(v, rest).
       if length v \<notin> {15, 19} \<or> \<not> valid_utf8 v then Err DerError
       else and_then (ok_or DerError (parse_transport D v)) (\<lambda>t. Ok (t, rest)))"

definition read_sequence :: "der_lib \<Rightarrow> bytes reader" where
  "read_sequence D = read_tagged D TagSequence"

definition ensure_finished :: "bytes \<Rightarrow> asn1_error + unit" where
  "ensure_finished r = ensure (r = []) InvalidBlockVersion"

text \<open>The loop \<open>while !reader.is_finished() { out.push(f(reader)?) }\<close>; \<open>None\<close> is running out of
  steps, which \<open>read_many_enough\<close> rules out.\<close>

fun read_many_steps :: "nat \<Rightarrow> 'a reader \<Rightarrow> bytes \<Rightarrow> (asn1_error + 'a list) option" where
  "read_many_steps n f [] = Some (Ok [])"
| "read_many_steps 0 f r = None"
| "read_many_steps (Suc n) f r =
     (case f r of
        Inl e \<Rightarrow> Some (Err e)
      | Inr (x, rest) \<Rightarrow>
          (case read_many_steps n f rest of
             None \<Rightarrow> None
           | Some (Inl e) \<Rightarrow> Some (Err e)
           | Some (Inr xs) \<Rightarrow> Some (Ok (x # xs))))"

definition read_many :: "'a reader \<Rightarrow> bytes \<Rightarrow> asn1_error + 'a list" where
  "read_many f r = (case read_many_steps (length r) f r of Some x \<Rightarrow> x | None \<Rightarrow> Err DerError)"

definition asn1_time_range :: "int \<Rightarrow> bool" where
  "asn1_time_range t \<longleftrightarrow> -62167219200000 \<le> t \<and> t < 253402300800000"

section \<open>Laws\<close>

lemma write_opt_simps [simp]: "write_opt f None = Inr []" "write_opt f (Some a) = f a"
  by (simp_all add: write_opt_def)

lemma write_all_append:
  "write_all (xs @ ys) = and_then (write_all xs) (\<lambda>b. and_then (write_all ys) (\<lambda>c. Ok (b @ c)))"
  by (induction xs) (auto simp: and_then_assoc)

lemma ensure_finished_simps [simp]:
  "ensure_finished [] = Inr ()" "r \<noteq> [] \<Longrightarrow> ensure_finished r = Inl InvalidBlockVersion"
  by (simp_all add: ensure_finished_def)

lemma ensure_finished_ok [simp]: "ensure_finished r = Inr u \<longleftrightarrow> r = []"
  by (simp add: ensure_finished_def)

definition consumes :: "'a reader \<Rightarrow> bool" where
  "consumes f \<longleftrightarrow> (\<forall>r x rest. f r = Inr (x, rest) \<longrightarrow> length rest < length r)"

lemma read_many_steps_enough: "consumes f \<Longrightarrow> length r \<le> n \<Longrightarrow> read_many_steps n f r \<noteq> None"
proof (induction n f r rule: read_many_steps.induct)
  case (3 n f a r)
  show ?case
  proof (cases "f (a # r)")
    case (Inr p)
    then obtain x rest where p: "f (a # r) = Inr (x, rest)" by (cases p) auto
    then have "length rest < length (a # r)" using 3(2) unfolding consumes_def by blast
    then have "length rest \<le> n" using 3(3) by simp
    then show ?thesis using 3 p by (auto split: option.splits sum.splits)
  qed simp
qed auto

lemma read_many_steps_mono:
  "read_many_steps n f r = Some x \<Longrightarrow> n \<le> m \<Longrightarrow> read_many_steps m f r = Some x"
proof (induction n f r arbitrary: m x rule: read_many_steps.induct)
  case (3 n f a r)
  then obtain k where m: "m = Suc k" "n \<le> k" by (cases m) auto
  show ?case
  proof (cases "f (a # r)")
    case (Inr p)
    then obtain x0 rest where p: "f (a # r) = Inr (x0, rest)" by (cases p) auto
    then obtain y where y: "read_many_steps n f rest = Some y"
      using 3(2) by (auto split: option.splits)
    have "read_many_steps k f rest = Some y" using 3(1)[OF p refl y m(2)] .
    then show ?thesis using 3(2) p y m(1) by simp
  qed (use 3(2) m in simp)
qed auto

lemma read_many_Nil [simp]: "read_many f [] = Inr []"
  by (simp add: read_many_def)

lemma read_many_cons:
  assumes "consumes f" and "f r = Inr (x, rest)"
  shows "read_many f r = and_then (read_many f rest) (\<lambda>xs. Ok (x # xs))"
proof -
  have less: "length rest < length r" using assms by (simp add: consumes_def)
  then obtain n where n: "length r = Suc n" "length rest \<le> n" by (cases "length r") auto
  obtain y where y: "read_many_steps (length rest) f rest = Some y"
    using read_many_steps_enough[OF assms(1), of rest "length rest"] by auto
  then have "read_many_steps n f rest = Some y" using read_many_steps_mono n(2) by blast
  then show ?thesis
    using n(1) assms(2) y by (cases r) (auto simp: read_many_def split: sum.splits)
qed

lemma read_many_write_all:
  assumes "consumes f"
    and "\<And>x bs rest. x \<in> set xs \<Longrightarrow> g x = Inr bs \<Longrightarrow> f (bs @ rest) = Inr (x, rest)"
    and "write_all (map g xs) = Inr bs"
  shows "read_many f bs = Inr xs"
  using assms(2,3)
proof (induction xs arbitrary: bs)
  case (Cons x xs)
  then obtain b bs' where b: "g x = Inr b" "write_all (map g xs) = Inr bs'" "bs = b @ bs'" by auto
  have "f (b @ bs') = Inr (x, bs')" using Cons.prems(1) b by simp
  moreover have "read_many f bs' = Inr xs" using Cons.IH[OF Cons.prems(1)] b by simp
  ultimately show ?case using read_many_cons[OF assms(1)] b by simp
qed simp

locale der_laws =
  fixes D :: der_lib
  assumes tlv_roundtrip: "tlv_encode D t v = Some bs \<Longrightarrow> tlv_decode D (bs @ rest) = Some (t, v, rest)"
    and tlv_peek_encode: "tlv_encode D t v = Some bs \<Longrightarrow> tlv_peek D (bs @ rest) = Some t"
    and tlv_first: "tlv_encode D t v = Some bs \<Longrightarrow> tag_octet t = Some b \<Longrightarrow> \<exists>bs'. bs = b # bs'"
    and tlv_consumes: "tlv_decode D bs = Some (t, v, rest) \<Longrightarrow> length v + length rest + 2 \<le> length bs"
    and int_roundtrip: "from_signed_bytes_be D (to_signed_bytes_be D n) = n"
    and time_roundtrip: "asn1_time_range ms \<Longrightarrow>
      length (time_format D ms) = time_value_len ms \<and> valid_utf8 (time_format D ms) \<and>
      time_parse D (time_format D ms) = Some ms"
begin

lemma der_encode_ok [simp]: "der_encode D t v = Inr bs \<longleftrightarrow> tlv_encode D t v = Some bs"
  by (simp add: der_encode_def)

lemma der_any_encode: "tlv_encode D t v = Some bs \<Longrightarrow> der_any D (bs @ rest) = Inr ((t, v), rest)"
  by (simp add: der_any_def tlv_roundtrip)

lemma encode_nonempty: "tlv_encode D t v = Some bs \<Longrightarrow> bs \<noteq> []"
  using tlv_roundtrip[of t v bs "[]"] tlv_consumes[of bs t v "[]"] by auto

lemma read_tagged_encode: "der_encode D t v = Inr bs \<Longrightarrow> read_tagged D t (bs @ rest) = Inr (v, rest)"
  by (simp add: read_tagged_def der_any_encode)

lemma peek_encode: "der_encode D t v = Inr bs \<Longrightarrow> peek_tag D (bs @ rest) = Inr t"
  by (simp add: peek_tag_def tlv_peek_encode)

lemma read_tagged_consumes:
  "read_tagged D t r = Inr (v, rest) \<Longrightarrow> length v + length rest + 2 \<le> length r"
  by (auto simp: read_tagged_def der_any_def dest!: tlv_consumes split: if_splits)

lemma read_octet_consumes: "consumes (read_octet D)"
  using read_tagged_consumes by (fastforce simp: consumes_def read_octet_def)

lemma octet [simp]:
  "encode_octet D v = Inr bs \<Longrightarrow> read_octet D (bs @ rest) = Inr (v, rest)"
  "encode_octet D v = Inr bs \<Longrightarrow> peek_tag D (bs @ rest) = Inr TagOctetString"
  "encode_octet D v = Inr bs \<Longrightarrow> bs \<noteq> []"
  unfolding encode_octet_def read_octet_def
  by (auto simp: read_tagged_encode peek_encode dest: encode_nonempty)

lemma bigint [simp]:
  "encode_bigint D n = Inr bs \<Longrightarrow> read_bigint D (bs @ rest) = Inr (n, rest)"
  "encode_bigint D n = Inr bs \<Longrightarrow> peek_tag D (bs @ rest) = Inr TagInteger"
  "encode_bigint D n = Inr bs \<Longrightarrow> bs \<noteq> []"
  unfolding encode_bigint_def read_bigint_def
  by (auto simp: read_tagged_encode peek_encode int_roundtrip dest: encode_nonempty)

lemma utf8 [simp]:
  "encode_utf8 D s = Inr bs \<Longrightarrow> valid_utf8 s \<Longrightarrow> read_utf8 D (bs @ rest) = Inr (s, rest)"
  "encode_utf8 D s = Inr bs \<Longrightarrow> bs \<noteq> []"
  unfolding encode_utf8_def read_utf8_def
  by (auto simp: read_tagged_encode dest: encode_nonempty)

lemma null [simp]:
  "encode_null D = Inr bs \<Longrightarrow> read_null D (bs @ rest) = Inr ((), rest)"
  "encode_null D = Inr bs \<Longrightarrow> peek_tag D (bs @ rest) = Inr TagNull"
  "encode_null D = Inr bs \<Longrightarrow> bs \<noteq> []"
  unfolding encode_null_def read_null_def
  by (auto simp: read_tagged_encode peek_encode dest: encode_nonempty)

lemma bool [simp]:
  "encode_bool D b = Inr bs \<Longrightarrow> read_bool D (bs @ rest) = Inr (b, rest)"
  unfolding encode_bool_def read_bool_def
  by (auto simp: read_tagged_encode)

lemma time [simp]:
  "encode_time D t = Inr bs \<Longrightarrow> asn1_time_range t \<Longrightarrow> read_time D (bs @ rest) = Inr (t, rest)"
  "encode_time D t = Inr bs \<Longrightarrow> peek_tag D (bs @ rest) = Inr TagGeneralizedTime"
  unfolding encode_time_def read_time_def
  using time_roundtrip[of t]
  by (auto simp: read_tagged_encode peek_encode parse_transport_def time_value_len_def split: if_splits)

lemma sequence [simp]:
  "wrap_sequence D v = Inr bs \<Longrightarrow> read_sequence D (bs @ rest) = Inr (v, rest)"
  "wrap_sequence D v = Inr bs \<Longrightarrow> peek_tag D (bs @ rest) = Inr TagSequence"
  "wrap_sequence D v = Inr bs \<Longrightarrow> bs \<noteq> []"
  unfolding wrap_sequence_def read_sequence_def
  by (auto simp: read_tagged_encode peek_encode dest: encode_nonempty)

lemma context_tag [simp]:
  "wrap_context D n v = Inr bs \<Longrightarrow> der_any D (bs @ rest) = Inr ((TagContext True n, v), rest)"
  "wrap_context D n v = Inr bs \<Longrightarrow> peek_tag D (bs @ rest) = Inr (TagContext True n)"
  "wrap_context D n v = Inr bs \<Longrightarrow> bs \<noteq> []"
  unfolding wrap_context_def
  by (auto simp: der_any_encode peek_encode dest: encode_nonempty)

lemma sequence_any [simp]:
  "wrap_sequence D v = Inr bs \<Longrightarrow> der_any D (bs @ rest) = Inr ((TagSequence, v), rest)"
  unfolding wrap_sequence_def by (simp add: der_any_encode)

lemma never_empty [simp]:
  "encode_octet D v \<noteq> Inr []" "encode_bigint D n \<noteq> Inr []" "encode_utf8 D v \<noteq> Inr []"
  "encode_null D \<noteq> Inr []" "wrap_sequence D v \<noteq> Inr []" "wrap_context D k v \<noteq> Inr []"
  using octet(3) bigint(3) utf8(2) null(3) sequence(3) context_tag(3) by blast+

lemmas at_end [simp] =
  octet(1,2)[where rest = "[]", simplified] bigint(1,2)[where rest = "[]", simplified]
  utf8(1)[where rest = "[]", simplified] null(1,2)[where rest = "[]", simplified]
  bool[where rest = "[]", simplified] sequence(1,2)[where rest = "[]", simplified]
  context_tag(1,2)[where rest = "[]", simplified] sequence_any[where rest = "[]", simplified]

lemma first_sequence: "wrap_sequence D v = Inr bs \<Longrightarrow> \<exists>bs'. bs = 0x30 # bs'"
  using tlv_first by (auto simp: wrap_sequence_def)

lemma first_context: "wrap_context D n v = Inr bs \<Longrightarrow> n < 31 \<Longrightarrow> \<exists>bs'. bs = word_of_nat (160 + n) # bs'"
  using tlv_first by (auto simp: wrap_context_def)

end

end
