(* ===== verification/Asn1Block.thy ===== *)
theory Asn1Block
  imports DerLib
begin

text \<open>
  The transport form of blocks and its DER codec (\<open>asn1/src/block/types.rs\<close>,
  \<open>asn1/src/block/codec.rs\<close>, \<open>asn1/src/block/codec/der_codec.rs\<close>).  An encoder returns the bytes it
  appends; a decoder takes the bytes a reader has left and returns what remains.  The two
  traversals of the multisig tree keep the source's explicit stacks.
\<close>

section \<open>Transport types\<close>

record t_permissions =
  tp_base :: int
  tp_external :: int

datatype t_permissions_or_null = TPermissions t_permissions | TPermissionsNull

record t_certificate_principal =
  tcp_hash :: bytes
  tcp_account :: bytes

datatype t_principal = TPrincipalAccount bytes | TPrincipalCertificate t_certificate_principal

record t_multisig_arguments =
  tma_signers :: "bytes list"
  tma_quorum :: int

datatype t_intermediates = TIntermediatesNull | TIntermediatesBundle "bytes list"

record t_send =
  ts_to :: bytes
  ts_amount :: int
  ts_token :: bytes
  ts_external :: "rust_string option"

record t_set_rep =
  tsr_to :: bytes

record t_set_info =
  tsi_name :: rust_string
  tsi_description :: rust_string
  tsi_metadata :: rust_string
  tsi_default_permission :: "t_permissions option"

record t_modify_permissions =
  tmp_principal :: t_principal
  tmp_method :: int
  tmp_permissions :: t_permissions_or_null
  tmp_target :: "bytes option"

record t_create_identifier =
  tci_identifier :: bytes
  tci_multisig :: "t_multisig_arguments option"

record t_token_admin_supply =
  tts_amount :: int
  tts_method :: int

record t_token_admin_modify_balance =
  ttb_token :: bytes
  ttb_amount :: int
  ttb_method :: int

record t_receive =
  tr_amount :: int
  tr_token :: bytes
  tr_from :: bytes
  tr_exact :: bool
  tr_forward :: "bytes option"

record t_manage_certificate =
  tmc_method :: int
  tmc_certificate_or_hash :: bytes
  tmc_intermediates :: "t_intermediates option"

datatype t_operation =
    TSend t_send | TSetRep t_set_rep | TSetInfo t_set_info | TModifyPermissions t_modify_permissions
  | TCreateIdentifier t_create_identifier | TTokenAdminSupply t_token_admin_supply
  | TTokenAdminModifyBalance t_token_admin_modify_balance | TReceive t_receive
  | TManageCertificate t_manage_certificate

datatype t_signer = TSignerEmpty | TSignerSingle bytes | TSignerMultisig bytes "t_signer list"

datatype t_signatures = TSignatureSingle bytes | TSignatureMultiple "bytes list"

datatype integer_or_null = IntegerValue int | IntegerNull

datatype octet_string_or_null = OctetValue bytes | OctetNull

record block_v1 =
  v1_version :: int
  v1_network :: int
  v1_subnet :: integer_or_null
  v1_idempotent :: "bytes option"
  v1_date :: int
  v1_signer :: bytes
  v1_account :: octet_string_or_null
  v1_previous :: bytes
  v1_operations :: "t_operation list"
  v1_signature :: "bytes option"

record block_v2 =
  v2_network :: int
  v2_subnet :: "int option"
  v2_idempotent :: "bytes option"
  v2_date :: int
  v2_purpose :: int
  v2_account :: bytes
  v2_signer :: t_signer
  v2_previous :: bytes
  v2_operations :: "t_operation list"
  v2_signatures :: "t_signatures option"

datatype t_block = BlockV1 block_v1 | BlockV2 block_v2

section \<open>Small pieces\<close>

definition V2_TAG :: nat where "V2_TAG = 1"
definition CERTIFICATE_PRINCIPAL_TAG :: nat where "CERTIFICATE_PRINCIPAL_TAG = 1"
definition MULTISIG_ARGUMENTS_TAG :: nat where "MULTISIG_ARGUMENTS_TAG = 7"

fun encode_integer_or_null :: "der_lib \<Rightarrow> integer_or_null \<Rightarrow> asn1_error + bytes" where
  "encode_integer_or_null D (IntegerValue n) = encode_bigint D n"
| "encode_integer_or_null D IntegerNull = encode_null D"

definition decode_integer_or_null :: "der_lib \<Rightarrow> integer_or_null reader" where
  "decode_integer_or_null D r =
     and_then (peek_tag D r) (\<lambda>t.
       if t = TagInteger then and_then (read_bigint D r) (\<lambda>(n, r). Ok (IntegerValue n, r))
       else if t = TagNull then and_then (read_null D r) (\<lambda>(_, r). Ok (IntegerNull, r))
       else Err DerError)"

fun encode_octet_or_null :: "der_lib \<Rightarrow> octet_string_or_null \<Rightarrow> asn1_error + bytes" where
  "encode_octet_or_null D (OctetValue bs) = encode_octet D bs"
| "encode_octet_or_null D OctetNull = encode_null D"

definition decode_octet_or_null :: "der_lib \<Rightarrow> octet_string_or_null reader" where
  "decode_octet_or_null D r =
     and_then (peek_tag D r) (\<lambda>t.
       if t = TagOctetString then and_then (read_octet D r) (\<lambda>(bs, r). Ok (OctetValue bs, r))
       else if t = TagNull then and_then (read_null D r) (\<lambda>(_, r). Ok (OctetNull, r))
       else Err DerError)"

definition encode_permissions :: "der_lib \<Rightarrow> t_permissions \<Rightarrow> asn1_error + bytes" where
  "encode_permissions D p =
     and_then (write_all [encode_bigint D (tp_base p), encode_bigint D (tp_external p)]) (wrap_sequence D)"

definition read_permissions :: "der_lib \<Rightarrow> t_permissions reader" where
  "read_permissions D r =
     and_then (read_sequence D r) (\<lambda>(content, r).
     and_then (read_bigint D content) (\<lambda>(base, inner).
     and_then (read_bigint D inner) (\<lambda>(external, inner).
     and_then (ensure_finished inner) (\<lambda>_.
       Ok (\<lparr>tp_base = base, tp_external = external\<rparr>, r)))))"

definition read_opt_end :: "'a reader \<Rightarrow> 'a option reader" where
  "read_opt_end f r = (if r = [] then Ok (None, r) else and_then (f r) (\<lambda>(x, r). Ok (Some x, r)))"

definition read_opt_tag :: "der_lib \<Rightarrow> tag \<Rightarrow> 'a reader \<Rightarrow> 'a option reader" where
  "read_opt_tag D t f r =
     and_then (peek_tag D r) (\<lambda>t'. if t' = t then and_then (f r) (\<lambda>(x, r). Ok (Some x, r)) else Ok (None, r))"

section \<open>Operation fields\<close>

definition encode_send :: "der_lib \<Rightarrow> t_send \<Rightarrow> asn1_error + bytes" where
  "encode_send D op =
     write_all [encode_octet D (ts_to op), encode_bigint D (ts_amount op), encode_octet D (ts_token op),
       write_opt (encode_utf8 D) (ts_external op)]"

definition decode_send :: "der_lib \<Rightarrow> t_send reader" where
  "decode_send D r =
     and_then (read_octet D r) (\<lambda>(to, r).
     and_then (read_bigint D r) (\<lambda>(amount, r).
     and_then (read_octet D r) (\<lambda>(token, r).
     and_then (read_opt_end (read_utf8 D) r) (\<lambda>(external, r).
       Ok (\<lparr>ts_to = to, ts_amount = amount, ts_token = token, ts_external = external\<rparr>, r)))))"

definition encode_set_rep :: "der_lib \<Rightarrow> t_set_rep \<Rightarrow> asn1_error + bytes" where
  "encode_set_rep D op = encode_octet D (tsr_to op)"

definition decode_set_rep :: "der_lib \<Rightarrow> t_set_rep reader" where
  "decode_set_rep D r = and_then (read_octet D r) (\<lambda>(to, r). Ok (\<lparr>tsr_to = to\<rparr>, r))"

definition encode_set_info :: "der_lib \<Rightarrow> t_set_info \<Rightarrow> asn1_error + bytes" where
  "encode_set_info D op =
     write_all [encode_utf8 D (tsi_name op), encode_utf8 D (tsi_description op), encode_utf8 D (tsi_metadata op),
       write_opt (encode_permissions D) (tsi_default_permission op)]"

definition decode_set_info :: "der_lib \<Rightarrow> t_set_info reader" where
  "decode_set_info D r =
     and_then (read_utf8 D r) (\<lambda>(name, r).
     and_then (read_utf8 D r) (\<lambda>(description, r).
     and_then (read_utf8 D r) (\<lambda>(metadata, r).
     and_then (read_opt_end (read_permissions D) r) (\<lambda>(default_permission, r).
       Ok (\<lparr>tsi_name = name, tsi_description = description, tsi_metadata = metadata,
            tsi_default_permission = default_permission\<rparr>, r)))))"

definition encode_principal :: "der_lib \<Rightarrow> t_principal \<Rightarrow> asn1_error + bytes" where
  "encode_principal D p =
     (case p of
        TPrincipalAccount bs \<Rightarrow> encode_octet D bs
      | TPrincipalCertificate c \<Rightarrow>
          and_then (write_all [encode_octet D (tcp_hash c), encode_octet D (tcp_account c)]) (\<lambda>content.
          and_then (wrap_sequence D content) (wrap_context D CERTIFICATE_PRINCIPAL_TAG)))"

definition decode_principal :: "der_lib \<Rightarrow> t_principal reader" where
  "decode_principal D r =
     and_then (peek_tag D r) (\<lambda>t.
       if t = TagOctetString then and_then (read_octet D r) (\<lambda>(bs, r). Ok (TPrincipalAccount bs, r))
       else if t = TagContext True CERTIFICATE_PRINCIPAL_TAG then
         and_then (der_any D r) (\<lambda>((_, v), r).
         and_then (read_sequence D v) (\<lambda>(content, outer).
         and_then (ensure_finished outer) (\<lambda>_.
         and_then (read_octet D content) (\<lambda>(hash, inner).
         and_then (read_octet D inner) (\<lambda>(account, inner).
         and_then (ensure_finished inner) (\<lambda>_.
           Ok (TPrincipalCertificate \<lparr>tcp_hash = hash, tcp_account = account\<rparr>, r)))))))
       else Err DerError)"

fun encode_permissions_or_null :: "der_lib \<Rightarrow> t_permissions_or_null \<Rightarrow> asn1_error + bytes" where
  "encode_permissions_or_null D (TPermissions p) = encode_permissions D p"
| "encode_permissions_or_null D TPermissionsNull = encode_null D"

definition decode_permissions_or_null :: "der_lib \<Rightarrow> t_permissions_or_null reader" where
  "decode_permissions_or_null D r =
     and_then (peek_tag D r) (\<lambda>t.
       if t = TagNull then and_then (read_null D r) (\<lambda>(_, r). Ok (TPermissionsNull, r))
       else if t = TagSequence then and_then (read_permissions D r) (\<lambda>(p, r). Ok (TPermissions p, r))
       else Err DerError)"

definition encode_modify_permissions :: "der_lib \<Rightarrow> t_modify_permissions \<Rightarrow> asn1_error + bytes" where
  "encode_modify_permissions D op =
     write_all [encode_principal D (tmp_principal op), encode_bigint D (tmp_method op),
       encode_permissions_or_null D (tmp_permissions op), write_opt (encode_octet D) (tmp_target op)]"

definition decode_modify_permissions :: "der_lib \<Rightarrow> t_modify_permissions reader" where
  "decode_modify_permissions D r =
     and_then (decode_principal D r) (\<lambda>(who, r).
     and_then (read_bigint D r) (\<lambda>(method, r).
     and_then (decode_permissions_or_null D r) (\<lambda>(permissions, r).
     and_then (read_opt_end (read_octet D) r) (\<lambda>(target, r).
       Ok (\<lparr>tmp_principal = who, tmp_method = method, tmp_permissions = permissions,
            tmp_target = target\<rparr>, r)))))"

definition encode_octets :: "der_lib \<Rightarrow> bytes list \<Rightarrow> asn1_error + bytes" where
  "encode_octets D xs = and_then (write_all (map (encode_octet D) xs)) (wrap_sequence D)"

definition encode_multisig_arguments :: "der_lib \<Rightarrow> t_multisig_arguments \<Rightarrow> asn1_error + bytes" where
  "encode_multisig_arguments D args =
     and_then (write_all [encode_octets D (tma_signers args), encode_bigint D (tma_quorum args)]) (\<lambda>content.
     and_then (wrap_sequence D content) (wrap_context D MULTISIG_ARGUMENTS_TAG))"

definition decode_multisig_arguments :: "der_lib \<Rightarrow> t_multisig_arguments reader" where
  "decode_multisig_arguments D r =
     and_then (peek_tag D r) (\<lambda>t.
       if t = TagContext True MULTISIG_ARGUMENTS_TAG then
         and_then (der_any D r) (\<lambda>((_, v), r).
         and_then (read_sequence D v) (\<lambda>(content, outer).
         and_then (ensure_finished outer) (\<lambda>_.
         and_then (read_sequence D content) (\<lambda>(signers_content, inner).
         and_then (read_many (read_octet D) signers_content) (\<lambda>signers.
         and_then (read_bigint D inner) (\<lambda>(quorum, inner).
         and_then (ensure_finished inner) (\<lambda>_.
           Ok (\<lparr>tma_signers = signers, tma_quorum = quorum\<rparr>, r))))))))
       else Err DerError)"

definition encode_create_identifier :: "der_lib \<Rightarrow> t_create_identifier \<Rightarrow> asn1_error + bytes" where
  "encode_create_identifier D op =
     write_all [encode_octet D (tci_identifier op), write_opt (encode_multisig_arguments D) (tci_multisig op)]"

definition decode_create_identifier :: "der_lib \<Rightarrow> t_create_identifier reader" where
  "decode_create_identifier D r =
     and_then (read_octet D r) (\<lambda>(identifier, r).
     and_then (read_opt_end (decode_multisig_arguments D) r) (\<lambda>(multisig, r).
       Ok (\<lparr>tci_identifier = identifier, tci_multisig = multisig\<rparr>, r)))"

definition encode_token_admin_supply :: "der_lib \<Rightarrow> t_token_admin_supply \<Rightarrow> asn1_error + bytes" where
  "encode_token_admin_supply D op = write_all [encode_bigint D (tts_amount op), encode_bigint D (tts_method op)]"

definition decode_token_admin_supply :: "der_lib \<Rightarrow> t_token_admin_supply reader" where
  "decode_token_admin_supply D r =
     and_then (read_bigint D r) (\<lambda>(amount, r).
     and_then (read_bigint D r) (\<lambda>(method, r).
       Ok (\<lparr>tts_amount = amount, tts_method = method\<rparr>, r)))"

definition encode_token_admin_modify_balance ::
    "der_lib \<Rightarrow> t_token_admin_modify_balance \<Rightarrow> asn1_error + bytes" where
  "encode_token_admin_modify_balance D op =
     write_all [encode_octet D (ttb_token op), encode_bigint D (ttb_amount op), encode_bigint D (ttb_method op)]"

definition decode_token_admin_modify_balance :: "der_lib \<Rightarrow> t_token_admin_modify_balance reader" where
  "decode_token_admin_modify_balance D r =
     and_then (read_octet D r) (\<lambda>(token, r).
     and_then (read_bigint D r) (\<lambda>(amount, r).
     and_then (read_bigint D r) (\<lambda>(method, r).
       Ok (\<lparr>ttb_token = token, ttb_amount = amount, ttb_method = method\<rparr>, r))))"

definition encode_receive :: "der_lib \<Rightarrow> t_receive \<Rightarrow> asn1_error + bytes" where
  "encode_receive D op =
     write_all [encode_bigint D (tr_amount op), encode_octet D (tr_token op), encode_octet D (tr_from op),
       encode_bool D (tr_exact op), write_opt (encode_octet D) (tr_forward op)]"

definition decode_receive :: "der_lib \<Rightarrow> t_receive reader" where
  "decode_receive D r =
     and_then (read_bigint D r) (\<lambda>(amount, r).
     and_then (read_octet D r) (\<lambda>(token, r).
     and_then (read_octet D r) (\<lambda>(from, r).
     and_then (read_bool D r) (\<lambda>(exact, r).
     and_then (read_opt_end (read_octet D) r) (\<lambda>(forward, r).
       Ok (\<lparr>tr_amount = amount, tr_token = token, tr_from = from, tr_exact = exact,
            tr_forward = forward\<rparr>, r))))))"

fun encode_intermediates :: "der_lib \<Rightarrow> t_intermediates \<Rightarrow> asn1_error + bytes" where
  "encode_intermediates D TIntermediatesNull = encode_null D"
| "encode_intermediates D (TIntermediatesBundle certificates) = encode_octets D certificates"

definition decode_intermediates :: "der_lib \<Rightarrow> t_intermediates reader" where
  "decode_intermediates D r =
     and_then (peek_tag D r) (\<lambda>t.
       if t = TagNull then and_then (read_null D r) (\<lambda>(_, r). Ok (TIntermediatesNull, r))
       else if t = TagSequence then
         and_then (read_sequence D r) (\<lambda>(content, r).
         and_then (read_many (read_octet D) content) (\<lambda>certificates.
           Ok (TIntermediatesBundle certificates, r)))
       else Err DerError)"

definition encode_manage_certificate :: "der_lib \<Rightarrow> t_manage_certificate \<Rightarrow> asn1_error + bytes" where
  "encode_manage_certificate D op =
     write_all [encode_bigint D (tmc_method op), encode_octet D (tmc_certificate_or_hash op),
       write_opt (encode_intermediates D) (tmc_intermediates op)]"

definition decode_manage_certificate :: "der_lib \<Rightarrow> t_manage_certificate reader" where
  "decode_manage_certificate D r =
     and_then (read_bigint D r) (\<lambda>(method, r).
     and_then (read_octet D r) (\<lambda>(certificate_or_hash, r).
     and_then (read_opt_end (decode_intermediates D) r) (\<lambda>(intermediates, r).
       Ok (\<lparr>tmc_method = method, tmc_certificate_or_hash = certificate_or_hash,
            tmc_intermediates = intermediates\<rparr>, r))))"

section \<open>Operations\<close>

fun operation_tag :: "t_operation \<Rightarrow> nat" where
  "operation_tag (TSend _) = 0"
| "operation_tag (TSetRep _) = 1"
| "operation_tag (TSetInfo _) = 2"
| "operation_tag (TModifyPermissions _) = 3"
| "operation_tag (TCreateIdentifier _) = 4"
| "operation_tag (TTokenAdminSupply _) = 5"
| "operation_tag (TTokenAdminModifyBalance _) = 6"
| "operation_tag (TReceive _) = 7"
| "operation_tag (TManageCertificate _) = 8"

fun encode_operation_fields :: "der_lib \<Rightarrow> t_operation \<Rightarrow> asn1_error + bytes" where
  "encode_operation_fields D (TSend op) = encode_send D op"
| "encode_operation_fields D (TSetRep op) = encode_set_rep D op"
| "encode_operation_fields D (TSetInfo op) = encode_set_info D op"
| "encode_operation_fields D (TModifyPermissions op) = encode_modify_permissions D op"
| "encode_operation_fields D (TCreateIdentifier op) = encode_create_identifier D op"
| "encode_operation_fields D (TTokenAdminSupply op) = encode_token_admin_supply D op"
| "encode_operation_fields D (TTokenAdminModifyBalance op) = encode_token_admin_modify_balance D op"
| "encode_operation_fields D (TReceive op) = encode_receive D op"
| "encode_operation_fields D (TManageCertificate op) = encode_manage_certificate D op"

definition encode_operation :: "der_lib \<Rightarrow> t_operation \<Rightarrow> asn1_error + bytes" where
  "encode_operation D op =
     and_then (encode_operation_fields D op) (\<lambda>content.
     and_then (wrap_sequence D content) (wrap_context D (operation_tag op)))"

definition map_read :: "('a \<Rightarrow> 'b) \<Rightarrow> asn1_error + 'a \<times> bytes \<Rightarrow> asn1_error + 'b \<times> bytes" where
  "map_read g x = and_then x (\<lambda>(a, r). Ok (g a, r))"

definition decode_operation_fields :: "der_lib \<Rightarrow> nat \<Rightarrow> t_operation reader" where
  "decode_operation_fields D number content =
     (if number = 0 then map_read TSend (decode_send D content)
      else if number = 1 then map_read TSetRep (decode_set_rep D content)
      else if number = 2 then map_read TSetInfo (decode_set_info D content)
      else if number = 3 then map_read TModifyPermissions (decode_modify_permissions D content)
      else if number = 4 then map_read TCreateIdentifier (decode_create_identifier D content)
      else if number = 5 then map_read TTokenAdminSupply (decode_token_admin_supply D content)
      else if number = 6 then map_read TTokenAdminModifyBalance (decode_token_admin_modify_balance D content)
      else if number = 7 then map_read TReceive (decode_receive D content)
      else if number = 8 then map_read TManageCertificate (decode_manage_certificate D content)
      else Err InvalidBlockVersion)"

definition decode_operation :: "der_lib \<Rightarrow> t_operation reader" where
  "decode_operation D r =
     and_then (der_any D r) (\<lambda>((t, v), r).
       case t of
         TagContext True number \<Rightarrow>
           and_then (read_sequence D v) (\<lambda>(content, outer).
           and_then (ensure_finished outer) (\<lambda>_.
           and_then (decode_operation_fields D number content) (\<lambda>(operation, left).
           and_then (ensure_finished left) (\<lambda>_. Ok (operation, r)))))
       | _ \<Rightarrow> Err InvalidBlockVersion)"

definition encode_operations :: "der_lib \<Rightarrow> t_operation list \<Rightarrow> asn1_error + bytes" where
  "encode_operations D ops = and_then (write_all (map (encode_operation D) ops)) (wrap_sequence D)"

definition decode_operations :: "der_lib \<Rightarrow> t_operation list reader" where
  "decode_operations D r =
     and_then (read_sequence D r) (\<lambda>(content, r).
     and_then (read_many (decode_operation D) content) (\<lambda>ops. Ok (ops, r)))"

section \<open>Signatures\<close>

fun encode_signatures :: "der_lib \<Rightarrow> t_signatures \<Rightarrow> asn1_error + bytes" where
  "encode_signatures D (TSignatureSingle bs) = encode_octet D bs"
| "encode_signatures D (TSignatureMultiple items) = encode_octets D items"

definition decode_signatures :: "der_lib \<Rightarrow> t_signatures reader" where
  "decode_signatures D r =
     and_then (peek_tag D r) (\<lambda>t.
       if t = TagOctetString then and_then (read_octet D r) (\<lambda>(bs, r). Ok (TSignatureSingle bs, r))
       else if t = TagSequence then
         and_then (read_sequence D r) (\<lambda>(content, r).
         and_then (read_many (read_octet D) content) (\<lambda>items. Ok (TSignatureMultiple items, r)))
       else Err DerError)"

section \<open>The multisig tree\<close>

text \<open>Encoder frames: address, children still to write, bytes of the children written.\<close>

type_synonym enc_frame = "bytes \<times> t_signer list \<times> bytes"

fun t_signer_weight :: "t_signer \<Rightarrow> nat" where
  "t_signer_weight (TSignerMultisig _ ss) = 2 + sum_list (map t_signer_weight ss)"
| "t_signer_weight _ = 1"

definition encode_multisig_container :: "der_lib \<Rightarrow> bytes \<Rightarrow> bytes \<Rightarrow> asn1_error + bytes" where
  "encode_multisig_container D address encoded_children =
     and_then (write_all [encode_octet D address, wrap_sequence D encoded_children]) (wrap_sequence D)"

function encode_multisig_loop :: "der_lib \<Rightarrow> enc_frame list \<Rightarrow> asn1_error + bytes" where
  "encode_multisig_loop D [] = Err InvalidBlockVersion"
| "encode_multisig_loop D ((address, TSignerEmpty # children, encoded) # stack) = Err InvalidBlockVersion"
| "encode_multisig_loop D ((address, TSignerSingle account # children, encoded) # stack) =
     and_then (encode_octet D account) (\<lambda>bs.
       encode_multisig_loop D ((address, children, encoded @ bs) # stack))"
| "encode_multisig_loop D ((address, TSignerMultisig nested signers # children, encoded) # stack) =
     encode_multisig_loop D ((nested, signers, []) # (address, children, encoded) # stack)"
| "encode_multisig_loop D [(address, [], encoded)] = encode_multisig_container D address encoded"
| "encode_multisig_loop D ((address, [], encoded) # (parent, children, parent_encoded) # stack) =
     and_then (encode_multisig_container D address encoded) (\<lambda>container.
       encode_multisig_loop D ((parent, children, parent_encoded @ container) # stack))"
  by pat_completeness auto
termination
  by (relation "measure (\<lambda>(D, stack). sum_list (map (\<lambda>(_, cs, _). Suc (sum_list (map t_signer_weight cs))) stack))")
    auto

definition encode_multisig_signer :: "der_lib \<Rightarrow> bytes \<Rightarrow> t_signer list \<Rightarrow> asn1_error + bytes" where
  "encode_multisig_signer D address signers = encode_multisig_loop D [(address, signers, [])]"

text \<open>Decoder frames: address, bytes left to read, children read so far.\<close>

type_synonym dec_frame = "bytes \<times> bytes \<times> t_signer list"

definition open_frame :: "der_lib \<Rightarrow> bytes \<Rightarrow> asn1_error + dec_frame" where
  "open_frame D content =
     and_then (read_octet D content) (\<lambda>(address, r).
     and_then (read_sequence D r) (\<lambda>(signers_content, r).
     and_then (ensure_finished r) (\<lambda>_. Ok (address, signers_content, []))))"

fun decode_multisig_steps ::
    "nat \<Rightarrow> der_lib \<Rightarrow> dec_frame list \<Rightarrow> (asn1_error + bytes \<times> t_signer list) option" where
  "decode_multisig_steps 0 D stack = None"
| "decode_multisig_steps (Suc n) D [] = Some (Err InvalidBlockVersion)"
| "decode_multisig_steps (Suc n) D ((address, r, children) # stack) =
     (if r \<noteq> [] then
        (case peek_tag D r of
           Inl e \<Rightarrow> Some (Err e)
         | Inr TagOctetString \<Rightarrow>
             (case read_octet D r of
                Inl e \<Rightarrow> Some (Err e)
              | Inr (account, r') \<Rightarrow>
                  decode_multisig_steps n D ((address, r', children @ [TSignerSingle account]) # stack))
         | Inr TagSequence \<Rightarrow>
             (case read_sequence D r of
                Inl e \<Rightarrow> Some (Err e)
              | Inr (nested, r') \<Rightarrow>
                  (case open_frame D nested of
                     Inl e \<Rightarrow> Some (Err e)
                   | Inr frame \<Rightarrow> decode_multisig_steps n D (frame # (address, r', children) # stack)))
         | Inr _ \<Rightarrow> Some (Err DerError))
      else
        (case stack of
           [] \<Rightarrow> Some (Ok (address, children))
         | (parent, pr, siblings) # stack' \<Rightarrow>
             decode_multisig_steps n D ((parent, pr, siblings @ [TSignerMultisig address children]) # stack')))"

definition decode_multisig_signer :: "der_lib \<Rightarrow> bytes \<Rightarrow> asn1_error + bytes \<times> t_signer list" where
  "decode_multisig_signer D content =
     and_then (open_frame D content) (\<lambda>frame.
       case decode_multisig_steps (Suc (length content)) D [frame] of
         Some x \<Rightarrow> x
       | None \<Rightarrow> Err DerError)"

fun encode_signer :: "der_lib \<Rightarrow> t_signer \<Rightarrow> asn1_error + bytes" where
  "encode_signer D TSignerEmpty = encode_null D"
| "encode_signer D (TSignerSingle bs) = encode_octet D bs"
| "encode_signer D (TSignerMultisig address signers) = encode_multisig_signer D address signers"

definition decode_signer :: "der_lib \<Rightarrow> t_signer reader" where
  "decode_signer D r =
     and_then (peek_tag D r) (\<lambda>t.
       if t = TagNull then and_then (read_null D r) (\<lambda>(_, r). Ok (TSignerEmpty, r))
       else if t = TagOctetString then and_then (read_octet D r) (\<lambda>(bs, r). Ok (TSignerSingle bs, r))
       else if t = TagSequence then
         and_then (read_sequence D r) (\<lambda>(content, r).
         and_then (decode_multisig_signer D content) (\<lambda>(address, signers). Ok (TSignerMultisig address signers, r)))
       else Err DerError)"

section \<open>Blocks\<close>

definition encode_v1 :: "der_lib \<Rightarrow> block_v1 \<Rightarrow> asn1_error + bytes" where
  "encode_v1 D v =
     and_then
       (write_all
          [encode_bigint D (v1_version v), encode_bigint D (v1_network v), encode_integer_or_null D (v1_subnet v),
           write_opt (encode_octet D) (v1_idempotent v), encode_time D (v1_date v), encode_octet D (v1_signer v),
           encode_octet_or_null D (v1_account v), encode_octet D (v1_previous v),
           encode_operations D (v1_operations v), write_opt (encode_octet D) (v1_signature v)])
       (wrap_sequence D)"

definition encode_v2 :: "der_lib \<Rightarrow> block_v2 \<Rightarrow> asn1_error + bytes" where
  "encode_v2 D v =
     and_then
       (write_all
          [encode_bigint D (v2_network v), write_opt (encode_bigint D) (v2_subnet v),
           write_opt (encode_octet D) (v2_idempotent v), encode_time D (v2_date v),
           encode_bigint D (v2_purpose v), encode_octet D (v2_account v), encode_signer D (v2_signer v),
           encode_octet D (v2_previous v), encode_operations D (v2_operations v),
           write_opt (encode_signatures D) (v2_signatures v)]) (\<lambda>content.
     and_then (wrap_sequence D content) (wrap_context D V2_TAG))"

definition decode_v1 :: "der_lib \<Rightarrow> bytes \<Rightarrow> asn1_error + block_v1" where
  "decode_v1 D bs =
     and_then (der_any D bs) (\<lambda>((t, v), outer).
     if t \<noteq> TagSequence then Err InvalidBlockVersion
     else and_then (ensure_finished outer) (\<lambda>_.
     and_then (read_bigint D v) (\<lambda>(version, r).
     and_then (read_bigint D r) (\<lambda>(network, r).
     and_then (decode_integer_or_null D r) (\<lambda>(subnet, r).
     and_then (read_opt_tag D TagOctetString (read_octet D) r) (\<lambda>(idempotent, r).
     and_then (read_time D r) (\<lambda>(date, r).
     and_then (read_octet D r) (\<lambda>(signer, r).
     and_then (decode_octet_or_null D r) (\<lambda>(account, r).
     and_then (read_octet D r) (\<lambda>(previous, r).
     and_then (decode_operations D r) (\<lambda>(operations, r).
     and_then (read_opt_end (read_octet D) r) (\<lambda>(signature, r).
     and_then (ensure_finished r) (\<lambda>_.
       Ok \<lparr>v1_version = version, v1_network = network, v1_subnet = subnet, v1_idempotent = idempotent,
           v1_date = date, v1_signer = signer, v1_account = account, v1_previous = previous,
           v1_operations = operations, v1_signature = signature\<rparr>)))))))))))))"

definition decode_v2 :: "der_lib \<Rightarrow> bytes \<Rightarrow> asn1_error + block_v2" where
  "decode_v2 D bs =
     and_then (der_any D bs) (\<lambda>((t, v), outer).
     if t \<noteq> TagContext True V2_TAG then Err InvalidBlockVersion
     else and_then (ensure_finished outer) (\<lambda>_.
     and_then (read_sequence D v) (\<lambda>(body, wrapper).
     and_then (ensure_finished wrapper) (\<lambda>_.
     and_then (read_bigint D body) (\<lambda>(network, r).
     and_then (read_opt_tag D TagInteger (read_bigint D) r) (\<lambda>(subnet, r).
     and_then (read_opt_tag D TagOctetString (read_octet D) r) (\<lambda>(idempotent, r).
     and_then (read_time D r) (\<lambda>(date, r).
     and_then (read_bigint D r) (\<lambda>(purpose, r).
     and_then (read_octet D r) (\<lambda>(account, r).
     and_then (decode_signer D r) (\<lambda>(signer, r).
     and_then (read_octet D r) (\<lambda>(previous, r).
     and_then (decode_operations D r) (\<lambda>(operations, r).
     and_then (read_opt_end (decode_signatures D) r) (\<lambda>(signatures, r).
     and_then (ensure_finished r) (\<lambda>_.
       Ok \<lparr>v2_network = network, v2_subnet = subnet, v2_idempotent = idempotent, v2_date = date,
           v2_purpose = purpose, v2_account = account, v2_signer = signer, v2_previous = previous,
           v2_operations = operations, v2_signatures = signatures\<rparr>)))))))))))))))"

fun asn1_encode :: "der_lib \<Rightarrow> t_block \<Rightarrow> asn1_error + bytes" where
  "asn1_encode D (BlockV1 v) = encode_v1 D v"
| "asn1_encode D (BlockV2 v) = encode_v2 D v"

definition asn1_decode :: "der_lib \<Rightarrow> bytes \<Rightarrow> asn1_error + t_block" where
  "asn1_decode D bs =
     (case bs of
        b # _ \<Rightarrow>
          if b = 0x30 then and_then (decode_v1 D bs) (\<lambda>v. Ok (BlockV1 v))
          else if b = 0xA1 then and_then (decode_v2 D bs) (\<lambda>v. Ok (BlockV2 v))
          else Err InvalidBlockVersion
      | [] \<Rightarrow> Err InvalidBlockVersion)"

section \<open>Round trips\<close>

fun wf_t_operation :: "t_operation \<Rightarrow> bool" where
  "wf_t_operation (TSend op) = pred_option valid_utf8 (ts_external op)"
| "wf_t_operation (TSetInfo op) =
     (valid_utf8 (tsi_name op) \<and> valid_utf8 (tsi_description op) \<and> valid_utf8 (tsi_metadata op))"
| "wf_t_operation _ = True"

fun wf_t_nested :: "t_signer \<Rightarrow> bool" where
  "wf_t_nested TSignerEmpty = False"
| "wf_t_nested (TSignerSingle _) = True"
| "wf_t_nested (TSignerMultisig _ ss) = list_all wf_t_nested ss"

definition wf_t_signer :: "t_signer \<Rightarrow> bool" where
  "wf_t_signer s \<longleftrightarrow> (case s of TSignerMultisig _ ss \<Rightarrow> list_all wf_t_nested ss | _ \<Rightarrow> True)"

fun wf_t_block :: "t_block \<Rightarrow> bool" where
  "wf_t_block (BlockV1 v) = (asn1_time_range (v1_date v) \<and> list_all wf_t_operation (v1_operations v))"
| "wf_t_block (BlockV2 v) =
     (asn1_time_range (v2_date v) \<and> list_all wf_t_operation (v2_operations v) \<and> wf_t_signer (v2_signer v))"

text \<open>The recursive reading of the multisig encoder.\<close>

fun encode_nested :: "der_lib \<Rightarrow> t_signer \<Rightarrow> asn1_error + bytes" where
  "encode_nested D TSignerEmpty = Err InvalidBlockVersion"
| "encode_nested D (TSignerSingle account) = encode_octet D account"
| "encode_nested D (TSignerMultisig address ss) =
     and_then (write_all (map (encode_nested D) ss)) (encode_multisig_container D address)"

fun encode_resume :: "der_lib \<Rightarrow> enc_frame list \<Rightarrow> bytes \<Rightarrow> asn1_error + bytes" where
  "encode_resume D [] container = Ok container"
| "encode_resume D ((address, children, encoded) # stack) container =
     and_then (write_all (map (encode_nested D) children)) (\<lambda>bs.
     and_then (encode_multisig_container D address (encoded @ container @ bs)) (encode_resume D stack))"

lemma encode_resume_Nil: "encode_resume D [] = Inr"
  by (rule ext) simp

lemma encode_multisig_loop_eq:
  "encode_multisig_loop D stack =
     (case stack of
        [] \<Rightarrow> Err InvalidBlockVersion
      | (address, children, encoded) # stack' \<Rightarrow>
          and_then (write_all (map (encode_nested D) children)) (\<lambda>bs.
          and_then (encode_multisig_container D address (encoded @ bs)) (encode_resume D stack')))"
  by (induction D stack rule: encode_multisig_loop.induct)
    (auto simp: and_then_assoc encode_resume_Nil intro!: and_then_cong)

lemma encode_multisig_signer_eq:
  "encode_multisig_signer D address signers = encode_nested D (TSignerMultisig address signers)"
  by (simp add: encode_multisig_signer_def encode_multisig_loop_eq encode_resume_Nil)

lemma read_opt_end_write:
  assumes "write_opt g x = Inr bs"
    and "\<And>a b. x = Some a \<Longrightarrow> g a = Inr b \<Longrightarrow> b \<noteq> [] \<and> f b = Inr (a, [])"
  shows "read_opt_end f bs = Inr (x, [])"
  using assms by (cases x) (auto simp: read_opt_end_def)

context der_laws
begin

lemma read_opt_end_octet [simp]:
  "write_opt (encode_octet D) x = Inr bs \<Longrightarrow> read_opt_end (read_octet D) bs = Inr (x, [])"
  by (rule read_opt_end_write) auto

lemma octets:
  assumes "encode_octets D xs = Inr bs"
  shows "\<exists>content. wrap_sequence D content = Inr bs \<and> read_many (read_octet D) content = Inr xs"
proof -
  obtain content where c: "write_all (map (encode_octet D) xs) = Inr content" "wrap_sequence D content = Inr bs"
    using assms by (auto simp: encode_octets_def)
  moreover have "read_many (read_octet D) content = Inr xs"
    by (rule read_many_write_all[OF read_octet_consumes _ c(1)]) simp
  ultimately show ?thesis by blast
qed

lemma perms [simp]:
  "encode_permissions D p = Inr bs \<Longrightarrow> read_permissions D (bs @ rest) = Inr (p, rest)"
  "encode_permissions D p = Inr bs \<Longrightarrow> peek_tag D (bs @ rest) = Inr TagSequence"
  "encode_permissions D p = Inr bs \<Longrightarrow> bs \<noteq> []"
  by (auto simp: encode_permissions_def read_permissions_def)

lemma send_roundtrip:
  "encode_send D op = Inr bs \<Longrightarrow> wf_t_operation (TSend op) \<Longrightarrow> decode_send D bs = Inr (op, [])"
proof -
  assume a: "encode_send D op = Inr bs" "wf_t_operation (TSend op)"
  have "read_opt_end (read_utf8 D) b = Inr (ts_external op, [])"
    if "write_opt (encode_utf8 D) (ts_external op) = Inr b" for b
    using that a(2) by (intro read_opt_end_write[OF that]) auto
  then show ?thesis using a by (auto simp: encode_send_def decode_send_def)
qed

lemma set_info_roundtrip:
  "encode_set_info D op = Inr bs \<Longrightarrow> wf_t_operation (TSetInfo op) \<Longrightarrow> decode_set_info D bs = Inr (op, [])"
proof -
  assume a: "encode_set_info D op = Inr bs" "wf_t_operation (TSetInfo op)"
  have "read_opt_end (read_permissions D) b = Inr (tsi_default_permission op, [])"
    if "write_opt (encode_permissions D) (tsi_default_permission op) = Inr b" for b
    using perms(1)[where rest = "[]"] by (intro read_opt_end_write[OF that]) auto
  then show ?thesis using a by (auto simp: encode_set_info_def decode_set_info_def)
qed

lemma principal_roundtrip [simp]:
  "encode_principal D p = Inr bs \<Longrightarrow> decode_principal D (bs @ rest) = Inr (p, rest)"
  by (auto simp: encode_principal_def decode_principal_def split: t_principal.splits)

lemma permissions_or_null_roundtrip [simp]:
  "encode_permissions_or_null D p = Inr bs \<Longrightarrow> decode_permissions_or_null D (bs @ rest) = Inr (p, rest)"
  by (cases p) (auto simp: decode_permissions_or_null_def)

lemma modify_permissions_roundtrip:
  "encode_modify_permissions D op = Inr bs \<Longrightarrow> decode_modify_permissions D bs = Inr (op, [])"
  by (auto simp: encode_modify_permissions_def decode_modify_permissions_def)

lemma multisig_arguments_roundtrip:
  "encode_multisig_arguments D args = Inr bs \<Longrightarrow> bs \<noteq> [] \<and> decode_multisig_arguments D bs = Inr (args, [])"
  by (auto simp: encode_multisig_arguments_def decode_multisig_arguments_def dest!: octets)

lemma create_identifier_roundtrip:
  "encode_create_identifier D op = Inr bs \<Longrightarrow> decode_create_identifier D bs = Inr (op, [])"
proof -
  assume a: "encode_create_identifier D op = Inr bs"
  have "read_opt_end (decode_multisig_arguments D) b = Inr (tci_multisig op, [])"
    if "write_opt (encode_multisig_arguments D) (tci_multisig op) = Inr b" for b
    using multisig_arguments_roundtrip by (intro read_opt_end_write[OF that]) auto
  then show ?thesis using a by (auto simp: encode_create_identifier_def decode_create_identifier_def)
qed

lemma receive_roundtrip: "encode_receive D op = Inr bs \<Longrightarrow> decode_receive D bs = Inr (op, [])"
  by (auto simp: encode_receive_def decode_receive_def)

lemma intermediates_roundtrip:
  "encode_intermediates D x = Inr bs \<Longrightarrow> bs \<noteq> [] \<and> decode_intermediates D bs = Inr (x, [])"
  by (cases x) (auto simp: decode_intermediates_def dest!: octets)

lemma manage_certificate_roundtrip:
  "encode_manage_certificate D op = Inr bs \<Longrightarrow> decode_manage_certificate D bs = Inr (op, [])"
proof -
  assume a: "encode_manage_certificate D op = Inr bs"
  have "read_opt_end (decode_intermediates D) b = Inr (tmc_intermediates op, [])"
    if "write_opt (encode_intermediates D) (tmc_intermediates op) = Inr b" for b
    using intermediates_roundtrip by (intro read_opt_end_write[OF that]) auto
  then show ?thesis using a by (auto simp: encode_manage_certificate_def decode_manage_certificate_def)
qed

lemma operation_fields_roundtrip:
  assumes "encode_operation_fields D op = Inr bs" and "wf_t_operation op"
  shows "decode_operation_fields D (operation_tag op) bs = Inr (op, [])"
  using assms
  by (cases op)
    (auto simp: decode_operation_fields_def map_read_def send_roundtrip set_info_roundtrip
      modify_permissions_roundtrip create_identifier_roundtrip receive_roundtrip manage_certificate_roundtrip
      encode_set_rep_def decode_set_rep_def encode_token_admin_supply_def decode_token_admin_supply_def
      encode_token_admin_modify_balance_def decode_token_admin_modify_balance_def)

lemma operation_roundtrip:
  "encode_operation D op = Inr bs \<Longrightarrow> wf_t_operation op \<Longrightarrow> decode_operation D (bs @ rest) = Inr (op, rest)"
  by (auto simp: encode_operation_def decode_operation_def operation_fields_roundtrip)

lemma decode_operation_consumes: "consumes (decode_operation D)"
  unfolding consumes_def
proof (intro allI impI)
  fix r op rest assume a: "decode_operation D r = Inr (op, rest)"
  then obtain t v r' where d: "tlv_decode D r = Some (t, v, r')"
    by (cases "tlv_decode D r") (auto simp: decode_operation_def der_any_def)
  have "r' = rest"
    using a d by (cases t) (auto simp: decode_operation_def der_any_def split: bool.split_asm)
  then show "length rest < length r" using tlv_consumes[OF d] by simp
qed

lemma operations_roundtrip:
  assumes "encode_operations D ops = Inr bs" and "list_all wf_t_operation ops"
  shows "decode_operations D (bs @ rest) = Inr (ops, rest)"
proof -
  obtain content where c: "write_all (map (encode_operation D) ops) = Inr content" "wrap_sequence D content = Inr bs"
    using assms by (auto simp: encode_operations_def)
  have "read_many (decode_operation D) content = Inr ops"
    by (rule read_many_write_all[OF decode_operation_consumes _ c(1)])
      (use assms(2) in \<open>auto simp: operation_roundtrip list_all_iff\<close>)
  then show ?thesis using c by (simp add: decode_operations_def)
qed

lemma signatures_roundtrip:
  "encode_signatures D x = Inr bs \<Longrightarrow> bs \<noteq> [] \<and> decode_signatures D bs = Inr (x, [])"
  by (cases x) (auto simp: decode_signatures_def dest!: octets)

text \<open>Reading back a multisig tree: each step consumes bytes or closes a frame, so the number of
  steps is bounded by the bytes of all frames and the number of frames.\<close>

definition frames_size :: "dec_frame list \<Rightarrow> nat" where
  "frames_size stack = sum_list (map (\<lambda>(_, r, _). Suc (length r)) stack)"

lemma open_frame_size: "open_frame D content = Inr (a, r, cs) \<Longrightarrow> length r + 4 \<le> length content"
  by (auto simp: open_frame_def read_octet_def read_sequence_def dest!: read_tagged_consumes)

lemma decode_multisig_steps_enough:
  "frames_size stack < n \<Longrightarrow> decode_multisig_steps n D stack \<noteq> None"
proof (induction n arbitrary: stack)
  case (Suc n)
  show ?case
  proof (cases stack)
    case (Cons f st)
    obtain a r cs where f: "f = (a, r, cs)" by (cases f) auto
    have size: "Suc (length r) + frames_size st < Suc n" using Suc.prems by (simp add: Cons f frames_size_def)
    have single: "decode_multisig_steps n D ((a, r', cs') # st) \<noteq> None"
      if "read_octet D r = Inr (v, r')" for v r' cs'
      using read_octet_consumes that size by (intro Suc.IH) (fastforce simp: frames_size_def consumes_def)
    have nested: "decode_multisig_steps n D (g # (a, r', cs) # st) \<noteq> None"
      if "read_sequence D r = Inr (v, r')" "open_frame D v = Inr g" for v r' g
    proof -
      obtain b s ds where g: "g = (b, s, ds)" by (cases g) auto
      have "length v + length r' + 2 \<le> length r"
        using that(1) read_tagged_consumes unfolding read_sequence_def by blast
      moreover have "length s + 4 \<le> length v" using that(2) open_frame_size by (simp add: g)
      ultimately show ?thesis using size by (intro Suc.IH) (simp add: g frames_size_def)
    qed
    have pop: "decode_multisig_steps n D ((p, pr, s) # st') \<noteq> None"
      if "st = (p, pr, s') # st'" for p pr s s' st'
      using that size by (intro Suc.IH) (simp add: frames_size_def)
    show ?thesis
      using single nested pop
      by (auto simp: Cons f split: sum.splits tag.splits list.splits)
  qed simp
qed simp

lemma decode_multisig_steps_mono:
  "decode_multisig_steps n D stack = Some x \<Longrightarrow> decode_multisig_steps (n + k) D stack = Some x"
proof (induction n arbitrary: stack)
  case (Suc n)
  show ?case
  proof (cases stack)
    case (Cons f st)
    obtain a r cs where f: "f = (a, r, cs)" by (cases f) auto
    show ?thesis using Suc
      by (auto simp: Cons f split: sum.splits tag.splits list.splits if_splits)
  qed (use Suc in simp)
qed simp

lemma decode_multisig_children:
  assumes "list_all wf_t_nested cs" and "write_all (map (encode_nested D) cs) = Inr bs"
  shows "\<exists>k. \<forall>n. decode_multisig_steps (k + n) D ((a, bs @ rest, ds) # st) =
    decode_multisig_steps n D ((a, rest, ds @ cs) # st)"
  using assms
proof (induction "sum_list (map t_signer_weight cs)" arbitrary: cs bs a rest ds st rule: less_induct)
  case less
  show ?case
  proof (cases cs)
    case Nil
    then show ?thesis using less.prems by (intro exI[of _ 0]) simp
  next
    case (Cons c cs')
    then obtain b bs' where b: "encode_nested D c = Inr b" "write_all (map (encode_nested D) cs') = Inr bs'"
      "bs = b @ bs'" using less.prems by auto
    have w: "0 < t_signer_weight c" by (cases c) auto
    obtain k where k: "\<And>n. decode_multisig_steps (k + n) D ((a, bs' @ rest, ds @ [c]) # st) =
        decode_multisig_steps n D ((a, rest, ds @ c # cs') # st)"
      using less.hyps[of cs' bs' a rest "ds @ [c]" st] less.prems b w Cons by auto
    have "\<exists>j. \<forall>n. decode_multisig_steps (j + n) D ((a, b @ bs' @ rest, ds) # st) =
        decode_multisig_steps n D ((a, bs' @ rest, ds @ [c]) # st)"
    proof (cases c)
      case (TSignerSingle acc)
      then show ?thesis using b by (intro exI[of _ 1]) simp
    next
      case (TSignerMultisig addr ss)
      then obtain inner where inner: "write_all (map (encode_nested D) ss) = Inr inner"
        "encode_multisig_container D addr inner = Inr b" using b by auto
      then obtain x y where xy: "encode_octet D addr = Inr x" "wrap_sequence D inner = Inr y"
        "wrap_sequence D (x @ y) = Inr b" by (auto simp: encode_multisig_container_def)
      have op: "open_frame D (x @ y) = Inr (addr, inner, [])"
        using xy by (simp add: open_frame_def)
      obtain j where j: "\<And>n. decode_multisig_steps (j + n) D ((addr, inner @ [], []) # (a, bs' @ rest, ds) # st) =
          decode_multisig_steps n D ((addr, [], [] @ ss) # (a, bs' @ rest, ds) # st)"
        using less.hyps[of ss inner addr "[]" "[]" "(a, bs' @ rest, ds) # st"] less.prems inner
        by (auto simp: Cons TSignerMultisig)
      have "decode_multisig_steps (Suc (j + Suc n)) D ((a, b @ bs' @ rest, ds) # st) =
          decode_multisig_steps n D ((a, bs' @ rest, ds @ [c]) # st)" for n
        using xy op j[of "Suc n"] by (simp add: TSignerMultisig)
      then show ?thesis by (intro exI[of _ "Suc (Suc j)"]) simp
    qed (use b in simp)
    then obtain j where j: "\<And>n. decode_multisig_steps (j + n) D ((a, b @ bs' @ rest, ds) # st) =
        decode_multisig_steps n D ((a, bs' @ rest, ds @ [c]) # st)" by blast
    have "decode_multisig_steps (j + k + n) D ((a, bs @ rest, ds) # st) =
        decode_multisig_steps n D ((a, rest, ds @ cs) # st)" for n
      using j[of "k + n"] k[of n] by (simp add: b(3) Cons add.assoc)
    then show ?thesis by blast
  qed
qed

lemma decode_multisig_roundtrip:
  assumes "list_all wf_t_nested ss" and "encode_multisig_signer D address ss = Inr bs"
  shows "\<exists>content. wrap_sequence D content = Inr bs \<and> decode_multisig_signer D content = Inr (address, ss)"
proof -
  obtain inner where inner: "write_all (map (encode_nested D) ss) = Inr inner"
    "encode_multisig_container D address inner = Inr bs"
    using assms(2) by (auto simp: encode_multisig_signer_eq)
  then obtain x y where xy: "encode_octet D address = Inr x" "wrap_sequence D inner = Inr y"
    "wrap_sequence D (x @ y) = Inr bs" by (auto simp: encode_multisig_container_def)
  have op: "open_frame D (x @ y) = Inr (address, inner, [])" using xy by (simp add: open_frame_def)
  obtain k where "\<forall>n. decode_multisig_steps (k + n) D [(address, inner @ [], [])] =
      decode_multisig_steps n D [(address, [], [] @ ss)]"
    using decode_multisig_children[OF assms(1) inner(1), of address "[]" "[]" "[]"] by blast
  from spec[OF this, of 1]
  have k: "decode_multisig_steps (k + 1) D [(address, inner, [])] = Some (Inr (address, ss))" by simp
  have "frames_size [(address, inner, [])] < Suc (length (x @ y))"
    using open_frame_size[OF op] by (simp add: frames_size_def)
  then obtain z where z: "decode_multisig_steps (Suc (length (x @ y))) D [(address, inner, [])] = Some z"
    using decode_multisig_steps_enough by blast
  have "z = Inr (address, ss)"
    using decode_multisig_steps_mono[OF k, of "Suc (length (x @ y))"]
      decode_multisig_steps_mono[OF z, of "k + 1"] by (simp add: add.commute)
  then have "decode_multisig_signer D (x @ y) = Inr (address, ss)"
    using op z by (simp only: decode_multisig_signer_def and_then.simps option.case)
  then show ?thesis using xy(3) by blast
qed

lemma signer_roundtrip:
  assumes "encode_signer D s = Inr bs" and "wf_t_signer s"
  shows "decode_signer D (bs @ rest) = Inr (s, rest)"
proof (cases s)
  case (TSignerMultisig a ss)
  then obtain content where "wrap_sequence D content = Inr bs" "decode_multisig_signer D content = Inr (a, ss)"
    using decode_multisig_roundtrip[of ss a bs] assms by (auto simp: wf_t_signer_def)
  then show ?thesis by (simp add: decode_signer_def TSignerMultisig)
qed (use assms in \<open>auto simp: decode_signer_def\<close>)

lemma signatures_opt [simp]:
  "write_opt (encode_signatures D) x = Inr bs \<Longrightarrow> read_opt_end (decode_signatures D) bs = Inr (x, [])"
  using signatures_roundtrip by (intro read_opt_end_write) auto

lemma integer_or_null_roundtrip [simp]:
  "encode_integer_or_null D x = Inr bs \<Longrightarrow> decode_integer_or_null D (bs @ rest) = Inr (x, rest)"
  by (cases x) (auto simp: decode_integer_or_null_def)

lemma octet_or_null_roundtrip [simp]:
  "encode_octet_or_null D x = Inr bs \<Longrightarrow> decode_octet_or_null D (bs @ rest) = Inr (x, rest)"
  by (cases x) (auto simp: decode_octet_or_null_def)

lemma idempotent_roundtrip:
  assumes "write_opt (encode_octet D) x = Inr b" and "encode_time D t = Inr c"
  shows "read_opt_tag D TagOctetString (read_octet D) (b @ c @ rest) = Inr (x, c @ rest)"
  using assms by (cases x) (auto simp: read_opt_tag_def)

lemma subnet_roundtrip:
  assumes "write_opt (encode_bigint D) x = Inr b" and "write_opt (encode_octet D) y = Inr i" and "encode_time D t = Inr c"
  shows "read_opt_tag D TagInteger (read_bigint D) (b @ i @ c @ rest) = Inr (x, i @ c @ rest)"
  using assms by (cases x; cases y) (auto simp: read_opt_tag_def)

lemma v1_roundtrip:
  assumes "encode_v1 D v = Inr bs" and "wf_t_block (BlockV1 v)"
  shows "decode_v1 D bs = Inr v"
  using assms by (auto simp: encode_v1_def decode_v1_def idempotent_roundtrip operations_roundtrip)

lemma v2_roundtrip:
  assumes "encode_v2 D v = Inr bs" and "wf_t_block (BlockV2 v)"
  shows "decode_v2 D bs = Inr v"
  using assms
  by (auto simp: encode_v2_def decode_v2_def idempotent_roundtrip subnet_roundtrip operations_roundtrip signer_roundtrip)

lemma asn1_roundtrip:
  assumes "asn1_encode D b = Inr bs" and "wf_t_block b"
  shows "asn1_decode D bs = Inr b"
proof (cases b)
  case (BlockV1 v)
  then obtain bs' where "bs = 0x30 # bs'" using assms first_sequence by (auto simp: encode_v1_def)
  then show ?thesis using BlockV1 assms v1_roundtrip[of v bs] by (simp add: asn1_decode_def)
next
  case (BlockV2 v)
  then obtain bs' where "bs = 0xA1 # bs'"
    using assms first_context[of V2_TAG] by (auto simp: encode_v2_def V2_TAG_def)
  then show ?thesis using BlockV2 assms v2_roundtrip[of v bs] by (simp add: asn1_decode_def)
qed

end

sublocale der_laws \<subseteq> asn1: fallible_codec "asn1_encode D" "asn1_decode D" wf_t_block
  by unfold_locales (rule asn1_roundtrip)

end
