(* ===== verification/DerRef.thy ===== *)
theory DerRef
  imports Asn1Block
begin

text \<open>
  An executable instance of \<open>der_lib\<close>: DER tag-length-value elements with single-octet tags and
  definite minimal lengths below \<open>2^28\<close>, minimal two's complement integers, and a time text with
  the shape of \<open>GeneralizedTime\<close> that counts seconds instead of naming the calendar date.  It
  discharges \<open>der_laws\<close> and lets the theorems about the codecs run on concrete blocks.
\<close>

section \<open>Big-endian numbers\<close>

definition be_bytes :: "nat \<Rightarrow> nat \<Rightarrow> bytes" where
  "be_bytes k n = map (\<lambda>i. word_of_nat (n div 256 ^ (k - Suc i))) [0..<k]"

definition of_be :: "bytes \<Rightarrow> nat" where
  "of_be bs = foldl (\<lambda>acc b. 256 * acc + unat b) 0 bs"

lemma length_be_bytes [simp]: "length (be_bytes k n) = k"
  by (simp add: be_bytes_def)

lemma be_bytes_Suc: "be_bytes (Suc k) n = be_bytes k (n div 256) @ [word_of_nat n]"
proof -
  have "map (\<lambda>i. word_of_nat (n div 256 ^ (k - i)) :: byte) [0..<k] =
      map (\<lambda>i. word_of_nat (n div 256 div 256 ^ (k - Suc i))) [0..<k]"
  proof (rule map_cong[OF refl])
    fix i assume "i \<in> set [0..<k]"
    then have "k - i = Suc (k - Suc i)" by auto
    then show "word_of_nat (n div 256 ^ (k - i)) = (word_of_nat (n div 256 div 256 ^ (k - Suc i)) :: byte)"
      by (simp add: div_mult2_eq)
  qed
  then show ?thesis by (simp add: be_bytes_def)
qed

lemma of_be_be_bytes: "of_be (be_bytes k n) = n mod 256 ^ k"
proof (induction k arbitrary: n)
  case 0
  then show ?case by (simp add: of_be_def be_bytes_def)
next
  case (Suc k)
  have "unat (word_of_nat n :: byte) = n mod 256" by (simp add: unat_of_nat)
  then have "of_be (be_bytes (Suc k) n) = 256 * (n div 256 mod 256 ^ k) + n mod 256"
    using Suc[of "n div 256"] by (simp add: be_bytes_Suc of_be_def)
  also have "\<dots> = n mod 256 ^ Suc k" by (simp add: mod_mult2_eq)
  finally show ?case .
qed

section \<open>Elements\<close>

fun ref_tag_octet :: "tag \<Rightarrow> byte option" where
  "ref_tag_octet TagBoolean = Some 1"
| "ref_tag_octet TagInteger = Some 2"
| "ref_tag_octet TagBitString = Some 3"
| "ref_tag_octet TagOctetString = Some 4"
| "ref_tag_octet TagNull = Some 5"
| "ref_tag_octet TagOid = Some 6"
| "ref_tag_octet TagUtf8String = Some 12"
| "ref_tag_octet TagGeneralizedTime = Some 24"
| "ref_tag_octet TagSequence = Some 0x30"
| "ref_tag_octet TagSet = Some 0x31"
| "ref_tag_octet (TagContext c n) =
     (if n < 31 then Some (word_of_nat ((if c then 160 else 128) + n)) else None)"
| "ref_tag_octet (TagOther _) = None"

definition ref_octet_tag :: "byte \<Rightarrow> tag" where
  "ref_octet_tag b =
     (let n = unat b in
      if n = 1 then TagBoolean else if n = 2 then TagInteger else if n = 3 then TagBitString
      else if n = 4 then TagOctetString else if n = 5 then TagNull else if n = 6 then TagOid
      else if n = 12 then TagUtf8String else if n = 24 then TagGeneralizedTime
      else if n = 48 then TagSequence else if n = 49 then TagSet
      else if 128 \<le> n \<and> n < 159 then TagContext False (n - 128)
      else if 160 \<le> n \<and> n < 191 then TagContext True (n - 160)
      else TagOther b)"

lemma ref_octet_tag_octet: "ref_tag_octet t = Some b \<Longrightarrow> ref_octet_tag b = t"
proof (cases t)
  case (TagContext c n)
  assume "ref_tag_octet t = Some b"
  then have n: "n < 31" and b: "b = word_of_nat ((if c then 160 else 128) + n)"
    by (auto simp: TagContext split: if_splits)
  have "unat b = (if c then 160 else 128) + n"
    unfolding b using n by (simp only: unat_of_nat) auto
  then show ?thesis using n by (auto simp: ref_octet_tag_def TagContext)
qed (auto simp: ref_octet_tag_def)

definition ref_len_size :: "nat \<Rightarrow> nat" where
  "ref_len_size n = (if n < 256 then 1 else if n < 65536 then 2 else if n < 16777216 then 3 else 4)"

definition ref_len_encode :: "nat \<Rightarrow> bytes" where
  "ref_len_encode n =
     (if n < 128 then [word_of_nat n]
      else word_of_nat (128 + ref_len_size n) # be_bytes (ref_len_size n) n)"

definition ref_len_decode :: "bytes \<Rightarrow> (nat \<times> bytes) option" where
  "ref_len_decode r =
     (case r of
        [] \<Rightarrow> None
      | b # r' \<Rightarrow>
          if unat b < 128 then Some (unat b, r')
          else
            let k = unat b - 128; n = of_be (take k r') in
            if 1 \<le> k \<and> k \<le> 4 \<and> k \<le> length r' \<and> 128 \<le> n \<and> ref_len_size n = k
            then Some (n, drop k r') else None)"

lemma ref_len_size_bounds: "n < 2 ^ 28 \<Longrightarrow> n < 256 ^ ref_len_size n \<and> 1 \<le> ref_len_size n \<and> ref_len_size n \<le> 4"
  by (auto simp: ref_len_size_def)

lemma ref_len_roundtrip:
  assumes "n < 2 ^ 28"
  shows "ref_len_decode (ref_len_encode n @ r) = Some (n, r)"
proof (cases "n < 128")
  case True
  then have "unat (word_of_nat n :: byte) = n" by (simp add: unat_of_nat)
  then show ?thesis using True by (simp add: ref_len_encode_def ref_len_decode_def)
next
  case False
  let ?k = "ref_len_size n"
  note b = ref_len_size_bounds[OF assms]
  have "128 + ?k < 256" using b by linarith
  then have u: "unat (word_of_nat (128 + ?k) :: byte) = 128 + ?k" by (simp only: unat_of_nat) simp
  have "of_be (be_bytes ?k n) = n" using b by (simp add: of_be_be_bytes)
  then show ?thesis using False b u
    by (simp add: ref_len_encode_def ref_len_decode_def Let_def del: of_nat_add)
qed

lemma ref_len_decode_consumes: "ref_len_decode r = Some (n, r') \<Longrightarrow> Suc (length r') \<le> length r"
  by (auto simp: ref_len_decode_def Let_def split: list.splits if_splits)

definition ref_tlv_encode :: "tag \<Rightarrow> bytes \<Rightarrow> bytes option" where
  "ref_tlv_encode t v =
     (case ref_tag_octet t of
        None \<Rightarrow> None
      | Some b \<Rightarrow> if length v < 2 ^ 28 then Some (b # ref_len_encode (length v) @ v) else None)"

definition ref_tlv_decode :: "bytes \<Rightarrow> (tag \<times> bytes \<times> bytes) option" where
  "ref_tlv_decode r =
     (case r of
        [] \<Rightarrow> None
      | b # r' \<Rightarrow>
          (case ref_len_decode r' of
             None \<Rightarrow> None
           | Some (n, r'') \<Rightarrow>
               if n \<le> length r'' then Some (ref_octet_tag b, take n r'', drop n r'') else None))"

definition ref_tlv_peek :: "bytes \<Rightarrow> tag option" where
  "ref_tlv_peek r = (case r of [] \<Rightarrow> None | b # _ \<Rightarrow> Some (ref_octet_tag b))"

section \<open>Integers\<close>

function ref_int_bytes :: "int \<Rightarrow> bytes" where
  "ref_int_bytes n =
     (if -128 \<le> n \<and> n < 128 then [word_of_int n] else ref_int_bytes (n div 256) @ [word_of_int n])"
  by auto
termination by (relation "measure (\<lambda>n. nat \<bar>n\<bar>)") auto

declare ref_int_bytes.simps [simp del]

definition ref_bytes_int :: "bytes \<Rightarrow> int" where
  "ref_bytes_int bs =
     (case bs of [] \<Rightarrow> 0 | b # bs' \<Rightarrow> foldl (\<lambda>acc b. 256 * acc + uint b) (sint b) bs')"

lemma ref_int_bytes_nonempty [simp]: "ref_int_bytes n \<noteq> []"
  by (subst ref_int_bytes.simps) simp

lemma ref_int_roundtrip: "ref_bytes_int (ref_int_bytes n) = n"
proof (induction n rule: ref_int_bytes.induct)
  case (1 n)
  show ?case
  proof (cases "-128 \<le> n \<and> n < 128")
    case True
    then have "signed_take_bit 7 n = n" by (simp add: signed_take_bit_int_eq_self_iff)
    then show ?thesis using True
      by (subst ref_int_bytes.simps) (simp add: ref_bytes_int_def signed_of_int)
  next
    case False
    have snoc: "ref_bytes_int (bs @ [b]) = 256 * ref_bytes_int bs + uint b" if "bs \<noteq> []" for bs b
      using that by (cases bs) (simp_all add: ref_bytes_int_def)
    have "uint (word_of_int n :: byte) = n mod 256" by (simp add: unsigned_of_int take_bit_int_def)
    moreover have "ref_int_bytes n = ref_int_bytes (n div 256) @ [word_of_int n]"
      using False by (subst ref_int_bytes.simps) auto
    ultimately show ?thesis using False 1 by (simp add: snoc)
  qed
qed

section \<open>Times\<close>

definition digit_byte :: "nat \<Rightarrow> byte" where
  "digit_byte d = word_of_nat (48 + d)"

definition digits :: "nat \<Rightarrow> nat \<Rightarrow> bytes" where
  "digits k n = map (\<lambda>i. digit_byte (n div 10 ^ (k - Suc i) mod 10)) [0..<k]"

definition of_digits :: "bytes \<Rightarrow> nat" where
  "of_digits bs = foldl (\<lambda>acc b. 10 * acc + (unat b - 48)) 0 bs"

definition ref_time_format :: "int \<Rightarrow> bytes" where
  "ref_time_format t =
     (let n = nat (t + 62167219200000) in
      if n mod 1000 = 0 then digits 14 (n div 1000) @ [90]
      else digits 14 (n div 1000) @ [46] @ digits 3 (n mod 1000) @ [90])"

definition ref_time_parse :: "bytes \<Rightarrow> int option" where
  "ref_time_parse bs =
     Some (int (1000 * of_digits (take 14 bs) +
       (if length bs = 15 then 0 else of_digits (take 3 (drop 15 bs)))) - 62167219200000)"

lemma length_digits [simp]: "length (digits k n) = k"
  by (simp add: digits_def)

lemma unat_digit_byte: "d < 10 \<Longrightarrow> unat (digit_byte d) = 48 + d"
  unfolding digit_byte_def by (simp only: unat_of_nat) simp

lemma digits_Suc: "digits (Suc k) n = digits k (n div 10) @ [digit_byte (n mod 10)]"
proof -
  have "map (\<lambda>i. digit_byte (n div 10 ^ (k - i) mod 10)) [0..<k] =
      map (\<lambda>i. digit_byte (n div 10 div 10 ^ (k - Suc i) mod 10)) [0..<k]"
  proof (rule map_cong[OF refl])
    fix i assume "i \<in> set [0..<k]"
    then have "k - i = Suc (k - Suc i)" by auto
    then show "digit_byte (n div 10 ^ (k - i) mod 10) = digit_byte (n div 10 div 10 ^ (k - Suc i) mod 10)"
      by (simp add: div_mult2_eq)
  qed
  then show ?thesis by (simp add: digits_def)
qed

lemma of_digits_digits: "of_digits (digits k n) = n mod 10 ^ k"
proof (induction k arbitrary: n)
  case 0
  then show ?case by (simp add: of_digits_def digits_def)
next
  case (Suc k)
  have "of_digits (digits (Suc k) n) = 10 * (n div 10 mod 10 ^ k) + n mod 10"
    using Suc[of "n div 10"] by (simp add: digits_Suc of_digits_def unat_digit_byte)
  also have "\<dots> = n mod 10 ^ Suc k" by (simp add: mod_mult2_eq)
  finally show ?case .
qed

lemma valid_utf8_ascii: "(\<forall>b \<in> set bs. unat b < 128) \<Longrightarrow> valid_utf8 bs"
proof -
  have "utf8_chars ns \<noteq> None" if "\<forall>n \<in> set ns. n < 128" for ns
    using that by (induction ns) auto
  then show "(\<forall>b \<in> set bs. unat b < 128) \<Longrightarrow> valid_utf8 bs" by (simp add: valid_utf8_def)
qed

lemma digits_ascii: "b \<in> set (digits k n) \<Longrightarrow> unat b < 128"
  by (auto simp: digits_def unat_digit_byte)

lemma ref_time_laws:
  assumes "asn1_time_range t"
  shows "length (ref_time_format t) = time_value_len t \<and> valid_utf8 (ref_time_format t) \<and>
    ref_time_parse (ref_time_format t) = Some t"
proof -
  define n where "n = nat (t + 62167219200000)"
  have n: "int n = t + 62167219200000" "n < 315569520000000"
    using assms by (auto simp: n_def asn1_time_range_def)
  have m: "int (n mod 1000) = t mod 1000"
  proof -
    have "(t + 62167219200000) mod 1000 = (t + 1000 * 62167219200) mod 1000"
      by (rule arg_cong[where f = "\<lambda>x. (t + x) mod 1000"]) simp
    also have "\<dots> = t mod 1000" by (rule mod_mult_self2)
    finally have "(t + 62167219200000) mod 1000 = t mod 1000" .
    then show ?thesis using n(1) by (simp add: zmod_int)
  qed
  have d: "n div 1000 mod 10 ^ 14 = n div 1000" using n(2) by simp
  have "valid_utf8 (ref_time_format t)"
    by (rule valid_utf8_ascii) (auto simp: ref_time_format_def Let_def dest: digits_ascii split: if_splits)
  moreover have "length (ref_time_format t) = time_value_len t"
    using m by (auto simp: ref_time_format_def time_value_len_def n_def[symmetric] Let_def)
  moreover have "ref_time_parse (ref_time_format t) = Some t"
  proof (cases "n mod 1000 = 0")
    case True
    then have "1000 * (n div 1000) = n" by auto
    then show ?thesis using True n(1) d
      by (simp add: ref_time_format_def ref_time_parse_def n_def[symmetric] of_digits_digits)
  next
    case False
    have "1000 * (n div 1000) + n mod 1000 = n" by simp
    moreover have "of_digits (digits 3 (n mod 1000)) = n mod 1000" by (simp add: of_digits_digits)
    ultimately show ?thesis using False n(1) d
      by (simp add: ref_time_format_def ref_time_parse_def n_def[symmetric] of_digits_digits)
  qed
  ultimately show ?thesis by blast
qed

section \<open>The instance\<close>

definition ref_der :: der_lib where
  "ref_der = \<lparr>tlv_encode = ref_tlv_encode, tlv_decode = ref_tlv_decode, tlv_peek = ref_tlv_peek,
     to_signed_bytes_be = ref_int_bytes, from_signed_bytes_be = ref_bytes_int,
     time_format = ref_time_format, time_parse = ref_time_parse\<rparr>"

lemma ref_der_sel [simp]:
  "tlv_encode ref_der = ref_tlv_encode" "tlv_decode ref_der = ref_tlv_decode" "tlv_peek ref_der = ref_tlv_peek"
  "to_signed_bytes_be ref_der = ref_int_bytes" "from_signed_bytes_be ref_der = ref_bytes_int"
  "time_format ref_der = ref_time_format" "time_parse ref_der = ref_time_parse"
  by (simp_all add: ref_der_def)

lemma ref_tlv_encode_Some:
  "ref_tlv_encode t v = Some bs \<longleftrightarrow>
     (\<exists>b. ref_tag_octet t = Some b \<and> length v < 2 ^ 28 \<and> bs = b # ref_len_encode (length v) @ v)"
  by (auto simp: ref_tlv_encode_def split: option.splits if_splits)

lemma ref_tag_octet_agrees: "tag_octet t = Some b \<Longrightarrow> ref_tag_octet t = Some b"
  by (cases t rule: tag_octet.cases) (auto split: if_splits)

interpretation refder: der_laws ref_der
proof unfold_locales
  fix t v bs rest assume a: "tlv_encode ref_der t v = Some bs"
  then obtain b where b: "ref_tag_octet t = Some b" "length v < 2 ^ 28" "bs = b # ref_len_encode (length v) @ v"
    by (auto simp: ref_tlv_encode_Some)
  show "tlv_decode ref_der (bs @ rest) = Some (t, v, rest)"
    using ref_len_roundtrip[OF b(2), of "v @ rest"] ref_octet_tag_octet[OF b(1)]
    by (simp add: b(3) ref_tlv_decode_def)
  show "tlv_peek ref_der (bs @ rest) = Some t"
    using ref_octet_tag_octet[OF b(1)] by (simp add: b(3) ref_tlv_peek_def)
  show "\<exists>bs'. bs = c # bs'" if "tag_octet t = Some c" for c
    using ref_tag_octet_agrees[OF that] b by simp
next
  fix bs t v rest assume "tlv_decode ref_der bs = Some (t, v, rest)"
  then show "length v + length rest + 2 \<le> length bs"
    by (auto simp: ref_tlv_decode_def dest!: ref_len_decode_consumes split: list.splits option.splits if_splits)
qed (auto simp: ref_int_roundtrip ref_time_laws)

end
