(* ===== verification/Transport.thy ===== *)
theory Transport
  imports Operation DerRef
begin

text \<open>
  Block data and its conversion to and from the transport form (\<open>block/src/transport.rs\<close>, with the
  data types of \<open>block/src/block.rs\<close>).  The byte codec is the interface of
  \<open>asn1/src/block/codec.rs\<close>: an argument that stands for whichever backend is compiled in, and
  that \<open>Asn1Block\<close> provides for the \<open>der\<close> backend.
\<close>

section \<open>Block data\<close>

definition MAX_PARSE_SIGNER_DEPTH :: nat where "MAX_PARSE_SIGNER_DEPTH = 3"

datatype block_version = V1 | V2

datatype block_purpose = Generic | Fee

fun purpose_to_bigint :: "block_purpose \<Rightarrow> int" where
  "purpose_to_bigint Generic = 0"
| "purpose_to_bigint Fee = 1"

definition purpose_try_from :: "int \<Rightarrow> block_error + block_purpose" where
  "purpose_try_from v = (if v = 0 then Ok Generic else if v = 1 then Ok Fee else Err InvalidPurpose)"

definition signature_try_from :: "bytes \<Rightarrow> block_error + bytes" where
  "signature_try_from bs = (if length bs = 64 then Ok bs else Err (InvalidSignatureLength (length bs)))"

record block_data =
  bd_version :: block_version
  bd_purpose :: block_purpose
  bd_network :: int
  bd_subnet :: "int option"
  bd_idempotent :: "bytes option"
  bd_date :: int
  bd_account :: generic_account
  bd_signer :: signer
  bd_previous :: bytes
  bd_operations :: "operation list"

record asn1_backend =
  backend_encode :: "t_block \<Rightarrow> asn1_error + bytes"
  backend_decode :: "bytes \<Rightarrow> asn1_error + t_block"

definition der_backend :: "der_lib \<Rightarrow> asn1_backend" where
  "der_backend D = \<lparr>backend_encode = asn1_encode D, backend_decode = asn1_decode D\<rparr>"

section \<open>Helpers\<close>

definition account_bytes :: "generic_account \<Rightarrow> bytes" where
  "account_bytes a = to_public_key_with_type a"

definition parse_account :: "crypto_lib \<Rightarrow> bytes \<Rightarrow> block_error + generic_account" where
  "parse_account L bs = map_err AccountErr (parse_account_with_type L bs)"

definition blockhash_from_bytes :: "bytes \<Rightarrow> block_error + bytes" where
  "blockhash_from_bytes bs = (if length bs = 32 then Ok bs else Err (CryptoErr CryptoInvalidKeySize))"

definition permissions_to_transport :: "permissions \<Rightarrow> t_permissions" where
  "permissions_to_transport p = \<lparr>tp_base = base_bits (perm_base p), tp_external = external_bits (perm_external p)\<rparr>"

definition permissions_from_transport :: "t_permissions \<Rightarrow> block_error + permissions" where
  "permissions_from_transport p = permissions_from_bigints (tp_base p) (tp_external p)"

section \<open>Signers\<close>

fun build_signer :: "signer \<Rightarrow> t_signer" where
  "build_signer (Single a) = TSignerSingle (account_bytes a)"
| "build_signer (MultisigSigner address ss) = TSignerMultisig (account_bytes address) (map build_signer ss)"

fun parse_signer :: "crypto_lib \<Rightarrow> nat \<Rightarrow> t_signer \<Rightarrow> block_error + signer" where
  "parse_signer L depth (TSignerSingle bs) =
     and_then (parse_account L bs) (\<lambda>a.
       if \<not> supports_crypto (to_keypair_type a) then Err MalformedSigner else Ok (Single a))"
| "parse_signer L depth (TSignerMultisig address ss) =
     (if depth > MAX_PARSE_SIGNER_DEPTH
      then Err (MultisigSignerDepthExceeded depth MAX_PARSE_SIGNER_DEPTH)
      else and_then (parse_account L address) (\<lambda>a.
        if to_keypair_type a \<noteq> MULTISIG then Err MalformedSigner
        else and_then (traverse (parse_signer L (depth + 1)) ss) (\<lambda>signers. Ok (MultisigSigner a signers))))"
| "parse_signer L depth TSignerEmpty = Err MalformedSigner"

definition parse_multisig :: "crypto_lib \<Rightarrow> bytes \<Rightarrow> t_signer list \<Rightarrow> nat \<Rightarrow> block_error + signer" where
  "parse_multisig L address ss depth =
     and_then (parse_account L address) (\<lambda>a.
       if to_keypair_type a \<noteq> MULTISIG then Err MalformedSigner
       else and_then (traverse (parse_signer L (depth + 1)) ss) (\<lambda>signers. Ok (MultisigSigner a signers)))"

section \<open>Operations\<close>

definition modify_permissions_to_transport :: "modify_permissions \<Rightarrow> t_modify_permissions" where
  "modify_permissions_to_transport op =
     \<lparr>tmp_principal =
        (case mp_principal op of
           PrincipalAccount a \<Rightarrow> TPrincipalAccount (account_bytes a)
         | PrincipalCertificate h a \<Rightarrow> TPrincipalCertificate \<lparr>tcp_hash = h, tcp_account = account_bytes a\<rparr>),
      tmp_method = adjust_method_to_bigint (mp_method op),
      tmp_permissions =
        (case mp_permissions op of
           Some p \<Rightarrow> TPermissions (permissions_to_transport p)
         | None \<Rightarrow> TPermissionsNull),
      tmp_target = map_option account_bytes (mp_target op)\<rparr>"

definition modify_permissions_from_transport ::
    "crypto_lib \<Rightarrow> t_modify_permissions \<Rightarrow> block_error + modify_permissions" where
  "modify_permissions_from_transport L op =
     and_then
       (case tmp_principal op of
          TPrincipalAccount bs \<Rightarrow> and_then (parse_account L bs) (\<lambda>a. Ok (PrincipalAccount a))
        | TPrincipalCertificate c \<Rightarrow>
            if length (tcp_hash c) \<noteq> 32 then Err InvalidPrincipal
            else and_then (parse_account L (tcp_account c)) (\<lambda>a. Ok (PrincipalCertificate (tcp_hash c) a)))
       (\<lambda>who.
     and_then
       (case tmp_permissions op of
          TPermissions p \<Rightarrow> and_then (permissions_from_transport p) (\<lambda>x. Ok (Some x))
        | TPermissionsNull \<Rightarrow> Ok None) (\<lambda>permissions.
     and_then (adjust_method_try_from (tmp_method op)) (\<lambda>method.
     and_then (transpose_opt (parse_account L) (tmp_target op)) (\<lambda>target.
       Ok \<lparr>mp_principal = who, mp_method = method, mp_permissions = permissions, mp_target = target\<rparr>))))"

definition create_identifier_to_transport :: "create_identifier \<Rightarrow> t_create_identifier" where
  "create_identifier_to_transport op =
     \<lparr>tci_identifier = account_bytes (ci_identifier op),
      tci_multisig =
        map_option (\<lambda>args. case args of MultisigArguments a \<Rightarrow>
          \<lparr>tma_signers = map account_bytes (ms_create_signers a), tma_quorum = ms_create_quorum a\<rparr>)
        (ci_arguments op)\<rparr>"

definition create_identifier_from_transport ::
    "crypto_lib \<Rightarrow> t_create_identifier \<Rightarrow> block_error + create_identifier" where
  "create_identifier_from_transport L op =
     and_then (parse_account L (tci_identifier op)) (\<lambda>identifier.
     and_then
       (case tci_multisig op of
          None \<Rightarrow> Ok None
        | Some args \<Rightarrow>
            and_then (traverse (parse_account L) (tma_signers args)) (\<lambda>signers.
              Ok (Some (MultisigArguments
                \<lparr>ms_create_signers = signers, ms_create_quorum = tma_quorum args\<rparr>)))) (\<lambda>args.
       Ok \<lparr>ci_identifier = identifier, ci_arguments = args\<rparr>))"

definition manage_certificate_to_transport :: "crypto_lib \<Rightarrow> manage_certificate \<Rightarrow> t_manage_certificate" where
  "manage_certificate_to_transport L op =
     \<lparr>tmc_method = adjust_method_to_bigint (mc_method op),
      tmc_certificate_or_hash =
        (case canonical_certificate_or_hash L op of Certificate der \<Rightarrow> der | CertHash h \<Rightarrow> h),
      tmc_intermediates =
        map_option (\<lambda>i. case i of
            NoIntermediates \<Rightarrow> TIntermediatesNull
          | Bundle bundle \<Rightarrow> TIntermediatesBundle bundle) (mc_intermediates op)\<rparr>"

definition manage_certificate_from_transport :: "t_manage_certificate \<Rightarrow> block_error + manage_certificate" where
  "manage_certificate_from_transport op =
     (let bs = tmc_certificate_or_hash op;
          certificate_or_hash = (if length bs = 32 then CertHash bs else Certificate bs);
          intermediates =
            map_option (\<lambda>i. case i of
                TIntermediatesNull \<Rightarrow> NoIntermediates
              | TIntermediatesBundle bundle \<Rightarrow> Bundle bundle) (tmc_intermediates op)
      in and_then (adjust_method_try_from (tmc_method op)) (\<lambda>method.
        Ok \<lparr>mc_method = method, mc_certificate_or_hash = certificate_or_hash, mc_intermediates = intermediates\<rparr>))"

fun operation_to_transport :: "crypto_lib \<Rightarrow> operation \<Rightarrow> t_operation" where
  "operation_to_transport L (OpSend op) =
     TSend \<lparr>ts_to = account_bytes (send_to op), ts_amount = send_amount op,
       ts_token = account_bytes (send_token op), ts_external = send_external op\<rparr>"
| "operation_to_transport L (OpSetRep op) = TSetRep \<lparr>tsr_to = account_bytes (set_rep_to op)\<rparr>"
| "operation_to_transport L (OpSetInfo op) =
     TSetInfo \<lparr>tsi_name = info_name op, tsi_description = info_description op, tsi_metadata = info_metadata op,
       tsi_default_permission = map_option permissions_to_transport (info_default_permission op)\<rparr>"
| "operation_to_transport L (OpModifyPermissions op) = TModifyPermissions (modify_permissions_to_transport op)"
| "operation_to_transport L (OpCreateIdentifier op) = TCreateIdentifier (create_identifier_to_transport op)"
| "operation_to_transport L (OpTokenAdminSupply op) =
     TTokenAdminSupply \<lparr>tts_amount = tas_amount op, tts_method = adjust_method_to_bigint (tas_method op)\<rparr>"
| "operation_to_transport L (OpTokenAdminModifyBalance op) =
     TTokenAdminModifyBalance \<lparr>ttb_token = account_bytes (tamb_token op), ttb_amount = tamb_amount op,
       ttb_method = adjust_method_to_bigint (tamb_method op)\<rparr>"
| "operation_to_transport L (OpReceive op) =
     TReceive \<lparr>tr_amount = recv_amount op, tr_token = account_bytes (recv_token op),
       tr_from = account_bytes (recv_from op), tr_exact = recv_exact op,
       tr_forward = map_option account_bytes (recv_forward op)\<rparr>"
| "operation_to_transport L (OpManageCertificate op) = TManageCertificate (manage_certificate_to_transport L op)"

fun operation_from_transport :: "crypto_lib \<Rightarrow> t_operation \<Rightarrow> block_error + operation" where
  "operation_from_transport L (TSend op) =
     and_then (parse_account L (ts_to op)) (\<lambda>to.
     and_then (parse_account L (ts_token op)) (\<lambda>token.
       Ok (OpSend \<lparr>send_to = to, send_amount = ts_amount op, send_token = token, send_external = ts_external op\<rparr>)))"
| "operation_from_transport L (TSetRep op) =
     and_then (parse_account L (tsr_to op)) (\<lambda>to. Ok (OpSetRep \<lparr>set_rep_to = to\<rparr>))"
| "operation_from_transport L (TSetInfo op) =
     and_then (transpose_opt permissions_from_transport (tsi_default_permission op)) (\<lambda>p.
       Ok (OpSetInfo \<lparr>info_name = tsi_name op, info_description = tsi_description op,
         info_metadata = tsi_metadata op, info_default_permission = p\<rparr>))"
| "operation_from_transport L (TModifyPermissions op) =
     and_then (modify_permissions_from_transport L op) (\<lambda>x. Ok (OpModifyPermissions x))"
| "operation_from_transport L (TCreateIdentifier op) =
     and_then (create_identifier_from_transport L op) (\<lambda>x. Ok (OpCreateIdentifier x))"
| "operation_from_transport L (TTokenAdminSupply op) =
     and_then (adjust_method_try_from (tts_method op)) (\<lambda>m.
       Ok (OpTokenAdminSupply \<lparr>tas_amount = tts_amount op, tas_method = m\<rparr>))"
| "operation_from_transport L (TTokenAdminModifyBalance op) =
     and_then (parse_account L (ttb_token op)) (\<lambda>token.
     and_then (adjust_method_try_from (ttb_method op)) (\<lambda>m.
       Ok (OpTokenAdminModifyBalance \<lparr>tamb_token = token, tamb_amount = ttb_amount op, tamb_method = m\<rparr>)))"
| "operation_from_transport L (TReceive op) =
     and_then (parse_account L (tr_token op)) (\<lambda>token.
     and_then (parse_account L (tr_from op)) (\<lambda>from.
     and_then (transpose_opt (parse_account L) (tr_forward op)) (\<lambda>forward.
       Ok (OpReceive \<lparr>recv_amount = tr_amount op, recv_token = token, recv_from = from,
         recv_exact = tr_exact op, recv_forward = forward\<rparr>))))"
| "operation_from_transport L (TManageCertificate op) =
     and_then (manage_certificate_from_transport op) (\<lambda>x. Ok (OpManageCertificate x))"

section \<open>Blocks\<close>

definition build_block_v1 :: "crypto_lib \<Rightarrow> block_data \<Rightarrow> bytes list option \<Rightarrow> block_error + block_v1" where
  "build_block_v1 L data signatures =
     (case bd_signer data of
        MultisigSigner _ _ \<Rightarrow> Err V1SingleSignerOnly
      | Single signer_account \<Rightarrow>
          and_then
            (case signatures of
               None \<Rightarrow> Ok None
             | Some [only] \<Rightarrow> Ok (Some only)
             | Some _ \<Rightarrow> Err V1SingleSignerOnly) (\<lambda>signature.
          Ok \<lparr>v1_version = 0, v1_network = bd_network data,
              v1_subnet = (case bd_subnet data of Some v \<Rightarrow> IntegerValue v | None \<Rightarrow> IntegerNull),
              v1_idempotent = bd_idempotent data, v1_date = bd_date data,
              v1_signer = account_bytes signer_account,
              v1_account = (if accounts_equal (bd_account data) signer_account then OctetNull
                            else OctetValue (account_bytes (bd_account data))),
              v1_previous = bd_previous data,
              v1_operations = map (operation_to_transport L) (bd_operations data),
              v1_signature = signature\<rparr>))"

definition block_v1_to_parts :: "crypto_lib \<Rightarrow> block_v1 \<Rightarrow> block_error + block_data \<times> bytes list option" where
  "block_v1_to_parts L v =
     (if v1_version v \<noteq> 0 then Err InvalidVersion
      else and_then (parse_account L (v1_signer v)) (\<lambda>signer_account.
        and_then
          (case v1_account v of
             OctetNull \<Rightarrow> Ok signer_account
           | OctetValue bs \<Rightarrow>
               and_then (parse_account L bs) (\<lambda>parsed.
                 if accounts_equal parsed signer_account then Err RedundantAccountField else Ok parsed)) (\<lambda>account.
        and_then
          (transpose_opt (\<lambda>bs. and_then (signature_try_from bs) (\<lambda>sig. Ok [sig])) (v1_signature v)) (\<lambda>signatures.
        and_then (blockhash_from_bytes (v1_previous v)) (\<lambda>previous.
        and_then (traverse (operation_from_transport L) (v1_operations v)) (\<lambda>operations.
          Ok (\<lparr>bd_version = V1, bd_purpose = Generic, bd_network = v1_network v,
               bd_subnet = (case v1_subnet v of IntegerNull \<Rightarrow> None | IntegerValue n \<Rightarrow> Some n),
               bd_idempotent = v1_idempotent v, bd_date = v1_date v, bd_account = account,
               bd_signer = Single signer_account, bd_previous = previous, bd_operations = operations\<rparr>,
              signatures)))))))"

definition build_block_v2 :: "crypto_lib \<Rightarrow> block_data \<Rightarrow> bytes list option \<Rightarrow> block_error + block_v2" where
  "build_block_v2 L data signatures =
     (let signer_transport =
        (case bd_signer data of
           Single a \<Rightarrow> if accounts_equal a (bd_account data) then TSignerEmpty else TSignerSingle (account_bytes a)
         | MultisigSigner address ss \<Rightarrow> build_signer (MultisigSigner address ss))
      in and_then
        (case signatures of
           None \<Rightarrow> Ok None
         | Some [] \<Rightarrow> Err SignatureRequired
         | Some [only] \<Rightarrow> Ok (Some (TSignatureSingle only))
         | Some many \<Rightarrow> Ok (Some (TSignatureMultiple many))) (\<lambda>signatures_transport.
      Ok \<lparr>v2_network = bd_network data, v2_subnet = bd_subnet data, v2_idempotent = bd_idempotent data,
          v2_date = bd_date data, v2_purpose = purpose_to_bigint (bd_purpose data),
          v2_account = account_bytes (bd_account data), v2_signer = signer_transport,
          v2_previous = bd_previous data, v2_operations = map (operation_to_transport L) (bd_operations data),
          v2_signatures = signatures_transport\<rparr>))"

definition block_v2_to_parts :: "crypto_lib \<Rightarrow> block_v2 \<Rightarrow> block_error + block_data \<times> bytes list option" where
  "block_v2_to_parts L v =
     and_then (parse_account L (v2_account v)) (\<lambda>account.
     and_then
       (case v2_signer v of
          TSignerEmpty \<Rightarrow> Ok (Single account)
        | TSignerSingle bs \<Rightarrow>
            and_then (parse_account L bs) (\<lambda>s.
              if accounts_equal s account then Err RedundantAccountField else Ok (Single s))
        | TSignerMultisig address ss \<Rightarrow> parse_multisig L address ss 1) (\<lambda>signer.
     and_then
       (case v2_signatures v of
          None \<Rightarrow> Ok None
        | Some (TSignatureSingle bs) \<Rightarrow> and_then (signature_try_from bs) (\<lambda>sig. Ok (Some [sig]))
        | Some (TSignatureMultiple many) \<Rightarrow>
            if length many \<le> 1 then Err InvalidSignatureSequence
            else and_then (traverse signature_try_from many) (\<lambda>sigs. Ok (Some sigs))) (\<lambda>signatures.
     and_then (purpose_try_from (v2_purpose v)) (\<lambda>purpose.
     and_then (blockhash_from_bytes (v2_previous v)) (\<lambda>previous.
     and_then (traverse (operation_from_transport L) (v2_operations v)) (\<lambda>operations.
       Ok (\<lparr>bd_version = V2, bd_purpose = purpose, bd_network = v2_network v, bd_subnet = v2_subnet v,
            bd_idempotent = v2_idempotent v, bd_date = v2_date v, bd_account = account, bd_signer = signer,
            bd_previous = previous, bd_operations = operations\<rparr>, signatures)))))))"

definition encode_block :: "crypto_lib \<Rightarrow> asn1_backend \<Rightarrow> block_data \<Rightarrow> bytes list option \<Rightarrow> block_error + bytes" where
  "encode_block L A data signatures =
     (case bd_version data of
        V1 \<Rightarrow> and_then (build_block_v1 L data signatures) (\<lambda>v. map_err CodecError (backend_encode A (BlockV1 v)))
      | V2 \<Rightarrow> and_then (build_block_v2 L data signatures) (\<lambda>v. map_err CodecError (backend_encode A (BlockV2 v))))"

definition decode_block :: "crypto_lib \<Rightarrow> asn1_backend \<Rightarrow> bytes \<Rightarrow> block_error + block_data \<times> bytes list option" where
  "decode_block L A bs =
     and_then (map_err CodecError (backend_decode A bs)) (\<lambda>b.
       case b of BlockV1 v \<Rightarrow> block_v1_to_parts L v | BlockV2 v \<Rightarrow> block_v2_to_parts L v)"

section \<open>Well-formed values\<close>

fun wf_operation :: "crypto_lib \<Rightarrow> operation \<Rightarrow> bool" where
  "wf_operation L (OpSend op) =
     (wf_account L (send_to op) \<and> wf_account L (send_token op) \<and> pred_option valid_utf8 (send_external op))"
| "wf_operation L (OpSetRep op) = wf_account L (set_rep_to op)"
| "wf_operation L (OpSetInfo op) =
     (valid_utf8 (info_name op) \<and> valid_utf8 (info_description op) \<and> valid_utf8 (info_metadata op) \<and>
      pred_option canonical_permissions (info_default_permission op))"
| "wf_operation L (OpModifyPermissions op) =
     (wf_principal L (mp_principal op) \<and> pred_option canonical_permissions (mp_permissions op) \<and>
      pred_option (wf_account L) (mp_target op))"
| "wf_operation L (OpCreateIdentifier op) =
     (wf_account L (ci_identifier op) \<and>
      pred_option (\<lambda>args. case args of MultisigArguments a \<Rightarrow> list_all (wf_account L) (ms_create_signers a))
        (ci_arguments op))"
| "wf_operation L (OpTokenAdminSupply op) = True"
| "wf_operation L (OpTokenAdminModifyBalance op) = wf_account L (tamb_token op)"
| "wf_operation L (OpReceive op) =
     (wf_account L (recv_token op) \<and> wf_account L (recv_from op) \<and> pred_option (wf_account L) (recv_forward op))"
| "wf_operation L (OpManageCertificate op) =
     (case mc_certificate_or_hash op of
        Certificate der \<Rightarrow> mc_method op \<noteq> Subtract \<and> length der \<noteq> 32
      | CertHash h \<Rightarrow> length h = 32)"

fun wf_signer_at :: "crypto_lib \<Rightarrow> nat \<Rightarrow> signer \<Rightarrow> bool" where
  "wf_signer_at L depth (Single a) = (wf_account L a \<and> supports_crypto (to_keypair_type a))"
| "wf_signer_at L depth (MultisigSigner address ss) =
     (depth \<le> MAX_PARSE_SIGNER_DEPTH \<and> wf_account L address \<and> to_keypair_type address = MULTISIG \<and>
      list_all (wf_signer_at L (depth + 1)) ss)"

definition wf_signer :: "crypto_lib \<Rightarrow> signer \<Rightarrow> bool" where
  "wf_signer L s \<longleftrightarrow> (case s of Single a \<Rightarrow> wf_account L a | _ \<Rightarrow> wf_signer_at L 1 s)"

definition wf_block_data :: "crypto_lib \<Rightarrow> block_data \<Rightarrow> bool" where
  "wf_block_data L d \<longleftrightarrow>
     (bd_version d = V1 \<longrightarrow> bd_purpose d = Generic) \<and> asn1_time_range (bd_date d) \<and>
     wf_account L (bd_account d) \<and> wf_signer L (bd_signer d) \<and> length (bd_previous d) = 32 \<and>
     list_all (wf_operation L) (bd_operations d)"

definition wf_signatures :: "bytes list option \<Rightarrow> bool" where
  "wf_signatures s \<longleftrightarrow> pred_option (list_all (\<lambda>b. length b = 64)) s"

section \<open>Round trip\<close>

lemma purpose_roundtrip [simp]: "purpose_try_from (purpose_to_bigint p) = Inr p"
  by (cases p) (simp_all add: purpose_try_from_def)

lemma signature_try_from_ok [simp]: "signature_try_from bs = Inr s \<longleftrightarrow> length bs = 64 \<and> s = bs"
  by (auto simp: signature_try_from_def)

lemma traverse_signatures [simp]:
  "list_all (\<lambda>b. length b = 64) sigs \<Longrightarrow> traverse signature_try_from sigs = Inr sigs"
  by (induction sigs) auto

lemma blockhash_from_bytes_ok [simp]: "blockhash_from_bytes bs = Inr h \<longleftrightarrow> length bs = 32 \<and> h = bs"
  by (auto simp: blockhash_from_bytes_def)

lemma permissions_transport_roundtrip [simp]:
  "canonical_permissions p \<Longrightarrow> permissions_from_transport (permissions_to_transport p) = Inr p"
  by (simp add: canonical_permissions_def permissions_from_transport_def permissions_to_transport_def)

lemma transpose_permissions [simp]:
  "pred_option canonical_permissions p \<Longrightarrow>
     transpose_opt permissions_from_transport (map_option permissions_to_transport p) = Inr p"
  by (cases p) auto

lemma operation_to_transport_wf: "wf_operation L op \<Longrightarrow> wf_t_operation (operation_to_transport L op)"
  by (cases op) auto

lemma build_signer_nested: "wf_t_nested (build_signer s)"
  by (induction s) (auto simp: list_all_iff)

lemma canonical_wf:
  "wf_operation L (OpManageCertificate op) \<Longrightarrow> canonical_certificate_or_hash L op = mc_certificate_or_hash op"
  by (auto simp: canonical_certificate_or_hash_def split: certificate_or_hash.splits adjust_method.splits)

lemma intermediates_transport [simp]:
  "map_option (case_t_intermediates NoIntermediates Bundle)
     (map_option (case_intermediate_certificates TIntermediatesNull TIntermediatesBundle) x) = x"
  by (cases x) (auto split: intermediate_certificates.splits)

lemma manage_certificate_transport:
  assumes "wf_operation L (OpManageCertificate op)"
  shows "manage_certificate_from_transport (manage_certificate_to_transport L op) = Inr op"
  using assms canonical_wf[OF assms]
  by (auto simp: manage_certificate_to_transport_def manage_certificate_from_transport_def Let_def
      split: certificate_or_hash.splits)

context crypto_laws
begin

lemma parse_account_roundtrip [simp]: "wf_account L a \<Longrightarrow> parse_account L (account_bytes a) = Inr a"
  by (simp add: parse_account_def account_bytes_def acct.dec_enc)

lemma parse_account_wf: "parse_account L bs = Inr a \<Longrightarrow> wf_account L a"
  by (simp add: parse_account_def acct.dec_wf)

lemma transpose_accounts [simp]:
  "pred_option (wf_account L) x \<Longrightarrow> transpose_opt (parse_account L) (map_option account_bytes x) = Inr x"
  by (cases x) auto

lemma traverse_accounts [simp]:
  "list_all (wf_account L) xs \<Longrightarrow> traverse (parse_account L) (map account_bytes xs) = Inr xs"
  by (induction xs) auto

lemma modify_permissions_roundtrip:
  assumes "wf_operation L (OpModifyPermissions op)"
  shows "modify_permissions_from_transport L (modify_permissions_to_transport op) = Inr op"
  using assms
  by (auto simp: modify_permissions_from_transport_def modify_permissions_to_transport_def
      split: modify_permissions_principal.splits option.splits)

lemma create_identifier_roundtrip:
  assumes "wf_operation L (OpCreateIdentifier op)"
  shows "create_identifier_from_transport L (create_identifier_to_transport op) = Inr op"
  using assms
  by (auto simp: create_identifier_from_transport_def create_identifier_to_transport_def
      split: option.splits identifier_create_arguments.splits)

lemma operation_transport_roundtrip:
  "wf_operation L op \<Longrightarrow> operation_from_transport L (operation_to_transport L op) = Inr op"
  by (cases op)
    (simp_all add: modify_permissions_roundtrip create_identifier_roundtrip manage_certificate_transport)

lemma traverse_operations [simp]:
  "list_all (wf_operation L) ops \<Longrightarrow>
     traverse (operation_from_transport L) (map (operation_to_transport L) ops) = Inr ops"
  by (rule traverse_map_Ok) (auto simp: list_all_iff operation_transport_roundtrip)

lemma parse_signer_roundtrip:
  "wf_signer_at L depth s \<Longrightarrow> parse_signer L depth (build_signer s) = Inr s"
proof (induction s arbitrary: depth)
  case (MultisigSigner a ss)
  have "traverse (parse_signer L (Suc depth)) (map build_signer ss) = Inr ss"
    by (rule traverse_map_Ok) (use MultisigSigner in \<open>auto simp: list_all_iff\<close>)
  then show ?case using MultisigSigner.prems by simp
qed simp

lemma parse_multisig_eq:
  "parse_signer L 1 (TSignerMultisig a ss) = parse_multisig L a ss 1"
  by (simp add: parse_multisig_def MAX_PARSE_SIGNER_DEPTH_def)

lemma v1_parts_roundtrip:
  assumes "build_block_v1 L d sigs = Inr v" and "wf_block_data L d" and "bd_version d = V1" and "wf_signatures sigs"
  shows "block_v1_to_parts L v = Inr (d, sigs) \<and> wf_t_block (BlockV1 v)"
proof -
  obtain s where s: "bd_signer d = Single s" "wf_account L s"
    using assms by (auto simp: build_block_v1_def wf_block_data_def wf_signer_def split: signer.splits)
  have ops: "list_all wf_t_operation (map (operation_to_transport L) (bd_operations d))"
    using assms(2) operation_to_transport_wf by (auto simp: wf_block_data_def list_all_iff)
  show ?thesis
  proof (cases "\<exists>x. sigs = Some [x]")
    case True
    then show ?thesis using assms s ops
      by (auto simp: build_block_v1_def block_v1_to_parts_def wf_block_data_def wf_signatures_def
          intro!: block_data.equality split: option.splits)
  next
    case False
    then have "sigs = None" using assms s by (auto simp: build_block_v1_def split: option.splits list.splits)
    then show ?thesis using assms s ops
      by (auto simp: build_block_v1_def block_v1_to_parts_def wf_block_data_def
          intro!: block_data.equality split: option.splits)
  qed
qed

lemma v2_signer_roundtrip:
  assumes "wf_signer L s" and "wf_account L a"
  shows "(case (case s of Single x \<Rightarrow> if accounts_equal x a then TSignerEmpty else TSignerSingle (account_bytes x)
            | MultisigSigner address ss \<Rightarrow> build_signer (MultisigSigner address ss)) of
       TSignerEmpty \<Rightarrow> Ok (Single a)
     | TSignerSingle bs \<Rightarrow>
         and_then (parse_account L bs) (\<lambda>s. if accounts_equal s a then Err RedundantAccountField else Ok (Single s))
     | TSignerMultisig address ss \<Rightarrow> parse_multisig L address ss 1) = Inr s"
proof (cases s)
  case (MultisigSigner address ss)
  then have "parse_signer L 1 (build_signer s) = Inr s"
    using assms(1) by (intro parse_signer_roundtrip) (simp add: wf_signer_def)
  then show ?thesis using parse_multisig_eq[of "account_bytes address" "map build_signer ss"] MultisigSigner
    by simp
qed (use assms in \<open>auto simp: wf_signer_def\<close>)

lemma v2_parts_roundtrip:
  assumes "build_block_v2 L d sigs = Inr v" and "wf_block_data L d" and "bd_version d = V2" and "wf_signatures sigs"
  shows "block_v2_to_parts L v = Inr (d, sigs) \<and> wf_t_block (BlockV2 v)"
proof -
  have ops: "list_all wf_t_operation (map (operation_to_transport L) (bd_operations d))"
    using assms(2) operation_to_transport_wf by (auto simp: wf_block_data_def list_all_iff)
  have signer: "wf_t_signer (v2_signer v)"
    using assms(1) build_signer_nested
    by (auto simp: build_block_v2_def Let_def wf_t_signer_def list_all_iff split: signer.splits)
  obtain st where st: "(case sigs of None \<Rightarrow> Ok None | Some [] \<Rightarrow> Err SignatureRequired
      | Some [only] \<Rightarrow> Ok (Some (TSignatureSingle only)) | Some many \<Rightarrow> Ok (Some (TSignatureMultiple many))) =
      (Inr st :: block_error + _)"
    "v2_signatures v = st"
    using assms(1) by (auto simp: build_block_v2_def Let_def)
  have sigs: "(case st of None \<Rightarrow> Ok None
      | Some (TSignatureSingle bs) \<Rightarrow> and_then (signature_try_from bs) (\<lambda>sig. Ok (Some [sig]))
      | Some (TSignatureMultiple many) \<Rightarrow>
          if length many \<le> 1 then Err InvalidSignatureSequence
          else and_then (traverse signature_try_from many) (\<lambda>sigs. Ok (Some sigs))) = Inr sigs"
    using st(1) assms(4) by (auto simp: wf_signatures_def split: option.splits list.splits)
  show ?thesis
    using assms ops signer sigs st v2_signer_roundtrip[of "bd_signer d" "bd_account d"]
    by (auto simp: build_block_v2_def block_v2_to_parts_def wf_block_data_def Let_def
        intro!: block_data.equality)
qed

end

locale block_transport =
  crypto_laws L + backend: fallible_codec "backend_encode A" "backend_decode A" wf_t_block
  for L :: crypto_lib and A :: asn1_backend
begin

lemma decode_encode_block:
  assumes "encode_block L A d sigs = Inr bs" and "wf_block_data L d" and "wf_signatures sigs"
  shows "decode_block L A bs = Inr (d, sigs)"
proof (cases "bd_version d")
  case V1
  then obtain v where v: "build_block_v1 L d sigs = Inr v" "backend_encode A (BlockV1 v) = Inr bs"
    using assms(1) by (auto simp: encode_block_def)
  have "block_v1_to_parts L v = Inr (d, sigs)" "wf_t_block (BlockV1 v)"
    using v1_parts_roundtrip[OF v(1) assms(2) V1 assms(3)] by blast+
  then show ?thesis using backend.dec_enc[OF _ v(2)] by (simp add: decode_block_def)
next
  case V2
  then obtain v where v: "build_block_v2 L d sigs = Inr v" "backend_encode A (BlockV2 v) = Inr bs"
    using assms(1) by (auto simp: encode_block_def)
  have "block_v2_to_parts L v = Inr (d, sigs)" "wf_t_block (BlockV2 v)"
    using v2_parts_roundtrip[OF v(1) assms(2) V2 assms(3)] by blast+
  then show ?thesis using backend.dec_enc[OF _ v(2)] by (simp add: decode_block_def)
qed

end

lemma der_block_transport:
  assumes "crypto_laws L" and "der_laws D"
  shows "block_transport L (der_backend D)"
  unfolding der_backend_def
  by (intro block_transport.intro fallible_codec.intro assms)
    (simp add: der_laws.asn1_roundtrip[OF assms(2)])

interpretation reftr: block_transport ref_lib "der_backend ref_der"
  by (rule der_block_transport[OF ref.crypto_laws_axioms refder.der_laws_axioms])

end
