(* ===== verification/Block.thy ===== *)
theory Block
  imports Transport
begin

text \<open>
  Blocks (\<open>block/src/block.rs\<close>, \<open>block/src/builder.rs\<close>): validation of the block data, unsigned
  blocks, sealing with verified signatures, decoding from bytes, and the builder.  The library
  functions are those of \<open>block_lib\<close> and the codec is an \<open>asn1_backend\<close>.
\<close>

section \<open>Validation\<close>

definition verify_account :: "block_lib \<Rightarrow> generic_account \<Rightarrow> bytes \<Rightarrow> bytes \<Rightarrow> account_error + unit" where
  "verify_account B a message signature =
     (if is_identifier (to_keypair_type a) then Err NoIdentifierVerify
      else if signature_verify B a message signature then Ok () else Err InvalidConstruction)"

definition account_sign :: "block_lib \<Rightarrow> generic_account \<Rightarrow> bytes \<Rightarrow> account_error + bytes" where
  "account_sign B a message =
     (if is_identifier (to_keypair_type a) then Err NoIdentifierSign else signature_sign B a message)"

definition account_opening_hash :: "crypto_lib \<Rightarrow> block_data \<Rightarrow> bytes" where
  "account_opening_hash L data = to_opening_hash L (bd_account data)"

definition is_opening :: "crypto_lib \<Rightarrow> block_data \<Rightarrow> bool" where
  "is_opening L data \<longleftrightarrow> bd_previous data = account_opening_hash L data"

fun is_multisig_signer :: "signer \<Rightarrow> bool" where
  "is_multisig_signer (MultisigSigner _ _) = True"
| "is_multisig_signer _ = False"

lemma sum_list_filter_le: "sum_list (map f (filter P xs)) \<le> sum_list (map f xs)" for f :: "'a \<Rightarrow> nat"
  by (induction xs) auto

function validate_signer_queue ::
    "crypto_lib \<Rightarrow> validation_config option \<Rightarrow> (nat \<times> signer) list \<Rightarrow> block_error + unit" where
  "validate_signer_queue L config [] = Ok ()"
| "validate_signer_queue L config ((depth, current) # queue) =
     and_then (ok_or UnknownNetwork config) (\<lambda>cfg.
     and_then (validate_signer_depth cfg depth) (\<lambda>_.
     case current of
       Single _ \<Rightarrow> validate_signer_queue L config queue
     | MultisigSigner address signers \<Rightarrow>
         if to_keypair_type address \<noteq> MULTISIG then Err MalformedSigner
         else and_then (validate_signer_count cfg (length signers)) (\<lambda>_.
           if unique_account_count L (map signer_principal signers) \<noteq> length signers
           then Err MultisigSignerDuplicate
           else validate_signer_queue L config
             (queue @ map (\<lambda>inner. (depth + 1, inner)) (filter is_multisig_signer signers)))))"
  by pat_completeness auto

termination
  by (relation "measure (\<lambda>(L, config, queue). sum_list (map (signer_nodes \<circ> snd) queue))")
    (auto simp: comp_def less_Suc_eq_le intro: sum_list_filter_le split: option.splits)

definition validate_signer_field :: "crypto_lib \<Rightarrow> block_data \<Rightarrow> validation_config option \<Rightarrow> block_error + unit" where
  "validate_signer_field L data config =
     (if \<not> is_multisig_signer (bd_signer data) then Ok ()
      else validate_signer_queue L config [(1, bd_signer data)])"

definition operation_ctx :: "block_data \<Rightarrow> validation_config option \<Rightarrow> nat \<Rightarrow> operation_context" where
  "operation_ctx data config i =
     \<lparr>ctx_config = config, ctx_account = bd_account data, ctx_operations = bd_operations data,
      ctx_previous = bd_previous data, ctx_date_ms = bd_date data, ctx_index = i\<rparr>"

definition validate_operations :: "block_lib \<Rightarrow> block_data \<Rightarrow> validation_config option \<Rightarrow> block_error + unit" where
  "validate_operations B data config =
     for_each (\<lambda>(i, operation).
       if bd_purpose data = Fee \<and> operation_type operation \<noteq> 0 then Err (FeePurposeRequiresSend i)
       else operation_validate B (operation_ctx data config i) operation)
     (enumerate 0 (bd_operations data))"

definition validate_idempotent :: "block_data \<Rightarrow> validation_config option \<Rightarrow> block_error + unit" where
  "validate_idempotent data config =
     (case bd_idempotent data of
        None \<Rightarrow> Ok ()
      | Some idempotent \<Rightarrow>
          and_then (ok_or UnknownNetwork config) (\<lambda>cfg.
            if length idempotent > max_idempotent_bytes cfg
            then Err (IdempotentTooLong (length idempotent) (max_idempotent_bytes cfg)) else Ok ()))"

definition block_data_validate :: "block_lib \<Rightarrow> block_data \<Rightarrow> bytes \<Rightarrow> block_error + unit" where
  "block_data_validate B data hash =
     (if bd_previous data = hash then Err PreviousSelf
      else if bd_network data < 0 then Err NegativeNetwork
      else if (case bd_subnet data of Some subnet \<Rightarrow> subnet < 0 | None \<Rightarrow> False) then Err NegativeSubnet
      else if to_keypair_type (bd_account data) = MULTISIG then Err MultisigAccountForbidden
      else if bd_version data = V1 \<and> bd_purpose data \<noteq> Generic then Err V1PurposeInvalid
      else if bd_version data = V1 \<and> is_multisig_signer (bd_signer data) then Err V1SingleSignerOnly
      else
        let config = ok (config_for_network (bd_network data)) in
        and_then (validate_signer_field (crypto B) data config) (\<lambda>_.
        and_then (validate_operations B data config) (\<lambda>_.
        validate_idempotent data config)))"

section \<open>Unsigned and sealed blocks\<close>

record unsigned_block =
  ub_data :: block_data
  ub_bytes :: bytes
  ub_hash :: bytes

record block =
  blk_data :: block_data
  blk_signatures :: "bytes list"
  blk_bytes :: bytes
  blk_hash :: bytes

definition unsigned_block_try_from_data ::
    "block_lib \<Rightarrow> asn1_backend \<Rightarrow> block_data \<Rightarrow> block_error + unsigned_block" where
  "unsigned_block_try_from_data B A data =
     and_then (encode_block (crypto B) A data None) (\<lambda>bs.
     let hash = hash_default (crypto B) bs in
     and_then (block_data_validate B data hash) (\<lambda>_.
       Ok \<lparr>ub_data = data, ub_bytes = bs, ub_hash = hash\<rparr>))"

definition check_signatures ::
    "block_lib \<Rightarrow> bytes \<Rightarrow> generic_account list \<Rightarrow> bytes list \<Rightarrow> block_error + unit" where
  "check_signatures B hash signers signatures =
     for_each (\<lambda>(index, signer, signature).
       if is_ok (verify_account B signer hash signature) then Ok () else Err (InvalidSignature index hash))
     (enumerate 0 (zip signers signatures))"

definition block_try_from_parts ::
    "block_lib \<Rightarrow> asn1_backend \<Rightarrow> block_data \<Rightarrow> bytes list \<Rightarrow> block_error + block" where
  "block_try_from_parts B A data signatures =
     and_then (encode_block (crypto B) A data None) (\<lambda>unsigned_bytes.
     let hash = hash_default (crypto B) unsigned_bytes in
     and_then (block_data_validate B data hash) (\<lambda>_.
     if signatures = [] then Err SignatureRequired
     else if bd_version data = V1 \<and> length signatures \<noteq> 1 then Err V1SingleSignerOnly
     else
       let signers = required_signers (crypto B) (bd_signer data) in
       if length signatures \<noteq> length signers
       then Err (SignatureCountMismatch (length signers) (length signatures))
       else and_then (check_signatures B hash signers signatures) (\<lambda>_.
         and_then (encode_block (crypto B) A data (Some signatures)) (\<lambda>bs.
           Ok \<lparr>blk_data = data, blk_signatures = signatures, blk_bytes = bs, blk_hash = hash\<rparr>))))"

definition unsigned_block_seal ::
    "block_lib \<Rightarrow> asn1_backend \<Rightarrow> unsigned_block \<Rightarrow> bytes list \<Rightarrow> block_error + block" where
  "unsigned_block_seal B A u signatures = block_try_from_parts B A (ub_data u) signatures"

definition unsigned_block_sign :: "block_lib \<Rightarrow> asn1_backend \<Rightarrow> unsigned_block \<Rightarrow> block_error + block" where
  "unsigned_block_sign B A u =
     and_then
       (traverse (\<lambda>signer.
          and_then (map_err AccountErr (account_sign B signer (ub_hash u))) signature_try_from)
        (required_signers (crypto B) (bd_signer (ub_data u)))) (\<lambda>signatures.
     unsigned_block_seal B A u signatures)"

definition block_try_from_bytes :: "block_lib \<Rightarrow> asn1_backend \<Rightarrow> bytes \<Rightarrow> block_error + block" where
  "block_try_from_bytes B A bs =
     and_then (decode_block (crypto B) A bs) (\<lambda>(data, signatures).
     and_then (ok_or SignatureRequired signatures) (\<lambda>signatures.
     and_then (block_try_from_parts B A data signatures) (\<lambda>block.
       if blk_bytes block \<noteq> bs then Err RecalculatedBytesMismatch else Ok block)))"

definition unsigned_block_try_from_bytes ::
    "block_lib \<Rightarrow> asn1_backend \<Rightarrow> bytes \<Rightarrow> block_error + unsigned_block" where
  "unsigned_block_try_from_bytes B A bs =
     and_then (decode_block (crypto B) A bs) (\<lambda>(data, signatures).
     if signatures \<noteq> None then Err RecalculatedBytesMismatch
     else and_then (unsigned_block_try_from_data B A data) (\<lambda>unsigned.
       if ub_bytes unsigned \<noteq> bs then Err RecalculatedBytesMismatch else Ok unsigned))"

section \<open>The builder\<close>

datatype previous = PreviousHash bytes | PreviousOpening

record block_builder =
  bb_version :: "block_version option"
  bb_purpose :: "block_purpose option"
  bb_network :: "int option"
  bb_subnet :: "int option"
  bb_idempotent :: "bytes option"
  bb_date :: "int option"
  bb_account :: "generic_account option"
  bb_signer :: "signer option"
  bb_previous :: "previous option"
  bb_operations :: "operation list"

definition block_builder_default :: block_builder where
  "block_builder_default =
     \<lparr>bb_version = None, bb_purpose = None, bb_network = None, bb_subnet = None, bb_idempotent = None,
      bb_date = None, bb_account = None, bb_signer = None, bb_previous = None, bb_operations = []\<rparr>"

definition with_version :: "block_version \<Rightarrow> block_builder \<Rightarrow> block_builder" where
  "with_version v b = b\<lparr>bb_version := Some v\<rparr>"

definition with_purpose :: "block_purpose \<Rightarrow> block_builder \<Rightarrow> block_builder" where
  "with_purpose p b = b\<lparr>bb_purpose := Some p\<rparr>"

definition with_network :: "int \<Rightarrow> block_builder \<Rightarrow> block_builder" where
  "with_network n b = b\<lparr>bb_network := Some n\<rparr>"

definition with_subnet :: "int \<Rightarrow> block_builder \<Rightarrow> block_builder" where
  "with_subnet n b = b\<lparr>bb_subnet := Some n\<rparr>"

definition with_idempotent :: "bytes \<Rightarrow> block_builder \<Rightarrow> block_builder" where
  "with_idempotent key b = b\<lparr>bb_idempotent := Some key\<rparr>"

definition with_date :: "int \<Rightarrow> block_builder \<Rightarrow> block_builder" where
  "with_date d b = b\<lparr>bb_date := Some d\<rparr>"

definition with_account :: "generic_account \<Rightarrow> block_builder \<Rightarrow> block_builder" where
  "with_account a b = b\<lparr>bb_account := Some a\<rparr>"

definition with_signer :: "signer \<Rightarrow> block_builder \<Rightarrow> block_builder" where
  "with_signer s b = b\<lparr>bb_signer := Some s\<rparr>"

definition with_previous :: "bytes \<Rightarrow> block_builder \<Rightarrow> block_builder" where
  "with_previous h b = b\<lparr>bb_previous := Some (PreviousHash h)\<rparr>"

definition as_opening :: "block_builder \<Rightarrow> block_builder" where
  "as_opening b = b\<lparr>bb_previous := Some PreviousOpening\<rparr>"

definition with_operation :: "operation \<Rightarrow> block_builder \<Rightarrow> block_builder" where
  "with_operation op b = b\<lparr>bb_operations := bb_operations b @ [op]\<rparr>"

definition with_operations :: "operation list \<Rightarrow> block_builder \<Rightarrow> block_builder" where
  "with_operations ops b = b\<lparr>bb_operations := bb_operations b @ ops\<rparr>"

definition block_builder_build ::
    "block_lib \<Rightarrow> asn1_backend \<Rightarrow> int \<Rightarrow> block_builder \<Rightarrow> block_error + unsigned_block" where
  "block_builder_build B A now b =
     and_then (ok_or (MissingField FieldAccount) (bb_account b)) (\<lambda>account.
     and_then (ok_or (MissingField FieldNetwork) (bb_network b)) (\<lambda>network.
     and_then (ok_or (MissingField FieldPrevious) (bb_previous b)) (\<lambda>previous.
     let previous = (case previous of PreviousHash h \<Rightarrow> h | PreviousOpening \<Rightarrow> to_opening_hash (crypto B) account);
         signer = (case bb_signer b of Some s \<Rightarrow> s | None \<Rightarrow> Single account);
         date = (case bb_date b of Some d \<Rightarrow> d | None \<Rightarrow> now)
     in unsigned_block_try_from_data B A
       \<lparr>bd_version = (case bb_version b of Some v \<Rightarrow> v | None \<Rightarrow> V2),
        bd_purpose = (case bb_purpose b of Some p \<Rightarrow> p | None \<Rightarrow> Generic),
        bd_network = network, bd_subnet = bb_subnet b, bd_idempotent = bb_idempotent b, bd_date = date,
        bd_account = account, bd_signer = signer, bd_previous = previous, bd_operations = bb_operations b\<rparr>)))"

section \<open>Lemmas\<close>

lemma ball_enumerate: "(\<forall>p \<in> set (enumerate 0 xs). P p) \<longleftrightarrow> (\<forall>i < length xs. P (i, xs ! i))"
  by (auto simp: in_set_enumerate_eq)

lemma verify_account_ok [simp]:
  "verify_account B a m s = Inr u \<longleftrightarrow> \<not> is_identifier (to_keypair_type a) \<and> signature_verify B a m s"
  by (auto simp: verify_account_def)

definition signature_accepted :: "block_lib \<Rightarrow> bytes \<Rightarrow> generic_account \<Rightarrow> bytes \<Rightarrow> bool" where
  "signature_accepted B hash a s \<longleftrightarrow>
     \<not> is_identifier (to_keypair_type a) \<and> signature_verify B a hash s"

lemma check_signatures_ok:
  assumes "length signers = length sigs"
  shows "check_signatures B hash signers sigs = Inr u \<longleftrightarrow>
    list_all2 (signature_accepted B hash) signers sigs"
  using assms
  by (auto simp: check_signatures_def is_ok_iff signature_accepted_def ball_enumerate list_all2_conv_all_nth
      split: if_splits)

lemma block_try_from_parts_ok:
  "block_try_from_parts B A data sigs = Inr b \<longleftrightarrow>
     (\<exists>unsigned bs. encode_block (crypto B) A data None = Inr unsigned \<and>
        encode_block (crypto B) A data (Some sigs) = Inr bs \<and>
        block_data_validate B data (hash_default (crypto B) unsigned) = Inr () \<and> sigs \<noteq> [] \<and>
        (bd_version data = V1 \<longrightarrow> length sigs = 1) \<and>
        list_all2 (signature_accepted B (hash_default (crypto B) unsigned))
          (required_signers (crypto B) (bd_signer data)) sigs \<and>
        b = \<lparr>blk_data = data, blk_signatures = sigs, blk_bytes = bs,
             blk_hash = hash_default (crypto B) unsigned\<rparr>)"
proof -
  have *: "list_all2 P xs ys \<longleftrightarrow> length ys = length xs \<and> list_all2 P xs ys"
    for P and xs :: "'a list" and ys :: "'b list"
    by (auto dest: list_all2_lengthD)
  show ?thesis
    unfolding block_try_from_parts_def Let_def and_then_eq_Inr
    by (subst *) (auto simp: check_signatures_ok)
qed

section \<open>Signer trees\<close>

fun valid_signer_node :: "crypto_lib \<Rightarrow> validation_config \<Rightarrow> nat \<Rightarrow> signer \<Rightarrow> bool" where
  "valid_signer_node L cfg depth (Single _) \<longleftrightarrow> True"
| "valid_signer_node L cfg depth (MultisigSigner address ss) \<longleftrightarrow>
     depth \<le> max_signer_depth cfg \<and> to_keypair_type address = MULTISIG \<and>
     1 \<le> length ss \<and> length ss \<le> max_signer_count cfg \<and>
     unique_account_count L (map signer_principal ss) = length ss \<and>
     list_all (valid_signer_node L cfg (depth + 1)) ss"

lemma validate_signer_queue_ok:
  assumes "\<forall>(d, s) \<in> set queue. is_multisig_signer s"
  shows "validate_signer_queue L (Some cfg) queue = Inr () \<longleftrightarrow>
    (\<forall>(d, s) \<in> set queue. valid_signer_node L cfg d s)"
  using assms
proof (induction "sum_list (map (signer_nodes \<circ> snd) queue)" arbitrary: queue rule: less_induct)
  case less
  show ?case
  proof (cases queue)
    case (Cons q rest)
    obtain d address ss where q: "q = (d, MultisigSigner address ss)"
      using less.prems Cons by (cases q; cases "snd q") auto
    let ?next = "rest @ map (Pair (Suc d)) (filter is_multisig_signer ss)"
    have "sum_list (map (signer_nodes \<circ> snd) ?next) < sum_list (map (signer_nodes \<circ> snd) queue)"
      using sum_list_filter_le[of signer_nodes is_multisig_signer ss]
      by (simp add: Cons q comp_def less_Suc_eq_le)
    moreover have "\<forall>(d, s) \<in> set ?next. is_multisig_signer s" using less.prems by (auto simp: Cons)
    ultimately have IH: "validate_signer_queue L (Some cfg) ?next = Inr () \<longleftrightarrow>
        (\<forall>(d, s) \<in> set ?next. valid_signer_node L cfg d s)" by (rule less.hyps)
    have single: "\<not> is_multisig_signer s \<Longrightarrow> valid_signer_node L cfg k s" for s k by (cases s) auto
    have "(\<forall>(d, s) \<in> set ?next. valid_signer_node L cfg d s) \<longleftrightarrow>
        (\<forall>(d, s) \<in> set rest. valid_signer_node L cfg d s) \<and> (\<forall>s \<in> set ss. valid_signer_node L cfg (Suc d) s)"
      unfolding set_append ball_Un using single by auto
    then show ?thesis by (auto simp: Cons q IH list_all_iff)
  qed simp
qed

lemma validate_signer_field_ok:
  "validate_signer_field L data (Some cfg) = Inr () \<longleftrightarrow> valid_signer_node L cfg 1 (bd_signer data)"
proof (cases "bd_signer data")
  case (MultisigSigner a ss)
  then show ?thesis using validate_signer_queue_ok[of "[(1, bd_signer data)]"]
    by (simp add: validate_signer_field_def)
qed (simp add: validate_signer_field_def)

section \<open>Operations of a valid block\<close>

fun operation_amount :: "operation \<Rightarrow> int option" where
  "operation_amount (OpSend op) = Some (send_amount op)"
| "operation_amount (OpTokenAdminSupply op) = Some (tas_amount op)"
| "operation_amount (OpTokenAdminModifyBalance op) = Some (tamb_amount op)"
| "operation_amount (OpReceive op) = Some (recv_amount op)"
| "operation_amount _ = None"

lemma validate_operations_ok:
  "validate_operations B data config = Inr () \<longleftrightarrow>
     (\<forall>i < length (bd_operations data).
        (bd_purpose data = Fee \<longrightarrow> operation_type (bd_operations data ! i) = 0) \<and>
        operation_validate B (operation_ctx data config i) (bd_operations data ! i) = Inr ())"
  by (auto simp: validate_operations_def ball_enumerate split: if_splits)

lemma operation_amount_nonneg:
  assumes "operation_validate B ctx op = Inr ()" and "operation_amount op = Some v"
    and "\<forall>cfg. ctx_config ctx = Some cfg \<longrightarrow> numeric_cutoff_epoch_ms cfg \<le> ctx_date_ms ctx"
  shows "0 \<le> v"
  using assms
  by (cases op)
    (auto simp: send_validate_iff receive_validate_iff token_admin_supply_validate_def
      token_admin_modify_balance_validate_def split: if_splits)

lemma set_rep_count:
  assumes "operation_validate B ctx (OpSetRep op) = Inr ()"
  shows "length (iter_type the_set_rep ctx) \<le> 1"
  using assms by (auto simp: set_rep_validate_def split: if_splits)

lemma map_filter_nonempty: "List.map_filter f xs \<noteq> [] \<Longrightarrow> \<exists>i < length xs. f (xs ! i) \<noteq> None"
  by (induction xs) (auto simp: map_filter_simps split: option.splits intro: exI[of _ "Suc _"])

context block_transport
begin

lemma block_bytes_roundtrip:
  assumes "crypto B = L" and "block_try_from_parts B A d sigs = Inr b"
    and "wf_block_data L d" and "list_all (\<lambda>s. length s = 64) sigs"
  shows "block_try_from_bytes B A (blk_bytes b) = Inr b"
proof -
  have "encode_block L A d (Some sigs) = Inr (blk_bytes b)"
    using assms(1,2) by (auto simp: block_try_from_parts_ok)
  then have "decode_block L A (blk_bytes b) = Inr (d, Some sigs)"
    using assms(3,4) by (intro decode_encode_block) (simp_all add: wf_signatures_def)
  then show ?thesis using assms(1,2) by (simp add: block_try_from_bytes_def)
qed

lemma unsigned_bytes_roundtrip:
  assumes "crypto B = L" and "unsigned_block_try_from_data B A d = Inr u" and "wf_block_data L d"
  shows "unsigned_block_try_from_bytes B A (ub_bytes u) = Inr u"
proof -
  have "encode_block L A d None = Inr (ub_bytes u)"
    using assms(1,2) by (auto simp: unsigned_block_try_from_data_def Let_def)
  then have "decode_block L A (ub_bytes u) = Inr (d, None)"
    using assms(3) by (intro decode_encode_block) (simp_all add: wf_signatures_def)
  then show ?thesis using assms(1,2) by (simp add: unsigned_block_try_from_bytes_def)
qed

end

end
