(* ===== verification/BlockRef.thy ===== *)
theory BlockRef
  imports Block
begin

text \<open>
  A concrete instance of the block library over \<open>ref_lib\<close> and \<open>ref_der\<close>, and one block that it
  accepts.  The signature of a message is a fixed function of the key and the message; the block
  has one SET_REP operation.  The witnesses of the block properties are stated about it.
\<close>

section \<open>The instance\<close>

definition ref_sign :: "generic_account \<Rightarrow> bytes \<Rightarrow> bytes" where
  "ref_sign a m = take 64 (m @ as_public_key_bytes a @ replicate 64 0)"

definition ref_blib :: block_lib where
  "ref_blib = \<lparr>crypto = ref_lib, x509_parse = (\<lambda>d. if d = [] then None else Some d), x509_subject_key = id,
     x509_graph = (\<lambda>_ _. True), signature_verify = (\<lambda>a m s. s = ref_sign a m),
     signature_sign = (\<lambda>a m. Ok (ref_sign a m))\<rparr>"

definition ref_backend :: asn1_backend where
  "ref_backend = der_backend ref_der"

interpretation reftx: block_transport ref_lib ref_backend
  unfolding ref_backend_def by (rule reftr.block_transport_axioms)

lemma crypto_ref_blib [simp]: "crypto ref_blib = ref_lib"
  by (simp add: ref_blib_def)

section \<open>Short elements\<close>

lemma ref_tlv_encode_small:
  "length v < 128 \<Longrightarrow> ref_tag_octet t = Some b \<Longrightarrow> ref_tlv_encode t v = Some (b # word_of_nat (length v) # v)"
  by (simp add: ref_tlv_encode_def ref_len_encode_def)

lemma ref_tlv_encode_medium:
  "128 \<le> length v \<Longrightarrow> length v < 256 \<Longrightarrow> ref_tag_octet t = Some b \<Longrightarrow>
     ref_tlv_encode t v = Some (b # 0x81 # word_of_nat (length v) # v)"
  by (simp add: ref_tlv_encode_def ref_len_encode_def ref_len_size_def be_bytes_def)

lemma ref_encode_elements:
  "length v < 128 \<Longrightarrow> encode_octet ref_der v = Inr (4 # word_of_nat (length v) # v)"
  "length v < 128 \<Longrightarrow> wrap_sequence ref_der v = Inr (48 # word_of_nat (length v) # v)"
  "length v < 128 \<Longrightarrow> n < 31 \<Longrightarrow>
     wrap_context ref_der n v = Inr (word_of_nat (160 + n) # word_of_nat (length v) # v)"
  "encode_null ref_der = Inr [5, 0]"
  "128 \<le> length v \<Longrightarrow> length v < 256 \<Longrightarrow> wrap_sequence ref_der v = Inr (48 # 0x81 # word_of_nat (length v) # v)"
  "128 \<le> length v \<Longrightarrow> length v < 256 \<Longrightarrow> n < 31 \<Longrightarrow>
     wrap_context ref_der n v = Inr (word_of_nat (160 + n) # 0x81 # word_of_nat (length v) # v)"
  by (simp_all add: encode_octet_def wrap_sequence_def wrap_context_def encode_null_def der_encode_def
      ref_tlv_encode_small ref_tlv_encode_medium)

lemma ref_encode_small_int: "-128 \<le> n \<Longrightarrow> n < 128 \<Longrightarrow> encode_bigint ref_der n = Inr [2, 1, word_of_int n]"
  by (simp add: encode_bigint_def der_encode_def ref_tlv_encode_small ref_int_bytes.simps)

lemma ref_encode_time:
  "asn1_time_range t \<Longrightarrow>
     encode_time ref_der t = Inr (24 # word_of_nat (time_value_len t) # ref_time_format t)"
  using ref_time_laws[of t]
  by (simp add: encode_time_def der_encode_def ref_tlv_encode_small time_value_len_def)

section \<open>A block\<close>

definition ref_account :: generic_account where
  "ref_account = Ed25519 (replicate 32 1)"

definition ref_data :: block_data where
  "ref_data =
     \<lparr>bd_version = V2, bd_purpose = Generic, bd_network = 0, bd_subnet = None, bd_idempotent = None,
      bd_date = 0, bd_account = ref_account, bd_signer = Single ref_account, bd_previous = replicate 32 5,
      bd_operations = [OpSetRep \<lparr>set_rep_to = ref_account\<rparr>]\<rparr>"

lemma ref_data_sel [simp]:
  "bd_version ref_data = V2" "bd_purpose ref_data = Generic" "bd_network ref_data = 0"
  "bd_subnet ref_data = None" "bd_idempotent ref_data = None" "bd_date ref_data = 0"
  "bd_account ref_data = ref_account" "bd_signer ref_data = Single ref_account"
  "bd_previous ref_data = replicate 32 5" "bd_operations ref_data = [OpSetRep \<lparr>set_rep_to = ref_account\<rparr>]"
  by (simp_all add: ref_data_def)

lemma ref_account_wf [simp]: "wf_account ref_lib ref_account"
  by (simp add: ref_account_def wf_account_def)

lemma ref_account_type [simp]: "to_keypair_type ref_account = ED25519"
  by (simp add: ref_account_def)

lemma epoch_range [simp]: "asn1_time_range 0"
  by (simp add: asn1_time_range_def)

lemma ref_data_wf: "wf_block_data ref_lib ref_data"
  by (simp add: wf_block_data_def wf_signer_def)

lemma ref_time_epoch: "length (ref_time_format 0) = 15"
  using ref_time_laws[of 0] by (simp add: time_value_len_def)

lemmas ref_block_simps =
  encode_block_def ref_backend_def der_backend_def build_block_v2_def encode_v2_def
  ref_encode_small_int ref_encode_time account_bytes_def to_public_key_with_type_def public_key_with_type_def
  encode_operations_def encode_operation_def encode_set_rep_def V2_TAG_def

lemma ref_unsigned: "\<exists>bs. encode_block ref_lib ref_backend ref_data None = Inr (bs @ replicate 32 1)"
proof -
  have "as_public_key_bytes ref_account = replicate 32 1" by (simp add: ref_account_def)
  then show ?thesis
    by (simp add: ref_block_simps time_value_len_def) (simp add: ref_encode_elements ref_time_epoch)
qed

lemma ref_signed:
  assumes "length s = 64"
  shows "\<exists>bs. encode_block ref_lib ref_backend ref_data (Some [s]) = Inr bs \<and> length bs \<le> 400"
proof -
  have "as_public_key_bytes ref_account = replicate 32 1" by (simp add: ref_account_def)
  then show ?thesis using assms
    by (simp add: ref_block_simps time_value_len_def) (simp add: ref_encode_elements ref_time_epoch)
qed

lemma ref_data_valid_for:
  assumes "encode_block ref_lib ref_backend ref_data None = Inr bs" and "crypto B = ref_lib"
  shows "block_data_validate B ref_data (ref_hash bs) = Inr ()"
proof -
  obtain bs' where "bs = bs' @ replicate 32 1" using assms ref_unsigned by auto
  then have "ref_hash bs = replicate 32 1" by (simp add: ref_hash_def)
  moreover have "iter_type the_set_rep (operation_ctx ref_data config 0) = [\<lparr>set_rep_to = ref_account\<rparr>]" for config
    by (simp add: iter_type_def operation_ctx_def map_filter_simps)
  moreover have "(replicate 32 5 :: bytes) \<noteq> replicate 32 1" by simp
  ultimately show ?thesis using assms(2)
    by (simp add: block_data_validate_def validate_signer_field_def validate_operations_ok validate_idempotent_def
        set_rep_validate_def can_delegate_def is_identifier_iff operation_ctx_def)
qed

lemmas ref_data_valid = ref_data_valid_for[OF _ crypto_ref_blib]

lemma ref_required [simp]: "required_signers ref_lib (Single ref_account) = [ref_account]"
  by (simp add: required_signers_eq)

lemma ref_sign_length [simp]: "length (ref_sign a m) = 64"
  by (simp add: ref_sign_def)

lemma ref_unsigned_block_for: "crypto B = ref_lib \<Longrightarrow> \<exists>u. unsigned_block_try_from_data B ref_backend ref_data = Inr u"
  using ref_unsigned ref_data_valid_for by (auto simp: unsigned_block_try_from_data_def Let_def hash_default_def)

lemmas ref_unsigned_block = ref_unsigned_block_for[OF crypto_ref_blib]

lemma ref_block_parts:
  "\<exists>sigs b. list_all (\<lambda>s. length s = 64) sigs \<and> block_try_from_parts ref_blib ref_backend ref_data sigs = Inr b \<and>
     length (blk_hash b) = 32 \<and> length (blk_bytes b) \<le> 400"
proof -
  obtain bs where bs: "encode_block ref_lib ref_backend ref_data None = Inr bs" using ref_unsigned by blast
  let ?s = "ref_sign ref_account (ref_hash bs)"
  obtain bs' where "encode_block ref_lib ref_backend ref_data (Some [?s]) = Inr bs'" "length bs' \<le> 400"
    using ref_signed[of ?s] by auto
  moreover have "signature_accepted ref_blib (ref_hash bs) ref_account ?s"
    by (simp add: signature_accepted_def is_identifier_iff ref_blib_def)
  ultimately have "\<exists>b. block_try_from_parts ref_blib ref_backend ref_data [?s] = Inr b \<and>
      length (blk_hash b) = 32 \<and> length (blk_bytes b) \<le> 400"
    using bs ref_data_valid[OF bs] by (auto simp: block_try_from_parts_ok hash_default_def ref_hash_def)
  then show ?thesis by (intro exI[of _ "[?s]"]) simp
qed

lemma ref_block_small:
  "\<exists>b. block_try_from_bytes ref_blib ref_backend (blk_bytes b) = Inr b \<and>
     length (blk_hash b) = 32 \<and> length (blk_bytes b) \<le> 400"
  using ref_block_parts reftx.block_bytes_roundtrip[OF crypto_ref_blib _ ref_data_wf] by blast

lemma ref_block_bytes: "\<exists>bs b. block_try_from_bytes ref_blib ref_backend bs = Inr b"
  using ref_block_small by blast

end
