(* ===== verification/Asn1Props.thy ===== *)
theory Asn1Props
  imports BlockRef
begin

text \<open>Properties of the DER codec of blocks (\<open>asn1/src/block/codec/der_codec.rs\<close>).\<close>

text \<open>C3: decoding the DER encoding of a transport block gives the block back: both versions, all
  nine operations, nested multisig signers and every optional field, for any DER library with the
  documented laws.\<close>
theorem block_der_roundtrip:
  assumes "der_laws D" and "asn1_encode D b = Inr bs" and "wf_t_block b"
  shows "asn1_decode D bs = Inr b"
  by (rule der_laws.asn1_roundtrip[OF assms])

theorem block_der_roundtrip_witness:
  "\<exists>b bs. asn1_encode ref_der b = Inr bs \<and> asn1_decode ref_der bs = Inr b"
proof -
  obtain v bs where v: "build_block_v2 ref_lib ref_data None = Inr v" "asn1_encode ref_der (BlockV2 v) = Inr bs"
    using ref_unsigned by (auto simp: encode_block_def ref_backend_def der_backend_def)
  have "wf_t_block (BlockV2 v)"
    using ref.v2_parts_roundtrip[OF v(1) ref_data_wf] by (simp add: wf_signatures_def)
  from block_der_roundtrip[OF refder.der_laws_axioms v(2) this] v(2) show ?thesis by blast
qed

text \<open>The encoder of multisig signers, which keeps an explicit stack instead of recursing,
  computes the same octets and the same failures as the recursive definition of the encoding.\<close>
theorem encode_multisig_is_recursive:
  "encode_multisig_signer D address signers = encode_nested D (TSignerMultisig address signers)"
  by (rule encode_multisig_signer_eq)

text \<open>The stack-based decoder of multisig signers always ends: one step per octet of the content
  is enough, however the content nests.\<close>
theorem decode_multisig_terminates:
  assumes "der_laws D" and "open_frame D content = Inr f"
  shows "decode_multisig_steps (Suc (length content)) D [f] \<noteq> None"
proof -
  obtain a r cs where f: "f = (a, r, cs)" by (cases f) auto
  then have "der_laws.frames_size [f] < Suc (length content)"
    using der_laws.open_frame_size[OF assms(1)] assms(2) by (fastforce simp: der_laws.frames_size_def[OF assms(1)])
  then show ?thesis by (rule der_laws.decode_multisig_steps_enough[OF assms(1)])
qed

theorem decode_multisig_terminates_witness:
  "\<exists>content f. open_frame ref_der content = Inr f \<and> decode_multisig_steps (Suc (length content)) ref_der [f] \<noteq> None"
proof -
  obtain x y where xy: "encode_octet ref_der [1] = Inr x" "wrap_sequence ref_der [] = Inr y"
    by (simp add: ref_encode_elements)
  then have "open_frame ref_der (x @ y) = Inr ([1], [], [])" by (simp add: open_frame_def)
  from decode_multisig_terminates[OF refder.der_laws_axioms this] this show ?thesis by blast
qed

end
