(* ===== verification/BlockCanonical.thy ===== *)
theory BlockCanonical
  imports Block
begin

text \<open>
  What a receiver makes of a block.  A permission set is sent as its bit fields and a certificate to be
  removed as its hash, so the data decoded from a block is the \<^emph>\<open>canonical\<close> form of the sender's
  data: flags in bit order, and hashes in place of removed certificates.  Validation does not see the
  difference.
\<close>

section \<open>Canonical forms\<close>

definition canonical_form :: "permissions \<Rightarrow> permissions" where
  "canonical_form p =
     (case permissions_from_bigints (base_bits (perm_base p)) (external_bits (perm_external p)) of Inr q \<Rightarrow> q | Inl _ \<Rightarrow> p)"

fun canonical_operation :: "crypto_lib \<Rightarrow> operation \<Rightarrow> operation" where
  "canonical_operation L (OpSetInfo op) =
     OpSetInfo (op\<lparr>info_default_permission := map_option canonical_form (info_default_permission op)\<rparr>)"
| "canonical_operation L (OpModifyPermissions op) =
     OpModifyPermissions (op\<lparr>mp_permissions := map_option canonical_form (mp_permissions op)\<rparr>)"
| "canonical_operation L (OpManageCertificate op) =
     OpManageCertificate (op\<lparr>mc_certificate_or_hash := canonical_certificate_or_hash L op\<rparr>)"
| "canonical_operation L op = op"

definition canonical_data :: "crypto_lib \<Rightarrow> block_data \<Rightarrow> block_data" where
  "canonical_data L d = d\<lparr>bd_operations := map (canonical_operation L) (bd_operations d)\<rparr>"

definition canonical_block :: "crypto_lib \<Rightarrow> block \<Rightarrow> block" where
  "canonical_block L b = b\<lparr>blk_data := canonical_data L (blk_data b)\<rparr>"

text \<open>What the types and constructors of the code guarantee: keys of their length, hashes of 32 octets,
  UTF-8 text, permission sets made by a constructor, times that can be written, and certificates that
  are not mistaken for a hash.\<close>

definition constructed_permissions :: "permissions \<Rightarrow> bool" where
  "constructed_permissions p \<longleftrightarrow> (\<exists>base external. permissions_from_bigints base external = Inr p)"

fun constructed_operation :: "crypto_lib \<Rightarrow> operation \<Rightarrow> bool" where
  "constructed_operation L (OpSetInfo op) =
     (valid_utf8 (info_name op) \<and> valid_utf8 (info_description op) \<and> valid_utf8 (info_metadata op) \<and>
      pred_option constructed_permissions (info_default_permission op))"
| "constructed_operation L (OpModifyPermissions op) =
     (wf_principal L (mp_principal op) \<and> pred_option constructed_permissions (mp_permissions op) \<and>
      pred_option (wf_account L) (mp_target op))"
| "constructed_operation L (OpManageCertificate op) =
     (case mc_certificate_or_hash op of Certificate der \<Rightarrow> length der \<noteq> 32 | CertHash h \<Rightarrow> length h = 32)"
| "constructed_operation L op = wf_operation L op"

definition constructed_data :: "crypto_lib \<Rightarrow> block_data \<Rightarrow> bool" where
  "constructed_data L d \<longleftrightarrow>
     asn1_time_range (bd_date d) \<and> wf_account L (bd_account d) \<and> list_all (wf_account L) (signer_accounts (bd_signer d)) \<and>
     length (bd_previous d) = 32 \<and> list_all (constructed_operation L) (bd_operations d)"

section \<open>Permissions\<close>

lemma override_plain:
  "filter (\<lambda>f. f \<noteq> Access) (override_flags (raw_flags bits)) =
     (if Owner \<in> normal_flags bits then [Owner] else if Admin \<in> normal_flags bits then [Admin]
      else filter (\<lambda>f. f \<noteq> Access \<and> f \<in> normal_flags bits) ALL_BASE_FLAGS)"
proof -
  consider "Owner \<in> set (raw_flags bits)" | "Owner \<notin> set (raw_flags bits)" "Admin \<in> set (raw_flags bits)"
    | "Owner \<notin> set (raw_flags bits)" "Admin \<notin> set (raw_flags bits)" by blast
  then show ?thesis
  proof cases
    case 3
    then have "\<forall>f. f \<noteq> Access \<longrightarrow> (f \<in> normal_flags bits \<longleftrightarrow> bit bits (flag_offset f))"
      by (auto simp: normal_flags_def Let_def)
    then have "filter (\<lambda>f. f \<noteq> Access \<and> f \<in> normal_flags bits) ALL_BASE_FLAGS =
        filter (\<lambda>f. f \<noteq> Access) (raw_flags bits)"
      unfolding raw_flags_def filter_filter by (intro filter_cong) auto
    then show ?thesis using 3 by (auto simp: override_flags_def Let_def normal_flags_def)
  qed (auto simp: override_flags_def Let_def normal_flags_def)
qed

lemma access_group [simp]: "rule_group (rule_for Access) kind = GroupAny"
  by (cases kind) (simp_all add: mk_rule_def)

lemma group_without_access:
  "compute_flag_group_from kind g fs = compute_flag_group_from kind g (filter (\<lambda>f. f \<noteq> Access) fs)"
  by (induction kind g fs rule: compute_flag_group_from.induct) (auto simp: Let_def simp del: rule_for.simps)

lemma canonical_form_alike:
  assumes "constructed_permissions p"
  shows "canonical_permissions (canonical_form p)"
    and "base_bits (perm_base (canonical_form p)) = base_bits (perm_base p)"
    and "perm_external (canonical_form p) = perm_external p"
    and "set (base_flags (perm_base (canonical_form p))) = set (base_flags (perm_base p))"
    and "compute_flag_group kind (base_flags (perm_base (canonical_form p))) = compute_flag_group kind (base_flags (perm_base p))"
proof -
  obtain base external s where p: "base_set_try_from base = Inr s"
    "p = \<lparr>perm_base = s, perm_external = \<lparr>external_bits = external\<rparr>\<rparr>"
    using assms by (auto simp: constructed_permissions_def permissions_from_bigints_def)
  obtain s' where s': "base_set_try_from (base_bits s) = Inr s'" "base_bits s' = base_bits s"
    "set (base_flags s') = set (base_flags s)"
    using reparse_base_set[OF p(1)] by blast
  have c: "canonical_form p = \<lparr>perm_base = s', perm_external = \<lparr>external_bits = external\<rparr>\<rparr>"
    using s'(1) by (simp add: canonical_form_def p(2) permissions_from_bigints_def)
  show "canonical_permissions (canonical_form p)"
    using s' unfolding c by (simp add: canonical_permissions_def permissions_from_bigints_def)
  show "base_bits (perm_base (canonical_form p)) = base_bits (perm_base p)"
    "perm_external (canonical_form p) = perm_external p"
    "set (base_flags (perm_base (canonical_form p))) = set (base_flags (perm_base p))"
    using s' unfolding c unfolding p(2) by simp_all
  have flags: "base_set_try_from x = Inr y \<Longrightarrow> base_flags y = override_flags (raw_flags x)" for x y
    by (auto simp: base_set_try_from_def Let_def)
  have "filter (\<lambda>f. f \<noteq> Access) (base_flags s') = filter (\<lambda>f. f \<noteq> Access) (base_flags s)"
    unfolding flags[OF s'(1)] flags[OF p(1)] override_plain normal_flags_idem[OF p(1)] ..
  then show "compute_flag_group kind (base_flags (perm_base (canonical_form p))) = compute_flag_group kind (base_flags (perm_base p))"
    unfolding c unfolding p(2) compute_flag_group_def permissions.simps by (metis group_without_access)
qed

lemma base_set_alike:
  assumes "constructed_permissions p"
  shows "has_flags (perm_base (canonical_form p)) fs = has_flags (perm_base p) fs"
    and "is_valid_for_default (perm_base (canonical_form p)) = is_valid_for_default (perm_base p)"
    and "check_account_matches_group (perm_base (canonical_form p)) kind a = check_account_matches_group (perm_base p) kind a"
    and "permissions_has (canonical_form p) fs offs = permissions_has p fs offs"
    and "permissions_validate (canonical_form p) n = permissions_validate p n"
    and "can_use_delegation (canonical_form p) = can_use_delegation p"
    and "permissions_to_transport (canonical_form p) = permissions_to_transport p"
proof -
  note a = canonical_form_alike[OF assms]
  show h: "has_flags (perm_base (canonical_form p)) fs = has_flags (perm_base p) fs" for fs
    by (simp add: has_flags_def a(4))
  show "is_valid_for_default (perm_base (canonical_form p)) = is_valid_for_default (perm_base p)"
    by (simp add: is_valid_for_default_def list_all_iff a(4))
  show "check_account_matches_group (perm_base (canonical_form p)) kind a = check_account_matches_group (perm_base p) kind a"
    by (simp add: check_account_matches_group_def a(5))
  show p: "permissions_has (canonical_form p) fs offs = permissions_has p fs offs" for fs offs
    by (simp add: permissions_has_def h a(3))
  show "permissions_validate (canonical_form p) n = permissions_validate p n"
    by (simp add: permissions_validate_def a(3))
  show "can_use_delegation (canonical_form p) = can_use_delegation p" by (simp add: can_use_delegation_def p)
  show "permissions_to_transport (canonical_form p) = permissions_to_transport p"
    by (simp add: permissions_to_transport_def a(2,3))
qed

section \<open>Validation of the canonical form\<close>

lemma canonical_the [simp]: "the_set_rep (canonical_operation L op) = the_set_rep op"
  by (cases op) simp_all

lemma canonical_type [simp]: "operation_type (canonical_operation L op) = operation_type op"
  by (cases op) simp_all

lemma canonical_set_reps: "List.map_filter the_set_rep (map (canonical_operation L) ops) = List.map_filter the_set_rep ops"
  by (simp add: List.map_filter_def filter_map o_def)

lemma canonical_hash [simp]:
  "certificate_or_hash_hash L (canonical_certificate_or_hash L op) = certificate_or_hash_hash L (mc_certificate_or_hash op)"
  by (auto simp: canonical_certificate_or_hash_def split: adjust_method.splits certificate_or_hash.splits)

lemma canonical_certificates:
  "map (\<lambda>m. certificate_or_hash_hash L (mc_certificate_or_hash m)) (List.map_filter the_manage_certificate (map (canonical_operation L) ops)) =
   map (\<lambda>m. certificate_or_hash_hash L (mc_certificate_or_hash m)) (List.map_filter the_manage_certificate ops)"
proof (induction ops)
  case (Cons op ops)
  then show ?case by (cases op) (simp_all add: List.map_filter_simps)
qed (simp add: List.map_filter_simps)

lemma target_key_alike [simp]:
  "target_key L (ctx\<lparr>ctx_operations := ops\<rparr>) m = target_key L ctx m"
  "target_key L ctx (m\<lparr>mp_permissions := x\<rparr>) = target_key L ctx m"
  by (simp_all add: target_key_def split: option.split)

lemma duplicate_step_alike:
  "reject_duplicate_step L (ctx\<lparr>ctx_operations := ops\<rparr>) found m = reject_duplicate_step L ctx found m"
  "reject_duplicate_step L ctx found (m\<lparr>mp_permissions := x\<rparr>) = reject_duplicate_step L ctx found m"
  unfolding reject_duplicate_step_def Let_def by simp_all

lemma duplicate_step_context:
  "reject_duplicate_step L (ctx\<lparr>ctx_operations := ops\<rparr>) = reject_duplicate_step L ctx"
  by (intro ext) (rule duplicate_step_alike)

lemma canonical_duplicates:
  "try_fold (reject_duplicate_step L ctx) found (List.map_filter the_modify_permissions (map (canonical_operation L) ops)) =
   try_fold (reject_duplicate_step L ctx) found (List.map_filter the_modify_permissions ops)"
proof (induction ops arbitrary: found)
  case (Cons op ops)
  then show ?case by (cases op) (simp_all add: List.map_filter_simps duplicate_step_alike)
qed (simp add: List.map_filter_simps)

lemma context_alike:
  "ctx_account (ctx\<lparr>ctx_operations := ops\<rparr>) = ctx_account ctx" "ctx_previous (ctx\<lparr>ctx_operations := ops\<rparr>) = ctx_previous ctx"
  "ctx_index (ctx\<lparr>ctx_operations := ops\<rparr>) = ctx_index ctx"
  "validate_multisig_arguments L (ctx\<lparr>ctx_operations := ops\<rparr>) = validate_multisig_arguments L ctx"
  by (simp_all add: fun_eq_iff validate_multisig_arguments_def ctx_get_config_def)

lemma canonical_validate:
  assumes "constructed_operation (crypto B) op"
  shows "operation_validate B (ctx\<lparr>ctx_operations := map (canonical_operation (crypto B)) (ctx_operations ctx)\<rparr>)
      (canonical_operation (crypto B) op) = operation_validate B ctx op"
proof -
  let ?ctx = "ctx\<lparr>ctx_operations := map (canonical_operation (crypto B)) (ctx_operations ctx)\<rparr>"
  show ?thesis
  proof (cases op)
    case (OpSetInfo i)
    then show ?thesis using assms
      by (cases "info_default_permission i")
        (simp_all add: set_info_validate_def ctx_get_config_def base_set_alike canonical_form_alike(3))
  next
    case (OpModifyPermissions m)
    have "reject_duplicate_set (crypto B) ?ctx = reject_duplicate_set (crypto B) ctx"
      by (simp add: reject_duplicate_set_def iter_type_def canonical_duplicates duplicate_step_context)
    moreover have "validate_payload ?ctx (m\<lparr>mp_permissions := x\<rparr>) (canonical_form p) = validate_payload ctx m p"
      if "mp_permissions m = Some p" for p x
    proof -
      have c: "constructed_permissions p" using assms OpModifyPermissions that by simp
      show ?thesis unfolding validate_payload_def ctx_get_config_def base_set_alike[OF c] by simp
    qed
    ultimately show ?thesis
      by (cases "mp_permissions m") (simp_all add: OpModifyPermissions modify_permissions_validate_def)
  next
    case (OpManageCertificate m)
    have "manage_certificate_add_check B ?ctx (m\<lparr>mc_certificate_or_hash := canonical_certificate_or_hash (crypto B) m\<rparr>) =
        manage_certificate_add_check B ctx m" if "mc_method m = Add"
      using that by (simp add: manage_certificate_add_check_def canonical_certificate_or_hash_def split: certificate_or_hash.split)
    then show ?thesis
      by (simp add: OpManageCertificate manage_certificate_validate_def iter_type_def canonical_certificates)
  next
    case (OpCreateIdentifier x)
    have "create_identifier_validate L ?ctx x = create_identifier_validate L ctx x" for L
      unfolding create_identifier_validate_def context_alike ..
    then show ?thesis by (simp add: OpCreateIdentifier)
  qed (simp_all add: send_validate_def set_rep_validate_def token_admin_supply_validate_def
      token_admin_modify_balance_validate_def receive_validate_def
      iter_type_def canonical_set_reps ctx_get_config_def guard_token_amount_def validate_numeric_def reject_token_account_def
      account_is_token_def Let_def cong: option.case_cong)
qed

lemma canonical_operation_wf:
  assumes "constructed_operation L op" and "crypto_laws L"
  shows "wf_operation L (canonical_operation L op)"
proof (cases op)
  case (OpManageCertificate m)
  then show ?thesis using assms
    by (auto simp: canonical_certificate_or_hash_def certificate_hash_def hash_default_def crypto_laws.sha3_length
        split: adjust_method.splits certificate_or_hash.splits)
qed (use assms canonical_form_alike(1) in \<open>auto simp: pred_option_def\<close>)

lemma canonical_to_transport:
  assumes "constructed_operation L op"
  shows "operation_to_transport L (canonical_operation L op) = operation_to_transport L op"
proof (cases op)
  case (OpSetInfo i)
  then show ?thesis using assms by (cases "info_default_permission i") (simp_all add: base_set_alike)
next
  case (OpModifyPermissions m)
  then show ?thesis using assms
    by (cases "mp_permissions m") (simp_all add: base_set_alike modify_permissions_to_transport_def)
next
  case (OpManageCertificate m)
  then show ?thesis
    by (auto simp: manage_certificate_to_transport_def canonical_certificate_or_hash_def
        split: adjust_method.splits certificate_or_hash.splits)
qed simp_all

section \<open>Blocks\<close>

lemma canonical_data_sel [simp]:
  "bd_version (canonical_data L d) = bd_version d" "bd_purpose (canonical_data L d) = bd_purpose d"
  "bd_network (canonical_data L d) = bd_network d" "bd_subnet (canonical_data L d) = bd_subnet d"
  "bd_idempotent (canonical_data L d) = bd_idempotent d" "bd_date (canonical_data L d) = bd_date d"
  "bd_account (canonical_data L d) = bd_account d" "bd_signer (canonical_data L d) = bd_signer d"
  "bd_previous (canonical_data L d) = bd_previous d"
  "bd_operations (canonical_data L d) = map (canonical_operation L) (bd_operations d)"
  by (simp_all add: canonical_data_def)

lemma canonical_encode:
  assumes "list_all (constructed_operation L) (bd_operations d)"
  shows "encode_block L A (canonical_data L d) sigs = encode_block L A d sigs"
proof -
  have m: "map (operation_to_transport L) (map (canonical_operation L) (bd_operations d)) =
      map (operation_to_transport L) (bd_operations d)"
    using assms canonical_to_transport by (simp add: list_all_iff)
  show ?thesis unfolding encode_block_def build_block_v1_def build_block_v2_def canonical_data_sel m ..
qed

lemma canonical_operations_validate:
  assumes "list_all (constructed_operation (crypto B)) (bd_operations d)"
  shows "validate_operations B (canonical_data (crypto B) d) cfg = Inr () \<longleftrightarrow> validate_operations B d cfg = Inr ()"
proof -
  have "operation_ctx (canonical_data (crypto B) d) cfg i =
      (operation_ctx d cfg i)\<lparr>ctx_operations := map (canonical_operation (crypto B)) (ctx_operations (operation_ctx d cfg i))\<rparr>" for i
    by (simp add: operation_ctx_def)
  moreover have "constructed_operation (crypto B) (bd_operations d ! i)" if "i < length (bd_operations d)" for i
    using assms that by (simp add: list_all_length)
  ultimately show ?thesis unfolding validate_operations_ok by (simp add: canonical_validate)
qed

lemma canonical_data_validate:
  assumes "list_all (constructed_operation (crypto B)) (bd_operations d)" and "block_data_validate B d h = Inr ()"
  shows "block_data_validate B (canonical_data (crypto B) d) h = Inr ()"
proof -
  have s: "validate_signer_field L (canonical_data (crypto B) d) cfg = validate_signer_field L d cfg" for L cfg
    by (simp add: validate_signer_field_def)
  have i: "validate_idempotent (canonical_data (crypto B) d) cfg = validate_idempotent d cfg" for cfg
    by (simp add: validate_idempotent_def)
  show ?thesis using assms(2)
    by (auto simp: block_data_validate_def Let_def s i canonical_operations_validate[OF assms(1)] split: if_splits)
qed

lemma canonical_parts:
  assumes "list_all (constructed_operation (crypto B)) (bd_operations d)" and "block_try_from_parts B A d sigs = Inr b"
  shows "block_try_from_parts B A (canonical_data (crypto B) d) sigs = Inr (canonical_block (crypto B) b)"
  using assms(2) canonical_data_validate[OF assms(1)]
  by (auto simp: block_try_from_parts_ok canonical_encode[OF assms(1)] canonical_block_def)

context crypto_laws
begin

lemma nodes_wf:
  assumes "valid_signer_node L default_config depth s" and "list_all (wf_account L) (signer_accounts s)"
    and "\<forall>a \<in> set (leaves s). supports_crypto (to_keypair_type a)"
  shows "wf_signer_at L depth s"
  using assms
proof (induction s arbitrary: depth)
  case (MultisigSigner a ss)
  then show ?case by (auto simp: list_all_iff MAX_PARSE_SIGNER_DEPTH_def default_config_def)
qed simp

lemma signers_wf:
  assumes "validate_signer_field L d (ok (config_for_network n)) = Inr ()"
    and "list_all (wf_account L) (signer_accounts (bd_signer d))"
    and "list_all (\<lambda>a. \<not> is_identifier (to_keypair_type a)) (required_signers L (bd_signer d))"
  shows "wf_signer L (bd_signer d)"
proof (cases "bd_signer d")
  case (MultisigSigner a ss)
  have "ok (config_for_network n) \<noteq> None"
    using assms(1) by (auto simp: validate_signer_field_def MultisigSigner)
  then have e: "ok (config_for_network n) = Some default_config"
    by (cases "config_for_network n") auto
  have v: "valid_signer_node L default_config 1 (bd_signer d)"
    using assms(1) unfolding e validate_signer_field_ok .
  have "set (required_signers L (bd_signer d)) = set (leaves (bd_signer d))"
    using required_signers_distinct_set assms(2) leaves_subset[of "bd_signer d"] by (auto simp: list_all_iff)
  moreover have "supports_crypto k" if "\<not> is_identifier k" for k using that by (cases k) (simp_all add: is_identifier_iff)
  ultimately have "\<forall>a \<in> set (leaves (bd_signer d)). supports_crypto (to_keypair_type a)"
    using assms(3) by (simp add: list_all_iff)
  then show ?thesis using nodes_wf[OF v assms(2)] by (simp add: wf_signer_def MultisigSigner)
qed (use assms(2) in \<open>simp add: wf_signer_def\<close>)

end

context block_transport
begin

lemma canonical_bytes_accepted:
  assumes "crypto B = L" and "block_try_from_parts B A d sigs = Inr b"
    and "constructed_data L d" and "list_all (\<lambda>s. length s = 64) sigs"
  shows "block_try_from_bytes B A (blk_bytes b) = Inr (canonical_block L b)"
proof -
  have ops: "list_all (constructed_operation L) (bd_operations d)" using assms(3) by (simp add: constructed_data_def)
  have c: "block_try_from_parts B A (canonical_data L d) sigs = Inr (canonical_block L b)"
    using canonical_parts[of B d A sigs b] ops assms(1,2) by simp
  obtain h where v: "block_data_validate B d h = Inr ()"
    "list_all2 (signature_accepted B h) (required_signers L (bd_signer d)) sigs"
    using assms(1,2) by (auto simp: block_try_from_parts_ok)
  have "list_all (\<lambda>a. \<not> is_identifier (to_keypair_type a)) (required_signers L (bd_signer d))"
    using v(2) by (auto simp: list_all2_conv_all_nth list_all_length signature_accepted_def)
  moreover have "validate_signer_field L d (ok (config_for_network (bd_network d))) = Inr ()" "bd_version d = V1 \<longrightarrow> bd_purpose d = Generic"
    using v(1) assms(1) by (auto simp: block_data_validate_def Let_def split: if_splits)
  ultimately have "wf_block_data L (canonical_data L d)"
    using assms(3) signers_wf canonical_operation_wf[OF _ crypto_laws_axioms]
    by (auto simp: wf_block_data_def constructed_data_def list_all_iff wf_signer_def)
  from block_bytes_roundtrip[OF assms(1) c this assms(4)] show ?thesis by (simp add: canonical_block_def)
qed

end

end
