(* ===== verification/BlockProps.thy ===== *)
theory BlockProps
  imports BlockRef BlockCanonical
begin

text \<open>
  Properties of blocks: what an accepted block guarantees, the round trips through DER, the
  signer field, the operations of a valid block, signing and the builder.
\<close>

section \<open>Accepted blocks\<close>

text \<open>C1: octets accepted as a block are the canonical encoding of its data and signatures; its hash
  is the hash of the unsigned encoding, the data is valid for that hash, and there is one signature
  per required signer, in order, by an account that can sign, verified over that hash.  No law of a
  third-party library is needed.\<close>
theorem accepted_block_is_genuine:
  assumes "block_try_from_bytes B A bs = Inr b"
  shows "blk_bytes b = bs \<and>
    encode_block (crypto B) A (blk_data b) (Some (blk_signatures b)) = Inr bs \<and>
    (\<exists>unsigned. encode_block (crypto B) A (blk_data b) None = Inr unsigned \<and>
       blk_hash b = hash_default (crypto B) unsigned) \<and>
    block_data_validate B (blk_data b) (blk_hash b) = Inr () \<and>
    blk_signatures b \<noteq> [] \<and>
    list_all2 (\<lambda>a s. \<not> is_identifier (to_keypair_type a) \<and> signature_verify B a (blk_hash b) s)
      (required_signers (crypto B) (bd_signer (blk_data b))) (blk_signatures b)"
  using assms
  by (auto simp: block_try_from_bytes_def block_try_from_parts_ok signature_accepted_def[abs_def] split: if_splits)

theorem accepted_block_is_genuine_witness:
  "\<exists>bs b. block_try_from_bytes ref_blib ref_backend bs = Inr b \<and> blk_bytes b = bs \<and>
     block_data_validate ref_blib (blk_data b) (blk_hash b) = Inr ()"
  using ref_block_bytes accepted_block_is_genuine[of ref_blib ref_backend] by blast

text \<open>A block sealed from parts is accepted from its own octets, as the same block, over the DER
  codec of any DER and cryptographic library with the documented laws.\<close>
theorem block_bytes_accepted:
  assumes "crypto_laws (crypto B)" and "der_laws D"
    and "block_try_from_parts B (der_backend D) data sigs = Inr b"
    and "wf_block_data (crypto B) data" and "list_all (\<lambda>s. length s = 64) sigs"
  shows "block_try_from_bytes B (der_backend D) (blk_bytes b) = Inr b"
  by (rule block_transport.block_bytes_roundtrip[OF der_block_transport[OF assms(1,2)] refl assms(3-5)])

theorem block_bytes_accepted_witness:
  "\<exists>sigs b. block_try_from_parts ref_blib (der_backend ref_der) ref_data sigs = Inr b \<and>
     block_try_from_bytes ref_blib (der_backend ref_der) (blk_bytes b) = Inr b"
  using ref_block_parts block_bytes_accepted[of ref_blib ref_der ref_data]
    ref.crypto_laws_axioms refder.der_laws_axioms ref_data_wf
  unfolding ref_backend_def crypto_ref_blib by blast

text \<open>An unsigned block is likewise accepted from its own octets.\<close>
theorem unsigned_bytes_accepted:
  assumes "crypto_laws (crypto B)" and "der_laws D"
    and "unsigned_block_try_from_data B (der_backend D) data = Inr u" and "wf_block_data (crypto B) data"
  shows "unsigned_block_try_from_bytes B (der_backend D) (ub_bytes u) = Inr u"
  by (rule block_transport.unsigned_bytes_roundtrip[OF der_block_transport[OF assms(1,2)] refl assms(3,4)])

theorem unsigned_bytes_accepted_witness:
  "\<exists>u. unsigned_block_try_from_bytes ref_blib (der_backend ref_der) (ub_bytes u) = Inr u"
  using ref_unsigned_block unsigned_bytes_accepted[of ref_blib ref_der ref_data]
    ref.crypto_laws_axioms refder.der_laws_axioms ref_data_wf
  unfolding ref_backend_def crypto_ref_blib by blast

text \<open>Decoding inverts encoding on block data and signatures, so two well-formed blocks with the
  same octets are the same block.\<close>
theorem block_encoding_injective:
  assumes "crypto_laws L" and "der_laws D"
    and "encode_block L (der_backend D) d s = Inr bs" and "encode_block L (der_backend D) d' s' = Inr bs"
    and "wf_block_data L d" and "wf_block_data L d'" and "wf_signatures s" and "wf_signatures s'"
  shows "d = d' \<and> s = s'"
  using block_transport.decode_encode_block[OF der_block_transport[OF assms(1,2)] assms(3,5,7)]
    block_transport.decode_encode_block[OF der_block_transport[OF assms(1,2)] assms(4,6,8)] by simp

theorem block_encoding_injective_witness:
  "\<exists>bs. encode_block ref_lib (der_backend ref_der) ref_data None = Inr bs \<and>
     (\<forall>s'. encode_block ref_lib (der_backend ref_der) ref_data s' = Inr bs \<and> wf_signatures s' \<longrightarrow> s' = None)"
proof -
  obtain bs where "encode_block ref_lib (der_backend ref_der) ref_data None = Inr bs"
    using ref_unsigned unfolding ref_backend_def by blast
  then show ?thesis
    using block_encoding_injective[OF ref.crypto_laws_axioms refder.der_laws_axioms, of ref_data None]
      ref_data_wf by (auto simp: wf_signatures_def)
qed

section \<open>The signer field\<close>

text \<open>The breadth-first validation of the signer field accepts exactly the trees in which every
  multisig node is a MULTISIG account within the depth limit, with between one and the maximum
  number of signers, all distinct.\<close>
theorem validate_signer_field_spec:
  "(validate_signer_field L data (Some cfg) = Inr ()) = valid_signer_node L cfg 1 (bd_signer data)"
  by (rule validate_signer_field_ok)

section \<open>The data of a valid block\<close>

lemma block_data_validate_ok:
  "block_data_validate B d h = Inr () \<longleftrightarrow>
     bd_previous d \<noteq> h \<and> 0 \<le> bd_network d \<and> (\<forall>n. bd_subnet d = Some n \<longrightarrow> 0 \<le> n) \<and>
     to_keypair_type (bd_account d) \<noteq> MULTISIG \<and>
     (bd_version d = V1 \<longrightarrow> bd_purpose d = Generic \<and> \<not> is_multisig_signer (bd_signer d)) \<and>
     validate_signer_field (crypto B) d (ok (config_for_network (bd_network d))) = Inr () \<and>
     validate_operations B d (ok (config_for_network (bd_network d))) = Inr () \<and>
     validate_idempotent d (ok (config_for_network (bd_network d))) = Inr ()"
  by (auto simp: block_data_validate_def Let_def split: if_splits option.splits)

lemma valid_operation:
  assumes "validate_operations B d cfg = Inr ()" and "op \<in> set (bd_operations d)"
  obtains i where "operation_validate B (operation_ctx d cfg i) op = Inr ()"
    and "bd_purpose d = Fee \<longrightarrow> operation_type op = 0"
  using assms unfolding validate_operations_ok by (metis in_set_conv_nth)

lemma map_filter_in: "List.map_filter f xs \<noteq> [] \<Longrightarrow> \<exists>x \<in> set xs. f x \<noteq> None"
  using map_filter_nonempty[of f xs] by (meson nth_mem)

lemma the_set_rep_Some: "the_set_rep op \<noteq> None \<Longrightarrow> \<exists>r. op = OpSetRep r"
  by (cases op) auto

lemma the_manage_certificate_Some: "the_manage_certificate op \<noteq> None \<Longrightarrow> \<exists>r. op = OpManageCertificate r"
  by (cases op) auto

lemma iter_type_operation_ctx [simp]:
  "iter_type f (operation_ctx d cfg i) = List.map_filter f (bd_operations d)"
  by (simp add: iter_type_def operation_ctx_def)

lemma valid_block_set_rep:
  assumes "validate_operations B d cfg = Inr ()"
  shows "length (List.map_filter the_set_rep (bd_operations d)) \<le> 1"
proof (cases "List.map_filter the_set_rep (bd_operations d) = []")
  case False
  then obtain r where "OpSetRep r \<in> set (bd_operations d)"
    using map_filter_in the_set_rep_Some by blast
  then obtain i where "operation_validate B (operation_ctx d cfg i) (OpSetRep r) = Inr ()"
    by (rule valid_operation[OF assms])
  from set_rep_count[OF this] show ?thesis by simp
qed simp

lemma valid_block_certificates:
  assumes "validate_operations B d cfg = Inr ()"
  shows "distinct (map (\<lambda>m. certificate_or_hash_hash (crypto B) (mc_certificate_or_hash m))
    (List.map_filter the_manage_certificate (bd_operations d)))"
proof (cases "List.map_filter the_manage_certificate (bd_operations d) = []")
  case False
  then obtain r where "OpManageCertificate r \<in> set (bd_operations d)"
    using map_filter_in the_manage_certificate_Some by blast
  then obtain i where "operation_validate B (operation_ctx d cfg i) (OpManageCertificate r) = Inr ()"
    by (rule valid_operation[OF assms])
  then have "manage_certificate_validate B (operation_ctx d cfg i) r = Inr ()" by simp
  from manage_certificate_distinct[OF this] show ?thesis by simp
qed simp

lemma valid_block_amounts:
  assumes "validate_operations B d (Some cfg) = Inr ()" and "numeric_cutoff_epoch_ms cfg \<le> bd_date d"
    and "op \<in> set (bd_operations d)" and "operation_amount op = Some v"
  shows "0 \<le> v"
proof -
  obtain i where "operation_validate B (operation_ctx d (Some cfg) i) op = Inr ()"
    using valid_operation[OF assms(1,3)] by blast
  then show ?thesis using assms(2,4) by (rule_tac operation_amount_nonneg) (auto simp: operation_ctx_def)
qed

text \<open>C33: in a block whose data is valid for its hash, the previous hash is another one, network and
  subnet are not negative, the account is no multisig account, a version 1 block is generic with a
  single signer, a fee block holds SEND operations only, there is at most one SET_REP, and no two
  MANAGE_CERTIFICATE operations concern the same certificate.\<close>
theorem valid_block_structure:
  assumes "block_data_validate B d h = Inr ()"
  shows "bd_previous d \<noteq> h \<and> 0 \<le> bd_network d \<and> pred_option (\<lambda>n. 0 \<le> n) (bd_subnet d) \<and>
    to_keypair_type (bd_account d) \<noteq> MULTISIG \<and>
    (if bd_version d = V1 then bd_purpose d = Generic \<and> \<not> is_multisig_signer (bd_signer d) else True) \<and>
    (if bd_purpose d = Fee then list_all (\<lambda>op. operation_type op = 0) (bd_operations d) else True) \<and>
    length (List.map_filter the_set_rep (bd_operations d)) \<le> 1 \<and>
    distinct (map (\<lambda>m. certificate_or_hash_hash (crypto B) (mc_certificate_or_hash m))
      (List.map_filter the_manage_certificate (bd_operations d)))"
proof -
  let ?cfg = "ok (config_for_network (bd_network d))"
  have ops: "validate_operations B d ?cfg = Inr ()" using assms unfolding block_data_validate_ok by blast
  have "list_all (\<lambda>op. operation_type op = 0) (bd_operations d)" if "bd_purpose d = Fee"
    unfolding list_all_iff using valid_operation[OF ops] that by blast
  then show ?thesis
    using assms valid_block_set_rep[OF ops] valid_block_certificates[OF ops]
    unfolding block_data_validate_ok by (auto simp: pred_option_def)
qed

theorem valid_block_structure_witness:
  "\<exists>h. block_data_validate ref_blib ref_data h = Inr () \<and> bd_previous ref_data \<noteq> h \<and>
     length (List.map_filter the_set_rep (bd_operations ref_data)) \<le> 1"
proof -
  obtain h where h: "block_data_validate ref_blib ref_data h = Inr ()"
    using ref_unsigned ref_data_valid by blast
  from valid_block_structure[OF h] h show ?thesis by blast
qed

text \<open>On a known network, a block dated at or after the cutoff moves, mints, burns and adjusts
  non-negative amounts only.\<close>
theorem valid_block_amounts_nonneg:
  assumes "block_data_validate B d h = Inr ()"
    and "config_for_network (bd_network d) = Inr cfg" and "numeric_cutoff_epoch_ms cfg \<le> bd_date d"
  shows "list_all (\<lambda>op. pred_option (\<lambda>v. 0 \<le> v) (operation_amount op)) (bd_operations d)"
proof -
  have "validate_operations B d (Some cfg) = Inr ()"
    using assms(1,2) unfolding block_data_validate_ok by simp
  then show ?thesis
    unfolding list_all_iff pred_option_def using valid_block_amounts[OF _ assms(3)]
    by (metis option.set_cases)
qed

definition ref_send_data :: block_data where
  "ref_send_data = ref_data\<lparr>bd_network := int (network_id MainNet), bd_date := 1763683200000,
     bd_operations := [OpSend \<lparr>send_to = ref_account, send_amount = 5, send_token = Token (replicate 32 3),
       send_external = None\<rparr>]\<rparr>"

lemma ref_send_data_valid: "block_data_validate ref_blib ref_send_data [] = Inr ()"
  by (simp add: block_data_validate_ok ref_send_data_def validate_signer_field_def validate_idempotent_def
      validate_operations_ok send_validate_iff operation_ctx_def default_config_def)
    (rule exI[of _ MainNet], simp)

theorem valid_block_amounts_nonneg_witness:
  "list_all (\<lambda>op. pred_option (\<lambda>v. 0 \<le> v) (operation_amount op)) (bd_operations ref_send_data) \<and>
     bd_operations ref_send_data \<noteq> []"
  using valid_block_amounts_nonneg[OF ref_send_data_valid, of default_config]
  using config_for_network_ok[of "int (network_id MainNet)" default_config]
  by (simp add: ref_send_data_def default_config_def)

section \<open>Signing\<close>

lemma leaves_nonempty: "valid_signer_node L cfg d s \<Longrightarrow> leaves s \<noteq> []"
proof (induction s arbitrary: d)
  case (MultisigSigner a ss)
  then obtain s where "s \<in> set ss" "valid_signer_node L cfg (d + 1) s"
    by (cases ss) auto
  then show ?case using MultisigSigner.IH by (auto intro!: bexI[of _ s])
qed simp

lemma dedup_by_eq_Nil: "dedup_by f {} xs = [] \<longleftrightarrow> xs = []"
  by (cases xs) simp_all

lemma valid_required_nonempty:
  assumes "validate_signer_field L d cfg = Inr ()"
  shows "required_signers L (bd_signer d) \<noteq> []"
proof (cases cfg)
  case None
  then show ?thesis using assms
    by (cases "bd_signer d") (auto simp: validate_signer_field_def required_signers_eq)
next
  case (Some c)
  then show ?thesis using assms leaves_nonempty
    by (auto simp: validate_signer_field_ok required_signers_eq dedup_by_eq_Nil)
qed

lemma single_required: "\<not> is_multisig_signer s \<Longrightarrow> length (required_signers L s) = 1"
  by (cases s) (simp_all add: required_signers_eq)

lemma traverse_sign:
  assumes "list_all (\<lambda>a. \<not> is_identifier (to_keypair_type a)) as"
    and "\<And>a. a \<in> set as \<Longrightarrow> \<exists>s. signature_sign B a m = Inr s \<and> length s = 64 \<and> signature_verify B a m s"
  shows "\<exists>sigs. traverse (\<lambda>a. and_then (map_err AccountErr (account_sign B a m)) signature_try_from) as = Inr sigs \<and>
    list_all2 (signature_accepted B m) as sigs"
  using assms
proof (induction as)
  case (Cons a as)
  obtain s where "signature_sign B a m = Inr s" "length s = 64" "signature_verify B a m s"
    using Cons.prems(2)[of a] by auto
  moreover obtain sigs where "traverse (\<lambda>a. and_then (map_err AccountErr (account_sign B a m)) signature_try_from) as = Inr sigs"
    "list_all2 (signature_accepted B m) as sigs"
    using Cons by auto
  moreover have "account_sign B a m = signature_sign B a m" "\<not> is_identifier (to_keypair_type a)"
    using Cons.prems(1) by (simp_all add: account_sign_def)
  ultimately show ?case by (simp add: signature_accepted_def[of _ _ a])
qed simp

lemma traverse_sign_length:
  "traverse (\<lambda>a. and_then (f a) signature_try_from) as = Inr sigs \<Longrightarrow> list_all (\<lambda>s. length s = 64) sigs"
  by (induction as arbitrary: sigs) auto

text \<open>Signing never fails on a valid block: if every required signer holds a key that signs the
  block hash and the block can be encoded with its signatures, the builder's result is sealed
  with one verified signature per required signer, under the hash of the unsigned block.\<close>
theorem unsigned_block_sign_succeeds:
  assumes "unsigned_block_try_from_data B A data = Inr u"
    and "list_all (\<lambda>a. \<not> is_identifier (to_keypair_type a)) (required_signers (crypto B) (bd_signer data))"
    and "\<And>a. a \<in> set (required_signers (crypto B) (bd_signer data)) \<Longrightarrow>
      \<exists>s. signature_sign B a (ub_hash u) = Inr s \<and> length s = 64 \<and> signature_verify B a (ub_hash u) s"
    and "\<And>sigs. length sigs = length (required_signers (crypto B) (bd_signer data)) \<Longrightarrow>
      list_all (\<lambda>s. length s = 64) sigs \<Longrightarrow> \<exists>bs. encode_block (crypto B) A data (Some sigs) = Inr bs"
  shows "\<exists>b. unsigned_block_sign B A u = Inr b \<and> blk_data b = data \<and> blk_hash b = ub_hash u \<and>
    length (blk_signatures b) = length (required_signers (crypto B) (bd_signer data))"
proof -
  let ?rs = "required_signers (crypto B) (bd_signer data)"
  have u: "encode_block (crypto B) A data None = Inr (ub_bytes u)" "ub_data u = data"
    "ub_hash u = hash_default (crypto B) (ub_bytes u)" "block_data_validate B data (ub_hash u) = Inr ()"
    using assms(1) by (auto simp: unsigned_block_try_from_data_def Let_def)
  obtain sigs where sigs: "traverse (\<lambda>a. and_then (map_err AccountErr (account_sign B a (ub_hash u))) signature_try_from) ?rs = Inr sigs"
    "list_all2 (signature_accepted B (ub_hash u)) ?rs sigs"
    using traverse_sign[OF assms(2,3)] by blast
  then have len: "length sigs = length ?rs" by (simp add: list_all2_lengthD)
  then obtain bs where bs: "encode_block (crypto B) A data (Some sigs) = Inr bs"
    using assms(4) traverse_sign_length[OF sigs(1)] by blast
  have "?rs \<noteq> []" and V1: "bd_version data = V1 \<longrightarrow> length sigs = 1"
    using u(4) valid_required_nonempty single_required len unfolding block_data_validate_ok by auto
  then have "sigs \<noteq> []" using len by auto
  then have "\<exists>b. block_try_from_parts B A data sigs = Inr b \<and> blk_data b = data \<and> blk_hash b = ub_hash u \<and> blk_signatures b = sigs"
    using u bs sigs(2) V1 by (auto simp: block_try_from_parts_ok)
  then show ?thesis using len sigs(1) u(2) by (auto simp: unsigned_block_sign_def unsigned_block_seal_def)
qed

theorem unsigned_block_sign_succeeds_witness:
  "\<exists>u b. unsigned_block_try_from_data ref_blib ref_backend ref_data = Inr u \<and>
     unsigned_block_sign ref_blib ref_backend u = Inr b \<and> blk_hash b = ub_hash u"
proof -
  obtain u where u: "unsigned_block_try_from_data ref_blib ref_backend ref_data = Inr u"
    using ref_unsigned_block by blast
  have "\<exists>bs. encode_block (crypto ref_blib) ref_backend ref_data (Some sigs) = Inr bs"
    if "length sigs = length (required_signers (crypto ref_blib) (bd_signer ref_data))"
      "list_all (\<lambda>s. length s = 64) sigs" for sigs
    using that ref_signed by (auto simp: length_Suc_conv) blast
  then have "\<exists>b. unsigned_block_sign ref_blib ref_backend u = Inr b \<and> blk_hash b = ub_hash u"
    using unsigned_block_sign_succeeds[OF u] by (auto simp: is_identifier_iff ref_blib_def)
  then show ?thesis using u by blast
qed

lemma ref_signable:
  "\<exists>u b. unsigned_block_try_from_data ref_blib ref_backend ref_data = Inr u \<and>
     unsigned_block_sign ref_blib ref_backend u = Inr b"
proof -
  obtain u where u: "unsigned_block_try_from_data ref_blib ref_backend ref_data = Inr u"
    using ref_unsigned_block by blast
  let ?s = "ref_sign ref_account (ub_hash u)"
  have "encode_block ref_lib ref_backend ref_data None = Inr (ub_bytes u)"
    "ub_hash u = ref_hash (ub_bytes u)" "ub_data u = ref_data"
    using u by (auto simp: unsigned_block_try_from_data_def Let_def hash_default_def)
  moreover obtain bs where "encode_block ref_lib ref_backend ref_data (Some [?s]) = Inr bs"
    using ref_signed[of ?s] by auto
  ultimately have "is_ok (block_try_from_parts ref_blib ref_backend ref_data [?s])"
    using ref_data_valid by (auto simp: is_ok_iff block_try_from_parts_ok hash_default_def
        signature_accepted_def is_identifier_iff ref_blib_def)
  then have "\<exists>b. unsigned_block_sign ref_blib ref_backend u = Inr b"
    using \<open>ub_data u = ref_data\<close>
    by (simp add: is_ok_iff unsigned_block_sign_def unsigned_block_seal_def account_sign_def is_identifier_iff)
      (simp add: ref_blib_def)
  then show ?thesis using u by blast
qed

section \<open>The builder\<close>

text \<open>C2: a block built, signed by all its required signers and sent as octets is accepted by the
  receiver, with the same octets, hash and signatures.  Its data is the canonical form of the data
  that was signed, which differs from it only in the order of the flags in permission sets and in
  naming certificates to be removed by their hash.  The block carries the account and operations
  given to the builder, and an opening block has the opening hash of its account as previous hash.
  \<open>constructed_data\<close> states what the constructors of the parts guarantee: keys and hashes of their
  length, UTF-8 text, permission sets made by any of their constructors, a date that DER can write,
  and certificates that are not 32 octets long.\<close>
theorem built_block_is_accepted:
  assumes "crypto_laws (crypto B)" and "der_laws D"
    and "block_builder_build B (der_backend D) now bld = Inr u" and "constructed_data (crypto B) (ub_data u)"
    and "unsigned_block_sign B (der_backend D) u = Inr b"
  shows "block_try_from_bytes B (der_backend D) (blk_bytes b) =
      Inr (b\<lparr>blk_data := canonical_data (crypto B) (blk_data b)\<rparr>) \<and> blk_hash b = ub_hash u \<and>
    Some (bd_account (blk_data b)) = bb_account bld \<and> bd_operations (blk_data b) = bb_operations bld \<and>
    (if bb_previous bld = Some PreviousOpening then is_opening (crypto B) (blk_data b) else True)"
proof -
  obtain sigs where sigs: "block_try_from_parts B (der_backend D) (ub_data u) sigs = Inr b"
    and "traverse (\<lambda>a. and_then (map_err AccountErr (account_sign B a (ub_hash u))) signature_try_from)
      (required_signers (crypto B) (bd_signer (ub_data u))) = Inr sigs"
    using assms(5) by (auto simp: unsigned_block_sign_def unsigned_block_seal_def)
  then have "list_all (\<lambda>s. length s = 64) sigs"
    by (rule_tac traverse_sign_length)
  from block_transport.canonical_bytes_accepted[OF der_block_transport[OF assms(1,2)] refl sigs assms(4) this]
  have "block_try_from_bytes B (der_backend D) (blk_bytes b) = Inr (b\<lparr>blk_data := canonical_data (crypto B) (blk_data b)\<rparr>)"
    by (simp add: canonical_block_def)
  moreover have "blk_data b = ub_data u" "blk_hash b = ub_hash u"
    using sigs assms(3)
    by (auto simp: block_try_from_parts_ok block_builder_build_def unsigned_block_try_from_data_def Let_def)
  ultimately show ?thesis using assms(3)
    by (auto simp: block_builder_build_def unsigned_block_try_from_data_def Let_def is_opening_def account_opening_hash_def)
qed

theorem built_block_is_accepted_witness:
  "\<exists>u b. block_builder_build ref_blib (der_backend ref_der) 0
       (with_operation (OpSetRep \<lparr>set_rep_to = ref_account\<rparr>) (with_previous (replicate 32 5)
         (with_network 0 (with_account ref_account block_builder_default)))) = Inr u \<and>
     unsigned_block_sign ref_blib (der_backend ref_der) u = Inr b \<and>
     block_try_from_bytes ref_blib (der_backend ref_der) (blk_bytes b) = Inr b"
proof -
  let ?b = "with_operation (OpSetRep \<lparr>set_rep_to = ref_account\<rparr>) (with_previous (replicate 32 5)
    (with_network 0 (with_account ref_account block_builder_default)))"
  have build: "block_builder_build ref_blib ref_backend 0 ?b = unsigned_block_try_from_data ref_blib ref_backend ref_data"
    by (simp add: block_builder_build_def with_operation_def with_previous_def with_network_def with_account_def
        block_builder_default_def ref_data_def)
  obtain u b where u: "unsigned_block_try_from_data ref_blib ref_backend ref_data = Inr u"
    and b: "unsigned_block_sign ref_blib ref_backend u = Inr b"
    using ref_signable by blast
  have data: "ub_data u = ref_data" using u by (auto simp: unsigned_block_try_from_data_def Let_def)
  then have c: "constructed_data (crypto ref_blib) (ub_data u)"
    using ref_data_wf by (simp add: constructed_data_def wf_block_data_def wf_signer_def ref_data_def)
  have d: "blk_data b = ref_data"
    using b data by (auto simp: unsigned_block_sign_def unsigned_block_seal_def block_try_from_parts_ok)
  have "canonical_data ref_lib ref_data = ref_data" by (simp add: canonical_data_def ref_data_def)
  then have e: "b\<lparr>blk_data := canonical_data ref_lib (blk_data b)\<rparr> = b" using d by (cases b) simp
  show ?thesis
    using c built_block_is_accepted[of ref_blib ref_der 0 ?b u b] u b build
      ref.crypto_laws_axioms refder.der_laws_axioms
    unfolding ref_backend_def crypto_ref_blib by (auto simp: e)
qed

end
