(* ===== verification/Asn1Vote.thy ===== *)
theory Asn1Vote
  imports DerLib
begin

text \<open>
  The DER codec of vote certificates and vote staples (\<open>asn1/src/vote/types.rs\<close>, \<open>oids.rs\<close>,
  \<open>codec.rs\<close>, \<open>codec/der_codec.rs\<close>).  It uses the element layer of \<open>DerLib\<close>; the object
  identifiers of the \<open>der\<close> crate (dotted text to content octets and back) are the parameter
  \<open>oid_lib\<close>.
\<close>

section \<open>Types\<close>

type_synonym vote_oid = "nat list"

record oid_lib =
  oid_to_der :: "vote_oid \<Rightarrow> bytes option"
  oid_of_der :: "bytes \<Rightarrow> vote_oid option"

definition OID_COMMON_NAME :: vote_oid where "OID_COMMON_NAME = [2, 5, 4, 3]"
definition OID_SERIAL_NUMBER :: vote_oid where "OID_SERIAL_NUMBER = [2, 5, 4, 5]"
definition OID_EC_PUBLIC_KEY :: vote_oid where "OID_EC_PUBLIC_KEY = [1, 2, 840, 10045, 2, 1]"
definition OID_SECP256K1 :: vote_oid where "OID_SECP256K1 = [1, 3, 132, 0, 10]"
definition OID_SECP256R1 :: vote_oid where "OID_SECP256R1 = [1, 2, 840, 10045, 3, 1, 7]"
definition OID_ED25519 :: vote_oid where "OID_ED25519 = [1, 3, 101, 112]"
definition OID_SHA3_256 :: vote_oid where "OID_SHA3_256 = [2, 16, 840, 1, 101, 3, 4, 2, 8]"
definition OID_ECDSA_WITH_SHA3_256 :: vote_oid where
  "OID_ECDSA_WITH_SHA3_256 = [2, 16, 840, 1, 101, 3, 4, 3, 10]"
definition OID_HASH_DATA :: vote_oid where "OID_HASH_DATA = [2, 16, 840, 1, 101, 3, 3, 1, 3]"
definition OID_FEES :: vote_oid where "OID_FEES = [1, 3, 6, 1, 4, 1, 62675, 0, 1, 0]"

lemmas oid_defs = OID_COMMON_NAME_def OID_SERIAL_NUMBER_def OID_EC_PUBLIC_KEY_def OID_SECP256K1_def
  OID_SECP256R1_def OID_ED25519_def OID_SHA3_256_def OID_ECDSA_WITH_SHA3_256_def OID_HASH_DATA_def OID_FEES_def

datatype vote_signature_algo = AlgoEd25519 | AlgoEcdsaWithSha3_256

fun vote_signature_algo_oid :: "vote_signature_algo \<Rightarrow> vote_oid" where
  "vote_signature_algo_oid AlgoEd25519 = OID_ED25519"
| "vote_signature_algo_oid AlgoEcdsaWithSha3_256 = OID_ECDSA_WITH_SHA3_256"

definition vote_signature_algo_try_from :: "vote_oid \<Rightarrow> asn1_error + vote_signature_algo" where
  "vote_signature_algo_try_from oid =
     (if oid = OID_ED25519 then Ok AlgoEd25519
      else if oid = OID_ECDSA_WITH_SHA3_256 then Ok AlgoEcdsaWithSha3_256
      else Err InvalidOid)"

datatype ecdsa_curve = CurveSecp256k1 | CurveSecp256r1

datatype vote_subject_public_key = SpkEd25519 bytes | SpkEcdsa ecdsa_curve bytes

record attribute_type_and_value =
  atv_oid :: vote_oid
  atv_value :: rust_string

type_synonym distinguished_name = "attribute_type_and_value list list"

record t_validity =
  not_before :: int
  not_after :: int

record extension =
  ext_oid :: vote_oid
  ext_critical :: bool
  ext_value :: bytes

record tbs_certificate =
  tbs_serial :: int
  tbs_algo :: vote_signature_algo
  tbs_issuer :: distinguished_name
  tbs_validity :: t_validity
  tbs_subject :: distinguished_name
  tbs_spk :: vote_subject_public_key
  tbs_extensions :: "extension list"

record vote_certificate =
  vc_tbs :: tbs_certificate
  vc_algo :: vote_signature_algo
  vc_signature :: bytes

record decoded_vote_certificate =
  dvc_tbs :: tbs_certificate
  dvc_tbs_bytes :: bytes
  dvc_algo :: vote_signature_algo
  dvc_signature :: bytes

record vote_staple_bundle =
  vsb_blocks :: "bytes list"
  vsb_votes :: "bytes list"

record hash_data =
  hd_algorithm :: vote_oid
  hd_hashes :: "bytes list"

record fee_entry =
  fe_quote :: bool
  fe_amount :: int
  fe_pay_to :: "bytes option"
  fe_token :: "bytes option"

datatype t_fees = TFeesSingle fee_entry | TFeesMultiple "fee_entry list"

section \<open>Elements of the vote codec\<close>

definition or_slot :: "vote_decode_slot \<Rightarrow> 'e + 'a \<Rightarrow> asn1_error + 'a" where
  "or_slot s = map_err (\<lambda>_. VoteDecode s)"

definition or_staple_slot :: "vote_staple_decode_slot \<Rightarrow> 'e + 'a \<Rightarrow> asn1_error + 'a" where
  "or_staple_slot s = map_err (\<lambda>_. VoteStapleDecode s)"

definition vote_finished :: "bytes \<Rightarrow> asn1_error + unit" where
  "vote_finished r = ensure (r = []) DerError"

definition encode_oid :: "der_lib \<Rightarrow> oid_lib \<Rightarrow> vote_oid \<Rightarrow> asn1_error + bytes" where
  "encode_oid D Q oid = and_then (ok_or InvalidOid (oid_to_der Q oid)) (\<lambda>v. der_encode D TagOid v)"

definition decode_oid :: "der_lib \<Rightarrow> oid_lib \<Rightarrow> vote_oid reader" where
  "decode_oid D Q r =
     and_then (read_tagged D TagOid r) (\<lambda>(v, rest).
     and_then (ok_or DerError (oid_of_der Q v)) (\<lambda>oid. Ok (oid, rest)))"

definition wrap_set :: "der_lib \<Rightarrow> bytes \<Rightarrow> asn1_error + bytes" where
  "wrap_set D content = der_encode D TagSet content"

definition wrap_implicit_octet_context :: "der_lib \<Rightarrow> nat \<Rightarrow> bytes \<Rightarrow> asn1_error + bytes" where
  "wrap_implicit_octet_context D n content = der_encode D (TagContext False n) content"

definition read_set :: "der_lib \<Rightarrow> bytes reader" where
  "read_set D = read_tagged D TagSet"

definition read_explicit_context :: "der_lib \<Rightarrow> nat \<Rightarrow> bytes reader" where
  "read_explicit_context D n = read_tagged D (TagContext True n)"

definition read_implicit_octet_context :: "der_lib \<Rightarrow> nat \<Rightarrow> bytes reader" where
  "read_implicit_octet_context D n = read_tagged D (TagContext False n)"

definition vote_peek_tag :: "der_lib \<Rightarrow> bytes \<Rightarrow> asn1_error + tag" where
  "vote_peek_tag D r = and_then (der_any D r) (\<lambda>((t, _), _). Ok t)"

definition capture_tlv :: "der_lib \<Rightarrow> tag \<Rightarrow> bytes reader" where
  "capture_tlv D expected r =
     and_then (der_any D r) (\<lambda>((t, v), rest).
       if t \<noteq> expected then Err DerError else and_then (der_encode D t v) (\<lambda>bs. Ok (bs, rest)))"

definition encode_bit_string :: "der_lib \<Rightarrow> bytes \<Rightarrow> asn1_error + bytes" where
  "encode_bit_string D bs = der_encode D TagBitString (0 # bs)"

definition read_bit_string :: "der_lib \<Rightarrow> bytes reader" where
  "read_bit_string D r =
     and_then (read_tagged D TagBitString r) (\<lambda>(v, rest).
       case v of unused # bs \<Rightarrow> if unused = 0 then Ok (bs, rest) else Err DerError | [] \<Rightarrow> Err DerError)"

section \<open>Certificates\<close>

definition VERSION_TAG :: nat where "VERSION_TAG = 0"
definition EXTENSIONS_TAG :: nat where "EXTENSIONS_TAG = 3"
definition HASH_DATA_OUTER_TAG :: nat where "HASH_DATA_OUTER_TAG = 0"
definition FEE_OUTER_TAG :: nat where "FEE_OUTER_TAG = 0"
definition FEE_MULTIPLE_TAG :: nat where "FEE_MULTIPLE_TAG = 0"
definition FEE_PAY_TO_TAG :: nat where "FEE_PAY_TO_TAG = 0"
definition FEE_TOKEN_TAG :: nat where "FEE_TOKEN_TAG = 1"
definition VOTE_VERSION_VALUE :: int where "VOTE_VERSION_VALUE = 2"

definition encode_signature_algo :: "der_lib \<Rightarrow> oid_lib \<Rightarrow> vote_signature_algo \<Rightarrow> asn1_error + bytes" where
  "encode_signature_algo D Q algo =
     and_then (encode_oid D Q (vote_signature_algo_oid algo)) (wrap_sequence D)"

definition decode_signature_algo :: "der_lib \<Rightarrow> oid_lib \<Rightarrow> vote_signature_algo reader" where
  "decode_signature_algo D Q r =
     and_then (read_sequence D r) (\<lambda>(inner, rest).
     and_then (decode_oid D Q inner) (\<lambda>(oid, inner).
     and_then (vote_finished inner) (\<lambda>_.
     and_then (vote_signature_algo_try_from oid) (\<lambda>algo. Ok (algo, rest)))))"

definition encode_attribute :: "der_lib \<Rightarrow> oid_lib \<Rightarrow> attribute_type_and_value \<Rightarrow> asn1_error + bytes" where
  "encode_attribute D Q attr =
     and_then (write_all [encode_oid D Q (atv_oid attr), encode_utf8 D (atv_value attr)]) (wrap_sequence D)"

definition encode_rdn :: "der_lib \<Rightarrow> oid_lib \<Rightarrow> attribute_type_and_value list \<Rightarrow> asn1_error + bytes" where
  "encode_rdn D Q rdn = and_then (write_all (map (encode_attribute D Q) rdn)) (wrap_set D)"

definition encode_distinguished_name :: "der_lib \<Rightarrow> oid_lib \<Rightarrow> distinguished_name \<Rightarrow> asn1_error + bytes" where
  "encode_distinguished_name D Q dn = and_then (write_all (map (encode_rdn D Q) dn)) (wrap_sequence D)"

definition decode_attribute :: "der_lib \<Rightarrow> oid_lib \<Rightarrow> attribute_type_and_value reader" where
  "decode_attribute D Q r =
     and_then (read_sequence D r) (\<lambda>(attr, rest).
     and_then (decode_oid D Q attr) (\<lambda>(oid, attr).
     and_then (read_utf8 D attr) (\<lambda>(v, attr).
     and_then (vote_finished attr) (\<lambda>_. Ok (\<lparr>atv_oid = oid, atv_value = v\<rparr>, rest)))))"

definition decode_rdn :: "der_lib \<Rightarrow> oid_lib \<Rightarrow> attribute_type_and_value list reader" where
  "decode_rdn D Q r =
     and_then (read_set D r) (\<lambda>(set_inner, rest).
     and_then (read_many (decode_attribute D Q) set_inner) (\<lambda>attributes. Ok (attributes, rest)))"

definition decode_distinguished_name :: "der_lib \<Rightarrow> oid_lib \<Rightarrow> distinguished_name reader" where
  "decode_distinguished_name D Q r =
     and_then (read_sequence D r) (\<lambda>(dn_inner, rest).
     and_then (read_many (decode_rdn D Q) dn_inner) (\<lambda>rdns. Ok (rdns, rest)))"

definition encode_validity :: "der_lib \<Rightarrow> t_validity \<Rightarrow> asn1_error + bytes" where
  "encode_validity D v =
     and_then (write_all [encode_time D (not_before v), encode_time D (not_after v)]) (wrap_sequence D)"

definition decode_validity :: "der_lib \<Rightarrow> t_validity reader" where
  "decode_validity D r =
     and_then (read_sequence D r) (\<lambda>(inner, rest).
     and_then (read_time D inner) (\<lambda>(nb, inner).
     and_then (read_time D inner) (\<lambda>(na, inner).
     and_then (vote_finished inner) (\<lambda>_. Ok (\<lparr>not_before = nb, not_after = na\<rparr>, rest)))))"

fun curve_oid :: "ecdsa_curve \<Rightarrow> vote_oid" where
  "curve_oid CurveSecp256k1 = OID_SECP256K1"
| "curve_oid CurveSecp256r1 = OID_SECP256R1"

fun encode_subject_public_key_info :: "der_lib \<Rightarrow> oid_lib \<Rightarrow> vote_subject_public_key \<Rightarrow> asn1_error + bytes" where
  "encode_subject_public_key_info D Q (SpkEd25519 key) =
     and_then (write_all [and_then (encode_oid D Q OID_ED25519) (wrap_sequence D), encode_bit_string D key])
       (wrap_sequence D)"
| "encode_subject_public_key_info D Q (SpkEcdsa curve key) =
     and_then (write_all
       [and_then (write_all [encode_oid D Q OID_EC_PUBLIC_KEY, encode_oid D Q (curve_oid curve)]) (wrap_sequence D),
        encode_bit_string D key]) (wrap_sequence D)"

definition decode_key_kind :: "der_lib \<Rightarrow> oid_lib \<Rightarrow> bytes \<Rightarrow> asn1_error + ecdsa_curve option" where
  "decode_key_kind D Q algo =
     and_then (decode_oid D Q algo) (\<lambda>(first_oid, algo).
       if first_oid = OID_ED25519 then and_then (vote_finished algo) (\<lambda>_. Ok None)
       else if first_oid = OID_EC_PUBLIC_KEY then
         and_then (decode_oid D Q algo) (\<lambda>(oid, algo).
         and_then (vote_finished algo) (\<lambda>_.
           if oid = OID_SECP256K1 then Ok (Some CurveSecp256k1)
           else if oid = OID_SECP256R1 then Ok (Some CurveSecp256r1)
           else Err InvalidOid))
       else Err InvalidOid)"

definition decode_subject_public_key_info :: "der_lib \<Rightarrow> oid_lib \<Rightarrow> vote_subject_public_key reader" where
  "decode_subject_public_key_info D Q r =
     and_then (read_sequence D r) (\<lambda>(inner, rest).
     and_then (read_sequence D inner) (\<lambda>(algo, inner).
     and_then (decode_key_kind D Q algo) (\<lambda>key_kind.
     and_then (read_bit_string D inner) (\<lambda>(raw, inner).
     and_then (vote_finished inner) (\<lambda>_.
       Ok ((case key_kind of None \<Rightarrow> SpkEd25519 raw | Some curve \<Rightarrow> SpkEcdsa curve raw), rest))))))"

definition encode_extension :: "der_lib \<Rightarrow> oid_lib \<Rightarrow> extension \<Rightarrow> asn1_error + bytes" where
  "encode_extension D Q e =
     and_then (write_all
       [encode_oid D Q (ext_oid e), if ext_critical e then encode_bool D True else Ok [],
        encode_octet D (ext_value e)]) (wrap_sequence D)"

definition decode_extension :: "der_lib \<Rightarrow> oid_lib \<Rightarrow> bytes \<Rightarrow> asn1_error + extension" where
  "decode_extension D Q bs =
     and_then (read_sequence D bs) (\<lambda>(inner, outer).
     and_then (vote_finished outer) (\<lambda>_.
     and_then (decode_oid D Q inner) (\<lambda>(oid, r).
     and_then (vote_peek_tag D r) (\<lambda>t.
     and_then
       (if t = TagBoolean then read_bool D r
        else if t = TagOctetString then Ok (False, r)
        else Err DerError) (\<lambda>(critical, r).
     and_then (read_octet D r) (\<lambda>(v, r).
     and_then (vote_finished r) (\<lambda>_. Ok \<lparr>ext_oid = oid, ext_critical = critical, ext_value = v\<rparr>)))))))"

definition encode_extensions_field :: "der_lib \<Rightarrow> oid_lib \<Rightarrow> extension list \<Rightarrow> asn1_error + bytes" where
  "encode_extensions_field D Q es =
     and_then (write_all (map (encode_extension D Q) es)) (\<lambda>content.
     and_then (wrap_sequence D content) (wrap_context D EXTENSIONS_TAG))"

definition read_extension :: "der_lib \<Rightarrow> oid_lib \<Rightarrow> extension reader" where
  "read_extension D Q r =
     and_then (capture_tlv D TagSequence r) (\<lambda>(tlv, rest).
     and_then (decode_extension D Q tlv) (\<lambda>e. Ok (e, rest)))"

definition decode_extensions_field :: "der_lib \<Rightarrow> oid_lib \<Rightarrow> extension list reader" where
  "decode_extensions_field D Q r =
     and_then (read_explicit_context D EXTENSIONS_TAG r) (\<lambda>(inner, rest).
     and_then (read_sequence D inner) (\<lambda>(content, inner).
     and_then (vote_finished inner) (\<lambda>_.
     and_then (read_many (read_extension D Q) content) (\<lambda>es. Ok (es, rest)))))"

definition encode_tbs :: "der_lib \<Rightarrow> oid_lib \<Rightarrow> tbs_certificate \<Rightarrow> asn1_error + bytes" where
  "encode_tbs D Q tbs =
     and_then (write_all
       [and_then (encode_bigint D VOTE_VERSION_VALUE) (wrap_context D VERSION_TAG),
        encode_bigint D (tbs_serial tbs),
        encode_signature_algo D Q (tbs_algo tbs),
        encode_distinguished_name D Q (tbs_issuer tbs),
        encode_validity D (tbs_validity tbs),
        encode_distinguished_name D Q (tbs_subject tbs),
        encode_subject_public_key_info D Q (tbs_spk tbs),
        encode_extensions_field D Q (tbs_extensions tbs)]) (wrap_sequence D)"

definition encode_vote :: "der_lib \<Rightarrow> oid_lib \<Rightarrow> vote_certificate \<Rightarrow> asn1_error + bytes" where
  "encode_vote D Q v =
     and_then (write_all
       [encode_tbs D Q (vc_tbs v), encode_signature_algo D Q (vc_algo v), encode_bit_string D (vc_signature v)])
       (wrap_sequence D)"

definition decode_version :: "der_lib \<Rightarrow> unit reader" where
  "decode_version D r =
     and_then (or_slot SlotVersion (read_explicit_context D VERSION_TAG r)) (\<lambda>(version_bytes, rest).
     and_then (or_slot SlotVersionValue (read_bigint D version_bytes)) (\<lambda>(version, left).
     if left \<noteq> [] then Err (VoteDecode SlotVersionValue)
     else if version \<noteq> VOTE_VERSION_VALUE then Err InvalidVoteVersion
     else Ok ((), rest)))"

definition decode_tbs :: "der_lib \<Rightarrow> oid_lib \<Rightarrow> bytes \<Rightarrow> asn1_error + tbs_certificate" where
  "decode_tbs D Q content =
     and_then (decode_version D content) (\<lambda>(_, r).
     and_then (or_slot SlotSerial (read_bigint D r)) (\<lambda>(serial, r).
     and_then (or_slot SlotSignatureAlgorithm (decode_signature_algo D Q r)) (\<lambda>(algo, r).
     and_then (or_slot SlotIssuer (decode_distinguished_name D Q r)) (\<lambda>(issuer, r).
     and_then (or_slot SlotValidity (decode_validity D r)) (\<lambda>(validity, r).
     and_then (or_slot SlotSubject (decode_distinguished_name D Q r)) (\<lambda>(subject, r).
     and_then (or_slot SlotSubjectPublicKey (decode_subject_public_key_info D Q r)) (\<lambda>(spk, r).
     and_then (or_slot SlotExtensions (decode_extensions_field D Q r)) (\<lambda>(extensions, r).
     if r \<noteq> [] then Err (VoteDecode SlotTbsExtraData)
     else Ok \<lparr>tbs_serial = serial, tbs_algo = algo, tbs_issuer = issuer, tbs_validity = validity,
       tbs_subject = subject, tbs_spk = spk, tbs_extensions = extensions\<rparr>))))))))"

definition decode_vote :: "der_lib \<Rightarrow> oid_lib \<Rightarrow> bytes \<Rightarrow> asn1_error + decoded_vote_certificate" where
  "decode_vote D Q bs =
     and_then (or_slot SlotWrapper (read_sequence D bs)) (\<lambda>(wrapper, outer).
     if outer \<noteq> [] then Err (VoteDecode SlotWrapperExtraData)
     else
     and_then (or_slot SlotWrapper (read_many (der_any D) wrapper)) (\<lambda>elements.
     if length elements \<noteq> 3 then Err (VoteDecode SlotWrapper)
     else
     and_then (or_slot SlotTbsContent (capture_tlv D TagSequence wrapper)) (\<lambda>(tbs_bytes, r).
     and_then (or_slot SlotTbsContent (read_sequence D tbs_bytes)) (\<lambda>(content, tbs_outer).
     if tbs_outer \<noteq> [] then Err (VoteDecode SlotTbsContent)
     else
     and_then (decode_tbs D Q content) (\<lambda>tbs.
     and_then (or_slot SlotWrapperSignatureAlgorithm (decode_signature_algo D Q r)) (\<lambda>(algo, r).
     and_then (or_slot SlotSignatureValue (read_bit_string D r)) (\<lambda>(signature, r).
     if r \<noteq> [] then Err (VoteDecode SlotSignatureValue)
     else Ok \<lparr>dvc_tbs = tbs, dvc_tbs_bytes = tbs_bytes, dvc_algo = algo, dvc_signature = signature\<rparr>)))))))"

section \<open>Staples\<close>

definition encode_vote_staple :: "der_lib \<Rightarrow> vote_staple_bundle \<Rightarrow> asn1_error + bytes" where
  "encode_vote_staple D b =
     and_then (write_all
       [and_then (write_all (map (encode_octet D) (vsb_blocks b))) (wrap_sequence D),
        and_then (write_all (map (encode_octet D) (vsb_votes b))) (wrap_sequence D)]) (wrap_sequence D)"

definition decode_vote_staple :: "der_lib \<Rightarrow> bytes \<Rightarrow> asn1_error + vote_staple_bundle" where
  "decode_vote_staple D bs =
     and_then (or_staple_slot StapleWrapper (read_sequence D bs)) (\<lambda>(inner, outer).
     if outer \<noteq> [] then Err (VoteStapleDecode StapleWrapperExtraData)
     else
     and_then (or_staple_slot StapleWrapper (read_many (der_any D) inner)) (\<lambda>elements.
     if length elements \<noteq> 2 then Err (VoteStapleDecode StapleWrapper)
     else
     and_then (or_staple_slot StapleBlocks (read_sequence D inner)) (\<lambda>(blocks_inner, r).
     and_then (or_staple_slot StapleBlocks (read_many (read_octet D) blocks_inner)) (\<lambda>blocks.
     and_then (or_staple_slot StapleVotes (read_sequence D r)) (\<lambda>(votes_inner, r).
     and_then (or_staple_slot StapleVotes (read_many (read_octet D) votes_inner)) (\<lambda>votes.
     if r \<noteq> [] then Err (VoteStapleDecode StapleWrapperExtraData)
     else Ok \<lparr>vsb_blocks = blocks, vsb_votes = votes\<rparr>))))))"

section \<open>Extension bodies\<close>

definition encode_hash_data :: "der_lib \<Rightarrow> oid_lib \<Rightarrow> hash_data \<Rightarrow> asn1_error + bytes" where
  "encode_hash_data D Q v =
     and_then (and_then (write_all (map (encode_octet D) (hd_hashes v))) (wrap_sequence D)) (\<lambda>hashes.
     and_then (and_then (encode_oid D Q (hd_algorithm v)) (\<lambda>oid. wrap_sequence D (oid @ hashes))) (\<lambda>inner.
     wrap_context D HASH_DATA_OUTER_TAG inner))"

definition decode_hash_data :: "der_lib \<Rightarrow> oid_lib \<Rightarrow> bytes \<Rightarrow> asn1_error + hash_data" where
  "decode_hash_data D Q bs =
     and_then (read_explicit_context D HASH_DATA_OUTER_TAG bs) (\<lambda>(outer_inner, outer).
     and_then (vote_finished outer) (\<lambda>_.
     and_then (read_sequence D outer_inner) (\<lambda>(inner, left).
     and_then (vote_finished left) (\<lambda>_.
     and_then (decode_oid D Q inner) (\<lambda>(algorithm, inner).
     and_then (read_sequence D inner) (\<lambda>(hashes_bytes, inner).
     and_then (vote_finished inner) (\<lambda>_.
     and_then (read_many (read_octet D) hashes_bytes) (\<lambda>hashes.
       Ok \<lparr>hd_algorithm = algorithm, hd_hashes = hashes\<rparr>))))))))"

definition encode_fee_entry :: "der_lib \<Rightarrow> fee_entry \<Rightarrow> asn1_error + bytes" where
  "encode_fee_entry D e =
     and_then (write_all
       [encode_bool D (fe_quote e), encode_bigint D (fe_amount e),
        write_opt (wrap_implicit_octet_context D FEE_PAY_TO_TAG) (fe_pay_to e),
        write_opt (wrap_implicit_octet_context D FEE_TOKEN_TAG) (fe_token e)]) (wrap_sequence D)"

datatype fee_option = FeePayTo bytes | FeeToken bytes

definition read_fee_option :: "der_lib \<Rightarrow> fee_option reader" where
  "read_fee_option D r =
     and_then (vote_peek_tag D r) (\<lambda>t.
       if t = TagContext False FEE_PAY_TO_TAG
       then and_then (read_implicit_octet_context D FEE_PAY_TO_TAG r) (\<lambda>(raw, rest). Ok (FeePayTo raw, rest))
       else if t = TagContext False FEE_TOKEN_TAG
       then and_then (read_implicit_octet_context D FEE_TOKEN_TAG r) (\<lambda>(raw, rest). Ok (FeeToken raw, rest))
       else Err DerError)"

fun set_fee_option :: "fee_option \<Rightarrow> fee_entry \<Rightarrow> fee_entry" where
  "set_fee_option (FeePayTo raw) e = e\<lparr>fe_pay_to := Some raw\<rparr>"
| "set_fee_option (FeeToken raw) e = e\<lparr>fe_token := Some raw\<rparr>"

definition decode_fee_entry :: "der_lib \<Rightarrow> bytes \<Rightarrow> asn1_error + fee_entry" where
  "decode_fee_entry D content =
     and_then (read_bool D content) (\<lambda>(quote, r).
     and_then (read_bigint D r) (\<lambda>(amount, r).
     and_then (read_many (read_fee_option D) r) (\<lambda>options.
       Ok (fold set_fee_option options
         \<lparr>fe_quote = quote, fe_amount = amount, fe_pay_to = None, fe_token = None\<rparr>))))"

fun encode_fees :: "der_lib \<Rightarrow> t_fees \<Rightarrow> asn1_error + bytes" where
  "encode_fees D (TFeesSingle e) = and_then (encode_fee_entry D e) (wrap_context D FEE_OUTER_TAG)"
| "encode_fees D (TFeesMultiple es) =
     and_then (write_all (map (encode_fee_entry D) es)) (\<lambda>content.
     and_then (wrap_sequence D content) (\<lambda>sequence_of.
     and_then (wrap_context D FEE_MULTIPLE_TAG sequence_of) (wrap_context D FEE_OUTER_TAG)))"

definition read_fee_entry :: "der_lib \<Rightarrow> fee_entry reader" where
  "read_fee_entry D r =
     and_then (read_sequence D r) (\<lambda>(entry_bytes, rest).
     and_then (decode_fee_entry D entry_bytes) (\<lambda>e. Ok (e, rest)))"

definition decode_fees :: "der_lib \<Rightarrow> bytes \<Rightarrow> asn1_error + t_fees" where
  "decode_fees D bs =
     and_then (read_explicit_context D FEE_OUTER_TAG bs) (\<lambda>(inner, outer).
     and_then (vote_finished outer) (\<lambda>_.
     and_then (vote_peek_tag D inner) (\<lambda>t.
     if t = TagSequence then
       and_then (read_fee_entry D inner) (\<lambda>(e, left).
       and_then (vote_finished left) (\<lambda>_. Ok (TFeesSingle e)))
     else if t = TagContext True FEE_MULTIPLE_TAG then
       and_then (read_explicit_context D FEE_MULTIPLE_TAG inner) (\<lambda>(multi, left).
       and_then (vote_finished left) (\<lambda>_.
       and_then (read_sequence D multi) (\<lambda>(entries_bytes, left).
       and_then (vote_finished left) (\<lambda>_.
       and_then (read_many (read_fee_entry D) entries_bytes) (\<lambda>es. Ok (TFeesMultiple es))))))
     else Err DerError)))"

section \<open>Round trips\<close>

definition wf_dn :: "distinguished_name \<Rightarrow> bool" where
  "wf_dn dn \<longleftrightarrow> list_all (list_all (\<lambda>a. valid_utf8 (atv_value a))) dn"

definition wf_tbs :: "tbs_certificate \<Rightarrow> bool" where
  "wf_tbs t \<longleftrightarrow> wf_dn (tbs_issuer t) \<and> wf_dn (tbs_subject t) \<and>
     asn1_time_range (not_before (tbs_validity t)) \<and> asn1_time_range (not_after (tbs_validity t))"

lemma or_slot_Inr [simp]: "or_slot s (Inr x) = Inr x"
  by (simp add: or_slot_def)

lemma or_staple_slot_Inr [simp]: "or_staple_slot s (Inr x) = Inr x"
  by (simp add: or_staple_slot_def)

lemma vote_finished_ok [simp]: "vote_finished r = Inr u \<longleftrightarrow> r = []" "vote_finished [] = Inr ()"
  by (simp_all add: vote_finished_def)

lemma vote_signature_algo_roundtrip [simp]:
  "vote_signature_algo_try_from (vote_signature_algo_oid a) = Inr a"
  by (cases a) (simp_all add: vote_signature_algo_try_from_def oid_defs)

lemma fold_set_fee_option:
  "fold set_fee_option (case p of None \<Rightarrow> [] | Some x \<Rightarrow> [FeePayTo x])
     \<lparr>fe_quote = q, fe_amount = a, fe_pay_to = None, fe_token = None\<rparr> =
     \<lparr>fe_quote = q, fe_amount = a, fe_pay_to = p, fe_token = None\<rparr>"
  by (cases p) simp_all

locale vote_der_laws = der_laws D for D :: der_lib +
  fixes Q :: oid_lib
  assumes oid_roundtrip: "oid_to_der Q oid = Some v \<Longrightarrow> oid_of_der Q v = Some oid"
begin

lemma oid [simp]:
  "encode_oid D Q v = Inr bs \<Longrightarrow> decode_oid D Q (bs @ rest) = Inr (v, rest)"
  "encode_oid D Q v = Inr bs \<Longrightarrow> decode_oid D Q bs = Inr (v, [])"
proof -
  show "encode_oid D Q v = Inr bs \<Longrightarrow> decode_oid D Q (bs @ rest) = Inr (v, rest)" for bs rest
    unfolding encode_oid_def decode_oid_def by (auto simp: read_tagged_encode oid_roundtrip)
  from this[of bs "[]"] show "encode_oid D Q v = Inr bs \<Longrightarrow> decode_oid D Q bs = Inr (v, [])" by simp
qed

lemma bit_string [simp]:
  "encode_bit_string D v = Inr bs \<Longrightarrow> read_bit_string D (bs @ rest) = Inr (v, rest)"
  "encode_bit_string D v = Inr bs \<Longrightarrow> read_bit_string D bs = Inr (v, [])"
proof -
  show "encode_bit_string D v = Inr bs \<Longrightarrow> read_bit_string D (bs @ rest) = Inr (v, rest)" for bs rest
    unfolding encode_bit_string_def read_bit_string_def by (simp add: read_tagged_encode)
  from this[of bs "[]"] show "encode_bit_string D v = Inr bs \<Longrightarrow> read_bit_string D bs = Inr (v, [])" by simp
qed

lemma set_element [simp]: "wrap_set D v = Inr bs \<Longrightarrow> read_set D (bs @ rest) = Inr (v, rest)"
  unfolding wrap_set_def read_set_def by (rule read_tagged_encode)

lemma explicit [simp]:
  "wrap_context D n v = Inr bs \<Longrightarrow> read_explicit_context D n (bs @ rest) = Inr (v, rest)"
  "wrap_context D n v = Inr bs \<Longrightarrow> read_explicit_context D n bs = Inr (v, [])"
proof -
  show "wrap_context D n v = Inr bs \<Longrightarrow> read_explicit_context D n (bs @ rest) = Inr (v, rest)" for bs rest
    unfolding wrap_context_def read_explicit_context_def by (rule read_tagged_encode)
  from this[of bs "[]"] show "wrap_context D n v = Inr bs \<Longrightarrow> read_explicit_context D n bs = Inr (v, [])" by simp
qed

lemma implicit [simp]:
  "wrap_implicit_octet_context D n v = Inr bs \<Longrightarrow> read_implicit_octet_context D n (bs @ rest) = Inr (v, rest)"
  "wrap_implicit_octet_context D n v = Inr bs \<Longrightarrow> vote_peek_tag D (bs @ rest) = Inr (TagContext False n)"
  unfolding wrap_implicit_octet_context_def read_implicit_octet_context_def vote_peek_tag_def
  by (auto simp: read_tagged_encode der_any_encode)

lemma peek_any [simp]:
  "wrap_sequence D v = Inr bs \<Longrightarrow> vote_peek_tag D (bs @ rest) = Inr TagSequence"
  "wrap_sequence D v = Inr bs \<Longrightarrow> vote_peek_tag D bs = Inr TagSequence"
  "wrap_context D n v = Inr bs \<Longrightarrow> vote_peek_tag D bs = Inr (TagContext True n)"
  "encode_octet D v = Inr bs \<Longrightarrow> vote_peek_tag D (bs @ rest) = Inr TagOctetString"
  "encode_octet D v = Inr bs \<Longrightarrow> vote_peek_tag D bs = Inr TagOctetString"
  "encode_bool D b = Inr bs \<Longrightarrow> vote_peek_tag D (bs @ rest) = Inr TagBoolean"
  unfolding vote_peek_tag_def wrap_sequence_def wrap_context_def encode_octet_def encode_bool_def
  using der_any_encode[where rest = "[]"] by (auto simp: der_any_encode)

lemma capture [simp]:
  "wrap_sequence D v = Inr bs \<Longrightarrow> capture_tlv D TagSequence (bs @ rest) = Inr (bs, rest)"
  unfolding wrap_sequence_def capture_tlv_def by (simp add: der_any_encode)

lemma read_sequence_consumes: "read_sequence D r = Inr (v, rest) \<Longrightarrow> length rest < length r"
  unfolding read_sequence_def using read_tagged_consumes by fastforce

lemma signature_algo [simp]:
  "encode_signature_algo D Q a = Inr bs \<Longrightarrow> decode_signature_algo D Q (bs @ rest) = Inr (a, rest)"
  by (auto simp: encode_signature_algo_def decode_signature_algo_def)

lemma attribute_roundtrip:
  assumes "encode_attribute D Q a = Inr bs" and "valid_utf8 (atv_value a)"
  shows "decode_attribute D Q (bs @ rest) = Inr (a, rest)"
  using assms by (auto simp: encode_attribute_def decode_attribute_def)

lemma attribute_consumes: "consumes (decode_attribute D Q)"
  by (auto simp: consumes_def decode_attribute_def dest: read_sequence_consumes)

lemma rdn_roundtrip:
  assumes "encode_rdn D Q rdn = Inr bs" and "list_all (\<lambda>a. valid_utf8 (atv_value a)) rdn"
  shows "decode_rdn D Q (bs @ rest) = Inr (rdn, rest)"
proof -
  obtain c where c: "write_all (map (encode_attribute D Q) rdn) = Inr c" "wrap_set D c = Inr bs"
    using assms(1) by (auto simp: encode_rdn_def)
  have "read_many (decode_attribute D Q) c = Inr rdn"
    by (rule read_many_write_all[OF attribute_consumes attribute_roundtrip c(1)])
      (use assms(2) in \<open>auto simp: list_all_iff\<close>)
  then show ?thesis using c(2) by (simp add: decode_rdn_def)
qed

lemma rdn_consumes: "consumes (decode_rdn D Q)"
  using read_tagged_consumes by (fastforce simp: consumes_def decode_rdn_def read_set_def)

lemma dn_roundtrip:
  assumes "encode_distinguished_name D Q dn = Inr bs" and "wf_dn dn"
  shows "decode_distinguished_name D Q (bs @ rest) = Inr (dn, rest)"
proof -
  obtain c where c: "write_all (map (encode_rdn D Q) dn) = Inr c" "wrap_sequence D c = Inr bs"
    using assms(1) by (auto simp: encode_distinguished_name_def)
  have "read_many (decode_rdn D Q) c = Inr dn"
    by (rule read_many_write_all[OF rdn_consumes rdn_roundtrip c(1)])
      (use assms(2) in \<open>auto simp: wf_dn_def list_all_iff\<close>)
  then show ?thesis using c(2) by (simp add: decode_distinguished_name_def)
qed

lemma time_end [simp]: "encode_time D t = Inr bs \<Longrightarrow> asn1_time_range t \<Longrightarrow> read_time D bs = Inr (t, [])"
  using time(1)[of t bs "[]"] by simp

lemma validity_roundtrip:
  assumes "encode_validity D v = Inr bs" and "asn1_time_range (not_before v)" and "asn1_time_range (not_after v)"
  shows "decode_validity D (bs @ rest) = Inr (v, rest)"
  using assms by (auto simp: encode_validity_def decode_validity_def)

lemma curve_key_kind:
  assumes "encode_oid D Q OID_EC_PUBLIC_KEY = Inr x" and "encode_oid D Q (curve_oid curve) = Inr y"
  shows "decode_key_kind D Q (x @ y) = Inr (Some curve)"
  using assms by (cases curve) (simp_all add: decode_key_kind_def oid_defs del: and_then_eq_Inr)

lemma ed25519_key_kind:
  "encode_oid D Q OID_ED25519 = Inr x \<Longrightarrow> decode_key_kind D Q x = Inr None"
  by (simp add: decode_key_kind_def del: and_then_eq_Inr)

lemma spki_roundtrip:
  assumes "encode_subject_public_key_info D Q k = Inr bs"
  shows "decode_subject_public_key_info D Q (bs @ rest) = Inr (k, rest)"
proof (cases k)
  case (SpkEcdsa curve key)
  then show ?thesis using assms
    by (auto simp: decode_subject_public_key_info_def curve_key_kind)
qed (use assms in \<open>auto simp: decode_subject_public_key_info_def ed25519_key_kind\<close>)

lemma extension_roundtrip:
  assumes "encode_extension D Q e = Inr bs"
  shows "read_extension D Q (bs @ rest) = Inr (e, rest)"
proof -
  obtain x y z where xyz: "encode_oid D Q (ext_oid e) = Inr x" "encode_octet D (ext_value e) = Inr z"
    "(if ext_critical e then encode_bool D True else Inr []) = Inr y" "wrap_sequence D (x @ y @ z) = Inr bs"
    using assms by (auto simp: encode_extension_def)
  have "\<lparr>ext_oid = ext_oid e, ext_critical = ext_critical e, ext_value = ext_value e\<rparr> = e" by simp
  then show ?thesis using xyz
    by (cases "ext_critical e") (simp_all add: read_extension_def decode_extension_def del: and_then_eq_Inr)
qed

lemma extension_consumes: "consumes (read_extension D Q)"
  unfolding consumes_def read_extension_def capture_tlv_def der_any_def
  by (fastforce dest: tlv_consumes split: if_splits)

lemma extensions_roundtrip:
  assumes "encode_extensions_field D Q es = Inr bs"
  shows "decode_extensions_field D Q (bs @ rest) = Inr (es, rest)"
proof -
  obtain c x where c: "write_all (map (encode_extension D Q) es) = Inr c" "wrap_sequence D c = Inr x"
    "wrap_context D EXTENSIONS_TAG x = Inr bs"
    using assms by (auto simp: encode_extensions_field_def)
  have "read_many (read_extension D Q) c = Inr es"
    by (rule read_many_write_all[OF extension_consumes extension_roundtrip c(1)])
  then show ?thesis using c(2,3) by (simp add: decode_extensions_field_def)
qed

lemma any_consumes: "consumes (der_any D)"
  unfolding consumes_def der_any_def by (fastforce dest: tlv_consumes)

lemma any_sequences:
  assumes "wrap_sequence D v = Inr bs"
  shows "read_many (der_any D) (bs @ rest) = and_then (read_many (der_any D) rest) (\<lambda>xs. Ok ((TagSequence, v) # xs))"
  by (rule read_many_cons[OF any_consumes sequence_any[OF assms]])

lemma any_bit_string:
  assumes "encode_bit_string D v = Inr bs"
  shows "read_many (der_any D) bs = Inr [(TagBitString, 0 # v)]"
proof -
  have "der_any D bs = Inr ((TagBitString, 0 # v), [])"
    using assms der_any_encode[of TagBitString "0 # v" bs "[]"] by (simp add: encode_bit_string_def)
  from read_many_cons[OF any_consumes this] show ?thesis by simp
qed

lemma version_roundtrip:
  assumes "encode_bigint D VOTE_VERSION_VALUE = Inr x" and "wrap_context D VERSION_TAG x = Inr y"
  shows "decode_version D (y @ rest) = Inr ((), rest)"
  using assms by (simp add: decode_version_def del: and_then_eq_Inr)

lemma tbs_roundtrip:
  assumes "encode_tbs D Q t = Inr bs" and "wf_tbs t"
  shows "\<exists>content. wrap_sequence D content = Inr bs \<and> decode_tbs D Q content = Inr t"
proof -
  obtain v0 v s a i y u k e where parts:
    "encode_bigint D VOTE_VERSION_VALUE = Inr v0" "wrap_context D VERSION_TAG v0 = Inr v"
    "encode_bigint D (tbs_serial t) = Inr s" "encode_signature_algo D Q (tbs_algo t) = Inr a"
    "encode_distinguished_name D Q (tbs_issuer t) = Inr i" "encode_validity D (tbs_validity t) = Inr y"
    "encode_distinguished_name D Q (tbs_subject t) = Inr u"
    "encode_subject_public_key_info D Q (tbs_spk t) = Inr k"
    "encode_extensions_field D Q (tbs_extensions t) = Inr e"
    and bs: "wrap_sequence D (v @ s @ a @ i @ y @ u @ k @ e) = Inr bs"
    using assms(1) by (auto simp: encode_tbs_def)
  have "decode_tbs D Q (v @ s @ a @ i @ y @ u @ k @ e) = Inr t"
    using parts assms(2) version_roundtrip[OF parts(1,2)] extensions_roundtrip[OF parts(9), of "[]"]
    by (simp add: decode_tbs_def wf_tbs_def dn_roundtrip validity_roundtrip spki_roundtrip del: and_then_eq_Inr)
  then show ?thesis using bs by blast
qed

lemma vote_roundtrip:
  assumes "encode_vote D Q v = Inr bs" and "wf_tbs (vc_tbs v)"
  shows "\<exists>tbs_bytes. encode_tbs D Q (vc_tbs v) = Inr tbs_bytes \<and>
    decode_vote D Q bs = Inr \<lparr>dvc_tbs = vc_tbs v, dvc_tbs_bytes = tbs_bytes, dvc_algo = vc_algo v,
      dvc_signature = vc_signature v\<rparr>"
proof -
  obtain x w y z where xyz: "encode_tbs D Q (vc_tbs v) = Inr x" "encode_oid D Q (vote_signature_algo_oid (vc_algo v)) = Inr w"
    "wrap_sequence D w = Inr y" "encode_bit_string D (vc_signature v) = Inr z" "wrap_sequence D (x @ y @ z) = Inr bs"
    using assms(1) by (auto simp: encode_vote_def encode_signature_algo_def)
  obtain c where c: "wrap_sequence D c = Inr x" "decode_tbs D Q c = Inr (vc_tbs v)"
    using tbs_roundtrip[OF xyz(1) assms(2)] by blast
  have "read_many (der_any D) (x @ y @ z) =
      Inr [(TagSequence, c), (TagSequence, w), (TagBitString, 0 # vc_signature v)]"
    using c(1) xyz(3,4) by (simp add: any_sequences any_bit_string del: and_then_eq_Inr)
  moreover have "decode_signature_algo D Q (y @ z) = Inr (vc_algo v, z)"
    using xyz(2,3) by (intro signature_algo) (simp add: encode_signature_algo_def)
  ultimately have "decode_vote D Q bs = Inr \<lparr>dvc_tbs = vc_tbs v, dvc_tbs_bytes = x, dvc_algo = vc_algo v,
      dvc_signature = vc_signature v\<rparr>"
    using xyz c by (simp add: decode_vote_def del: and_then_eq_Inr)
  then show ?thesis using xyz(1) by blast
qed

lemma octets_roundtrip: "write_all (map (encode_octet D) xs) = Inr c \<Longrightarrow> read_many (read_octet D) c = Inr xs"
  by (rule read_many_write_all[OF read_octet_consumes octet(1)])

lemma staple_roundtrip:
  assumes "encode_vote_staple D b = Inr bs"
  shows "decode_vote_staple D bs = Inr b"
proof -
  obtain x y x' y' where xy: "write_all (map (encode_octet D) (vsb_blocks b)) = Inr x" "wrap_sequence D x = Inr x'"
    "write_all (map (encode_octet D) (vsb_votes b)) = Inr y" "wrap_sequence D y = Inr y'"
    "wrap_sequence D (x' @ y') = Inr bs"
    using assms by (auto simp: encode_vote_staple_def)
  have "read_many (der_any D) (x' @ y') = Inr [(TagSequence, x), (TagSequence, y)]"
    using any_sequences[OF xy(2), of y'] any_sequences[OF xy(4), of "[]"] by simp
  then show ?thesis using xy by (simp add: decode_vote_staple_def octets_roundtrip del: and_then_eq_Inr)
qed

lemma hash_data_roundtrip:
  assumes "encode_hash_data D Q h = Inr bs"
  shows "decode_hash_data D Q bs = Inr h"
proof -
  obtain c x w i where cx: "write_all (map (encode_octet D) (hd_hashes h)) = Inr c" "wrap_sequence D c = Inr x"
    "encode_oid D Q (hd_algorithm h) = Inr w" "wrap_sequence D (w @ x) = Inr i"
    "wrap_context D HASH_DATA_OUTER_TAG i = Inr bs"
    using assms by (auto simp: encode_hash_data_def)
  then show ?thesis by (simp add: decode_hash_data_def octets_roundtrip del: and_then_eq_Inr)
qed

lemma fee_option_consumes: "consumes (read_fee_option D)"
  unfolding consumes_def read_fee_option_def read_implicit_octet_context_def
  by (fastforce dest: read_tagged_consumes split: if_splits)

lemma read_fee_option_encode:
  "wrap_implicit_octet_context D FEE_PAY_TO_TAG p = Inr bs \<Longrightarrow> read_fee_option D (bs @ rest) = Inr (FeePayTo p, rest)"
  "wrap_implicit_octet_context D FEE_TOKEN_TAG p = Inr bs \<Longrightarrow> read_fee_option D (bs @ rest) = Inr (FeeToken p, rest)"
  by (simp_all add: read_fee_option_def FEE_PAY_TO_TAG_def FEE_TOKEN_TAG_def del: and_then_eq_Inr)

lemma fee_entry_roundtrip:
  assumes "encode_fee_entry D e = Inr bs"
  shows "read_fee_entry D (bs @ rest) = Inr (e, rest)"
proof -
  obtain q a p t where parts: "encode_bool D (fe_quote e) = Inr q" "encode_bigint D (fe_amount e) = Inr a"
    "write_opt (wrap_implicit_octet_context D FEE_PAY_TO_TAG) (fe_pay_to e) = Inr p"
    "write_opt (wrap_implicit_octet_context D FEE_TOKEN_TAG) (fe_token e) = Inr t"
    "wrap_sequence D (q @ a @ p @ t) = Inr bs"
    using assms by (auto simp: encode_fee_entry_def)
  have token: "read_many (read_fee_option D) t =
      Inr (case fe_token e of None \<Rightarrow> [] | Some x \<Rightarrow> [FeeToken x])"
    using parts(4) read_many_cons[OF fee_option_consumes read_fee_option_encode(2), of _ t "[]"]
    by (cases "fe_token e") simp_all
  have "read_many (read_fee_option D) (p @ t) =
      Inr ((case fe_pay_to e of None \<Rightarrow> [] | Some x \<Rightarrow> [FeePayTo x]) @
        (case fe_token e of None \<Rightarrow> [] | Some x \<Rightarrow> [FeeToken x]))"
    using parts(3) read_many_cons[OF fee_option_consumes read_fee_option_encode(1), of _ p t] token
    by (cases "fe_pay_to e") simp_all
  moreover have "fold set_fee_option ((case fe_pay_to e of None \<Rightarrow> [] | Some x \<Rightarrow> [FeePayTo x]) @
        (case fe_token e of None \<Rightarrow> [] | Some x \<Rightarrow> [FeeToken x]))
      \<lparr>fe_quote = fe_quote e, fe_amount = fe_amount e, fe_pay_to = None, fe_token = None\<rparr> = e"
    by (cases "fe_token e") (simp_all add: fold_set_fee_option)
  ultimately show ?thesis using parts
    by (simp add: read_fee_entry_def decode_fee_entry_def del: and_then_eq_Inr)
qed

lemma fee_entry_consumes: "consumes (read_fee_entry D)"
  by (auto simp: consumes_def read_fee_entry_def dest: read_sequence_consumes)

lemma fees_roundtrip:
  assumes "encode_fees D f = Inr bs"
  shows "decode_fees D bs = Inr f"
proof (cases f)
  case (TFeesSingle e)
  then obtain x where x: "encode_fee_entry D e = Inr x" "wrap_context D FEE_OUTER_TAG x = Inr bs"
    using assms by auto
  then have "read_fee_entry D x = Inr (e, [])" "vote_peek_tag D x = Inr TagSequence"
    using fee_entry_roundtrip[OF x(1), of "[]"] by (auto simp: encode_fee_entry_def)
  then show ?thesis using x TFeesSingle by (simp add: decode_fees_def del: and_then_eq_Inr)
next
  case (TFeesMultiple es)
  then obtain c x y where x: "write_all (map (encode_fee_entry D) es) = Inr c" "wrap_sequence D c = Inr x"
    "wrap_context D FEE_MULTIPLE_TAG x = Inr y" "wrap_context D FEE_OUTER_TAG y = Inr bs"
    using assms by auto
  have "read_many (read_fee_entry D) c = Inr es"
    by (rule read_many_write_all[OF fee_entry_consumes fee_entry_roundtrip x(1)])
  then show ?thesis using x TFeesMultiple by (simp add: decode_fees_def del: and_then_eq_Inr)
qed

end

sublocale vote_der_laws \<subseteq> staple_codec: fallible_codec "encode_vote_staple D" "decode_vote_staple D" "\<lambda>_. True"
  by unfold_locales (rule staple_roundtrip)

sublocale vote_der_laws \<subseteq> hash_codec: fallible_codec "encode_hash_data D Q" "decode_hash_data D Q" "\<lambda>_. True"
  by unfold_locales (rule hash_data_roundtrip)

sublocale vote_der_laws \<subseteq> fee_codec: fallible_codec "encode_fees D" "decode_fees D" "\<lambda>_. True"
  by unfold_locales (rule fees_roundtrip)

end
