(* ===== verification/VoteError.thy ===== *)
theory VoteError
  imports BlockError
begin

text \<open>
  The error values of the vote crate (\<open>vote/src/error.rs\<close>) and their stable codes.  The
  constructors carry the prefix \<open>V\<close>; free-text payloads are dropped.
\<close>

datatype vote_field = FieldSerial | FieldIssuer | FieldValidity

datatype (plugins only: code) vote_error =
    VAsn1 asn1_error | VAccount account_error | VCrypto crypto_error | VBlock block_error
  | VSerialMismatch | VInvalidVersion | VInvalidConstruction | VInvalidConstructionJson
  | VSignatureInvalid | VExpired | VInvalidValidity | VMomentBeforeValidityFrom | VMissingMoment
  | VMalformedStaple | VStapleBlocksAtLeastOne | VStapleVotesAtLeastOne
  | VMalformedStapleElement string | VStapleBlockCountMismatch | VStapleMissingBlock
  | VStapleBlockOrderMismatch | VStapleDuplicateIssuer | VStaplePermanenceMismatch
  | VStapleInvalidConstruction | VBuilderMissingField vote_field | VBuilderInvalidBlockType
  | VBuilderInvalidFee | VMalformedWrapper | VMalformedVoteWrapper | VMalformedVoteContent
  | VMalformedVoteContentExtraData | VMalformedVoteVersion | VMalformedVoteSerial
  | VMalformedVoteSignatureInformation | VMalformedVoteIssuerInformation
  | VMalformedVoteSubjectInformation | VMalformedVoteValidityInformation
  | VMalformedVoteExtensions | VMalformedVoteExtensionsData | VMalformedVoteExtensionsValue
  | VMalformedVoteExtensionsValueOid | VMalformedVoteExtensionsValueCritical
  | VMalformedVoteExtensionsValueCriticalType | VMalformedVoteSignatureSchemeDoesNotMatchWrapper
  | VMalformedVoteSignatureSchemeDoesNotMatchIssuer | VMalformedVoteSignatureUnsupportedScheme
  | VMalformedVoteSignatureSchemeEcdsaInvalidCurve | VMalformedVoteSubjectPublicKeyInformation
  | VMalformedVoteSignatureValue | VMalformedVoteNoBlocksFound | VMalformedFindRdnInvalidType
  | VMalformedFindRdnMustHaveOne | VMalformedFindRdnPartWellFormed | VMalformedFindRdnMustBeSet
  | VMalformedFindRdnTypeMustBeOid | VMalformedHashesFromVoteInvalidInput
  | VMalformedHashesFromVoteInvalidType | VMalformedHashesFromVoteInvalidContextSpecific
  | VMalformedHashesFromVoteDataHashDataMustBeSequence | VMalformedHashesFromVoteDataNotTwoItems
  | VMalformedHashesFromVoteDataNeedsOid | VMalformedHashesFromVoteDataUnsupportedHashFunc
  | VMalformedHashesFromVoteDataSecondMustBeSequence
  | VMalformedHashesFromVoteDataUnsupportedHashType | VMalformedFeesAmount
  | VMalformedFeesFromVoteInvalidInput | VMalformedFeesInPermanentVote
  | VMalformedFeesQuoteInvalid | VMalformedFeesInvalidQuoteValue | VMalformedFeesKindMissing
  | VMalformedFeesMultipleFeeEmpty | VMalformedFeesPayToInvalid | VMalformedFeesTokenNotToken
  | VFeeIsQuote | VFeeNotQuote | VFeeQuoteMissingFees | VMalformedNonCanonicalEncoding

definition vote_error_code :: "vote_error \<Rightarrow> string option" where
  "vote_error_code e =
     (case e of
        VSerialMismatch \<Rightarrow> Some ''VOTE_SERIAL_MISMATCH''
      | VInvalidVersion \<Rightarrow> Some ''VOTE_INVALID_VERSION''
      | VInvalidConstruction \<Rightarrow> Some ''VOTE_INVALID_CONSTRUCTION''
      | VInvalidConstructionJson \<Rightarrow> Some ''VOTE_INVALID_CONSTRUCTION_JSON''
      | VSignatureInvalid \<Rightarrow> Some ''VOTE_SIGNATURE_INVALID''
      | VExpired \<Rightarrow> Some ''VOTE_EXPIRED''
      | VInvalidValidity \<Rightarrow> Some ''VOTE_INVALID_VALIDITY''
      | VMomentBeforeValidityFrom \<Rightarrow> Some ''VOTE_MOMENT_BEFORE_VALIDITY_FROM''
      | VMissingMoment \<Rightarrow> Some ''VOTE_MISSING_MOMENT''
      | VStapleInvalidConstruction \<Rightarrow> Some ''VOTE_STAPLE_INVALID_CONSTRUCTION''
      | VStapleBlockCountMismatch \<Rightarrow> Some ''VOTE_STAPLE_ALL_VOTES_MUST_HAVE_SAME_BLOCKS_COUNT''
      | VStapleMissingBlock \<Rightarrow> Some ''VOTE_STAPLE_ALL_VOTES_MUST_HAVE_SAME_BLOCKS_MISSING''
      | VStapleBlockOrderMismatch \<Rightarrow> Some ''VOTE_STAPLE_ALL_VOTES_MUST_HAVE_SAME_BLOCKS_ORDER''
      | VStapleDuplicateIssuer \<Rightarrow> Some ''VOTE_STAPLE_DUPLICATE_VOTE_ISSUER''
      | VStaplePermanenceMismatch \<Rightarrow> Some ''VOTE_STAPLE_PERMANENCE_MISMATCH''
      | VBuilderMissingField f \<Rightarrow>
          Some (case f of FieldSerial \<Rightarrow> ''VOTE_BUILDER_INVALID_SERIAL''
            | FieldIssuer \<Rightarrow> ''VOTE_BUILDER_INVALID_CONSTRUCTION''
            | FieldValidity \<Rightarrow> ''VOTE_BUILDER_INVALID_VALID_TO_FROM'')
      | VBuilderInvalidBlockType \<Rightarrow> Some ''VOTE_BUILDER_INVALID_BLOCK_TYPE''
      | VBuilderInvalidFee \<Rightarrow> Some ''VOTE_BUILDER_INVALID_FEE''
      | VMalformedWrapper \<Rightarrow> Some ''VOTE_MALFORMED_WRAPPER''
      | VMalformedVoteWrapper \<Rightarrow> Some ''VOTE_MALFORMED_VOTE_WRAPPER''
      | VMalformedVoteContent \<Rightarrow> Some ''VOTE_MALFORMED_VOTE_CONTENT''
      | VMalformedVoteContentExtraData \<Rightarrow> Some ''VOTE_MALFORMED_VOTE_CONTENT_EXTRA_DATA''
      | VMalformedVoteVersion \<Rightarrow> Some ''VOTE_MALFORMED_VOTE_VERSION''
      | VMalformedVoteSerial \<Rightarrow> Some ''VOTE_MALFORMED_VOTE_SERIAL''
      | VMalformedVoteSignatureInformation \<Rightarrow> Some ''VOTE_MALFORMED_VOTE_SIGNATURE_INFORMATION''
      | VMalformedVoteIssuerInformation \<Rightarrow> Some ''VOTE_MALFORMED_VOTE_ISSUER_INFORMATION''
      | VMalformedVoteSubjectInformation \<Rightarrow> Some ''VOTE_MALFORMED_VOTE_SUBJECT_INFORMATION''
      | VMalformedVoteValidityInformation \<Rightarrow> Some ''VOTE_MALFORMED_VOTE_VALIDITY_INFORMATION''
      | VMalformedVoteExtensions \<Rightarrow> Some ''VOTE_MALFORMED_VOTE_EXTENSIONS''
      | VMalformedVoteExtensionsData \<Rightarrow> Some ''VOTE_MALFORMED_VOTE_EXTENSIONS_DATA''
      | VMalformedVoteExtensionsValue \<Rightarrow> Some ''VOTE_MALFORMED_VOTE_EXTENSIONS_VALUE''
      | VMalformedVoteExtensionsValueOid \<Rightarrow> Some ''VOTE_MALFORMED_VOTE_EXTENSIONS_VALUE_OID''
      | VMalformedVoteExtensionsValueCritical \<Rightarrow> Some ''VOTE_MALFORMED_VOTE_EXTENSIONS_VALUE_CRITICAL''
      | VMalformedVoteExtensionsValueCriticalType \<Rightarrow> Some ''VOTE_MALFORMED_VOTE_EXTENSIONS_VALUE_CRITICAL_TYPE''
      | VMalformedVoteSignatureSchemeDoesNotMatchWrapper \<Rightarrow> Some ''VOTE_MALFORMED_VOTE_SIGNATURE_SCHEME_DOES_NOT_MATCH_WRAPPER''
      | VMalformedVoteSignatureSchemeDoesNotMatchIssuer \<Rightarrow> Some ''VOTE_MALFORMED_VOTE_SIGNATURE_SCHEME_DOES_NOT_MATCH_ISSUER''
      | VMalformedVoteSignatureUnsupportedScheme \<Rightarrow> Some ''VOTE_MALFORMED_VOTE_SIGNATURE_UNSUPPORTED_SCHEME''
      | VMalformedVoteSignatureSchemeEcdsaInvalidCurve \<Rightarrow> Some ''VOTE_MALFORMED_VOTE_SIGNATURE_SCHEME_ECDSA_INVALID_CURVE''
      | VMalformedVoteSubjectPublicKeyInformation \<Rightarrow> Some ''VOTE_MALFORMED_VOTE_SUBJECT_PUBLIC_KEY_INFORMATION''
      | VMalformedVoteSignatureValue \<Rightarrow> Some ''VOTE_MALFORMED_VOTE_SIGNATURE_VALUE''
      | VMalformedVoteNoBlocksFound \<Rightarrow> Some ''VOTE_MALFORMED_VOTE_NO_BLOCKS_FOUND''
      | VMalformedStaple \<Rightarrow> Some ''VOTE_MALFORMED_STAPLE''
      | VMalformedStapleElement what \<Rightarrow>
          (if what = ''blocks'' then Some ''VOTE_MALFORMED_STAPLE_BLOCKS'' else if what = ''votes'' then Some ''VOTE_MALFORMED_STAPLE_VOTES'' else None)
      | VStapleBlocksAtLeastOne \<Rightarrow> Some ''VOTE_MALFORMED_STAPLE_BLOCKS_AT_LEAST_ONE''
      | VStapleVotesAtLeastOne \<Rightarrow> Some ''VOTE_MALFORMED_STAPLE_VOTES_AT_LEAST_ONE''
      | VMalformedFindRdnInvalidType \<Rightarrow> Some ''VOTE_MALFORMED_FIND_RDN_INVALID_TYPE''
      | VMalformedFindRdnMustHaveOne \<Rightarrow> Some ''VOTE_MALFORMED_FIND_RDN_MUST_HAVE_ONE''
      | VMalformedFindRdnPartWellFormed \<Rightarrow> Some ''VOTE_MALFORMED_FIND_RDN_PART_WELL_FORMED''
      | VMalformedFindRdnMustBeSet \<Rightarrow> Some ''VOTE_MALFORMED_FIND_RDN_MUST_BE_SET''
      | VMalformedFindRdnTypeMustBeOid \<Rightarrow> Some ''VOTE_MALFORMED_FIND_RDN_TYPE_MUST_BE_OID''
      | VMalformedHashesFromVoteInvalidInput \<Rightarrow> Some ''VOTE_MALFORMED_HASHES_FROM_VOTE_INVALID_INPUT''
      | VMalformedHashesFromVoteInvalidType \<Rightarrow> Some ''VOTE_MALFORMED_HASHES_FROM_VOTE_INVALID_TYPE''
      | VMalformedHashesFromVoteInvalidContextSpecific \<Rightarrow> Some ''VOTE_MALFORMED_HASHES_FROM_VOTE_INVALID_CONTEXT_SPECIFIC''
      | VMalformedHashesFromVoteDataHashDataMustBeSequence \<Rightarrow> Some ''VOTE_MALFORMED_HASHES_FROM_VOTE_DATA_HASH_DATA_MUST_BE_SEQUENCE''
      | VMalformedHashesFromVoteDataNotTwoItems \<Rightarrow> Some ''VOTE_MALFORMED_HASHES_FROM_VOTE_DATA_NOT_TWO_ITEMS''
      | VMalformedHashesFromVoteDataNeedsOid \<Rightarrow> Some ''VOTE_MALFORMED_HASHES_FROM_VOTE_DATA_NEEDS_OID''
      | VMalformedHashesFromVoteDataUnsupportedHashFunc \<Rightarrow> Some ''VOTE_MALFORMED_HASHES_FROM_VOTE_DATA_UNSUPPORTED_HASH_FUNC''
      | VMalformedHashesFromVoteDataSecondMustBeSequence \<Rightarrow> Some ''VOTE_MALFORMED_HASHES_FROM_VOTE_DATA_SECOND_MUST_BE_SEQUENCE''
      | VMalformedHashesFromVoteDataUnsupportedHashType \<Rightarrow> Some ''VOTE_MALFORMED_HASHES_FROM_VOTE_DATA_UNSUPPORTED_HASH_TYPE''
      | VMalformedFeesAmount \<Rightarrow> Some ''VOTE_MALFORMED_FEES_AMOUNT''
      | VMalformedFeesFromVoteInvalidInput \<Rightarrow> Some ''VOTE_MALFORMED_FEES_FROM_VOTE_INVALID_INPUT''
      | VMalformedFeesInPermanentVote \<Rightarrow> Some ''VOTE_MALFORMED_FEES_IN_PERMANENT_VOTE''
      | VMalformedFeesQuoteInvalid \<Rightarrow> Some ''VOTE_MALFORMED_FEES_QUOTE_INVALID''
      | VMalformedFeesInvalidQuoteValue \<Rightarrow> Some ''VOTE_MALFORMED_FEES_INVALID_QUOTE_VALUE''
      | VMalformedFeesKindMissing \<Rightarrow> Some ''VOTE_MALFORMED_FEES_KIND_MISSING''
      | VMalformedFeesMultipleFeeEmpty \<Rightarrow> Some ''VOTE_MALFORMED_FEES_MULTIPLE_FEE_EMPTY''
      | VMalformedFeesPayToInvalid \<Rightarrow> Some ''VOTE_MALFORMED_FEES_PAY_TO_INVALID''
      | VMalformedFeesTokenNotToken \<Rightarrow> Some ''VOTE_MALFORMED_FEES_TOKEN_NOT_TOKEN''
      | VFeeIsQuote \<Rightarrow> Some ''VOTE_FEE_IS_QUOTE''
      | VFeeNotQuote \<Rightarrow> Some ''VOTE_FEE_NOT_QUOTE''
      | VFeeQuoteMissingFees \<Rightarrow> Some ''VOTE_FEE_QUOTE_MISSING_FEES''
      | _ \<Rightarrow> None)"

end
