(* ===== verification/Vote.thy ===== *)
theory Vote
  imports Asn1Vote VoteError Operation "HOL-Library.List_Lexorder"
begin

text \<open>
  Votes (\<open>keetanetwork-vote\<close>): validity windows, fee schedules, the X.509-shaped certificate and
  its mapping to the transport codec, signing and verification, quotes, and the vote builder.
  Instants are milliseconds since the epoch, kept within 64-bit signed integers by saturating
  arithmetic as in the source.
\<close>

section \<open>Validity (\<open>validity.rs\<close>, \<open>validation.rs\<close>)\<close>

definition sat64 :: "int \<Rightarrow> int" where
  "sat64 x = max (- (2 ^ 63)) (min (2 ^ 63 - 1) x)"

definition in_i64 :: "int \<Rightarrow> bool" where
  "in_i64 x \<longleftrightarrow> - (2 ^ 63) \<le> x \<and> x < 2 ^ 63"

record vote_config =
  allowed_slop_ms :: int
  permanent_vote_threshold_ms :: int

definition default_vote_config :: vote_config where
  "default_vote_config =
     \<lparr>allowed_slop_ms = 60 * 1000, permanent_vote_threshold_ms = 100 * 365 * 86400 * 1000\<rparr>"

record validity =
  valid_from :: int
  valid_to :: int

definition range_is_well_formed :: "validity \<Rightarrow> bool" where
  "range_is_well_formed v \<longleftrightarrow> valid_from v \<le> valid_to v"

definition validity_try_new :: "int \<Rightarrow> int \<Rightarrow> vote_error + validity" where
  "validity_try_new from_ms to_ms =
     (let v = \<lparr>valid_from = from_ms, valid_to = to_ms\<rparr> in
      if \<not> range_is_well_formed v then Err VInvalidValidity else Ok v)"

definition is_expired_at :: "validity \<Rightarrow> int \<Rightarrow> vote_config \<Rightarrow> bool" where
  "is_expired_at v moment config \<longleftrightarrow>
     sat64 (moment + allowed_slop_ms config) < valid_from v \<or>
     sat64 (moment - allowed_slop_ms config) > valid_to v"

definition moment_is_before_from :: "validity \<Rightarrow> int \<Rightarrow> vote_config \<Rightarrow> bool" where
  "moment_is_before_from v moment config \<longleftrightarrow> moment < sat64 (valid_from v - allowed_slop_ms config)"

definition ensure_active_at :: "validity \<Rightarrow> int \<Rightarrow> vote_config \<Rightarrow> vote_error + unit" where
  "ensure_active_at v moment config =
     (if moment_is_before_from v moment config then Err VMomentBeforeValidityFrom
      else if is_expired_at v moment config then Err VExpired
      else Ok ())"

definition is_permanent_at :: "validity \<Rightarrow> int \<Rightarrow> vote_config \<Rightarrow> bool" where
  "is_permanent_at v moment config \<longleftrightarrow>
     valid_to v > sat64 (moment + permanent_vote_threshold_ms config)"

section \<open>Fees (\<open>fee.rs\<close>)\<close>

record fee =
  fee_amount :: int
  fee_pay_to :: "generic_account option"
  fee_token :: "generic_account option"

datatype fees = FeesSingle bool fee | FeesMultiple bool "fee list"

definition pays_base_token :: "crypto_lib \<Rightarrow> generic_account \<Rightarrow> fee \<Rightarrow> bool" where
  "pays_base_token L base f =
     (case fee_token f of
        None \<Rightarrow> True
      | Some token \<Rightarrow> account_to_string L token = account_to_string L base)"

definition token_or :: "generic_account \<Rightarrow> fee \<Rightarrow> generic_account" where
  "token_or base f = (case fee_token f of Some token \<Rightarrow> token | None \<Rightarrow> base)"

fun fees_entries :: "fees \<Rightarrow> fee list" where
  "fees_entries (FeesSingle _ f) = [f]"
| "fees_entries (FeesMultiple _ fs) = fs"

fun fees_quote :: "fees \<Rightarrow> bool" where
  "fees_quote (FeesSingle q _) = q"
| "fees_quote (FeesMultiple q _) = q"

definition fees_required :: "fees \<Rightarrow> bool" where
  "fees_required fs \<longleftrightarrow> \<not> list_ex (\<lambda>f. fee_amount f = 0) (fees_entries fs)"

fun find_map :: "('a \<Rightarrow> 'b option) \<Rightarrow> 'a list \<Rightarrow> 'b option" where
  "find_map f [] = None"
| "find_map f (x # xs) = (case f x of Some y \<Rightarrow> Some y | None \<Rightarrow> find_map f xs)"

definition or_else :: "'a option \<Rightarrow> 'a option \<Rightarrow> 'a option" where
  "or_else x y = (case x of Some a \<Rightarrow> Some a | None \<Rightarrow> y)"

definition fees_select :: "crypto_lib \<Rightarrow> fees \<Rightarrow> generic_account \<Rightarrow> generic_account list \<Rightarrow> fee option" where
  "fees_select L fs base priority =
     or_else
       (find_map (\<lambda>wanted.
          find (\<lambda>f. account_to_string L (token_or base f) = account_to_string L wanted) (fees_entries fs)) priority)
       (or_else (find (pays_base_token L base) (fees_entries fs))
          (case fees_entries fs of [] \<Rightarrow> None | f # _ \<Rightarrow> Some f))"

definition fees_to_send ::
    "crypto_lib \<Rightarrow> fees \<Rightarrow> generic_account \<Rightarrow> generic_account list \<Rightarrow> generic_account \<Rightarrow> send option" where
  "fees_to_send L fs base priority issuer =
     (if \<not> fees_required fs then None
      else map_option (\<lambda>selected.
        \<lparr>send_to = (case fee_pay_to selected of Some a \<Rightarrow> a | None \<Rightarrow> issuer),
         send_amount = fee_amount selected,
         send_token = (case fee_token selected of Some a \<Rightarrow> a | None \<Rightarrow> base),
         send_external = None\<rparr>) (fees_select L fs base priority))"

definition fees_from_entries :: "bool \<Rightarrow> fee list \<Rightarrow> vote_error + fees" where
  "fees_from_entries quote entries =
     (case entries of
        [] \<Rightarrow> Err VBuilderInvalidFee
      | [f] \<Rightarrow> Ok (FeesSingle quote f)
      | _ \<Rightarrow> Ok (FeesMultiple quote entries))"

definition pay_to_kind :: "keypair_type \<Rightarrow> bool" where
  "pay_to_kind t \<longleftrightarrow> t \<in> {ECDSASECP256K1, ECDSASECP256R1, ED25519, STORAGE}"

definition fee_to_entry :: "bool \<Rightarrow> fee \<Rightarrow> vote_error + fee_entry" where
  "fee_to_entry quote f =
     (if fee_amount f < 0 then Err VMalformedFeesAmount
      else if (case fee_token f of Some t \<Rightarrow> to_keypair_type t \<noteq> TOKEN | None \<Rightarrow> False)
      then Err VMalformedFeesTokenNotToken
      else if (case fee_pay_to f of Some p \<Rightarrow> \<not> pay_to_kind (to_keypair_type p) | None \<Rightarrow> False)
      then Err VMalformedFeesPayToInvalid
      else Ok \<lparr>fe_quote = quote, fe_amount = fee_amount f,
        fe_pay_to = map_option to_public_key_with_type (fee_pay_to f),
        fe_token = map_option to_public_key_with_type (fee_token f)\<rparr>)"

datatype account_kind = KindPayTo | KindToken

definition account_from_octet :: "crypto_lib \<Rightarrow> account_kind \<Rightarrow> bytes \<Rightarrow> vote_error + generic_account" where
  "account_from_octet L kind bs =
     (let e = (case kind of KindPayTo \<Rightarrow> VMalformedFeesPayToInvalid | KindToken \<Rightarrow> VMalformedFeesTokenNotToken) in
      and_then (map_err (\<lambda>_. e) (account_from_hex L (hex_encode L bs))) (\<lambda>account.
        case kind of
          KindPayTo \<Rightarrow> if pay_to_kind (to_keypair_type account) then Ok account else Err e
        | KindToken \<Rightarrow> if to_keypair_type account \<noteq> TOKEN then Err e else Ok account))"

definition entry_to_fee :: "crypto_lib \<Rightarrow> fee_entry \<Rightarrow> vote_error + bool \<times> fee" where
  "entry_to_fee L e =
     (if fe_amount e < 0 then Err VMalformedFeesAmount
      else and_then (transpose_opt (account_from_octet L KindPayTo) (fe_pay_to e)) (\<lambda>pay_to.
        and_then (transpose_opt (account_from_octet L KindToken) (fe_token e)) (\<lambda>token.
          Ok (fe_quote e, \<lparr>fee_amount = fe_amount e, fee_pay_to = pay_to, fee_token = token\<rparr>))))"

fun fees_to_transport :: "fees \<Rightarrow> vote_error + t_fees" where
  "fees_to_transport (FeesSingle quote f) = and_then (fee_to_entry quote f) (\<lambda>e. Ok (TFeesSingle e))"
| "fees_to_transport (FeesMultiple quote fs) =
     and_then (traverse (fee_to_entry quote) fs) (\<lambda>es. Ok (TFeesMultiple es))"

definition fees_step :: "crypto_lib \<Rightarrow> bool option \<times> fee list \<Rightarrow> fee_entry \<Rightarrow> vote_error + bool option \<times> fee list" where
  "fees_step L acc e =
     and_then (entry_to_fee L e) (\<lambda>(entry_quote, f).
       case fst acc of
         None \<Rightarrow> Ok (Some entry_quote, snd acc @ [f])
       | Some existing \<Rightarrow>
           if existing \<noteq> entry_quote then Err VMalformedFeesInvalidQuoteValue else Ok (Some existing, snd acc @ [f]))"

fun fees_from_transport :: "crypto_lib \<Rightarrow> t_fees \<Rightarrow> vote_error + fees" where
  "fees_from_transport L (TFeesSingle e) =
     and_then (entry_to_fee L e) (\<lambda>(quote, f). Ok (FeesSingle quote f))"
| "fees_from_transport L (TFeesMultiple es) =
     (if es = [] then Err VMalformedFeesMultipleFeeEmpty
      else and_then (try_fold (fees_step L) (None, []) es) (\<lambda>(quote, fs).
        and_then (ok_or VMalformedFeesInvalidQuoteValue quote) (\<lambda>quote. Ok (FeesMultiple quote fs))))"

section \<open>Certificates (\<open>cert.rs\<close>, \<open>account/src/cert.rs\<close>)\<close>

text \<open>\<open>vote_lib\<close> collects what votes take from other crates: the account and DER layers, decimal-free
  hexadecimal text of integers (\<open>num-bigint\<close>), and the raw signature primitives.  A signature is
  a value of its transport form.\<close>

record vote_lib =
  vl_crypto :: crypto_lib
  vl_der :: der_lib
  vl_oid :: oid_lib
  bigint_to_lower_hex :: "int \<Rightarrow> string"
  parse_lower_hex_bigint :: "string \<Rightarrow> int option"
  raw_sign :: "generic_account \<Rightarrow> bytes \<Rightarrow> account_error + bytes"
  raw_verify :: "generic_account \<Rightarrow> bytes \<Rightarrow> bytes \<Rightarrow> account_error + unit"

definition ecdsa_prehash :: "crypto_lib \<Rightarrow> bytes \<Rightarrow> bytes" where
  "ecdsa_prehash L message = hash_default L message"

fun sign_for_cert :: "vote_lib \<Rightarrow> generic_account \<Rightarrow> bytes \<Rightarrow> account_error + bytes" where
  "sign_for_cert V (EcdsaSecp256k1 k) m = raw_sign V (EcdsaSecp256k1 k) (ecdsa_prehash (vl_crypto V) m)"
| "sign_for_cert V (EcdsaSecp256r1 k) m = raw_sign V (EcdsaSecp256r1 k) (ecdsa_prehash (vl_crypto V) m)"
| "sign_for_cert V (Ed25519 k) m = raw_sign V (Ed25519 k) m"
| "sign_for_cert V _ m = Err NoIdentifierSign"

fun verify_for_cert :: "vote_lib \<Rightarrow> generic_account \<Rightarrow> bytes \<Rightarrow> bytes \<Rightarrow> account_error + unit" where
  "verify_for_cert V (EcdsaSecp256k1 k) m s = raw_verify V (EcdsaSecp256k1 k) (ecdsa_prehash (vl_crypto V) m) s"
| "verify_for_cert V (EcdsaSecp256r1 k) m s = raw_verify V (EcdsaSecp256r1 k) (ecdsa_prehash (vl_crypto V) m) s"
| "verify_for_cert V (Ed25519 k) m s = raw_verify V (Ed25519 k) m s"
| "verify_for_cert V _ m s = Err NoIdentifierVerify"

datatype signature_algo = SigEd25519 | SigEcdsaWithSha3_256

definition algo_from_issuer :: "generic_account \<Rightarrow> vote_error + signature_algo" where
  "algo_from_issuer a =
     (case to_keypair_type a of
        ED25519 \<Rightarrow> Ok SigEd25519
      | ECDSASECP256K1 \<Rightarrow> Ok SigEcdsaWithSha3_256
      | ECDSASECP256R1 \<Rightarrow> Ok SigEcdsaWithSha3_256
      | _ \<Rightarrow> Err VMalformedVoteSignatureSchemeDoesNotMatchIssuer)"

definition algo_matches_issuer :: "signature_algo \<Rightarrow> generic_account \<Rightarrow> bool" where
  "algo_matches_issuer algo a =
     (case (algo, to_keypair_type a) of
        (SigEd25519, ED25519) \<Rightarrow> True
      | (SigEcdsaWithSha3_256, ECDSASECP256K1) \<Rightarrow> True
      | (SigEcdsaWithSha3_256, ECDSASECP256R1) \<Rightarrow> True
      | _ \<Rightarrow> False)"

fun algo_to_transport :: "signature_algo \<Rightarrow> vote_signature_algo" where
  "algo_to_transport SigEd25519 = AlgoEd25519"
| "algo_to_transport SigEcdsaWithSha3_256 = AlgoEcdsaWithSha3_256"

fun algo_from_transport :: "vote_signature_algo \<Rightarrow> signature_algo" where
  "algo_from_transport AlgoEd25519 = SigEd25519"
| "algo_from_transport AlgoEcdsaWithSha3_256 = SigEcdsaWithSha3_256"

record decoded_vote =
  dv_serial :: int
  dv_algo :: signature_algo
  dv_issuer :: generic_account
  dv_validity :: validity
  dv_blocks :: "bytes list"
  dv_fees :: "fees option"
  dv_signature :: bytes
  dv_tbs_bytes :: bytes

definition rust_chars :: "rust_string \<Rightarrow> string" where
  "rust_chars s = map (\<lambda>b. char_of (unat b)) s"

definition dn_with_attribute :: "vote_oid \<Rightarrow> string \<Rightarrow> distinguished_name" where
  "dn_with_attribute oid v = [[\<lparr>atv_oid = oid, atv_value = str v\<rparr>]]"

definition take_dn_value :: "distinguished_name \<Rightarrow> vote_oid \<Rightarrow> rust_string option" where
  "take_dn_value dn oid =
     fold (\<lambda>rdn found. fold (\<lambda>attribute found.
       if atv_oid attribute = oid then Some (atv_value attribute) else found) rdn found) dn None"

definition subject_public_key_for_issuer :: "generic_account \<Rightarrow> vote_error + vote_subject_public_key" where
  "subject_public_key_for_issuer issuer =
     (case to_public_key_with_type issuer of
        [] \<Rightarrow> Err VMalformedVoteSubjectPublicKeyInformation
      | _ # raw \<Rightarrow>
          (case to_keypair_type issuer of
             ED25519 \<Rightarrow> Ok (SpkEd25519 raw)
           | ECDSASECP256K1 \<Rightarrow> Ok (SpkEcdsa CurveSecp256k1 raw)
           | ECDSASECP256R1 \<Rightarrow> Ok (SpkEcdsa CurveSecp256r1 raw)
           | _ \<Rightarrow> Err VMalformedVoteSignatureSchemeDoesNotMatchIssuer))"

definition decode_subject_public_key ::
    "crypto_lib \<Rightarrow> vote_subject_public_key \<Rightarrow> vote_error + generic_account" where
  "decode_subject_public_key L v =
     (let (key_type, raw) = (case v of
          SpkEd25519 key \<Rightarrow> (ED25519, key)
        | SpkEcdsa curve key \<Rightarrow>
            (case curve of CurveSecp256k1 \<Rightarrow> (ECDSASECP256K1, key) | CurveSecp256r1 \<Rightarrow> (ECDSASECP256R1, key)))
      in map_err (\<lambda>_. VMalformedVoteSubjectPublicKeyInformation)
           (account_from_hex L (hex_encode L (keypair_type_id key_type # raw))))"

definition build_extension_list ::
    "vote_lib \<Rightarrow> bytes list \<Rightarrow> fees option \<Rightarrow> vote_error + extension list" where
  "build_extension_list V blocks fs =
     and_then (map_err VAsn1 (encode_hash_data (vl_der V) (vl_oid V)
         \<lparr>hd_algorithm = OID_SHA3_256, hd_hashes = blocks\<rparr>)) (\<lambda>hash_data_value.
     let hash_ext = \<lparr>ext_oid = OID_HASH_DATA, ext_critical = True, ext_value = hash_data_value\<rparr> in
     case fs of
       None \<Rightarrow> Ok [hash_ext]
     | Some f \<Rightarrow>
         and_then (fees_to_transport f) (\<lambda>t.
         and_then (map_err VAsn1 (encode_fees (vl_der V) t)) (\<lambda>fees_value.
           Ok [hash_ext, \<lparr>ext_oid = OID_FEES, ext_critical = True, ext_value = fees_value\<rparr>])))"

definition collect_step ::
    "vote_lib \<Rightarrow> bytes list option \<times> fees option \<Rightarrow> extension \<Rightarrow> vote_error + bytes list option \<times> fees option" where
  "collect_step V acc e =
     (if ext_oid e = OID_HASH_DATA then
        and_then (map_err (\<lambda>_. VMalformedHashesFromVoteInvalidInput)
            (decode_hash_data (vl_der V) (vl_oid V) (ext_value e))) (\<lambda>h.
        if hd_algorithm h \<noteq> OID_SHA3_256 then Err VMalformedHashesFromVoteDataUnsupportedHashFunc
        else and_then (traverse (\<lambda>raw.
            if length raw = 32 then Ok raw else Err VMalformedHashesFromVoteDataUnsupportedHashType) (hd_hashes h))
          (\<lambda>converted. Ok (Some converted, snd acc)))
      else if ext_oid e = OID_FEES then
        and_then (map_err (\<lambda>_. VMalformedFeesFromVoteInvalidInput) (decode_fees (vl_der V) (ext_value e))) (\<lambda>t.
        and_then (fees_from_transport (vl_crypto V) t) (\<lambda>f. Ok (fst acc, Some f)))
      else if ext_critical e then Err VMalformedVoteExtensionsValueCriticalType
      else Ok acc)"

definition collect_extensions :: "vote_lib \<Rightarrow> extension list \<Rightarrow> vote_error + bytes list \<times> fees option" where
  "collect_extensions V es =
     and_then (try_fold (collect_step V) (None, None) es) (\<lambda>(blocks, fs).
     and_then (ok_or VMalformedVoteNoBlocksFound blocks) (\<lambda>blocks. Ok (blocks, fs)))"

definition build_tbs_inner ::
    "vote_lib \<Rightarrow> int \<Rightarrow> signature_algo \<Rightarrow> generic_account \<Rightarrow> validity \<Rightarrow> bytes list \<Rightarrow> fees option \<Rightarrow>
      vote_error + tbs_certificate" where
  "build_tbs_inner V serial algo issuer val blocks fs =
     and_then (subject_public_key_for_issuer issuer) (\<lambda>spk.
     and_then (build_extension_list V blocks fs) (\<lambda>extensions.
       Ok \<lparr>tbs_serial = serial, tbs_algo = algo_to_transport algo,
         tbs_issuer = dn_with_attribute OID_COMMON_NAME (account_to_string (vl_crypto V) issuer),
         tbs_validity = \<lparr>not_before = valid_from val, not_after = valid_to val\<rparr>,
         tbs_subject = dn_with_attribute OID_SERIAL_NUMBER (bigint_to_lower_hex V serial),
         tbs_spk = spk, tbs_extensions = extensions\<rparr>))"

definition build_tbs ::
    "vote_lib \<Rightarrow> int \<Rightarrow> signature_algo \<Rightarrow> generic_account \<Rightarrow> validity \<Rightarrow> bytes list \<Rightarrow> fees option \<Rightarrow>
      vote_error + tbs_certificate" where
  "build_tbs V serial algo issuer val blocks fs =
     and_then (algo_from_issuer issuer) (\<lambda>expected.
       if algo \<noteq> expected then Err VMalformedVoteSignatureSchemeDoesNotMatchIssuer
       else build_tbs_inner V serial algo issuer val blocks fs)"

definition cert_encode_tbs :: "vote_lib \<Rightarrow> tbs_certificate \<Rightarrow> vote_error + bytes" where
  "cert_encode_tbs V tbs = map_err VAsn1 (encode_tbs (vl_der V) (vl_oid V) tbs)"

definition cert_encode_vote :: "vote_lib \<Rightarrow> tbs_certificate \<Rightarrow> signature_algo \<Rightarrow> bytes \<Rightarrow> vote_error + bytes" where
  "cert_encode_vote V tbs algo signature =
     map_err VAsn1 (encode_vote (vl_der V) (vl_oid V)
       \<lparr>vc_tbs = tbs, vc_algo = algo_to_transport algo, vc_signature = signature\<rparr>)"

fun decode_error_to_vote :: "asn1_error \<Rightarrow> vote_error" where
  "decode_error_to_vote InvalidVoteVersion = VInvalidVersion"
| "decode_error_to_vote (VoteDecode s) =
     (case s of
        SlotWrapper \<Rightarrow> VMalformedWrapper
      | SlotWrapperExtraData \<Rightarrow> VMalformedWrapper
      | SlotTbsContent \<Rightarrow> VMalformedVoteWrapper
      | SlotVersion \<Rightarrow> VMalformedVoteContent
      | SlotVersionValue \<Rightarrow> VMalformedVoteVersion
      | SlotSerial \<Rightarrow> VMalformedVoteSerial
      | SlotSignatureAlgorithm \<Rightarrow> VMalformedVoteSignatureInformation
      | SlotIssuer \<Rightarrow> VMalformedVoteIssuerInformation
      | SlotValidity \<Rightarrow> VMalformedVoteValidityInformation
      | SlotSubject \<Rightarrow> VMalformedVoteSubjectInformation
      | SlotSubjectPublicKey \<Rightarrow> VMalformedVoteSubjectPublicKeyInformation
      | SlotExtensions \<Rightarrow> VMalformedVoteExtensions
      | SlotTbsExtraData \<Rightarrow> VMalformedVoteContentExtraData
      | SlotWrapperSignatureAlgorithm \<Rightarrow> VMalformedVoteSignatureInformation
      | SlotSignatureValue \<Rightarrow> VMalformedVoteSignatureValue)"
| "decode_error_to_vote other = VAsn1 other"

definition decode_wrapper :: "vote_lib \<Rightarrow> bytes \<Rightarrow> vote_error + decoded_vote" where
  "decode_wrapper V bs =
     and_then (map_err decode_error_to_vote (decode_vote (vl_der V) (vl_oid V) bs)) (\<lambda>decoded.
     if tbs_algo (dvc_tbs decoded) \<noteq> dvc_algo decoded
     then Err VMalformedVoteSignatureSchemeDoesNotMatchWrapper
     else
     let algo = algo_from_transport (dvc_algo decoded);
         serial = tbs_serial (dvc_tbs decoded) in
     and_then (ok_or VMalformedVoteIssuerInformation
         (take_dn_value (tbs_issuer (dvc_tbs decoded)) OID_COMMON_NAME)) (\<lambda>issuer_string.
     and_then (map_err (\<lambda>_. VMalformedVoteIssuerInformation)
         (account_from_str (vl_crypto V) (rust_chars issuer_string))) (\<lambda>issuer.
     if \<not> algo_matches_issuer algo issuer then Err VMalformedVoteSignatureSchemeDoesNotMatchIssuer
     else
     and_then (ok_or VMalformedVoteSerial
         (take_dn_value (tbs_subject (dvc_tbs decoded)) OID_SERIAL_NUMBER)) (\<lambda>subject_serial_hex.
     and_then (ok_or VMalformedVoteSerial
         (parse_lower_hex_bigint V (rust_chars subject_serial_hex))) (\<lambda>subject_serial.
     if subject_serial \<noteq> serial then Err VSerialMismatch
     else
     and_then (decode_subject_public_key (vl_crypto V) (tbs_spk (dvc_tbs decoded))) (\<lambda>subject_public_key.
     if to_public_key_with_type subject_public_key \<noteq> to_public_key_with_type issuer
     then Err VMalformedVoteSignatureSchemeDoesNotMatchIssuer
     else
     and_then (validity_try_new (not_before (tbs_validity (dvc_tbs decoded)))
         (not_after (tbs_validity (dvc_tbs decoded)))) (\<lambda>val.
     and_then (collect_extensions V (tbs_extensions (dvc_tbs decoded))) (\<lambda>(blocks, fs).
       Ok \<lparr>dv_serial = serial, dv_algo = algo, dv_issuer = issuer, dv_validity = val, dv_blocks = blocks,
         dv_fees = fs, dv_signature = dvc_signature decoded, dv_tbs_bytes = dvc_tbs_bytes decoded\<rparr>))))))))"

section \<open>Votes (\<open>vote.rs\<close>)\<close>

record unsigned_vote =
  uv_serial :: int
  uv_issuer :: generic_account
  uv_validity :: validity
  uv_blocks :: "bytes list"
  uv_fees :: "fees option"

record vote =
  vote_decoded :: decoded_vote
  vote_serialized :: bytes

definition unsigned_vote_try_new ::
    "int \<Rightarrow> generic_account \<Rightarrow> validity \<Rightarrow> bytes list \<Rightarrow> fees option \<Rightarrow> vote_error + unsigned_vote" where
  "unsigned_vote_try_new serial issuer val blocks fs =
     and_then (algo_from_issuer issuer) (\<lambda>_.
     if blocks = [] then Err VMalformedVoteNoBlocksFound
     else Ok \<lparr>uv_serial = serial, uv_issuer = issuer, uv_validity = val, uv_blocks = blocks, uv_fees = fs\<rparr>)"

definition unsigned_vote_is_quote :: "unsigned_vote \<Rightarrow> bool" where
  "unsigned_vote_is_quote u = (case uv_fees u of Some fs \<Rightarrow> fees_quote fs | None \<Rightarrow> False)"

definition unsigned_vote_tbs_bytes :: "vote_lib \<Rightarrow> unsigned_vote \<Rightarrow> vote_error + bytes" where
  "unsigned_vote_tbs_bytes V u =
     and_then (algo_from_issuer (uv_issuer u)) (\<lambda>algo.
     and_then (build_tbs V (uv_serial u) algo (uv_issuer u) (uv_validity u) (uv_blocks u) (uv_fees u))
       (cert_encode_tbs V))"

definition unsigned_vote_sign :: "vote_lib \<Rightarrow> unsigned_vote \<Rightarrow> generic_account \<Rightarrow> vote_error + vote" where
  "unsigned_vote_sign V u signer =
     and_then (algo_from_issuer (uv_issuer u)) (\<lambda>algo.
     and_then (build_tbs V (uv_serial u) algo (uv_issuer u) (uv_validity u) (uv_blocks u) (uv_fees u)) (\<lambda>tbs.
     and_then (cert_encode_tbs V tbs) (\<lambda>tbs_bytes.
     and_then (map_err VAccount (sign_for_cert V signer tbs_bytes)) (\<lambda>signature.
     and_then (cert_encode_vote V tbs algo signature) (\<lambda>serialized.
       Ok \<lparr>vote_decoded = \<lparr>dv_serial = uv_serial u, dv_algo = algo, dv_issuer = uv_issuer u,
             dv_validity = uv_validity u, dv_blocks = uv_blocks u, dv_fees = uv_fees u,
             dv_signature = signature, dv_tbs_bytes = tbs_bytes\<rparr>,
           vote_serialized = serialized\<rparr>)))))"

definition vote_from_serialized :: "vote_lib \<Rightarrow> bytes \<Rightarrow> vote_error + vote" where
  "vote_from_serialized V bs =
     and_then (decode_wrapper V bs) (\<lambda>d.
     and_then (build_tbs V (dv_serial d) (dv_algo d) (dv_issuer d) (dv_validity d) (dv_blocks d) (dv_fees d)) (\<lambda>tbs.
     and_then (cert_encode_tbs V tbs) (\<lambda>canonical_tbs.
     if canonical_tbs \<noteq> dv_tbs_bytes d then Err VMalformedNonCanonicalEncoding
     else
     and_then (cert_encode_vote V tbs (dv_algo d) (dv_signature d)) (\<lambda>canonical.
     if canonical \<noteq> bs then Err VMalformedNonCanonicalEncoding
     else Ok \<lparr>vote_decoded = d, vote_serialized = bs\<rparr>))))"

definition vote_verify_signature :: "vote_lib \<Rightarrow> vote \<Rightarrow> vote_error + unit" where
  "vote_verify_signature V v =
     map_err VAccount (verify_for_cert V (dv_issuer (vote_decoded v))
       (dv_tbs_bytes (vote_decoded v)) (dv_signature (vote_decoded v)))"

definition assert_quote_flag :: "vote \<Rightarrow> bool \<Rightarrow> vote_error + unit" where
  "assert_quote_flag v expected_quote =
     (case dv_fees (vote_decoded v) of
        Some fs \<Rightarrow> if fees_quote fs \<noteq> expected_quote then Err VMalformedFeesQuoteInvalid else Ok ()
      | None \<Rightarrow> Ok ())"

definition vote_verify :: "vote_lib \<Rightarrow> bytes \<Rightarrow> vote_error + vote" where
  "vote_verify V bs =
     and_then (vote_from_serialized V bs) (\<lambda>v.
     and_then (vote_verify_signature V v) (\<lambda>_.
     and_then (assert_quote_flag v False) (\<lambda>_. Ok v)))"

definition vote_hash :: "vote_lib \<Rightarrow> vote \<Rightarrow> bytes" where
  "vote_hash V v = hash_default (vl_crypto V) (vote_serialized v)"

definition vote_fee_send :: "vote_lib \<Rightarrow> vote \<Rightarrow> generic_account \<Rightarrow> generic_account list \<Rightarrow> send option" where
  "vote_fee_send V v base priority =
     (case dv_fees (vote_decoded v) of
        None \<Rightarrow> None
      | Some fs \<Rightarrow> fees_to_send (vl_crypto V) fs base priority (dv_issuer (vote_decoded v)))"

definition vote_is_quote :: "vote \<Rightarrow> bool" where
  "vote_is_quote v = (case dv_fees (vote_decoded v) of Some fs \<Rightarrow> fees_quote fs | None \<Rightarrow> False)"

datatype vote_quote = VoteQuote (quote_vote: vote)

definition vote_quote_try_from_vote :: "vote \<Rightarrow> vote_error + vote_quote" where
  "vote_quote_try_from_vote v =
     and_then (assert_quote_flag v True) (\<lambda>_.
     if \<not> vote_is_quote v then Err VFeeNotQuote else Ok (VoteQuote v))"

definition vote_quote_verify :: "vote_lib \<Rightarrow> bytes \<Rightarrow> vote_error + vote_quote" where
  "vote_quote_verify V bs =
     and_then (vote_from_serialized V bs) (\<lambda>v.
     and_then (vote_verify_signature V v) (\<lambda>_. vote_quote_try_from_vote v))"

definition vote_quote_ensure_active_at :: "vote_quote \<Rightarrow> int \<Rightarrow> vote_config \<Rightarrow> vote_error + vote_quote" where
  "vote_quote_ensure_active_at q moment config =
     and_then (ensure_active_at (dv_validity (vote_decoded (quote_vote q))) moment config) (\<lambda>_. Ok q)"

datatype possibly_expired_vote = PossiblyExpiredVote (expired_vote: vote)

definition possibly_expired_verify :: "vote_lib \<Rightarrow> bytes \<Rightarrow> vote_error + possibly_expired_vote" where
  "possibly_expired_verify V bs = and_then (vote_verify V bs) (\<lambda>v. Ok (PossiblyExpiredVote v))"

definition possibly_expired_ensure_active_at ::
    "possibly_expired_vote \<Rightarrow> int \<Rightarrow> vote_config \<Rightarrow> vote_error + vote" where
  "possibly_expired_ensure_active_at p moment config =
     and_then (ensure_active_at (dv_validity (vote_decoded (expired_vote p))) moment config) (\<lambda>_. Ok (expired_vote p))"

section \<open>Lemmas\<close>

lemma ensure_active_at_exact:
  assumes "0 \<le> allowed_slop_ms c" and "in_i64 (valid_from v)" and "in_i64 (valid_to v)" and "in_i64 m"
  shows "ensure_active_at v m c =
    (if m + allowed_slop_ms c < valid_from v then Inl VMomentBeforeValidityFrom
     else if valid_to v + allowed_slop_ms c < m then Inl VExpired else Inr ())"
  using assms unfolding ensure_active_at_def moment_is_before_from_def is_expired_at_def sat64_def in_i64_def
  by auto

lemma algo_from_issuer_ok:
  "algo_from_issuer a = Inr x \<Longrightarrow> algo_matches_issuer x a \<and> \<not> is_identifier (to_keypair_type a)"
  by (auto simp: algo_from_issuer_def algo_matches_issuer_def is_identifier_iff split: keypair_type.splits)

lemma algo_matches_issuer_iff: "algo_matches_issuer x a \<longleftrightarrow> algo_from_issuer a = Inr x"
  by (cases x; cases "to_keypair_type a") (simp_all add: algo_from_issuer_def algo_matches_issuer_def)

lemma algo_transport [simp]: "algo_from_transport (algo_to_transport x) = x"
  by (cases x) simp_all

lemma rust_chars_str [simp]: "rust_chars (str s) = s"
proof -
  have "char_of (unat (word_of_nat (of_char c) :: byte)) = c" for c
    by (simp add: unat_of_nat)
  then show ?thesis by (simp add: rust_chars_def str_def comp_def)
qed

lemma take_dn_value_with [simp]: "take_dn_value (dn_with_attribute oid v) oid = Some (str v)"
  by (simp add: take_dn_value_def dn_with_attribute_def)

lemma valid_utf8_str:
  assumes "list_all (\<lambda>c. of_char c < (128 :: nat)) s"
  shows "valid_utf8 (str s)"
proof -
  have "utf8_chars ns \<noteq> None" if "\<forall>n \<in> set ns. n < 128" for ns
    using that by (induction ns) auto
  moreover have "unat (word_of_nat (of_char c) :: byte) = of_char c" for c
    by (simp add: unat_of_nat)
  ultimately show ?thesis using assms
    by (auto simp: valid_utf8_def str_def list_all_iff)
qed

definition wf_fee :: "crypto_lib \<Rightarrow> fee \<Rightarrow> bool" where
  "wf_fee L f \<longleftrightarrow> pred_option (wf_account L) (fee_pay_to f) \<and> pred_option (wf_account L) (fee_token f)"

definition wf_fees :: "crypto_lib \<Rightarrow> fees \<Rightarrow> bool" where
  "wf_fees L fs \<longleftrightarrow> fees_entries fs \<noteq> [] \<and> list_all (wf_fee L) (fees_entries fs)"

definition wf_unsigned_vote :: "crypto_lib \<Rightarrow> unsigned_vote \<Rightarrow> bool" where
  "wf_unsigned_vote L u \<longleftrightarrow>
     wf_account L (uv_issuer u) \<and> range_is_well_formed (uv_validity u) \<and>
     asn1_time_range (valid_from (uv_validity u)) \<and> asn1_time_range (valid_to (uv_validity u)) \<and>
     list_all (\<lambda>h. length h = 32) (uv_blocks u) \<and> pred_option (wf_fees L) (uv_fees u)"

context crypto_laws
begin

lemma account_from_octet_roundtrip:
  assumes "wf_account L a"
    and "case kind of KindPayTo \<Rightarrow> pay_to_kind (to_keypair_type a) | KindToken \<Rightarrow> to_keypair_type a = TOKEN"
  shows "account_from_octet L kind (to_public_key_with_type a) = Inr a"
  using assms parse_account_with_type_roundtrip[OF assms(1)]
  by (cases kind) (simp_all add: account_from_octet_def parse_account_with_type_def Let_def del: and_then_eq_Inr)

lemma fee_roundtrip:
  assumes "fee_to_entry q f = Inr e" and "wf_fee L f"
  shows "entry_to_fee L e = Inr (q, f)"
proof -
  have c: "0 \<le> fee_amount f" "\<And>t. fee_token f = Some t \<Longrightarrow> to_keypair_type t = TOKEN"
    "\<And>p. fee_pay_to f = Some p \<Longrightarrow> pay_to_kind (to_keypair_type p)"
    and e: "e = \<lparr>fe_quote = q, fe_amount = fee_amount f,
      fe_pay_to = map_option to_public_key_with_type (fee_pay_to f),
      fe_token = map_option to_public_key_with_type (fee_token f)\<rparr>"
    using assms(1) by (auto simp: fee_to_entry_def split: if_splits option.splits)
  have "transpose_opt (account_from_octet L KindPayTo) (map_option to_public_key_with_type (fee_pay_to f)) = Inr (fee_pay_to f)"
    using assms(2) c(3) by (cases "fee_pay_to f") (auto simp: wf_fee_def account_from_octet_roundtrip)
  moreover have "transpose_opt (account_from_octet L KindToken) (map_option to_public_key_with_type (fee_token f)) = Inr (fee_token f)"
    using assms(2) c(2) by (cases "fee_token f") (auto simp: wf_fee_def account_from_octet_roundtrip)
  ultimately show ?thesis using c(1) by (simp add: entry_to_fee_def e del: and_then_eq_Inr)
qed

lemma fees_fold:
  assumes "traverse (fee_to_entry q) fs = Inr es" and "list_all (wf_fee L) fs"
    and "quote0 = None \<or> quote0 = Some q"
  shows "try_fold (fees_step L) (quote0, acc) es = Inr (if es = [] then quote0 else Some q, acc @ fs)"
  using assms
proof (induction fs arbitrary: es quote0 acc)
  case (Cons f fs)
  then obtain e es' where es: "fee_to_entry q f = Inr e" "traverse (fee_to_entry q) fs = Inr es'" "es = e # es'"
    by auto
  have "fees_step L (quote0, acc) e = Inr (Some q, acc @ [f])"
    using fee_roundtrip[OF es(1)] Cons.prems(2,3) by (auto simp: fees_step_def)
  then show ?case using Cons.IH[OF es(2), of "Some q" "acc @ [f]"] Cons.prems(2) es(3) by simp
qed simp

lemma fees_transport_roundtrip:
  assumes "fees_to_transport fs = Inr t" and "wf_fees L fs"
  shows "fees_from_transport L t = Inr fs"
proof (cases fs)
  case (FeesSingle q f)
  then show ?thesis using assms fee_roundtrip by (auto simp: wf_fees_def)
next
  case (FeesMultiple q fl)
  then obtain es where es: "traverse (fee_to_entry q) fl = Inr es" "t = TFeesMultiple es"
    using assms(1) by auto
  then have "es \<noteq> []" using assms(2) traverse_length[OF es(1)] by (auto simp: wf_fees_def FeesMultiple)
  then show ?thesis using fees_fold[OF es(1), of None "[]"] assms(2) es(2)
    by (simp add: wf_fees_def FeesMultiple del: and_then_eq_Inr)
qed

end

sublocale crypto_laws \<subseteq> fee_transport: fallible_codec fees_to_transport "fees_from_transport L" "wf_fees L"
  by unfold_locales (rule fees_transport_roundtrip)

end
