(* ===== verification/VoteLaws.thy ===== *)
theory VoteLaws
  imports Vote
begin

text \<open>
  The contract between votes and the libraries they use, and what follows from it: a signed vote
  decodes to itself and verifies.
\<close>

locale vote_laws =
  crypto_laws "vl_crypto V" + codec: vote_der_laws "vl_der V" "vl_oid V" for V :: vote_lib +
  assumes hex_bigint: "parse_lower_hex_bigint V (bigint_to_lower_hex V n) = Some n"
    and hex_ascii: "list_all (\<lambda>c. of_char c < (128 :: nat)) (bigint_to_lower_hex V n)"
    and base32_ascii: "list_all (\<lambda>c. of_char c < (128 :: nat)) (base32_encode (vl_crypto V) bs)"
begin

lemma account_string_ascii: "list_all (\<lambda>c. of_char c < (128 :: nat)) (account_to_string (vl_crypto V) a)"
proof -
  obtain bs where "Inr (''keeta_'' @ base32_encode (vl_crypto V) bs) =
      (Inr (account_to_string (vl_crypto V) a) :: account_error + string)"
    using account_to_string_eq[of "vl_crypto V" a]
    unfolding format_public_key_string_def Let_def hash_array_32 and_then.simps and_then_eq_Inr by metis
  then have "account_to_string (vl_crypto V) a = ''keeta_'' @ base32_encode (vl_crypto V) bs" by simp
  then show ?thesis using base32_ascii by simp
qed

lemma build_tbs_wf:
  assumes "build_tbs V serial algo issuer val blocks fs = Inr tbs"
    and "asn1_time_range (valid_from val)" and "asn1_time_range (valid_to val)"
  shows "wf_tbs tbs"
  using assms account_string_ascii hex_ascii
  by (auto simp: build_tbs_def build_tbs_inner_def wf_tbs_def wf_dn_def dn_with_attribute_def valid_utf8_str
      split: if_splits)

lemma subject_public_key_roundtrip:
  assumes "subject_public_key_for_issuer issuer = Inr spk" and "wf_account (vl_crypto V) issuer"
  shows "decode_subject_public_key (vl_crypto V) spk = Inr issuer"
proof -
  have "decode_subject_public_key (vl_crypto V) spk =
      map_err (\<lambda>_. VMalformedVoteSubjectPublicKeyInformation)
        (parse_account_with_type (vl_crypto V) (to_public_key_with_type issuer))"
    using assms(1)
    by (cases issuer) (auto simp: subject_public_key_for_issuer_def decode_subject_public_key_def
        parse_account_with_type_def to_public_key_with_type_def public_key_with_type_def)
  then show ?thesis using parse_account_with_type_roundtrip[OF assms(2)] by simp
qed

lemma traverse_hashes:
  "list_all (\<lambda>h. length h = 32) blocks \<Longrightarrow>
    traverse (\<lambda>raw. if length raw = 32 then Inr raw else Inl e) blocks = Inr blocks"
  by (induction blocks) auto

lemma hash_extension:
  assumes "encode_hash_data (vl_der V) (vl_oid V) \<lparr>hd_algorithm = OID_SHA3_256, hd_hashes = blocks\<rparr> = Inr h"
    and "list_all (\<lambda>h. length h = 32) blocks"
  shows "collect_step V acc \<lparr>ext_oid = OID_HASH_DATA, ext_critical = True, ext_value = h\<rparr> = Inr (Some blocks, snd acc)"
  using codec.hash_data_roundtrip[OF assms(1)] assms(2)
  by (simp add: collect_step_def traverse_hashes del: and_then_eq_Inr)

lemma fees_extension:
  assumes "fees_to_transport f = Inr t" and "encode_fees (vl_der V) t = Inr x" and "wf_fees (vl_crypto V) f"
  shows "collect_step V acc \<lparr>ext_oid = OID_FEES, ext_critical = True, ext_value = x\<rparr> = Inr (fst acc, Some f)"
  using codec.fees_roundtrip[OF assms(2)] fees_transport_roundtrip[OF assms(1,3)]
  by (simp add: collect_step_def oid_defs del: and_then_eq_Inr)

lemma collect_build:
  assumes "build_extension_list V blocks fs = Inr es"
    and "list_all (\<lambda>h. length h = 32) blocks" and "pred_option (wf_fees (vl_crypto V)) fs"
  shows "collect_extensions V es = Inr (blocks, fs)"
proof (cases fs)
  case None
  then show ?thesis using assms
    by (auto simp: build_extension_list_def Let_def collect_extensions_def hash_extension)
next
  case (Some f)
  then obtain h t x where "encode_hash_data (vl_der V) (vl_oid V) \<lparr>hd_algorithm = OID_SHA3_256, hd_hashes = blocks\<rparr> = Inr h"
    "fees_to_transport f = Inr t" "encode_fees (vl_der V) t = Inr x"
    "es = [\<lparr>ext_oid = OID_HASH_DATA, ext_critical = True, ext_value = h\<rparr>,
      \<lparr>ext_oid = OID_FEES, ext_critical = True, ext_value = x\<rparr>]"
    using assms(1) by (auto simp: build_extension_list_def Let_def)
  then show ?thesis using assms(2,3) Some
    by (simp add: collect_extensions_def hash_extension fees_extension del: and_then_eq_Inr)
qed

lemma decode_wrapper_roundtrip:
  assumes "wf_unsigned_vote (vl_crypto V) u" and "algo_from_issuer (uv_issuer u) = Inr algo"
    and "build_tbs V (uv_serial u) algo (uv_issuer u) (uv_validity u) (uv_blocks u) (uv_fees u) = Inr tbs"
    and "cert_encode_tbs V tbs = Inr tbs_bytes" and "cert_encode_vote V tbs algo sig = Inr bs"
  shows "decode_wrapper V bs = Inr \<lparr>dv_serial = uv_serial u, dv_algo = algo, dv_issuer = uv_issuer u,
    dv_validity = uv_validity u, dv_blocks = uv_blocks u, dv_fees = uv_fees u, dv_signature = sig,
    dv_tbs_bytes = tbs_bytes\<rparr>"
proof -
  have wf: "wf_tbs tbs" using build_tbs_wf[OF assms(3)] assms(1) by (simp add: wf_unsigned_vote_def)
  have dec: "decode_vote (vl_der V) (vl_oid V) bs = Inr \<lparr>dvc_tbs = tbs, dvc_tbs_bytes = tbs_bytes,
      dvc_algo = algo_to_transport algo, dvc_signature = sig\<rparr>"
    using codec.vote_roundtrip[of "\<lparr>vc_tbs = tbs, vc_algo = algo_to_transport algo, vc_signature = sig\<rparr>" bs]
      assms(4,5) wf by (auto simp: cert_encode_vote_def cert_encode_tbs_def)
  obtain spk es where parts: "subject_public_key_for_issuer (uv_issuer u) = Inr spk"
    "build_extension_list V (uv_blocks u) (uv_fees u) = Inr es"
    and tbs: "tbs = \<lparr>tbs_serial = uv_serial u, tbs_algo = algo_to_transport algo,
         tbs_issuer = dn_with_attribute OID_COMMON_NAME (account_to_string (vl_crypto V) (uv_issuer u)),
         tbs_validity = \<lparr>not_before = valid_from (uv_validity u), not_after = valid_to (uv_validity u)\<rparr>,
         tbs_subject = dn_with_attribute OID_SERIAL_NUMBER (bigint_to_lower_hex V (uv_serial u)),
         tbs_spk = spk, tbs_extensions = es\<rparr>"
    using assms(3) by (auto simp: build_tbs_def build_tbs_inner_def split: if_splits)
  have "collect_extensions V es = Inr (uv_blocks u, uv_fees u)"
    "decode_subject_public_key (vl_crypto V) spk = Inr (uv_issuer u)"
    "account_from_str (vl_crypto V) (account_to_string (vl_crypto V) (uv_issuer u)) = Inr (uv_issuer u)"
    "validity_try_new (valid_from (uv_validity u)) (valid_to (uv_validity u)) = Inr (uv_validity u)"
    using collect_build[OF parts(2)] subject_public_key_roundtrip[OF parts(1)] account_from_str_roundtrip assms(1)
    by (auto simp: wf_unsigned_vote_def validity_try_new_def range_is_well_formed_def)
  moreover have "algo_matches_issuer algo (uv_issuer u)" using assms(2) algo_matches_issuer_iff by blast
  ultimately show ?thesis
    by (simp add: decode_wrapper_def dec tbs Let_def hex_bigint del: and_then_eq_Inr)
qed

lemma signed_vote_from_serialized:
  assumes "unsigned_vote_sign V u signer = Inr v" and "wf_unsigned_vote (vl_crypto V) u"
  shows "vote_from_serialized V (vote_serialized v) = Inr v"
proof -
  obtain algo tbs tbs_bytes sig bs where parts: "algo_from_issuer (uv_issuer u) = Inr algo"
    "build_tbs V (uv_serial u) algo (uv_issuer u) (uv_validity u) (uv_blocks u) (uv_fees u) = Inr tbs"
    "cert_encode_tbs V tbs = Inr tbs_bytes" "cert_encode_vote V tbs algo sig = Inr bs"
    and v: "v = \<lparr>vote_decoded = \<lparr>dv_serial = uv_serial u, dv_algo = algo, dv_issuer = uv_issuer u,
             dv_validity = uv_validity u, dv_blocks = uv_blocks u, dv_fees = uv_fees u,
             dv_signature = sig, dv_tbs_bytes = tbs_bytes\<rparr>, vote_serialized = bs\<rparr>"
    using assms(1) by (auto simp: unsigned_vote_sign_def)
  show ?thesis using parts decode_wrapper_roundtrip[OF assms(2) parts]
    by (simp add: v vote_from_serialized_def del: and_then_eq_Inr)
qed

end

end
