(* ===== verification/Staple.thy ===== *)
theory Staple
  imports VoteLaws Block "HOL-Library.Multiset"
begin

text \<open>
  Vote staples (\<open>vote/src/staple.rs\<close>, \<open>vote/src/hash.rs\<close>, \<open>vote/src/builder.rs\<close>): a bundle of
  blocks and the votes that endorse them, built in canonical order and verified from its
  compressed octets, and the builders of votes, quotes and staples.
\<close>

section \<open>Staples\<close>

text \<open>What a staple takes from elsewhere: votes, blocks with their codec, and the zlib functions of
  the \<open>miniz_oxide\<close> crate.\<close>

record staple_lib =
  sl_vote :: vote_lib
  sl_block :: block_lib
  sl_backend :: asn1_backend
  zlib_compress :: "bytes \<Rightarrow> bytes"
  zlib_decompress :: "bytes \<Rightarrow> bytes option"

record vote_staple =
  vs_blocks :: "block list"
  vs_votes :: "vote list"
  vs_compressed :: bytes
  vs_canonical :: bytes

definition assert_block_hashes_match :: "bytes list \<Rightarrow> bytes list \<Rightarrow> vote_error + unit" where
  "assert_block_hashes_match actual expected =
     (if length actual \<noteq> length expected then Err VStapleBlockCountMismatch
      else for_each (\<lambda>(l, r). ensure (l = r) VStapleBlockOrderMismatch) (zip actual expected))"

definition validate_vote_against_representative ::
    "vote \<Rightarrow> bytes list \<Rightarrow> bool \<Rightarrow> vote_config \<Rightarrow> int \<Rightarrow> vote_error + unit" where
  "validate_vote_against_representative v expected_blocks representative_permanent config moment =
     (if vote_is_quote v then Err VMalformedFeesQuoteInvalid
      else
      and_then (ensure_active_at (dv_validity (vote_decoded v)) moment config) (\<lambda>_.
      and_then (assert_block_hashes_match (dv_blocks (vote_decoded v)) expected_blocks) (\<lambda>_.
      let vote_permanent = is_permanent_at (dv_validity (vote_decoded v)) moment config in
      if vote_permanent \<noteq> representative_permanent then Err VStaplePermanenceMismatch
      else if vote_permanent \<and> dv_fees (vote_decoded v) \<noteq> None then Err VMalformedFeesInPermanentVote
      else Ok ())))"

definition vote_invariant_step ::
    "bytes list \<Rightarrow> bool \<Rightarrow> vote_config \<Rightarrow> int \<Rightarrow> bytes list \<Rightarrow> vote \<Rightarrow> vote_error + bytes list" where
  "vote_invariant_step expected_blocks permanent config moment seen_issuers v =
     and_then (validate_vote_against_representative v expected_blocks permanent config moment) (\<lambda>_.
     let issuer_bytes = to_public_key_with_type (dv_issuer (vote_decoded v)) in
     if issuer_bytes \<in> set seen_issuers then Err VStapleDuplicateIssuer
     else Ok (seen_issuers @ [issuer_bytes]))"

definition validate_vote_invariants :: "vote list \<Rightarrow> vote_config \<Rightarrow> int \<Rightarrow> vote_error + unit" where
  "validate_vote_invariants votes config moment =
     (case votes of
        [] \<Rightarrow> Err VStapleVotesAtLeastOne
      | representative # _ \<Rightarrow>
          and_then (try_fold
            (vote_invariant_step (dv_blocks (vote_decoded representative))
               (is_permanent_at (dv_validity (vote_decoded representative)) moment config) config moment)
            [] votes) (\<lambda>_. Ok ()))"

fun position :: "('a \<Rightarrow> bool) \<Rightarrow> 'a list \<Rightarrow> nat option" where
  "position P [] = None"
| "position P (x # xs) = (if P x then Some 0 else map_option Suc (position P xs))"

definition reorder_step :: "bytes list \<Rightarrow> block option list \<Rightarrow> block \<Rightarrow> vote_error + block option list" where
  "reorder_step expected reordered b =
     and_then (ok_or VStapleMissingBlock (position (\<lambda>h. h = blk_hash b) expected)) (\<lambda>i.
       if reordered ! i \<noteq> None then Err VStapleMissingBlock else Ok (reordered[i := Some b]))"

definition reorder_blocks_to_match :: "block list \<Rightarrow> bytes list \<Rightarrow> vote_error + block list" where
  "reorder_blocks_to_match blocks expected =
     and_then (try_fold (reorder_step expected) (replicate (length expected) None) blocks) (\<lambda>reordered.
       traverse (ok_or VStapleMissingBlock) reordered)"

definition assert_block_order :: "block list \<Rightarrow> bytes list \<Rightarrow> vote_error + unit" where
  "assert_block_order blocks expected =
     (if length blocks \<noteq> length expected then Err VStapleBlockCountMismatch
      else for_each (\<lambda>(b, h). ensure (blk_hash b = h) VStapleBlockOrderMismatch) (zip blocks expected))"

definition vote_order_step :: "vote_lib \<Rightarrow> bytes option \<Rightarrow> vote \<Rightarrow> vote_error + bytes option" where
  "vote_order_step V prev v =
     (let current = vote_hash V v in
      case prev of
        Some previous \<Rightarrow> if current < previous then Err VStapleInvalidConstruction else Ok (Some current)
      | None \<Rightarrow> Ok (Some current))"

definition assert_vote_order :: "vote_lib \<Rightarrow> vote list \<Rightarrow> vote_error + unit" where
  "assert_vote_order V votes = and_then (try_fold (vote_order_step V) None votes) (\<lambda>_. Ok ())"

definition encode_canonical :: "staple_lib \<Rightarrow> block list \<Rightarrow> vote list \<Rightarrow> vote_error + bytes" where
  "encode_canonical S blocks votes =
     map_err VAsn1 (encode_vote_staple (vl_der (sl_vote S))
       \<lparr>vsb_blocks = map blk_bytes blocks, vsb_votes = map vote_serialized votes\<rparr>)"

fun staple_decode_error :: "asn1_error \<Rightarrow> vote_error" where
  "staple_decode_error (VoteStapleDecode StapleBlocks) = VMalformedStapleElement ''blocks''"
| "staple_decode_error (VoteStapleDecode StapleVotes) = VMalformedStapleElement ''votes''"
| "staple_decode_error _ = VMalformedStaple"

definition decode_canonical :: "staple_lib \<Rightarrow> bytes \<Rightarrow> vote_error + block list \<times> vote list" where
  "decode_canonical S bs =
     and_then (map_err staple_decode_error (decode_vote_staple (vl_der (sl_vote S)) bs)) (\<lambda>bundle.
     and_then (traverse (\<lambda>raw. map_err VBlock (block_try_from_bytes (sl_block S) (sl_backend S) raw))
         (vsb_blocks bundle)) (\<lambda>blocks.
     and_then (traverse (vote_verify (sl_vote S)) (vsb_votes bundle)) (\<lambda>votes. Ok (blocks, votes))))"

definition deflate :: "staple_lib \<Rightarrow> bytes \<Rightarrow> vote_error + bytes" where
  "deflate S input = Ok (zlib_compress S input)"

definition inflate :: "staple_lib \<Rightarrow> bytes \<Rightarrow> vote_error + bytes" where
  "inflate S input = ok_or VMalformedStaple (zlib_decompress S input)"

definition vote_staple_try_new ::
    "staple_lib \<Rightarrow> block list \<Rightarrow> vote list \<Rightarrow> vote_config \<Rightarrow> int \<Rightarrow> vote_error + vote_staple" where
  "vote_staple_try_new S blocks votes config moment =
     (if votes = [] then Err VStapleVotesAtLeastOne
      else if blocks = [] then Err VStapleBlocksAtLeastOne
      else
      and_then (validate_vote_invariants votes config moment) (\<lambda>_.
      and_then (reorder_blocks_to_match blocks (dv_blocks (vote_decoded (hd votes)))) (\<lambda>blocks.
      let votes = sort_key (vote_hash (sl_vote S)) votes in
      and_then (encode_canonical S blocks votes) (\<lambda>canonical.
      and_then (deflate S canonical) (\<lambda>compressed.
        Ok \<lparr>vs_blocks = blocks, vs_votes = votes, vs_compressed = compressed, vs_canonical = canonical\<rparr>)))))"

definition vote_staple_verify :: "staple_lib \<Rightarrow> bytes \<Rightarrow> vote_config \<Rightarrow> int \<Rightarrow> vote_error + vote_staple" where
  "vote_staple_verify S compressed config moment =
     and_then (inflate S compressed) (\<lambda>canonical.
     and_then (decode_canonical S canonical) (\<lambda>(blocks, votes).
     if votes = [] then Err VStapleVotesAtLeastOne
     else if blocks = [] then Err VStapleBlocksAtLeastOne
     else
     and_then (validate_vote_invariants votes config moment) (\<lambda>_.
     and_then (assert_block_order blocks (dv_blocks (vote_decoded (hd votes)))) (\<lambda>_.
     and_then (assert_vote_order (sl_vote S) votes) (\<lambda>_.
       Ok \<lparr>vs_blocks = blocks, vs_votes = votes, vs_compressed = compressed, vs_canonical = canonical\<rparr>)))))"

definition vote_staple_hash :: "staple_lib \<Rightarrow> vote_staple \<Rightarrow> bytes" where
  "vote_staple_hash S st = hash_default (vl_crypto (sl_vote S)) (vs_canonical st)"

definition vote_block_hash_from :: "crypto_lib \<Rightarrow> bytes list \<Rightarrow> bytes" where
  "vote_block_hash_from L hashes = hash_default L (concat hashes)"

definition vote_staple_block_hash :: "staple_lib \<Rightarrow> vote_staple \<Rightarrow> bytes" where
  "vote_staple_block_hash S st = vote_block_hash_from (vl_crypto (sl_vote S)) (map blk_hash (vs_blocks st))"

section \<open>Lemmas\<close>

lemma for_each_zip_ensure:
  assumes "length xs = length ys"
  shows "for_each (\<lambda>(x, y). ensure (f x = y) e) (zip xs ys) = Inr u \<longleftrightarrow> map f xs = ys"
  using assms by (induction xs ys rule: list_induct2) auto

lemma assert_block_hashes_match_ok [simp]:
  "assert_block_hashes_match actual expected = Inr u \<longleftrightarrow> actual = expected"
  using for_each_zip_ensure[of actual expected "\<lambda>x. x" VStapleBlockOrderMismatch u]
  by (auto simp: assert_block_hashes_match_def)

lemma assert_block_order_ok [simp]:
  "assert_block_order blocks expected = Inr u \<longleftrightarrow> map blk_hash blocks = expected"
  using for_each_zip_ensure[of blocks expected blk_hash VStapleBlockOrderMismatch u]
  by (auto simp: assert_block_order_def)

definition vote_acceptable :: "bytes list \<Rightarrow> bool \<Rightarrow> vote_config \<Rightarrow> int \<Rightarrow> vote \<Rightarrow> bool" where
  "vote_acceptable expected permanent config moment v \<longleftrightarrow>
     \<not> vote_is_quote v \<and> ensure_active_at (dv_validity (vote_decoded v)) moment config = Inr () \<and>
     dv_blocks (vote_decoded v) = expected \<and>
     is_permanent_at (dv_validity (vote_decoded v)) moment config = permanent \<and>
     (permanent \<longrightarrow> dv_fees (vote_decoded v) = None)"

lemma validate_vote_ok [simp]:
  "validate_vote_against_representative v expected permanent config moment = Inr u \<longleftrightarrow>
     vote_acceptable expected permanent config moment v"
  by (auto simp: validate_vote_against_representative_def vote_acceptable_def Let_def)

lemma vote_invariant_fold:
  "try_fold (vote_invariant_step expected permanent config moment) seen vs = Inr seen' \<longleftrightarrow>
     list_all (vote_acceptable expected permanent config moment) vs \<and>
     distinct (map (dv_issuer \<circ> vote_decoded) vs) \<and>
     to_public_key_with_type ` set (map (dv_issuer \<circ> vote_decoded) vs) \<inter> set seen = {} \<and>
     seen' = seen @ map (to_public_key_with_type \<circ> dv_issuer \<circ> vote_decoded) vs"
proof (induction vs arbitrary: seen)
  case (Cons v vs)
  then show ?case by (auto simp: vote_invariant_step_def Let_def)
qed auto

definition votes_agree :: "vote_config \<Rightarrow> int \<Rightarrow> vote list \<Rightarrow> bool" where
  "votes_agree config moment vs \<longleftrightarrow>
     vs \<noteq> [] \<and> distinct (map (dv_issuer \<circ> vote_decoded) vs) \<and>
     (\<exists>expected permanent. list_all (vote_acceptable expected permanent config moment) vs)"

lemma validate_vote_invariants_ok:
  "validate_vote_invariants vs config moment = Inr u \<longleftrightarrow> votes_agree config moment vs"
proof (cases vs)
  case (Cons r rest)
  let ?E = "dv_blocks (vote_decoded r)" and ?P = "is_permanent_at (dv_validity (vote_decoded r)) moment config"
  have "list_all (vote_acceptable e p config moment) vs \<Longrightarrow> e = ?E \<and> p = ?P" for e p
    by (auto simp: Cons vote_acceptable_def)
  moreover have "validate_vote_invariants vs config moment = Inr u \<longleftrightarrow>
      list_all (vote_acceptable ?E ?P config moment) vs \<and> distinct (map (dv_issuer \<circ> vote_decoded) vs)"
    using vote_invariant_fold[of ?E ?P config moment "[]" vs]
    by (simp add: validate_vote_invariants_def Cons del: try_fold.simps)
  ultimately show ?thesis unfolding votes_agree_def using Cons by blast
qed (simp add: validate_vote_invariants_def votes_agree_def)

lemma vote_order_fold:
  "(\<exists>p. try_fold (vote_order_step V) prev vs = Inr p) \<longleftrightarrow>
     sorted ((case prev of None \<Rightarrow> [] | Some h \<Rightarrow> [h]) @ map (vote_hash V) vs)"
proof (induction vs arbitrary: prev)
  case (Cons v vs)
  show ?case
  proof (cases prev)
    case None
    then show ?thesis using Cons[of "Some (vote_hash V v)"] by (simp add: vote_order_step_def Let_def)
  next
    case (Some h)
    then show ?thesis using Cons[of "Some (vote_hash V v)"]
      by (auto simp: vote_order_step_def Let_def not_less intro: order_trans)
  qed
qed (simp split: option.splits)

lemma assert_vote_order_ok [simp]: "assert_vote_order V vs = Inr u \<longleftrightarrow> sorted (map (vote_hash V) vs)"
  using vote_order_fold[of V None vs] by (auto simp: assert_vote_order_def)

section \<open>Reordering\<close>

lemma position_Some:
  "position P xs = Some i \<longleftrightarrow> i < length xs \<and> P (xs ! i) \<and> (\<forall>j < i. \<not> P (xs ! j))"
proof (induction xs arbitrary: i)
  case (Cons x xs)
  then show ?case by (cases i) (auto simp: All_less_Suc2)
qed simp

lemma position_distinct: "distinct xs \<Longrightarrow> i < length xs \<Longrightarrow> position (\<lambda>h. h = xs ! i) xs = Some i"
  by (auto simp: position_Some nth_eq_iff_index_eq)

lemma distinct_of_positions:
  assumes "\<And>i. i < length xs \<Longrightarrow> position (\<lambda>h. h = xs ! i) xs = Some i"
  shows "distinct xs"
  unfolding distinct_conv_nth using assms by (metis option.inject)

definition slots :: "'a option list \<Rightarrow> 'a multiset" where
  "slots R = mset (List.map_filter id R)"

lemma slots_update:
  "i < length R \<Longrightarrow> R ! i = None \<Longrightarrow> slots (R[i := Some b]) = add_mset b (slots R)"
proof (induction R arbitrary: i)
  case (Cons x R)
  then show ?case by (cases i) (auto simp: slots_def map_filter_simps split: option.splits)
qed simp

lemma slots_replicate [simp]: "slots (replicate n None) = {#}"
  by (induction n) (auto simp: slots_def map_filter_simps)

lemma slots_map_Some [simp]: "slots (map Some xs) = mset xs"
  by (induction xs) (auto simp: slots_def map_filter_simps)

definition slots_ok :: "bytes list \<Rightarrow> block option list \<Rightarrow> bool" where
  "slots_ok expected R \<longleftrightarrow> length R = length expected \<and>
     (\<forall>i < length R. \<forall>b. R ! i = Some b \<longrightarrow> position (\<lambda>h. h = blk_hash b) expected = Some i)"

lemma reorder_step_ok:
  "reorder_step expected R b = Inr R' \<longleftrightarrow>
     (\<exists>i. position (\<lambda>h. h = blk_hash b) expected = Some i \<and> R ! i = None \<and> R' = R[i := Some b])"
  by (auto simp: reorder_step_def split: option.splits)

lemma reorder_fold:
  assumes "try_fold (reorder_step expected) R bs = Inr R'" and "slots_ok expected R"
  shows "slots_ok expected R' \<and> slots R' = slots R + mset bs"
  using assms
proof (induction bs arbitrary: R)
  case (Cons b bs)
  then obtain i where i: "position (\<lambda>h. h = blk_hash b) expected = Some i" "R ! i = None"
    "try_fold (reorder_step expected) (R[i := Some b]) bs = Inr R'"
    by (auto simp: reorder_step_ok)
  then have "i < length R" using Cons.prems(2) by (simp add: slots_ok_def position_Some)
  moreover have "slots_ok expected (R[i := Some b])"
    using Cons.prems(2) i(1) \<open>i < length R\<close>
    by (auto simp: slots_ok_def nth_list_update split: if_splits)
  ultimately show ?case using Cons.IH[OF i(3)] i(2) by (simp add: slots_update)
qed simp

lemma traverse_ok_or: "traverse (ok_or e) R = Inr out \<longleftrightarrow> R = map Some out"
proof (induction R arbitrary: out)
  case (Cons x R)
  then show ?case by (cases out) auto
qed auto

lemma reorder_sound:
  assumes "reorder_blocks_to_match bs expected = Inr out"
  shows "distinct expected \<and> mset out = mset bs \<and> map blk_hash out = expected"
proof -
  have R: "try_fold (reorder_step expected) (replicate (length expected) None) bs = Inr (map Some out)"
    using assms by (auto simp: reorder_blocks_to_match_def traverse_ok_or)
  have init: "slots_ok expected (replicate (length expected) None)" by (simp add: slots_ok_def)
  have ok: "slots_ok expected (map Some out)" "mset out = mset bs"
    using reorder_fold[OF R init] by simp_all
  then have len: "length out = length expected"
    and pos: "\<And>i. i < length out \<Longrightarrow> position (\<lambda>h. h = blk_hash (out ! i)) expected = Some i"
    by (auto simp: slots_ok_def)
  then have h: "expected = map blk_hash out"
    by (auto simp: position_Some intro!: nth_equalityI)
  then have "distinct expected"
    using distinct_of_positions[of "map blk_hash out"] pos h by simp
  then show ?thesis using h ok(2) by simp
qed

definition placed :: "bytes list \<Rightarrow> block list \<Rightarrow> block option list" where
  "placed expected bs = map (\<lambda>h. find (\<lambda>b. blk_hash b = h) bs) expected"

lemma find_append: "find P (xs @ ys) = (case find P xs of None \<Rightarrow> find P ys | Some x \<Rightarrow> Some x)"
  by (induction xs) auto

lemma placed_step:
  assumes "distinct expected" and "blk_hash b \<in> set expected" and "blk_hash b \<notin> blk_hash ` set ps"
  shows "reorder_step expected (placed expected ps) b = Inr (placed expected (ps @ [b]))"
proof -
  obtain i where i: "i < length expected" "expected ! i = blk_hash b"
    using assms(2) by (auto simp: in_set_conv_nth)
  have none: "find (\<lambda>x. blk_hash x = blk_hash b) ps = None"
    using assms(3) by (auto simp: find_None_iff image_iff)
  have "(placed expected ps)[i := Some b] = placed expected (ps @ [b])"
  proof (rule nth_equalityI)
    fix j assume "j < length ((placed expected ps)[i := Some b])"
    then have j: "j < length expected" by (simp add: placed_def)
    show "(placed expected ps)[i := Some b] ! j = placed expected (ps @ [b]) ! j"
    proof (cases "j = i")
      case True
      then show ?thesis using j i none by (simp add: placed_def find_append)
    next
      case False
      then have "expected ! j \<noteq> blk_hash b" using assms(1) i j by (metis nth_eq_iff_index_eq)
      then show ?thesis using False j by (auto simp: placed_def find_append split: option.splits)
    qed
  qed (simp add: placed_def)
  then show ?thesis
    using position_distinct[OF assms(1) i(1)] i none by (simp add: reorder_step_def placed_def)
qed

lemma placed_fold:
  assumes "distinct expected" and "distinct (map blk_hash (ps @ bs))" and "blk_hash ` set bs \<subseteq> set expected"
  shows "try_fold (reorder_step expected) (placed expected ps) bs = Inr (placed expected (ps @ bs))"
  using assms(2,3)
proof (induction bs arbitrary: ps)
  case (Cons b bs)
  then show ?case using placed_step[OF assms(1), of b ps] Cons.IH[of "ps @ [b]"] by (auto simp: image_iff)
qed simp

lemma reorder_complete:
  assumes "distinct expected" and "mset (map blk_hash bs) = mset expected"
  shows "\<exists>out. reorder_blocks_to_match bs expected = Inr out"
proof -
  have d: "distinct (map blk_hash bs)" and st: "blk_hash ` set bs = set expected"
    using assms mset_eq_imp_distinct_iff mset_eq_setD by (metis, metis list.set_map)
  have "placed expected [] = replicate (length expected) None" by (simp add: placed_def map_replicate_const)
  then have "try_fold (reorder_step expected) (replicate (length expected) None) bs = Inr (placed expected bs)"
    using placed_fold[OF assms(1), of "[]" bs] d st by simp
  moreover have "\<exists>out. placed expected bs = map Some out"
  proof -
    have "find (\<lambda>b. blk_hash b = h) bs \<noteq> None" if h: "h \<in> set expected" for h
    proof -
      obtain b where "b \<in> set bs" "blk_hash b = h" using h st by (metis imageE)
      then show ?thesis by (auto simp: find_None_iff)
    qed
    then have "placed expected bs = map Some (map (\<lambda>h. the (find (\<lambda>b. blk_hash b = h) bs)) expected)"
      by (auto simp: placed_def)
    then show ?thesis by blast
  qed
  ultimately show ?thesis by (auto simp: reorder_blocks_to_match_def traverse_ok_or)
qed

lemma reorder_iff:
  "reorder_blocks_to_match bs expected = Inr out \<longleftrightarrow>
     distinct expected \<and> mset out = mset bs \<and> map blk_hash out = expected"
proof
  assume R: "distinct expected \<and> mset out = mset bs \<and> map blk_hash out = expected"
  then have "mset (map blk_hash bs) = mset expected" by (metis mset_map)
  then obtain out' where out': "reorder_blocks_to_match bs expected = Inr out'"
    using reorder_complete R by blast
  have "set out = set out'" "map blk_hash out = map blk_hash out'"
    using reorder_sound[OF out'] R by (metis mset_eq_setD, simp)
  moreover have "inj_on blk_hash (set out)" using R by (metis distinct_map)
  ultimately have "out = out'" by (metis map_inj_on sup.idem)
  then show "reorder_blocks_to_match bs expected = Inr out" using out' by simp
qed (rule reorder_sound)

section \<open>The contract of a staple\<close>

lemma votes_agree_mset:
  assumes "mset vs' = mset vs"
  shows "votes_agree config moment vs' \<longleftrightarrow> votes_agree config moment vs"
proof -
  have "set vs' = set vs" using assms mset_eq_setD by blast
  moreover have "distinct (map (dv_issuer \<circ> vote_decoded) vs') \<longleftrightarrow> distinct (map (dv_issuer \<circ> vote_decoded) vs)"
    using assms by (intro mset_eq_imp_distinct_iff) simp
  moreover have "vs' = [] \<longleftrightarrow> vs = []" using assms by auto
  ultimately show ?thesis by (simp add: votes_agree_def list_all_iff)
qed

lemma votes_agree_nonempty: "votes_agree config moment vs \<Longrightarrow> vs \<noteq> []"
  by (simp add: votes_agree_def)

lemma votes_agree_blocks:
  "votes_agree config moment vs \<Longrightarrow> v \<in> set vs \<Longrightarrow> dv_blocks (vote_decoded v) = dv_blocks (vote_decoded (hd vs))"
  by (cases vs) (auto simp: votes_agree_def vote_acceptable_def list_all_iff)

text \<open>\<open>staple_inv\<close> is what every staple a caller holds satisfies; \<open>staple_spec\<close> is the abstract
  construction, on the multisets of blocks and votes, without an order of the arguments.\<close>

definition staple_inv :: "vote_lib \<Rightarrow> vote_config \<Rightarrow> int \<Rightarrow> vote_staple \<Rightarrow> bool" where
  "staple_inv V config moment st \<longleftrightarrow>
     vs_blocks st \<noteq> [] \<and> votes_agree config moment (vs_votes st) \<and>
     (\<forall>v \<in> set (vs_votes st). dv_blocks (vote_decoded v) = map blk_hash (vs_blocks st)) \<and>
     sorted (map (vote_hash V) (vs_votes st))"

definition staple_spec ::
    "staple_lib \<Rightarrow> vote_config \<Rightarrow> int \<Rightarrow> block multiset \<Rightarrow> vote multiset \<Rightarrow> vote_staple \<Rightarrow> bool" where
  "staple_spec S config moment B W st \<longleftrightarrow>
     mset (vs_blocks st) = B \<and> mset (vs_votes st) = W \<and> distinct (map blk_hash (vs_blocks st)) \<and>
     staple_inv (sl_vote S) config moment st \<and>
     encode_canonical S (vs_blocks st) (vs_votes st) = Inr (vs_canonical st) \<and>
     vs_compressed st = zlib_compress S (vs_canonical st)"

lemma staple_invI:
  assumes "votes_agree config moment vs" and "map blk_hash bs = dv_blocks (vote_decoded (hd vs))" and "bs \<noteq> []"
    and "mset (vs_votes st) = mset vs" and "sorted (map (vote_hash V) (vs_votes st))" and "vs_blocks st = bs"
  shows "staple_inv V config moment st"
  using assms votes_agree_mset[OF assms(4)] votes_agree_blocks[OF assms(1)] mset_eq_setD[OF assms(4)]
  by (auto simp: staple_inv_def)

lemma vote_staple_try_new_ok:
  "vote_staple_try_new S bs vs config moment = Inr st \<longleftrightarrow>
     bs \<noteq> [] \<and> votes_agree config moment vs \<and>
     reorder_blocks_to_match bs (dv_blocks (vote_decoded (hd vs))) = Inr (vs_blocks st) \<and>
     vs_votes st = sort_key (vote_hash (sl_vote S)) vs \<and>
     encode_canonical S (vs_blocks st) (vs_votes st) = Inr (vs_canonical st) \<and>
     vs_compressed st = zlib_compress S (vs_canonical st)"
  using votes_agree_nonempty[of config moment vs]
  by (auto simp: vote_staple_try_new_def deflate_def Let_def validate_vote_invariants_ok
      intro!: vote_staple.equality)

lemma vote_staple_try_new_sound:
  assumes "vote_staple_try_new S bs vs config moment = Inr st"
  shows "staple_spec S config moment (mset bs) (mset vs) st"
proof -
  have t: "bs \<noteq> []" "votes_agree config moment vs" "vs_votes st = sort_key (vote_hash (sl_vote S)) vs"
    "reorder_blocks_to_match bs (dv_blocks (vote_decoded (hd vs))) = Inr (vs_blocks st)"
    "encode_canonical S (vs_blocks st) (vs_votes st) = Inr (vs_canonical st)"
    "vs_compressed st = zlib_compress S (vs_canonical st)"
    using assms unfolding vote_staple_try_new_ok by blast+
  have r: "mset (vs_blocks st) = mset bs" "map blk_hash (vs_blocks st) = dv_blocks (vote_decoded (hd vs))"
    "distinct (map blk_hash (vs_blocks st))"
    using t(4) by (auto simp: reorder_iff)
  have "vs_blocks st \<noteq> []" using r(1) t(1) by auto
  then have "staple_inv (sl_vote S) config moment st"
    using staple_invI[OF t(2) r(2)] t(3) by simp
  then show ?thesis using r t(3,5,6) by (simp add: staple_spec_def)
qed

lemma sort_key_unique:
  assumes "mset ys = mset xs" and "sorted (map f ys)" and "inj_on f (set ys)"
  shows "ys = sort_key f xs"
proof -
  have "mset (map f ys) = mset (map f (sort_key f xs))" using assms(1) by simp
  then have "map f ys = map f (sort_key f xs)"
    using assms(2) sorted_sort_key[of f xs] by (metis properties_for_sort)
  then show ?thesis using assms(3) mset_eq_setD[OF assms(1)] by (intro map_inj_on[of f]) simp_all
qed

lemma vote_staple_try_new_complete:
  assumes "staple_spec S config moment (mset bs) (mset vs) st" and "inj_on (vote_hash (sl_vote S)) (set vs)"
  shows "vote_staple_try_new S bs vs config moment = Inr st"
proof -
  have s: "mset (vs_blocks st) = mset bs" "mset (vs_votes st) = mset vs" "distinct (map blk_hash (vs_blocks st))"
    "staple_inv (sl_vote S) config moment st"
    "encode_canonical S (vs_blocks st) (vs_votes st) = Inr (vs_canonical st)"
    "vs_compressed st = zlib_compress S (vs_canonical st)"
    using assms(1) by (auto simp: staple_spec_def)
  have a: "votes_agree config moment vs" "vs_blocks st \<noteq> []" "sorted (map (vote_hash (sl_vote S)) (vs_votes st))"
    using s(4) votes_agree_mset[OF s(2)] by (auto simp: staple_inv_def)
  have "vs \<noteq> []" using a(1) by (simp add: votes_agree_def)
  then have "dv_blocks (vote_decoded (hd vs)) = map blk_hash (vs_blocks st)"
    using s(4) mset_eq_setD[OF s(2)] by (simp add: staple_inv_def)
  moreover have "vs_votes st = sort_key (vote_hash (sl_vote S)) vs"
    using sort_key_unique[OF s(2) a(3)] assms(2) mset_eq_setD[OF s(2)] by simp
  moreover have "bs \<noteq> []" using s(1) a(2) by auto
  ultimately show ?thesis using s a by (simp add: vote_staple_try_new_ok reorder_iff)
qed

lemma vote_staple_verify_ok:
  "vote_staple_verify S bs config moment = Inr st \<longleftrightarrow>
     zlib_decompress S bs = Some (vs_canonical st) \<and> vs_compressed st = bs \<and>
     decode_canonical S (vs_canonical st) = Inr (vs_blocks st, vs_votes st) \<and>
     staple_inv (sl_vote S) config moment st"
  (is "_ \<longleftrightarrow> ?R")
proof
  assume ?R
  then have "vs_votes st \<noteq> []" "vs_blocks st \<noteq> []" "zlib_decompress S bs = Some (vs_canonical st)"
    "decode_canonical S (vs_canonical st) = Inr (vs_blocks st, vs_votes st)" "vs_compressed st = bs"
    "validate_vote_invariants (vs_votes st) config moment = Inr ()"
    "map blk_hash (vs_blocks st) = dv_blocks (vote_decoded (hd (vs_votes st)))"
    "sorted (map (vote_hash (sl_vote S)) (vs_votes st))"
    using votes_agree_nonempty by (auto simp: validate_vote_invariants_ok staple_inv_def)
  then show "vote_staple_verify S bs config moment = Inr st"
    by (simp add: vote_staple_verify_def inflate_def vote_staple.equality)
next
  assume v: "vote_staple_verify S bs config moment = Inr st"
  have "votes_agree config moment (vs_votes st)" "vs_blocks st \<noteq> []"
    "map blk_hash (vs_blocks st) = dv_blocks (vote_decoded (hd (vs_votes st)))"
    "sorted (map (vote_hash (sl_vote S)) (vs_votes st))"
    using v by (auto simp: vote_staple_verify_def validate_vote_invariants_ok split: if_splits)
  then have "staple_inv (sl_vote S) config moment st" using staple_invI by blast
  moreover have "zlib_decompress S bs = Some (vs_canonical st)" "vs_compressed st = bs"
    "decode_canonical S (vs_canonical st) = Inr (vs_blocks st, vs_votes st)"
    using v by (auto simp: vote_staple_verify_def inflate_def split: if_splits)
  ultimately show ?R by simp
qed

text \<open>What a staple takes from its libraries: the laws of votes, and that decompression inverts
  compression.\<close>

locale staple_laws = vote_laws "sl_vote S" for S :: staple_lib +
  assumes zlib_roundtrip: "zlib_decompress S (zlib_compress S bs) = Some bs"
begin

lemma decode_encode_canonical:
  assumes "encode_canonical S bs vs = Inr canonical"
    and "\<And>b. b \<in> set bs \<Longrightarrow> block_try_from_bytes (sl_block S) (sl_backend S) (blk_bytes b) = Inr b"
    and "\<And>v. v \<in> set vs \<Longrightarrow> vote_verify (sl_vote S) (vote_serialized v) = Inr v"
  shows "decode_canonical S canonical = Inr (bs, vs)"
proof -
  have trav: "traverse f (map g xs) = Inr xs" if "\<And>x. x \<in> set xs \<Longrightarrow> f (g x) = Inr x"
    for f :: "'a \<Rightarrow> 'e + 'b" and g and xs :: "'b list"
    using that by (induction xs) auto
  have "decode_vote_staple (vl_der (sl_vote S)) canonical =
      Inr \<lparr>vsb_blocks = map blk_bytes bs, vsb_votes = map vote_serialized vs\<rparr>"
    using assms(1) codec.staple_roundtrip by (auto simp: encode_canonical_def)
  moreover have "traverse (\<lambda>raw. map_err VBlock (block_try_from_bytes (sl_block S) (sl_backend S) raw))
      (map blk_bytes bs) = Inr bs"
    using assms(2) by (intro trav) simp
  moreover have "traverse (vote_verify (sl_vote S)) (map vote_serialized vs) = Inr vs"
    using assms(3) by (rule trav)
  ultimately show ?thesis by (simp add: decode_canonical_def del: and_then_eq_Inr)
qed

lemma staple_bytes_accepted:
  assumes "vote_staple_try_new S bs vs config moment = Inr st"
    and "\<And>b. b \<in> set bs \<Longrightarrow> block_try_from_bytes (sl_block S) (sl_backend S) (blk_bytes b) = Inr b"
    and "\<And>v. v \<in> set vs \<Longrightarrow> vote_verify (sl_vote S) (vote_serialized v) = Inr v"
  shows "vote_staple_verify S (vs_compressed st) config moment = Inr st"
proof -
  have s: "mset (vs_blocks st) = mset bs" "mset (vs_votes st) = mset vs" "staple_inv (sl_vote S) config moment st"
    "encode_canonical S (vs_blocks st) (vs_votes st) = Inr (vs_canonical st)"
    "vs_compressed st = zlib_compress S (vs_canonical st)"
    using vote_staple_try_new_sound[OF assms(1)] by (auto simp: staple_spec_def)
  have "decode_canonical S (vs_canonical st) = Inr (vs_blocks st, vs_votes st)"
    using decode_encode_canonical[OF s(4)] assms(2,3) mset_eq_setD[OF s(1)] mset_eq_setD[OF s(2)] by simp
  then show ?thesis using s zlib_roundtrip by (simp add: vote_staple_verify_ok)
qed

end

end
