(* ===== verification/VoteBuilder.thy ===== *)
theory VoteBuilder
  imports Staple
begin

text \<open>
  The builders of votes, quotes and staples (\<open>vote/src/builder.rs\<close>).  Setters return the updated
  builder, as the source's by-value methods do; the build methods validate that the required fields
  were set.  The calendar functions of the \<open>chrono\<close> crate are a parameter; what the permanent
  window needs of them is the locale \<open>chrono_laws\<close>.
\<close>

section \<open>Calendar functions (\<open>chrono\<close>)\<close>

record chrono_lib =
  from_timestamp_millis :: "int \<Rightarrow> int option"
  chrono_year :: "int \<Rightarrow> int"
  with_ymd_midnight :: "int \<Rightarrow> nat \<Rightarrow> nat \<Rightarrow> int option"

definition block_time_from_unix_millis :: "chrono_lib \<Rightarrow> int \<Rightarrow> int option" where
  "block_time_from_unix_millis C millis = from_timestamp_millis C millis"

section \<open>Vote builder\<close>

record vote_builder =
  vb_serial :: "int option"
  vb_issuer :: "generic_account option"
  vb_validity_from :: "int option"
  vb_validity_to :: "int option"
  vb_blocks :: "bytes list"
  vb_fees :: "fees option"
  vb_permanent :: bool

definition vote_builder_new :: vote_builder where
  "vote_builder_new =
     \<lparr>vb_serial = None, vb_issuer = None, vb_validity_from = None, vb_validity_to = None,
      vb_blocks = [], vb_fees = None, vb_permanent = False\<rparr>"

definition set_serial :: "int \<Rightarrow> vote_builder \<Rightarrow> vote_builder" where
  "set_serial serial b = b\<lparr>vb_serial := Some serial\<rparr>"

definition set_issuer :: "generic_account \<Rightarrow> vote_builder \<Rightarrow> vote_builder" where
  "set_issuer issuer b = b\<lparr>vb_issuer := Some issuer\<rparr>"

definition set_validity :: "int \<Rightarrow> int \<Rightarrow> vote_builder \<Rightarrow> vote_builder" where
  "set_validity from_ms to_ms b = b\<lparr>vb_validity_from := Some from_ms, vb_validity_to := Some to_ms\<rparr>"

definition set_validity_from :: "int \<Rightarrow> vote_builder \<Rightarrow> vote_builder" where
  "set_validity_from from_ms b = b\<lparr>vb_validity_from := Some from_ms\<rparr>"

definition set_validity_to :: "int \<Rightarrow> vote_builder \<Rightarrow> vote_builder" where
  "set_validity_to to_ms b = b\<lparr>vb_validity_to := Some to_ms\<rparr>"

definition add_block_hash :: "bytes \<Rightarrow> vote_builder \<Rightarrow> vote_builder" where
  "add_block_hash h b = b\<lparr>vb_blocks := vb_blocks b @ [h]\<rparr>"

definition add_block_hashes :: "bytes list \<Rightarrow> vote_builder \<Rightarrow> vote_builder" where
  "add_block_hashes hs b = b\<lparr>vb_blocks := vb_blocks b @ hs\<rparr>"

definition set_fees :: "fees \<Rightarrow> vote_builder \<Rightarrow> vote_builder" where
  "set_fees fs b = b\<lparr>vb_fees := Some fs\<rparr>"

definition set_permanent :: "vote_builder \<Rightarrow> vote_builder" where
  "set_permanent b = b\<lparr>vb_permanent := True\<rparr>"

definition permanent_validity_to :: "chrono_lib \<Rightarrow> int \<Rightarrow> vote_error + int" where
  "permanent_validity_to C from_ms =
     and_then (ok_or VInvalidValidity (from_timestamp_millis C from_ms)) (\<lambda>base.
     and_then (ok_or VInvalidValidity (with_ymd_midnight C (chrono_year C base + 1001) 1 31)) (\<lambda>to_ms.
       ok_or VInvalidValidity (block_time_from_unix_millis C to_ms)))"

definition build_unsigned_vote :: "chrono_lib \<Rightarrow> vote_builder \<Rightarrow> vote_error + unsigned_vote" where
  "build_unsigned_vote C b =
     and_then (ok_or (VBuilderMissingField FieldSerial) (vb_serial b)) (\<lambda>serial.
     and_then (ok_or (VBuilderMissingField FieldIssuer) (vb_issuer b)) (\<lambda>issuer.
     and_then (ok_or (VBuilderMissingField FieldValidity) (vb_validity_from b)) (\<lambda>from_ms.
     and_then
       (if vb_permanent b then
          if vb_fees b \<noteq> None then Err VMalformedFeesInPermanentVote else permanent_validity_to C from_ms
        else ok_or (VBuilderMissingField FieldValidity) (vb_validity_to b)) (\<lambda>to_ms.
     and_then (validity_try_new from_ms to_ms) (\<lambda>val.
       unsigned_vote_try_new serial issuer val (vb_blocks b) (vb_fees b))))))"

definition build_signed_vote :: "chrono_lib \<Rightarrow> vote_lib \<Rightarrow> vote_builder \<Rightarrow> generic_account \<Rightarrow> vote_error + vote" where
  "build_signed_vote C V b signer = and_then (build_unsigned_vote C b) (\<lambda>u. unsigned_vote_sign V u signer)"

section \<open>Quote builder\<close>

datatype vote_quote_builder = VoteQuoteBuilder (inner: vote_builder)

definition vote_quote_builder_new :: vote_quote_builder where
  "vote_quote_builder_new = VoteQuoteBuilder vote_builder_new"

definition forward_to_inner :: "(vote_builder \<Rightarrow> vote_builder) \<Rightarrow> vote_quote_builder \<Rightarrow> vote_quote_builder" where
  "forward_to_inner f q = VoteQuoteBuilder (f (inner q))"

fun normalize_quote_fees :: "fees \<Rightarrow> fees" where
  "normalize_quote_fees (FeesSingle _ f) = FeesSingle True f"
| "normalize_quote_fees (FeesMultiple _ fs) = FeesMultiple True fs"

definition set_quote_fees :: "fees \<Rightarrow> vote_quote_builder \<Rightarrow> vote_quote_builder" where
  "set_quote_fees fs q = forward_to_inner (set_fees (normalize_quote_fees fs)) q"

definition build_vote_quote ::
    "chrono_lib \<Rightarrow> vote_lib \<Rightarrow> vote_quote_builder \<Rightarrow> generic_account \<Rightarrow> vote_error + vote_quote" where
  "build_vote_quote C V q signer =
     (if vb_fees (inner q) = None then Err VFeeQuoteMissingFees
      else and_then (build_signed_vote C V (inner q) signer) vote_quote_try_from_vote)"

section \<open>Staple builder\<close>

record vote_staple_builder =
  sb_blocks :: "block list"
  sb_votes :: "vote list"
  sb_moment :: "int option"
  sb_config :: vote_config

definition vote_staple_builder_new :: vote_staple_builder where
  "vote_staple_builder_new =
     \<lparr>sb_blocks = [], sb_votes = [], sb_moment = None, sb_config = default_vote_config\<rparr>"

definition staple_add_block :: "block \<Rightarrow> vote_staple_builder \<Rightarrow> vote_staple_builder" where
  "staple_add_block blk b = b\<lparr>sb_blocks := sb_blocks b @ [blk]\<rparr>"

definition staple_add_blocks :: "block list \<Rightarrow> vote_staple_builder \<Rightarrow> vote_staple_builder" where
  "staple_add_blocks blks b = b\<lparr>sb_blocks := sb_blocks b @ blks\<rparr>"

definition staple_add_vote :: "vote \<Rightarrow> vote_staple_builder \<Rightarrow> vote_staple_builder" where
  "staple_add_vote v b = b\<lparr>sb_votes := sb_votes b @ [v]\<rparr>"

definition staple_add_votes :: "vote list \<Rightarrow> vote_staple_builder \<Rightarrow> vote_staple_builder" where
  "staple_add_votes vs b = b\<lparr>sb_votes := sb_votes b @ vs\<rparr>"

definition staple_set_config :: "vote_config \<Rightarrow> vote_staple_builder \<Rightarrow> vote_staple_builder" where
  "staple_set_config config b = b\<lparr>sb_config := config\<rparr>"

definition staple_set_moment :: "int \<Rightarrow> vote_staple_builder \<Rightarrow> vote_staple_builder" where
  "staple_set_moment moment b = b\<lparr>sb_moment := Some moment\<rparr>"

text \<open>The clock reading of a build with \<open>std\<close> is an argument; a build without it has none.\<close>

definition build_vote_staple :: "staple_lib \<Rightarrow> int option \<Rightarrow> vote_staple_builder \<Rightarrow> vote_error + vote_staple" where
  "build_vote_staple S clock b =
     and_then (case clock of
         Some now \<Rightarrow> Ok (case sb_moment b of Some moment \<Rightarrow> moment | None \<Rightarrow> now)
       | None \<Rightarrow> ok_or VMissingMoment (sb_moment b)) (\<lambda>moment.
       vote_staple_try_new S (sb_blocks b) (sb_votes b) (sb_config b) moment)"

lemmas vote_builder_defs = vote_builder_new_def set_serial_def set_issuer_def set_validity_def
  set_validity_from_def set_validity_to_def add_block_hash_def add_block_hashes_def set_fees_def set_permanent_def

section \<open>Lemmas\<close>

lemma normalize_quote_fees [simp]: "fees_quote (normalize_quote_fees fs)"
  "fees_entries (normalize_quote_fees fs) = fees_entries fs"
  by (cases fs; simp)+

lemma validity_try_new_ok:
  "validity_try_new a b = Inr v \<longleftrightarrow> a \<le> b \<and> v = \<lparr>valid_from = a, valid_to = b\<rparr>"
  by (auto simp: validity_try_new_def range_is_well_formed_def Let_def)

lemma unsigned_vote_try_new_ok:
  "unsigned_vote_try_new serial issuer val blocks fs = Inr u \<longleftrightarrow>
     (\<exists>algo. algo_from_issuer issuer = Inr algo) \<and> blocks \<noteq> [] \<and>
     u = \<lparr>uv_serial = serial, uv_issuer = issuer, uv_validity = val, uv_blocks = blocks, uv_fees = fs\<rparr>"
  by (auto simp: unsigned_vote_try_new_def)

lemma build_unsigned_vote_ok:
  "build_unsigned_vote C b = Inr u \<longleftrightarrow>
    (\<exists>serial issuer from_ms to_ms algo.
       vb_serial b = Some serial \<and> vb_issuer b = Some issuer \<and> vb_validity_from b = Some from_ms \<and>
       (if vb_permanent b then vb_fees b = None \<and> permanent_validity_to C from_ms = Inr to_ms
        else vb_validity_to b = Some to_ms) \<and>
       from_ms \<le> to_ms \<and> algo_from_issuer issuer = Inr algo \<and> vb_blocks b \<noteq> [] \<and>
       u = \<lparr>uv_serial = serial, uv_issuer = issuer, uv_validity = \<lparr>valid_from = from_ms, valid_to = to_ms\<rparr>,
            uv_blocks = vb_blocks b, uv_fees = vb_fees b\<rparr>)"
  by (cases "vb_permanent b"; cases "vb_fees b")
    (auto simp: build_unsigned_vote_def validity_try_new_ok unsigned_vote_try_new_ok)

text \<open>The proleptic Gregorian calendar: the first instant of a year, in milliseconds.\<close>

definition year_start :: "int \<Rightarrow> int" where
  "year_start y = 86400000 * (365 * (y - 1) + (y - 1) div 4 - (y - 1) div 100 + (y - 1) div 400 - 719162)"

locale chrono_laws =
  fixes C :: chrono_lib
  assumes timestamp_exact: "from_timestamp_millis C m = Some t \<Longrightarrow> t = m"
    and year_bounds: "from_timestamp_millis C m = Some t \<Longrightarrow>
      year_start (chrono_year C t) \<le> t \<and> t < year_start (chrono_year C t + 1)"
    and january_31: "with_ymd_midnight C y 1 31 = Some t \<Longrightarrow> t = year_start y + 30 * 86400000"
begin

lemma permanent_validity_to_far:
  assumes "permanent_validity_to C from_ms = Inr to_ms"
  shows "from_ms + 1000 * 365 * 86400000 < to_ms"
proof -
  obtain base t where t: "from_timestamp_millis C from_ms = Some base"
    "with_ymd_midnight C (chrono_year C base + 1001) 1 31 = Some t" "from_timestamp_millis C t = Some to_ms"
    using assms by (auto simp: permanent_validity_to_def block_time_from_unix_millis_def)
  define y where "y = chrono_year C base"
  have y: "from_ms < year_start (y + 1)" "to_ms = year_start (y + 1001) + 30 * 86400000"
    using timestamp_exact[OF t(1)] year_bounds[OF t(1)] january_31[OF t(2)] timestamp_exact[OF t(3)]
    by (simp_all add: y_def)
  have "year_start (y + 1001) \<ge> year_start (y + 1) + 365000 * 86400000"
  proof -
    have "(1000 + y) div 4 = y div 4 + 250" "(1000 + y) div 100 = y div 100 + 10"
      "y div 400 \<le> (1000 + y) div 400" by (simp_all add: zdiv_mono1)
    then show ?thesis by (simp add: year_start_def)
  qed
  then show ?thesis using y by simp
qed

lemma permanent_vote_permanent:
  assumes "build_unsigned_vote C b = Inr u" and "vb_permanent b"
    and "moment \<le> valid_from (uv_validity u)" and "threshold \<le> 1000 * 365 * 86400000"
    and "0 \<le> threshold" and "in_i64 moment" and "in_i64 (valid_to (uv_validity u))"
    and "permanent_vote_threshold_ms config = threshold"
  shows "is_permanent_at (uv_validity u) moment config"
proof -
  have "valid_from (uv_validity u) + 1000 * 365 * 86400000 < valid_to (uv_validity u)"
    using assms(1,2) permanent_validity_to_far by (auto simp: build_unsigned_vote_ok)
  then show ?thesis using assms(3-8) by (simp add: is_permanent_at_def sat64_def in_i64_def)
qed

end

end
