(* ===== verification/VoteRef.thy ===== *)
theory VoteRef
  imports BlockRef VoteBuilder
begin

text \<open>
  A concrete instance of the vote and staple libraries: object identifiers in the base-128 form of
  X.690, integers in signed hexadecimal, the signatures of \<open>BlockRef\<close> and a compression that
  stores its input.  It discharges the laws of votes and staples; the witnesses of the vote
  properties are stated about one signed vote and one staple over it.
\<close>

section \<open>Object identifiers\<close>

function b128_high :: "nat \<Rightarrow> bytes" where
  "b128_high n = (if n = 0 then [] else b128_high (n div 128) @ [word_of_nat (128 + n mod 128)])"
  by auto
termination by (relation "measure id") auto

definition b128 :: "nat \<Rightarrow> bytes" where
  "b128 n = b128_high (n div 128) @ [word_of_nat (n mod 128)]"

fun b128_decode :: "nat \<Rightarrow> bytes \<Rightarrow> nat list" where
  "b128_decode acc [] = []"
| "b128_decode acc (b # bs) =
     (if unat b < 128 then (acc * 128 + unat b) # b128_decode 0 bs
      else b128_decode (acc * 128 + (unat b - 128)) bs)"

declare b128_high.simps [simp del]

lemma b128_decode_high: "b128_decode 0 (b128_high n @ rest) = b128_decode n rest"
proof (induction n arbitrary: rest rule: b128_high.induct)
  case (1 n)
  have "unat (word_of_nat (128 + n mod 128) :: byte) = 128 + n mod 128"
    by (subst unat_of_nat) simp
  moreover have "n div 128 * 128 + n mod 128 = n" by simp
  ultimately show ?case using 1[of "word_of_nat (128 + n mod 128) # rest"]
    by (subst b128_high.simps) (simp del: of_nat_add)
qed

lemma b128_roundtrip: "b128_decode 0 (b128 n @ rest) = n # b128_decode 0 rest"
proof -
  have "unat (word_of_nat (n mod 128) :: byte) = n mod 128" by (subst unat_of_nat) simp
  then show ?thesis by (simp add: b128_def b128_decode_high)
qed

lemma b128_list_roundtrip: "b128_decode 0 (concat (map b128 ns)) = ns"
  by (induction ns) (simp_all add: b128_roundtrip)

definition ref_oid_to_der :: "vote_oid \<Rightarrow> bytes option" where
  "ref_oid_to_der oid =
     (case oid of
        a # b # rest \<Rightarrow> if a \<le> 2 \<and> b < 40 then Some (word_of_nat (40 * a + b) # concat (map b128 rest)) else None
      | _ \<Rightarrow> None)"

definition ref_oid_of_der :: "bytes \<Rightarrow> vote_oid option" where
  "ref_oid_of_der bs =
     (case bs of
        [] \<Rightarrow> None
      | x # rest \<Rightarrow> Some (unat x div 40 # unat x mod 40 # b128_decode 0 rest))"

definition ref_oid :: oid_lib where
  "ref_oid = \<lparr>oid_to_der = ref_oid_to_der, oid_of_der = ref_oid_of_der\<rparr>"

lemma ref_oid_roundtrip: "ref_oid_to_der oid = Some v \<Longrightarrow> ref_oid_of_der v = Some oid"
proof -
  assume "ref_oid_to_der oid = Some v"
  then obtain a b rest where o: "oid = a # b # rest" "a \<le> 2" "b < 40"
    "v = word_of_nat (40 * a + b) # concat (map b128 rest)"
    by (auto simp: ref_oid_to_der_def split: list.splits if_splits)
  have "unat (word_of_nat (40 * a + b) :: byte) = 40 * a + b"
    using o(2,3) by (subst unat_of_nat) simp
  then show ?thesis using o by (simp add: ref_oid_of_der_def b128_list_roundtrip del: of_nat_add)
qed

interpretation refvd: vote_der_laws ref_der ref_oid
  by unfold_locales (auto simp: ref_oid_def ref_oid_roundtrip)

section \<open>Hexadecimal integers\<close>

function hex_digits :: "nat \<Rightarrow> string" where
  "hex_digits n = (if n < 16 then [hex_char n] else hex_digits (n div 16) @ [hex_char (n mod 16)])"
  by auto
termination by (relation "measure id") auto

declare hex_digits.simps [simp del]

definition of_hex_digits :: "string \<Rightarrow> nat option" where
  "of_hex_digits s =
     fold (\<lambda>c acc. case (acc, hex_value c) of (Some n, Some d) \<Rightarrow> Some (16 * n + d) | _ \<Rightarrow> None) s (Some 0)"

definition ref_bigint_hex :: "int \<Rightarrow> string" where
  "ref_bigint_hex n = (if n < 0 then ''-'' else []) @ hex_digits (nat \<bar>n\<bar>)"

definition ref_parse_hex :: "string \<Rightarrow> int option" where
  "ref_parse_hex s =
     (case s of
        [] \<Rightarrow> None
      | c # cs \<Rightarrow>
          if c = CHR ''-'' then map_option (\<lambda>n. - int n) (of_hex_digits cs)
          else map_option int (of_hex_digits s))"

lemma of_hex_digits_hex_digits: "of_hex_digits (hex_digits n) = Some n"
proof (induction n rule: hex_digits.induct)
  case (1 n)
  show ?case
  proof (cases "n < 16")
    case True
    then show ?thesis by (subst hex_digits.simps) (simp add: of_hex_digits_def)
  next
    case False
    then show ?thesis using 1 by (subst hex_digits.simps) (simp add: of_hex_digits_def)
  qed
qed

lemma hex_char_cases: "n < 16 \<Longrightarrow> hex_char n \<in> set ''0123456789abcdef''"
  unfolding hex_char_def by (rule nth_mem) simp

lemma hex_digits_chars: "set (hex_digits n) \<subseteq> set ''0123456789abcdef''"
proof (induction n rule: hex_digits.induct)
  case (1 n)
  then show ?case using hex_char_cases[of n] hex_char_cases[of "n mod 16"]
    by (subst hex_digits.simps) auto
qed

lemma hex_digits_nonempty: "hex_digits n \<noteq> []"
  by (subst hex_digits.simps) simp

lemma ref_bigint_hex_roundtrip: "ref_parse_hex (ref_bigint_hex n) = Some n"
proof (cases "n < 0")
  case False
  obtain c cs where c: "hex_digits (nat n) = c # cs" using hex_digits_nonempty by (meson neq_Nil_conv)
  then have "c \<in> set ''0123456789abcdef''" using hex_digits_chars[of "nat n"] by auto
  then have "c \<noteq> CHR ''-''" by auto
  then show ?thesis using False c of_hex_digits_hex_digits[of "nat n"]
    by (simp add: ref_parse_hex_def ref_bigint_hex_def)
qed (simp add: ref_parse_hex_def ref_bigint_hex_def of_hex_digits_hex_digits)

lemma ref_bigint_hex_ascii: "list_all (\<lambda>c. of_char c < (128 :: nat)) (ref_bigint_hex n)"
proof -
  have "of_char c < (128 :: nat)" if "c \<in> set (hex_digits m)" for c m
  proof -
    have "c \<in> set ''0123456789abcdef''" using that hex_digits_chars by blast
    then show ?thesis by auto
  qed
  then show ?thesis by (auto simp: ref_bigint_hex_def list_all_iff)
qed

lemma ref_base32_ascii: "list_all (\<lambda>c. of_char c < (128 :: nat)) (ref_base32_encode bs)"
proof -
  obtain k where k: "length (pad5 (byte_bits bs)) = 5 * k" using pad5_length by blast
  have "of_char (b32_char (of_bits g)) < (128 :: nat)" if "g \<in> set (chunks 5 (pad5 (byte_bits bs)))" for g
  proof -
    have "length g = 5" using chunks_length[OF _ _ that] k by simp
    then have "of_bits g < 32" using of_bits_less[of g] by simp
    then have "b32_char (of_bits g) \<in> set ''abcdefghijklmnopqrstuvwxyz234567''"
      unfolding b32_char_def by (intro nth_mem) simp
    then show ?thesis by auto
  qed
  then show ?thesis by (auto simp: ref_base32_encode_def list_all_iff)
qed

section \<open>The instance\<close>

definition ref_vlib :: vote_lib where
  "ref_vlib = \<lparr>vl_crypto = ref_lib, vl_der = ref_der, vl_oid = ref_oid, bigint_to_lower_hex = ref_bigint_hex,
     parse_lower_hex_bigint = ref_parse_hex, raw_sign = (\<lambda>a m. Ok (ref_sign a m)),
     raw_verify = (\<lambda>a m s. if s = ref_sign a m then Ok () else Err InvalidConstruction)\<rparr>"

definition ref_slib :: staple_lib where
  "ref_slib = \<lparr>sl_vote = ref_vlib, sl_block = ref_blib, sl_backend = ref_backend,
     zlib_compress = id, zlib_decompress = Some\<rparr>"

lemma ref_vlib_sel [simp]:
  "vl_crypto ref_vlib = ref_lib" "vl_der ref_vlib = ref_der" "vl_oid ref_vlib = ref_oid"
  "bigint_to_lower_hex ref_vlib = ref_bigint_hex" "parse_lower_hex_bigint ref_vlib = ref_parse_hex"
  "raw_sign ref_vlib a m = Inr (ref_sign a m)"
  "raw_verify ref_vlib a m s = (if s = ref_sign a m then Inr () else Inl InvalidConstruction)"
  by (simp_all add: ref_vlib_def)

lemma ref_slib_sel [simp]:
  "sl_vote ref_slib = ref_vlib" "sl_block ref_slib = ref_blib" "sl_backend ref_slib = ref_backend"
  "zlib_compress ref_slib bs = bs" "zlib_decompress ref_slib bs = Some bs"
  by (simp_all add: ref_slib_def)

interpretation refvote: vote_laws ref_vlib
  using ref.crypto_laws_axioms refvd.vote_der_laws_axioms
  by (intro vote_laws.intro) (simp_all add: vote_laws_axioms_def ref_bigint_hex_roundtrip ref_bigint_hex_ascii ref_base32_ascii)

interpretation refstaple: staple_laws ref_slib
  using refvote.vote_laws_axioms by (intro staple_laws.intro) (simp_all add: staple_laws_axioms_def)

section \<open>Sizes\<close>

text \<open>\<open>fits n r\<close>: the encoder \<open>r\<close> succeeds with at most \<open>n\<close> octets.  The reference encoder writes
  every element whose content is shorter than \<open>2 ^ 28\<close> octets.\<close>

definition fits :: "nat \<Rightarrow> 'e + bytes \<Rightarrow> bool" where
  "fits n r \<longleftrightarrow> (\<exists>bs. r = Inr bs \<and> length bs \<le> n)"

lemma fits_mono: "fits m r \<Longrightarrow> m \<le> n \<Longrightarrow> fits n r"
  by (auto simp: fits_def)

lemma fits_Inr [simp]: "fits n (Inr bs) \<longleftrightarrow> length bs \<le> n"
  by (simp add: fits_def)

lemma fits_then: "fits k r \<Longrightarrow> (\<And>bs. length bs \<le> k \<Longrightarrow> fits n (f bs)) \<Longrightarrow> fits n (and_then r f)"
  by (auto simp: fits_def)

lemma fits_map_err [simp]: "fits n (map_err f r) \<longleftrightarrow> fits n r"
  by (cases r) (simp_all add: fits_def)

lemma length_ref_len_encode: "length (ref_len_encode n) \<le> 5"
  by (simp add: ref_len_encode_def ref_len_size_def)

lemma fits_encode:
  assumes "length v \<le> k" and "k < 2 ^ 28" and "ref_tag_octet t \<noteq> None" and "k + 6 \<le> n"
  shows "fits n (der_encode ref_der t v)"
proof -
  obtain b where "ref_tag_octet t = Some b" using assms(3) by auto
  then show ?thesis using assms(1,2,4) length_ref_len_encode[of "length v"]
    by (simp add: der_encode_def ref_tlv_encode_def)
qed

lemma fits_write_all:
  assumes "list_all2 fits ns rs" and "sum_list ns \<le> n"
  shows "fits n (write_all rs)"
proof -
  have "fits (sum_list ns) (write_all rs)" using assms(1)
  proof (induction ns rs rule: list_all2_induct)
    case (Cons n ns r rs)
    then obtain a b where "r = Inr a" "length a \<le> n" "write_all rs = Inr b" "length b \<le> sum_list ns"
      by (auto simp: fits_def)
    then show ?case by simp
  qed simp
  then show ?thesis using assms(2) fits_mono by blast
qed

lemma fits_wrap:
  assumes "fits k r" and "k < 2 ^ 28" and "k + 6 \<le> n"
  shows "fits n (and_then r (wrap_sequence ref_der))" "fits n (and_then r (wrap_set ref_der))"
    "c < 31 \<Longrightarrow> fits n (and_then r (wrap_context ref_der c))"
  using assms
  by (auto simp: wrap_sequence_def wrap_set_def wrap_context_def intro!: fits_then[OF assms(1)] fits_encode[of _ k])

lemma ref_oid_small:
  assumes "oid \<in> {OID_COMMON_NAME, OID_SERIAL_NUMBER, OID_ED25519, OID_SHA3_256, OID_HASH_DATA, OID_FEES}"
  shows "fits 20 (encode_oid ref_der ref_oid oid)"
proof -
  have "\<exists>v. ref_oid_to_der oid = Some v \<and> length v \<le> 14"
    using assms by (auto simp: oid_defs ref_oid_to_der_def b128_def b128_high.simps)
  then show ?thesis by (auto simp: encode_oid_def ref_oid_def intro!: fits_encode[of _ 14])
qed

lemma length_ref_base32: "length (ref_base32_encode bs) \<le> 8 * length bs + 5"
proof -
  have "length (chunks 5 xs) \<le> length xs" for xs :: "bool list"
  proof (induction "5 :: nat" xs rule: chunks.induct)
    case (1 xs)
    then show ?case by (cases xs) (subst chunks.simps, simp)+
  qed
  moreover have "length (pad5 (byte_bits bs)) \<le> 8 * length bs + 5"
    using pad5_length[of "byte_bits bs"] by auto
  ultimately show ?thesis unfolding ref_base32_encode_def length_map by (rule order_trans)
qed

lemma length_ref_account_string: "length (account_to_string ref_lib ref_account) \<le> 320"
proof -
  let ?t = "keypair_type_id ED25519"
  have "Inr (account_to_string ref_lib ref_account) =
      (Inr (''keeta_'' @ ref_base32_encode (?t # replicate 32 1 @ take 5 (ref_hash (?t # replicate 32 1))))
        :: account_error + string)"
    using account_to_string_eq[of ref_lib ref_account]
    by (simp add: format_public_key_string_def Let_def ref_account_def hash_array_def)
  then show ?thesis
    using length_ref_base32[of "?t # replicate 32 1 @ take 5 (ref_hash (?t # replicate 32 1))"] by simp
qed

section \<open>A signed vote\<close>

definition ref_quote_fees :: fees where
  "ref_quote_fees = FeesSingle True \<lparr>fee_amount = 5, fee_pay_to = None, fee_token = None\<rparr>"

definition ref_unsigned_vote :: "bytes list \<Rightarrow> fees option \<Rightarrow> unsigned_vote" where
  "ref_unsigned_vote hs fs =
     \<lparr>uv_serial = 1, uv_issuer = ref_account, uv_validity = \<lparr>valid_from = 0, valid_to = 300000\<rparr>,
      uv_blocks = hs, uv_fees = fs\<rparr>"

lemma fits_dn:
  assumes "length v \<le> 400" and "oid \<in> {OID_COMMON_NAME, OID_SERIAL_NUMBER}"
  shows "fits 500 (encode_distinguished_name ref_der ref_oid (dn_with_attribute oid v))"
proof -
  have "fits 20 (encode_oid ref_der ref_oid oid)" using assms(2) by (intro ref_oid_small) auto
  moreover have "fits 406 (encode_utf8 ref_der (str v))"
    using assms(1) by (auto simp: encode_utf8_def str_def intro: fits_encode[of _ 400])
  ultimately have "fits 440 (encode_attribute ref_der ref_oid \<lparr>atv_oid = oid, atv_value = str v\<rparr>)"
    unfolding encode_attribute_def by (intro fits_wrap[of 426] fits_write_all[of "[20, 406]"]) simp_all
  then have "fits 460 (encode_rdn ref_der ref_oid [\<lparr>atv_oid = oid, atv_value = str v\<rparr>])"
    unfolding encode_rdn_def by (intro fits_wrap[of 440] fits_write_all[of "[440]"]) simp_all
  then show ?thesis
    unfolding encode_distinguished_name_def dn_with_attribute_def
    by (intro fits_wrap[of 460] fits_write_all[of "[460]"]) simp_all
qed

definition few_hashes :: "bytes list \<Rightarrow> bool" where
  "few_hashes hs \<longleftrightarrow> length hs \<le> 1 \<and> list_all (\<lambda>h. length h = 32) hs"

lemma few_hashes_simps [simp]: "few_hashes []" "length h = 32 \<Longrightarrow> few_hashes [h]"
  by (simp_all add: few_hashes_def)

lemma fits_hash_data:
  assumes "few_hashes hs"
  shows "fits 150 (encode_hash_data ref_der ref_oid \<lparr>hd_algorithm = OID_SHA3_256, hd_hashes = hs\<rparr>)"
proof -
  have "fits 40 (encode_octet ref_der h)" if "length h = 32" for h
    using that by (auto simp: encode_octet_def intro: fits_encode[of _ 32])
  then have "fits 40 (write_all (map (encode_octet ref_der) hs))"
    using assms by (cases hs) (auto simp: few_hashes_def intro!: fits_write_all[of "[40]"])
  then have hs: "fits 50 (and_then (write_all (map (encode_octet ref_der) hs)) (wrap_sequence ref_der))"
    by (rule fits_wrap) simp_all
  have oid: "fits 20 (encode_oid ref_der ref_oid OID_SHA3_256)" by (intro ref_oid_small) auto
  show ?thesis
    unfolding encode_hash_data_def HASH_DATA_OUTER_TAG_def hash_data.simps wrap_context_def
  proof (rule fits_then[OF hs])
    fix hashes :: bytes assume h: "length hashes \<le> 50"
    have "fits 90 (and_then (encode_oid ref_der ref_oid OID_SHA3_256) (\<lambda>oid. wrap_sequence ref_der (oid @ hashes)))"
      using oid h by (auto simp: wrap_sequence_def intro!: fits_then[OF oid] fits_encode[of _ 70])
    then show "fits 150 (and_then (and_then (encode_oid ref_der ref_oid OID_SHA3_256)
        (\<lambda>oid. wrap_sequence ref_der (oid @ hashes))) (der_encode ref_der (TagContext True 0)))"
      by (rule fits_then) (auto intro: fits_encode[of _ 90])
  qed
qed

lemma fits_small_int: "-128 \<le> n \<Longrightarrow> n < 128 \<Longrightarrow> fits 3 (encode_bigint ref_der n)"
  by (simp add: ref_encode_small_int)

lemma fits_extension:
  assumes "length x \<le> 150" and "oid \<in> {OID_HASH_DATA, OID_FEES}"
  shows "fits 190 (encode_extension ref_der ref_oid \<lparr>ext_oid = oid, ext_critical = True, ext_value = x\<rparr>)"
proof -
  have "fits 20 (encode_oid ref_der ref_oid oid)" using assms(2) by (intro ref_oid_small) auto
  moreover have "fits 7 (encode_bool ref_der True)" by (auto simp: encode_bool_def intro: fits_encode[of _ 1])
  moreover have "fits 156 (encode_octet ref_der x)" using assms(1) by (auto simp: encode_octet_def intro: fits_encode[of _ 150])
  ultimately show ?thesis
    unfolding encode_extension_def by (intro fits_wrap[of 183] fits_write_all[of "[20, 7, 156]"]) simp_all
qed

lemma fits_fees:
  "\<exists>t. fees_to_transport ref_quote_fees = Inr t \<and> fits 60 (encode_fees ref_der t)"
proof -
  let ?e = "\<lparr>fe_quote = True, fe_amount = 5, fe_pay_to = None, fe_token = None\<rparr>"
  have "fits 7 (encode_bool ref_der True)" by (auto simp: encode_bool_def intro: fits_encode[of _ 1])
  then have "fits 20 (encode_fee_entry ref_der ?e)"
    unfolding encode_fee_entry_def
    by (intro fits_wrap[of 10] fits_write_all[of "[7, 3, 0, 0]"])
      (simp_all add: fits_small_int write_opt_def)
  then have "fits 60 (encode_fees ref_der (TFeesSingle ?e))"
    unfolding encode_fees.simps FEE_OUTER_TAG_def by (intro fits_wrap[of 20]) simp_all
  then show ?thesis by (simp add: ref_quote_fees_def fee_to_entry_def)
qed

lemma fits_extensions:
  assumes "few_hashes hs" and "fs \<in> {None, Some ref_quote_fees}"
  shows "\<exists>es. build_extension_list ref_vlib hs fs = Inr es \<and>
    fits 420 (encode_extensions_field ref_der ref_oid es)"
proof -
  obtain x where x: "encode_hash_data ref_der ref_oid \<lparr>hd_algorithm = OID_SHA3_256, hd_hashes = hs\<rparr> = Inr x"
    "length x \<le> 150"
    using fits_hash_data[OF assms(1)] by (auto simp: fits_def)
  obtain t y where y: "fees_to_transport ref_quote_fees = Inr t" "encode_fees ref_der t = Inr y" "length y \<le> 150"
    using fits_fees by (auto simp: fits_def)
  let ?h = "\<lparr>ext_oid = OID_HASH_DATA, ext_critical = True, ext_value = x\<rparr>"
  let ?f = "\<lparr>ext_oid = OID_FEES, ext_critical = True, ext_value = y\<rparr>"
  have field: "fits 420 (encode_extensions_field ref_der ref_oid es)"
    if "fits 380 (write_all (map (encode_extension ref_der ref_oid) es))" for es
    unfolding encode_extensions_field_def EXTENSIONS_TAG_def
    by (rule fits_then[OF that])
      (auto simp: wrap_sequence_def wrap_context_def intro!: fits_then[OF fits_encode[of _ 380 _ 400]] fits_encode[of _ 400])
  have "fits 190 (encode_extension ref_der ref_oid ?h)" "fits 190 (encode_extension ref_der ref_oid ?f)"
    using x(2) y(3) by (auto intro!: fits_extension)
  then have "list_all2 fits [190] (map (encode_extension ref_der ref_oid) [?h])"
    "list_all2 fits [190, 190] (map (encode_extension ref_der ref_oid) [?h, ?f])" by simp_all
  then have "fits 380 (write_all (map (encode_extension ref_der ref_oid) [?h]))"
    "fits 380 (write_all (map (encode_extension ref_der ref_oid) [?h, ?f]))"
    by (auto dest!: fits_write_all[of _ _ 380] simp del: list_all2_Cons list.map)
  then have "fits 420 (encode_extensions_field ref_der ref_oid [?h])"
    "fits 420 (encode_extensions_field ref_der ref_oid [?h, ?f])"
    using field by blast+
  then show ?thesis using assms(2) x(1) y(1,2) by (auto simp: build_extension_list_def)
qed

lemma ref_spk: "subject_public_key_for_issuer ref_account = Inr (SpkEd25519 (replicate 32 1))"
  by (simp add: subject_public_key_for_issuer_def ref_account_def to_public_key_with_type_def public_key_with_type_def)

lemma ref_algo [simp]: "algo_from_issuer ref_account = Inr SigEd25519"
  by (simp add: algo_from_issuer_def)

lemma fits_algo: "fits 30 (encode_signature_algo ref_der ref_oid AlgoEd25519)"
  unfolding encode_signature_algo_def
  by (intro fits_wrap[of 20]) (auto intro!: ref_oid_small)

lemma fits_spk: "fits 90 (encode_subject_public_key_info ref_der ref_oid (SpkEd25519 (replicate 32 1)))"
proof -
  have "fits 30 (and_then (encode_oid ref_der ref_oid OID_ED25519) (wrap_sequence ref_der))"
    by (intro fits_wrap[of 20]) (auto intro!: ref_oid_small)
  moreover have "fits 40 (encode_bit_string ref_der (replicate 32 1))"
    by (auto simp: encode_bit_string_def intro!: fits_encode[of _ 33])
  ultimately show ?thesis
    unfolding encode_subject_public_key_info.simps
    by (intro fits_wrap[of 70] fits_write_all[of "[30, 40]"]) simp_all
qed

lemma fits_validity:
  assumes "asn1_time_range a" and "asn1_time_range b"
  shows "fits 60 (encode_validity ref_der \<lparr>not_before = a, not_after = b\<rparr>)"
proof -
  have "fits 25 (encode_time ref_der t)" if "asn1_time_range t" for t
    using ref_time_laws[OF that] by (auto simp: encode_time_def time_value_len_def intro!: fits_encode[of _ 19])
  then show ?thesis using assms
    unfolding encode_validity_def by (intro fits_wrap[of 50] fits_write_all[of "[25, 25]"]) simp_all
qed

lemma ref_tbs:
  assumes "few_hashes hs" and "fs \<in> {None, Some ref_quote_fees}"
  shows "\<exists>tbs. build_tbs ref_vlib 1 SigEd25519 ref_account \<lparr>valid_from = 0, valid_to = 300000\<rparr> hs fs = Inr tbs \<and>
    fits 1800 (encode_tbs ref_der ref_oid tbs)"
proof -
  obtain es where es: "build_extension_list ref_vlib hs fs = Inr es" "fits 420 (encode_extensions_field ref_der ref_oid es)"
    using fits_extensions[OF assms] by blast
  have v: "fits 20 (and_then (encode_bigint ref_der VOTE_VERSION_VALUE) (wrap_context ref_der VERSION_TAG))"
    unfolding VERSION_TAG_def VOTE_VERSION_VALUE_def by (intro fits_wrap[of 3] fits_small_int) simp_all
  have s: "fits 500 (encode_distinguished_name ref_der ref_oid (dn_with_attribute OID_SERIAL_NUMBER (ref_bigint_hex 1)))"
    by (intro fits_dn) (simp_all add: ref_bigint_hex_def hex_digits.simps)
  have i: "fits 500 (encode_distinguished_name ref_der ref_oid
      (dn_with_attribute OID_COMMON_NAME (account_to_string ref_lib ref_account)))"
    using length_ref_account_string by (intro fits_dn) simp_all
  have t: "fits 60 (encode_validity ref_der \<lparr>not_before = 0, not_after = 300000\<rparr>)"
    by (intro fits_validity) (simp_all add: asn1_time_range_def)
  have n: "fits 3 (encode_bigint ref_der 1)" by (intro fits_small_int) simp_all
  let ?tbs = "\<lparr>tbs_serial = 1, tbs_algo = AlgoEd25519,
    tbs_issuer = dn_with_attribute OID_COMMON_NAME (account_to_string ref_lib ref_account),
    tbs_validity = \<lparr>not_before = 0, not_after = 300000\<rparr>,
    tbs_subject = dn_with_attribute OID_SERIAL_NUMBER (ref_bigint_hex 1),
    tbs_spk = SpkEd25519 (replicate 32 1), tbs_extensions = es\<rparr>"
  have "fits 1800 (encode_tbs ref_der ref_oid ?tbs)"
    unfolding encode_tbs_def
    by (rule fits_wrap(1)[of 1623], rule fits_write_all[of "[20, 3, 30, 500, 60, 500, 90, 420]"])
      (use v n fits_algo i t s fits_spk es(2) in simp_all)
  then show ?thesis using es(1) by (simp add: build_tbs_def build_tbs_inner_def ref_spk)
qed

lemma ref_vote_signed:
  assumes "few_hashes hs" and "fs \<in> {None, Some ref_quote_fees}"
  shows "\<exists>v. unsigned_vote_sign ref_vlib (ref_unsigned_vote hs fs) ref_account = Inr v \<and> length (vote_serialized v) \<le> 2000"
proof -
  obtain tbs bs where tbs: "build_tbs ref_vlib 1 SigEd25519 ref_account \<lparr>valid_from = 0, valid_to = 300000\<rparr> hs fs = Inr tbs"
    "encode_tbs ref_der ref_oid tbs = Inr bs" "length bs \<le> 1800"
    using ref_tbs[OF assms] by (auto simp: fits_def)
  let ?c = "\<lparr>vc_tbs = tbs, vc_algo = AlgoEd25519, vc_signature = ref_sign ref_account bs\<rparr>"
  have "fits 71 (encode_bit_string ref_der (ref_sign ref_account bs))"
    by (auto simp: encode_bit_string_def intro!: fits_encode[of _ 65])
  then have "fits 2000 (encode_vote ref_der ref_oid ?c)"
    unfolding encode_vote_def
    by (intro fits_wrap(1)[of 1901] fits_write_all[of "[1800, 30, 71]"]) (use tbs fits_algo in simp_all)
  then obtain x where x: "encode_vote ref_der ref_oid ?c = Inr x" "length x \<le> 2000" by (auto simp: fits_def)
  have "sign_for_cert ref_vlib ref_account bs = Inr (ref_sign ref_account bs)"
    by (simp add: ref_account_def)
  then show ?thesis using tbs x
    by (simp add: unsigned_vote_sign_def ref_unsigned_vote_def cert_encode_tbs_def cert_encode_vote_def)
qed

lemma ref_unsigned_vote_wf:
  "few_hashes hs \<Longrightarrow> fs \<in> {None, Some ref_quote_fees} \<Longrightarrow> wf_unsigned_vote ref_lib (ref_unsigned_vote hs fs)"
  by (auto simp: ref_quote_fees_def wf_fees_def wf_fee_def few_hashes_def wf_unsigned_vote_def ref_unsigned_vote_def range_is_well_formed_def asn1_time_range_def)

section \<open>A staple\<close>

lemma ref_vote_from_serialized:
  assumes "unsigned_vote_sign ref_vlib (ref_unsigned_vote hs fs) ref_account = Inr v" and "few_hashes hs"
    and "fs \<in> {None, Some ref_quote_fees}"
  shows "vote_from_serialized ref_vlib (vote_serialized v) = Inr v \<and> vote_verify_signature ref_vlib v = Inr () \<and>
    dv_fees (vote_decoded v) = fs"
  using refvote.signed_vote_from_serialized[OF assms(1)] ref_unsigned_vote_wf[OF assms(2,3)] assms(1)
  by (auto simp: unsigned_vote_sign_def ref_unsigned_vote_def vote_verify_signature_def ref_account_def)

lemma ref_vote_verified:
  assumes "unsigned_vote_sign ref_vlib (ref_unsigned_vote hs None) ref_account = Inr v" and "few_hashes hs"
  shows "vote_verify ref_vlib (vote_serialized v) = Inr v"
  using ref_vote_from_serialized[OF assms] by (simp add: vote_verify_def assert_quote_flag_def)

lemma ref_quote_verified:
  assumes "unsigned_vote_sign ref_vlib (ref_unsigned_vote hs (Some ref_quote_fees)) ref_account = Inr v" and "few_hashes hs"
  shows "vote_quote_verify ref_vlib (vote_serialized v) = Inr (VoteQuote v)"
  using ref_vote_from_serialized[OF assms]
  by (simp add: vote_quote_verify_def vote_quote_try_from_vote_def assert_quote_flag_def vote_is_quote_def ref_quote_fees_def)

lemma ref_staple:
  "\<exists>b v st. block_try_from_bytes ref_blib ref_backend (blk_bytes b) = Inr b \<and>
    vote_verify ref_vlib (vote_serialized v) = Inr v \<and>
    vote_staple_try_new ref_slib [b] [v] default_vote_config 1000 = Inr st \<and> dv_fees (vote_decoded v) = None \<and>
    dv_validity (vote_decoded v) = \<lparr>valid_from = 0, valid_to = 300000\<rparr>"
proof -
  obtain b where b: "block_try_from_bytes ref_blib ref_backend (blk_bytes b) = Inr b" "length (blk_hash b) = 32"
    "length (blk_bytes b) \<le> 400"
    using ref_block_small by blast
  obtain v where v: "unsigned_vote_sign ref_vlib (ref_unsigned_vote [blk_hash b] None) ref_account = Inr v"
    "length (vote_serialized v) \<le> 2000"
    using ref_vote_signed[OF few_hashes_simps(2)[OF b(2)], of None] by auto
  have dec: "dv_blocks (vote_decoded v) = [blk_hash b]" "dv_fees (vote_decoded v) = None"
    "dv_validity (vote_decoded v) = \<lparr>valid_from = 0, valid_to = 300000\<rparr>"
    using v(1) by (auto simp: unsigned_vote_sign_def ref_unsigned_vote_def)
  have "fits 2500 (encode_vote_staple ref_der \<lparr>vsb_blocks = [blk_bytes b], vsb_votes = [vote_serialized v]\<rparr>)"
  proof -
    have "fits 406 (encode_octet ref_der (blk_bytes b))" "fits 2006 (encode_octet ref_der (vote_serialized v))"
      using b(3) v(2) by (auto simp: encode_octet_def intro: fits_encode[of _ 400] fits_encode[of _ 2000])
    then have "fits 412 (and_then (write_all (map (encode_octet ref_der) [blk_bytes b])) (wrap_sequence ref_der))"
      "fits 2012 (and_then (write_all (map (encode_octet ref_der) [vote_serialized v])) (wrap_sequence ref_der))"
      by (intro fits_wrap(1)[of 406] fits_write_all[of "[406]"], simp_all)
        (intro fits_wrap(1)[of 2006] fits_write_all[of "[2006]"], simp_all)
    then show ?thesis
      unfolding encode_vote_staple_def
      by (intro fits_wrap(1)[of 2424] fits_write_all[of "[412, 2012]"]) simp_all
  qed
  then obtain c where "encode_canonical ref_slib [b] [v] = Inr c"
    by (auto simp: encode_canonical_def fits_def)
  moreover have "votes_agree default_vote_config 1000 [v]"
    by (auto simp: votes_agree_def vote_acceptable_def vote_is_quote_def dec ensure_active_at_def
        moment_is_before_from_def is_expired_at_def sat64_def default_vote_config_def)
  ultimately have "\<exists>st. vote_staple_try_new ref_slib [b] [v] default_vote_config 1000 = Inr st"
    by (intro exI[of _ "\<lparr>vs_blocks = [b], vs_votes = [v], vs_compressed = c, vs_canonical = c\<rparr>"])
      (simp add: vote_staple_try_new_ok reorder_iff dec)
  then show ?thesis using b(1) ref_vote_verified[OF v(1) few_hashes_simps(2)[OF b(2)]] dec(2,3) by blast
qed

section \<open>A calendar\<close>

text \<open>The proleptic Gregorian calendar over the years 1970 to 9999.\<close>

definition leap_year :: "int \<Rightarrow> bool" where
  "leap_year y \<longleftrightarrow> y mod 4 = 0 \<and> (y mod 100 \<noteq> 0 \<or> y mod 400 = 0)"

definition month_lengths :: "int \<Rightarrow> nat list" where
  "month_lengths y = [31, if leap_year y then 29 else 28, 31, 30, 31, 30, 31, 31, 30, 31, 30, 31]"

fun search_year :: "nat \<Rightarrow> int \<Rightarrow> int \<Rightarrow> int" where
  "search_year 0 y t = y"
| "search_year (Suc n) y t = (if t < year_start (y + 1) then y else search_year n (y + 1) t)"

definition ref_chrono :: chrono_lib where
  "ref_chrono =
     \<lparr>from_timestamp_millis = (\<lambda>t. if 0 \<le> t \<and> t < year_start 10000 then Some t else None),
      chrono_year = search_year 8030 1970,
      with_ymd_midnight = (\<lambda>y m d.
        if 1970 \<le> y \<and> y < 10000 \<and> 1 \<le> m \<and> m \<le> 12 \<and> 1 \<le> d \<and> d \<le> month_lengths y ! (m - 1)
        then Some (year_start y + int (sum_list (take (m - 1) (month_lengths y)) + d - 1) * 86400000)
        else None)\<rparr>"

lemma search_year_bounds:
  "year_start y \<le> t \<Longrightarrow> t < year_start (y + int n) \<Longrightarrow>
    year_start (search_year n y t) \<le> t \<and> t < year_start (search_year n y t + 1)"
proof (induction n arbitrary: y)
  case (Suc n)
  then show ?case by (auto simp: algebra_simps)
qed simp

lemma search_year_here: "t < year_start (y + 1) \<Longrightarrow> search_year n y t = y"
  by (cases n) simp_all

interpretation refcal: chrono_laws ref_chrono
proof unfold_locales
  fix m t assume t: "from_timestamp_millis ref_chrono m = Some t"
  have "year_start 1970 = 0" "(1970 :: int) + int 8030 = 10000" by (simp_all add: year_start_def)
  then show "year_start (chrono_year ref_chrono t) \<le> t \<and> t < year_start (chrono_year ref_chrono t + 1)"
    using t search_year_bounds[of 1970 t 8030] by (simp add: ref_chrono_def split: if_splits)
qed (auto simp: ref_chrono_def month_lengths_def split: if_splits)

lemma ref_permanent_builder:
  "\<exists>u. build_unsigned_vote ref_chrono
     (set_permanent (add_block_hash (replicate 32 7) (set_validity_from 0 (set_issuer ref_account (set_serial 1 vote_builder_new)))))
     = Inr u \<and> in_i64 (valid_to (uv_validity u)) \<and> valid_from (uv_validity u) = 0"
proof -
  have "search_year 8030 1970 0 = 1970"
    by (rule search_year_here) (simp add: year_start_def)
  then have "permanent_validity_to ref_chrono 0 = Inr (year_start 2971 + 30 * 86400000)"
    by (simp add: permanent_validity_to_def block_time_from_unix_millis_def ref_chrono_def year_start_def
        month_lengths_def)
  then show ?thesis by (simp add: build_unsigned_vote_ok vote_builder_defs in_i64_def year_start_def)
qed

end
