(* ===== verification/VoteProps.thy ===== *)
theory VoteProps
  imports VoteRef
begin

text \<open>
  Properties of votes, fee schedules, quotes, staples and their builders: exact validity windows,
  round trips between values and octets, what verification guarantees, and the canonical form of
  a staple.
\<close>

section \<open>Helper lemmas\<close>

lemma collect_step_lengths:
  assumes "collect_step V acc e = Inr acc'" and "pred_option (list_all (\<lambda>h. length h = 32)) (fst acc)"
  shows "pred_option (list_all (\<lambda>h. length h = 32)) (fst acc')"
proof -
  have "list_all (\<lambda>h. length h = 32) ys"
    if "traverse (\<lambda>raw. if length raw = 32 then Inr raw else Inl err) xs = Inr ys" for xs ys :: "bytes list" and err :: vote_error
    using that by (induction xs arbitrary: ys) (auto split: if_splits)
  then show ?thesis using assms by (auto simp: collect_step_def split: if_splits)
qed

lemma collect_extensions_lengths:
  assumes "collect_extensions V es = Inr (blocks, fs)"
  shows "list_all (\<lambda>h. length h = 32) blocks"
proof -
  have "pred_option (list_all (\<lambda>h. length h = 32)) (fst acc')"
    if "try_fold (collect_step V) acc es = Inr acc'" "pred_option (list_all (\<lambda>h. length h = 32)) (fst acc)" for acc acc'
    using that
  proof (induction es arbitrary: acc)
    case (Cons e es)
    then obtain acc1 where "collect_step V acc e = Inr acc1" "try_fold (collect_step V) acc1 es = Inr acc'" by auto
    then show ?case using Cons collect_step_lengths by blast
  qed simp
  then show ?thesis using assms unfolding collect_extensions_def by fastforce
qed

lemma decode_wrapper_sound:
  assumes "decode_wrapper V bs = Inr d"
  shows "algo_from_issuer (dv_issuer d) = Inr (dv_algo d) \<and> range_is_well_formed (dv_validity d) \<and>
    list_all (\<lambda>h. length h = 32) (dv_blocks d)"
  using assms collect_extensions_lengths
  by (auto simp: decode_wrapper_def Let_def validity_try_new_def algo_matches_issuer_iff split: if_splits)

lemma vote_from_serialized_sound:
  assumes "vote_from_serialized V bs = Inr v"
  shows "vote_serialized v = bs \<and>
    algo_from_issuer (dv_issuer (vote_decoded v)) = Inr (dv_algo (vote_decoded v)) \<and>
    range_is_well_formed (dv_validity (vote_decoded v)) \<and>
    list_all (\<lambda>h. length h = 32) (dv_blocks (vote_decoded v)) \<and>
    (\<exists>tbs. build_tbs V (dv_serial (vote_decoded v)) (dv_algo (vote_decoded v)) (dv_issuer (vote_decoded v))
         (dv_validity (vote_decoded v)) (dv_blocks (vote_decoded v)) (dv_fees (vote_decoded v)) = Inr tbs \<and>
       cert_encode_tbs V tbs = Inr (dv_tbs_bytes (vote_decoded v)) \<and>
       cert_encode_vote V tbs (dv_algo (vote_decoded v)) (dv_signature (vote_decoded v)) = Inr bs)"
  using assms decode_wrapper_sound unfolding vote_from_serialized_def by (auto split: if_splits)

lemma assert_quote_flag_ok: "assert_quote_flag v q = Inr u \<longleftrightarrow> (\<forall>fs. dv_fees (vote_decoded v) = Some fs \<longrightarrow> fees_quote fs = q)"
  by (auto simp: assert_quote_flag_def split: option.splits)

section \<open>Validity\<close>

text \<open>C35: despite the saturating 64-bit arithmetic, a vote is active exactly from its first instant
  minus the tolerance to its last instant plus the tolerance, both inclusive, and the two ways of
  being inactive are told apart.\<close>
theorem validity_window_exact:
  assumes "0 \<le> allowed_slop_ms c" and "in_i64 (valid_from v)" and "in_i64 (valid_to v)" and "in_i64 m"
  shows "ensure_active_at v m c =
    (if m + allowed_slop_ms c < valid_from v then Inl VMomentBeforeValidityFrom
     else if valid_to v + allowed_slop_ms c < m then Inl VExpired else Inr ())"
  by (rule ensure_active_at_exact[OF assms])

theorem validity_window_exact_witness:
  "ensure_active_at \<lparr>valid_from = 2 ^ 63 - 1, valid_to = 2 ^ 63 - 1\<rparr> (2 ^ 63 - 60001) default_vote_config = Inr () \<and>
   ensure_active_at \<lparr>valid_from = 2 ^ 63 - 1, valid_to = 2 ^ 63 - 1\<rparr> (2 ^ 63 - 60002) default_vote_config =
     Inl VMomentBeforeValidityFrom"
  using validity_window_exact[of default_vote_config "\<lparr>valid_from = 2 ^ 63 - 1, valid_to = 2 ^ 63 - 1\<rparr>"]
  by (simp add: default_vote_config_def in_i64_def)

text \<open>A vote built as permanent is permanent at every moment up to its first instant, for every
  threshold of at most a thousand years of 365 days, and carries no fees.\<close>
theorem permanent_vote_is_permanent:
  assumes "chrono_laws C" and "build_unsigned_vote C b = Inr u" and "vb_permanent b"
    and "moment \<le> valid_from (uv_validity u)" and "in_i64 moment" and "in_i64 (valid_to (uv_validity u))"
    and "0 \<le> permanent_vote_threshold_ms config"
    and "permanent_vote_threshold_ms config \<le> 1000 * 365 * 86400000"
  shows "is_permanent_at (uv_validity u) moment config \<and> uv_fees u = None"
  using chrono_laws.permanent_vote_permanent[OF assms(1-4) assms(8,7,5,6) refl] assms(2,3)
  by (auto simp: build_unsigned_vote_ok)

theorem permanent_vote_is_permanent_witness:
  "\<exists>u. build_unsigned_vote ref_chrono
     (set_permanent (add_block_hash (replicate 32 7) (set_validity_from 0 (set_issuer ref_account (set_serial 1 vote_builder_new)))))
       = Inr u \<and> is_permanent_at (uv_validity u) 0 default_vote_config"
proof -
  obtain u where u: "build_unsigned_vote ref_chrono
     (set_permanent (add_block_hash (replicate 32 7) (set_validity_from 0 (set_issuer ref_account (set_serial 1 vote_builder_new)))))
     = Inr u" "in_i64 (valid_to (uv_validity u))" "valid_from (uv_validity u) = 0"
    using ref_permanent_builder by blast
  have "is_permanent_at (uv_validity u) 0 default_vote_config"
    using permanent_vote_is_permanent[OF refcal.chrono_laws_axioms u(1), of 0 default_vote_config] u(2,3)
    by (simp add: vote_builder_defs in_i64_def default_vote_config_def)
  then show ?thesis using u(1) by blast
qed

section \<open>Fees\<close>

text \<open>A fee schedule converted to the transport form and back is unchanged: amounts, payees,
  tokens, the quote flag and the single or multiple form.\<close>
theorem fees_transport_round_trip:
  assumes "crypto_laws L" and "fees_to_transport fs = Inr t" and "wf_fees L fs"
  shows "fees_from_transport L t = Inr fs"
  by (rule crypto_laws.fees_transport_roundtrip[OF assms])

theorem fees_transport_round_trip_witness:
  "\<exists>t. fees_to_transport (FeesMultiple True
      [\<lparr>fee_amount = 5, fee_pay_to = Some ref_account, fee_token = None\<rparr>,
       \<lparr>fee_amount = 0, fee_pay_to = None, fee_token = None\<rparr>]) = Inr t \<and>
    fees_from_transport ref_lib t = Inr (FeesMultiple True
      [\<lparr>fee_amount = 5, fee_pay_to = Some ref_account, fee_token = None\<rparr>,
       \<lparr>fee_amount = 0, fee_pay_to = None, fee_token = None\<rparr>])"
proof -
  let ?fs = "FeesMultiple True [\<lparr>fee_amount = 5, fee_pay_to = Some ref_account, fee_token = None\<rparr>,
    \<lparr>fee_amount = 0, fee_pay_to = None, fee_token = None\<rparr>]"
  have "\<exists>t. fees_to_transport ?fs = Inr t"
    by (simp add: fee_to_entry_def pay_to_kind_def)
  moreover have "wf_fees ref_lib ?fs" by (simp add: wf_fees_def wf_fee_def)
  ultimately show ?thesis using fees_transport_round_trip[OF ref.crypto_laws_axioms] by blast
qed

text \<open>The contract of fee selection: the first wanted token that some entry takes, then the base
  token, then the first entry; within one token, the first entry.\<close>

definition first_match :: "('a \<Rightarrow> bool) \<Rightarrow> 'a list \<Rightarrow> 'a \<Rightarrow> bool" where
  "first_match P xs x \<longleftrightarrow> (\<exists>us vs. xs = us @ x # vs \<and> P x \<and> list_all (\<lambda>u. \<not> P u) us)"

definition takes_token :: "crypto_lib \<Rightarrow> generic_account \<Rightarrow> generic_account \<Rightarrow> fee \<Rightarrow> bool" where
  "takes_token L base wanted f \<longleftrightarrow> account_to_string L (token_or base f) = account_to_string L wanted"

definition fee_choice :: "crypto_lib \<Rightarrow> generic_account \<Rightarrow> generic_account list \<Rightarrow> fee list \<Rightarrow> fee \<Rightarrow> bool" where
  "fee_choice L base priority fs f \<longleftrightarrow>
     (\<exists>wanted. first_match (\<lambda>w. list_ex (takes_token L base w) fs) priority wanted \<and>
        first_match (takes_token L base wanted) fs f) \<or>
     list_all (\<lambda>w. \<not> list_ex (takes_token L base w) fs) priority \<and>
       (first_match (takes_token L base base) fs f \<or>
        \<not> list_ex (takes_token L base base) fs \<and> fs \<noteq> [] \<and> f = hd fs)"

lemma first_match_Nil [simp]: "\<not> first_match P [] x"
  by (simp add: first_match_def)

lemma first_match_Cons: "first_match P (y # ys) x \<longleftrightarrow> (if P y then x = y else first_match P ys x)"
proof
  assume "first_match P (y # ys) x"
  then obtain us vs where u: "y # ys = us @ x # vs" "P x" "list_all (\<lambda>u. \<not> P u) us" by (auto simp: first_match_def)
  then show "if P y then x = y else first_match P ys x" by (cases us) (auto simp: first_match_def)
next
  assume r: "if P y then x = y else first_match P ys x"
  show "first_match P (y # ys) x"
  proof (cases "P y")
    case True
    then show ?thesis using r unfolding first_match_def by (intro exI[of _ "[]"] exI[of _ ys]) simp
  next
    case False
    then obtain us vs where "ys = us @ x # vs" "P x" "list_all (\<lambda>u. \<not> P u) us" using r by (auto simp: first_match_def)
    then show ?thesis using False unfolding first_match_def by (intro exI[of _ "y # us"] exI[of _ vs]) simp
  qed
qed

lemma find_first_match: "find P xs = Some x \<longleftrightarrow> first_match P xs x"
  by (induction xs) (auto simp: first_match_Cons)

lemma find_None_list_ex: "find P xs = None \<longleftrightarrow> \<not> list_ex P xs"
  by (auto simp: find_None_iff list_ex_iff)

lemma pays_base_token_takes: "pays_base_token L base = takes_token L base base"
  by (auto simp: pays_base_token_def takes_token_def token_or_def fun_eq_iff split: option.splits)

lemma find_map_find:
  "find_map (\<lambda>w. find (P w) fs) ws = Some f \<longleftrightarrow>
     (\<exists>w. first_match (\<lambda>w. list_ex (P w) fs) ws w \<and> first_match (P w) fs f)"
proof (induction ws)
  case (Cons w ws)
  then show ?case
    using find_None_list_ex[of "P w" fs]
    by (cases "find (P w) fs") (auto simp: first_match_Cons find_first_match[symmetric])
qed simp

lemma find_map_find_None:
  "find_map (\<lambda>w. find (P w) fs) ws = None \<longleftrightarrow> list_all (\<lambda>w. \<not> list_ex (P w) fs) ws"
  by (induction ws) (auto simp: find_None_list_ex[symmetric] split: option.splits)

lemma first_match_exists: "first_match P xs x \<Longrightarrow> \<not> list_all (\<lambda>x. \<not> P x) xs"
  by (auto simp: first_match_def)

lemma or_else_Some: "or_else x y = Some a \<longleftrightarrow> x = Some a \<or> x = None \<and> y = Some a"
  by (cases x) (auto simp: or_else_def)

lemma fees_select_spec: "fees_select L fs base priority = Some f \<longleftrightarrow> fee_choice L base priority (fees_entries fs) f"
proof -
  have "fees_select L fs base priority =
      or_else (find_map (\<lambda>w. find (takes_token L base w) (fees_entries fs)) priority)
       (or_else (find (takes_token L base base) (fees_entries fs))
          (case fees_entries fs of [] \<Rightarrow> None | f # _ \<Rightarrow> Some f))"
    unfolding fees_select_def takes_token_def[abs_def] pays_base_token_takes ..
  then show ?thesis
    by (auto simp: or_else_Some find_map_find find_map_find_None find_first_match find_None_list_ex fee_choice_def
        split: list.splits)
qed

text \<open>The payment a fee schedule asks for: none when some entry is free, otherwise a SEND of the
  amount of the entry chosen by the token priorities, to its payee or else the issuer, in its token
  or else the base token.\<close>
theorem fees_to_send_spec:
  "fees_to_send L fs base priority issuer = Some s \<longleftrightarrow>
     list_all (\<lambda>f. fee_amount f \<noteq> 0) (fees_entries fs) \<and>
     (\<exists>f. fee_choice L base priority (fees_entries fs) f \<and>
        s = \<lparr>send_to = (case fee_pay_to f of Some a \<Rightarrow> a | None \<Rightarrow> issuer), send_amount = fee_amount f,
             send_token = token_or base f, send_external = None\<rparr>)"
  by (auto simp: fees_to_send_def fees_required_def fees_select_spec[symmetric] token_or_def list_all_iff list_ex_iff)

section \<open>Votes\<close>

text \<open>C4: octets accepted as a vote are the canonical encoding of its contents, the issuer's key has
  verified the signature over the canonical certificate body, the algorithm is the issuer's, the
  validity is well formed, every block hash has 32 octets, and the vote is not a quote.\<close>
theorem verified_vote_is_genuine:
  assumes "vote_verify V bs = Inr v"
  shows "vote_serialized v = bs \<and> \<not> vote_is_quote v \<and>
    verify_for_cert V (dv_issuer (vote_decoded v)) (dv_tbs_bytes (vote_decoded v)) (dv_signature (vote_decoded v)) = Inr () \<and>
    algo_from_issuer (dv_issuer (vote_decoded v)) = Inr (dv_algo (vote_decoded v)) \<and>
    range_is_well_formed (dv_validity (vote_decoded v)) \<and>
    list_all (\<lambda>h. length h = 32) (dv_blocks (vote_decoded v)) \<and>
    (\<exists>tbs. build_tbs V (dv_serial (vote_decoded v)) (dv_algo (vote_decoded v)) (dv_issuer (vote_decoded v))
         (dv_validity (vote_decoded v)) (dv_blocks (vote_decoded v)) (dv_fees (vote_decoded v)) = Inr tbs \<and>
       cert_encode_tbs V tbs = Inr (dv_tbs_bytes (vote_decoded v)) \<and>
       cert_encode_vote V tbs (dv_algo (vote_decoded v)) (dv_signature (vote_decoded v)) = Inr bs)"
proof -
  have f: "vote_from_serialized V bs = Inr v" and "vote_verify_signature V v = Inr ()" and "assert_quote_flag v False = Inr ()"
    using assms by (auto simp: vote_verify_def)
  then have "verify_for_cert V (dv_issuer (vote_decoded v)) (dv_tbs_bytes (vote_decoded v)) (dv_signature (vote_decoded v)) = Inr ()"
    "\<not> vote_is_quote v"
    by (auto simp: vote_verify_signature_def vote_is_quote_def assert_quote_flag_def split: option.splits if_splits)
  then show ?thesis using vote_from_serialized_sound[OF f] by blast
qed

theorem verified_vote_is_genuine_witness:
  "\<exists>bs v. vote_verify ref_vlib bs = Inr v \<and> vote_serialized v = bs \<and> \<not> vote_is_quote v"
proof -
  obtain v where v: "unsigned_vote_sign ref_vlib (ref_unsigned_vote [replicate 32 7] None) ref_account = Inr v"
    using ref_vote_signed[of "[replicate 32 7]" None] by auto
  have "vote_verify ref_vlib (vote_serialized v) = Inr v" using ref_vote_verified[OF v] by simp
  then show ?thesis using verified_vote_is_genuine[of ref_vlib "vote_serialized v" v] by blast
qed

text \<open>C7: a vote that is built, signed with a key whose signatures verify under the issuer's, and sent
  as octets is accepted as the same vote, when it is not a quote; when it is a quote, the quote
  verifier accepts it.\<close>
theorem signed_vote_is_accepted:
  assumes "vote_laws V" and "wf_unsigned_vote (vl_crypto V) u" and "unsigned_vote_sign V u signer = Inr v"
    and "\<And>m s. sign_for_cert V signer m = Inr s \<Longrightarrow> verify_for_cert V (uv_issuer u) m s = Inr ()"
  shows "(\<not> unsigned_vote_is_quote u \<longrightarrow> vote_verify V (vote_serialized v) = Inr v) \<and>
    (unsigned_vote_is_quote u \<longrightarrow> vote_quote_verify V (vote_serialized v) = Inr (VoteQuote v))"
proof -
  have f: "vote_from_serialized V (vote_serialized v) = Inr v"
    by (rule vote_laws.signed_vote_from_serialized[OF assms(1,3,2)])
  have "vote_verify_signature V v = Inr ()" and "dv_fees (vote_decoded v) = uv_fees u"
    using assms(3,4) by (auto simp: unsigned_vote_sign_def vote_verify_signature_def)
  then show ?thesis using f
    by (auto simp: vote_verify_def vote_quote_verify_def vote_quote_try_from_vote_def assert_quote_flag_def
        vote_is_quote_def unsigned_vote_is_quote_def split: option.splits)
qed

lemma ref_sign_for_cert:
  "sign_for_cert ref_vlib ref_account m = Inr s \<Longrightarrow> verify_for_cert ref_vlib ref_account m s = Inr ()"
  by (simp add: ref_account_def)

theorem signed_vote_is_accepted_witness:
  "\<exists>v. unsigned_vote_sign ref_vlib (ref_unsigned_vote [replicate 32 7] None) ref_account = Inr v \<and>
    vote_verify ref_vlib (vote_serialized v) = Inr v"
proof -
  obtain v where v: "unsigned_vote_sign ref_vlib (ref_unsigned_vote [replicate 32 7] None) ref_account = Inr v"
    using ref_vote_signed[of "[replicate 32 7]" None] by auto
  have "wf_unsigned_vote ref_lib (ref_unsigned_vote [replicate 32 7] None)" by (rule ref_unsigned_vote_wf) simp_all
  then have "vote_verify ref_vlib (vote_serialized v) = Inr v"
    using signed_vote_is_accepted[OF refvote.vote_laws_axioms _ v] ref_sign_for_cert
    by (simp add: ref_unsigned_vote_def unsigned_vote_is_quote_def)
  then show ?thesis using v by blast
qed

text \<open>The verifier accepts a vote over no blocks at all, which the constructor of unsigned votes
  refuses: only a missing hash extension is reported, not an empty one.\<close>
theorem vote_without_blocks_is_accepted:
  "\<exists>u v. uv_blocks u = [] \<and> vote_verify ref_vlib (vote_serialized v) = Inr v \<and> dv_blocks (vote_decoded v) = [] \<and>
     unsigned_vote_sign ref_vlib u ref_account = Inr v \<and>
     unsigned_vote_try_new (uv_serial u) (uv_issuer u) (uv_validity u) (uv_blocks u) (uv_fees u) =
       Inl VMalformedVoteNoBlocksFound"
proof -
  obtain v where v: "unsigned_vote_sign ref_vlib (ref_unsigned_vote [] None) ref_account = Inr v"
    using ref_vote_signed[of "[]" None] by auto
  have "vote_verify ref_vlib (vote_serialized v) = Inr v" using ref_vote_verified[OF v] by simp
  moreover have "dv_blocks (vote_decoded v) = []"
    using v by (auto simp: unsigned_vote_sign_def ref_unsigned_vote_def)
  ultimately show ?thesis using v
    by (intro exI[of _ "ref_unsigned_vote [] None"] exI[of _ v]) (simp add: ref_unsigned_vote_def unsigned_vote_try_new_def)
qed

text \<open>A quote and a binding vote are never confused: the same octets cannot be accepted by both
  verifiers, and what the quote builder returns is a quote.\<close>
theorem quotes_and_votes_disjoint:
  assumes "vote_quote_verify V bs = Inr q"
  shows "vote_is_quote (quote_vote q) \<and> vote_verify V bs = Inl VMalformedFeesQuoteInvalid"
proof -
  obtain v fs where v: "vote_from_serialized V bs = Inr v" "vote_verify_signature V v = Inr ()" "q = VoteQuote v"
    "dv_fees (vote_decoded v) = Some fs" "fees_quote fs"
    using assms by (auto simp: vote_quote_verify_def vote_quote_try_from_vote_def vote_is_quote_def split: if_splits option.splits)
  then show ?thesis by (simp add: vote_verify_def assert_quote_flag_def vote_is_quote_def)
qed

theorem quotes_and_votes_disjoint_witness:
  "\<exists>bs q. vote_quote_verify ref_vlib bs = Inr q \<and> vote_is_quote (quote_vote q) \<and>
     vote_verify ref_vlib bs = Inl VMalformedFeesQuoteInvalid"
proof -
  obtain v where v: "unsigned_vote_sign ref_vlib (ref_unsigned_vote [] (Some ref_quote_fees)) ref_account = Inr v"
    using ref_vote_signed[of "[]" "Some ref_quote_fees"] by auto
  have "vote_quote_verify ref_vlib (vote_serialized v) = Inr (VoteQuote v)" using ref_quote_verified[OF v] by simp
  then show ?thesis using quotes_and_votes_disjoint[of ref_vlib "vote_serialized v" "VoteQuote v"] by blast
qed

section \<open>Staples\<close>

text \<open>Reordering succeeds exactly when the expected hashes are distinct and are the hashes of the
  given blocks, and gives the permutation of the blocks that lists them in the expected order.\<close>
theorem reorder_blocks_spec:
  "reorder_blocks_to_match blocks expected = Inr out \<longleftrightarrow>
     distinct expected \<and> mset out = mset blocks \<and> map blk_hash out = expected"
  by (rule reorder_iff)

text \<open>C5: every staple, built or verified, has blocks and votes; each vote is active, not a quote,
  endorses exactly the staple's blocks in order and agrees with the others on permanence; issuers
  are distinct, permanent votes carry no fees, and the votes are sorted by hash.\<close>
theorem staple_invariant:
  assumes "vote_staple_try_new S blocks votes config moment = Inr st \<or>
    vote_staple_verify S bs config moment = Inr st"
  shows "staple_inv (sl_vote S) config moment st"
  using assms vote_staple_try_new_sound by (auto simp: staple_spec_def vote_staple_verify_ok)

theorem staple_invariant_witness:
  "\<exists>b v st. vote_staple_try_new ref_slib [b] [v] default_vote_config 1000 = Inr st \<and>
     staple_inv ref_vlib default_vote_config 1000 st"
proof -
  obtain b v st where "vote_staple_try_new ref_slib [b] [v] default_vote_config 1000 = Inr st"
    using ref_staple by blast
  then show ?thesis using staple_invariant[of ref_slib "[b]" "[v]" default_vote_config 1000 st] by auto
qed

text \<open>C6: construction implements its specification on the multisets of blocks and votes: the result
  does not depend on the order of the arguments, as long as the votes have distinct hashes.\<close>
theorem staple_construction_refines:
  assumes "inj_on (vote_hash (sl_vote S)) (set votes)"
  shows "vote_staple_try_new S blocks votes config moment = Inr st \<longleftrightarrow>
    staple_spec S config moment (mset blocks) (mset votes) st"
  using vote_staple_try_new_sound vote_staple_try_new_complete[OF _ assms] by blast

theorem staple_construction_refines_witness:
  "\<exists>b v st. vote_staple_try_new ref_slib [b] [v] default_vote_config 1000 = Inr st \<and>
     staple_spec ref_slib default_vote_config 1000 {#b#} {#v#} st"
proof -
  obtain b v st where st: "vote_staple_try_new ref_slib [b] [v] default_vote_config 1000 = Inr st"
    using ref_staple by blast
  moreover have "inj_on (vote_hash (sl_vote ref_slib)) (set [v])" by simp
  ultimately show ?thesis
    using staple_construction_refines[of ref_slib "[v]" "[b]" default_vote_config 1000 st]
    unfolding mset.simps by blast
qed

text \<open>C8: a staple of accepted blocks and votes is accepted from its compressed octets as the same
  staple, at the same moment.\<close>
theorem staple_bytes_round_trip:
  assumes "staple_laws S" and "vote_staple_try_new S blocks votes config moment = Inr st"
    and "\<And>b. b \<in> set blocks \<Longrightarrow> block_try_from_bytes (sl_block S) (sl_backend S) (blk_bytes b) = Inr b"
    and "\<And>v. v \<in> set votes \<Longrightarrow> vote_verify (sl_vote S) (vote_serialized v) = Inr v"
  shows "vote_staple_verify S (vs_compressed st) config moment = Inr st"
  by (rule staple_laws.staple_bytes_accepted[OF assms])

theorem staple_bytes_round_trip_witness:
  "\<exists>b v st. vote_staple_try_new ref_slib [b] [v] default_vote_config 1000 = Inr st \<and>
     vote_staple_verify ref_slib (vs_compressed st) default_vote_config 1000 = Inr st"
proof -
  obtain b v st where r: "block_try_from_bytes ref_blib ref_backend (blk_bytes b) = Inr b"
    "vote_verify ref_vlib (vote_serialized v) = Inr v"
    "vote_staple_try_new ref_slib [b] [v] default_vote_config 1000 = Inr st"
    using ref_staple by blast
  then have "vote_staple_verify ref_slib (vs_compressed st) default_vote_config 1000 = Inr st"
    using staple_bytes_round_trip[OF refstaple.staple_laws_axioms r(3)] by simp
  then show ?thesis using r(3) by blast
qed

end
