(* ===== verification/NodeError.thy ===== *)
theory NodeError
  imports Vote
begin

text \<open>
  Errors that reach a client: the typed node error and its construction from the decoded envelope
  (\<open>keetanetwork-error/src/lib.rs\<close>), and the client's own error enum with its stable codes
  (\<open>client/src/error.rs\<close>).  Error sources of third-party crates are not represented.
\<close>

section \<open>Node errors\<close>

datatype node_error_type =
    NodeAccount | NodeApi | NodeBlock | NodeCertificate | NodeClient | NodeKv | NodeLedger
  | NodePermissions | NodeVote | NodeGeneric

definition node_error_type_from :: "string \<Rightarrow> node_error_type" where
  "node_error_type_from s =
     (if s = ''ACCOUNT'' then NodeAccount
      else if s = ''API'' then NodeApi
      else if s = ''BLOCK'' then NodeBlock
      else if s = ''CERTIFICATE'' then NodeCertificate
      else if s = ''CLIENT'' then NodeClient
      else if s = ''KV'' then NodeKv
      else if s = ''LEDGER'' then NodeLedger
      else if s = ''PERMISSIONS'' then NodePermissions
      else if s = ''VOTE'' then NodeVote
      else NodeGeneric)"

definition LEDGER_VOTE_CODES :: "string list" where
  "LEDGER_VOTE_CODES = [''LEDGER_NOT_SUCCESSOR'', ''LEDGER_NOT_OPENING'']"

definition LEDGER_IDEMPOTENT_CODES :: "string list" where
  "LEDGER_IDEMPOTENT_CODES = [''LEDGER_IDEMPOTENT_KEY_EXISTS'']"

record node_error_parts =
  np_kind :: node_error_type
  np_code :: string
  np_message :: string
  np_should_retry :: bool
  np_retry_delay :: "64 word option"
  np_accounts :: "string list"
  np_blockhash :: "string option"
  np_existing_blockhash :: "string option"
  np_account :: "string option"
  np_idempotent_key :: "bytes option"

datatype keeta_net_error =
    KInternal
  | KUnknown string
  | KNotImplemented
  | KCode string string
  | KLedger string string bool "64 word option"
  | KLedgerVote string string "string list"
  | KLedgerIdempotent string string string string "string option" "bytes option"

fun keeta_net_error_code :: "keeta_net_error \<Rightarrow> string option" where
  "keeta_net_error_code (KCode code _) = Some code"
| "keeta_net_error_code (KLedger code _ _ _) = Some code"
| "keeta_net_error_code (KLedgerVote code _ _) = Some code"
| "keeta_net_error_code (KLedgerIdempotent code _ _ _ _ _) = Some code"
| "keeta_net_error_code KInternal = None"
| "keeta_net_error_code (KUnknown _) = None"
| "keeta_net_error_code KNotImplemented = None"

definition keeta_net_error_node_type :: "keeta_net_error \<Rightarrow> node_error_type option" where
  "keeta_net_error_node_type e =
     map_option (\<lambda>code. node_error_type_from (takeWhile (\<lambda>c. c \<noteq> CHR ''_'') code)) (keeta_net_error_code e)"

definition keeta_net_error_from_parts :: "node_error_parts \<Rightarrow> keeta_net_error" where
  "keeta_net_error_from_parts p =
     (if np_kind p \<noteq> NodeLedger then KCode (np_code p) (np_message p)
      else
        let fallback =
          (if np_code p \<in> set LEDGER_VOTE_CODES
           then KLedgerVote (np_code p) (np_message p) (np_accounts p)
           else KLedger (np_code p) (np_message p) (np_should_retry p) (np_retry_delay p))
        in if np_code p \<in> set LEDGER_IDEMPOTENT_CODES
           then (case (np_blockhash p, np_existing_blockhash p) of
                   (Some blockhash, Some existing) \<Rightarrow>
                     KLedgerIdempotent (np_code p) (np_message p) blockhash existing (np_account p) (np_idempotent_key p)
                 | _ \<Rightarrow> fallback)
           else fallback)"

section \<open>Client errors\<close>

datatype client_error =
    CTransport | CNode keeta_net_error | CDecode | CVote vote_error | CBlock block_error | CAmount
  | CHash crypto_error | CMoment | CPermission block_error | CAclPrincipal | CMissingVote | CMissingQuote
  | CMissingPublish | CMissingVersion | CFeeRequired | CFeeBlockFactory | CAccount account_error
  | CUnsupportedNetwork | CNoRepresentatives | CTimeout | CQuorumNotReached | CSyncPublishFailed
  | CRecoverFailed | CUnresolvedIdentifier | CSignerRequired | CSwapMultiBlock | CSwapMissingSend
  | CSwapMissingReceive | CSwapAccountMismatch | CSwapTokenMismatch | CSwapAmountMismatch
  | CSwapAmountTooLow | CSwapExactMismatch

definition client_error_code :: "client_error \<Rightarrow> string" where
  "client_error_code e =
     (case e of
        CTransport \<Rightarrow> ''TRANSPORT''
      | CNode source \<Rightarrow> (case keeta_net_error_code source of Some code \<Rightarrow> code | None \<Rightarrow> ''NODE'')
      | CDecode \<Rightarrow> ''DECODE''
      | CVote _ \<Rightarrow> ''VOTE''
      | CBlock _ \<Rightarrow> ''BLOCK''
      | CAmount \<Rightarrow> ''AMOUNT''
      | CHash _ \<Rightarrow> ''HASH''
      | CMoment \<Rightarrow> ''MOMENT''
      | CPermission _ \<Rightarrow> ''PERMISSION''
      | CAclPrincipal \<Rightarrow> ''ACL_PRINCIPAL''
      | CMissingVote \<Rightarrow> ''MISSING_VOTE''
      | CMissingQuote \<Rightarrow> ''MISSING_QUOTE''
      | CMissingPublish \<Rightarrow> ''MISSING_PUBLISH''
      | CMissingVersion \<Rightarrow> ''MISSING_VERSION''
      | CFeeRequired \<Rightarrow> ''FEE_REQUIRED''
      | CFeeBlockFactory \<Rightarrow> ''FEE_BLOCK_FACTORY''
      | CAccount _ \<Rightarrow> ''ACCOUNT''
      | CUnsupportedNetwork \<Rightarrow> ''UNSUPPORTED_NETWORK''
      | CNoRepresentatives \<Rightarrow> ''NO_REPRESENTATIVES''
      | CTimeout \<Rightarrow> ''TIMEOUT''
      | CQuorumNotReached \<Rightarrow> ''QUORUM_NOT_REACHED''
      | CSyncPublishFailed \<Rightarrow> ''SYNC_PUBLISH_FAILED''
      | CRecoverFailed \<Rightarrow> ''RECOVER_FAILED''
      | CUnresolvedIdentifier \<Rightarrow> ''UNRESOLVED_IDENTIFIER''
      | CSignerRequired \<Rightarrow> ''SIGNER_REQUIRED''
      | CSwapMultiBlock \<Rightarrow> ''SWAP_MULTI_BLOCK''
      | CSwapMissingSend \<Rightarrow> ''SWAP_MISSING_SEND''
      | CSwapMissingReceive \<Rightarrow> ''SWAP_MISSING_RECEIVE''
      | CSwapAccountMismatch \<Rightarrow> ''SWAP_ACCOUNT_MISMATCH''
      | CSwapTokenMismatch \<Rightarrow> ''SWAP_TOKEN_MISMATCH''
      | CSwapAmountMismatch \<Rightarrow> ''SWAP_AMOUNT_MISMATCH''
      | CSwapAmountTooLow \<Rightarrow> ''SWAP_AMOUNT_TOO_LOW''
      | CSwapExactMismatch \<Rightarrow> ''SWAP_EXACT_MISMATCH'')"

definition is_ledger_code :: "client_error \<Rightarrow> string \<Rightarrow> bool" where
  "is_ledger_code e code \<longleftrightarrow> (case e of CNode source \<Rightarrow> keeta_net_error_code source = Some code | _ \<Rightarrow> False)"

section \<open>Lemmas\<close>

lemma from_parts_code [simp]: "keeta_net_error_code (keeta_net_error_from_parts p) = Some (np_code p)"
  by (simp add: keeta_net_error_from_parts_def Let_def split: option.splits)

lemma from_parts_vote_accounts:
  "keeta_net_error_from_parts p = KLedgerVote code message accounts \<longleftrightarrow>
     np_kind p = NodeLedger \<and> np_code p \<in> set LEDGER_VOTE_CODES \<and>
     code = np_code p \<and> message = np_message p \<and> accounts = np_accounts p"
  by (auto simp: keeta_net_error_from_parts_def Let_def LEDGER_VOTE_CODES_def LEDGER_IDEMPOTENT_CODES_def
      split: option.splits)

end
