(* ===== verification/F64.thy ===== *)
theory F64
  imports Prelude Complex_Main "HOL-Library.Log_Nat"
begin

text \<open>
  The type \<open>f64\<close> of the language: binary64 values with rounding to nearest, ties to even.  A finite
  value is the rational number it denotes; the two signed zeros are identified, which no comparison
  of the program can tell apart.
\<close>

section \<open>Values and rounding\<close>

datatype f64 = Fin rat | PInf | NInf | NaN

definition half_even :: "rat \<Rightarrow> int" where
  "half_even q =
     (let n = \<lfloor>q\<rfloor>; r = q - of_int n
      in if r < 1 / 2 \<or> r = 1 / 2 \<and> even n then n else n + 1)"

definition rat_exponent :: "rat \<Rightarrow> int" where
  "rat_exponent q =
     (let (a, b) = quotient_of q; e = bitlen a - bitlen b
      in if 2 powi e \<le> q then e else e - 1)"

definition f64_ulp :: "rat \<Rightarrow> rat" where
  "f64_ulp q = 2 powi (max (rat_exponent q - 52) (-1074))"

definition round_magnitude :: "rat \<Rightarrow> rat" where
  "round_magnitude q = of_int (half_even (q / f64_ulp q)) * f64_ulp q"

definition round_f64 :: "rat \<Rightarrow> f64" where
  "round_f64 q =
     (if q = 0 then Fin 0
      else let r = round_magnitude \<bar>q\<bar>
           in if r < 2 ^ 1024 then Fin (sgn q * r) else if 0 < q then PInf else NInf)"

section \<open>Operations\<close>

fun f64_add :: "f64 \<Rightarrow> f64 \<Rightarrow> f64" where
  "f64_add (Fin a) (Fin b) = round_f64 (a + b)"
| "f64_add PInf NInf = NaN"
| "f64_add NInf PInf = NaN"
| "f64_add NaN _ = NaN"
| "f64_add _ NaN = NaN"
| "f64_add PInf _ = PInf"
| "f64_add NInf _ = NInf"
| "f64_add _ x = x"

definition f64_inf :: "rat \<Rightarrow> f64" where
  "f64_inf s = (if s = 0 then NaN else if 0 < s then PInf else NInf)"

fun f64_mul :: "f64 \<Rightarrow> f64 \<Rightarrow> f64" where
  "f64_mul (Fin a) (Fin b) = round_f64 (a * b)"
| "f64_mul NaN _ = NaN"
| "f64_mul _ NaN = NaN"
| "f64_mul (Fin a) PInf = f64_inf a"
| "f64_mul (Fin a) NInf = f64_inf (- a)"
| "f64_mul PInf (Fin b) = f64_inf b"
| "f64_mul NInf (Fin b) = f64_inf (- b)"
| "f64_mul PInf PInf = PInf"
| "f64_mul NInf NInf = PInf"
| "f64_mul _ _ = NInf"

fun f64_div :: "f64 \<Rightarrow> f64 \<Rightarrow> f64" where
  "f64_div (Fin a) (Fin b) = (if b = 0 then f64_inf a else round_f64 (a / b))"
| "f64_div NaN _ = NaN"
| "f64_div _ NaN = NaN"
| "f64_div (Fin a) _ = Fin 0"
| "f64_div PInf (Fin b) = (if b < 0 then NInf else PInf)"
| "f64_div NInf (Fin b) = (if b < 0 then PInf else NInf)"
| "f64_div _ _ = NaN"

fun f64_le :: "f64 \<Rightarrow> f64 \<Rightarrow> bool" where
  "f64_le NaN _ = False"
| "f64_le _ NaN = False"
| "f64_le NInf _ = True"
| "f64_le _ PInf = True"
| "f64_le (Fin a) (Fin b) = (a \<le> b)"
| "f64_le _ _ = False"

definition f64_min :: "f64 \<Rightarrow> f64 \<Rightarrow> f64" where
  "f64_min x y = (if x = NaN then y else if y = NaN then x else if f64_le x y then x else y)"

definition f64_max :: "f64 \<Rightarrow> f64 \<Rightarrow> f64" where
  "f64_max x y = (if x = NaN then y else if y = NaN then x else if f64_le x y then y else x)"

section \<open>Rounding is monotone\<close>

lemma half_even_of_int [simp]: "half_even (of_int n) = n"
  by (simp add: half_even_def)

lemma half_even_mono: assumes "p \<le> q" shows "half_even p \<le> half_even q"
proof (cases "\<lfloor>p\<rfloor> = \<lfloor>q\<rfloor>")
  case True
  then show ?thesis using assms by (auto simp: half_even_def Let_def)
next
  case False
  then have "\<lfloor>p\<rfloor> + 1 \<le> \<lfloor>q\<rfloor>" using floor_mono[OF assms] by linarith
  moreover have "half_even p \<le> \<lfloor>p\<rfloor> + 1" "\<lfloor>q\<rfloor> \<le> half_even q" by (simp_all add: half_even_def Let_def)
  ultimately show ?thesis by linarith
qed

lemma powi_mono: "m \<le> n \<Longrightarrow> (2 :: rat) powi m \<le> 2 powi n"
  by (intro power_int_increasing) auto

lemma rat_exponent_bounds:
  assumes "0 < q"
  shows "2 powi (rat_exponent q) \<le> q" and "q < 2 powi (rat_exponent q + 1)"
proof -
  obtain a b where ab: "quotient_of q = (a, b)" by force
  then have q: "q = of_int a / of_int b" and b: "0 < b"
    by (simp_all add: quotient_of_div quotient_of_denom_pos)
  then have a: "0 < a" using assms by (simp add: zero_less_divide_iff)
  have A: "(2 :: rat) powi (bitlen a - 1) \<le> of_int a" "of_int a < (2 :: rat) powi bitlen a"
    and B: "(2 :: rat) powi (bitlen b - 1) \<le> of_int b" "of_int b < (2 :: rat) powi bitlen b"
    using bitlen_bounds[OF a] bitlen_bounds[OF b] bitlen_nonneg[of a] bitlen_nonneg[of b] a b
      bitlen_eq_zero_iff[of a] bitlen_eq_zero_iff[of b]
    by (simp_all add: power_int_def)
  let ?e = "bitlen a - bitlen b"
  have lo: "2 powi (?e - 1) < q"
  proof -
    have "(2 :: rat) powi (?e - 1) * of_int b < 2 powi (?e - 1) * 2 powi bitlen b"
      using B(2) by (intro mult_strict_left_mono) auto
    also have "\<dots> = 2 powi (bitlen a - 1)" by (simp flip: power_int_add)
    finally show ?thesis using A(1) b by (simp add: q pos_less_divide_eq)
  qed
  have hi: "q < 2 powi (?e + 1)"
  proof -
    have "(2 :: rat) powi bitlen a = 2 powi (?e + 1) * 2 powi (bitlen b - 1)" by (simp flip: power_int_add)
    also have "\<dots> \<le> 2 powi (?e + 1) * of_int b" using B(1) by (intro mult_left_mono) auto
    finally show ?thesis using A(2) b by (simp add: q pos_divide_less_eq)
  qed
  show "2 powi (rat_exponent q) \<le> q" "q < 2 powi (rat_exponent q + 1)"
    using lo hi by (auto simp: rat_exponent_def ab Let_def)
qed

lemma rat_exponent_mono: assumes "0 < p" "p \<le> q" shows "rat_exponent p \<le> rat_exponent q"
proof (rule ccontr)
  assume "\<not> rat_exponent p \<le> rat_exponent q"
  then have "(2 :: rat) powi (rat_exponent q + 1) \<le> 2 powi (rat_exponent p)" by (intro powi_mono) auto
  then show False using rat_exponent_bounds[of p] rat_exponent_bounds[of q] assms by linarith
qed

lemma f64_ulp_pos [simp]: "0 < f64_ulp q"
  by (simp add: f64_ulp_def)

lemma round_magnitude_power:
  assumes "m \<ge> max (rat_exponent q - 52) (-1074)"
  shows "q \<le> 2 powi m \<Longrightarrow> round_magnitude q \<le> 2 powi m" "2 powi m \<le> q \<Longrightarrow> 2 powi m \<le> round_magnitude q"
proof -
  let ?u = "max (rat_exponent q - 52) (-1074)"
  have "(2 :: rat) powi m = 2 powi (m - ?u) * 2 powi ?u" by (simp flip: power_int_add)
  moreover have "(2 :: rat) powi (m - ?u) = of_int (2 ^ nat (m - ?u))" using assms by (simp add: power_int_def)
  ultimately have m: "(2 :: rat) powi m = of_int (2 ^ nat (m - ?u)) * f64_ulp q" by (simp add: f64_ulp_def)
  {
    assume "q \<le> 2 powi m"
    then have "q / f64_ulp q \<le> of_int (2 ^ nat (m - ?u))" unfolding m by (simp add: pos_divide_le_eq)
    then have "half_even (q / f64_ulp q) \<le> 2 ^ nat (m - ?u)" using half_even_mono half_even_of_int by metis
    then show "round_magnitude q \<le> 2 powi m" unfolding m round_magnitude_def
      by (intro mult_right_mono) (simp_all add: less_imp_le)
  }
  {
    assume "2 powi m \<le> q"
    then have "of_int (2 ^ nat (m - ?u)) \<le> q / f64_ulp q" unfolding m by (simp add: pos_le_divide_eq)
    then have "2 ^ nat (m - ?u) \<le> half_even (q / f64_ulp q)" using half_even_mono half_even_of_int by metis
    then show "2 powi m \<le> round_magnitude q" unfolding m round_magnitude_def
      by (intro mult_right_mono) (simp_all add: less_imp_le)
  }
qed

lemma round_magnitude_mono: assumes "0 < p" "p \<le> q" shows "round_magnitude p \<le> round_magnitude q"
proof (cases "max (rat_exponent p - 52) (-1074) = max (rat_exponent q - 52) (-1074)")
  case True
  then have u: "f64_ulp p = f64_ulp q" by (simp add: f64_ulp_def)
  show ?thesis using assms unfolding round_magnitude_def u
    by (intro mult_right_mono) (simp_all add: half_even_mono divide_right_mono less_imp_le)
next
  case False
  then have e: "rat_exponent p < rat_exponent q" "-1074 < rat_exponent q - 52"
    using rat_exponent_mono[OF assms] by auto
  have "p \<le> 2 powi (rat_exponent q)"
    using rat_exponent_bounds(2)[OF assms(1)] powi_mono[of "rat_exponent p + 1" "rat_exponent q"] e by linarith
  then have "round_magnitude p \<le> 2 powi (rat_exponent q)" using e by (intro round_magnitude_power(1)) auto
  also have "\<dots> \<le> round_magnitude q"
    using e assms rat_exponent_bounds(1)[of q] by (intro round_magnitude_power(2)) auto
  finally show ?thesis .
qed

lemma round_magnitude_nonneg: "0 \<le> q \<Longrightarrow> 0 \<le> round_magnitude q"
  unfolding round_magnitude_def using half_even_mono[of 0 "q / f64_ulp q"] half_even_of_int[of 0]
  by (intro mult_nonneg_nonneg) (simp_all add: less_imp_le)

lemma round_f64_mono:
  assumes "0 \<le> p" "p \<le> q"
  shows "f64_le (round_f64 p) (round_f64 q)"
  using assms round_magnitude_mono[of p q] round_magnitude_nonneg[of q]
  by (cases "p = 0") (auto simp: round_f64_def Let_def)

lemma round_f64_nonneg: "0 \<le> q \<Longrightarrow> f64_le (Fin 0) (round_f64 q)"
  using round_f64_mono[of 0 q] by (simp add: round_f64_def)

lemma round_f64_not_NaN [simp]: "round_f64 q \<noteq> NaN"
  by (simp add: round_f64_def Let_def)

section \<open>Rounding is exact on binary64 values\<close>

lemma round_magnitude_exact:
  assumes "0 < q" and "q = of_int n * f64_ulp q"
  shows "round_magnitude q = q"
proof -
  have "f64_ulp q \<noteq> 0" using f64_ulp_pos[of q] by linarith
  then have "q / f64_ulp q = of_int n" using assms(2) nonzero_divide_eq_eq by blast
  then show ?thesis using assms(2) by (simp add: round_magnitude_def)
qed

lemma rat_exponent_less: assumes "0 < q" "q < 2 powi m" shows "rat_exponent q < m"
proof (rule ccontr)
  assume "\<not> rat_exponent q < m"
  then have "(2 :: rat) powi m \<le> 2 powi (rat_exponent q)" by (intro powi_mono) auto
  then show False using rat_exponent_bounds(1)[OF assms(1)] assms(2) by linarith
qed

lemma powi_multiple: "m \<le> k \<Longrightarrow> \<exists>n. (2 :: rat) powi k = of_int n * 2 powi m"
proof -
  assume "m \<le> k"
  then have "(2 :: rat) powi (k - m) = of_int (2 ^ nat (k - m))" by (simp add: power_int_def)
  moreover have "(2 :: rat) powi k = 2 powi (k - m) * 2 powi m" by (simp flip: power_int_add)
  ultimately show ?thesis by metis
qed

lemma round_magnitude_idem:
  assumes "0 < q" and "0 < round_magnitude q"
  shows "round_magnitude (round_magnitude q) = round_magnitude q"
proof -
  let ?r = "round_magnitude q" and ?e = "rat_exponent q" and ?m = "max (rat_exponent q + 1) (-1074)"
  obtain n where n: "?r = of_int n * f64_ulp q" unfolding round_magnitude_def by blast
  have "q \<le> 2 powi ?m"
    using rat_exponent_bounds(2)[OF assms(1)] powi_mono[of "?e + 1" ?m] by (simp add: less_imp_le order_less_le_trans)
  then have "?r \<le> 2 powi ?m" by (intro round_magnitude_power(1)) auto
  then consider "?r = 2 powi ?m" | "?r < 2 powi ?m" by linarith
  then show ?thesis
  proof cases
    case 1
    then have "rat_exponent ?r \<le> ?m"
      using rat_exponent_less[OF assms(2), of "?m + 1"] powi_mono[of ?m "?m + 1"] by (simp add: power_int_strict_increasing)
    then obtain k where "?r = of_int k * f64_ulp ?r"
      using powi_multiple[of "max (rat_exponent ?r - 52) (-1074)" ?m] 1 by (auto simp: f64_ulp_def)
    then show ?thesis using round_magnitude_exact[OF assms(2)] by blast
  next
    case 2
    then have e: "rat_exponent ?r < ?m" using rat_exponent_less assms(2) by blast
    have "rat_exponent ?r \<le> ?e"
    proof (rule ccontr)
      assume "\<not> rat_exponent ?r \<le> ?e"
      then have "?m = -1074" "?e - 52 < -1074" using e by auto
      then have "0 < n" "?r = of_int n * 2 powi (-1074)" using n assms(2) by (simp_all add: f64_ulp_def zero_less_mult_iff)
      then have "2 powi (-1074) \<le> ?r" by (simp add: mult_le_cancel_right1)
      then show False using 2 \<open>?m = -1074\<close> by simp
    qed
    then have "max (rat_exponent ?r - 52) (-1074) \<le> max (?e - 52) (-1074)" by linarith
    from powi_multiple[OF this] obtain k where "f64_ulp q = of_int k * f64_ulp ?r"
      unfolding f64_ulp_def by blast
    then have "?r = of_int (n * k) * f64_ulp ?r" using n by simp
    then show ?thesis using round_magnitude_exact[OF assms(2)] by blast
  qed
qed

text \<open>A rational is a binary64 value when rounding keeps it.\<close>

definition is_f64 :: "rat \<Rightarrow> bool" where
  "is_f64 q \<longleftrightarrow> round_f64 q = Fin q"

lemma is_f64_0 [simp]: "is_f64 0"
  by (simp add: is_f64_def round_f64_def)

lemma round_f64_is_f64: assumes "0 \<le> p" and "round_f64 p = Fin q" shows "is_f64 q"
proof (cases "p = 0 \<or> q = 0")
  case False
  then have q: "q = round_magnitude p" "round_magnitude p < 2 ^ 1024" "0 < p" "0 < q"
    using assms round_magnitude_nonneg[of p] by (auto simp: round_f64_def Let_def split: if_splits)
  then show ?thesis using round_magnitude_idem[of p] by (simp add: is_f64_def round_f64_def)
qed (use assms in \<open>auto simp: round_f64_def\<close>)

lemma round_f64_ge: "is_f64 q \<Longrightarrow> 0 \<le> q \<Longrightarrow> q \<le> p \<Longrightarrow> f64_le (Fin q) (round_f64 p)"
  using round_f64_mono[of q p] by (simp add: is_f64_def)

lemma round_f64_le: "is_f64 q \<Longrightarrow> 0 \<le> p \<Longrightarrow> p \<le> q \<Longrightarrow> f64_le (round_f64 p) (Fin q)"
  using round_f64_mono[of p q] by (simp add: is_f64_def)

section \<open>Order\<close>

lemma f64_le_refl [simp]: "f64_le x x \<longleftrightarrow> x \<noteq> NaN"
  by (cases x) auto

lemma f64_le_PInf [simp]: "f64_le x PInf \<longleftrightarrow> x \<noteq> NaN"
  by (cases x) auto

lemma f64_le_trans: "f64_le x y \<Longrightarrow> f64_le y z \<Longrightarrow> f64_le x z"
  by (cases x; cases y; cases z) auto

lemma f64_le_total: "x \<noteq> NaN \<Longrightarrow> y \<noteq> NaN \<Longrightarrow> f64_le x y \<or> f64_le y x"
  by (cases x; cases y) auto

end
