(* ===== verification/ClientMath.thy ===== *)
theory ClientMath
  imports F64 "HOL-Library.Multiset" "HOL-Library.Word" "HOL-Library.Signed_Division"
begin

text \<open>
  The functions of \<open>client/src/math.rs\<close>: reliability scores, ratios of voting weight and quorum over
  \<open>f64\<close>, the most common hash, the shared moment of validity windows and the retry backoff.
\<close>

section \<open>Definitions\<close>

definition reliability_after_success :: "f64 \<Rightarrow> f64 \<Rightarrow> f64" where
  "reliability_after_success current increment = f64_min (f64_add current increment) (Fin 1)"

definition reliability_after_failure :: "f64 \<Rightarrow> f64 \<Rightarrow> f64 \<Rightarrow> f64" where
  "reliability_after_failure current decay floor_score = f64_max (f64_mul current decay) floor_score"

definition bigint_to_f64 :: "int \<Rightarrow> f64" where
  "bigint_to_f64 n = round_f64 (of_int n)"

text \<open>Division of big integers truncates towards zero.\<close>

definition bigint_ratio :: "int \<Rightarrow> int \<Rightarrow> f64" where
  "bigint_ratio numerator denominator =
     (if denominator = 0 then Fin 0
      else f64_div (bigint_to_f64 ((numerator * 1000000000) sdiv denominator)) (Fin 1000000000))"

definition meets_quorum :: "int \<Rightarrow> int \<Rightarrow> f64 \<Rightarrow> bool" where
  "meets_quorum accumulated tot threshold = f64_le threshold (bigint_ratio accumulated tot)"

definition weight_fraction :: "int \<Rightarrow> int \<Rightarrow> nat \<Rightarrow> f64" where
  "weight_fraction weight tot n =
     (if tot = 0 then if n = 0 then Fin 0 else f64_div (Fin 1) (round_f64 (of_nat n))
      else bigint_ratio weight tot)"

definition selection_score :: "f64 \<Rightarrow> f64 \<Rightarrow> f64" where
  "selection_score fraction reliability = f64_mul fraction reliability"

text \<open>A \<open>BTreeMap\<close> is its list of entries in key order.\<close>

fun bump_count :: "('a :: linorder \<times> nat) list \<Rightarrow> 'a \<Rightarrow> ('a \<times> nat) list" where
  "bump_count [] h = [(h, 1)]"
| "bump_count ((k, n) # rest) h =
     (if h < k then (h, 1) # (k, n) # rest
      else if h = k then (k, n + 1) # rest
      else (k, n) # bump_count rest h)"

definition counted_above :: "'a :: linorder \<times> nat \<Rightarrow> 'a \<times> nat \<Rightarrow> bool" where
  "counted_above l r \<longleftrightarrow> snd l > snd r \<or> snd l = snd r \<and> fst l < fst r"

definition most_common_hash :: "'a :: linorder list \<Rightarrow> 'a option" where
  "most_common_hash hashes =
     (case fold (\<lambda>h counts. bump_count counts h) hashes [] of
        [] \<Rightarrow> None
      | x # xs \<Rightarrow> Some (fst (fold (\<lambda>y best. if counted_above best y then best else y) xs x)))"

definition overlap_step :: "int option \<times> int option \<Rightarrow> int \<times> int \<Rightarrow> int option \<times> int option" where
  "overlap_step acc w =
     (Some (case fst acc of None \<Rightarrow> fst w | Some seen \<Rightarrow> max seen (fst w)),
      Some (case snd acc of None \<Rightarrow> snd w | Some seen \<Rightarrow> min seen (snd w)))"

definition overlapping_moment :: "(int \<times> int) list \<Rightarrow> int option" where
  "overlapping_moment windows =
     (case fold (\<lambda>w acc. overlap_step acc w) windows (None, None) of
        (Some latest_from, Some earliest_to) \<Rightarrow> if latest_from \<le> earliest_to then Some latest_from else None
      | _ \<Rightarrow> None)"

definition next_backoff :: "64 word \<Rightarrow> 64 word \<Rightarrow> 64 word" where
  "next_backoff delay limit = min (if unat delay * 2 < 2 ^ 64 then delay * 2 else - 1) limit"

section \<open>Lemmas\<close>

lemma bump_count_keys: "fst ` set (bump_count cs h) = insert h (fst ` set cs)"
  by (induction cs h rule: bump_count.induct) auto

lemma bump_count_sorted:
  "sorted_wrt (\<lambda>x y. fst x < fst y) cs \<Longrightarrow> sorted_wrt (\<lambda>x y. fst x < fst y) (bump_count cs h)"
proof (induction cs h rule: bump_count.induct)
  case (2 k n rest h)
  have "\<forall>x \<in> set (bump_count rest h). k < fst x" if "k < h"
  proof
    fix x assume "x \<in> set (bump_count rest h)"
    then have "fst x \<in> insert h (fst ` set rest)" unfolding bump_count_keys[symmetric] by (rule imageI)
    then show "k < fst x" using that 2(2) by auto
  qed
  then show ?case using 2 by auto
qed simp

lemma bump_count_counts:
  assumes "sorted_wrt (\<lambda>x y. fst x < fst y) cs" and "\<And>k n. (k, n) \<in> set cs \<Longrightarrow> n = c k"
    and "h \<notin> fst ` set cs \<Longrightarrow> c h = 0" and "(k, n) \<in> set (bump_count cs h)"
  shows "n = (if k = h then c h + 1 else c k)"
  using assms
proof (induction cs h rule: bump_count.induct)
  case (2 k' n' rest h)
  show ?case
  proof (cases "h < k'")
    case True
    then have "h \<notin> fst ` set ((k', n') # rest)" using 2(2) by fastforce
    then show ?thesis using 2(3-5) True by (auto simp: image_iff)
  next
    case False
    then show ?thesis
    proof (cases "h = k'")
      case True
      then have "h \<notin> fst ` set rest" using 2(2) by fastforce
      then show ?thesis using 2(3-5) True by (auto simp: image_iff)
    next
      case neq: False
      have "k = k' \<and> n = n' \<or> (k, n) \<in> set (bump_count rest h)" using 2(5) False neq by auto
      then show ?thesis using 2(1)[OF False neq] 2(2-4) neq by (auto simp: image_iff)
    qed
  qed
qed auto

definition counted :: "('a :: linorder \<times> nat) list \<Rightarrow> 'a list \<Rightarrow> bool" where
  "counted cs hs \<longleftrightarrow> sorted_wrt (\<lambda>x y. fst x < fst y) cs \<and> fst ` set cs = set hs \<and>
     (\<forall>k n. (k, n) \<in> set cs \<longrightarrow> n = count_list hs k)"

lemma counted_step: "counted cs hs \<Longrightarrow> counted (bump_count cs h) (h # hs)"
proof -
  assume c: "counted cs hs"
  have "n = count_list (h # hs) k" if "(k, n) \<in> set (bump_count cs h)" for k n
    using bump_count_counts[of cs "count_list hs" h k n] c that by (auto simp: counted_def count_list_0_iff)
  then show ?thesis using c bump_count_sorted[of cs h] bump_count_keys[of cs h] by (simp add: counted_def)
qed

lemma counted_fold: "counted cs ks \<Longrightarrow> counted (fold (\<lambda>h counts. bump_count counts h) hs cs) (rev hs @ ks)"
  by (induction hs arbitrary: cs ks) (auto dest: counted_step)

lemma counted_all: "counted (fold (\<lambda>h counts. bump_count counts h) hs []) hs"
proof -
  have "counted (fold (\<lambda>h counts. bump_count counts h) hs []) (rev hs)"
    using counted_fold[of "[]" "[]" hs] by (simp add: counted_def)
  then show ?thesis by (simp add: counted_def count_list_rev)
qed

lemma counted_above_trans: "counted_above x y \<Longrightarrow> counted_above y z \<Longrightarrow> counted_above x z"
  by (cases x; cases y; cases z) (auto simp: counted_above_def)

lemma counted_above_total: "counted_above x y \<or> counted_above y x \<or> x = y"
  by (cases x; cases y) (auto simp: counted_above_def neq_iff)

lemma best_fold:
  assumes "b = fold (\<lambda>y best. if counted_above best y then best else y) xs x"
  shows "b \<in> set (x # xs) \<and> (\<forall>y \<in> set (x # xs). y = b \<or> counted_above b y)"
  using assms
proof (induction xs arbitrary: x)
  case (Cons y xs)
  let ?x = "if counted_above x y then x else y"
  have "b \<in> set (?x # xs) \<and> (\<forall>z \<in> set (?x # xs). z = b \<or> counted_above b z)"
    using Cons.IH[of ?x] Cons.prems by simp
  then have ih: "b = ?x \<or> b \<in> set xs" "?x = b \<or> counted_above b ?x" "\<forall>z \<in> set xs. z = b \<or> counted_above b z"
    by auto
  have "x = ?x \<or> counted_above ?x x" "y = ?x \<or> counted_above ?x y"
    using counted_above_total[of x y] by auto
  then have "x = b \<or> counted_above b x" "y = b \<or> counted_above b y"
    using ih(2) counted_above_trans[of b ?x] by metis+
  then show ?case using ih(1,3) by (auto split: if_splits)
qed simp

lemma most_common_hash_sound:
  assumes "most_common_hash hs = Some h"
  shows "h \<in> set hs \<and> (\<forall>k \<in> set hs. count_list hs k < count_list hs h \<or> count_list hs k = count_list hs h \<and> h \<le> k)"
proof -
  let ?cs = "fold (\<lambda>h counts. bump_count counts h) hs []"
  obtain x xs where cs: "?cs = x # xs"
    and h: "h = fst (fold (\<lambda>y best. if counted_above best y then best else y) xs x)"
    using assms by (auto simp: most_common_hash_def split: list.splits)
  define b where "b = fold (\<lambda>y best. if counted_above best y then best else y) xs x"
  have b: "b \<in> set ?cs" "\<And>y. y \<in> set ?cs \<Longrightarrow> y = b \<or> counted_above b y"
    using best_fold[OF b_def] unfolding cs by blast+
  have keys: "fst ` set ?cs = set hs" and n: "\<And>k n. (k, n) \<in> set ?cs \<Longrightarrow> n = count_list hs k"
    using counted_all[of hs] by (auto simp: counted_def)
  have hb: "h = fst b" "snd b = count_list hs h" using b(1) n[of "fst b" "snd b"] h b_def by auto
  have "count_list hs k < count_list hs h \<or> count_list hs k = count_list hs h \<and> h \<le> k" if "k \<in> set hs" for k
  proof -
    have "k \<in> fst ` set ?cs" using that keys by (simp only:)
    then obtain m where m: "(k, m) \<in> set ?cs" by auto
    then show ?thesis using b(2)[OF m] n[OF m] hb by (auto simp: counted_above_def)
  qed
  moreover have "h \<in> set hs" using b(1) keys hb(1) by (metis image_eqI)
  ultimately show ?thesis by blast
qed

lemma most_common_hash_None [simp]: "most_common_hash hs = None \<longleftrightarrow> hs = []"
proof -
  have "fold (\<lambda>h counts. bump_count counts h) hs [] = [] \<longleftrightarrow> hs = []"
  proof
    assume e: "fold (\<lambda>h counts. bump_count counts h) hs [] = []"
    show "hs = []" using counted_all[of hs] unfolding e by (simp add: counted_def)
  qed simp
  then show ?thesis by (cases "fold (\<lambda>h counts. bump_count counts h) hs []") (auto simp: most_common_hash_def)
qed

lemma overlap_fold:
  "fold (\<lambda>w acc. overlap_step acc w) ws (Some f, Some t) =
     (Some (fold max (map fst ws) f), Some (fold min (map snd ws) t))"
proof (induction ws arbitrary: f t)
  case (Cons w ws)
  then show ?case by (simp add: overlap_step_def[of _ w] max.commute[of f] min.commute[of t])
qed simp

lemma overlapping_moment_Cons:
  "overlapping_moment ((f, t) # ws) =
     (let m = fold max (map fst ws) f in if m \<le> fold min (map snd ws) t then Some m else None)"
  by (simp add: overlapping_moment_def overlap_step_def[of _ "(f, t)"] overlap_fold Let_def)

lemma fold_max_props:
  fixes x :: int
  shows "x \<le> fold max xs x" "y \<in> set xs \<Longrightarrow> y \<le> fold max xs x" "fold max xs x \<in> insert x (set xs)"
proof -
  have "fold max xs x = Max (insert x (set xs))" using Max.set_eq_fold[of x xs] by simp
  then show "x \<le> fold max xs x" "y \<in> set xs \<Longrightarrow> y \<le> fold max xs x" "fold max xs x \<in> insert x (set xs)"
    using Max_in[of "insert x (set xs)"] by simp_all
qed

lemma fold_min_iff:
  fixes x :: int
  shows "m \<le> fold min xs x \<longleftrightarrow> m \<le> x \<and> (\<forall>y \<in> set xs. m \<le> y)"
proof -
  have "fold min xs x = Min (insert x (set xs))" using Min.set_eq_fold[of x xs] by simp
  then show ?thesis by auto
qed

lemma overlapping_moment_iff:
  "overlapping_moment ws = Some m \<longleftrightarrow> (\<forall>(f, t) \<in> set ws. f \<le> m \<and> m \<le> t) \<and> m \<in> fst ` set ws"
proof (cases ws)
  case (Cons w rest)
  obtain f t where w: "w = (f, t)" by force
  define M where "M = fold max (map fst rest) f"
  have M: "f \<le> M" "\<And>p. p \<in> set rest \<Longrightarrow> fst p \<le> M" "M \<in> insert f (fst ` set rest)"
    unfolding M_def using fold_max_props[where x = f and xs = "map fst rest"] by auto
  have lhs: "overlapping_moment ws = Some m \<longleftrightarrow> m = M \<and> M \<le> t \<and> (\<forall>p \<in> set rest. M \<le> snd p)"
    by (auto simp: Cons w overlapping_moment_Cons Let_def M_def[symmetric] fold_min_iff)
  show ?thesis
  proof
    assume "overlapping_moment ws = Some m"
    then show "(\<forall>(f, t) \<in> set ws. f \<le> m \<and> m \<le> t) \<and> m \<in> fst ` set ws"
      using lhs M by (auto simp: Cons w)
  next
    assume r: "(\<forall>(f, t) \<in> set ws. f \<le> m \<and> m \<le> t) \<and> m \<in> fst ` set ws"
    then have "M \<le> m" using M(3) by (auto simp: Cons w)
    moreover have "m \<le> M" using r M(1,2) by (auto simp: Cons w)
    ultimately show "overlapping_moment ws = Some m" using r lhs by (auto simp: Cons w)
  qed
qed (simp add: overlapping_moment_def)

lemma overlapping_moment_None:
  "overlapping_moment ws = None \<longleftrightarrow> ws = [] \<or> \<not> (\<exists>m. \<forall>(f, t) \<in> set ws. f \<le> m \<and> m \<le> t)"
proof (cases ws)
  case (Cons w rest)
  obtain f t where w: "w = (f, t)" by force
  define M where "M = fold max (map fst rest) f"
  have M: "f \<le> M" "\<And>p. p \<in> set rest \<Longrightarrow> fst p \<le> M" "M \<in> insert f (fst ` set rest)"
    unfolding M_def using fold_max_props[where x = f and xs = "map fst rest"] by auto
  have "overlapping_moment ws = None \<longleftrightarrow> \<not> (M \<le> t \<and> (\<forall>p \<in> set rest. M \<le> snd p))"
    by (auto simp: Cons w overlapping_moment_Cons Let_def M_def[symmetric] fold_min_iff)
  moreover have "(\<exists>m. \<forall>(f, t) \<in> set ws. f \<le> m \<and> m \<le> t) \<longleftrightarrow> M \<le> t \<and> (\<forall>p \<in> set rest. M \<le> snd p)"
  proof
    assume "\<exists>m. \<forall>(f, t) \<in> set ws. f \<le> m \<and> m \<le> t"
    then obtain m where m: "\<forall>(f, t) \<in> set ws. f \<le> m \<and> m \<le> t" by blast
    then have "M \<le> m" using M(3) by (auto simp: Cons w)
    then show "M \<le> t \<and> (\<forall>p \<in> set rest. M \<le> snd p)" using m by (fastforce simp: Cons w)
  next
    assume "M \<le> t \<and> (\<forall>p \<in> set rest. M \<le> snd p)"
    then show "\<exists>m. \<forall>(f, t) \<in> set ws. f \<le> m \<and> m \<le> t"
      using M(1,2) by (intro exI[of _ M]) (auto simp: Cons w)
  qed
  ultimately show ?thesis by (simp add: Cons)
qed (simp add: overlapping_moment_def)

lemma next_backoff_exact: "unat (next_backoff delay limit) = min (2 * unat delay) (unat limit)"
proof (cases "unat delay * 2 < 2 ^ 64")
  case True
  then have "unat (delay * 2) = 2 * unat delay" by (simp add: unat_word_ariths)
  then show ?thesis using True by (simp add: next_backoff_def min_def word_le_nat_alt)
next
  case False
  have "limit \<le> - 1" "unat limit < 2 ^ 64" using unsigned_less[of limit] by simp_all
  then show ?thesis using False by (simp add: next_backoff_def min_def word_le_nat_alt)
qed

section \<open>Scores and quorum\<close>

lemma round_f64_1 [simp]: "round_f64 1 = Fin 1"
  by code_simp

lemma is_f64_1 [simp]: "is_f64 1"
  by (simp add: is_f64_def)

lemma round_f64_unit:
  assumes "0 \<le> q" "q \<le> 1"
  shows "\<exists>r. round_f64 q = Fin r \<and> 0 \<le> r \<and> r \<le> 1"
  using round_f64_mono[OF assms] round_f64_nonneg[OF assms(1)] by (cases "round_f64 q") auto

lemma reliability_after_success_bounds:
  assumes "is_f64 s" "0 \<le> s" "s \<le> 1" "0 \<le> i"
  shows "\<exists>r. reliability_after_success (Fin s) (Fin i) = Fin r \<and> is_f64 r \<and> s \<le> r \<and> r \<le> 1"
proof -
  have "f64_le (Fin s) (round_f64 (s + i))" using assms by (intro round_f64_ge) auto
  then show ?thesis using assms round_f64_is_f64[of "s + i"]
    by (cases "round_f64 (s + i)") (auto simp: reliability_after_success_def f64_min_def)
qed

lemma reliability_after_failure_bounds:
  assumes "is_f64 s" "0 \<le> s" "s \<le> 1" "0 \<le> d" "d \<le> 1" "is_f64 f" "0 \<le> f" "f \<le> s"
  shows "\<exists>r. reliability_after_failure (Fin s) (Fin d) (Fin f) = Fin r \<and> is_f64 r \<and> f \<le> r \<and> r \<le> s"
proof -
  have "f64_le (round_f64 (s * d)) (Fin s)" using assms by (intro round_f64_le) (auto simp: mult_left_le)
  moreover have "f64_le (Fin 0) (round_f64 (s * d))" using assms by (intro round_f64_nonneg) auto
  ultimately show ?thesis using assms round_f64_is_f64[of "s * d"]
    by (cases "round_f64 (s * d)") (auto simp: reliability_after_failure_def f64_max_def)
qed

lemma sdiv_nonneg: "0 \<le> (a :: int) \<Longrightarrow> 0 < b \<Longrightarrow> a sdiv b = a div b"
  by (simp add: signed_divide_int_def sgn_if)

lemma bigint_ratio_mono:
  assumes "0 \<le> a" "a \<le> b" "0 < t"
  shows "f64_le (bigint_ratio a t) (bigint_ratio b t)"
proof -
  let ?x = "a * 1000000000 div t" and ?y = "b * 1000000000 div t"
  have "0 \<le> ?x" "?x \<le> ?y" using assms by (simp_all add: zdiv_mono1 pos_imp_zdiv_nonneg_iff)
  then have "f64_le (bigint_to_f64 ?x) (bigint_to_f64 ?y)" "f64_le (Fin 0) (bigint_to_f64 ?x)"
    unfolding bigint_to_f64_def by (auto intro: round_f64_mono round_f64_nonneg)
  then have "f64_le (f64_div (bigint_to_f64 ?x) (Fin 1000000000)) (f64_div (bigint_to_f64 ?y) (Fin 1000000000))"
    by (cases "bigint_to_f64 ?x"; cases "bigint_to_f64 ?y") (auto intro!: round_f64_mono divide_right_mono split: f64.splits)
  then show ?thesis using assms by (simp add: bigint_ratio_def sdiv_nonneg)
qed

lemma bigint_ratio_self: "0 < t \<Longrightarrow> bigint_ratio t t = Fin 1"
proof -
  assume "0 < t"
  moreover have "bigint_to_f64 1000000000 = Fin 1000000000" by code_simp
  ultimately show ?thesis by (simp add: bigint_ratio_def sdiv_nonneg)
qed

lemma bigint_ratio_zero: "bigint_ratio 0 t = Fin 0"
  by (simp add: bigint_ratio_def bigint_to_f64_def round_f64_def signed_divide_int_def)

lemma bigint_ratio_unit:
  assumes "0 \<le> a" "a \<le> t" "0 < t"
  shows "\<exists>r. bigint_ratio a t = Fin r \<and> 0 \<le> r \<and> r \<le> 1"
  using bigint_ratio_mono[of a t t] bigint_ratio_mono[of 0 a t] assms
  by (cases "bigint_ratio a t") (auto simp: bigint_ratio_self bigint_ratio_zero)

end
