(* ===== verification/TxBuilder.thy ===== *)
theory TxBuilder
  imports VoteBuilder NodeError ClientMath "HOL-Library.Char_ord" "HOL-Library.Product_Lexorder"
begin

text \<open>
  The client's transaction builder (\<open>client/src/builder.rs\<close>), the set-once handles of identifiers
  that do not exist yet (\<open>client/src/model.rs\<close>) and the sealing of a block over the client's network
  context (\<open>client/src/client.rs\<close>).  A handle is an index into a store of set-once cells, which every
  operation that fills a cell threads through, on success and on failure.  The head lookup of the
  client and its clock are arguments of \<open>tx_build\<close>, over the state \<open>'s\<close> that the lookups thread.
\<close>

section \<open>Pending accounts\<close>

type_synonym pending_cells = "generic_account option list"

definition pending_default :: "pending_cells \<Rightarrow> pending_cells \<times> nat" where
  "pending_default cells = (cells @ [None], length cells)"

definition pending_get :: "pending_cells \<Rightarrow> nat \<Rightarrow> client_error + generic_account" where
  "pending_get cells h = ok_or CUnresolvedIdentifier (if h < length cells then cells ! h else None)"

definition pending_fill :: "pending_cells \<Rightarrow> nat \<Rightarrow> generic_account \<Rightarrow> pending_cells" where
  "pending_fill cells h a = (if h < length cells \<and> cells ! h = None then cells[h := Some a] else cells)"

datatype account_or_pending = Resolved generic_account | Pending nat

fun resolve :: "pending_cells \<Rightarrow> account_or_pending \<Rightarrow> client_error + generic_account" where
  "resolve cells (Resolved a) = Ok a"
| "resolve cells (Pending h) = pending_get cells h"

section \<open>Accumulating operations\<close>

datatype pending_op =
    PSend account_or_pending account_or_pending int "rust_string option"
  | PReceive account_or_pending account_or_pending int bool "account_or_pending option"
  | PCreateIdentifier keypair_type "identifier_create_arguments option" nat
  | PSetRep generic_account
  | PSetInfo set_info
  | PModifyPermissions modify_permissions
  | PModifyTokenSupply int adjust_method
  | PModifyTokenBalance account_or_pending int adjust_method
  | PManageCertificate manage_certificate
  | PRaw operation

record op_group =
  grp_account :: generic_account
  grp_signer :: generic_account
  grp_ops :: "pending_op list"

definition group_new :: "generic_account \<Rightarrow> generic_account \<Rightarrow> op_group" where
  "group_new account signer = \<lparr>grp_account = account, grp_signer = signer, grp_ops = []\<rparr>"

record tx_builder =
  tx_primary :: generic_account
  tx_groups :: "op_group list"
  tx_current :: op_group
  tx_initial_previous :: "bytes option"
  tx_purpose :: "block_purpose option"
  tx_date :: "int option"

definition tx_new :: "generic_account \<Rightarrow> tx_builder" where
  "tx_new account =
     \<lparr>tx_primary = account, tx_groups = [], tx_current = group_new account account,
      tx_initial_previous = None, tx_purpose = None, tx_date = None\<rparr>"

definition tx_switch :: "generic_account \<Rightarrow> generic_account \<Rightarrow> tx_builder \<Rightarrow> tx_builder" where
  "tx_switch account signer t =
     t\<lparr>tx_groups := tx_groups t @ (if grp_ops (tx_current t) = [] then [] else [tx_current t]),
       tx_current := group_new account signer\<rparr>"

definition for_account :: "generic_account \<Rightarrow> tx_builder \<Rightarrow> tx_builder" where
  "for_account account t = tx_switch account account t"

definition for_account_with_signer :: "generic_account \<Rightarrow> generic_account \<Rightarrow> tx_builder \<Rightarrow> tx_builder" where
  "for_account_with_signer account signer t = tx_switch account signer t"

definition tx_push :: "pending_op \<Rightarrow> tx_builder \<Rightarrow> tx_builder" where
  "tx_push op t = t\<lparr>tx_current := (tx_current t)\<lparr>grp_ops := grp_ops (tx_current t) @ [op]\<rparr>\<rparr>"

definition tx_send :: "account_or_pending \<Rightarrow> account_or_pending \<Rightarrow> int \<Rightarrow> tx_builder \<Rightarrow> tx_builder" where
  "tx_send to_acc token amount t = tx_push (PSend to_acc token amount None) t"

definition tx_send_external ::
    "account_or_pending \<Rightarrow> account_or_pending \<Rightarrow> int \<Rightarrow> rust_string \<Rightarrow> tx_builder \<Rightarrow> tx_builder" where
  "tx_send_external to_acc token amount external t = tx_push (PSend to_acc token amount (Some external)) t"

definition tx_receive :: "account_or_pending \<Rightarrow> account_or_pending \<Rightarrow> int \<Rightarrow> tx_builder \<Rightarrow> tx_builder" where
  "tx_receive from_acc token amount t = tx_push (PReceive from_acc token amount False None) t"

definition tx_receive_with ::
    "account_or_pending \<Rightarrow> account_or_pending \<Rightarrow> int \<Rightarrow> bool \<Rightarrow> account_or_pending option \<Rightarrow> tx_builder \<Rightarrow> tx_builder" where
  "tx_receive_with from_acc token amount exact forward t = tx_push (PReceive from_acc token amount exact forward) t"

definition tx_set_rep :: "generic_account \<Rightarrow> tx_builder \<Rightarrow> tx_builder" where
  "tx_set_rep to_acc t = tx_push (PSetRep to_acc) t"

definition merge_info :: "set_info \<Rightarrow> set_info \<Rightarrow> set_info" where
  "merge_info info existing =
     \<lparr>info_name = (if info_name info \<noteq> [] then info_name info else info_name existing),
      info_description = (if info_description info \<noteq> [] then info_description info else info_description existing),
      info_metadata = (if info_metadata info \<noteq> [] then info_metadata info else info_metadata existing),
      info_default_permission = (case info_default_permission info of
          Some p \<Rightarrow> Some p | None \<Rightarrow> info_default_permission existing)\<rparr>"

fun merge_first_info :: "set_info \<Rightarrow> pending_op list \<Rightarrow> pending_op list option" where
  "merge_first_info info [] = None"
| "merge_first_info info (PSetInfo existing # ops) = Some (PSetInfo (merge_info info existing) # ops)"
| "merge_first_info info (op # ops) = map_option (\<lambda>ops. op # ops) (merge_first_info info ops)"

definition tx_set_info :: "set_info \<Rightarrow> tx_builder \<Rightarrow> tx_builder" where
  "tx_set_info info t =
     (case merge_first_info info (grp_ops (tx_current t)) of
        Some ops \<Rightarrow> t\<lparr>tx_current := (tx_current t)\<lparr>grp_ops := ops\<rparr>\<rparr>
      | None \<Rightarrow> tx_push (PSetInfo info) t)"

definition tx_modify_permissions :: "modify_permissions \<Rightarrow> tx_builder \<Rightarrow> tx_builder" where
  "tx_modify_permissions permissions t = tx_push (PModifyPermissions permissions) t"

definition tx_generate_identifier ::
    "keypair_type \<Rightarrow> identifier_create_arguments option \<Rightarrow> pending_cells \<Rightarrow> tx_builder \<Rightarrow>
      pending_cells \<times> tx_builder \<times> nat" where
  "tx_generate_identifier key_type create_arguments cells t =
     (let (cells, handle) = pending_default cells
      in (cells, tx_push (PCreateIdentifier key_type create_arguments handle) t, handle))"

definition tx_modify_token_supply :: "int \<Rightarrow> adjust_method \<Rightarrow> tx_builder \<Rightarrow> tx_builder" where
  "tx_modify_token_supply amount adjust t = tx_push (PModifyTokenSupply amount adjust) t"

definition tx_modify_token_balance ::
    "account_or_pending \<Rightarrow> int \<Rightarrow> adjust_method \<Rightarrow> tx_builder \<Rightarrow> tx_builder" where
  "tx_modify_token_balance token amount adjust t = tx_push (PModifyTokenBalance token amount adjust) t"

definition tx_manage_certificate :: "manage_certificate \<Rightarrow> tx_builder \<Rightarrow> tx_builder" where
  "tx_manage_certificate certificate t = tx_push (PManageCertificate certificate) t"

definition tx_with_operation :: "operation \<Rightarrow> tx_builder \<Rightarrow> tx_builder" where
  "tx_with_operation operation t = tx_push (PRaw operation) t"

definition tx_with_previous :: "bytes \<Rightarrow> tx_builder \<Rightarrow> tx_builder" where
  "tx_with_previous previous t = t\<lparr>tx_initial_previous := Some previous\<rparr>"

definition tx_with_purpose :: "block_purpose \<Rightarrow> tx_builder \<Rightarrow> tx_builder" where
  "tx_with_purpose purpose t = t\<lparr>tx_purpose := Some purpose\<rparr>"

definition tx_with_date :: "int \<Rightarrow> tx_builder \<Rightarrow> tx_builder" where
  "tx_with_date date t = t\<lparr>tx_date := Some date\<rparr>"

section \<open>Rendering\<close>

record aggregated_send =
  agg_to :: generic_account
  agg_token :: generic_account
  agg_amount :: int

record render_buckets =
  rb_creates :: "operation list"
  rb_external_sends :: "operation list"
  rb_aggregated_sends :: "((string \<times> string) \<times> aggregated_send) list"
  rb_receives :: "operation list"
  rb_info :: "operation list"
  rb_set_rep :: "operation list"
  rb_supply :: "operation list"
  rb_certificates :: "operation list"
  rb_balance :: "operation list"
  rb_permissions :: "operation list"
  rb_raw :: "operation list"

definition render_buckets_default :: render_buckets where
  "render_buckets_default =
     \<lparr>rb_creates = [], rb_external_sends = [], rb_aggregated_sends = [], rb_receives = [], rb_info = [],
      rb_set_rep = [], rb_supply = [], rb_certificates = [], rb_balance = [], rb_permissions = [], rb_raw = []\<rparr>"

definition push_create ::
    "crypto_lib \<Rightarrow> op_group \<Rightarrow> bytes option \<Rightarrow> keypair_type \<Rightarrow> identifier_create_arguments option \<Rightarrow> nat \<Rightarrow>
      pending_cells \<Rightarrow> render_buckets \<Rightarrow> pending_cells \<times> (client_error + render_buckets)" where
  "push_create L grp derive_previous key_type create_arguments handle cells b =
     (let index = word_of_nat (length (rb_creates b)) in
      case generate_identifier L (grp_account grp) key_type derive_previous index of
        Inl e \<Rightarrow> (cells, Err (CAccount e))
      | Inr derived \<Rightarrow>
          (pending_fill cells handle derived,
           Ok (b\<lparr>rb_creates := rb_creates b @
             [OpCreateIdentifier \<lparr>ci_identifier = derived, ci_arguments = create_arguments\<rparr>]\<rparr>)))"

fun accumulate_send ::
    "'k :: linorder \<Rightarrow> generic_account \<Rightarrow> generic_account \<Rightarrow> int \<Rightarrow>
      ('k \<times> aggregated_send) list \<Rightarrow> ('k \<times> aggregated_send) list" where
  "accumulate_send key to_acc token amount [] =
     [(key, \<lparr>agg_to = to_acc, agg_token = token, agg_amount = 0 + amount\<rparr>)]"
| "accumulate_send key to_acc token amount ((k, s) # rest) =
     (if key < k then (key, \<lparr>agg_to = to_acc, agg_token = token, agg_amount = 0 + amount\<rparr>) # (k, s) # rest
      else if key = k then (k, s\<lparr>agg_amount := agg_amount s + amount\<rparr>) # rest
      else (k, s) # accumulate_send key to_acc token amount rest)"

definition push_send ::
    "crypto_lib \<Rightarrow> pending_cells \<Rightarrow> account_or_pending \<Rightarrow> account_or_pending \<Rightarrow> int \<Rightarrow> rust_string option \<Rightarrow>
      render_buckets \<Rightarrow> client_error + render_buckets" where
  "push_send L cells to_acc token amount external b =
     and_then (resolve cells to_acc) (\<lambda>to_acc.
     and_then (resolve cells token) (\<lambda>token.
       case external of
         Some text_data \<Rightarrow>
           Ok (b\<lparr>rb_external_sends := rb_external_sends b @
             [OpSend \<lparr>send_to = to_acc, send_amount = amount, send_token = token, send_external = Some text_data\<rparr>]\<rparr>)
       | None \<Rightarrow>
           Ok (b\<lparr>rb_aggregated_sends :=
             accumulate_send (account_to_string L to_acc, account_to_string L token) to_acc token amount
               (rb_aggregated_sends b)\<rparr>)))"

definition push_receive ::
    "pending_cells \<Rightarrow> account_or_pending \<Rightarrow> account_or_pending \<Rightarrow> int \<Rightarrow> bool \<Rightarrow> account_or_pending option \<Rightarrow>
      render_buckets \<Rightarrow> client_error + render_buckets" where
  "push_receive cells from_acc token amount exact forward b =
     and_then (resolve cells from_acc) (\<lambda>from_acc.
     and_then (resolve cells token) (\<lambda>token.
     and_then (transpose_opt (resolve cells) forward) (\<lambda>forward.
       Ok (b\<lparr>rb_receives := rb_receives b @
         [OpReceive \<lparr>recv_amount = amount, recv_token = token, recv_from = from_acc, recv_exact = exact,
            recv_forward = forward\<rparr>]\<rparr>))))"

definition into_operations :: "render_buckets \<Rightarrow> operation list" where
  "into_operations b =
     rb_creates b @ rb_external_sends b @
     map (\<lambda>s. OpSend \<lparr>send_to = agg_to s, send_amount = agg_amount s, send_token = agg_token s, send_external = None\<rparr>)
       (filter (\<lambda>s. agg_amount s \<noteq> 0) (map snd (rb_aggregated_sends b))) @
     rb_receives b @ rb_info b @ rb_set_rep b @ rb_supply b @ rb_certificates b @ rb_balance b @
     rb_permissions b @ rb_raw b"

fun render_step ::
    "crypto_lib \<Rightarrow> op_group \<Rightarrow> bytes option \<Rightarrow> pending_cells \<Rightarrow> render_buckets \<Rightarrow> pending_op \<Rightarrow>
      pending_cells \<times> (client_error + render_buckets)" where
  "render_step L grp dp cells b (PCreateIdentifier key_type create_arguments handle) =
     push_create L grp dp key_type create_arguments handle cells b"
| "render_step L grp dp cells b (PSend to_acc token amount external) =
     (cells, if amount \<noteq> 0 then push_send L cells to_acc token amount external b else Ok b)"
| "render_step L grp dp cells b (PReceive from_acc token amount exact forward) =
     (cells, if amount \<noteq> 0 then push_receive cells from_acc token amount exact forward b else Ok b)"
| "render_step L grp dp cells b (PModifyTokenBalance token amount adjust) =
     (cells, and_then (resolve cells token) (\<lambda>token.
        Ok (b\<lparr>rb_balance := rb_balance b @
          [OpTokenAdminModifyBalance \<lparr>tamb_token = token, tamb_amount = amount, tamb_method = adjust\<rparr>]\<rparr>)))"
| "render_step L grp dp cells b (PSetInfo info) = (cells, Ok (b\<lparr>rb_info := rb_info b @ [OpSetInfo info]\<rparr>))"
| "render_step L grp dp cells b (PSetRep to_acc) =
     (cells, Ok (b\<lparr>rb_set_rep := rb_set_rep b @ [OpSetRep \<lparr>set_rep_to = to_acc\<rparr>]\<rparr>))"
| "render_step L grp dp cells b (PModifyTokenSupply amount adjust) =
     (cells, Ok (b\<lparr>rb_supply := rb_supply b @
        [OpTokenAdminSupply \<lparr>tas_amount = amount, tas_method = adjust\<rparr>]\<rparr>))"
| "render_step L grp dp cells b (PManageCertificate certificate) =
     (cells, Ok (b\<lparr>rb_certificates := rb_certificates b @ [OpManageCertificate certificate]\<rparr>))"
| "render_step L grp dp cells b (PModifyPermissions permissions) =
     (cells, Ok (b\<lparr>rb_permissions := rb_permissions b @ [OpModifyPermissions permissions]\<rparr>))"
| "render_step L grp dp cells b (PRaw operation) = (cells, Ok (b\<lparr>rb_raw := rb_raw b @ [operation]\<rparr>))"

fun render_loop ::
    "crypto_lib \<Rightarrow> op_group \<Rightarrow> bytes option \<Rightarrow> pending_cells \<Rightarrow> render_buckets \<Rightarrow> pending_op list \<Rightarrow>
      pending_cells \<times> (client_error + render_buckets)" where
  "render_loop L grp dp cells b [] = (cells, Ok b)"
| "render_loop L grp dp cells b (op # ops) =
     (case render_step L grp dp cells b op of
        (cells, Inl e) \<Rightarrow> (cells, Err e)
      | (cells, Inr b) \<Rightarrow> render_loop L grp dp cells b ops)"

definition derive_previous :: "crypto_lib \<Rightarrow> generic_account \<Rightarrow> bytes option \<Rightarrow> bytes option" where
  "derive_previous L account previous =
     (case previous of
        Some h \<Rightarrow> if h \<noteq> to_opening_hash L account then Some h else None
      | None \<Rightarrow> None)"

definition render_ops ::
    "crypto_lib \<Rightarrow> op_group \<Rightarrow> bytes option \<Rightarrow> pending_cells \<Rightarrow> pending_cells \<times> (client_error + operation list)" where
  "render_ops L grp previous cells =
     (case render_loop L grp (derive_previous L (grp_account grp) previous) cells render_buckets_default
         (grp_ops grp) of
        (cells, Inl e) \<Rightarrow> (cells, Err e)
      | (cells, Inr b) \<Rightarrow> (cells, Ok (into_operations b)))"

section \<open>Sealing and building\<close>

record client_ctx =
  cl_block :: block_lib
  cl_backend :: asn1_backend
  cl_chrono :: chrono_lib
  cl_network :: "int option"
  cl_subnet :: "int option"
  cl_unix_millis :: int

definition now_moment :: "client_ctx \<Rightarrow> int" where
  "now_moment cl = (case block_time_from_unix_millis (cl_chrono cl) (cl_unix_millis cl) of Some t \<Rightarrow> t | None \<Rightarrow> 0)"

definition apply_network :: "client_ctx \<Rightarrow> block_builder \<Rightarrow> block_builder" where
  "apply_network cl b =
     (let b = (case cl_network cl of Some network \<Rightarrow> with_network network b | None \<Rightarrow> b)
      in case cl_subnet cl of Some subnet \<Rightarrow> with_subnet subnet b | None \<Rightarrow> b)"

definition seal_builder ::
    "client_ctx \<Rightarrow> generic_account \<Rightarrow> generic_account \<Rightarrow> bytes option \<Rightarrow> block_purpose option \<Rightarrow> int option \<Rightarrow>
      operation list \<Rightarrow> block_builder" where
  "seal_builder cl account signer previous purpose date operations =
     (let b = with_operations operations (with_account account (apply_network cl block_builder_default));
          b = (if \<not> account_eq signer account then with_signer (Single signer) b else b);
          b = (case purpose of Some p \<Rightarrow> with_purpose p b | None \<Rightarrow> b);
          date = (case date of Some d \<Rightarrow> d | None \<Rightarrow> now_moment cl);
          b = with_date date b
      in case previous of Some h \<Rightarrow> with_previous h b | None \<Rightarrow> as_opening b)"

definition seal_block ::
    "client_ctx \<Rightarrow> generic_account \<Rightarrow> generic_account \<Rightarrow> bytes option \<Rightarrow> block_purpose option \<Rightarrow> int option \<Rightarrow>
      operation list \<Rightarrow> client_error + block" where
  "seal_block cl account signer previous purpose date operations =
     and_then (map_err CBlock (block_builder_build (cl_block cl) (cl_backend cl) (now_moment cl)
         (seal_builder cl account signer previous purpose date operations))) (\<lambda>unsigned.
     map_err CBlock (unsigned_block_sign (cl_block cl) (cl_backend cl) unsigned))"

type_synonym 's head_lookup = "generic_account \<Rightarrow> 's \<Rightarrow> 's \<times> (client_error + block option)"

definition first_previous ::
    "'s head_lookup \<Rightarrow> tx_builder \<Rightarrow> generic_account \<Rightarrow> 's \<Rightarrow> 's \<times> (client_error + bytes option)" where
  "first_previous head_block t account s =
     (case tx_initial_previous t of
        Some previous \<Rightarrow>
          if account_eq account (tx_primary t) then (s, Ok (Some previous))
          else map_prod id (map_sum id (map_option blk_hash)) (head_block account s)
      | None \<Rightarrow> map_prod id (map_sum id (map_option blk_hash)) (head_block account s))"

fun build_groups ::
    "client_ctx \<Rightarrow> ('s \<Rightarrow> int) \<Rightarrow> 's head_lookup \<Rightarrow> tx_builder \<Rightarrow> (string \<rightharpoonup> bytes) \<Rightarrow> pending_cells \<Rightarrow> 's \<Rightarrow>
      op_group list \<Rightarrow> 's \<times> pending_cells \<times> (client_error + block list)" where
  "build_groups cl clock head_block t prevs cells s [] = (s, cells, Ok [])"
| "build_groups cl clock head_block t prevs cells s (grp # groups) =
     (let L = crypto (cl_block cl);
          account_key = account_to_string L (grp_account grp)
      in case (case prevs account_key of
                 Some h \<Rightarrow> (s, Ok (Some h))
               | None \<Rightarrow> first_previous head_block t (grp_account grp) s) of
           (s, Inl e) \<Rightarrow> (s, cells, Err e)
         | (s, Inr previous) \<Rightarrow>
             (case render_ops L grp previous cells of
                (cells, Inl e) \<Rightarrow> (s, cells, Err e)
              | (cells, Inr operations) \<Rightarrow>
                  if operations = [] then build_groups cl clock head_block t prevs cells s groups
                  else (case seal_block (cl\<lparr>cl_unix_millis := clock s\<rparr>) (grp_account grp) (grp_signer grp) previous
                            (tx_purpose t) (tx_date t) operations of
                          Inl e \<Rightarrow> (s, cells, Err e)
                        | Inr block \<Rightarrow>
                            (case build_groups cl clock head_block t (prevs(account_key \<mapsto> blk_hash block)) cells s groups of
                               (s, cells, Inl e) \<Rightarrow> (s, cells, Err e)
                             | (s, cells, Inr blocks) \<Rightarrow> (s, cells, Ok (block # blocks))))))"

definition tx_build ::
    "client_ctx \<Rightarrow> ('s \<Rightarrow> int) \<Rightarrow> 's head_lookup \<Rightarrow> pending_cells \<Rightarrow> tx_builder \<Rightarrow> 's \<Rightarrow>
      's \<times> tx_builder \<times> pending_cells \<times> (client_error + block list)" where
  "tx_build cl clock head_block cells t s =
     (let groups = tx_groups t @ (if grp_ops (tx_current t) = [] then [] else [tx_current t]);
          t' = t\<lparr>tx_groups := [], tx_current := group_new (tx_primary t) (tx_primary t)\<rparr>;
          (s, cells, result) = build_groups cl clock head_block t' Map.empty cells s groups
      in (s, t', cells, result))"

end
