(* ===== verification/TxProps.thy ===== *)
theory TxProps
  imports TxBuilder BlockProps VoteRef
begin

text \<open>
  Properties of the transaction builder: handles are set once, rendered operations come in a
  canonical order and conserve what was asked for, created identifiers are the ones block
  validation derives, and the blocks of one build form chains.
\<close>

section \<open>Set-once cells\<close>

definition cells_le :: "pending_cells \<Rightarrow> pending_cells \<Rightarrow> bool" where
  "cells_le c d \<longleftrightarrow> length c = length d \<and> (\<forall>h < length c. c ! h = None \<or> d ! h = c ! h)"

lemma cells_le_refl [simp]: "cells_le c c"
  by (simp add: cells_le_def)

lemma cells_le_trans: "cells_le c d \<Longrightarrow> cells_le d e \<Longrightarrow> cells_le c e"
  by (fastforce simp: cells_le_def)

lemma pending_fill_le [simp]: "cells_le c (pending_fill c h a)"
  by (auto simp: cells_le_def pending_fill_def nth_list_update)

lemma resolve_mono: "cells_le c d \<Longrightarrow> resolve c x = Inr a \<Longrightarrow> resolve d x = Inr a"
  by (cases x) (auto simp: cells_le_def pending_get_def split: if_splits)

lemma render_step_le: "render_step L g dp c b op = (c', r) \<Longrightarrow> cells_le c c'"
  by (cases op) (auto simp: push_create_def Let_def split: sum.splits)

lemma render_loop_Cons:
  "render_loop L g dp c b (op # ops) = (c'', Inr b'') \<longleftrightarrow>
     (\<exists>c' b'. render_step L g dp c b op = (c', Inr b') \<and> render_loop L g dp c' b' ops = (c'', Inr b''))"
  by (auto split: prod.splits sum.splits)

lemma render_loop_le: "render_loop L g dp c b ops = (c', r) \<Longrightarrow> cells_le c c'"
proof (induction ops arbitrary: c b)
  case (Cons op ops)
  obtain d s where d: "render_step L g dp c b op = (d, s)" by force
  then show ?case using Cons render_step_le[OF d] cells_le_trans by (cases s) auto
qed simp

lemma render_loop_induct:
  assumes "render_loop L g dp c b ops = (c', Inr b')" and "P b"
    and "\<And>c b c' b' op. op \<in> set ops \<Longrightarrow> render_step L g dp c b op = (c', Inr b') \<Longrightarrow> P b \<Longrightarrow> P b'"
  shows "P b'"
  using assms
proof (induction ops arbitrary: c b)
  case (Cons op ops)
  then obtain d e where de: "render_step L g dp c b op = (d, Inr e)" "render_loop L g dp d e ops = (c', Inr b')"
    unfolding render_loop_Cons by blast
  show ?case using Cons.IH[OF de(2)] Cons.prems(2,3) de(1) by (meson list.set_intros)
qed simp

lemma render_ops_ok:
  "render_ops L g previous c = (c', Inr ops) \<longleftrightarrow>
     (\<exists>b. render_loop L g (derive_previous L (grp_account g) previous) c render_buckets_default (grp_ops g) = (c', Inr b) \<and>
        ops = into_operations b)"
  by (auto simp: render_ops_def split: prod.splits sum.splits)

section \<open>Canonical order\<close>

fun op_rank :: "operation \<Rightarrow> nat" where
  "op_rank (OpCreateIdentifier _) = 0"
| "op_rank (OpSend s) = (if send_external s \<noteq> None then 1 else 2)"
| "op_rank (OpReceive _) = 3"
| "op_rank (OpSetInfo _) = 4"
| "op_rank (OpSetRep _) = 5"
| "op_rank (OpTokenAdminSupply _) = 6"
| "op_rank (OpManageCertificate _) = 7"
| "op_rank (OpTokenAdminModifyBalance _) = 8"
| "op_rank (OpModifyPermissions _) = 9"

definition ranked :: "render_buckets \<Rightarrow> bool" where
  "ranked b \<longleftrightarrow>
     list_all (\<lambda>x. op_rank x = 0) (rb_creates b) \<and> list_all (\<lambda>x. op_rank x = 1) (rb_external_sends b) \<and>
     list_all (\<lambda>x. op_rank x = 3) (rb_receives b) \<and> list_all (\<lambda>x. op_rank x = 4) (rb_info b) \<and>
     list_all (\<lambda>x. op_rank x = 5) (rb_set_rep b) \<and> list_all (\<lambda>x. op_rank x = 6) (rb_supply b) \<and>
     list_all (\<lambda>x. op_rank x = 7) (rb_certificates b) \<and> list_all (\<lambda>x. op_rank x = 8) (rb_balance b) \<and>
     list_all (\<lambda>x. op_rank x = 9) (rb_permissions b)"

fun is_raw :: "pending_op \<Rightarrow> bool" where
  "is_raw (PRaw _) = True"
| "is_raw _ = False"

lemma render_step_ranked:
  "render_step L g dp c b op = (c', Inr b') \<Longrightarrow> ranked b \<Longrightarrow> ranked b' \<and> (\<not> is_raw op \<longrightarrow> rb_raw b' = rb_raw b)"
  by (cases op) (auto simp: ranked_def push_create_def push_send_def push_receive_def Let_def
      split: sum.splits option.splits if_splits)

lemma render_ranked:
  assumes "render_loop L g dp c render_buckets_default ops = (c', Inr b)"
  shows "ranked b" and "list_all (\<lambda>op. \<not> is_raw op) ops \<Longrightarrow> rb_raw b = []"
proof -
  have "ranked render_buckets_default" by (simp add: ranked_def render_buckets_default_def)
  then show "ranked b"
    using render_loop_induct[OF assms, of ranked] render_step_ranked by blast
  have "ranked render_buckets_default \<and> rb_raw render_buckets_default = []"
    by (simp add: ranked_def render_buckets_default_def)
  then show "rb_raw b = []" if "list_all (\<lambda>op. \<not> is_raw op) ops"
    using render_loop_induct[OF assms, of "\<lambda>b. ranked b \<and> rb_raw b = []"] render_step_ranked that
    by (fastforce simp: list_all_iff)
qed

lemma sorted_constant: "list_all (\<lambda>x. f x = (n :: nat)) xs \<Longrightarrow> sorted (map f xs)"
  by (induction xs) (auto simp: list_all_iff)

lemma sorted_concat:
  fixes f :: "'a \<Rightarrow> nat"
  assumes "\<forall>(n, xs) \<in> set cs. list_all (\<lambda>x. f x = n) xs" and "sorted (map fst cs)"
  shows "sorted (map f (concat (map snd cs)))"
  using assms
proof (induction cs)
  case (Cons c cs)
  obtain n xs where c: "c = (n, xs)" by force
  have "n \<le> f y" if "y \<in> set (concat (map snd cs))" for y
    using that Cons.prems by (force simp: c list_all_iff)
  moreover have "list_all (\<lambda>x. f x = n) xs" using Cons.prems(1) by (simp add: c)
  ultimately show ?case
    using Cons sorted_constant[of f n xs] by (auto simp: c sorted_append list_all_iff)
qed simp

lemma into_operations_sorted:
  assumes "ranked b" and "rb_raw b = []"
  shows "sorted (map op_rank (into_operations b))"
proof -
  let ?agg = "map (\<lambda>s. OpSend \<lparr>send_to = agg_to s, send_amount = agg_amount s, send_token = agg_token s, send_external = None\<rparr>)
    (filter (\<lambda>s. agg_amount s \<noteq> 0) (map snd (rb_aggregated_sends b)))"
  let ?cs = "[(0 :: nat, rb_creates b), (1, rb_external_sends b), (2, ?agg), (3, rb_receives b), (4, rb_info b),
    (5, rb_set_rep b), (6, rb_supply b), (7, rb_certificates b), (8, rb_balance b), (9, rb_permissions b)]"
  have agg: "list_all (\<lambda>x. op_rank x = 2) ?agg" by (simp add: list_all_iff)
  have "sorted (map op_rank (concat (map snd ?cs)))"
    by (rule sorted_concat) (use assms(1) agg in \<open>simp_all add: ranked_def\<close>)
  moreover have "into_operations b = concat (map snd ?cs)" using assms(2) by (simp add: into_operations_def)
  ultimately show ?thesis by simp
qed

section \<open>Created identifiers\<close>

definition creates_derived :: "crypto_lib \<Rightarrow> generic_account \<Rightarrow> bytes option \<Rightarrow> operation list \<Rightarrow> bool" where
  "creates_derived L account dp creates \<longleftrightarrow>
     (\<forall>i < length creates. \<exists>key_type identifier arguments.
        creates ! i = OpCreateIdentifier \<lparr>ci_identifier = identifier, ci_arguments = arguments\<rparr> \<and>
        generate_identifier L account key_type dp (word_of_nat i) = Inr identifier)"

lemma render_step_creates:
  assumes "render_step L g dp c b op = (c', Inr b')" and "creates_derived L (grp_account g) dp (rb_creates b)"
  shows "creates_derived L (grp_account g) dp (rb_creates b')"
proof (cases "\<exists>t args h. op = PCreateIdentifier t args h")
  case True
  then obtain t args h where "op = PCreateIdentifier t args h" by blast
  then show ?thesis using assms
    by (auto simp: push_create_def Let_def creates_derived_def nth_append less_Suc_eq split: sum.splits) blast
next
  case False
  then have "rb_creates b' = rb_creates b"
    using assms(1) by (cases op) (auto simp: push_send_def push_receive_def split: option.splits if_splits)
  then show ?thesis using assms(2) by simp
qed

lemma render_creates:
  assumes "render_loop L g dp c render_buckets_default ops = (c', Inr b)"
  shows "creates_derived L (grp_account g) dp (rb_creates b)"
  using render_loop_induct[OF assms, of "\<lambda>b. creates_derived L (grp_account g) dp (rb_creates b)"]
    render_step_creates
  by (fastforce simp: creates_derived_def render_buckets_default_def)

lemma generate_identifier_type:
  "generate_identifier L a t h i = Inr x \<Longrightarrow> to_keypair_type x = t \<and> is_identifier t"
  by (auto simp: generate_identifier_def Let_def dest: identifier_from_seed_wf split: if_splits)

section \<open>Aggregated sends\<close>

definition agg_wf :: "crypto_lib \<Rightarrow> ((string \<times> string) \<times> aggregated_send) list \<Rightarrow> bool" where
  "agg_wf L xs \<longleftrightarrow> sorted_wrt (\<lambda>x y. fst x < fst y) xs \<and>
     (\<forall>(k, s) \<in> set xs. k = (account_to_string L (agg_to s), account_to_string L (agg_token s)))"

definition agg_total :: "string \<times> string \<Rightarrow> ((string \<times> string) \<times> aggregated_send) list \<Rightarrow> int" where
  "agg_total key xs = sum_list (map (\<lambda>(k, s). if k = key then agg_amount s else 0) xs)"

lemma accumulate_keys: "fst ` set (accumulate_send key to_acc token amount xs) = insert key (fst ` set xs)"
  by (induction key to_acc token amount xs rule: accumulate_send.induct) auto

lemma accumulate_total:
  "agg_total k (accumulate_send key to_acc token amount xs) = agg_total k xs + (if k = key then amount else 0)"
  by (induction key to_acc token amount xs rule: accumulate_send.induct) (auto simp: agg_total_def)

lemma accumulate_sorted:
  assumes "sorted_wrt (\<lambda>x y. fst x < fst y) xs"
  shows "sorted_wrt (\<lambda>x y. fst x < fst y) (accumulate_send key to_acc token amount xs)"
  using assms
proof (induction key to_acc token amount xs rule: accumulate_send.induct)
  case (2 key to_acc token amount k s rest)
  have "k < fst x" if "x \<in> set (accumulate_send key to_acc token amount rest)" "k < key" for x
  proof -
    have "fst x \<in> fst ` set (accumulate_send key to_acc token amount rest)" using that(1) by (rule imageI)
    then have "fst x \<in> insert key (fst ` set rest)" unfolding accumulate_keys .
    then show ?thesis using that(2) 2(2) by auto
  qed
  then show ?case using 2 by auto
qed simp

lemma accumulate_entries:
  assumes "\<And>k s. (k, s) \<in> set xs \<Longrightarrow> k = f (agg_to s) (agg_token s)" and "key = f to_acc token"
    and "(k, s) \<in> set (accumulate_send key to_acc token amount xs)"
  shows "k = f (agg_to s) (agg_token s)"
  using assms
proof (induction key to_acc token amount xs rule: accumulate_send.induct)
  case (2 key to_acc token amount k' s' rest)
  show ?case
  proof (cases "(k, s) \<in> set (accumulate_send key to_acc token amount rest) \<and> k' < key")
    case True
    then show ?thesis using 2(1)[of] 2(2,3) by (metis less_asym list.set_intros(2) order_less_irrefl)
  next
    case False
    then show ?thesis using 2(2-4) 2(2)[of k' s'] by (auto split: if_splits)
  qed
qed simp

lemma accumulate_wf:
  assumes "agg_wf L xs" and "key = (account_to_string L to_acc, account_to_string L token)"
  shows "agg_wf L (accumulate_send key to_acc token amount xs)"
proof -
  have "k = (account_to_string L (agg_to s), account_to_string L (agg_token s))"
    if "(k, s) \<in> set (accumulate_send key to_acc token amount xs)" for k s
  proof (rule accumulate_entries[where f = "\<lambda>a t. (account_to_string L a, account_to_string L t)", OF _ assms(2) that])
    fix k s assume "(k, s) \<in> set xs"
    then show "k = (account_to_string L (agg_to s), account_to_string L (agg_token s))"
      using assms(1) unfolding agg_wf_def by blast
  qed
  then show ?thesis using assms(1) accumulate_sorted unfolding agg_wf_def by blast
qed

fun sent_amount :: "crypto_lib \<Rightarrow> string \<times> string \<Rightarrow> operation \<Rightarrow> int" where
  "sent_amount L key (OpSend s) =
     (if send_external s = None \<and> (account_to_string L (send_to s), account_to_string L (send_token s)) = key
      then send_amount s else 0)"
| "sent_amount L key _ = 0"

fun requested_amount :: "crypto_lib \<Rightarrow> pending_cells \<Rightarrow> string \<times> string \<Rightarrow> pending_op \<Rightarrow> int" where
  "requested_amount L c key (PSend to_acc token amount None) =
     (case (resolve c to_acc, resolve c token) of
        (Inr a, Inr t) \<Rightarrow> if (account_to_string L a, account_to_string L t) = key then amount else 0
      | _ \<Rightarrow> 0)"
| "requested_amount L c key (PRaw op) = sent_amount L key op"
| "requested_amount L c key _ = 0"

definition bucket_total :: "crypto_lib \<Rightarrow> string \<times> string \<Rightarrow> render_buckets \<Rightarrow> int" where
  "bucket_total L key b = agg_total key (rb_aggregated_sends b) + sum_list (map (sent_amount L key) (rb_raw b))"

lemma render_step_total:
  assumes "render_step L g dp c b op = (c', Inr b')" and "agg_wf L (rb_aggregated_sends b)" and "cells_le c' d"
  shows "agg_wf L (rb_aggregated_sends b') \<and>
    bucket_total L key b' = bucket_total L key b + requested_amount L d key op"
proof (cases "\<exists>x y n. op = PSend x y n None")
  case True
  then obtain x y n where op: "op = PSend x y n None" by blast
  show ?thesis
  proof (cases "n = 0")
    case False
    then have "push_send L c x y n None b = Inr b'" "c' = c" using assms(1) op by auto
    then obtain a t where at: "resolve c x = Inr a" "resolve c y = Inr t" "c' = c"
      "b' = b\<lparr>rb_aggregated_sends := accumulate_send (account_to_string L a, account_to_string L t) a t n (rb_aggregated_sends b)\<rparr>"
      unfolding push_send_def and_then_eq_Inr by auto
    then have "resolve d x = Inr a" "resolve d y = Inr t" using resolve_mono assms(3) by blast+
    then show ?thesis using at(4) assms(2) accumulate_wf by (auto simp: op accumulate_total bucket_total_def)
  next
    case True
    then show ?thesis using assms by (auto simp: op split: sum.splits)
  qed
next
  case False
  then have "rb_aggregated_sends b' = rb_aggregated_sends b \<and>
      rb_raw b' = rb_raw b @ (case op of PRaw x \<Rightarrow> [x] | _ \<Rightarrow> [])"
    using assms(1) by (cases op) (auto simp: push_create_def push_send_def push_receive_def Let_def
        split: option.splits if_splits sum.splits)
  moreover have "requested_amount L d key op = (case op of PRaw x \<Rightarrow> sent_amount L key x | _ \<Rightarrow> 0)"
    using False by (cases "(L, d, key, op)" rule: requested_amount.cases) auto
  ultimately show ?thesis using assms(2) by (cases op) (simp_all add: bucket_total_def)
qed

lemma render_total:
  assumes "render_loop L g dp c b ops = (c', Inr b')" and "agg_wf L (rb_aggregated_sends b)"
  shows "agg_wf L (rb_aggregated_sends b') \<and>
    bucket_total L key b' = bucket_total L key b + sum_list (map (requested_amount L c' key) ops)"
  using assms
proof (induction ops arbitrary: c b)
  case (Cons op ops)
  then obtain d e where de: "render_step L g dp c b op = (d, Inr e)" "render_loop L g dp d e ops = (c', Inr b')"
    unfolding render_loop_Cons by blast
  show ?case
    using render_step_total[OF de(1) Cons.prems(2) render_loop_le[OF de(2)]] Cons.IH[OF de(2)] by simp
qed simp

lemma sent_amount_rank: "op_rank x \<noteq> 2 \<Longrightarrow> sent_amount L key x = 0"
  by (cases x) auto

lemma sum_sent_zero: "list_all (\<lambda>x. op_rank x = n) xs \<Longrightarrow> n \<noteq> 2 \<Longrightarrow> sum_list (map (sent_amount L key) xs) = 0"
  by (induction xs) (auto simp: sent_amount_rank)

lemma into_operations_total:
  assumes "ranked b" and "agg_wf L (rb_aggregated_sends b)"
  shows "sum_list (map (sent_amount L key) (into_operations b)) = bucket_total L key b"
proof -
  have "sum_list (map (sent_amount L key \<circ> (\<lambda>s. OpSend \<lparr>send_to = agg_to s, send_amount = agg_amount s,
      send_token = agg_token s, send_external = None\<rparr>)) (filter (\<lambda>s. agg_amount s \<noteq> 0) (map snd xs))) = agg_total key xs"
    if "\<forall>(k, s) \<in> set xs. k = (account_to_string L (agg_to s), account_to_string L (agg_token s))" for xs
    using that by (induction xs) (auto simp: agg_total_def)
  then have agg: "sum_list (map (sent_amount L key \<circ> (\<lambda>s. OpSend \<lparr>send_to = agg_to s, send_amount = agg_amount s,
      send_token = agg_token s, send_external = None\<rparr>)) (filter (\<lambda>s. agg_amount s \<noteq> 0) (map snd (rb_aggregated_sends b)))) =
      agg_total key (rb_aggregated_sends b)"
    using assms(2) by (simp add: agg_wf_def)
  show ?thesis using assms(1) agg unfolding ranked_def into_operations_def
    by (simp add: bucket_total_def sum_sent_zero[of 0] sum_sent_zero[of 1] sum_sent_zero[of 3] sum_sent_zero[of 4] sum_sent_zero[of 5]
        sum_sent_zero[of 6] sum_sent_zero[of 7] sum_sent_zero[of 8] sum_sent_zero[of 9])
qed

section \<open>Chains\<close>

lemma apply_network_fields [simp]:
  "bb_operations (apply_network cl b) = bb_operations b" "bb_date (apply_network cl b) = bb_date b"
  by (auto simp: apply_network_def with_network_def with_subnet_def Let_def split: option.splits)

lemma seal_builder_fields:
  "bb_account (seal_builder cl account signer previous purpose date operations) = Some account"
  "bb_operations (seal_builder cl account signer previous purpose date operations) = operations"
  "bb_previous (seal_builder cl account signer previous purpose date operations) =
     Some (case previous of Some h \<Rightarrow> PreviousHash h | None \<Rightarrow> PreviousOpening)"
  by (auto simp: seal_builder_def Let_def with_operations_def with_account_def with_signer_def with_purpose_def
      with_date_def with_previous_def as_opening_def block_builder_default_def split: option.splits)

lemma seal_block_ok:
  assumes "seal_block cl account signer previous purpose date operations = Inr b"
  shows "bd_account (blk_data b) = account \<and> bd_operations (blk_data b) = operations \<and>
    bd_previous (blk_data b) = (case previous of Some h \<Rightarrow> h | None \<Rightarrow> to_opening_hash (crypto (cl_block cl)) account) \<and>
    block_data_validate (cl_block cl) (blk_data b) (blk_hash b) = Inr ()"
proof -
  let ?bld = "seal_builder cl account signer previous purpose date operations"
  obtain u where u: "block_builder_build (cl_block cl) (cl_backend cl) (now_moment cl) ?bld = Inr u"
    and b: "unsigned_block_sign (cl_block cl) (cl_backend cl) u = Inr b"
    using assms by (auto simp: seal_block_def)
  have "blk_data b = ub_data u" "block_data_validate (cl_block cl) (blk_data b) (blk_hash b) = Inr ()"
    using b by (auto simp: unsigned_block_sign_def unsigned_block_seal_def block_try_from_parts_ok)
  moreover have "bd_account (ub_data u) = account" "bd_operations (ub_data u) = operations"
    "bd_previous (ub_data u) = (case previous of Some h \<Rightarrow> h | None \<Rightarrow> to_opening_hash (crypto (cl_block cl)) account)"
    using u seal_builder_fields
    by (auto simp: block_builder_build_def unsigned_block_try_from_data_def Let_def split: option.splits)
  ultimately show ?thesis by simp
qed

text \<open>The hash of the last block that \<open>bs\<close> holds for an account.\<close>

definition chain_tip :: "crypto_lib \<Rightarrow> block list \<Rightarrow> generic_account \<Rightarrow> bytes option" where
  "chain_tip L bs a =
     map_option blk_hash (find (\<lambda>b. account_to_string L (bd_account (blk_data b)) = account_to_string L a) (rev bs))"

definition links_ok :: "client_ctx \<Rightarrow> 's head_lookup \<Rightarrow> tx_builder \<Rightarrow> block list \<Rightarrow> block \<Rightarrow> bool" where
  "links_ok cl head_block t earlier b \<longleftrightarrow>
     (case chain_tip (crypto (cl_block cl)) earlier (bd_account (blk_data b)) of
        Some h \<Rightarrow> bd_previous (blk_data b) = h
      | None \<Rightarrow> \<exists>s s' p. first_previous head_block t (bd_account (blk_data b)) s = (s', Inr p) \<and>
          bd_previous (blk_data b) =
            (case p of Some h \<Rightarrow> h | None \<Rightarrow> to_opening_hash (crypto (cl_block cl)) (bd_account (blk_data b))))"

lemma chain_tip_snoc:
  "chain_tip L (bs @ [b]) a =
     (if account_to_string L (bd_account (blk_data b)) = account_to_string L a then Some (blk_hash b) else chain_tip L bs a)"
  by (simp add: chain_tip_def)

lemma build_groups_chain:
  assumes "build_groups cl clock head_block t prevs cells s groups = (s', cells', Inr bs)"
    and "\<And>a. prevs (account_to_string (crypto (cl_block cl)) a) = chain_tip (crypto (cl_block cl)) earlier a"
    and "j < length bs"
  shows "links_ok cl head_block t (earlier @ take j bs) (bs ! j) \<and> bd_operations (blk_data (bs ! j)) \<noteq> [] \<and>
    block_data_validate (cl_block cl) (blk_data (bs ! j)) (blk_hash (bs ! j)) = Inr ()"
  using assms
proof (induction groups arbitrary: s prevs cells earlier bs j)
  case (Cons g groups)
  let ?L = "crypto (cl_block cl)"
  let ?key = "account_to_string ?L (grp_account g)"
  obtain s1 previous cells1 ops where
    p: "(case prevs ?key of Some h \<Rightarrow> (s, Inr (Some h)) | None \<Rightarrow> first_previous head_block t (grp_account g) s) = (s1, Inr previous)"
    and r: "render_ops ?L g previous cells = (cells1, Inr ops)"
    using Cons.prems(1) by (auto simp: Let_def split: sum.splits prod.splits)
  show ?case
  proof (cases "ops = []")
    case True
    then have "build_groups cl clock head_block t prevs cells1 s1 groups = (s', cells', Inr bs)"
      using Cons.prems(1) p r by (simp add: Let_def)
    then show ?thesis using Cons.IH Cons.prems(2,3) by blast
  next
    case False
    then obtain b bs' where b: "seal_block (cl\<lparr>cl_unix_millis := clock s1\<rparr>) (grp_account g) (grp_signer g) previous
        (tx_purpose t) (tx_date t) ops = Inr b"
      and rest: "build_groups cl clock head_block t (prevs(?key \<mapsto> blk_hash b)) cells1 s1 groups = (s', cells', Inr bs')"
      and bs: "bs = b # bs'"
      using Cons.prems(1) p r by (auto simp: Let_def split: sum.splits prod.splits)
    have "cl_block (cl\<lparr>cl_unix_millis := clock s1\<rparr>) = cl_block cl" by simp
    note sb = seal_block_ok[OF b, unfolded this]
    have inv: "(prevs(?key \<mapsto> blk_hash b)) (account_to_string ?L a) = chain_tip ?L (earlier @ [b]) a" for a
      using Cons.prems(2)[of a] sb by (simp add: chain_tip_snoc)
    show ?thesis
    proof (cases j)
      case 0
      have "links_ok cl head_block t earlier b"
      proof (cases "chain_tip ?L earlier (grp_account g)")
        case None
        then have "first_previous head_block t (grp_account g) s = (s1, Inr previous)"
          using p Cons.prems(2)[of "grp_account g"] by simp
        then have "\<exists>s s' p. first_previous head_block t (bd_account (blk_data b)) s = (s', Inr p) \<and>
            bd_previous (blk_data b) = (case p of Some h \<Rightarrow> h | None \<Rightarrow> to_opening_hash ?L (bd_account (blk_data b)))"
          using sb by (intro exI[of _ s] exI[of _ s1] exI[of _ previous]) (simp split: option.split)
        then show ?thesis using None sb by (simp add: links_ok_def)
      next
        case (Some h)
        then have "previous = Some h" using p Cons.prems(2)[of "grp_account g"] by simp
        then show ?thesis using Some sb by (simp add: links_ok_def)
      qed
      then show ?thesis using 0 bs sb False by simp
    next
      case (Suc k)
      then show ?thesis using Cons.IH[OF rest inv, of k] Cons.prems(3) bs by simp
    qed
  qed
qed simp

text \<open>A group that sends twice to one recipient and creates an identifier in between.\<close>

definition ref_grp :: op_group where
  "ref_grp = \<lparr>grp_account = ref_account, grp_signer = ref_account,
     grp_ops = [PSend (Resolved ref_account) (Resolved ref_account) 5 None, PCreateIdentifier TOKEN None 0,
       PSend (Resolved ref_account) (Resolved ref_account) 7 None]\<rparr>"

definition ref_raw_send :: operation where
  "ref_raw_send = OpSend \<lparr>send_to = ref_account, send_amount = 3, send_token = ref_account, send_external = None\<rparr>"

lemma ref_grp_renders:
  "\<exists>cells' op ops. render_ops ref_lib ref_grp None [None] = (cells', Inr (OpCreateIdentifier op # ops)) \<and>
     ci_arguments op = None \<and> to_keypair_type (ci_identifier op) = TOKEN"
  "\<exists>cells' ops. render_ops ref_lib (ref_grp\<lparr>grp_ops := grp_ops ref_grp @ [PRaw ref_raw_send]\<rparr>) None [None] = (cells', Inr ops)"
proof -
  have "is_ok (generate_identifier ref_lib ref_account TOKEN None 0)"
    by (simp add: ref.generate_identifier_eq is_ok_iff is_identifier_iff)
  then obtain x where x: "generate_identifier ref_lib ref_account TOKEN None 0 = Inr x" by (auto simp: is_ok_iff)
  then have "to_keypair_type x = TOKEN" using generate_identifier_type by blast
  then show "\<exists>cells' op ops. render_ops ref_lib ref_grp None [None] = (cells', Inr (OpCreateIdentifier op # ops)) \<and>
     ci_arguments op = None \<and> to_keypair_type (ci_identifier op) = TOKEN"
    using x
    by (simp add: ref_grp_def render_ops_def derive_previous_def push_send_def push_create_def
        render_buckets_default_def into_operations_def)
  show "\<exists>cells' ops. render_ops ref_lib (ref_grp\<lparr>grp_ops := grp_ops ref_grp @ [PRaw ref_raw_send]\<rparr>) None [None] = (cells', Inr ops)"
    using x
    by (simp add: ref_grp_def render_ops_def derive_previous_def push_send_def push_create_def
        render_buckets_default_def into_operations_def)
qed

section \<open>Properties\<close>

text \<open>Without raw operations, a rendered group lists its operations in the fixed order of kinds
  (creations, external sends, plain sends, receives, info, representative, supply, certificates,
  balances, permissions).\<close>
theorem rendered_in_canonical_order:
  assumes "render_ops L g previous cells = (cells', Inr ops)" and "list_all (\<lambda>op. \<not> is_raw op) (grp_ops g)"
  shows "sorted (map op_rank ops)"
  using assms render_ranked into_operations_sorted unfolding render_ops_ok by blast

theorem rendered_in_canonical_order_witness:
  "\<exists>cells' ops. render_ops ref_lib ref_grp None [None] = (cells', Inr ops) \<and> sorted (map op_rank ops)"
proof -
  obtain cells' ops where "render_ops ref_lib ref_grp None [None] = (cells', Inr ops)"
    using ref_grp_renders(1) by blast
  then show ?thesis
    using rendered_in_canonical_order[of ref_lib ref_grp None "[None]" cells' ops] by (simp add: ref_grp_def)
qed

text \<open>C32: rendering conserves transfers: for every recipient and token, the plain sends of the
  rendered group add up to the amounts that were asked for, with handles resolved.  A raw operation
  counts as itself, so this holds for groups with and without raw operations.\<close>
theorem rendering_conserves_sends:
  assumes "render_ops L g previous cells = (cells', Inr ops)"
  shows "sum_list (map (sent_amount L key) ops) = sum_list (map (requested_amount L cells' key) (grp_ops g))"
proof -
  obtain b where b: "render_loop L g (derive_previous L (grp_account g) previous) cells render_buckets_default (grp_ops g) = (cells', Inr b)"
    "ops = into_operations b"
    using assms unfolding render_ops_ok by blast
  have "agg_wf L (rb_aggregated_sends render_buckets_default)" "bucket_total L key render_buckets_default = 0"
    by (simp_all add: agg_wf_def agg_total_def bucket_total_def render_buckets_default_def)
  then show ?thesis
    using render_total[OF b(1), of key] into_operations_total[OF render_ranked(1)[OF b(1)]]
    by (simp add: b(2))
qed

theorem rendering_conserves_sends_witness:
  "\<exists>cells' ops. render_ops ref_lib (ref_grp\<lparr>grp_ops := grp_ops ref_grp @ [PRaw ref_raw_send]\<rparr>) None [None] = (cells', Inr ops) \<and>
     sum_list (map (sent_amount ref_lib (account_to_string ref_lib ref_account, account_to_string ref_lib ref_account)) ops) = 15"
proof -
  let ?k = "(account_to_string ref_lib ref_account, account_to_string ref_lib ref_account)"
  let ?g = "ref_grp\<lparr>grp_ops := grp_ops ref_grp @ [PRaw ref_raw_send]\<rparr>"
  obtain cells' ops where "render_ops ref_lib ?g None [None] = (cells', Inr ops)" using ref_grp_renders by blast
  then show ?thesis
    using rendering_conserves_sends[of ref_lib ?g None "[None]" cells' ops ?k] by (simp add: ref_grp_def ref_raw_send_def)
qed

text \<open>The identifiers a rendered group creates are the ones block validation derives: for each
  leading CREATE_IDENTIFIER, the derivation from the account, the previous hash and the position in
  the block gives the identifier it names.\<close>
theorem rendered_identifiers_validate:
  assumes "render_ops L g previous cells = (cells', Inr ops)"
    and "list_all (\<lambda>op. \<not> is_raw op) (grp_ops g)" and "i < length ops" and "ops ! i = OpCreateIdentifier op"
    and "crypto_laws L" and "ctx_account ctx = grp_account g" and "ctx_index ctx = i"
    and "ctx_previous ctx = (case previous of Some h \<Rightarrow> h | None \<Rightarrow> to_opening_hash L (grp_account g))"
  shows "create_identifier_validate L ctx op = Inr () \<longleftrightarrow>
    \<not> is_identifier (to_keypair_type (grp_account g)) \<and>
    (case ci_arguments op of
       None \<Rightarrow> to_keypair_type (ci_identifier op) \<noteq> MULTISIG
     | Some (MultisigArguments args) \<Rightarrow>
         validate_multisig_arguments L ctx (to_keypair_type (ci_identifier op)) args = Inr ())"
proof -
  obtain b where b: "render_loop L g (derive_previous L (grp_account g) previous) cells render_buckets_default (grp_ops g) = (cells', Inr b)"
    "ops = into_operations b"
    using assms(1) unfolding render_ops_ok by blast
  have "i < length (rb_creates b)"
  proof (rule ccontr)
    assume "\<not> i < length (rb_creates b)"
    then have "ops ! i \<in> set (drop (length (rb_creates b)) ops)"
      using assms(3) by (auto simp: in_set_conv_nth intro!: exI[of _ "i - length (rb_creates b)"])
    then have "op_rank (ops ! i) \<noteq> 0"
      using render_ranked(1)[OF b(1)] render_ranked(2)[OF b(1) assms(2)]
      by (auto simp: b(2) into_operations_def ranked_def list_all_iff)
    then show False using assms(4) by simp
  qed
  then have op: "rb_creates b ! i = OpCreateIdentifier op" using assms(4) by (simp add: b(2) into_operations_def nth_append)
  obtain t where gen: "generate_identifier L (grp_account g) t (derive_previous L (grp_account g) previous) (word_of_nat i) =
      Inr (ci_identifier op)"
    using render_creates[OF b(1)] \<open>i < length (rb_creates b)\<close> op by (fastforce simp: creates_derived_def)
  have "derive_previous L (grp_account g) previous =
      (if ctx_previous ctx = to_opening_hash L (ctx_account ctx) then None else Some (ctx_previous ctx))"
    using assms(6,8) by (auto simp: derive_previous_def split: option.splits)
  then show ?thesis
    using gen generate_identifier_type[OF gen] assms(6,7) unfolding crypto_laws.create_identifier_validate_iff[OF assms(5)] Let_def by auto
qed

theorem rendered_identifiers_validate_witness:
  "\<exists>cells' op ops ctx. render_ops ref_lib ref_grp None [None] = (cells', Inr (OpCreateIdentifier op # ops)) \<and>
     create_identifier_validate ref_lib ctx op = Inr ()"
proof -
  obtain cells' op ops where r: "render_ops ref_lib ref_grp None [None] = (cells', Inr (OpCreateIdentifier op # ops))"
    "ci_arguments op = None" "to_keypair_type (ci_identifier op) = TOKEN"
    using ref_grp_renders by blast
  let ?ctx = "\<lparr>ctx_config = None, ctx_account = ref_account, ctx_operations = [],
    ctx_previous = to_opening_hash ref_lib ref_account, ctx_date_ms = 0, ctx_index = 0\<rparr>"
  have "create_identifier_validate ref_lib ?ctx op = Inr ()"
    using rendered_identifiers_validate[OF r(1) _ _ _ ref.crypto_laws_axioms, of 0 op ?ctx] r(2,3)
    by (simp add: ref_grp_def is_identifier_iff)
  then show ?thesis using r(1) by blast
qed

text \<open>C9: the blocks of one build form chains: each block links to the last block built before it
  for the same account, and the first one of an account to the seed, the ledger head or the opening
  hash; no block is empty and all are valid.\<close>
theorem built_blocks_form_chains:
  assumes "tx_build cl clock head_block cells t s = (s', t', cells', Inr bs)" and "j < length bs"
  shows "links_ok cl head_block t (take j bs) (bs ! j) \<and> bd_operations (blk_data (bs ! j)) \<noteq> [] \<and>
    block_data_validate (cl_block cl) (blk_data (bs ! j)) (blk_hash (bs ! j)) = Inr ()"
proof -
  have t': "tx_initial_previous t' = tx_initial_previous t" "tx_primary t' = tx_primary t"
    using assms(1) by (auto simp: tx_build_def Let_def split: prod.splits)
  then have "first_previous head_block t' = first_previous head_block t"
    by (intro ext) (simp add: first_previous_def split: option.split)
  then have "links_ok cl head_block t' = links_ok cl head_block t"
    by (intro ext) (simp add: links_ok_def split: option.split)
  moreover have "build_groups cl clock head_block t' Map.empty cells s
      (tx_groups t @ (if grp_ops (tx_current t) = [] then [] else [tx_current t])) = (s', cells', Inr bs)"
    using assms(1) by (auto simp: tx_build_def Let_def split: prod.splits)
  ultimately show ?thesis
    using build_groups_chain[of cl clock head_block t' Map.empty cells s _ s' cells' bs "[]" j] assms(2)
    by (simp add: chain_tip_def)
qed

theorem built_blocks_form_chains_witness:
  "\<exists>cl t t' cells' b. tx_build cl (\<lambda>_. 0) (\<lambda>_ s. (s, Inr None)) [] t () = ((), t', cells', Inr [b]) \<and>
     links_ok cl (\<lambda>_ s. (s :: unit, Inr None)) t [] b \<and> bd_operations (blk_data b) \<noteq> []"
proof -
  let ?cl = "\<lparr>cl_block = ref_blib, cl_backend = ref_backend, cl_chrono = ref_chrono, cl_network = Some 0,
    cl_subnet = None, cl_unix_millis = 0\<rparr>"
  let ?t = "tx_with_date 0 (tx_with_previous (replicate 32 5) (tx_set_rep ref_account (tx_new ref_account)))"
  obtain u b where ub: "unsigned_block_try_from_data ref_blib ref_backend ref_data = Inr u"
    "unsigned_block_sign ref_blib ref_backend u = Inr b"
    using ref_signable by blast
  have "seal_block ?cl ref_account ref_account (Some (replicate 32 5)) None (Some 0)
      [OpSetRep \<lparr>set_rep_to = ref_account\<rparr>] = Inr b"
    using ub by (simp add: seal_block_def seal_builder_def block_builder_build_def with_operations_def with_previous_def
        with_network_def with_account_def with_date_def apply_network_def block_builder_default_def ref_data_def
        account_eq_def)
  then have "\<exists>t' cells'. tx_build ?cl (\<lambda>_. 0) (\<lambda>_ s. (s :: unit, Inr None)) [] ?t () = ((), t', cells', Inr [b])"
    by (simp add: tx_build_def tx_with_date_def tx_with_previous_def tx_set_rep_def tx_new_def tx_push_def
        group_new_def first_previous_def account_eq_def render_ops_def render_buckets_default_def into_operations_def)
  then obtain t' cells' where bt: "tx_build ?cl (\<lambda>_. 0) (\<lambda>_ s. (s :: unit, Inr None)) [] ?t () = ((), t', cells', Inr [b])"
    by blast
  have "0 < length [b]" by simp
  from built_blocks_form_chains[OF bt this, unfolded take_0 nth_Cons_0] bt show ?thesis by blast
qed

end
