(* ===== verification/RepBook.thy ===== *)
theory RepBook
  imports ClientMath "HOL-Library.Char_ord" "HOL-Library.List_Lexorder"
begin

text \<open>
  The representative set with its reliability scores (\<open>client/src/rep.rs\<close>) and the client
  configuration (\<open>client/src/config.rs\<close>).  The set is a list of records behind a lock; every
  operation of the lock holder is one function on the list.
\<close>

section \<open>Configuration\<close>

record client_config =
  cfg_max_retries :: "32 word"
  cfg_max_backoff_ms :: "64 word"
  cfg_request_timeout_ms :: "64 word"
  cfg_update_reps_interval_ms :: "64 word"
  cfg_reps_cache_ttl_ms :: "64 word"
  cfg_reliability_decay :: f64
  cfg_reliability_increment :: f64
  cfg_reliability_floor :: f64
  cfg_quorum_threshold :: f64
  cfg_discover_reps :: bool

definition client_config_default :: client_config where
  "client_config_default =
     \<lparr>cfg_max_retries = 32, cfg_max_backoff_ms = 500, cfg_request_timeout_ms = 0,
      cfg_update_reps_interval_ms = 5 * 60 * 1000, cfg_reps_cache_ttl_ms = 60 * 1000,
      cfg_reliability_decay = round_f64 (5 / 10), cfg_reliability_increment = round_f64 (1 / 10),
      cfg_reliability_floor = round_f64 (1 / 100), cfg_quorum_threshold = round_f64 (7 / 10),
      cfg_discover_reps = False\<rparr>"

definition config_with_max_retries :: "32 word \<Rightarrow> client_config \<Rightarrow> client_config" where
  "config_with_max_retries n c = c\<lparr>cfg_max_retries := n\<rparr>"

definition config_with_max_backoff_ms :: "64 word \<Rightarrow> client_config \<Rightarrow> client_config" where
  "config_with_max_backoff_ms n c = c\<lparr>cfg_max_backoff_ms := n\<rparr>"

definition config_with_request_timeout_ms :: "64 word \<Rightarrow> client_config \<Rightarrow> client_config" where
  "config_with_request_timeout_ms n c = c\<lparr>cfg_request_timeout_ms := n\<rparr>"

definition config_with_quorum_threshold :: "f64 \<Rightarrow> client_config \<Rightarrow> client_config" where
  "config_with_quorum_threshold t c = c\<lparr>cfg_quorum_threshold := t\<rparr>"

definition config_with_discover_reps :: "bool \<Rightarrow> client_config \<Rightarrow> client_config" where
  "config_with_discover_reps d c = c\<lparr>cfg_discover_reps := d\<rparr>"

section \<open>Representatives\<close>

record rep_record =
  rr_key :: string
  rr_url :: string
  rr_weight :: int
  rr_score :: f64

definition rep_record_new :: "string \<Rightarrow> string \<Rightarrow> int \<Rightarrow> rep_record" where
  "rep_record_new key url weight = \<lparr>rr_key = key, rr_url = url, rr_weight = weight, rr_score = Fin 1\<rparr>"

record rep_ref =
  rf_key :: string
  rf_weight :: int

record rep_part =
  rp_key :: string
  rp_url :: string
  rp_weight :: int

definition rep_reliability :: "rep_record list \<Rightarrow> string \<Rightarrow> f64" where
  "rep_reliability reps key =
     (case find (\<lambda>r. rr_key r = key) reps of Some r \<Rightarrow> rr_score r | None \<Rightarrow> Fin 1)"

fun rep_set_score :: "rep_record list \<Rightarrow> string \<Rightarrow> f64 \<Rightarrow> rep_record list" where
  "rep_set_score [] key score = []"
| "rep_set_score (r # reps) key score =
     (if rr_key r = key then r\<lparr>rr_score := score\<rparr> # reps else r # rep_set_score reps key score)"

definition rep_boost :: "rep_record list \<Rightarrow> string \<Rightarrow> f64 \<Rightarrow> rep_record list" where
  "rep_boost reps key increment =
     rep_set_score reps key (reliability_after_success (rep_reliability reps key) increment)"

definition rep_decay :: "rep_record list \<Rightarrow> string \<Rightarrow> f64 \<Rightarrow> f64 \<Rightarrow> rep_record list" where
  "rep_decay reps key decay floor_score =
     rep_set_score reps key (reliability_after_failure (rep_reliability reps key) decay floor_score)"

definition rep_first_url :: "rep_record list \<Rightarrow> string option" where
  "rep_first_url reps = (case reps of [] \<Rightarrow> None | r # _ \<Rightarrow> Some (rr_url r))"

definition rep_contains :: "rep_record list \<Rightarrow> string \<Rightarrow> bool" where
  "rep_contains reps key = list_ex (\<lambda>r. rr_key r = key) reps"

definition rep_add :: "rep_record list \<Rightarrow> rep_record \<Rightarrow> rep_record list" where
  "rep_add reps r = reps @ [r]"

definition rep_sorted_keys :: "rep_record list \<Rightarrow> string list" where
  "rep_sorted_keys reps = sort (map rr_key reps)"

definition to_rep_ref :: "rep_record \<Rightarrow> rep_ref" where
  "to_rep_ref r = \<lparr>rf_key = rr_key r, rf_weight = rr_weight r\<rparr>"

definition rep_snapshot :: "rep_record list \<Rightarrow> rep_ref list" where
  "rep_snapshot reps = map to_rep_ref reps"

definition rep_total_weight :: "rep_record list \<Rightarrow> int" where
  "rep_total_weight reps = sum_list (map rr_weight reps)"

definition rep_snapshot_with_total :: "rep_record list \<Rightarrow> rep_ref list \<times> int" where
  "rep_snapshot_with_total reps = (rep_snapshot reps, rep_total_weight reps)"

definition effective_score :: "rep_record list \<Rightarrow> rep_record \<Rightarrow> int \<Rightarrow> f64" where
  "effective_score reps r tot =
     selection_score (weight_fraction (rr_weight r) tot (length reps)) (rep_reliability reps (rr_key r))"

definition pick_step :: "(rep_record \<Rightarrow> f64) \<Rightarrow> rep_record \<Rightarrow> (rep_record \<times> f64) option \<Rightarrow> (rep_record \<times> f64) option" where
  "pick_step score r best =
     (case best of
        Some (b, top_score) \<Rightarrow> if f64_le (score r) top_score then best else Some (r, score r)
      | None \<Rightarrow> Some (r, score r))"

definition rep_pick :: "rep_record list \<Rightarrow> rep_ref option" where
  "rep_pick reps =
     (let tot = rep_total_weight reps
      in map_option (to_rep_ref \<circ> fst) (fold (pick_step (\<lambda>r. effective_score reps r tot)) reps None))"

text \<open>Collecting into a \<open>BTreeMap\<close> keeps the last entry of a key.\<close>

definition rep_update_weights :: "rep_record list \<Rightarrow> (string \<times> int) list \<Rightarrow> rep_record list" where
  "rep_update_weights reps fetched =
     map (\<lambda>r. case map_of (rev fetched) (rr_key r) of Some w \<Rightarrow> r\<lparr>rr_weight := w\<rparr> | None \<Rightarrow> r) reps"

section \<open>Scores stay within bounds\<close>

definition score_in :: "rat \<Rightarrow> rep_record \<Rightarrow> bool" where
  "score_in lo r \<longleftrightarrow> (case rr_score r of Fin s \<Rightarrow> is_f64 s \<and> lo \<le> s \<and> s \<le> 1 | _ \<Rightarrow> False)"

lemma score_inE:
  assumes "score_in lo r"
  obtains s where "rr_score r = Fin s" "is_f64 s" "lo \<le> s" "s \<le> 1"
  using assms by (cases "rr_score r") (auto simp: score_in_def)

lemma set_score_in:
  assumes "list_all (score_in lo) reps" and "is_f64 s" "lo \<le> s" "s \<le> 1"
  shows "list_all (score_in lo) (rep_set_score reps key (Fin s))"
  using assms by (induction reps key "Fin s" rule: rep_set_score.induct) (auto simp: score_in_def)

lemma reliability_in:
  assumes "list_all (score_in lo) reps" and "lo \<le> 1"
  obtains s where "rep_reliability reps key = Fin s" "is_f64 s" "lo \<le> s" "s \<le> 1"
proof (cases "find (\<lambda>r. rr_key r = key) reps")
  case (Some r)
  then have "r \<in> set reps" by (auto simp: find_Some_iff)
  then have "score_in lo r" using assms(1) by (simp add: list_all_iff)
  then show ?thesis using that Some by (auto simp: rep_reliability_def elim: score_inE)
qed (use that[of 1] assms(2) in \<open>auto simp: rep_reliability_def\<close>)

lemma boost_in:
  assumes "list_all (score_in lo) reps" and "0 \<le> lo" "lo \<le> 1" "0 \<le> i"
  shows "list_all (score_in lo) (rep_boost reps key (Fin i))"
proof -
  obtain s where s: "rep_reliability reps key = Fin s" "is_f64 s" "lo \<le> s" "s \<le> 1"
    using reliability_in[OF assms(1,3)] .
  then obtain r where "reliability_after_success (Fin s) (Fin i) = Fin r" "is_f64 r" "s \<le> r" "r \<le> 1"
    using reliability_after_success_bounds[of s i] assms by force
  then show ?thesis using s set_score_in[OF assms(1), of r key] by (simp add: rep_boost_def)
qed

lemma decay_in:
  assumes "list_all (score_in lo) reps" and "0 \<le> lo" "lo \<le> 1" "is_f64 lo" "0 \<le> d" "d \<le> 1"
  shows "list_all (score_in lo) (rep_decay reps key (Fin d) (Fin lo))"
proof -
  obtain s where s: "rep_reliability reps key = Fin s" "is_f64 s" "lo \<le> s" "s \<le> 1"
    using reliability_in[OF assms(1,3)] .
  then obtain r where "reliability_after_failure (Fin s) (Fin d) (Fin lo) = Fin r" "is_f64 r" "lo \<le> r" "r \<le> s"
    using reliability_after_failure_bounds[of s d lo] assms by force
  then show ?thesis using s set_score_in[OF assms(1), of r key] by (simp add: rep_decay_def)
qed

lemma update_weights_in [simp]:
  "list_all (score_in lo) (rep_update_weights reps fetched) = list_all (score_in lo) reps"
  unfolding rep_update_weights_def by (induction reps) (auto simp: score_in_def split: option.split)

lemma set_score_keys [simp]: "map rr_key (rep_set_score reps key s) = map rr_key reps"
  by (induction reps key s rule: rep_set_score.induct) auto

lemma set_score_weights [simp]: "map rr_weight (rep_set_score reps key s) = map rr_weight reps"
  by (induction reps key s rule: rep_set_score.induct) auto

lemma boost_keys [simp]: "map rr_key (rep_boost reps key i) = map rr_key reps"
  by (simp add: rep_boost_def)

lemma decay_keys [simp]: "map rr_key (rep_decay reps key d f) = map rr_key reps"
  by (simp add: rep_decay_def)

lemma update_weights_keys [simp]: "map rr_key (rep_update_weights reps fetched) = map rr_key reps"
  by (simp add: rep_update_weights_def split: option.split)

section \<open>Selection\<close>

lemma weight_fraction_unit:
  assumes "0 \<le> w" "w \<le> t" "0 < n"
  shows "\<exists>r. weight_fraction w t n = Fin r \<and> 0 \<le> r \<and> r \<le> 1"
proof (cases "t = 0")
  case True
  have n: "f64_le (Fin 1) (round_f64 (of_nat n))" using assms(3) by (intro round_f64_ge) auto
  show ?thesis
  proof (cases "round_f64 (of_nat n)")
    case (Fin m)
    then have "1 \<le> m" using n by simp
    then show ?thesis using True assms(3) Fin round_f64_unit[of "1 / m"] by (simp add: weight_fraction_def)
  qed (use True assms(3) n in \<open>simp_all add: weight_fraction_def\<close>)
next
  case False
  then show ?thesis using assms bigint_ratio_unit[of w t] by (simp add: weight_fraction_def)
qed

lemma effective_score_unit:
  assumes "list_all (score_in lo) reps" "0 \<le> lo" "lo \<le> 1" "list_all (\<lambda>r. 0 \<le> rr_weight r) reps" "r \<in> set reps"
  shows "\<exists>e. effective_score reps r (rep_total_weight reps) = Fin e \<and> 0 \<le> e \<and> e \<le> 1"
proof -
  have "rr_weight r \<le> rep_total_weight reps"
    using assms(4,5) unfolding rep_total_weight_def by (intro member_le_sum_list) (auto simp: list_all_iff)
  moreover have "0 < length reps" "0 \<le> rr_weight r" using assms(4,5) by (auto simp: list_all_iff)
  ultimately obtain w where w: "weight_fraction (rr_weight r) (rep_total_weight reps) (length reps) = Fin w" "0 \<le> w" "w \<le> 1"
    using weight_fraction_unit by blast
  obtain s where s: "rep_reliability reps (rr_key r) = Fin s" "lo \<le> s" "s \<le> 1"
    using reliability_in[OF assms(1,3)] by metis
  show ?thesis using w s assms(2) round_f64_unit[of "w * s"]
    by (simp add: effective_score_def selection_score_def mult_le_one)
qed

lemma pick_fold:
  assumes "\<And>r. r \<in> set rs \<Longrightarrow> score r \<noteq> NaN" and "score c \<noteq> NaN"
  shows "\<exists>b. fold (pick_step score) rs (Some (c, score c)) = Some (b, score b) \<and> (b = c \<or> b \<in> set rs) \<and>
    f64_le (score c) (score b) \<and> (\<forall>r \<in> set rs. f64_le (score r) (score b))"
  using assms
proof (induction rs arbitrary: c)
  case (Cons r rs)
  define d where "d = (if f64_le (score r) (score c) then c else r)"
  have "pick_step score r (Some (c, score c)) = Some (d, score d)" by (simp add: pick_step_def d_def)
  moreover have "f64_le (score c) (score d)" "f64_le (score r) (score d)" "d = c \<or> d = r"
    using Cons.prems f64_le_total[of "score r" "score c"] by (auto simp: d_def)
  moreover have "score d \<noteq> NaN" using Cons.prems by (simp add: d_def)
  then obtain b where "fold (pick_step score) rs (Some (d, score d)) = Some (b, score b)" "b = d \<or> b \<in> set rs"
    "f64_le (score d) (score b)" "\<forall>r \<in> set rs. f64_le (score r) (score b)"
    using Cons.IH[of d] Cons.prems(1) by (meson list.set_intros(2))
  ultimately show ?case using f64_le_trans by (intro exI[of _ b]) auto
qed simp

lemma rep_pick_None [simp]: "rep_pick reps = None \<longleftrightarrow> reps = []"
proof -
  have "fold (pick_step f) rs (Some bx) \<noteq> None" for f rs bx
    by (induction rs arbitrary: bx) (auto simp: pick_step_def split: prod.split)
  then show ?thesis by (cases reps) (auto simp: rep_pick_def Let_def pick_step_def)
qed

lemma rep_pick_Nil [simp]: "rep_pick [] = None"
  by simp

lemma rep_pick_member:
  assumes "rep_pick reps = Some p"
  obtains b where "b \<in> set reps" "p = to_rep_ref b"
proof -
  have step: "\<exists>x. pick_step f r (Some ax) = Some x \<and> fst x \<in> {r, fst ax}" for f r and ax :: "rep_record \<times> f64"
    by (auto simp: pick_step_def split: prod.split)
  have "fst bx \<in> insert (fst ax) (set rs)" if "fold (pick_step f) rs (Some ax) = Some bx" for f rs ax bx
    using that
  proof (induction rs arbitrary: ax)
    case (Cons r rs)
    obtain x where "pick_step f r (Some ax) = Some x" "fst x \<in> {r, fst ax}" using step by blast
    then show ?case using Cons.IH[of x] Cons.prems by auto
  qed simp
  then have "\<exists>b \<in> set reps. p = to_rep_ref b"
    using assms by (cases reps) (force simp: rep_pick_def Let_def pick_step_def)+
  then show thesis using that by blast
qed

lemma rep_pick_max:
  assumes "list_all (score_in lo) reps" "0 \<le> lo" "lo \<le> 1" "list_all (\<lambda>r. 0 \<le> rr_weight r) reps" "rep_pick reps = Some p"
  shows "\<exists>b \<in> set reps. p = to_rep_ref b \<and>
    (\<forall>r \<in> set reps. f64_le (effective_score reps r (rep_total_weight reps)) (effective_score reps b (rep_total_weight reps)))"
proof -
  let ?s = "\<lambda>r. effective_score reps r (rep_total_weight reps)"
  have "?s r \<noteq> NaN" if "r \<in> set reps" for r using effective_score_unit[OF assms(1-4) that] by auto
  moreover obtain r rs where reps: "reps = r # rs" using assms(5) by (cases reps) (auto simp: rep_pick_def)
  ultimately obtain b where "fold (pick_step ?s) rs (Some (r, ?s r)) = Some (b, ?s b)" "b = r \<or> b \<in> set rs"
    "f64_le (?s r) (?s b)" "\<forall>r \<in> set rs. f64_le (?s r) (?s b)"
    using pick_fold[of rs ?s r] by auto
  then show ?thesis using assms(5) unfolding rep_pick_def Let_def
    by (intro bexI[of _ b]) (auto simp: reps pick_step_def)
qed

end
