(* ===== verification/ClientModel.thy ===== *)
theory ClientModel
  imports TxBuilder RepBook
begin

text \<open>
  The data the client exchanges with nodes (\<open>client/src/model.rs\<close>), the request surface of one
  representative (the trait of \<open>client/src/transport.rs\<close>), the shared client state and its operations
  on the representative set (\<open>client/src/client.rs\<close>).

  A request acts on a world \<open>'w\<close> that holds the nodes and the clock: it is a function from the world
  to the world and its answer.  The requests of a fan-out are answered one after another in the
  order that the world's scheduler chooses.  A task is \<open>None\<close> when it never returns.
\<close>

section \<open>Tasks\<close>

type_synonym ('c, 'a) task = "'c \<Rightarrow> ('c \<times> (client_error + 'a)) option"

definition task_return :: "'a \<Rightarrow> ('c, 'a) task" where
  "task_return x c = Some (c, Ok x)"

definition task_of :: "client_error + 'a \<Rightarrow> ('c, 'a) task" where
  "task_of r c = Some (c, r)"

definition task_bind :: "('c, 'a) task \<Rightarrow> ('a \<Rightarrow> ('c, 'b) task) \<Rightarrow> ('c, 'b) task" where
  "task_bind m f c =
     (case m c of
        None \<Rightarrow> None
      | Some (c, Inl e) \<Rightarrow> Some (c, Err e)
      | Some (c, Inr x) \<Rightarrow> f x c)"

definition task_try :: "('c, 'a) task \<Rightarrow> (client_error + 'a \<Rightarrow> ('c, 'b) task) \<Rightarrow> ('c, 'b) task" where
  "task_try m f c = (case m c of None \<Rightarrow> None | Some (c, r) \<Rightarrow> f r c)"

lemma task_bind_ok:
  "task_bind m f c = Some (c', Inr y) \<longleftrightarrow> (\<exists>d x. m c = Some (d, Inr x) \<and> f x d = Some (c', Inr y))"
  by (auto simp: task_bind_def split: option.splits sum.splits)

lemma task_return_eq [simp]: "task_return x c = Some (c', r) \<longleftrightarrow> c' = c \<and> r = Inr x"
  by (auto simp: task_return_def)

lemma task_of_eq [simp]: "task_of r c = Some (c', r') \<longleftrightarrow> c' = c \<and> r' = r"
  by (auto simp: task_of_def)

text \<open>An action always returns.\<close>

type_synonym ('c, 'a) action = "'c \<Rightarrow> 'c \<times> (client_error + 'a)"

definition act_return :: "'a \<Rightarrow> ('c, 'a) action" where
  "act_return x c = (c, Ok x)"

definition act_bind :: "('c, 'a) action \<Rightarrow> ('a \<Rightarrow> ('c, 'b) action) \<Rightarrow> ('c, 'b) action" where
  "act_bind m f c = (case m c of (c, Inl e) \<Rightarrow> (c, Err e) | (c, Inr x) \<Rightarrow> f x c)"

definition task_run :: "('c, 'a) action \<Rightarrow> ('c, 'a) task" where
  "task_run m c = Some (m c)"

lemma act_bind_ok:
  "act_bind m f c = (c', Inr y) \<longleftrightarrow> (\<exists>d x. m c = (d, Inr x) \<and> f x d = (c', Inr y))"
  by (auto simp: act_bind_def split: prod.splits sum.splits)

lemma act_return_eq [simp]: "act_return x c = (c', r) \<longleftrightarrow> c' = c \<and> r = Inr x"
  by (auto simp: act_return_def)

lemma task_run_eq [simp]: "task_run m c = Some (c', r) \<longleftrightarrow> m c = (c', r)"
  by (simp add: task_run_def)

section \<open>Exchanged data\<close>

record token_balance =
  tb_token :: generic_account
  tb_balance :: int

record representative =
  rep_account :: generic_account
  rep_weight :: int
  rep_api_url :: "string option"

record ledger_checksum =
  lc_checksum :: int
  lc_moment :: "int option"
  lc_moment_range :: "f64 option"

record history_entry =
  he_staple :: vote_staple
  he_id :: "bytes option"
  he_timestamp :: "int option"

record block_effects =
  be_block :: block
  be_operation_indexes :: "nat list"

definition block_effects_operations :: "block_effects \<Rightarrow> operation list" where
  "block_effects_operations e =
     (let operations = bd_operations (blk_data (be_block e))
      in map (\<lambda>i. operations ! i) (filter (\<lambda>i. i < length operations) (be_operation_indexes e)))"

datatype acl_principal = AclAccount generic_account | AclCertificate bytes generic_account

record acl =
  acl_principal :: "acl_principal option"
  acl_entity :: "generic_account option"
  acl_target :: "generic_account option"
  acl_permissions :: permissions

record certificate_chain =
  cc_certificate :: string
  cc_intermediates :: "string list"

record chain_query =
  cq_start :: "bytes option"
  cq_end :: "bytes option"
  cq_limit :: "int option"

definition chain_query_default :: chain_query where
  "chain_query_default = \<lparr>cq_start = None, cq_end = None, cq_limit = None\<rparr>"

record chain_page =
  cp_blocks :: "block list"
  cp_next_key :: "bytes option"

record history_query =
  hq_start :: "bytes option"
  hq_limit :: "int option"

definition history_query_default :: history_query where
  "history_query_default = \<lparr>hq_start = None, hq_limit = None\<rparr>"

record history_page =
  hp_entries :: "history_entry list"
  hp_next_key :: "bytes option"

record account_info =
  ai_name :: "string option"
  ai_description :: "string option"
  ai_metadata :: "string option"

record account_state =
  as_representative :: "generic_account option"
  as_head :: "bytes option"
  as_height :: "int option"
  as_info :: "account_info option"
  as_supply :: "int option"
  as_balances :: "token_balance list"

record 'c transmit_options =
  to_quotes :: "vote_quote list"
  to_fee_token_priority :: "generic_account list"
  to_generate_fee_block :: "(vote_staple \<Rightarrow> generic_account list \<Rightarrow> ('c, block) task) option"

definition transmit_options_default :: "'c transmit_options" where
  "transmit_options_default = \<lparr>to_quotes = [], to_fee_token_priority = [], to_generate_fee_block = None\<rparr>"

section \<open>The request surface of a representative\<close>

datatype ledger_side = SideMain | SideSide | SideBoth

type_synonym ('w, 'a) request = "'w \<Rightarrow> 'w \<times> (client_error + 'a)"

record ('t, 'w) node_transport =
  nt_node_version :: "'t \<Rightarrow> ('w, string) request"
  nt_balance :: "'t \<Rightarrow> string \<Rightarrow> string \<Rightarrow> ('w, int) request"
  nt_balances :: "'t \<Rightarrow> string \<Rightarrow> ('w, token_balance list) request"
  nt_account_state :: "'t \<Rightarrow> string \<Rightarrow> ('w, account_state) request"
  nt_account_states :: "'t \<Rightarrow> string list \<Rightarrow> ('w, account_state list) request"
  nt_head_block :: "'t \<Rightarrow> string \<Rightarrow> ('w, block option) request"
  nt_account_head_info :: "'t \<Rightarrow> string \<Rightarrow> ('w, (block \<times> int) option) request"
  nt_pending_block :: "'t \<Rightarrow> string \<Rightarrow> ('w, block option) request"
  nt_block :: "'t \<Rightarrow> bytes \<Rightarrow> ledger_side option \<Rightarrow> ('w, block option) request"
  nt_successor_block :: "'t \<Rightarrow> bytes \<Rightarrow> ('w, block option) request"
  nt_block_by_idempotent :: "'t \<Rightarrow> string \<Rightarrow> string \<Rightarrow> ledger_side option \<Rightarrow> ('w, block option) request"
  nt_block_votes :: "'t \<Rightarrow> bytes \<Rightarrow> ledger_side \<Rightarrow> ('w, vote list option) request"
  nt_chain_page :: "'t \<Rightarrow> string \<Rightarrow> chain_query \<Rightarrow> ('w, chain_page) request"
  nt_history_page :: "'t \<Rightarrow> string \<Rightarrow> history_query \<Rightarrow> ('w, history_page) request"
  nt_global_history_page :: "'t \<Rightarrow> history_query \<Rightarrow> ('w, history_page) request"
  nt_vote_staples_after :: "'t \<Rightarrow> int \<Rightarrow> int option \<Rightarrow> ('w, vote_staple list) request"
  nt_node_representative :: "'t \<Rightarrow> ('w, representative) request"
  nt_representative :: "'t \<Rightarrow> string \<Rightarrow> ('w, representative) request"
  nt_representatives :: "'t \<Rightarrow> ('w, representative list) request"
  nt_ledger_checksum :: "'t \<Rightarrow> ('w, ledger_checksum) request"
  nt_acls_by_principal :: "'t \<Rightarrow> string \<Rightarrow> ('w, acl list) request"
  nt_acls_by_entity :: "'t \<Rightarrow> string \<Rightarrow> ('w, acl list) request"
  nt_certificates :: "'t \<Rightarrow> string \<Rightarrow> ('w, certificate_chain list) request"
  nt_certificate :: "'t \<Rightarrow> string \<Rightarrow> bytes \<Rightarrow> ('w, certificate_chain option) request"
  nt_create_vote :: "'t \<Rightarrow> block list \<Rightarrow> vote list \<Rightarrow> vote_quote option \<Rightarrow> ('w, vote) request"
  nt_create_vote_quote :: "'t \<Rightarrow> block list \<Rightarrow> ('w, vote_quote) request"
  nt_publish_staple :: "'t \<Rightarrow> vote_staple \<Rightarrow> ('w, bool) request"

text \<open>
  What the client is given: the transport of a URL, the runtime (wall clock, monotonic clock,
  sleeping, the timer that bounds a request, the scheduler) and the third-party functions below
  blocks and votes.  \<open>rt_timer_first ms w\<close> is the world after a request of at most \<open>ms\<close> milliseconds
  was abandoned, if the timer fires first; \<open>rt_next_ready w n\<close> selects the next of \<open>n\<close> open requests.
\<close>

record ('t, 'w) client_env =
  ce_transport :: "('t, 'w) node_transport"
  ce_create :: "string \<Rightarrow> 't"
  rt_unix_millis :: "'w \<Rightarrow> int"
  rt_now_millis :: "'w \<Rightarrow> 64 word"
  rt_sleep :: "64 word \<Rightarrow> 'w \<Rightarrow> 'w"
  rt_timer_first :: "64 word \<Rightarrow> 'w \<Rightarrow> 'w option"
  rt_next_ready :: "'w \<Rightarrow> nat \<Rightarrow> nat"
  ce_staple :: staple_lib
  ce_chrono :: chrono_lib

abbreviation ce_crypto :: "('t, 'w) client_env \<Rightarrow> crypto_lib" where
  "ce_crypto E \<equiv> crypto (sl_block (ce_staple E))"

section \<open>Client state\<close>

type_synonym rep_entry = "string \<times> int \<times> string option"

record ('t, 'w) client =
  kc_reps :: "rep_record list"
  kc_transports :: "string \<rightharpoonup> 't"
  kc_config :: client_config
  kc_network :: "int option"
  kc_subnet :: "int option"
  kc_single_rep :: bool
  kc_refresh_started :: bool
  kc_cache :: "string \<rightharpoonup> (64 word \<times> rep_entry list)"
  kc_world :: 'w

record 't rep_target =
  pk_key :: string
  pk_weight :: int
  pk_transport :: 't

definition with_parts ::
    "('t, 'w) client_env \<Rightarrow> rep_part list \<Rightarrow> client_config \<Rightarrow> bool \<Rightarrow>
      (string \<rightharpoonup> (64 word \<times> rep_entry list)) \<Rightarrow> 'w \<Rightarrow> ('t, 'w) client" where
  "with_parts E reps config single_rep cache w =
     \<lparr>kc_reps = map (\<lambda>p. rep_record_new (rp_key p) (rp_url p) (rp_weight p)) reps,
      kc_transports = fold (\<lambda>p m. m(rp_key p \<mapsto> ce_create E (rp_url p))) reps Map.empty,
      kc_config = config, kc_network = None, kc_subnet = None, kc_single_rep = single_rep,
      kc_refresh_started = False, kc_cache = cache, kc_world = w\<rparr>"

definition client_with_network :: "int \<Rightarrow> ('t, 'w) client \<Rightarrow> ('t, 'w) client" where
  "client_with_network network c = c\<lparr>kc_network := Some network\<rparr>"

definition client_with_subnet :: "int \<Rightarrow> ('t, 'w) client \<Rightarrow> ('t, 'w) client" where
  "client_with_subnet subnet c = c\<lparr>kc_subnet := Some subnet\<rparr>"

definition bind_transports :: "('t, 'w) client \<Rightarrow> rep_ref list \<Rightarrow> 't rep_target list" where
  "bind_transports c refs =
     List.map_filter (\<lambda>r. map_option (\<lambda>t. \<lparr>pk_key = rf_key r, pk_weight = rf_weight r, pk_transport = t\<rparr>)
       (kc_transports c (rf_key r))) refs"

definition snapshot_picks :: "('t, 'w) client \<Rightarrow> 't rep_target list" where
  "snapshot_picks c = bind_transports c (rep_snapshot (kc_reps c))"

definition pick_target :: "('t, 'w) client \<Rightarrow> 't rep_target option" where
  "pick_target c =
     (case rep_pick (kc_reps c) of
        None \<Rightarrow> None
      | Some chosen \<Rightarrow>
          map_option (\<lambda>t. \<lparr>pk_key = rf_key chosen, pk_weight = rf_weight chosen, pk_transport = t\<rparr>)
            (kc_transports c (rf_key chosen)))"

definition client_context :: "('t, 'w) client_env \<Rightarrow> ('t, 'w) client \<Rightarrow> client_ctx" where
  "client_context E c =
     \<lparr>cl_block = sl_block (ce_staple E), cl_backend = sl_backend (ce_staple E), cl_chrono = ce_chrono E,
      cl_network = kc_network c, cl_subnet = kc_subnet c, cl_unix_millis = rt_unix_millis E (kc_world c)\<rparr>"

definition client_now :: "('t, 'w) client_env \<Rightarrow> ('t, 'w) client \<Rightarrow> int" where
  "client_now E c = now_moment (client_context E c)"

text \<open>The background task is represented by its flag only; its body is \<open>update_reps\<close>.\<close>

definition ensure_refresh :: "('t, 'w) client \<Rightarrow> ('t, 'w) client" where
  "ensure_refresh c = (if kc_single_rep c then c else c\<lparr>kc_refresh_started := True\<rparr>)"

definition boost :: "string \<Rightarrow> ('t, 'w) client \<Rightarrow> ('t, 'w) client" where
  "boost key c = c\<lparr>kc_reps := rep_boost (kc_reps c) key (cfg_reliability_increment (kc_config c))\<rparr>"

definition decay :: "string \<Rightarrow> ('t, 'w) client \<Rightarrow> ('t, 'w) client" where
  "decay key c =
     c\<lparr>kc_reps := rep_decay (kc_reps c) key (cfg_reliability_decay (kc_config c)) (cfg_reliability_floor (kc_config c))\<rparr>"

definition apply_rep :: "('t, 'w) client_env \<Rightarrow> ('t, 'w) client \<Rightarrow> rep_entry \<Rightarrow> ('t, 'w) client" where
  "apply_rep E c entry =
     (case entry of
        (key, weight, None) \<Rightarrow> c
      | (key, weight, Some api) \<Rightarrow>
          if rep_contains (kc_reps c) key then c
          else c\<lparr>kc_reps := rep_add (kc_reps c) (rep_record_new key api weight),
                 kc_transports := (kc_transports c)(key \<mapsto> ce_create E api)\<rparr>)"

definition apply_reps :: "('t, 'w) client_env \<Rightarrow> rep_entry list \<Rightarrow> bool \<Rightarrow> ('t, 'w) client \<Rightarrow> ('t, 'w) client" where
  "apply_reps E fetched discover c =
     (let c = c\<lparr>kc_reps := rep_update_weights (kc_reps c) (map (\<lambda>(key, weight, _). (key, weight)) fetched)\<rparr>
      in if \<not> discover then c else foldl (apply_rep E) c fetched)"

section \<open>Requests\<close>

definition call_node :: "('w, 'a) request \<Rightarrow> ('t, 'w) client \<Rightarrow> ('t, 'w) client \<times> (client_error + 'a)" where
  "call_node request c = (case request (kc_world c) of (w, r) \<Rightarrow> (c\<lparr>kc_world := w\<rparr>, r))"

text \<open>
  Draining a set of open requests: the next answered request is handled, until none is open or the
  handler stops the loop.
\<close>

definition remove_nth :: "nat \<Rightarrow> 'a list \<Rightarrow> 'a list" where
  "remove_nth i xs = take i xs @ drop (Suc i) xs"

lemma length_remove_nth: "i < length xs \<Longrightarrow> length (remove_nth i xs) = length xs - 1"
  by (simp add: remove_nth_def)

function drain ::
    "('t, 'w) client_env \<Rightarrow> ('p \<Rightarrow> ('w, 'r) request) \<Rightarrow>
      ('p \<Rightarrow> client_error + 'r \<Rightarrow> 'acc \<Rightarrow> ('t, 'w) client \<Rightarrow> ('t, 'w) client \<times> 'acc \<times> bool) \<Rightarrow>
      'p list \<Rightarrow> 'acc \<Rightarrow> ('t, 'w) client \<Rightarrow> ('t, 'w) client \<times> 'acc" where
  "drain E run handle [] acc c = (c, acc)"
| "drain E run handle (p # ps) acc c =
     (let i = rt_next_ready E (kc_world c) (Suc (length ps)) mod Suc (length ps);
          (c, r) = call_node (run ((p # ps) ! i)) c;
          (c, acc, stop) = handle ((p # ps) ! i) r acc c
      in if stop then (c, acc) else drain E run handle (remove_nth i (p # ps)) acc c)"
  by pat_completeness auto
termination
  by (relation "measure (\<lambda>(E, run, handle, ps, acc, c). length ps)")
    (auto simp: length_remove_nth)

end
