(* ===== verification/Client.thy ===== *)
theory Client
  imports ClientModel
begin

text \<open>
  The client's orchestration (\<open>client/src/client.rs\<close>): voting rounds, publication, synchronisation
  of lagging representatives, dispatch with retries, fee blocks, transmission, recovery and paged
  reads.  Loops over representatives follow the scheduler of the environment; the retry loop of a
  dispatched call may run forever and is a partial function.
\<close>

section \<open>Helpers\<close>

definition staple_moment :: "chrono_lib \<Rightarrow> vote list \<Rightarrow> int \<Rightarrow> int" where
  "staple_moment C votes fallback =
     (case overlapping_moment
         (map (\<lambda>v. (valid_from (dv_validity (vote_decoded v)), valid_to (dv_validity (vote_decoded v)))) votes) of
        Some millis \<Rightarrow> (case block_time_from_unix_millis C millis of Some t \<Rightarrow> t | None \<Rightarrow> fallback)
      | None \<Rightarrow> fallback)"

abbreviation issuer_key :: "crypto_lib \<Rightarrow> vote \<Rightarrow> string" where
  "issuer_key L v \<equiv> account_to_string L (dv_issuer (vote_decoded v))"

text \<open>Collecting into a \<open>BTreeMap\<close> keeps the last quote of an issuer.\<close>

definition quotes_by_issuer :: "crypto_lib \<Rightarrow> vote_quote list \<Rightarrow> string \<rightharpoonup> vote_quote" where
  "quotes_by_issuer L quotes = map_of (rev (map (\<lambda>q. (issuer_key L (quote_vote q), q)) quotes))"

definition contacts_for :: "crypto_lib \<Rightarrow> 't rep_target list \<Rightarrow> vote list \<Rightarrow> 't rep_target list" where
  "contacts_for L picks prior_votes =
     (if prior_votes = [] then picks
      else filter (\<lambda>p. pk_key p \<in> issuer_key L ` set prior_votes) picks)"

definition height_value :: "(bytes \<times> int) option \<Rightarrow> int" where
  "height_value info = (case info of Some (_, height) \<Rightarrow> height | None \<Rightarrow> -1)"

definition pick_best_vote :: "vote list \<Rightarrow> vote option" where
  "pick_best_vote votes =
     (case sort_key (\<lambda>v. - valid_to (dv_validity (vote_decoded v))) votes of [] \<Rightarrow> None | v # _ \<Rightarrow> Some v)"

definition rep_vote :: "crypto_lib \<Rightarrow> vote list \<Rightarrow> string \<Rightarrow> bool \<Rightarrow> vote option" where
  "rep_vote L votes rep_key single_rep =
     (let own = filter (\<lambda>v. issuer_key L v = rep_key) votes
      in if own = [] \<and> single_rep then pick_best_vote votes else pick_best_vote own)"

definition votes_require_fee :: "vote list \<Rightarrow> bool" where
  "votes_require_fee votes =
     list_ex (\<lambda>v. case dv_fees (vote_decoded v) of Some fs \<Rightarrow> fees_required fs | None \<Rightarrow> False) votes"

definition head_info ::
    "('t, 'w) client_env \<Rightarrow> 't \<Rightarrow> string \<Rightarrow> ('t, 'w) client \<Rightarrow> ('t, 'w) client \<times> (bytes \<times> int) option" where
  "head_info E t account c =
     (case call_node (nt_account_state (ce_transport E) t account) c of
        (c, Inl _) \<Rightarrow> (c, None)
      | (c, Inr state) \<Rightarrow>
          (c, case (as_head state, as_height state) of (Some h, Some n) \<Rightarrow> Some (h, n) | _ \<Rightarrow> None))"

section \<open>Publishing and voting\<close>

definition on_publish ::
    "'t rep_target \<Rightarrow> client_error + bool \<Rightarrow> bool \<times> client_error option \<Rightarrow> ('t, 'w) client \<Rightarrow>
      ('t, 'w) client \<times> (bool \<times> client_error option) \<times> bool" where
  "on_publish p r acc c =
     (case r of
        Inr _ \<Rightarrow> (boost (pk_key p) c, (True, snd acc), False)
      | Inl e \<Rightarrow> (decay (pk_key p) c, (fst acc, Some e), False))"

definition transmit_staple :: "('t, 'w) client_env \<Rightarrow> vote_staple \<Rightarrow> (('t, 'w) client, bool) action" where
  "transmit_staple E staple c =
     (let c = ensure_refresh c; picks = snapshot_picks c in
      if picks = [] then (c, Err CNoRepresentatives)
      else
        let (c, accepted, last_error) =
              drain E (\<lambda>p. nt_publish_staple (ce_transport E) (pk_transport p) staple) on_publish picks (False, None) c
        in if \<not> accepted then (case last_error of Some e \<Rightarrow> (c, Err e) | None \<Rightarrow> (c, Ok accepted))
           else (c, Ok accepted))"

definition on_vote ::
    "'t rep_target \<Rightarrow> client_error + vote \<Rightarrow> vote list \<times> (int \<times> client_error) option \<Rightarrow> ('t, 'w) client \<Rightarrow>
      ('t, 'w) client \<times> (vote list \<times> (int \<times> client_error) option) \<times> bool" where
  "on_vote p r acc c =
     (case r of
        Inr vote \<Rightarrow> (boost (pk_key p) c, (fst acc @ [vote], snd acc), False)
      | Inl e \<Rightarrow>
          let supersedes = (case snd acc of None \<Rightarrow> True | Some (seen, _) \<Rightarrow> pk_weight p > seen)
          in (decay (pk_key p) c, (fst acc, if supersedes then Some (pk_weight p, e) else snd acc), False))"

definition ask_vote ::
    "('t, 'w) client_env \<Rightarrow> block list \<Rightarrow> vote list \<Rightarrow> vote_quote list \<Rightarrow> 't rep_target \<Rightarrow> ('w, vote) request" where
  "ask_vote E blocks prior_votes quotes p =
     nt_create_vote (ce_transport E) (pk_transport p) blocks prior_votes
       (quotes_by_issuer (ce_crypto E) quotes (pk_key p))"

definition request_votes ::
    "('t, 'w) client_env \<Rightarrow> block list \<Rightarrow> vote list \<Rightarrow> vote_quote list \<Rightarrow> (('t, 'w) client, vote list) action" where
  "request_votes E blocks prior_votes quotes c =
     (let c = ensure_refresh c;
          snapshot = snapshot_picks c;
          picks = (if kc_single_rep c then snapshot else contacts_for (ce_crypto E) snapshot prior_votes) in
      if picks = [] then (c, Err CNoRepresentatives)
      else
        let (c, votes, highest_error) = drain E (ask_vote E blocks prior_votes quotes) on_vote picks ([], None) c
        in if votes = [] then (c, Err (case highest_error of Some (_, e) \<Rightarrow> e | None \<Rightarrow> CQuorumNotReached))
           else (c, Ok votes))"

definition request_vote :: "('t, 'w) client_env \<Rightarrow> block list \<Rightarrow> (('t, 'w) client, vote) action" where
  "request_vote E blocks =
     act_bind (request_votes E blocks [] []) (\<lambda>votes c.
       (c, ok_or CMissingVote (case votes of [] \<Rightarrow> None | v # _ \<Rightarrow> Some v)))"

definition on_vote_lenient ::
    "'t rep_target \<Rightarrow> client_error + vote \<Rightarrow> vote list \<Rightarrow> ('t, 'w) client \<Rightarrow> ('t, 'w) client \<times> vote list \<times> bool" where
  "on_vote_lenient p r votes c =
     (case r of
        Inr vote \<Rightarrow> (boost (pk_key p) c, votes @ [vote], False)
      | Inl _ \<Rightarrow> (decay (pk_key p) c, votes, False))"

definition request_votes_on ::
    "('t, 'w) client_env \<Rightarrow> 't rep_target list \<Rightarrow> block list \<Rightarrow> vote list \<Rightarrow> vote_quote list \<Rightarrow>
      (('t, 'w) client, vote list) action" where
  "request_votes_on E reps blocks prior_votes quotes c =
     (if reps = [] then (c, Ok [])
      else let (c, votes) = drain E (ask_vote E blocks prior_votes quotes) on_vote_lenient reps [] c
           in (c, Ok votes))"

definition on_quote ::
    "bool \<Rightarrow> int \<Rightarrow> f64 \<Rightarrow> 't rep_target \<Rightarrow> client_error + vote_quote \<Rightarrow>
      vote_quote list \<times> int \<times> client_error option \<Rightarrow> ('t, 'w) client \<Rightarrow>
      ('t, 'w) client \<times> (vote_quote list \<times> int \<times> client_error option) \<times> bool" where
  "on_quote collect_all tot threshold p r acc c =
     (case acc of (quotes, accumulated, last_error) \<Rightarrow>
        case r of
          Inr q \<Rightarrow>
            let accumulated = accumulated + pk_weight p
            in (boost (pk_key p) c, (quotes @ [q], accumulated, last_error),
                \<not> collect_all \<and> meets_quorum accumulated tot threshold)
        | Inl e \<Rightarrow> (decay (pk_key p) c, (quotes, accumulated, Some e), False))"

definition request_quotes ::
    "('t, 'w) client_env \<Rightarrow> block list \<Rightarrow> bool \<Rightarrow> (('t, 'w) client, vote_quote list) action" where
  "request_quotes E blocks collect_all c =
     (let c = ensure_refresh c;
          (refs, tot) = rep_snapshot_with_total (kc_reps c);
          picks = bind_transports c refs in
      if picks = [] then (c, Err CNoRepresentatives)
      else
        let (c, quotes, _, last_error) =
              drain E (\<lambda>p. nt_create_vote_quote (ce_transport E) (pk_transport p) blocks)
                (on_quote collect_all tot (cfg_quorum_threshold (kc_config c))) picks ([], 0, None) c
        in if quotes = [] then (c, Err (case last_error of Some e \<Rightarrow> e | None \<Rightarrow> CMissingQuote))
           else (c, Ok quotes))"

definition request_quote :: "('t, 'w) client_env \<Rightarrow> block list \<Rightarrow> (('t, 'w) client, vote_quote) action" where
  "request_quote E blocks =
     act_bind (request_quotes E blocks False) (\<lambda>quotes c.
       (c, ok_or CMissingQuote (case quotes of [] \<Rightarrow> None | q # _ \<Rightarrow> Some q)))"

definition client_quotes :: "('t, 'w) client_env \<Rightarrow> block list \<Rightarrow> (('t, 'w) client, vote_quote list) action" where
  "client_quotes E blocks = request_quotes E blocks True"

section \<open>Synchronisation\<close>

fun fetch_blocks_on ::
    "('t, 'w) client_env \<Rightarrow> 't \<Rightarrow> ledger_side \<Rightarrow> bytes list \<Rightarrow> (('t, 'w) client, block list option) action" where
  "fetch_blocks_on E t side [] = act_return (Some [])"
| "fetch_blocks_on E t side (h # hs) =
     act_bind (call_node (nt_block (ce_transport E) t h (Some side))) (\<lambda>b.
       case b of
         None \<Rightarrow> act_return None
       | Some block \<Rightarrow>
           act_bind (fetch_blocks_on E t side hs) (\<lambda>rest. act_return (map_option (\<lambda>bs. block # bs) rest)))"

definition compose_staple_on ::
    "('t, 'w) client_env \<Rightarrow> 't \<Rightarrow> bytes \<Rightarrow> ledger_side \<Rightarrow> (('t, 'w) client, vote_staple option) action" where
  "compose_staple_on E t block_hash side =
     act_bind (call_node (nt_block_votes (ce_transport E) t block_hash side)) (\<lambda>list.
       case list of
         None \<Rightarrow> act_return None
       | Some [] \<Rightarrow> act_return None
       | Some (v # vs) \<Rightarrow>
           act_bind (fetch_blocks_on E t side (dv_blocks (vote_decoded v))) (\<lambda>blocks.
             case blocks of
               None \<Rightarrow> act_return None
             | Some blocks \<Rightarrow> (\<lambda>c.
                 let moment = staple_moment (ce_chrono E) (v # vs) (client_now E c)
                 in (c, map_err CVote (map_sum id Some
                       (vote_staple_try_new (ce_staple E) blocks (v # vs) default_vote_config moment))))))"

fun collect_heads ::
    "('t, 'w) client_env \<Rightarrow> string \<Rightarrow> 't rep_target list \<Rightarrow> ('t, 'w) client \<Rightarrow>
      ('t, 'w) client \<times> ('t rep_target \<times> (bytes \<times> int) option) list" where
  "collect_heads E account [] c = (c, [])"
| "collect_heads E account (p # ps) c =
     (let (c, h) = head_info E (pk_transport p) account c;
          (c, hs) = collect_heads E account ps c
      in (c, (p, h) # hs))"

fun publish_lagging ::
    "('t, 'w) client_env \<Rightarrow> vote_staple \<Rightarrow> int \<Rightarrow> ('t rep_target \<times> (bytes \<times> int) option) list \<Rightarrow>
      ('t, 'w) client \<Rightarrow> ('t, 'w) client" where
  "publish_lagging E staple lowest [] c = c"
| "publish_lagging E staple lowest ((p, h) # hs) c =
     publish_lagging E staple lowest hs
       (if height_value h = lowest
        then fst (call_node (nt_publish_staple (ce_transport E) (pk_transport p) staple) c) else c)"

definition sync_finish ::
    "('t, 'w) client_env \<Rightarrow> string \<Rightarrow> bool \<Rightarrow> ('t rep_target \<times> (bytes \<times> int) option) list \<Rightarrow> vote_staple \<Rightarrow>
      (('t, 'w) client, vote_staple option) action" where
  "sync_finish E account_key publish heads staple c =
     (if publish then
        let lowest = height_value (snd (hd heads));
            c = publish_lagging E staple lowest heads c;
            (c, updated) = head_info E (pk_transport (fst (hd heads))) account_key c
        in if height_value updated = lowest then (c, Err CSyncPublishFailed) else (c, Ok (Some staple))
      else (c, Ok (Some staple)))"

definition sync_account ::
    "('t, 'w) client_env \<Rightarrow> generic_account \<Rightarrow> bool \<Rightarrow> (('t, 'w) client, vote_staple option) action" where
  "sync_account E account publish c =
     (let c = ensure_refresh c; picks = snapshot_picks c in
      if picks = [] then (c, Err CNoRepresentatives)
      else
        let account_key = account_to_string (ce_crypto E) account;
            (c, heads) = collect_heads E account_key picks c;
            heads = sort_key (\<lambda>h. height_value (snd h)) heads;
            highest_transport = pk_transport (fst (last heads))
        in if height_value (snd (hd heads)) = height_value (snd (last heads)) then (c, Ok None)
           else
             let lowest_head = (case snd (hd heads) of
                   Some (h, _) \<Rightarrow> h | None \<Rightarrow> to_opening_hash (ce_crypto E) account)
             in act_bind (call_node (nt_successor_block (ce_transport E) highest_transport lowest_head)) (\<lambda>successor.
                  case successor of
                    None \<Rightarrow> act_return None
                  | Some block \<Rightarrow>
                      act_bind (compose_staple_on E highest_transport (blk_hash block) SideMain) (\<lambda>staple.
                        case staple of
                          None \<Rightarrow> act_return None
                        | Some staple \<Rightarrow> sync_finish E account_key publish heads staple)) c)"

section \<open>Dispatch\<close>

fun sync_accounts ::
    "('t, 'w) client_env \<Rightarrow> string list \<Rightarrow> bool \<Rightarrow> ('t, 'w) client \<Rightarrow> ('t, 'w) client \<times> bool" where
  "sync_accounts E [] synced c = (c, synced)"
| "sync_accounts E (a # as) synced c =
     (case account_from_str (ce_crypto E) a of
        Inl _ \<Rightarrow> sync_accounts E as synced c
      | Inr account \<Rightarrow>
          (case sync_account E account True c of
             (c, Inr (Some _)) \<Rightarrow> sync_accounts E as True c
           | (c, _) \<Rightarrow> sync_accounts E as synced c))"

definition try_recover_on_error ::
    "('t, 'w) client_env \<Rightarrow> client_error \<Rightarrow> ('t, 'w) client \<Rightarrow> ('t, 'w) client \<times> bool" where
  "try_recover_on_error E e c =
     (case e of
        CNode (KLedgerVote _ _ accounts) \<Rightarrow> sync_accounts E accounts False c
      | _ \<Rightarrow> (c, False))"

definition run_call ::
    "('t, 'w) client_env \<Rightarrow> ('w, 'a) request \<Rightarrow> ('t, 'w) client \<Rightarrow> ('t, 'w) client \<times> (client_error + 'a) option" where
  "run_call E request c =
     (let timeout_ms = cfg_request_timeout_ms (kc_config c) in
      if timeout_ms = 0 then map_prod id Some (call_node request c)
      else (case rt_timer_first E timeout_ms (kc_world c) of
              Some w \<Rightarrow> (c\<lparr>kc_world := w\<rparr>, None)
            | None \<Rightarrow> map_prod id Some (call_node request c)))"

datatype 'a dispatched = Answered 'a | Recovered | Failed client_error | NoTarget

definition dispatch_once ::
    "('t, 'w) client_env \<Rightarrow> ('t \<Rightarrow> ('w, 'a) request) \<Rightarrow> ('t, 'w) client \<Rightarrow> ('t, 'w) client \<times> 'a dispatched" where
  "dispatch_once E request c =
     (case pick_target c of
        None \<Rightarrow> (c, NoTarget)
      | Some p \<Rightarrow>
          (case run_call E (request (pk_transport p)) c of
             (c, Some (Inr x)) \<Rightarrow> (boost (pk_key p) c, Answered x)
           | (c, Some (Inl e)) \<Rightarrow>
               (case try_recover_on_error E e c of
                  (c, True) \<Rightarrow> (c, Recovered)
                | (c, False) \<Rightarrow> (decay (pk_key p) c, Failed e))
           | (c, None) \<Rightarrow> (decay (pk_key p) c, Failed CTimeout)))"

partial_function (option) dispatch_loop ::
    "('t, 'w) client_env \<Rightarrow> ('t \<Rightarrow> ('w, 'a) request) \<Rightarrow> 64 word \<Rightarrow> 32 word \<Rightarrow> (('t, 'w) client, 'a) task" where
  "dispatch_loop E request delay attempt c =
     (case dispatch_once E request c of
        (c, NoTarget) \<Rightarrow> Some (c, Err CNoRepresentatives)
      | (c, Answered x) \<Rightarrow> Some (c, Ok x)
      | (c, Recovered) \<Rightarrow> dispatch_loop E request delay attempt c
      | (c, Failed e) \<Rightarrow>
          if attempt \<ge> cfg_max_retries (kc_config c) then Some (c, Err e)
          else dispatch_loop E request (next_backoff delay (cfg_max_backoff_ms (kc_config c))) (attempt + 1)
                 (c\<lparr>kc_world := rt_sleep E delay (kc_world c)\<rparr>))"

definition dispatch_any :: "('t, 'w) client_env \<Rightarrow> ('t \<Rightarrow> ('w, 'a) request) \<Rightarrow> (('t, 'w) client, 'a) task" where
  "dispatch_any E request c = dispatch_loop E request 1 0 (ensure_refresh c)"

end
