(* ===== verification/ClientReads.thy ===== *)
theory ClientReads
  imports Client
begin

text \<open>
  The reads of the client (\<open>client/src/client.rs\<close>): dispatched lookups, the pending block that most
  representatives report, staples composed from a representative's votes, cursor-paged sequences,
  and the refresh of the representative set.
\<close>

section \<open>Dispatched lookups\<close>

definition with_address ::
    "('t, 'w) client_env \<Rightarrow> generic_account \<Rightarrow> (string \<Rightarrow> (('t, 'w) client, 'a) task) \<Rightarrow> (('t, 'w) client, 'a) task" where
  "with_address E account f = task_bind (task_of (map_err CAccount (to_public_key_string (ce_crypto E) account))) f"

definition client_node_version :: "('t, 'w) client_env \<Rightarrow> (('t, 'w) client, string) task" where
  "client_node_version E = dispatch_any E (nt_node_version (ce_transport E))"

definition client_balance ::
    "('t, 'w) client_env \<Rightarrow> generic_account \<Rightarrow> generic_account \<Rightarrow> (('t, 'w) client, int) task" where
  "client_balance E account token =
     with_address E account (\<lambda>account. with_address E token (\<lambda>token.
       dispatch_any E (\<lambda>t. nt_balance (ce_transport E) t account token)))"

definition client_balances :: "('t, 'w) client_env \<Rightarrow> generic_account \<Rightarrow> (('t, 'w) client, token_balance list) task" where
  "client_balances E account =
     with_address E account (\<lambda>account. dispatch_any E (\<lambda>t. nt_balances (ce_transport E) t account))"

definition client_state :: "('t, 'w) client_env \<Rightarrow> generic_account \<Rightarrow> (('t, 'w) client, account_state) task" where
  "client_state E account =
     with_address E account (\<lambda>account. dispatch_any E (\<lambda>t. nt_account_state (ce_transport E) t account))"

definition client_token_supply :: "('t, 'w) client_env \<Rightarrow> generic_account \<Rightarrow> (('t, 'w) client, int option) task" where
  "client_token_supply E token = task_bind (client_state E token) (\<lambda>state. task_return (as_supply state))"

definition client_head_block :: "('t, 'w) client_env \<Rightarrow> generic_account \<Rightarrow> (('t, 'w) client, block option) task" where
  "client_head_block E account =
     with_address E account (\<lambda>account. dispatch_any E (\<lambda>t. nt_head_block (ce_transport E) t account))"

definition client_account_head_info ::
    "('t, 'w) client_env \<Rightarrow> generic_account \<Rightarrow> (('t, 'w) client, (block \<times> int) option) task" where
  "client_account_head_info E account =
     with_address E account (\<lambda>account. dispatch_any E (\<lambda>t. nt_account_head_info (ce_transport E) t account))"

definition client_block ::
    "('t, 'w) client_env \<Rightarrow> bytes \<Rightarrow> ledger_side option \<Rightarrow> (('t, 'w) client, block option) task" where
  "client_block E blockhash side = dispatch_any E (\<lambda>t. nt_block (ce_transport E) t blockhash side)"

definition client_successor_block :: "('t, 'w) client_env \<Rightarrow> bytes \<Rightarrow> (('t, 'w) client, block option) task" where
  "client_successor_block E blockhash = dispatch_any E (\<lambda>t. nt_successor_block (ce_transport E) t blockhash)"

definition client_block_by_idempotent ::
    "('t, 'w) client_env \<Rightarrow> generic_account \<Rightarrow> string \<Rightarrow> ledger_side option \<Rightarrow> (('t, 'w) client, block option) task" where
  "client_block_by_idempotent E account key side =
     with_address E account (\<lambda>account. dispatch_any E (\<lambda>t. nt_block_by_idempotent (ce_transport E) t account key side))"

definition client_vote_staples_after_page ::
    "('t, 'w) client_env \<Rightarrow> int \<Rightarrow> int option \<Rightarrow> (('t, 'w) client, vote_staple list) task" where
  "client_vote_staples_after_page E start limit =
     dispatch_any E (\<lambda>t. nt_vote_staples_after (ce_transport E) t start limit)"

definition client_vote_staples_after :: "('t, 'w) client_env \<Rightarrow> int \<Rightarrow> (('t, 'w) client, vote_staple list) task" where
  "client_vote_staples_after E start = client_vote_staples_after_page E start None"

definition client_node_representative :: "('t, 'w) client_env \<Rightarrow> (('t, 'w) client, representative) task" where
  "client_node_representative E = dispatch_any E (nt_node_representative (ce_transport E))"

definition client_representative :: "('t, 'w) client_env \<Rightarrow> generic_account \<Rightarrow> (('t, 'w) client, representative) task" where
  "client_representative E rep =
     with_address E rep (\<lambda>rep. dispatch_any E (\<lambda>t. nt_representative (ce_transport E) t rep))"

definition client_representatives :: "('t, 'w) client_env \<Rightarrow> (('t, 'w) client, representative list) task" where
  "client_representatives E = dispatch_any E (nt_representatives (ce_transport E))"

definition client_ledger_checksum :: "('t, 'w) client_env \<Rightarrow> (('t, 'w) client, ledger_checksum) task" where
  "client_ledger_checksum E = dispatch_any E (nt_ledger_checksum (ce_transport E))"

definition client_acls_by_principal :: "('t, 'w) client_env \<Rightarrow> generic_account \<Rightarrow> (('t, 'w) client, acl list) task" where
  "client_acls_by_principal E account =
     with_address E account (\<lambda>account. dispatch_any E (\<lambda>t. nt_acls_by_principal (ce_transport E) t account))"

definition client_acls_by_entity :: "('t, 'w) client_env \<Rightarrow> generic_account \<Rightarrow> (('t, 'w) client, acl list) task" where
  "client_acls_by_entity E account =
     with_address E account (\<lambda>account. dispatch_any E (\<lambda>t. nt_acls_by_entity (ce_transport E) t account))"

definition client_certificates ::
    "('t, 'w) client_env \<Rightarrow> generic_account \<Rightarrow> (('t, 'w) client, certificate_chain list) task" where
  "client_certificates E account =
     with_address E account (\<lambda>account. dispatch_any E (\<lambda>t. nt_certificates (ce_transport E) t account))"

definition client_certificate ::
    "('t, 'w) client_env \<Rightarrow> generic_account \<Rightarrow> bytes \<Rightarrow> (('t, 'w) client, certificate_chain option) task" where
  "client_certificate E account hash =
     with_address E account (\<lambda>account. dispatch_any E (\<lambda>t. nt_certificate (ce_transport E) t account hash))"

definition client_states :: "('t, 'w) client_env \<Rightarrow> generic_account list \<Rightarrow> (('t, 'w) client, account_state list) task" where
  "client_states E accounts =
     task_bind (task_of (map_err CAccount (traverse (to_public_key_string (ce_crypto E)) accounts))) (\<lambda>addresses.
       dispatch_any E (\<lambda>t. nt_account_states (ce_transport E) t addresses))"

section \<open>Paged sequences\<close>

partial_function (option) drain_cursor_pages ::
    "('k option \<Rightarrow> ('c, 'i list \<times> 'k option) task) \<Rightarrow> 'k option \<Rightarrow> 'i list \<Rightarrow> ('c, 'i list) task" where
  "drain_cursor_pages fetch cursor items c =
     (case fetch cursor c of
        None \<Rightarrow> None
      | Some (c, r) \<Rightarrow>
          (case r of
             Inl e \<Rightarrow> Some (c, Err e)
           | Inr (page, next_key) \<Rightarrow>
               if page = [] then Some (c, Ok items)
               else (case next_key of
                       Some k \<Rightarrow> drain_cursor_pages fetch (Some k) (items @ page) c
                     | None \<Rightarrow> Some (c, Ok (items @ page)))))"

definition page_limit_value :: "32 word \<Rightarrow> int" where
  "page_limit_value page_limit = uint (max page_limit 1)"

definition client_chain_page_cursor_raw ::
    "('t, 'w) client_env \<Rightarrow> string \<Rightarrow> chain_query \<Rightarrow> (('t, 'w) client, chain_page) task" where
  "client_chain_page_cursor_raw E account query = dispatch_any E (\<lambda>t. nt_chain_page (ce_transport E) t account query)"

definition client_chain_page_cursor ::
    "('t, 'w) client_env \<Rightarrow> generic_account \<Rightarrow> chain_query \<Rightarrow> (('t, 'w) client, chain_page) task" where
  "client_chain_page_cursor E account query =
     with_address E account (\<lambda>account. client_chain_page_cursor_raw E account query)"

definition client_chain_page ::
    "('t, 'w) client_env \<Rightarrow> generic_account \<Rightarrow> chain_query \<Rightarrow> (('t, 'w) client, block list) task" where
  "client_chain_page E account query =
     task_bind (client_chain_page_cursor E account query) (\<lambda>page. task_return (cp_blocks page))"

definition client_chain :: "('t, 'w) client_env \<Rightarrow> generic_account \<Rightarrow> (('t, 'w) client, block list) task" where
  "client_chain E account = client_chain_page E account chain_query_default"

definition client_chain_all ::
    "('t, 'w) client_env \<Rightarrow> generic_account \<Rightarrow> 32 word \<Rightarrow> (('t, 'w) client, block list) task" where
  "client_chain_all E account page_limit =
     with_address E account (\<lambda>account.
       drain_cursor_pages (\<lambda>cursor.
         task_bind (client_chain_page_cursor_raw E account
             \<lparr>cq_start = cursor, cq_end = None, cq_limit = Some (page_limit_value page_limit)\<rparr>) (\<lambda>page.
           task_return (cp_blocks page, cp_next_key page))) None [])"

definition client_history_page_cursor_raw ::
    "('t, 'w) client_env \<Rightarrow> string \<Rightarrow> history_query \<Rightarrow> (('t, 'w) client, history_page) task" where
  "client_history_page_cursor_raw E account query = dispatch_any E (\<lambda>t. nt_history_page (ce_transport E) t account query)"

definition client_history_page_cursor ::
    "('t, 'w) client_env \<Rightarrow> generic_account \<Rightarrow> history_query \<Rightarrow> (('t, 'w) client, history_page) task" where
  "client_history_page_cursor E account query =
     with_address E account (\<lambda>account. client_history_page_cursor_raw E account query)"

definition client_history_page ::
    "('t, 'w) client_env \<Rightarrow> generic_account \<Rightarrow> history_query \<Rightarrow> (('t, 'w) client, history_entry list) task" where
  "client_history_page E account query =
     task_bind (client_history_page_cursor E account query) (\<lambda>page. task_return (hp_entries page))"

definition client_history :: "('t, 'w) client_env \<Rightarrow> generic_account \<Rightarrow> (('t, 'w) client, history_entry list) task" where
  "client_history E account = client_history_page E account history_query_default"

definition client_history_all ::
    "('t, 'w) client_env \<Rightarrow> generic_account \<Rightarrow> 32 word \<Rightarrow> (('t, 'w) client, history_entry list) task" where
  "client_history_all E account page_limit =
     with_address E account (\<lambda>account.
       drain_cursor_pages (\<lambda>cursor.
         task_bind (client_history_page_cursor_raw E account
             \<lparr>hq_start = cursor, hq_limit = Some (page_limit_value page_limit)\<rparr>) (\<lambda>page.
           task_return (hp_entries page, hp_next_key page))) None [])"

definition client_global_history_page_cursor ::
    "('t, 'w) client_env \<Rightarrow> history_query \<Rightarrow> (('t, 'w) client, history_page) task" where
  "client_global_history_page_cursor E query = dispatch_any E (\<lambda>t. nt_global_history_page (ce_transport E) t query)"

definition client_global_history_page ::
    "('t, 'w) client_env \<Rightarrow> history_query \<Rightarrow> (('t, 'w) client, history_entry list) task" where
  "client_global_history_page E query =
     task_bind (client_global_history_page_cursor E query) (\<lambda>page. task_return (hp_entries page))"

definition client_global_history :: "('t, 'w) client_env \<Rightarrow> (('t, 'w) client, history_entry list) task" where
  "client_global_history E = client_global_history_page E history_query_default"

definition client_global_history_all ::
    "('t, 'w) client_env \<Rightarrow> 32 word \<Rightarrow> (('t, 'w) client, history_entry list) task" where
  "client_global_history_all E page_limit =
     drain_cursor_pages (\<lambda>cursor.
       task_bind (client_global_history_page_cursor E
           \<lparr>hq_start = cursor, hq_limit = Some (page_limit_value page_limit)\<rparr>) (\<lambda>page.
         task_return (hp_entries page, hp_next_key page))) None []"

section \<open>Reads over all representatives\<close>

record pending_tally =
  pt_blocks :: "bytes \<rightharpoonup> block"
  pt_observed :: "bytes list"
  pt_any_success :: bool
  pt_last_error :: "client_error option"

definition on_pending ::
    "'t rep_target \<Rightarrow> client_error + block option \<Rightarrow> pending_tally \<Rightarrow> ('t, 'w) client \<Rightarrow>
      ('t, 'w) client \<times> pending_tally \<times> bool" where
  "on_pending p r acc c =
     (case r of
        Inr (Some block) \<Rightarrow>
          (boost (pk_key p) c,
           acc\<lparr>pt_any_success := True,
               pt_blocks := (case pt_blocks acc (blk_hash block) of
                  Some _ \<Rightarrow> pt_blocks acc | None \<Rightarrow> (pt_blocks acc)(blk_hash block \<mapsto> block)),
               pt_observed := pt_observed acc @ [blk_hash block]\<rparr>, False)
      | Inr None \<Rightarrow> (boost (pk_key p) c, acc\<lparr>pt_any_success := True\<rparr>, False)
      | Inl e \<Rightarrow> (decay (pk_key p) c, acc\<lparr>pt_last_error := Some e\<rparr>, False))"

definition pending_result :: "pending_tally \<Rightarrow> client_error + block option" where
  "pending_result acc =
     (case Option.bind (most_common_hash (pt_observed acc)) (pt_blocks acc) of
        Some block \<Rightarrow> Ok (Some block)
      | None \<Rightarrow>
          if pt_any_success acc then Ok None
          else (case pt_last_error acc of Some e \<Rightarrow> Err e | None \<Rightarrow> Ok None))"

definition client_pending_block :: "('t, 'w) client_env \<Rightarrow> generic_account \<Rightarrow> (('t, 'w) client, block option) action" where
  "client_pending_block E account c =
     (let c = ensure_refresh c in
      case to_public_key_string (ce_crypto E) account of
        Inl e \<Rightarrow> (c, Err (CAccount e))
      | Inr account \<Rightarrow>
          let picks = snapshot_picks c in
          if picks = [] then (c, Err CNoRepresentatives)
          else
            let (c, acc) = drain E (\<lambda>p. nt_pending_block (ce_transport E) (pk_transport p) account) on_pending picks
                  \<lparr>pt_blocks = Map.empty, pt_observed = [], pt_any_success = False, pt_last_error = None\<rparr> c
            in (c, pending_result acc))"

fun first_staple ::
    "('t, 'w) client_env \<Rightarrow> bytes \<Rightarrow> ledger_side \<Rightarrow> client_error option \<Rightarrow> 't rep_target list \<Rightarrow>
      (('t, 'w) client, vote_staple option) action" where
  "first_staple E blockhash side last_error [] c =
     (c, case last_error of Some e \<Rightarrow> Err e | None \<Rightarrow> Ok None)"
| "first_staple E blockhash side last_error (p # ps) c =
     (case compose_staple_on E (pk_transport p) blockhash side c of
        (c, Inr (Some staple)) \<Rightarrow> (boost (pk_key p) c, Ok (Some staple))
      | (c, Inr None) \<Rightarrow> first_staple E blockhash side last_error ps (boost (pk_key p) c)
      | (c, Inl e) \<Rightarrow> first_staple E blockhash side (Some e) ps (decay (pk_key p) c))"

definition client_vote_staple ::
    "('t, 'w) client_env \<Rightarrow> bytes \<Rightarrow> ledger_side option \<Rightarrow> (('t, 'w) client, vote_staple option) action" where
  "client_vote_staple E blockhash side c =
     (let c = ensure_refresh c; picks = snapshot_picks c in
      if picks = [] then (c, Err CNoRepresentatives)
      else first_staple E blockhash (case side of Some s \<Rightarrow> s | None \<Rightarrow> SideMain) None picks c)"

section \<open>The representative set\<close>

definition fetch_rep_entries :: "('t, 'w) client_env \<Rightarrow> (('t, 'w) client, rep_entry list) task" where
  "fetch_rep_entries E =
     task_bind (client_representatives E) (\<lambda>reps.
       task_return (map (\<lambda>r. (account_to_string (ce_crypto E) (rep_account r), rep_weight r, rep_api_url r)) reps))"

fun join_with :: "'a list \<Rightarrow> 'a list list \<Rightarrow> 'a list" where
  "join_with sep [] = []"
| "join_with sep [x] = x"
| "join_with sep (x # y # ys) = x @ sep @ join_with sep (y # ys)"

definition saturating_sub :: "64 word \<Rightarrow> 64 word \<Rightarrow> 64 word" where
  "saturating_sub a b = (if a \<le> b then 0 else a - b)"

definition cached_representatives ::
    "('t, 'w) client_env \<Rightarrow> ('t, 'w) client \<Rightarrow> string \<Rightarrow> 64 word \<Rightarrow> rep_entry list option" where
  "cached_representatives E c signature ttl_ms =
     (case kc_cache c signature of
        None \<Rightarrow> None
      | Some (stored_at, reps) \<Rightarrow>
          if saturating_sub (rt_now_millis E (kc_world c)) stored_at < ttl_ms then Some reps else None)"

definition store_representatives ::
    "('t, 'w) client_env \<Rightarrow> string \<Rightarrow> rep_entry list \<Rightarrow> ('t, 'w) client \<Rightarrow> ('t, 'w) client" where
  "store_representatives E signature reps c =
     c\<lparr>kc_cache := (kc_cache c)(signature \<mapsto> (rt_now_millis E (kc_world c), reps))\<rparr>"

definition update_reps :: "('t, 'w) client_env \<Rightarrow> (('t, 'w) client, unit) task" where
  "update_reps E c =
     (let signature = join_with '','' (rep_sorted_keys (kc_reps c)) in
      case cached_representatives E c signature (cfg_reps_cache_ttl_ms (kc_config c)) of
        Some fetched \<Rightarrow> Some (apply_reps E fetched (cfg_discover_reps (kc_config c)) c, Ok ())
      | None \<Rightarrow>
          task_bind (fetch_rep_entries E) (\<lambda>entries c.
            Some (apply_reps E entries (cfg_discover_reps (kc_config c)) (store_representatives E signature entries c), Ok ())) c)"

definition discover_representatives :: "('t, 'w) client_env \<Rightarrow> (('t, 'w) client, unit) task" where
  "discover_representatives E =
     task_bind (fetch_rep_entries E) (\<lambda>entries c. Some (apply_reps E entries True c, Ok ()))"

definition first_rep_account ::
    "('t, 'w) client_env \<Rightarrow> ('t, 'w) client \<Rightarrow> client_error + generic_account option" where
  "first_rep_account E c =
     (case rep_snapshot (kc_reps c) of
        [] \<Rightarrow> Ok None
      | r # _ \<Rightarrow> map_err CAccount (map_sum id Some (account_from_str (ce_crypto E) (rf_key r))))"

section \<open>Addresses of the network\<close>

definition base_addresses ::
    "('t, 'w) client_env \<Rightarrow> ('t, 'w) client \<Rightarrow> client_error + generic_account \<times> generic_account" where
  "base_addresses E c =
     and_then (ok_or CUnsupportedNetwork (kc_network c)) (\<lambda>network.
     if network < 0 \<or> network \<ge> 2 ^ 64 then Err CUnsupportedNetwork
     else
     and_then (map_err CAccount (generate_network_address (ce_crypto E) (word_of_int network))) (\<lambda>network_account.
     and_then (map_err CAccount (generate_identifier (ce_crypto E) network_account TOKEN None 0)) (\<lambda>token.
       Ok (network_account, token))))"

definition base_token :: "('t, 'w) client_env \<Rightarrow> ('t, 'w) client \<Rightarrow> client_error + generic_account" where
  "base_token E c = and_then (base_addresses E c) (\<lambda>(_, token). Ok token)"

end
