(* ===== verification/ClientRounds.thy ===== *)
theory ClientRounds
  imports ClientReads
begin

text \<open>
  The client's write paths (\<open>client/src/client.rs\<close>): building over the ledger head, fee blocks, the
  two-round transmission with its retry loop, and the recovery of half-published accounts.
\<close>

section \<open>Building\<close>

text \<open>
  The builder's head lookups thread the client; a lookup that never returns leaves no client, and
  then the build never returns either.
\<close>

definition ledger_head :: "('t, 'w) client_env \<Rightarrow> ('t, 'w) client option head_lookup" where
  "ledger_head E account s =
     (case s of
        None \<Rightarrow> (None, Err CTimeout)
      | Some c \<Rightarrow>
          (case client_head_block E account c of
             None \<Rightarrow> (None, Err CTimeout)
           | Some (c, r) \<Rightarrow> (Some c, r)))"

definition client_clock :: "('t, 'w) client_env \<Rightarrow> ('t, 'w) client option \<Rightarrow> int" where
  "client_clock E s = (case s of None \<Rightarrow> 0 | Some c \<Rightarrow> rt_unix_millis E (kc_world c))"

definition builder_build ::
    "('t, 'w) client_env \<Rightarrow> pending_cells \<Rightarrow> tx_builder \<Rightarrow> ('t, 'w) client \<Rightarrow>
      (('t, 'w) client \<times> tx_builder \<times> pending_cells \<times> (client_error + block list)) option" where
  "builder_build E cells t c =
     (case tx_build (client_context E c) (client_clock E) (ledger_head E) cells t (Some c) of
        (s, t, cells, r) \<Rightarrow> map_option (\<lambda>c. (c, t, cells, r)) s)"

definition build_blocks :: "('t, 'w) client_env \<Rightarrow> tx_builder \<Rightarrow> (('t, 'w) client, block list) task" where
  "build_blocks E t c = map_option (\<lambda>(c, _, _, r). (c, r)) (builder_build E [] t c)"

definition client_builder :: "generic_account \<Rightarrow> tx_builder" where
  "client_builder account = tx_new account"

section \<open>Fee blocks\<close>

definition fee_operations ::
    "('t, 'w) client_env \<Rightarrow> vote list \<Rightarrow> generic_account list \<Rightarrow> ('t, 'w) client \<Rightarrow> client_error + send list" where
  "fee_operations E votes priority c =
     and_then (base_token E c) (\<lambda>base.
       Ok (List.map_filter (\<lambda>v. vote_fee_send (sl_vote (ce_staple E)) v base priority) votes))"

definition fee_builder ::
    "generic_account \<Rightarrow> generic_account \<Rightarrow> block list \<Rightarrow> int \<Rightarrow> send list \<Rightarrow> tx_builder" where
  "fee_builder account signer blocks moment sends =
     (let staple_tip = map_option blk_hash (find (\<lambda>b. account_eq (bd_account (blk_data b)) account) (rev blocks));
          t = client_builder account;
          t = (if \<not> account_eq signer account then for_account_with_signer account signer t else t);
          t = tx_with_date moment (tx_with_purpose Fee t);
          t = (case staple_tip of Some previous \<Rightarrow> tx_with_previous previous t | None \<Rightarrow> t)
      in fold (\<lambda>s. tx_with_operation (OpSend s)) sends t)"

definition fee_block_for ::
    "('t, 'w) client_env \<Rightarrow> generic_account \<Rightarrow> generic_account \<Rightarrow> block list \<Rightarrow> vote list \<Rightarrow> int \<Rightarrow>
      generic_account list \<Rightarrow> (('t, 'w) client, block) task" where
  "fee_block_for E account signer blocks votes moment priority c =
     task_bind (task_of (fee_operations E votes priority c)) (\<lambda>sends.
     task_bind (build_blocks E (fee_builder account signer blocks moment sends)) (\<lambda>fee_blocks.
       task_of (ok_or CFeeRequired (if fee_blocks = [] then None else Some (last fee_blocks))))) c"

definition build_fee_block ::
    "('t, 'w) client_env \<Rightarrow> vote_staple \<Rightarrow> generic_account \<Rightarrow> generic_account \<Rightarrow> generic_account list \<Rightarrow>
      (('t, 'w) client, block) task" where
  "build_fee_block E staple account signer priority c =
     fee_block_for E account signer (vs_blocks staple) (vs_votes staple) (client_now E c) priority c"

definition with_fee_block_from ::
    "('t, 'w) client_env \<Rightarrow> generic_account \<Rightarrow> generic_account \<Rightarrow> ('t, 'w) client transmit_options \<Rightarrow>
      ('t, 'w) client transmit_options" where
  "with_fee_block_from E account signer options =
     options\<lparr>to_generate_fee_block := Some (\<lambda>staple priority. build_fee_block E staple account signer priority)\<rparr>"

definition with_fee_signer ::
    "('t, 'w) client_env \<Rightarrow> generic_account \<Rightarrow> ('t, 'w) client transmit_options \<Rightarrow> ('t, 'w) client transmit_options" where
  "with_fee_signer E signer options = with_fee_block_from E signer signer options"

definition fee_block_from_options ::
    "('t, 'w) client_env \<Rightarrow> block list \<Rightarrow> vote list \<Rightarrow> int \<Rightarrow> ('t, 'w) client transmit_options \<Rightarrow>
      (('t, 'w) client, block) task" where
  "fee_block_from_options E blocks votes moment options =
     task_bind (task_of (ok_or CFeeRequired (to_generate_fee_block options))) (\<lambda>generate.
     task_bind (task_of (map_err CVote
         (vote_staple_try_new (ce_staple E) blocks votes default_vote_config moment))) (\<lambda>staple.
       generate staple (to_fee_token_priority options)))"

section \<open>Transmission\<close>

lemma unat_next:
  fixes a b :: "32 word"
  assumes "a < b"
  shows "unat (a + 1) = Suc (unat a)"
proof -
  have "unat b < 2 ^ LENGTH(32)" by (rule unsigned_less)
  then show ?thesis using assms by (simp add: unat_word_ariths word_less_nat_alt)
qed

lemma retries_decrease: "\<not> b \<le> a \<Longrightarrow> unat b - unat (a + 1) < unat b - unat a" for a b :: "32 word"
  using unat_next[of a b] by (simp add: not_le word_less_nat_alt)

definition with_fee_block ::
    "('t, 'w) client_env \<Rightarrow> block list \<Rightarrow> vote list \<Rightarrow> int \<Rightarrow> ('t, 'w) client transmit_options \<Rightarrow>
      (('t, 'w) client, block list) task" where
  "with_fee_block E blocks temporary moment options =
     (if votes_require_fee temporary
      then task_bind (fee_block_from_options E blocks temporary moment options) (\<lambda>fee_block.
             task_return (blocks @ [fee_block]))
      else task_return blocks)"

definition transmit_round ::
    "('t, 'w) client_env \<Rightarrow> block list \<Rightarrow> ('t, 'w) client transmit_options \<Rightarrow> (('t, 'w) client, bool) task" where
  "transmit_round E blocks options c =
     (let moment = client_now E c in
      task_bind (task_run (request_votes E blocks [] (to_quotes options))) (\<lambda>temporary.
      task_bind (with_fee_block E blocks temporary moment options) (\<lambda>all.
      task_bind (task_run (request_votes E all temporary [])) (\<lambda>permanent.
      task_bind (task_of (map_err CVote
          (vote_staple_try_new (ce_staple E) all permanent default_vote_config moment))) (\<lambda>staple.
        task_run (transmit_staple E staple))))) c)"

function transmit_loop ::
    "('t, 'w) client_env \<Rightarrow> block list \<Rightarrow> ('t, 'w) client transmit_options \<Rightarrow> 32 word \<Rightarrow> 64 word \<Rightarrow> 32 word \<Rightarrow>
      (('t, 'w) client, bool) task" where
  "transmit_loop E blocks options max_retries delay attempt c =
     (case transmit_round E blocks options c of
        None \<Rightarrow> None
      | Some (c, Inr accepted) \<Rightarrow> Some (c, Ok accepted)
      | Some (c, Inl e) \<Rightarrow>
          if \<not> is_ledger_code e ''LEDGER_INSUFFICIENT_VOTING_WEIGHT'' \<or> attempt \<ge> max_retries then Some (c, Err e)
          else transmit_loop E blocks options max_retries
                 (next_backoff delay (cfg_max_backoff_ms (kc_config c))) (attempt + 1)
                 (c\<lparr>kc_world := rt_sleep E delay (kc_world c)\<rparr>))"
  by pat_completeness auto
termination
  by (relation "measure (\<lambda>(E, blocks, options, max_retries, delay, attempt, c). unat max_retries - unat attempt)")
    (auto intro: retries_decrease)

declare transmit_loop.simps [simp del]

definition transmit_with_optional_fee ::
    "('t, 'w) client_env \<Rightarrow> block list \<Rightarrow> ('t, 'w) client transmit_options \<Rightarrow> (('t, 'w) client, bool) task" where
  "transmit_with_optional_fee E blocks options c =
     transmit_loop E blocks options (cfg_max_retries (kc_config c)) 1 0 c"

definition client_transmit ::
    "('t, 'w) client_env \<Rightarrow> block list \<Rightarrow> ('t, 'w) client transmit_options \<Rightarrow> (('t, 'w) client, bool) task" where
  "client_transmit E blocks options = transmit_with_optional_fee E blocks options"

definition client_publish ::
    "('t, 'w) client_env \<Rightarrow> block \<Rightarrow> ('t, 'w) client transmit_options \<Rightarrow> (('t, 'w) client, bool) task" where
  "client_publish E block options = transmit_with_optional_fee E [block] options"

fun publish_all ::
    "('t, 'w) client_env \<Rightarrow> ('t, 'w) client transmit_options \<Rightarrow> block list \<Rightarrow> (('t, 'w) client, bool) task" where
  "publish_all E options [] = task_return True"
| "publish_all E options (b # bs) =
     task_bind (client_publish E b options) (\<lambda>accepted.
       if accepted then publish_all E options bs else task_return False)"

definition client_send ::
    "('t, 'w) client_env \<Rightarrow> generic_account \<Rightarrow> generic_account \<Rightarrow> generic_account \<Rightarrow> int \<Rightarrow> (('t, 'w) client, bool) task" where
  "client_send E from_acc to_acc token amount =
     task_bind (build_blocks E (tx_send (Resolved to_acc) (Resolved token) amount (client_builder from_acc))) (\<lambda>blocks.
       publish_all E (with_fee_signer E from_acc transmit_options_default) blocks)"

section \<open>Recovery\<close>

record 't recovered_votes =
  rv_perm_votes :: "vote list"
  rv_temp_votes :: "vote list"
  rv_perm_keys :: "string list"
  rv_missing :: "'t rep_target list"

definition recovered_votes_default :: "'t recovered_votes" where
  "recovered_votes_default = \<lparr>rv_perm_votes = [], rv_temp_votes = [], rv_perm_keys = [], rv_missing = []\<rparr>"

definition recovered_block_hashes :: "'t recovered_votes \<Rightarrow> bytes list option" where
  "recovered_block_hashes votes =
     (case rv_perm_votes votes @ rv_temp_votes votes of [] \<Rightarrow> None | v # _ \<Rightarrow> Some (dv_blocks (vote_decoded v)))"

fun rep_recover_vote_on ::
    "('t, 'w) client_env \<Rightarrow> 't rep_target \<Rightarrow> bytes \<Rightarrow> ledger_side list \<Rightarrow> ('t, 'w) client \<Rightarrow> ('t, 'w) client \<times> vote option" where
  "rep_recover_vote_on E p h [] c = (c, None)"
| "rep_recover_vote_on E p h (side # sides) c =
     (case call_node (nt_block_votes (ce_transport E) (pk_transport p) h side) c of
        (c, Inr (Some votes)) \<Rightarrow>
          if votes = [] then rep_recover_vote_on E p h sides c
          else (case rep_vote (ce_crypto E) votes (pk_key p) (kc_single_rep c) of
                  Some v \<Rightarrow> (c, Some v)
                | None \<Rightarrow> rep_recover_vote_on E p h sides c)
      | (c, _) \<Rightarrow> rep_recover_vote_on E p h sides c)"

definition rep_recover_vote ::
    "('t, 'w) client_env \<Rightarrow> 't rep_target \<Rightarrow> bytes \<Rightarrow> ('t, 'w) client \<Rightarrow> ('t, 'w) client \<times> vote option" where
  "rep_recover_vote E p h = rep_recover_vote_on E p h [SideMain, SideSide]"

fun collect_recover_votes ::
    "('t, 'w) client_env \<Rightarrow> bytes \<Rightarrow> int \<Rightarrow> vote_config \<Rightarrow> 't rep_target list \<Rightarrow> 't recovered_votes \<Rightarrow>
      ('t, 'w) client \<Rightarrow> ('t, 'w) client \<times> 't recovered_votes" where
  "collect_recover_votes E h moment config [] votes c = (c, votes)"
| "collect_recover_votes E h moment config (p # ps) votes c =
     (case rep_recover_vote E p h c of
        (c, Some v) \<Rightarrow>
          if is_permanent_at (dv_validity (vote_decoded v)) moment config
          then collect_recover_votes E h moment config ps
                 (votes\<lparr>rv_perm_votes := rv_perm_votes votes @ [v], rv_perm_keys := rv_perm_keys votes @ [pk_key p]\<rparr>) c
          else collect_recover_votes E h moment config ps (votes\<lparr>rv_temp_votes := rv_temp_votes votes @ [v]\<rparr>) c
      | (c, None) \<Rightarrow>
          collect_recover_votes E h moment config ps (votes\<lparr>rv_missing := rv_missing votes @ [p]\<rparr>) c)"

fun first_block_on ::
    "('t, 'w) client_env \<Rightarrow> bytes \<Rightarrow> 't rep_target list \<Rightarrow> (('t, 'w) client, block option) action" where
  "first_block_on E h [] = act_return None"
| "first_block_on E h (p # ps) =
     act_bind (call_node (nt_block (ce_transport E) (pk_transport p) h (Some SideBoth))) (\<lambda>b.
       case b of Some block \<Rightarrow> act_return (Some block) | None \<Rightarrow> first_block_on E h ps)"

fun fetch_recover_blocks ::
    "('t, 'w) client_env \<Rightarrow> 't rep_target list \<Rightarrow> bytes list \<Rightarrow> (('t, 'w) client, block list) action" where
  "fetch_recover_blocks E picks [] = act_return []"
| "fetch_recover_blocks E picks (h # hs) =
     act_bind (first_block_on E h picks) (\<lambda>b.
       case b of
         None \<Rightarrow> (\<lambda>c. (c, Err CRecoverFailed))
       | Some block \<Rightarrow> act_bind (fetch_recover_blocks E picks hs) (\<lambda>bs. act_return (block # bs)))"

text \<open>Votes that could be collected; a failed collection adds none.\<close>

definition collected :: "client_error + vote list \<Rightarrow> vote list" where
  "collected r = (case r of Inr votes \<Rightarrow> votes | Inl _ \<Rightarrow> [])"

definition top_up_temporary ::
    "('t, 'w) client_env \<Rightarrow> 't rep_target list \<Rightarrow> 't recovered_votes \<Rightarrow> block list \<Rightarrow> ('t, 'w) client transmit_options \<Rightarrow>
      (('t, 'w) client, 't recovered_votes) task" where
  "top_up_temporary E picks votes blocks options =
     (if length (rv_temp_votes votes) \<noteq> length picks
      then task_try (task_run (request_votes_on E (rv_missing votes) blocks (rv_perm_votes votes) (to_quotes options)))
        (\<lambda>more. task_return (votes\<lparr>rv_temp_votes := rv_temp_votes votes @ collected more\<rparr>))
      else task_return votes)"

definition top_up_recover_votes ::
    "('t, 'w) client_env \<Rightarrow> 't rep_target list \<Rightarrow> 't recovered_votes \<Rightarrow> block list \<Rightarrow> int \<Rightarrow>
      ('t, 'w) client transmit_options \<Rightarrow> (('t, 'w) client, 't recovered_votes \<times> block list) task" where
  "top_up_recover_votes E picks votes blocks moment options =
     task_bind (top_up_temporary E picks votes blocks options) (\<lambda>votes.
     task_bind
       (if rv_perm_votes votes = [] \<and> votes_require_fee (rv_temp_votes votes)
        then task_bind (fee_block_from_options E blocks (rv_temp_votes votes) moment options) (\<lambda>fee_block.
               task_return (blocks @ [fee_block]))
        else task_return blocks) (\<lambda>blocks.
     let missing_perm = filter (\<lambda>p. pk_key p \<notin> set (rv_perm_keys votes)) picks
     in task_try (task_run (request_votes_on E missing_perm blocks
            (rv_temp_votes votes @ rv_perm_votes votes) (to_quotes options)))
          (\<lambda>more. task_return (votes\<lparr>rv_perm_votes := rv_perm_votes votes @ collected more\<rparr>, blocks))))"

definition recover_finish ::
    "('t, 'w) client_env \<Rightarrow> 't recovered_votes \<Rightarrow> block list \<Rightarrow> int \<Rightarrow> bool \<Rightarrow>
      (('t, 'w) client, vote_staple option) task" where
  "recover_finish E votes blocks moment publish =
     (if rv_perm_votes votes = [] then task_of (Err CRecoverFailed)
      else
        let staple_at = staple_moment (ce_chrono E) (rv_perm_votes votes) moment
        in task_bind (task_of (map_err CVote
              (vote_staple_try_new (ce_staple E) blocks (rv_perm_votes votes) default_vote_config staple_at))) (\<lambda>staple.
           if publish then task_bind (task_run (transmit_staple E staple)) (\<lambda>_. task_return (Some staple))
           else task_return (Some staple)))"

definition recover_account ::
    "('t, 'w) client_env \<Rightarrow> generic_account \<Rightarrow> bool \<Rightarrow> ('t, 'w) client transmit_options \<Rightarrow>
      (('t, 'w) client, vote_staple option) task" where
  "recover_account E account publish options c =
     task_bind (task_run (client_pending_block E account)) (\<lambda>successor.
       case successor of
         None \<Rightarrow> task_return None
       | Some block \<Rightarrow> (\<lambda>c.
           let picks = snapshot_picks c in
           if picks = [] then Some (c, Err CNoRepresentatives)
           else
             let moment = client_now E c;
                 (c, votes) = collect_recover_votes E (blk_hash block) moment default_vote_config picks
                   recovered_votes_default c
             in case recovered_block_hashes votes of
                  None \<Rightarrow> Some (c, Ok None)
                | Some hashes \<Rightarrow>
                    task_bind (task_run (fetch_recover_blocks E picks hashes)) (\<lambda>blocks.
                    task_bind
                      (if length (rv_perm_votes votes) \<noteq> length picks
                       then top_up_recover_votes E picks votes blocks moment options
                       else task_return (votes, blocks)) (\<lambda>(votes, blocks).
                    recover_finish E votes blocks moment publish)) c)) (ensure_refresh c)"

end
