(* ===== verification/ClientInv.thy ===== *)
theory ClientInv
  imports ClientRounds
begin

text \<open>
  Invariants of the shared client state.  The locale \<open>client_inv\<close> states what an invariant has to
  keep (changes of the world and of the cache, feedback on a representative, the refresh of the
  representative set); every operation of the client then keeps it.  It is interpreted on the
  two invariants of the code: each representative has a transport, and each score is a binary64
  value between the configured floor and one.
\<close>

section \<open>Actions and tasks that keep a predicate\<close>

named_theorems keeps

definition act_keeps :: "('c \<Rightarrow> bool) \<Rightarrow> ('c, 'a) action \<Rightarrow> bool" where
  "act_keeps P m \<longleftrightarrow> (\<forall>c. P c \<longrightarrow> P (fst (m c)))"

definition task_keeps :: "('c \<Rightarrow> bool) \<Rightarrow> ('c, 'a) task \<Rightarrow> bool" where
  "task_keeps P m \<longleftrightarrow> (\<forall>c c' r. P c \<longrightarrow> m c = Some (c', r) \<longrightarrow> P c')"

lemma act_keepsD: "act_keeps P m \<Longrightarrow> P c \<Longrightarrow> m c = (c', r) \<Longrightarrow> P c'"
  unfolding act_keeps_def by (metis fst_conv)

lemma act_keepsI: "(\<And>c c' r. P c \<Longrightarrow> m c = (c', r) \<Longrightarrow> P c') \<Longrightarrow> act_keeps P m"
  unfolding act_keeps_def by (metis prod.collapse)

lemma task_keepsD: "task_keeps P m \<Longrightarrow> P c \<Longrightarrow> m c = Some (c', r) \<Longrightarrow> P c'"
  unfolding task_keeps_def by blast

lemma act_return_keeps [keeps]: "act_keeps P (act_return x)"
  by (simp add: act_keeps_def act_return_def)

lemma pure_keeps [keeps]: "act_keeps P (\<lambda>c. (c, f c))"
  by (simp add: act_keeps_def)

lemma act_bind_keeps [keeps]:
  assumes "act_keeps P m" and "\<And>x. act_keeps P (f x)"
  shows "act_keeps P (act_bind m f)"
proof (rule act_keepsI)
  fix c c' r assume c: "P c" "act_bind m f c = (c', r)"
  obtain d s where d: "m c = (d, s)" by force
  then have "P d" using act_keepsD[OF assms(1) c(1)] by blast
  then show "P c'" using c(2) d act_keepsD[OF assms(2)] by (cases s) (auto simp: act_bind_def)
qed

lemma task_run_keeps [keeps]: "act_keeps P m \<Longrightarrow> task_keeps P (task_run m)"
  by (auto simp: task_keeps_def intro: act_keepsD)

lemma task_return_keeps [keeps]: "task_keeps P (task_return x)" "task_keeps P (task_of r)"
  by (simp_all add: task_keeps_def)

lemma task_bind_keeps [keeps]:
  assumes "task_keeps P m" and "\<And>x. task_keeps P (f x)"
  shows "task_keeps P (task_bind m f)"
  unfolding task_keeps_def
proof (intro allI impI)
  fix c c' r assume c: "P c" "task_bind m f c = Some (c', r)"
  then obtain d s where d: "m c = Some (d, s)" by (auto simp: task_bind_def split: option.splits)
  then have "P d" using task_keepsD[OF assms(1) c(1)] by blast
  then show "P c'" using c(2) d task_keepsD[OF assms(2)] by (cases s) (auto simp: task_bind_def)
qed

lemma task_try_keeps [keeps]:
  assumes "task_keeps P m" and "\<And>r. task_keeps P (f r)"
  shows "task_keeps P (task_try m f)"
  unfolding task_keeps_def
proof (intro allI impI)
  fix c c' r assume c: "P c" "task_try m f c = Some (c', r)"
  then obtain d s where d: "m c = Some (d, s)" by (auto simp: task_try_def split: option.splits)
  then have "P d" using task_keepsD[OF assms(1) c(1)] by blast
  then show "P c'" using c(2) d task_keepsD[OF assms(2)] by (simp add: task_try_def)
qed

section \<open>What every operation keeps\<close>

locale client_inv =
  fixes E :: "('t, 'w) client_env"
    and P :: "('t, 'w) client \<Rightarrow> bool"
  assumes world_inv: "P c \<Longrightarrow> P (c\<lparr>kc_world := w\<rparr>)"
    and cache_inv: "P c \<Longrightarrow> P (c\<lparr>kc_cache := m\<rparr>)"
    and refresh_inv: "P c \<Longrightarrow> P (c\<lparr>kc_refresh_started := b\<rparr>)"
    and network_inv: "P c \<Longrightarrow> P (c\<lparr>kc_network := n\<rparr>)"
    and subnet_inv: "P c \<Longrightarrow> P (c\<lparr>kc_subnet := n\<rparr>)"
    and boost_inv: "P c \<Longrightarrow> P (boost key c)"
    and decay_inv: "P c \<Longrightarrow> P (decay key c)"
    and apply_inv: "P c \<Longrightarrow> P (apply_reps E fetched discover c)"
begin

lemma ensure_refresh_inv: "P c \<Longrightarrow> P (ensure_refresh c)"
  by (simp add: ensure_refresh_def refresh_inv)

lemma call_node_keeps [keeps]: "act_keeps P (call_node request)"
  by (auto simp: act_keeps_def call_node_def world_inv split: prod.split)

lemma call_node_inv: "P c \<Longrightarrow> call_node request c = (c', r) \<Longrightarrow> P c'"
  by (rule act_keepsD[OF call_node_keeps])

lemma drain_inv:
  assumes "\<And>p r acc c. P c \<Longrightarrow> P (fst (handle p r acc c))" and "P c"
  shows "P (fst (drain E run handle ps acc c))"
  using assms(2)
proof (induction "length ps" arbitrary: ps acc c)
  case (Suc n)
  then obtain p qs where ps: "ps = p # qs" "length qs = n" by (cases ps) auto
  let ?i = "rt_next_ready E (kc_world c) (Suc n) mod Suc n"
  obtain c1 r where c1: "call_node (run (ps ! ?i)) c = (c1, r)" by force
  obtain c2 acc2 stop where c2: "handle (ps ! ?i) r acc c1 = (c2, acc2, stop)" by (metis prod_cases3)
  have "P c2" using assms(1)[of c1 "ps ! ?i" r acc] call_node_inv[OF Suc.prems c1] c2 by simp
  moreover have "n = length (remove_nth ?i ps)" using ps by (simp add: length_remove_nth)
  ultimately show ?case using Suc.hyps(1)[of "remove_nth ?i ps" c2] ps c1 c2 \<open>P c2\<close> by (simp add: Let_def)
qed simp

lemma drain_pair_inv:
  assumes "drain E run handle ps acc c = (c', acc')" and "P c"
    and "\<And>p r acc c. P c \<Longrightarrow> P (fst (handle p r acc c))"
  shows "P c'"
  using drain_inv[where run = run and handle = handle and ps = ps and acc = acc, OF assms(3,2)] assms(1) by simp

lemma handlers_inv:
  "P c \<Longrightarrow> P (fst (on_publish p r1 acc1 c))" "P c \<Longrightarrow> P (fst (on_vote p r2 acc2 c))"
  "P c \<Longrightarrow> P (fst (on_vote_lenient p r2 acc3 c))" "P c \<Longrightarrow> P (fst (on_quote a t th p r4 acc4 c))"
  "P c \<Longrightarrow> P (fst (on_pending p r5 acc5 c))"
  by (auto simp: on_publish_def on_vote_def on_vote_lenient_def on_quote_def on_pending_def Let_def
      boost_inv decay_inv split: sum.split prod.split option.split)

lemma transmit_staple_keeps [keeps]: "act_keeps P (transmit_staple E staple)"
  by (rule act_keepsI)
    (auto simp: transmit_staple_def Let_def ensure_refresh_inv handlers_inv elim!: drain_pair_inv
      split: prod.splits if_splits option.splits)

lemma request_votes_keeps [keeps]: "act_keeps P (request_votes E blocks prior quotes)"
  by (rule act_keepsI)
    (auto simp: request_votes_def Let_def ensure_refresh_inv handlers_inv elim!: drain_pair_inv
      split: prod.splits if_splits)

lemma request_votes_on_keeps [keeps]: "act_keeps P (request_votes_on E reps blocks prior quotes)"
  by (rule act_keepsI)
    (auto simp: request_votes_on_def handlers_inv elim!: drain_pair_inv split: prod.splits if_splits)

lemma request_quotes_keeps [keeps]: "act_keeps P (request_quotes E blocks collect_all)"
  by (rule act_keepsI)
    (auto simp: request_quotes_def Let_def ensure_refresh_inv handlers_inv elim!: drain_pair_inv
      split: prod.splits if_splits)

lemma pending_block_keeps [keeps]: "act_keeps P (client_pending_block E account)"
  by (rule act_keepsI)
    (auto simp: client_pending_block_def Let_def ensure_refresh_inv handlers_inv elim!: drain_pair_inv
      split: prod.splits if_splits sum.splits)

lemma fetch_blocks_on_keeps [keeps]: "act_keeps P (fetch_blocks_on E t side hs)"
  by (induction hs) (auto intro!: keeps split: option.split)

lemma compose_staple_on_keeps [keeps]: "act_keeps P (compose_staple_on E t h side)"
  unfolding compose_staple_on_def
  by (intro keeps) (auto intro!: keeps simp: Let_def split: option.split list.split)

lemma head_info_inv: "P c \<Longrightarrow> head_info E t account c = (c', h) \<Longrightarrow> P c'"
  by (auto simp: head_info_def split: prod.splits sum.splits dest: call_node_inv)

lemma collect_heads_inv: "P c \<Longrightarrow> collect_heads E account ps c = (c', hs) \<Longrightarrow> P c'"
  by (induction ps arbitrary: c hs) (auto split: prod.splits dest: head_info_inv)

lemma publish_lagging_inv: "P c \<Longrightarrow> P (publish_lagging E staple lowest hs c)"
  by (induction E staple lowest hs c rule: publish_lagging.induct)
    (auto simp: call_node_keeps[unfolded act_keeps_def, rule_format])

lemma sync_finish_keeps [keeps]: "act_keeps P (sync_finish E account publish heads staple)"
  by (rule act_keepsI)
    (auto simp: sync_finish_def Let_def dest: head_info_inv[rotated] intro: publish_lagging_inv
      split: if_splits prod.splits)

lemma sync_account_keeps [keeps]: "act_keeps P (sync_account E account publish)"
proof (rule act_keepsI)
  fix c c' r assume c: "P c" and sync: "sync_account E account publish c = (c', r)"
  let ?picks = "snapshot_picks (ensure_refresh c)" and ?key = "account_to_string (ce_crypto E) account"
  obtain c1 hs where c1: "collect_heads E ?key ?picks (ensure_refresh c) = (c1, hs)" by force
  have "P c1" using collect_heads_inv[OF ensure_refresh_inv[OF c] c1] .
  have rest: "act_keeps P (act_bind (call_node (nt_successor_block (ce_transport E) t h)) (\<lambda>successor.
      case successor of
        None \<Rightarrow> act_return None
      | Some block \<Rightarrow>
          act_bind (compose_staple_on E t (blk_hash block) SideMain) (\<lambda>staple.
            case staple of None \<Rightarrow> act_return None | Some staple \<Rightarrow> sync_finish E ?key publish heads staple)))" for t h heads
    by (auto intro!: keeps split: option.split)
  show "P c'"
    using sync c1 \<open>P c1\<close> act_keepsD[OF rest] ensure_refresh_inv[OF c]
    by (auto simp: sync_account_def Let_def split: if_splits)
qed

lemma sync_accounts_inv: "P c \<Longrightarrow> P (fst (sync_accounts E as synced c))"
proof (induction as arbitrary: synced c)
  case (Cons a as)
  show ?case
  proof (cases "account_from_str (ce_crypto E) a")
    case (Inr account)
    obtain d r where d: "sync_account E account True c = (d, r)" by force
    then have "P d" using act_keepsD[OF sync_account_keeps Cons.prems] by blast
    then show ?thesis using Cons.IH Inr d by (auto split: sum.split option.split)
  qed (use Cons in auto)
qed simp

lemma try_recover_inv: "P c \<Longrightarrow> try_recover_on_error E e c = (c', b) \<Longrightarrow> P c'"
  by (auto simp: try_recover_on_error_def split: client_error.splits keeta_net_error.splits)
    (metis fst_conv sync_accounts_inv)

lemma run_call_inv: "P c \<Longrightarrow> run_call E request c = (c', r) \<Longrightarrow> P c'"
  by (auto simp: run_call_def Let_def map_prod_def world_inv dest: call_node_inv split: if_splits option.splits prod.splits)

lemma dispatch_once_inv:
  assumes "P c" and "dispatch_once E request c = (c', d)"
  shows "P c'"
proof (cases "pick_target c")
  case (Some p)
  obtain c1 r where r: "run_call E (request (pk_transport p)) c = (c1, r)" by force
  have c1: "P c1" using run_call_inv[OF assms(1) r] .
  show ?thesis
  proof (cases r)
    case None
    then show ?thesis using assms(2) Some r c1 by (auto simp: dispatch_once_def decay_inv)
  next
    case (Some s)
    show ?thesis
    proof (cases s)
      case (Inl e)
      obtain c2 b where b: "try_recover_on_error E e c1 = (c2, b)" by force
      have "P c2" using try_recover_inv[OF c1 b] .
      then show ?thesis
        using assms(2) \<open>pick_target c = Some p\<close> r \<open>r = Some s\<close> Inl b
        by (cases b) (auto simp: dispatch_once_def decay_inv)
    next
      case (Inr x)
      then show ?thesis using assms(2) \<open>pick_target c = Some p\<close> r \<open>r = Some s\<close> c1
        by (auto simp: dispatch_once_def boost_inv)
    qed
  qed
qed (use assms in \<open>simp add: dispatch_once_def\<close>)

lemma dispatch_loop_inv:
  assumes "dispatch_loop E request delay attempt c = Some y" and "P c"
  shows "P (fst y)"
proof -
  have "E' = E \<longrightarrow> P c \<longrightarrow> P (fst y)"
    if "dispatch_loop E' request delay attempt c = Some y" for E' request delay attempt c y
  proof (induct rule: dispatch_loop.raw_induct[where P = "\<lambda>E' request delay attempt c y. E' = E \<longrightarrow> P c \<longrightarrow> P (fst y)", OF _ that])
    case (1 loop E' request delay attempt c y)
    show ?case
    proof (intro impI)
      assume e: "E' = E" and c: "P c"
      obtain d x where d: "dispatch_once E request c = (d, x)" by force
      have "P d" using dispatch_once_inv[OF c d] .
      then show "P (fst y)"
        using 1 d e world_inv[of d] by (cases x) (auto split: if_splits)
    qed
  qed
  then show ?thesis using assms by blast
qed

lemma dispatch_any_keeps [keeps]: "task_keeps P (dispatch_any E request)"
  unfolding task_keeps_def dispatch_any_def
  using dispatch_loop_inv ensure_refresh_inv by (metis fst_conv)

lemma head_block_keeps [keeps]: "task_keeps P (client_head_block E account)"
  unfolding client_head_block_def with_address_def by (intro keeps)

lemma update_reps_keeps [keeps]: "task_keeps P (update_reps E)"
proof -
  have "task_keeps P (fetch_rep_entries E)"
    unfolding fetch_rep_entries_def client_representatives_def by (intro keeps)
  moreover have "task_keeps P (\<lambda>c. Some (apply_reps E entries (cfg_discover_reps (kc_config c))
      (store_representatives E signature entries c), Inr ()))" for entries signature
    by (auto simp: task_keeps_def store_representatives_def intro: apply_inv cache_inv)
  ultimately have "task_keeps P (task_bind (fetch_rep_entries E) (\<lambda>entries c.
      Some (apply_reps E entries (cfg_discover_reps (kc_config c)) (store_representatives E signature entries c), Inr ())))"
    for signature by (intro task_bind_keeps)
  then show ?thesis
    unfolding task_keeps_def update_reps_def by (auto simp: Let_def apply_inv split: option.splits)
qed

lemma discover_keeps [keeps]: "task_keeps P (discover_representatives E)"
proof -
  have "task_keeps P (fetch_rep_entries E)"
    unfolding fetch_rep_entries_def client_representatives_def by (intro keeps)
  then show ?thesis unfolding discover_representatives_def
    by (intro task_bind_keeps) (auto simp: task_keeps_def apply_inv)
qed

lemma first_staple_inv: "P c \<Longrightarrow> P (fst (first_staple E h side last_error ps c))"
proof (induction ps arbitrary: c last_error)
  case (Cons p ps)
  obtain d r where d: "compose_staple_on E (pk_transport p) h side c = (d, r)" by force
  then have "P d" using act_keepsD[OF compose_staple_on_keeps Cons.prems] by blast
  then show ?case using Cons.IH d boost_inv decay_inv by (auto split: sum.split option.split)
qed simp

lemma vote_staple_keeps [keeps]: "act_keeps P (client_vote_staple E h side)"
  by (auto simp: act_keeps_def client_vote_staple_def Let_def ensure_refresh_inv first_staple_inv)

end

section \<open>Building threads the client\<close>

lemma build_groups_state:
  assumes "\<And>a s. Q s \<Longrightarrow> Q (fst (head_block a s))" and "Q s"
  shows "Q (fst (build_groups cl clock head_block t prevs cells s groups))"
  using assms(2)
proof (induction groups arbitrary: prevs cells s)
  case (Cons g groups)
  let ?key = "account_to_string (crypto (cl_block cl)) (grp_account g)"
  obtain s1 p where p: "(case prevs ?key of Some h \<Rightarrow> (s, Inr (Some h)) | None \<Rightarrow> first_previous head_block t (grp_account g) s) = (s1, p)"
    by force
  have "Q s1" using p Cons.prems assms(1)[of s "grp_account g"]
    by (auto simp: first_previous_def map_prod_def split: option.splits if_splits prod.splits)
  have IH: "Q s'" if "build_groups cl clock head_block t prevs cells s1 groups = (s', r)" for s' r prevs cells
    using Cons.IH[OF \<open>Q s1\<close>, of prevs cells] that by simp
  show ?case using p \<open>Q s1\<close> Cons.IH by (auto simp: Let_def split: sum.split prod.split dest: IH)
qed simp

context client_inv
begin

lemma builder_build_inv: "P c \<Longrightarrow> builder_build E cells t c = Some (c', x) \<Longrightarrow> P c'"
proof -
  assume c: "P c" and b: "builder_build E cells t c = Some (c', x)"
  let ?Q = "\<lambda>s. case s of Some c \<Rightarrow> P c | None \<Rightarrow> True"
  have "?Q (fst (ledger_head E a s))" if "?Q s" for a s
    using that task_keepsD[OF head_block_keeps, of _ a]
    by (auto simp: ledger_head_def split: option.splits)
  from build_groups_state[of ?Q "ledger_head E", OF this, of "Some c"] c show "P c'"
    using b by (auto simp: builder_build_def tx_build_def Let_def split: prod.splits) (metis fst_conv option.simps(5))
qed

lemma build_blocks_keeps [keeps]: "task_keeps P (build_blocks E t)"
  by (auto simp: task_keeps_def build_blocks_def dest: builder_build_inv)

lemma fee_block_for_keeps [keeps]: "task_keeps P (fee_block_for E account signer blocks votes moment priority)"
proof -
  have "task_keeps P (task_bind (task_of r) (\<lambda>sends.
      task_bind (build_blocks E (fee_builder account signer blocks moment sends)) (\<lambda>fee_blocks.
        task_of (ok_or CFeeRequired (if fee_blocks = [] then None else Some (last fee_blocks))))))" for r
    by (intro keeps)
  then show ?thesis unfolding task_keeps_def fee_block_for_def by blast
qed

lemma build_fee_block_keeps [keeps]: "task_keeps P (build_fee_block E staple account signer priority)"
  using fee_block_for_keeps unfolding task_keeps_def build_fee_block_def by blast

end

section \<open>Options whose factory keeps the invariant\<close>

definition options_keep :: "('c \<Rightarrow> bool) \<Rightarrow> 'c transmit_options \<Rightarrow> bool" where
  "options_keep P options \<longleftrightarrow>
     (\<forall>generate staple priority. to_generate_fee_block options = Some generate \<longrightarrow> task_keeps P (generate staple priority))"

context client_inv
begin

lemma fee_block_from_options_keeps:
  "options_keep P options \<Longrightarrow> task_keeps P (fee_block_from_options E blocks votes moment options)"
  unfolding fee_block_from_options_def
  by (cases "to_generate_fee_block options")
    (auto intro!: task_bind_keeps task_return_keeps simp: options_keep_def task_keeps_def[of P "task_bind _ _"] task_bind_def task_of_def
      dest: task_keepsD split: sum.splits)

lemma with_fee_signer_keep: "options_keep P (with_fee_signer E signer transmit_options_default)"
  by (simp add: options_keep_def with_fee_signer_def with_fee_block_from_def build_fee_block_keeps)

lemma transmit_round_keeps:
  assumes "options_keep P options"
  shows "task_keeps P (transmit_round E blocks options)"
proof -
  have "task_keeps P (task_bind (task_run (request_votes E blocks [] (to_quotes options))) (\<lambda>temporary.
      task_bind (with_fee_block E blocks temporary moment options) (\<lambda>all.
      task_bind (task_run (request_votes E all temporary [])) (\<lambda>permanent.
      task_bind (task_of (map_err CVote
          (vote_staple_try_new (ce_staple E) all permanent default_vote_config moment))) (\<lambda>staple.
        task_run (transmit_staple E staple))))))" for moment
    unfolding with_fee_block_def using fee_block_from_options_keeps[OF assms] by (intro keeps) (auto intro!: keeps)
  then show ?thesis unfolding task_keeps_def transmit_round_def Let_def by blast
qed

lemma transmit_loop_inv:
  assumes "options_keep P options" and "P c" and "transmit_loop E blocks options n delay attempt c = Some (c', r)"
  shows "P c'"
  using assms(2,3)
proof (induction "unat n - unat attempt" arbitrary: delay attempt c rule: less_induct)
  case less
  obtain d x where d: "transmit_round E blocks options c = Some (d, x)"
    using less.prems(2) by (subst (asm) transmit_loop.simps) (auto split: option.splits)
  have "P d" using task_keepsD[OF transmit_round_keeps[OF assms(1)] less.prems(1) d] .
  show ?case
  proof (cases "\<exists>e. x = Inl e \<and> is_ledger_code e ''LEDGER_INSUFFICIENT_VOTING_WEIGHT'' \<and> \<not> n \<le> attempt")
    case True
    then have "transmit_loop E blocks options n (next_backoff delay (cfg_max_backoff_ms (kc_config d))) (attempt + 1)
        (d\<lparr>kc_world := rt_sleep E delay (kc_world d)\<rparr>) = Some (c', r)"
      using less.prems(2) d by (subst (asm) transmit_loop.simps) auto
    then show ?thesis using less.hyps[OF retries_decrease world_inv[OF \<open>P d\<close>]] True by blast
  next
    case False
    then show ?thesis using less.prems(2) d \<open>P d\<close>
      by (subst (asm) transmit_loop.simps) (auto split: sum.splits if_splits)
  qed
qed

lemma transmit_keeps: "options_keep P options \<Longrightarrow> task_keeps P (transmit_with_optional_fee E blocks options)"
  unfolding task_keeps_def transmit_with_optional_fee_def using transmit_loop_inv by blast

lemma recover_vote_inv: "P c \<Longrightarrow> rep_recover_vote_on E p h sides c = (c', v) \<Longrightarrow> P c'"
proof (induction sides arbitrary: c)
  case (Cons side sides)
  obtain d r where d: "call_node (nt_block_votes (ce_transport E) (pk_transport p) h side) c = (d, r)" by force
  have "P d" using call_node_inv[OF Cons.prems(1) d] .
  then show ?case using Cons d by (auto split: sum.splits option.splits if_splits)
qed simp

lemma collect_recover_inv:
  "P c \<Longrightarrow> collect_recover_votes E h moment config ps votes c = (c', votes') \<Longrightarrow> P c'"
proof (induction ps arbitrary: c votes)
  case (Cons p ps)
  obtain d v where d: "rep_recover_vote E p h c = (d, v)" by force
  have "P d" using recover_vote_inv Cons.prems(1) d unfolding rep_recover_vote_def by blast
  then show ?case using Cons d by (auto split: option.splits if_splits)
qed simp

lemma first_block_on_keeps [keeps]: "act_keeps P (first_block_on E h ps)"
  by (induction ps) (auto intro!: keeps split: option.split)

lemma fetch_recover_blocks_keeps [keeps]: "act_keeps P (fetch_recover_blocks E picks hs)"
  by (induction hs) (auto intro!: keeps split: option.split)

lemma top_up_keeps:
  "options_keep P options \<Longrightarrow> task_keeps P (top_up_recover_votes E picks votes blocks moment options)"
  unfolding top_up_recover_votes_def top_up_temporary_def Let_def
  using fee_block_from_options_keeps[of options] by (intro keeps) (auto intro!: keeps)

lemma recover_finish_keeps [keeps]: "task_keeps P (recover_finish E votes blocks moment publish)"
  unfolding recover_finish_def Let_def by (auto intro!: keeps)

lemma recover_keeps:
  assumes "options_keep P options"
  shows "task_keeps P (recover_account E account publish options)"
  unfolding task_keeps_def
proof (intro allI impI)
  fix c c' r assume c: "P c" and rec: "recover_account E account publish options c = Some (c', r)"
  obtain c1 b where c1: "client_pending_block E account (ensure_refresh c) = (c1, b)" by force
  have "P c1" using act_keepsD[OF pending_block_keeps ensure_refresh_inv[OF c] c1] .
  let ?picks = "snapshot_picks c1"
  have rest: "task_keeps P (task_bind (task_run (fetch_recover_blocks E ?picks hashes)) (\<lambda>blocks.
      task_bind (if length (rv_perm_votes votes) \<noteq> length ?picks
         then top_up_recover_votes E ?picks votes blocks moment options else task_return (votes, blocks)) (\<lambda>(votes, blocks).
      recover_finish E votes blocks moment publish)))" for hashes votes moment
    using top_up_keeps[OF assms] by (intro keeps) (auto intro!: keeps split: prod.split)
  show "P c'"
  proof (cases "\<exists>block. b = Inr (Some block) \<and> ?picks \<noteq> []")
    case True
    then obtain block where b: "b = Inr (Some block)" "?picks \<noteq> []" by blast
    obtain c2 votes where c2: "collect_recover_votes E (blk_hash block) (client_now E c1) default_vote_config ?picks
        recovered_votes_default c1 = (c2, votes)" by force
    have "P c2" using collect_recover_inv[OF \<open>P c1\<close> c2] .
    then show ?thesis using rec c1 b c2 task_keepsD[OF rest]
      by (auto simp: recover_account_def task_bind_def[of "task_run (client_pending_block E account)"] task_run_def[of "client_pending_block E account"] Let_def
          split: option.splits)
  next
    case False
    then show ?thesis using rec c1 \<open>P c1\<close>
      by (auto simp: recover_account_def task_bind_def[of "task_run (client_pending_block E account)"] task_run_def[of "client_pending_block E account"] Let_def
          split: sum.splits option.splits)
  qed
qed

end

section \<open>The invariants of the code\<close>

definition transports_ok :: "('t, 'w) client \<Rightarrow> bool" where
  "transports_ok c \<longleftrightarrow> (\<forall>key \<in> set (map rr_key (kc_reps c)). kc_transports c key \<noteq> None)"

definition config_ok :: "client_config \<Rightarrow> bool" where
  "config_ok cfg \<longleftrightarrow>
     (case (cfg_reliability_floor cfg, cfg_reliability_increment cfg, cfg_reliability_decay cfg) of
        (Fin lo, Fin i, Fin d) \<Rightarrow> is_f64 lo \<and> 0 \<le> lo \<and> lo \<le> 1 \<and> 0 \<le> i \<and> 0 \<le> d \<and> d \<le> 1
      | _ \<Rightarrow> False)"

definition scores_ok :: "('t, 'w) client \<Rightarrow> bool" where
  "scores_ok c \<longleftrightarrow> config_ok (kc_config c) \<and>
     (case cfg_reliability_floor (kc_config c) of Fin lo \<Rightarrow> list_all (score_in lo) (kc_reps c) | _ \<Rightarrow> False)"

lemma config_okE:
  assumes "config_ok cfg"
  obtains lo i d where "cfg_reliability_floor cfg = Fin lo" "cfg_reliability_increment cfg = Fin i"
    "cfg_reliability_decay cfg = Fin d" "is_f64 lo" "0 \<le> lo" "lo \<le> 1" "0 \<le> i" "0 \<le> d" "d \<le> 1"
  using assms unfolding config_ok_def by (auto split: f64.splits)

lemma apply_rep_transports: "transports_ok c \<Longrightarrow> transports_ok (apply_rep E c entry)"
  by (auto simp: transports_ok_def apply_rep_def rep_add_def rep_record_new_def split: prod.split option.split)

lemma foldl_inv: "P c \<Longrightarrow> (\<And>c x. P c \<Longrightarrow> P (f c x)) \<Longrightarrow> P (foldl f c xs)"
  by (induction xs arbitrary: c) auto

interpretation transports: client_inv E transports_ok for E :: "('t, 'w) client_env"
proof unfold_locales
  fix c :: "('t, 'w) client" and fetched discover
  assume c: "transports_ok c"
  then have "transports_ok (c\<lparr>kc_reps := rep_update_weights (kc_reps c) ws\<rparr>)" for ws
    by (simp add: transports_ok_def flip: set_map)
  then show "transports_ok (apply_reps E fetched discover c)"
    by (simp add: apply_reps_def Let_def foldl_inv apply_rep_transports)
qed (simp_all add: transports_ok_def boost_def decay_def flip: set_map)

lemma apply_rep_scores: "scores_ok c \<Longrightarrow> scores_ok (apply_rep E c entry)"
  by (auto simp: scores_ok_def apply_rep_def rep_add_def rep_record_new_def score_in_def config_ok_def
      split: prod.split option.split f64.splits)

interpretation scores: client_inv E scores_ok for E :: "('t, 'w) client_env"
proof unfold_locales
  fix c :: "('t, 'w) client" and key fetched discover
  assume c: "scores_ok c"
  then have "config_ok (kc_config c)" by (simp add: scores_ok_def)
  then obtain lo i d where cfg: "cfg_reliability_floor (kc_config c) = Fin lo"
    "cfg_reliability_increment (kc_config c) = Fin i" "cfg_reliability_decay (kc_config c) = Fin d"
    "is_f64 lo" "0 \<le> lo" "lo \<le> 1" "0 \<le> i" "0 \<le> d" "d \<le> 1"
    by (elim config_okE)
  then have "list_all (score_in lo) (kc_reps c)" using c by (simp add: scores_ok_def)
  then show "scores_ok (boost key c)" "scores_ok (decay key c)"
    using c cfg boost_in[of lo "kc_reps c" i key] decay_in[of lo "kc_reps c" d key]
    by (simp_all add: scores_ok_def boost_def decay_def)
  have "scores_ok (c\<lparr>kc_reps := rep_update_weights (kc_reps c) ws\<rparr>)" for ws
    using c cfg by (simp add: scores_ok_def)
  then show "scores_ok (apply_reps E fetched discover c)"
    by (simp add: apply_reps_def Let_def foldl_inv apply_rep_scores)
qed (simp_all add: scores_ok_def split: f64.splits)

section \<open>Reachable clients\<close>

text \<open>A dispatched read changes the client in the same way whatever it answers, so its answer is dropped.\<close>

inductive client_step :: "('t, 'w) client_env \<Rightarrow> ('t, 'w) client \<Rightarrow> ('t, 'w) client \<Rightarrow> bool" for E where
  step_network: "client_step E c (client_with_network n c)"
| step_subnet: "client_step E c (client_with_subnet n c)"
| step_votes: "request_votes E blocks prior quotes c = (c', r) \<Longrightarrow> client_step E c c'"
| step_quotes: "request_quotes E blocks collect_all c = (c', r) \<Longrightarrow> client_step E c c'"
| step_publish: "transmit_staple E staple c = (c', r) \<Longrightarrow> client_step E c c'"
| step_pending: "client_pending_block E account c = (c', r) \<Longrightarrow> client_step E c c'"
| step_staple: "client_vote_staple E h side c = (c', r) \<Longrightarrow> client_step E c c'"
| step_sync: "sync_account E account publish c = (c', r) \<Longrightarrow> client_step E c c'"
| step_dispatch: "dispatch_any E (request :: 't \<Rightarrow> ('w, unit) request) c = Some (c', r) \<Longrightarrow> client_step E c c'"
| step_build: "build_blocks E t c = Some (c', r) \<Longrightarrow> client_step E c c'"
| step_transmit:
    "transmit_with_optional_fee E blocks (with_fee_signer E signer transmit_options_default) c = Some (c', r) \<Longrightarrow>
      client_step E c c'"
| step_recover:
    "recover_account E account publish (with_fee_signer E signer transmit_options_default) c = Some (c', r) \<Longrightarrow>
      client_step E c c'"
| step_refresh: "update_reps E c = Some (c', r) \<Longrightarrow> client_step E c c'"
| step_discover: "discover_representatives E c = Some (c', r) \<Longrightarrow> client_step E c c'"

inductive reachable_client ::
    "('t, 'w) client_env \<Rightarrow> ('t, 'w) client \<Rightarrow> ('t, 'w) client \<Rightarrow> bool" for E start where
  reach_start: "reachable_client E start start"
| reach_step: "reachable_client E start c \<Longrightarrow> client_step E c c' \<Longrightarrow> reachable_client E start c'"

context client_inv
begin

lemma with_network_inv: "P c \<Longrightarrow> P (client_with_network n c)" "P c \<Longrightarrow> P (client_with_subnet n c)"
  by (simp_all add: client_with_network_def client_with_subnet_def network_inv subnet_inv)

lemma step_inv: "client_step E c c' \<Longrightarrow> P c \<Longrightarrow> P c'"
  by (erule client_step.cases)
    (blast intro: with_network_inv act_keepsD[OF request_votes_keeps] act_keepsD[OF request_quotes_keeps] act_keepsD[OF transmit_staple_keeps]
      act_keepsD[OF pending_block_keeps] act_keepsD[OF vote_staple_keeps] act_keepsD[OF sync_account_keeps]
      task_keepsD[OF dispatch_any_keeps] task_keepsD[OF build_blocks_keeps]
      task_keepsD[OF transmit_keeps[OF with_fee_signer_keep]] task_keepsD[OF recover_keeps[OF with_fee_signer_keep]]
      task_keepsD[OF update_reps_keeps] task_keepsD[OF discover_keeps])+

lemma reachable_inv: "reachable_client E start c \<Longrightarrow> P start \<Longrightarrow> P c"
  by (induction rule: reachable_client.induct) (auto intro: step_inv)

end

end
