(* ===== verification/Genesis.thy ===== *)
theory Genesis
  imports ClientRounds
begin

text \<open>
  The bootstrap of a new network (\<open>client/src/genesis.rs\<close>).  The base64 engine is an argument; the
  clock of the staple builder is the argument \<open>clock\<close>, absent in builds without \<open>std\<close>.
\<close>

definition PERMANENT_SPAN_MS :: int where
  "PERMANENT_SPAN_MS = 200 * 365 * 86400 * 1000"

record base_token_info =
  bti_name :: rust_string
  bti_currency_code :: rust_string
  bti_decimal_places :: "32 word"
  bti_default_permission :: "permissions option"

record base_network_info =
  bni_name :: "rust_string option"
  bni_description :: "rust_string option"
  bni_metadata :: "rust_string option"
  bni_default_permission :: "permissions option"

record initialize_network =
  in_add_supply_amount :: int
  in_delegate_to :: "generic_account option"
  in_vote_serial :: "int option"
  in_base_token_info :: "base_token_info option"
  in_base_network_info :: "base_network_info option"

definition utf8_literal :: "string \<Rightarrow> rust_string" where
  "utf8_literal s = map of_char s"

fun decimal :: "nat \<Rightarrow> rust_string" where
  "decimal n = (if n < 10 then [word_of_nat (48 + n)] else decimal (n div 10) @ [word_of_nat (48 + n mod 10)])"

declare decimal.simps [simp del]

definition permission_of :: "base_flag list \<Rightarrow> client_error + permissions" where
  "permission_of flags = map_err CBlock (permissions_from_flags flags [])"

definition owner_permission :: "generic_account \<Rightarrow> client_error + operation" where
  "owner_permission holder =
     and_then (permission_of [Owner]) (\<lambda>permissions.
       Ok (OpModifyPermissions
         \<lparr>mp_principal = PrincipalAccount holder, mp_method = SetMethod, mp_permissions = Some permissions,
          mp_target = None\<rparr>))"

definition token_metadata :: "(rust_string \<Rightarrow> rust_string) \<Rightarrow> base_token_info \<Rightarrow> rust_string" where
  "token_metadata base64_encode info =
     base64_encode (utf8_literal ''{\"decimalPlaces\":'' @ decimal (unat (bti_decimal_places info)) @ utf8_literal ''}'')"

definition network_address_ops :: "generic_account \<Rightarrow> initialize_network \<Rightarrow> client_error + operation list" where
  "network_address_ops trusted options =
     (let info = (case in_base_network_info options of
            Some info \<Rightarrow> info
          | None \<Rightarrow> \<lparr>bni_name = None, bni_description = None, bni_metadata = None, bni_default_permission = None\<rparr>) in
      and_then (case bni_default_permission info of
          Some p \<Rightarrow> Ok p | None \<Rightarrow> permission_of [StorageCreate]) (\<lambda>default_permission.
      and_then (owner_permission trusted) (\<lambda>owner.
        Ok [owner, OpSetInfo
          \<lparr>info_name = (case bni_name info of Some s \<Rightarrow> s | None \<Rightarrow> utf8_literal ''KEETANET''),
           info_description = (case bni_description info of
              Some s \<Rightarrow> s | None \<Rightarrow> utf8_literal ''Network Address For KeetaNet''),
           info_metadata = (case bni_metadata info of Some s \<Rightarrow> s | None \<Rightarrow> []),
           info_default_permission = Some default_permission\<rparr>])))"

definition base_token_ops ::
    "(rust_string \<Rightarrow> rust_string) \<Rightarrow> generic_account \<Rightarrow> initialize_network \<Rightarrow> client_error + operation list" where
  "base_token_ops base64_encode trusted options =
     (let token = in_base_token_info options in
      and_then (case Option.bind token bti_default_permission of
          Some p \<Rightarrow> Ok p | None \<Rightarrow> permission_of [Access]) (\<lambda>default_permission.
      and_then (owner_permission trusted) (\<lambda>owner.
        Ok [owner,
          OpSetInfo
            \<lparr>info_name = (case token of Some info \<Rightarrow> bti_currency_code info | None \<Rightarrow> []),
             info_description = (case token of Some info \<Rightarrow> bti_name info | None \<Rightarrow> []),
             info_metadata = (case token of Some info \<Rightarrow> token_metadata base64_encode info | None \<Rightarrow> []),
             info_default_permission = Some default_permission\<rparr>,
          OpTokenAdminSupply \<lparr>tas_amount = in_add_supply_amount options, tas_method = Add\<rparr>])))"

definition balance_ops :: "generic_account \<Rightarrow> initialize_network \<Rightarrow> operation list" where
  "balance_ops base options =
     [OpTokenAdminModifyBalance \<lparr>tamb_token = base, tamb_amount = in_add_supply_amount options, tamb_method = Add\<rparr>]"

definition set_rep_ops :: "generic_account \<Rightarrow> operation list" where
  "set_rep_ops delegate_to = [OpSetRep \<lparr>set_rep_to = delegate_to\<rparr>]"

definition permanent_vote ::
    "('t, 'w) client_env \<Rightarrow> int \<Rightarrow> generic_account \<Rightarrow> bytes list \<Rightarrow> initialize_network \<Rightarrow> client_error + vote" where
  "permanent_vote E from_ms trusted hashes options =
     (let serial = (case in_vote_serial options of Some n \<Rightarrow> n | None \<Rightarrow> 0);
          span_end = sat64 (from_ms + PERMANENT_SPAN_MS);
          to_ms = (case block_time_from_unix_millis (ce_chrono E) span_end of Some t \<Rightarrow> t | None \<Rightarrow> from_ms)
      in map_err CVote (build_signed_vote (ce_chrono E) (sl_vote (ce_staple E))
           (add_block_hashes hashes (set_validity from_ms to_ms (set_serial serial (set_issuer trusted vote_builder_new))))
           trusted))"

definition genesis_seal ::
    "client_ctx \<Rightarrow> generic_account \<Rightarrow> generic_account \<Rightarrow> bytes option \<Rightarrow> operation list \<Rightarrow> client_error + block" where
  "genesis_seal cl account signer previous operations = seal_block cl account signer previous None None operations"

definition genesis_blocks ::
    "('t, 'w) client_env \<Rightarrow> (rust_string \<Rightarrow> rust_string) \<Rightarrow> generic_account \<Rightarrow> generic_account \<Rightarrow> generic_account \<Rightarrow>
      initialize_network \<Rightarrow> ('t, 'w) client \<Rightarrow> client_error + block list" where
  "genesis_blocks E base64_encode trusted recipient delegate_to options c =
     (let cl = client_context E c in
      and_then (base_addresses E c) (\<lambda>(network_address, base).
      and_then (network_address_ops trusted options) (\<lambda>network_operations.
      and_then (genesis_seal cl network_address trusted None network_operations) (\<lambda>network_block.
      and_then (base_token_ops base64_encode trusted options) (\<lambda>token_operations.
      and_then (genesis_seal cl base trusted None token_operations) (\<lambda>base_token_block.
      and_then (genesis_seal cl recipient trusted None (balance_ops base options)) (\<lambda>balance_block.
      and_then (genesis_seal cl recipient recipient (Some (blk_hash balance_block)) (set_rep_ops delegate_to)) (\<lambda>set_rep_block.
        Ok [network_block, base_token_block, balance_block, set_rep_block]))))))))"

definition generate_initial_vote_staple ::
    "('t, 'w) client_env \<Rightarrow> (rust_string \<Rightarrow> rust_string) \<Rightarrow> int option \<Rightarrow> generic_account \<Rightarrow> generic_account \<Rightarrow>
      generic_account \<Rightarrow> initialize_network \<Rightarrow> ('t, 'w) client \<Rightarrow> client_error + vote_staple" where
  "generate_initial_vote_staple E base64_encode clock trusted recipient delegate_to options c =
     and_then (genesis_blocks E base64_encode trusted recipient delegate_to options c) (\<lambda>blocks.
     and_then (permanent_vote E (client_now E c) trusted (map blk_hash blocks) options) (\<lambda>vote.
       map_err CVote (build_vote_staple (ce_staple E) clock
         (staple_add_vote vote (staple_add_blocks blocks vote_staple_builder_new)))))"

end
