(* ===== verification/UserClient.thy ===== *)
theory UserClient
  imports Genesis
begin

text \<open>
  The signer-bound facade (\<open>client/src/user.rs\<close>) with its swap requests (\<open>client/src/swap.rs\<close>): the
  bound accounts, publication with rebuild after a conflict, identifiers, genesis, swaps, and the
  operations of a staple that involve an account.
\<close>

section \<open>Bound accounts\<close>

record user_client =
  uc_account :: "generic_account option"
  uc_signer :: "generic_account option"

definition MAX_REBUILD_RETRIES :: nat where
  "MAX_REBUILD_RETRIES = 2"

definition user_from_parts :: "generic_account option \<Rightarrow> user_client" where
  "user_from_parts signer = \<lparr>uc_account = None, uc_signer = signer\<rparr>"

definition user_with_account :: "generic_account \<Rightarrow> user_client \<Rightarrow> user_client" where
  "user_with_account account u = u\<lparr>uc_account := Some account\<rparr>"

definition account_or :: "user_client \<Rightarrow> generic_account option \<Rightarrow> client_error + generic_account" where
  "account_or u account =
     (case account of
        Some a \<Rightarrow> Ok a
      | None \<Rightarrow> (case uc_account u of
          Some a \<Rightarrow> Ok a
        | None \<Rightarrow> (case uc_signer u of Some s \<Rightarrow> Ok s | None \<Rightarrow> Err CSignerRequired)))"

definition user_account :: "user_client \<Rightarrow> client_error + generic_account" where
  "user_account u = account_or u None"

definition is_read_only :: "user_client \<Rightarrow> bool" where
  "is_read_only u \<longleftrightarrow> uc_signer u = None"

definition user_signer :: "user_client \<Rightarrow> client_error + generic_account" where
  "user_signer u = ok_or CSignerRequired (uc_signer u)"

definition signed_builder :: "crypto_lib \<Rightarrow> user_client \<Rightarrow> client_error + tx_builder" where
  "signed_builder L u =
     and_then (user_signer u) (\<lambda>signer.
     and_then (account_or u None) (\<lambda>account.
       let t = client_builder account
       in Ok (if account_to_string L account \<noteq> account_to_string L signer
              then for_account_with_signer account signer t else t)))"

section \<open>Reads of the operating account\<close>

definition operating ::
    "user_client \<Rightarrow> (generic_account \<Rightarrow> (('t, 'w) client, 'a) task) \<Rightarrow> (('t, 'w) client, 'a) task" where
  "operating u f = task_bind (task_of (account_or u None)) f"

definition user_balance ::
    "('t, 'w) client_env \<Rightarrow> user_client \<Rightarrow> generic_account \<Rightarrow> (('t, 'w) client, int) task" where
  "user_balance E u token = operating u (\<lambda>account. client_balance E account token)"

definition user_all_balances ::
    "('t, 'w) client_env \<Rightarrow> user_client \<Rightarrow> (('t, 'w) client, token_balance list) task" where
  "user_all_balances E u = operating u (\<lambda>account. client_balances E account)"

definition user_state ::
    "('t, 'w) client_env \<Rightarrow> user_client \<Rightarrow> (('t, 'w) client, account_state) task" where
  "user_state E u = operating u (\<lambda>account. client_state E account)"

definition user_head ::
    "('t, 'w) client_env \<Rightarrow> user_client \<Rightarrow> (('t, 'w) client, block option) task" where
  "user_head E u = operating u (\<lambda>account. client_head_block E account)"

definition user_chain ::
    "('t, 'w) client_env \<Rightarrow> user_client \<Rightarrow> (('t, 'w) client, block list) task" where
  "user_chain E u = operating u (\<lambda>account. client_chain E account)"

definition user_chain_page ::
    "('t, 'w) client_env \<Rightarrow> user_client \<Rightarrow> chain_query \<Rightarrow> (('t, 'w) client, block list) task" where
  "user_chain_page E u query = operating u (\<lambda>account. client_chain_page E account query)"

definition user_chain_all ::
    "('t, 'w) client_env \<Rightarrow> user_client \<Rightarrow> 32 word \<Rightarrow> (('t, 'w) client, block list) task" where
  "user_chain_all E u page_limit = operating u (\<lambda>account. client_chain_all E account page_limit)"

definition user_history ::
    "('t, 'w) client_env \<Rightarrow> user_client \<Rightarrow> (('t, 'w) client, history_entry list) task" where
  "user_history E u = operating u (\<lambda>account. client_history E account)"

definition user_history_all ::
    "('t, 'w) client_env \<Rightarrow> user_client \<Rightarrow> 32 word \<Rightarrow> (('t, 'w) client, history_entry list) task" where
  "user_history_all E u page_limit = operating u (\<lambda>account. client_history_all E account page_limit)"

definition user_history_page ::
    "('t, 'w) client_env \<Rightarrow> user_client \<Rightarrow> history_query \<Rightarrow> (('t, 'w) client, history_entry list) task" where
  "user_history_page E u query = operating u (\<lambda>account. client_history_page E account query)"

definition user_pending_block ::
    "('t, 'w) client_env \<Rightarrow> user_client \<Rightarrow> (('t, 'w) client, block option) task" where
  "user_pending_block E u = operating u (\<lambda>account. task_run (client_pending_block E account))"

definition user_acls ::
    "('t, 'w) client_env \<Rightarrow> user_client \<Rightarrow> (('t, 'w) client, acl list) task" where
  "user_acls E u = operating u (\<lambda>account. client_acls_by_principal E account)"

definition user_acls_by_entity ::
    "('t, 'w) client_env \<Rightarrow> user_client \<Rightarrow> (('t, 'w) client, acl list) task" where
  "user_acls_by_entity E u = operating u (\<lambda>account. client_acls_by_entity E account)"

definition user_block_from_idempotent ::
    "('t, 'w) client_env \<Rightarrow> user_client \<Rightarrow> string \<Rightarrow> ledger_side option \<Rightarrow> (('t, 'w) client, block option) task" where
  "user_block_from_idempotent E u key side = operating u (\<lambda>account. client_block_by_idempotent E account key side)"

definition user_certificates ::
    "('t, 'w) client_env \<Rightarrow> user_client \<Rightarrow> (('t, 'w) client, certificate_chain list) task" where
  "user_certificates E u = operating u (\<lambda>account. client_certificates E account)"

definition user_certificate ::
    "('t, 'w) client_env \<Rightarrow> user_client \<Rightarrow> bytes \<Rightarrow> (('t, 'w) client, certificate_chain option) task" where
  "user_certificate E u hash = operating u (\<lambda>account. client_certificate E account hash)"

definition user_block ::
    "('t, 'w) client_env \<Rightarrow> user_client \<Rightarrow> bytes \<Rightarrow> ledger_side option \<Rightarrow> (('t, 'w) client, block option) task" where
  "user_block E u blockhash side = client_block E blockhash side"

definition user_quotes ::
    "('t, 'w) client_env \<Rightarrow> user_client \<Rightarrow> block list \<Rightarrow> (('t, 'w) client, vote_quote list) task" where
  "user_quotes E u blocks = task_run (client_quotes E blocks)"

definition init_builder :: "crypto_lib \<Rightarrow> user_client \<Rightarrow> client_error + tx_builder" where
  "init_builder L u = signed_builder L u"

section \<open>Publication\<close>

definition or_default_fee_payer ::
    "('t, 'w) client_env \<Rightarrow> user_client \<Rightarrow> ('t, 'w) client transmit_options \<Rightarrow>
      client_error + ('t, 'w) client transmit_options" where
  "or_default_fee_payer E u options =
     (if to_generate_fee_block options \<noteq> None then Ok options
      else and_then (user_signer u) (\<lambda>signer. Ok (with_fee_signer E signer options)))"

definition user_publish ::
    "('t, 'w) client_env \<Rightarrow> user_client \<Rightarrow> block \<Rightarrow> ('t, 'w) client transmit_options \<Rightarrow> (('t, 'w) client, bool) task" where
  "user_publish E u block options =
     task_bind (task_of (or_default_fee_payer E u options)) (client_publish E block)"

definition user_transmit ::
    "('t, 'w) client_env \<Rightarrow> user_client \<Rightarrow> block list \<Rightarrow> ('t, 'w) client transmit_options \<Rightarrow> (('t, 'w) client, bool) task" where
  "user_transmit E u blocks options =
     task_bind (task_of (or_default_fee_payer E u options)) (client_transmit E blocks)"

definition user_recover ::
    "('t, 'w) client_env \<Rightarrow> user_client \<Rightarrow> bool \<Rightarrow> (('t, 'w) client, vote_staple option) task" where
  "user_recover E u publish =
     task_bind (task_of (account_or u None)) (\<lambda>account.
       recover_account E account publish
         (case uc_signer u of
            Some signer \<Rightarrow> with_fee_signer E signer transmit_options_default
          | None \<Rightarrow> transmit_options_default))"

definition user_sync ::
    "('t, 'w) client_env \<Rightarrow> user_client \<Rightarrow> bool \<Rightarrow> (('t, 'w) client, vote_staple option) task" where
  "user_sync E u publish =
     task_bind (task_of (account_or u None)) (\<lambda>account. task_run (sync_account E account publish))"

definition originate ::
    "('t, 'w) client_env \<Rightarrow> user_client \<Rightarrow> block list \<Rightarrow> (('t, 'w) client, bool) task" where
  "originate E u blocks =
     task_bind (task_of (user_signer u)) (\<lambda>signer.
       publish_all E (with_fee_signer E signer transmit_options_default) blocks)"

definition build_signed ::
    "('t, 'w) client_env \<Rightarrow> user_client \<Rightarrow> (tx_builder \<Rightarrow> tx_builder) \<Rightarrow> (('t, 'w) client, block list) task" where
  "build_signed E u assemble =
     task_bind (task_of (signed_builder (ce_crypto E) u)) (\<lambda>t. build_blocks E (assemble t))"

function build_and_publish_loop ::
    "('t, 'w) client_env \<Rightarrow> user_client \<Rightarrow> (tx_builder \<Rightarrow> tx_builder) \<Rightarrow> nat \<Rightarrow> (('t, 'w) client, bool) task" where
  "build_and_publish_loop E u assemble attempt c =
     (case build_signed E u assemble c of
        None \<Rightarrow> None
      | Some (c, Inl e) \<Rightarrow> Some (c, Err e)
      | Some (c, Inr blocks) \<Rightarrow>
          (case originate E u blocks c of
             None \<Rightarrow> None
           | Some (c, Inr accepted) \<Rightarrow> Some (c, Ok accepted)
           | Some (c, Inl e) \<Rightarrow>
               if \<not> is_ledger_code e ''LEDGER_SUCCESSOR_VOTE_EXISTS'' \<or> attempt \<ge> MAX_REBUILD_RETRIES
               then Some (c, Err e)
               else (case user_recover E u True c of
                       None \<Rightarrow> None
                     | Some (c, Inl e') \<Rightarrow> Some (c, Err e')
                     | Some (c, Inr None) \<Rightarrow> Some (c, Err e)
                     | Some (c, Inr (Some _)) \<Rightarrow> build_and_publish_loop E u assemble (attempt + 1) c)))"
  by pat_completeness auto
termination
  by (relation "measure (\<lambda>(E, u, assemble, attempt, c). MAX_REBUILD_RETRIES - attempt)") auto

declare build_and_publish_loop.simps [simp del]

definition build_and_publish ::
    "('t, 'w) client_env \<Rightarrow> user_client \<Rightarrow> (tx_builder \<Rightarrow> tx_builder) \<Rightarrow> (('t, 'w) client, bool) task" where
  "build_and_publish E u assemble = build_and_publish_loop E u assemble 0"

definition user_send ::
    "('t, 'w) client_env \<Rightarrow> user_client \<Rightarrow> generic_account \<Rightarrow> generic_account \<Rightarrow> int \<Rightarrow> (('t, 'w) client, bool) task" where
  "user_send E u to_acc token amount = build_and_publish E u (tx_send (Resolved to_acc) (Resolved token) amount)"

definition user_send_external ::
    "('t, 'w) client_env \<Rightarrow> user_client \<Rightarrow> generic_account \<Rightarrow> generic_account \<Rightarrow> int \<Rightarrow> rust_string \<Rightarrow>
      (('t, 'w) client, bool) task" where
  "user_send_external E u to_acc token amount external =
     build_and_publish E u (tx_send_external (Resolved to_acc) (Resolved token) amount external)"

definition user_set_rep ::
    "('t, 'w) client_env \<Rightarrow> user_client \<Rightarrow> generic_account \<Rightarrow> (('t, 'w) client, bool) task" where
  "user_set_rep E u rep = build_and_publish E u (tx_set_rep rep)"

definition user_set_info ::
    "('t, 'w) client_env \<Rightarrow> user_client \<Rightarrow> set_info \<Rightarrow> (('t, 'w) client, bool) task" where
  "user_set_info E u info = build_and_publish E u (tx_set_info info)"

definition user_update_permissions ::
    "('t, 'w) client_env \<Rightarrow> user_client \<Rightarrow> modify_permissions \<Rightarrow> (('t, 'w) client, bool) task" where
  "user_update_permissions E u permissions = build_and_publish E u (tx_modify_permissions permissions)"

definition user_modify_certificate ::
    "('t, 'w) client_env \<Rightarrow> user_client \<Rightarrow> manage_certificate \<Rightarrow> (('t, 'w) client, bool) task" where
  "user_modify_certificate E u certificate = build_and_publish E u (tx_manage_certificate certificate)"

definition supply_and_balance ::
    "crypto_lib \<Rightarrow> generic_account \<Rightarrow> generic_account \<Rightarrow> generic_account \<Rightarrow> int \<Rightarrow> adjust_method \<Rightarrow>
      tx_builder \<Rightarrow> tx_builder" where
  "supply_and_balance L signer token holder amount adjust t =
     (let distinct_holder = (account_to_string L holder \<noteq> account_to_string L token) in
      if adjust = Subtract then
        let t = for_account_with_signer holder signer t;
            t = tx_modify_token_balance (Resolved token) amount adjust t;
            t = (if distinct_holder then for_account_with_signer token signer t else t)
        in tx_modify_token_supply amount adjust t
      else
        let t = for_account_with_signer token signer t;
            t = tx_modify_token_supply amount adjust t;
            t = (if distinct_holder then for_account_with_signer holder signer t else t)
        in tx_modify_token_balance (Resolved token) amount adjust t)"

definition user_modify_token_supply_and_balance ::
    "('t, 'w) client_env \<Rightarrow> user_client \<Rightarrow> generic_account \<Rightarrow> generic_account option \<Rightarrow> int \<Rightarrow> adjust_method \<Rightarrow>
      (('t, 'w) client, bool) task" where
  "user_modify_token_supply_and_balance E u token holder amount adjust =
     task_bind (task_of (user_signer u)) (\<lambda>signer.
     task_bind (task_of (case holder of Some h \<Rightarrow> Ok h | None \<Rightarrow> account_or u None)) (\<lambda>holder.
       build_and_publish E u (supply_and_balance (ce_crypto E) signer token holder amount adjust)))"

definition user_generate_identifier ::
    "('t, 'w) client_env \<Rightarrow> user_client \<Rightarrow> keypair_type \<Rightarrow> identifier_create_arguments option \<Rightarrow>
      (('t, 'w) client, generic_account) task" where
  "user_generate_identifier E u key_type create_arguments c =
     task_bind (task_of (signed_builder (ce_crypto E) u)) (\<lambda>t c.
       let (cells, t, handle) = tx_generate_identifier key_type create_arguments [] t in
       case builder_build E cells t c of
         None \<Rightarrow> None
       | Some (c, _, cells, r) \<Rightarrow>
           task_bind (task_of r) (\<lambda>blocks.
           task_bind (originate E u blocks) (\<lambda>_. task_of (pending_get cells handle))) c) c"

definition user_initialize_network ::
    "('t, 'w) client_env \<Rightarrow> (rust_string \<Rightarrow> rust_string) \<Rightarrow> int option \<Rightarrow> user_client \<Rightarrow> initialize_network \<Rightarrow>
      (('t, 'w) client, bool) task" where
  "user_initialize_network E base64_encode clock u options c =
     task_bind (task_of (user_signer u)) (\<lambda>trusted.
     task_bind (task_of (account_or u None)) (\<lambda>recipient.
     task_bind (task_of (case in_delegate_to options of
         Some delegate \<Rightarrow> Ok delegate
       | None \<Rightarrow> and_then (first_rep_account E c) (ok_or CNoRepresentatives))) (\<lambda>delegate_to.
     task_bind (task_of (generate_initial_vote_staple E base64_encode clock trusted recipient delegate_to options c)) (\<lambda>staple.
       task_run (transmit_staple E staple))))) c"

section \<open>Swaps\<close>

record create_swap_request =
  cs_counterparty :: generic_account
  cs_send_token :: generic_account
  cs_send_amount :: int
  cs_receive_token :: generic_account
  cs_receive_amount :: int
  cs_receive_exact :: bool

record swap_token_amount =
  sta_token :: "generic_account option"
  sta_amount :: "int option"

record swap_expectation =
  se_receive :: "swap_token_amount option"
  se_send :: "swap_token_amount option"

record accept_swap_request =
  ar_block :: block
  ar_expected :: "swap_expectation option"

definition user_create_swap_request ::
    "('t, 'w) client_env \<Rightarrow> user_client \<Rightarrow> create_swap_request \<Rightarrow> (('t, 'w) client, block) task" where
  "user_create_swap_request E u request =
     task_bind (build_signed E u (\<lambda>t.
         tx_receive_with (Resolved (cs_counterparty request)) (Resolved (cs_receive_token request))
           (cs_receive_amount request) (cs_receive_exact request) None
           (tx_send (Resolved (cs_counterparty request)) (Resolved (cs_send_token request)) (cs_send_amount request) t)))
       (\<lambda>blocks. task_of (case blocks of [b] \<Rightarrow> Ok b | _ \<Rightarrow> Err CSwapMultiBlock))"

fun swap_scan :: "send option \<Rightarrow> receive option \<Rightarrow> operation list \<Rightarrow> send option \<times> receive option" where
  "swap_scan s r [] = (s, r)"
| "swap_scan s r (OpSend x # ops) = swap_scan (Some x) r ops"
| "swap_scan s r (OpReceive x # ops) = swap_scan s (Some x) ops"
| "swap_scan s r (_ # ops) = swap_scan s r ops"

definition swap_legs :: "block \<Rightarrow> client_error + send \<times> receive" where
  "swap_legs b =
     (let (s, r) = swap_scan None None (bd_operations (blk_data b)) in
      and_then (ok_or CSwapMissingSend s) (\<lambda>s.
      and_then (ok_or CSwapMissingReceive r) (\<lambda>r. Ok (s, r))))"

definition assert_swap_token :: "crypto_lib \<Rightarrow> generic_account \<Rightarrow> swap_token_amount \<Rightarrow> client_error + unit" where
  "assert_swap_token L token expected =
     (case sta_token expected of
        Some wanted \<Rightarrow> ensure (account_to_string L token = account_to_string L wanted) CSwapTokenMismatch
      | None \<Rightarrow> Ok ())"

definition assert_swap_amount :: "int \<Rightarrow> swap_token_amount \<Rightarrow> client_error + unit" where
  "assert_swap_amount amount expected =
     (case sta_amount expected of
        Some wanted \<Rightarrow> ensure (amount = wanted) CSwapAmountMismatch
      | None \<Rightarrow> Ok ())"

definition resolve_swap_amount ::
    "crypto_lib \<Rightarrow> send \<Rightarrow> receive \<Rightarrow> swap_expectation option \<Rightarrow> client_error + int" where
  "resolve_swap_amount L s r expected =
     (case expected of
        None \<Rightarrow> Ok (recv_amount r)
      | Some expected \<Rightarrow>
          and_then (case se_receive expected of
              None \<Rightarrow> Ok ()
            | Some expected_receive \<Rightarrow>
                and_then (assert_swap_token L (send_token s) expected_receive) (\<lambda>_.
                  assert_swap_amount (send_amount s) expected_receive)) (\<lambda>_.
          case se_send expected of
            None \<Rightarrow> Ok (recv_amount r)
          | Some expected_send \<Rightarrow>
              and_then (assert_swap_token L (recv_token r) expected_send) (\<lambda>_.
              case sta_amount expected_send of
                None \<Rightarrow> Ok (recv_amount r)
              | Some amount \<Rightarrow>
                  if amount < recv_amount r then Err CSwapAmountTooLow
                  else if recv_exact r \<and> recv_amount r \<noteq> amount then Err CSwapExactMismatch
                  else Ok amount)))"

definition accept_terms ::
    "crypto_lib \<Rightarrow> user_client \<Rightarrow> accept_swap_request \<Rightarrow> client_error + send \<times> receive \<times> int" where
  "accept_terms L u request =
     and_then (account_or u None) (\<lambda>account.
     and_then (swap_legs (ar_block request)) (\<lambda>(s, r).
     if account_to_string L (send_to s) \<noteq> account_to_string L (recv_from r) then Err CSwapAccountMismatch
     else if account_to_string L (send_to s) \<noteq> account_to_string L account then Err CSwapAccountMismatch
     else and_then (resolve_swap_amount L s r (ar_expected request)) (\<lambda>amount. Ok (s, r, amount))))"

definition user_accept_swap_request ::
    "('t, 'w) client_env \<Rightarrow> user_client \<Rightarrow> accept_swap_request \<Rightarrow> (('t, 'w) client, block list) task" where
  "user_accept_swap_request E u request =
     task_bind (task_of (accept_terms (ce_crypto E) u request)) (\<lambda>(s, r, amount).
     task_bind (build_signed E u (tx_send (Resolved (bd_account (blk_data (ar_block request))))
         (Resolved (recv_token r)) amount)) (\<lambda>blocks.
       task_return (blocks @ [ar_block request])))"

section \<open>Operations that involve an account\<close>

definition same_account :: "generic_account \<Rightarrow> generic_account \<Rightarrow> bool" where
  "same_account candidate account \<longleftrightarrow>
     to_keypair_type candidate = to_keypair_type account \<and> as_public_key_bytes candidate = as_public_key_bytes account"

fun operation_involves :: "generic_account \<Rightarrow> operation \<Rightarrow> bool" where
  "operation_involves account (OpSend s) = same_account (send_to s) account"
| "operation_involves account (OpSetRep s) = same_account (set_rep_to s) account"
| "operation_involves account (OpModifyPermissions m) =
     (case mp_principal m of PrincipalAccount p \<Rightarrow> same_account p account | PrincipalCertificate _ _ \<Rightarrow> False)"
| "operation_involves account (OpCreateIdentifier c) = same_account (ci_identifier c) account"
| "operation_involves account (OpReceive r) =
     (same_account (recv_from r) account \<or>
      (case recv_forward r of Some f \<Rightarrow> same_account f account | None \<Rightarrow> False))"
| "operation_involves account _ = False"

definition block_effects_of :: "generic_account \<Rightarrow> block \<Rightarrow> block_effects" where
  "block_effects_of account b =
     (let operations = bd_operations (blk_data b) in
      \<lparr>be_block = b,
       be_operation_indexes =
         (if same_account (bd_account (blk_data b)) account then [0..<length operations]
          else filter (\<lambda>i. operation_involves account (operations ! i)) [0..<length operations])\<rparr>)"

definition filter_staple_operations ::
    "staple_lib \<Rightarrow> vote_staple list \<Rightarrow> generic_account \<Rightarrow> bytes \<rightharpoonup> block_effects list" where
  "filter_staple_operations S staples account =
     map_of (rev (map (\<lambda>st. (vote_staple_block_hash S st, map (block_effects_of account) (vs_blocks st))) staples))"

definition staple_effects ::
    "staple_lib \<Rightarrow> user_client \<Rightarrow> vote_staple list \<Rightarrow> client_error + (bytes \<rightharpoonup> block_effects list)" where
  "staple_effects S u staples =
     and_then (account_or u None) (\<lambda>account. Ok (filter_staple_operations S staples account))"

end
