(* ===== verification/ClientRef.thy ===== *)
theory ClientRef
  imports ClientInv UserClient VoteRef
begin

text \<open>
  Concrete environments of the client, over the reference libraries below: nodes that refuse every
  request, one node that votes for and accepts everything, and a pair of nodes of which one always
  lags behind.  They instantiate the hypotheses of the client's properties.
\<close>

section \<open>Nodes\<close>

definition silent_node :: "('t, 'w) node_transport" where
  "silent_node =
     \<lparr>nt_node_version = (\<lambda>_ w. (w, Err CTimeout)),
      nt_balance = (\<lambda>_ _ _ w. (w, Err CTimeout)),
      nt_balances = (\<lambda>_ _ w. (w, Err CTimeout)),
      nt_account_state = (\<lambda>_ _ w. (w, Err CTimeout)),
      nt_account_states = (\<lambda>_ _ w. (w, Err CTimeout)),
      nt_head_block = (\<lambda>_ _ w. (w, Err CTimeout)),
      nt_account_head_info = (\<lambda>_ _ w. (w, Err CTimeout)),
      nt_pending_block = (\<lambda>_ _ w. (w, Err CTimeout)),
      nt_block = (\<lambda>_ _ _ w. (w, Err CTimeout)),
      nt_successor_block = (\<lambda>_ _ w. (w, Err CTimeout)),
      nt_block_by_idempotent = (\<lambda>_ _ _ _ w. (w, Err CTimeout)),
      nt_block_votes = (\<lambda>_ _ _ w. (w, Err CTimeout)),
      nt_chain_page = (\<lambda>_ _ _ w. (w, Err CTimeout)),
      nt_history_page = (\<lambda>_ _ _ w. (w, Err CTimeout)),
      nt_global_history_page = (\<lambda>_ _ w. (w, Err CTimeout)),
      nt_vote_staples_after = (\<lambda>_ _ _ w. (w, Err CTimeout)),
      nt_node_representative = (\<lambda>_ w. (w, Err CTimeout)),
      nt_representative = (\<lambda>_ _ w. (w, Err CTimeout)),
      nt_representatives = (\<lambda>_ w. (w, Err CTimeout)),
      nt_ledger_checksum = (\<lambda>_ w. (w, Err CTimeout)),
      nt_acls_by_principal = (\<lambda>_ _ w. (w, Err CTimeout)),
      nt_acls_by_entity = (\<lambda>_ _ w. (w, Err CTimeout)),
      nt_certificates = (\<lambda>_ _ w. (w, Err CTimeout)),
      nt_certificate = (\<lambda>_ _ _ w. (w, Err CTimeout)),
      nt_create_vote = (\<lambda>_ _ _ _ w. (w, Err CTimeout)),
      nt_create_vote_quote = (\<lambda>_ _ w. (w, Err CTimeout)),
      nt_publish_staple = (\<lambda>_ _ w. (w, Err CTimeout))\<rparr>"

definition voting_node :: "vote \<Rightarrow> ('t, 'w) node_transport" where
  "voting_node v =
     silent_node\<lparr>nt_create_vote := (\<lambda>_ _ _ _ w. (w, Ok v)), nt_publish_staple := (\<lambda>_ _ w. (w, Ok True)),
       nt_head_block := (\<lambda>_ _ w. (w, Ok None))\<rparr>"

definition ref_env :: "('t, 'w) node_transport \<Rightarrow> (string \<Rightarrow> 't) \<Rightarrow> ('t, 'w) client_env" where
  "ref_env node create =
     \<lparr>ce_transport = node, ce_create = create, rt_unix_millis = (\<lambda>_. 1000), rt_now_millis = (\<lambda>_. 0),
      rt_sleep = (\<lambda>_ w. w), rt_timer_first = (\<lambda>_ _. None), rt_next_ready = (\<lambda>_ _. 0), ce_staple = ref_slib,
      ce_chrono = ref_chrono\<rparr>"

lemma ref_env_sel [simp]:
  "ce_transport (ref_env node create) = node" "ce_create (ref_env node create) = create"
  "rt_unix_millis (ref_env node create) w = 1000" "rt_sleep (ref_env node create) d w = w"
  "rt_timer_first (ref_env node create) d w = None" "rt_next_ready (ref_env node create) w n = 0"
  "ce_staple (ref_env node create) = ref_slib" "ce_chrono (ref_env node create) = ref_chrono"
  by (simp_all add: ref_env_def)

lemma voting_node_sel [simp]:
  "nt_create_vote (voting_node v) t bs prior quote w = (w, Inr v)" "nt_publish_staple (voting_node v) t st w = (w, Inr True)"
  "nt_head_block (voting_node v) t a w = (w, Inr None)"
  by (simp_all add: voting_node_def)

lemma ref_now [simp]: "client_now (ref_env node create) c = 1000"
  by (simp add: client_now_def now_moment_def client_context_def block_time_from_unix_millis_def ref_chrono_def year_start_def)

definition ref_part :: "string \<Rightarrow> rep_part" where
  "ref_part key = \<lparr>rp_key = key, rp_url = key, rp_weight = 1\<rparr>"

definition ref_client :: "('t, 'w) client_env \<Rightarrow> string list \<Rightarrow> 'w \<Rightarrow> ('t, 'w) client" where
  "ref_client E keys w = with_parts E (map ref_part keys) client_config_default True Map.empty w"

lemma config_ok_default: "config_ok client_config_default"
proof -
  obtain a b d where "round_f64 (1 / 100) = Fin a" "0 \<le> a" "a \<le> 1" "round_f64 (1 / 10) = Fin b" "0 \<le> b"
    "round_f64 (5 / 10) = Fin d" "0 \<le> d" "d \<le> 1"
    using round_f64_unit[of "1 / 100"] round_f64_unit[of "1 / 10"] round_f64_unit[of "5 / 10"] by auto
  moreover have "is_f64 a" using round_f64_is_f64[OF _ calculation(1)] by simp
  ultimately show ?thesis by (simp add: config_ok_def client_config_default_def)
qed

section \<open>One voting node\<close>

lemma remove_only [simp]: "remove_nth 0 [p] = []"
  by (simp add: remove_nth_def)

definition one_voter :: "string \<Rightarrow> ('t, 'w) client \<Rightarrow> bool" where
  "one_voter key c \<longleftrightarrow> transports_ok c \<and> map rr_key (kc_reps c) = [key]"

definition one_rep :: "('t, 'w) client \<Rightarrow> bool" where
  "one_rep c \<longleftrightarrow> transports_ok c \<and> map rr_key (kc_reps c) = [''rep''] \<and> kc_single_rep c"

lemma one_rep_voter: "one_rep c \<longleftrightarrow> one_voter ''rep'' c \<and> kc_single_rep c"
  by (simp add: one_rep_def one_voter_def)

lemma one_voter_picks:
  assumes "one_voter key c"
  shows "\<exists>p. snapshot_picks c = [p] \<and> pk_key p = key"
proof -
  obtain r where r: "kc_reps c = [r]" "rr_key r = key" using assms by (auto simp: one_voter_def)
  then obtain t where "kc_transports c key = Some t" using assms by (auto simp: one_voter_def transports_ok_def)
  then show ?thesis using r
    by (simp add: snapshot_picks_def rep_snapshot_def bind_transports_def to_rep_ref_def List.map_filter_simps)
qed

lemma one_rep_picks: "one_rep c \<Longrightarrow> \<exists>p. snapshot_picks c = [p]"
  using one_voter_picks one_rep_voter by blast

lemma one_voter_kept [simp]:
  "one_voter k (boost key c) = one_voter k c" "one_voter k (c\<lparr>kc_world := w\<rparr>) = one_voter k c"
  "one_voter k (ensure_refresh c) = one_voter k c"
  by (auto simp: one_voter_def boost_def transports_ok_def ensure_refresh_def simp flip: set_map)

lemma single_rep_kept [simp]:
  "kc_single_rep (boost key c) = kc_single_rep c" "kc_single_rep (ensure_refresh c) = kc_single_rep c"
  by (simp_all add: boost_def ensure_refresh_def)

lemma one_rep_kept [simp]:
  "one_rep (boost k c) = one_rep c" "one_rep (c\<lparr>kc_world := w\<rparr>) = one_rep c" "one_rep (ensure_refresh c) = one_rep c"
  by (simp_all add: one_rep_voter)

lemma voter_votes:
  assumes "one_voter key c"
    and "prior = [] \<or> kc_single_rep c \<or> key \<in> issuer_key (ce_crypto (ref_env (voting_node v) create)) ` set prior"
  shows "\<exists>c'. request_votes (ref_env (voting_node v) create) bs prior quotes c = (c', Inr [v]) \<and>
    one_voter key c' \<and> kc_single_rep c' = kc_single_rep c"
proof -
  have c: "one_voter key (ensure_refresh c)" using assms(1) by simp
  obtain p where p: "snapshot_picks (ensure_refresh c) = [p]" "pk_key p = key" using one_voter_picks[OF c] by blast
  have "kc_single_rep c \<or> contacts_for ref_lib [p] prior = [p]"
    using assms(2) p(2) by (auto simp: contacts_for_def)
  then show ?thesis using p assms(1) by (cases "kc_single_rep c") (simp_all add: request_votes_def Let_def ask_vote_def call_node_def on_vote_def)
qed

lemma ref_votes:
  "one_rep c \<Longrightarrow> \<exists>c'. request_votes (ref_env (voting_node v) create) bs prior quotes c = (c', Inr [v]) \<and> one_rep c'"
  using voter_votes[of "''rep''" c prior v create bs quotes] by (auto simp: one_rep_voter)

lemma voter_publish:
  assumes "one_voter key c"
  shows "\<exists>c'. transmit_staple (ref_env (voting_node v) create) st c = (c', Inr True)"
proof -
  have c: "one_voter key (ensure_refresh c)" using assms by simp
  obtain p where p: "snapshot_picks (ensure_refresh c) = [p]" using one_voter_picks[OF c] by blast
  then show ?thesis by (simp add: transmit_staple_def Let_def call_node_def on_publish_def)
qed

lemma ref_publish: "one_rep c \<Longrightarrow> \<exists>c'. transmit_staple (ref_env (voting_node v) create) st c = (c', Inr True)"
  using voter_publish[of "''rep''" c v create st] by (simp add: one_rep_voter)

lemma ref_client_one_rep: "one_rep (ref_client E [''rep''] w)"
  by (simp add: one_rep_def ref_client_def with_parts_def transports_ok_def ref_part_def rep_record_new_def)

lemma voter_transmission:
  assumes "vote_staple_try_new ref_slib [b] [v] default_vote_config 1000 = Inr st" and "dv_fees (vote_decoded v) = None"
    and "one_voter key c" and "kc_single_rep c \<or> key = issuer_key (ce_crypto (ref_env (voting_node v) create)) v"
  shows "\<exists>c'. transmit_with_optional_fee (ref_env (voting_node v) create) [b] transmit_options_default c = Some (c', Inr True)"
proof -
  let ?E = "ref_env (voting_node v) create"
  obtain c1 where c1: "request_votes ?E [b] [] [] c = (c1, Inr [v])" "one_voter key c1" "kc_single_rep c1 = kc_single_rep c"
    using voter_votes[OF assms(3), of "[]" v create "[b]" "[]"] by blast
  obtain c2 where c2: "request_votes ?E [b] [v] [] c1 = (c2, Inr [v])" "one_voter key c2"
    using voter_votes[OF c1(2), of "[v]" v create "[b]" "[]"] assms(4) c1(3) by auto
  obtain c3 where c3: "transmit_staple ?E st c2 = (c3, Inr True)" using voter_publish[OF c2(2), of v create st] by blast
  have "\<not> votes_require_fee [v]" using assms(2) by (simp add: votes_require_fee_def)
  then have "transmit_round ?E [b] transmit_options_default c = Some (c3, Inr True)"
    using c1(1) c2(1) c3 assms(1)
    by (simp add: transmit_round_def Let_def task_bind_def task_run_def with_fee_block_def task_return_def task_of_def
        transmit_options_default_def)
  then show ?thesis
    by (intro exI[of _ c3]) (simp add: transmit_with_optional_fee_def transmit_loop.simps)
qed

end
