(* ===== verification/ClientProps.thy ===== *)
theory ClientProps
  imports ClientRef
begin

text \<open>
  Properties of the client: the invariant of reachable clients, what a voting round, a publication
  and a transmission return, when a dispatched call returns, paged reads, fee blocks, genesis and
  swaps.
\<close>

section \<open>Answers of a fan-out\<close>

definition answers :: "('p \<Rightarrow> ('w, 'r) request) \<Rightarrow> ('p \<times> (client_error + 'r)) list \<Rightarrow> bool" where
  "answers run tr \<longleftrightarrow> list_all (\<lambda>(p, r). \<exists>w. r = snd (run p w)) tr"

lemma mset_remove_nth: "i < length xs \<Longrightarrow> mset xs = add_mset (xs ! i) (mset (remove_nth i xs))"
  by (metis id_take_nth_drop mset.simps(2) mset_append remove_nth_def union_mset_add_mset_right)

lemma drain_trace:
  assumes "\<And>p r acc c. snd (handle p r acc c) = (f p r acc, False)"
  shows "\<exists>tr. mset (map fst tr) = mset ps \<and> answers run tr \<and>
    snd (drain E run handle ps acc c) = fold (\<lambda>(p, r). f p r) tr acc"
proof (induction "length ps" arbitrary: ps acc c)
  case 0
  then show ?case by (auto simp: answers_def)
next
  case (Suc n)
  then obtain p qs where ps: "ps = p # qs" "length qs = n" by (cases ps) auto
  let ?i = "rt_next_ready E (kc_world c) (Suc n) mod Suc n"
  have i: "?i < length ps" using ps by simp
  obtain c1 r where c1: "call_node (run (ps ! ?i)) c = (c1, r)" by force
  obtain c2 where c2: "handle (ps ! ?i) r acc c1 = (c2, f (ps ! ?i) r acc, False)"
    using assms[of "ps ! ?i" r acc c1] by (metis prod.collapse)
  have "n = length (remove_nth ?i ps)" using i ps by (simp add: length_remove_nth)
  from Suc.hyps(1)[OF this, of "f (ps ! ?i) r acc" c2] obtain tr where tr: "mset (map fst tr) = mset (remove_nth ?i ps)" "answers run tr"
    "snd (drain E run handle (remove_nth ?i ps) (f (ps ! ?i) r acc) c2) = fold (\<lambda>(p, r). f p r) tr (f (ps ! ?i) r acc)"
    by blast
  have "\<exists>w. r = snd (run (ps ! ?i) w)" using c1 by (intro exI[of _ "kc_world c"]) (auto simp: call_node_def split: prod.splits)
  moreover have "snd (drain E run handle ps acc c) = snd (drain E run handle (remove_nth ?i ps) (f (ps ! ?i) r acc) c2)"
    using ps c1 c2 by (simp add: Let_def)
  ultimately show ?case using tr mset_remove_nth[OF i]
    by (intro exI[of _ "(ps ! ?i, r) # tr"]) (auto simp: answers_def)
qed

lemma drain_trace_pair:
  assumes "drain E run handle ps acc c = (c', acc')" and "\<And>p r acc c. snd (handle p r acc c) = (f p r acc, False)"
  obtains tr where "mset (map fst tr) = mset ps" "answers run tr" "acc' = fold (\<lambda>(p, r). f p r) tr acc"
  using drain_trace[where handle = handle and f = f, OF assms(2)] assms(1) by (metis snd_conv)

subsection \<open>Publication\<close>

definition publish_acc :: "'p \<Rightarrow> client_error + bool \<Rightarrow> bool \<times> client_error option \<Rightarrow> bool \<times> client_error option" where
  "publish_acc p r acc = (case r of Inr _ \<Rightarrow> (True, snd acc) | Inl e \<Rightarrow> (fst acc, Some e))"

lemma on_publish_acc: "snd (on_publish p r acc c) = (publish_acc p r acc, False)"
  by (simp add: on_publish_def publish_acc_def split: sum.split)

lemma publish_fold:
  "fst (fold (\<lambda>(p, r). publish_acc p r) tr acc) \<longleftrightarrow> fst acc \<or> list_ex (\<lambda>(p, r). is_ok r) tr"
  "\<not> list_ex (\<lambda>(p, r). is_ok r) tr \<Longrightarrow> tr \<noteq> [] \<Longrightarrow>
     \<exists>e. snd (fold (\<lambda>(p, r). publish_acc p r) tr acc) = Some e \<and> (\<exists>p. (p, Inl e) \<in> set tr)"
proof (induction tr arbitrary: acc)
  case (Cons x tr)
  {
    case 1
    show ?case using Cons.IH(1) by (cases x; cases "snd x") (auto simp: publish_acc_def is_ok_iff)
  next
    case 2
    then obtain p e where x: "x = (p, Inl e)" by (cases x; cases "snd x") (auto simp: is_ok_iff)
    show ?case
    proof (cases "tr = []")
      case True
      then show ?thesis using x by (simp add: publish_acc_def)
    next
      case False
      then show ?thesis using Cons.IH(2)[of "publish_acc p (Inl e) acc"] 2 x by auto
    qed
  }
qed simp_all


lemma transmit_staple_ok: "transmit_staple E staple c = (c', Inr accepted) \<Longrightarrow> accepted"
proof -
  assume t: "transmit_staple E staple c = (c', Inr accepted)"
  let ?run = "\<lambda>p. nt_publish_staple (ce_transport E) (pk_transport p) staple" and ?picks = "snapshot_picks (ensure_refresh c)"
  obtain d a err where d: "drain E ?run on_publish ?picks (False, None) (ensure_refresh c) = (d, a, err)"
    by (metis prod_cases3)
  obtain tr where tr: "mset (map fst tr) = mset ?picks" "answers ?run tr" "(a, err) = fold (\<lambda>(p, r). publish_acc p r) tr (False, None)"
    using drain_trace_pair[OF d on_publish_acc] .
  have "?picks \<noteq> []" using t by (auto simp: transmit_staple_def Let_def)
  then have "tr \<noteq> []" using tr(1) by auto
  then have "err \<noteq> None" if "\<not> a"
    using publish_fold(1)[of tr "(False, None)"] publish_fold(2)[of tr "(False, None)"] that
    unfolding tr(3)[symmetric] by auto
  then show ?thesis using t d by (auto simp: transmit_staple_def Let_def split: if_splits option.splits)
qed

lemma snapshot_refresh [simp]: "snapshot_picks (ensure_refresh c) = snapshot_picks c"
  by (simp add: ensure_refresh_def snapshot_picks_def bind_transports_def)

subsection \<open>Votes\<close>

definition vote_acc ::
    "'t rep_target \<Rightarrow> client_error + vote \<Rightarrow> vote list \<times> (int \<times> client_error) option \<Rightarrow>
      vote list \<times> (int \<times> client_error) option" where
  "vote_acc p r acc =
     (case r of
        Inr vote \<Rightarrow> (fst acc @ [vote], snd acc)
      | Inl e \<Rightarrow>
          (fst acc, if (case snd acc of None \<Rightarrow> True | Some (seen, _) \<Rightarrow> pk_weight p > seen)
                    then Some (pk_weight p, e) else snd acc))"

lemma on_vote_acc: "snd (on_vote p r acc c) = (vote_acc p r acc, False)"
  by (simp add: on_vote_def vote_acc_def Let_def split: sum.split)

definition granted :: "('p \<times> (client_error + 'r)) list \<Rightarrow> 'r list" where
  "granted tr = List.map_filter (\<lambda>(_, r). case r of Inr x \<Rightarrow> Some x | Inl _ \<Rightarrow> None) tr"

lemma granted_simps [simp]:
  "granted [] = []" "granted ((p, Inr x) # tr) = x # granted tr" "granted ((p, Inl e) # tr) = granted tr"
  by (simp_all add: granted_def List.map_filter_simps)

lemma granted_Nil: "granted tr = [] \<longleftrightarrow> list_all (\<lambda>(_, r). \<not> is_ok r) tr"
proof (induction tr)
  case (Cons x tr)
  then show ?case by (cases x; cases "snd x") auto
qed simp

lemma vote_fold_votes: "fst (fold (\<lambda>(p, r). vote_acc p r) tr acc) = fst acc @ granted tr"
proof (induction tr arbitrary: acc)
  case (Cons x tr)
  then show ?case by (cases x; cases "snd x") (auto simp: vote_acc_def)
qed simp

text \<open>The error kept is one of the errors of highest weight.\<close>

definition top_error :: "('t rep_target \<times> (client_error + 'r)) list \<Rightarrow> int \<times> client_error \<Rightarrow> bool" where
  "top_error tr we \<longleftrightarrow>
     (\<exists>p. (p, Inl (snd we)) \<in> set tr \<and> pk_weight p = fst we) \<and>
     (\<forall>(p, r) \<in> set tr. \<not> is_ok r \<longrightarrow> pk_weight p \<le> fst we)"

lemma vote_fold_error:
  assumes "case snd acc of None \<Rightarrow> \<not> list_ex (\<lambda>(_, r). \<not> is_ok r) done_tr | Some we \<Rightarrow> top_error done_tr we"
  shows "case snd (fold (\<lambda>(p, r). vote_acc p r) tr acc) of
      None \<Rightarrow> \<not> list_ex (\<lambda>(_, r). \<not> is_ok r) (done_tr @ tr) | Some we \<Rightarrow> top_error (done_tr @ tr) we"
  using assms
proof (induction tr arbitrary: acc done_tr)
  case (Cons x tr)
  obtain p r where x: "x = (p, r)" by force
  have "case snd (vote_acc p r acc) of
      None \<Rightarrow> \<not> list_ex (\<lambda>(_, r). \<not> is_ok r) (done_tr @ [x]) | Some we \<Rightarrow> top_error (done_tr @ [x]) we"
    using Cons.prems unfolding x
    by (cases r; cases "snd acc") (fastforce simp: vote_acc_def top_error_def list_ex_iff)+
  from Cons.IH[OF this] show ?case unfolding x by (auto split: option.splits)
qed (auto split: option.splits)

section \<open>The representative set\<close>

lemma fold_upd_dom: "dom (fold (\<lambda>p m. m(f p \<mapsto> g p)) ps m) = dom m \<union> f ` set ps"
  by (induction ps arbitrary: m) auto

lemma with_parts_transports: "transports_ok (with_parts E reps config single_rep cache w)"
  using fold_upd_dom[of rp_key "\<lambda>p. ce_create E (rp_url p)" reps Map.empty]
  by (auto simp: transports_ok_def with_parts_def rep_record_new_def dom_def)

lemma with_parts_scores: "config_ok config \<Longrightarrow> scores_ok (with_parts E reps config single_rep cache w)"
  by (auto simp: scores_ok_def with_parts_def rep_record_new_def score_in_def list_all_iff elim!: config_okE)

lemma length_map_filter_total: "list_all (\<lambda>x. f x \<noteq> None) xs \<Longrightarrow> length (List.map_filter f xs) = length xs"
  by (induction xs) (auto simp: List.map_filter_simps)

lemma snapshot_picks_length: "transports_ok c \<Longrightarrow> length (snapshot_picks c) = length (kc_reps c)"
  unfolding snapshot_picks_def bind_transports_def rep_snapshot_def
  by (subst length_map_filter_total) (auto simp: transports_ok_def list_all_iff to_rep_ref_def)

text \<open>C11: every client reached from a fresh one by any sequence of its operations has a transport for
  each representative, so every representative is contacted by a fan-out, and each reliability score
  stays a binary64 value between the configured floor and one.
\<close>
theorem client_state_invariant:
  assumes "config_ok config" and "reachable_client E (with_parts E reps config single_rep cache w) c"
  shows "transports_ok c \<and> scores_ok c \<and> length (snapshot_picks c) = length (kc_reps c)"
  using transports.reachable_inv[OF assms(2) with_parts_transports]
    scores.reachable_inv[OF assms(2) with_parts_scores[OF assms(1)]] snapshot_picks_length by blast

theorem client_state_invariant_witness:
  "\<exists>c. reachable_client (ref_env silent_node id) (ref_client (ref_env silent_node id) [''a'', ''b''] (0 :: nat)) c \<and>
    transports_ok c \<and> scores_ok c \<and> length (snapshot_picks c) = length (kc_reps c)"
proof -
  let ?E = "ref_env silent_node id" and ?c = "ref_client (ref_env silent_node id) [''a'', ''b''] (0 :: nat)"
  have r: "reachable_client ?E ?c (fst (request_votes ?E [] [] [] ?c))"
    by (rule reach_step[OF reach_start step_votes]) (rule surjective_pairing)
  then show ?thesis using client_state_invariant[OF config_ok_default r[unfolded ref_client_def]]
    unfolding ref_client_def by blast
qed

text \<open>C14: the target of a dispatched call.  A reachable client has a target whenever it has a
  representative, and with non-negative weights the target is a representative of greatest effective
  score (weight share times reliability).
\<close>
theorem dispatch_target_spec:
  assumes "config_ok config" and "reachable_client E (with_parts E reps config single_rep cache w) c"
  shows "(pick_target c = None \<longleftrightarrow> kc_reps c = []) \<and>
    (list_all (\<lambda>r. 0 \<le> rr_weight r) (kc_reps c) \<longrightarrow> pick_target c = Some p \<longrightarrow>
      (\<exists>b \<in> set (kc_reps c). pk_key p = rr_key b \<and> pk_weight p = rr_weight b \<and>
        kc_transports c (rr_key b) = Some (pk_transport p) \<and>
        (\<forall>r \<in> set (kc_reps c).
          f64_le (effective_score (kc_reps c) r (rep_total_weight (kc_reps c)))
            (effective_score (kc_reps c) b (rep_total_weight (kc_reps c))))))"
proof -
  have t: "transports_ok c" using transports.reachable_inv[OF assms(2) with_parts_transports] .
  have s: "scores_ok c" using scores.reachable_inv[OF assms(2) with_parts_scores[OF assms(1)]] .
  then have "config_ok (kc_config c)" by (simp add: scores_ok_def)
  then obtain lo where lo: "cfg_reliability_floor (kc_config c) = Fin lo" "0 \<le> lo" "lo \<le> 1"
    by (elim config_okE)
  then have "list_all (score_in lo) (kc_reps c)" using s by (simp add: scores_ok_def)
  note max = rep_pick_max[OF this lo(2,3)]
  have key: "kc_transports c (rf_key q) \<noteq> None" if q: "rep_pick (kc_reps c) = Some q" for q
  proof -
    obtain b where "b \<in> set (kc_reps c)" "q = to_rep_ref b" using rep_pick_member[OF q] by blast
    then show ?thesis using t by (auto simp: transports_ok_def to_rep_ref_def)
  qed
  have nil: "rep_pick [] = None" by simp
  have "pick_target c = None \<longleftrightarrow> kc_reps c = []"
    using key by (auto simp: nil pick_target_def split: option.splits)
  moreover have "\<exists>b \<in> set (kc_reps c). pk_key p = rr_key b \<and> pk_weight p = rr_weight b \<and>
        kc_transports c (rr_key b) = Some (pk_transport p) \<and>
        (\<forall>r \<in> set (kc_reps c).
          f64_le (effective_score (kc_reps c) r (rep_total_weight (kc_reps c)))
            (effective_score (kc_reps c) b (rep_total_weight (kc_reps c))))"
    if w: "list_all (\<lambda>r. 0 \<le> rr_weight r) (kc_reps c)" and p: "pick_target c = Some p"
  proof -
    obtain q tr where q: "rep_pick (kc_reps c) = Some q" "kc_transports c (rf_key q) = Some tr"
      "p = \<lparr>pk_key = rf_key q, pk_weight = rf_weight q, pk_transport = tr\<rparr>"
      using p by (auto simp: pick_target_def split: option.splits)
    show ?thesis using max[OF w q(1)] q(2,3) by (auto simp: to_rep_ref_def)
  qed
  ultimately show ?thesis by blast
qed

theorem dispatch_target_spec_witness:
  "\<exists>p. pick_target (ref_client (ref_env silent_node id) [''a'', ''b''] (0 :: nat)) = Some p \<and> pk_weight p = 1"
proof -
  let ?E = "ref_env silent_node id" and ?c = "ref_client (ref_env silent_node id) [''a'', ''b''] (0 :: nat)"
  note spec = dispatch_target_spec[OF config_ok_default reach_start, of ?E "map ref_part [''a'', ''b'']" True Map.empty "0 :: nat",
      folded ref_client_def]
  have reps: "kc_reps ?c = [rep_record_new ''a'' ''a'' 1, rep_record_new ''b'' ''b'' 1]"
    by (simp add: ref_client_def with_parts_def ref_part_def)
  then obtain p where p: "pick_target ?c = Some p" using spec by fastforce
  have "\<exists>b \<in> set (kc_reps ?c). pk_weight p = rr_weight b" using spec[of p] p reps by (auto simp: rep_record_new_def)
  then show ?thesis using p reps by (auto simp: rep_record_new_def)
qed

section \<open>Publication and voting\<close>

text \<open>Publishing a staple contacts every representative, in the order in which they answer.  The
  answer is \<open>True\<close> when at least one accepted; otherwise it is the error of one that refused, and
  only a client without representatives fails without asking anybody.
\<close>
theorem transmit_staple_spec:
  assumes "transmit_staple E staple c = (c', r)"
  shows "\<exists>tr. mset (map fst tr) = mset (snapshot_picks c) \<and>
    answers (\<lambda>p. nt_publish_staple (ce_transport E) (pk_transport p) staple) tr \<and>
    (case r of
       Inr accepted \<Rightarrow> accepted \<and> list_ex (\<lambda>(_, a). is_ok a) tr
     | Inl e \<Rightarrow> list_all (\<lambda>(_, a). \<not> is_ok a) tr \<and> (if tr = [] then e = CNoRepresentatives else \<exists>p. (p, Inl e) \<in> set tr))"
proof (cases "snapshot_picks c = []")
  case True
  then show ?thesis using assms by (intro exI[of _ "[]"]) (auto simp: transmit_staple_def Let_def answers_def)
next
  case False
  let ?run = "\<lambda>p. nt_publish_staple (ce_transport E) (pk_transport p) staple"
  obtain d accepted last_error where d: "drain E ?run on_publish (snapshot_picks c) (False, None) (ensure_refresh c)
      = (d, accepted, last_error)" by (metis prod_cases3)
  obtain tr where tr: "mset (map fst tr) = mset (snapshot_picks c)" "answers ?run tr"
    "(accepted, last_error) = fold (\<lambda>(p, r). publish_acc p r) tr (False, None)"
    using drain_trace_pair[OF d on_publish_acc] .
  have "tr \<noteq> []" using tr(1) False by auto
  have acc: "accepted \<longleftrightarrow> list_ex (\<lambda>(_, a). is_ok a) tr"
    using publish_fold(1)[of tr "(False, None)"] tr(3) by (metis (mono_tags, lifting) fst_conv)
  have "\<exists>e. last_error = Some e \<and> (\<exists>p. (p, Inl e) \<in> set tr)" if "\<not> accepted"
    using publish_fold(2)[of tr "(False, None)"] that acc tr(3) \<open>tr \<noteq> []\<close> by (metis (mono_tags, lifting) snd_conv)
  moreover have "list_all (\<lambda>(_, a). \<not> is_ok a) tr" if "\<not> accepted"
    using that acc by (auto simp: list_all_iff list_ex_iff)
  moreover have "(c', r) = (if \<not> accepted then (case last_error of Some e \<Rightarrow> (d, Err e) | None \<Rightarrow> (d, Ok accepted))
      else (d, Ok accepted))"
    using assms d False by (simp add: transmit_staple_def Let_def)
  ultimately show ?thesis using tr(1,2) acc \<open>tr \<noteq> []\<close> by (intro exI[of _ tr]) (cases accepted; fastforce)
qed

theorem transmit_staple_spec_witness:
  "\<exists>v st c' tr. transmit_staple (ref_env (voting_node v) id) st (ref_client (ref_env (voting_node v) id) [''rep''] (0 :: nat)) =
       (c', Inr True) \<and> length tr = 1 \<and> list_ex (\<lambda>(_, a). is_ok a) tr \<and>
     answers (\<lambda>p. nt_publish_staple (voting_node v :: (string, nat) node_transport) (pk_transport p) st) (tr :: (string rep_target \<times> _) list)"
proof -
  obtain b v st where "vote_staple_try_new ref_slib [b] [v] default_vote_config 1000 = Inr st" using ref_staple by blast
  let ?E = "ref_env (voting_node v) id :: (string, nat) client_env" and ?c = "ref_client (ref_env (voting_node v) id) [''rep''] (0 :: nat)"
  have one: "one_rep ?c" by (rule ref_client_one_rep)
  then obtain c' where c': "transmit_staple ?E st ?c = (c', Inr True)" using ref_publish by metis
  obtain p where "snapshot_picks ?c = [p]" using one_rep_picks[OF one] by blast
  then obtain tr where "mset (map fst tr) = {#p#}" "list_ex (\<lambda>(_, a). is_ok a) tr"
    "answers (\<lambda>p. nt_publish_staple (ce_transport ?E) (pk_transport p) st) tr"
    using transmit_staple_spec[OF c'] by auto
  moreover from this(1) have "length tr = 1" by (metis length_map size_mset size_single)
  ultimately show ?thesis using c' by (intro exI[of _ v] exI[of _ st] exI[of _ c'] exI[of _ tr]) simp
qed

definition vote_contacts :: "('t, 'w) client_env \<Rightarrow> vote list \<Rightarrow> ('t, 'w) client \<Rightarrow> 't rep_target list" where
  "vote_contacts E prior_votes c =
     filter (\<lambda>p. kc_single_rep c \<or> prior_votes = [] \<or> pk_key p \<in> issuer_key (ce_crypto E) ` set prior_votes)
       (snapshot_picks c)"

lemma contacts_refresh [simp]: "vote_contacts E prior (ensure_refresh c) = vote_contacts E prior c"
  by (simp add: vote_contacts_def)

lemma vote_contacts_eq:
  "(if kc_single_rep c then snapshot_picks c else contacts_for (ce_crypto E) (snapshot_picks c) prior) = vote_contacts E prior c"
  by (auto simp: vote_contacts_def contacts_for_def)

text \<open>C12: a voting round asks every representative, or in the second round exactly those that voted in
  the first one, each with its own quote.  It returns the votes that were granted, in the order in
  which they came in; when none was granted it fails with an error of a representative of greatest
  weight.
\<close>
theorem request_votes_spec:
  assumes "request_votes E blocks prior quotes c = (c', r)"
  shows "\<exists>tr. mset (map fst tr) = mset (vote_contacts E prior c) \<and> answers (ask_vote E blocks prior quotes) tr \<and>
    (case r of
       Inr votes \<Rightarrow> votes = granted tr \<and> votes \<noteq> []
     | Inl e \<Rightarrow> granted tr = [] \<and> (if tr = [] then e = CNoRepresentatives else \<exists>weight. top_error tr (weight, e)))"
proof (cases "vote_contacts E prior c = []")
  case True
  then show ?thesis using assms vote_contacts_eq[of c E prior]
    by (intro exI[of _ "[]"]) (auto simp: request_votes_def Let_def answers_def split: if_splits)
next
  case False
  obtain d votes err where d: "drain E (ask_vote E blocks prior quotes) on_vote (vote_contacts E prior c) ([], None)
      (ensure_refresh c) = (d, votes, err)" by (metis prod_cases3)
  obtain tr where tr: "mset (map fst tr) = mset (vote_contacts E prior c)" "answers (ask_vote E blocks prior quotes) tr"
    "(votes, err) = fold (\<lambda>(p, r). vote_acc p r) tr ([], None)"
    using drain_trace_pair[OF d on_vote_acc] .
  have "tr \<noteq> []" using tr(1) False by auto
  have votes: "votes = granted tr" using vote_fold_votes[of tr "([], None)"] tr(3) by (metis append_Nil fst_conv)
  have "case err of None \<Rightarrow> \<not> list_ex (\<lambda>(_, r). \<not> is_ok r) tr | Some we \<Rightarrow> top_error tr we"
    using vote_fold_error[where acc = "([], None)" and done_tr = "[]" and tr = tr] unfolding tr(3)[symmetric]
    by (auto split: option.splits)
  moreover have "list_ex (\<lambda>(_, r). \<not> is_ok r) tr" if "granted tr = []"
    using that \<open>tr \<noteq> []\<close> unfolding granted_Nil by (cases tr) auto
  ultimately have "\<exists>weight e. err = Some (weight, e) \<and> top_error tr (weight, e)" if "granted tr = []"
    using that by (auto split: option.splits)
  moreover have "request_votes E blocks prior quotes c =
      (if votes = [] then (d, Err (case err of Some (_, e) \<Rightarrow> e | None \<Rightarrow> CQuorumNotReached)) else (d, Ok votes))"
    using d False unfolding request_votes_def Let_def vote_contacts_eq contacts_refresh by simp
  ultimately show ?thesis using assms tr(1,2) votes \<open>tr \<noteq> []\<close>
    by (intro exI[of _ tr]) (auto split: if_splits)
qed

theorem request_votes_spec_witness:
  "\<exists>v c' tr. request_votes (ref_env (voting_node v) id) [] [] [] (ref_client (ref_env (voting_node v) id) [''rep''] (0 :: nat)) =
       (c', Inr [v]) \<and> granted (tr :: (string rep_target \<times> _) list) = [v] \<and> 
     answers (ask_vote (ref_env (voting_node v) id :: (string, nat) client_env) [] [] []) tr"
proof -
  obtain b v st where "vote_staple_try_new ref_slib [b] [v] default_vote_config 1000 = Inr st" using ref_staple by blast
  let ?E = "ref_env (voting_node v) id :: (string, nat) client_env" and ?c = "ref_client (ref_env (voting_node v) id) [''rep''] (0 :: nat)"
  obtain c' where c': "request_votes ?E [] [] [] ?c = (c', Inr [v])" using ref_votes[OF ref_client_one_rep] by metis
  obtain tr where "answers (ask_vote ?E [] [] []) tr" "[v] = granted tr" using request_votes_spec[OF c'] by auto
  then show ?thesis using c' by (intro exI[of _ v] exI[of _ c'] exI[of _ tr]) simp
qed

section \<open>Transmission\<close>

definition fee_extension :: "block list \<Rightarrow> vote list \<Rightarrow> block list \<Rightarrow> bool" where
  "fee_extension blocks temporary all \<longleftrightarrow>
     (if votes_require_fee temporary then \<exists>fee_block. all = blocks @ [fee_block] else all = blocks)"

lemma with_fee_block_ok:
  "with_fee_block E blocks temporary moment options c = Some (c', Inr all) \<Longrightarrow> fee_extension blocks temporary all"
  by (auto simp: with_fee_block_def fee_extension_def task_bind_ok split: if_splits)

lemma transmit_round_ok:
  assumes "transmit_round E blocks options c = Some (c', Inr accepted)"
  obtains temporary all permanent staple c1 c2 c3 where
    "request_votes E blocks [] (to_quotes options) c = (c1, Inr temporary)"
    "with_fee_block E blocks temporary (client_now E c) options c1 = Some (c2, Inr all)"
    "request_votes E all temporary [] c2 = (c3, Inr permanent)"
    "vote_staple_try_new (ce_staple E) all permanent default_vote_config (client_now E c) = Inr staple"
    "transmit_staple E staple c3 = (c', Inr accepted)"
  using assms unfolding transmit_round_def Let_def task_bind_ok
  by (auto simp: eq_commute[of "Inr _" "map_err _ _"])

text \<open>The votes of a successful round are the answers of its contacts.\<close>

lemma request_votes_granted:
  assumes "request_votes E blocks prior quotes c = (c', Inr votes)"
  obtains tr where "mset (map fst tr) = mset (vote_contacts E prior c)" "answers (ask_vote E blocks prior quotes) tr"
    "votes = granted tr" "votes \<noteq> []"
proof -
  obtain d vs err where d: "drain E (ask_vote E blocks prior quotes) on_vote (vote_contacts E prior c) ([], None)
      (ensure_refresh c) = (d, vs, err)" by (metis prod_cases3)
  obtain tr where tr: "mset (map fst tr) = mset (vote_contacts E prior c)" "answers (ask_vote E blocks prior quotes) tr"
    "(vs, err) = fold (\<lambda>(p, r). vote_acc p r) tr ([], None)"
    using drain_trace_pair[OF d on_vote_acc] .
  have "vs = granted tr" using vote_fold_votes[of tr "([], None)"] tr(3) by (metis append_Nil fst_conv)
  moreover have "votes = vs" "votes \<noteq> []"
    using assms d unfolding request_votes_def Let_def vote_contacts_eq contacts_refresh by (auto split: if_splits)
  ultimately show ?thesis using that tr(1,2) by blast
qed

text \<open>A publication that succeeds was accepted by one of the representatives it contacted.\<close>

lemma transmit_staple_accepted:
  assumes "transmit_staple E staple c = (c', Inr accepted)"
  obtains tr where "mset (map fst tr) = mset (snapshot_picks c)"
    "answers (\<lambda>p. nt_publish_staple (ce_transport E) (pk_transport p) staple) tr"
    "list_ex (\<lambda>(_, a). is_ok a) tr" "accepted"
proof -
  let ?run = "\<lambda>p. nt_publish_staple (ce_transport E) (pk_transport p) staple"
  obtain d a err where d: "drain E ?run on_publish (snapshot_picks c) (False, None) (ensure_refresh c) = (d, a, err)"
    by (metis prod_cases3)
  obtain tr where tr: "mset (map fst tr) = mset (snapshot_picks c)" "answers ?run tr"
    "(a, err) = fold (\<lambda>(p, r). publish_acc p r) tr (False, None)"
    using drain_trace_pair[OF d on_publish_acc] .
  have accepted: "accepted" using transmit_staple_ok[OF assms] .
  have "a" using assms d accepted by (auto simp: transmit_staple_def Let_def split: if_splits option.splits)
  then have "list_ex (\<lambda>(_, r). is_ok r) tr"
    using publish_fold(1)[of tr "(False, None)"] unfolding tr(3)[symmetric] by simp
  then show ?thesis using that tr(1,2) accepted by blast
qed

text \<open>
  One retry of a transmission: the round failed for want of voting weight, and the client slept.
\<close>

definition retries ::
    "('t, 'w) client_env \<Rightarrow> block list \<Rightarrow> ('t, 'w) client transmit_options \<Rightarrow> ('t, 'w) client \<Rightarrow> ('t, 'w) client \<Rightarrow> bool" where
  "retries E blocks options c d \<longleftrightarrow>
     (\<exists>c1 e delay. transmit_round E blocks options c = Some (c1, Inl e) \<and>
        is_ledger_code e ''LEDGER_INSUFFICIENT_VOTING_WEIGHT'' \<and>
        d = c1\<lparr>kc_world := rt_sleep E delay (kc_world c1)\<rparr>)"

lemma transmit_loop_ok:
  assumes "transmit_loop E blocks options n delay attempt c = Some (c', Inr accepted)"
  shows "\<exists>start. (retries E blocks options)\<^sup>*\<^sup>* c start \<and> transmit_round E blocks options start = Some (c', Inr accepted)"
  using assms
proof (induction "unat n - unat attempt" arbitrary: delay attempt c rule: less_induct)
  case less
  obtain d x where d: "transmit_round E blocks options c = Some (d, x)"
    using less.prems by (subst (asm) transmit_loop.simps) (auto split: option.splits)
  show ?case
  proof (cases x)
    case (Inl e)
    let ?d = "d\<lparr>kc_world := rt_sleep E delay (kc_world d)\<rparr>"
    from Inl have "\<not> n \<le> attempt" and code: "is_ledger_code e ''LEDGER_INSUFFICIENT_VOTING_WEIGHT''" and
      "transmit_loop E blocks options n (next_backoff delay (cfg_max_backoff_ms (kc_config d))) (attempt + 1) ?d
        = Some (c', Inr accepted)"
      using less.prems d by (subst (asm) transmit_loop.simps, auto split: if_splits)+
    then obtain start where s: "(retries E blocks options)\<^sup>*\<^sup>* ?d start" "transmit_round E blocks options start = Some (c', Inr accepted)"
      using less.hyps[OF retries_decrease] by blast
    have "retries E blocks options c ?d" using d Inl code by (auto simp: retries_def)
    then show ?thesis using s converse_rtranclp_into_rtranclp by meson
  next
    case (Inr a)
    then show ?thesis using less.prems d by (subst (asm) transmit_loop.simps) auto
  qed
qed

text \<open>C10: a successful transmission published a valid staple that representatives voted for twice.  In
  its last attempt, which starts from the caller's client after the retries before it, every
  representative is asked and the granted votes are the temporary ones; one fee block of the
  caller's factory is added exactly when they require a fee; the votes of the staple are the votes
  granted by the second round, each by a representative whose own vote is among the temporary ones
  (a client of a single representative asks it whatever key it votes with); the staple satisfies the
  staple specification at the moment the attempt began; and at least one of the representatives it
  was sent to accepted it.
\<close>
theorem transmission_publishes_valid_staple:
  assumes "transmit_with_optional_fee E blocks options c = Some (c', Inr accepted)"
  shows "accepted \<and> (\<exists>start first c1 c2 all second c3 staple published.
    (retries E blocks options)\<^sup>*\<^sup>* c start \<and>
    request_votes E blocks [] (to_quotes options) start = (c1, Inr (granted first)) \<and>
    mset (map fst first) = mset (snapshot_picks start) \<and> answers (ask_vote E blocks [] (to_quotes options)) first \<and>
    with_fee_block E blocks (granted first) (client_now E start) options c1 = Some (c2, Inr all) \<and>
    fee_extension blocks (granted first) all \<and>
    request_votes E all (granted first) [] c2 = (c3, Inr (granted second)) \<and>
    answers (ask_vote E all (granted first) []) second \<and>
    list_all (\<lambda>(p, _). p \<in> set (snapshot_picks c2) \<and>
      (kc_single_rep c2 \<or> (\<exists>v \<in> set (granted first). issuer_key (ce_crypto E) v = pk_key p))) second \<and>
    staple_spec (ce_staple E) default_vote_config (client_now E start) (mset all) (mset (granted second)) staple \<and>
    transmit_staple E staple c3 = (c', Inr accepted) \<and>
    mset (map fst published) = mset (snapshot_picks c3) \<and>
    answers (\<lambda>p. nt_publish_staple (ce_transport E) (pk_transport p) staple) published \<and>
    list_ex (\<lambda>(_, a). is_ok a) published)"
proof -
  obtain start where start: "(retries E blocks options)\<^sup>*\<^sup>* c start"
    "transmit_round E blocks options start = Some (c', Inr accepted)"
    using assms transmit_loop_ok unfolding transmit_with_optional_fee_def by blast
  obtain temporary all permanent staple c1 c2 c3 where r:
    "request_votes E blocks [] (to_quotes options) start = (c1, Inr temporary)"
    "with_fee_block E blocks temporary (client_now E start) options c1 = Some (c2, Inr all)"
    "request_votes E all temporary [] c2 = (c3, Inr permanent)"
    "vote_staple_try_new (ce_staple E) all permanent default_vote_config (client_now E start) = Inr staple"
    "transmit_staple E staple c3 = (c', Inr accepted)"
    using start(2) by (rule transmit_round_ok)
  obtain first where first: "mset (map fst first) = mset (vote_contacts E [] start)"
    "answers (ask_vote E blocks [] (to_quotes options)) first" "temporary = granted first" "temporary \<noteq> []"
    using request_votes_granted[OF r(1)] .
  obtain second where second: "mset (map fst second) = mset (vote_contacts E temporary c2)"
    "answers (ask_vote E all temporary []) second" "permanent = granted second"
    using request_votes_granted[OF r(3)] by blast
  obtain published where published: "mset (map fst published) = mset (snapshot_picks c3)"
    "answers (\<lambda>p. nt_publish_staple (ce_transport E) (pk_transport p) staple) published"
    "list_ex (\<lambda>(_, a). is_ok a) published" "accepted"
    using transmit_staple_accepted[OF r(5)] .
  have "set (map fst second) = set (vote_contacts E temporary c2)" using mset_eq_setD[OF second(1)] .
  then have "list_all (\<lambda>(p, _). p \<in> set (snapshot_picks c2) \<and>
      (kc_single_rep c2 \<or> (\<exists>v \<in> set temporary. issuer_key (ce_crypto E) v = pk_key p))) second"
    using first(4) by (force simp: list_all_iff vote_contacts_def)
  note voters = this
  have "vote_contacts E [] start = snapshot_picks start" by (simp add: vote_contacts_def)
  note asked = first(1)[unfolded this]
  note r = r[unfolded first(3) second(3)]
  show ?thesis
    by (intro conjI exI, fact published(4), rule start(1), rule r(1), rule asked, rule first(2), rule r(2),
        rule with_fee_block_ok[OF r(2)], rule r(3), rule second(2)[unfolded first(3)], rule voters[unfolded first(3)],
        rule vote_staple_try_new_sound[OF r(4)], rule r(5), rule published(1), rule published(2), rule published(3))
qed

text \<open>The only representative votes under its own key, and the client keeps the contact filter.\<close>

theorem transmission_publishes_valid_staple_witness:
  "\<exists>v b (c :: (string, nat) client) c'. transmit_with_optional_fee (ref_env (voting_node v) id) [b] transmit_options_default c = Some (c', Inr True) \<and>
     map rr_key (kc_reps c) = [issuer_key ref_lib v] \<and> \<not> kc_single_rep c \<and>
     (\<exists>first second (c2 :: (string, nat) client) all staple. fee_extension [b] (granted first) all \<and>
       list_all (\<lambda>(p, _). p \<in> set (snapshot_picks c2) \<and>
         (kc_single_rep c2 \<or> (\<exists>v \<in> set (granted (first :: (string rep_target \<times> (client_error + vote)) list)). issuer_key ref_lib v = pk_key p)))
         (second :: (string rep_target \<times> (client_error + vote)) list) \<and>
       staple_spec ref_slib default_vote_config 1000 (mset all) (mset (granted second)) staple)"
proof -
  obtain b v st where bv: "vote_staple_try_new ref_slib [b] [v] default_vote_config 1000 = Inr st" "dv_fees (vote_decoded v) = None"
    using ref_staple by blast
  let ?E = "ref_env (voting_node v) id :: (string, nat) client_env"
  let ?key = "issuer_key ref_lib v"
  let ?c = "with_parts ?E [ref_part ?key] client_config_default False Map.empty (0 :: nat)"
  have c: "one_voter ?key ?c" "\<not> kc_single_rep ?c" "map rr_key (kc_reps ?c) = [?key]"
    by (simp_all add: one_voter_def with_parts_def transports_ok_def ref_part_def rep_record_new_def)
  have "ce_crypto ?E = ref_lib" by simp
  then obtain c' where t: "transmit_with_optional_fee ?E [b] transmit_options_default ?c = Some (c', Inr True)"
    using voter_transmission[OF bv c(1), of id] by auto
  have "\<exists>first second (c2 :: (string, nat) client) all staple. fee_extension [b] (granted first) all \<and>
       list_all (\<lambda>(p, _). p \<in> set (snapshot_picks c2) \<and>
         (kc_single_rep c2 \<or> (\<exists>v \<in> set (granted (first :: (string rep_target \<times> (client_error + vote)) list)). issuer_key ref_lib v = pk_key p)))
         (second :: (string rep_target \<times> (client_error + vote)) list) \<and>
       staple_spec ref_slib default_vote_config 1000 (mset all) (mset (granted second)) staple"
    using transmission_publishes_valid_staple[OF t]
    unfolding ref_env_sel ref_now ref_slib_sel crypto_ref_blib
    by (elim conjE exE) (intro exI conjI, assumption+)
  then show ?thesis using t c(2,3) by (intro exI[of _ v] exI[of _ b] exI[of _ ?c] exI[of _ c'] conjI)
qed

lemma act_returns [simp]: "task_run m c \<noteq> None" "task_of r c \<noteq> None" "task_return x c \<noteq> None"
  by (simp_all add: task_run_def task_of_def task_return_def)

lemma bind_returns: "m c \<noteq> None \<Longrightarrow> (\<And>x c. f x c \<noteq> None) \<Longrightarrow> task_bind m f c \<noteq> None"
  by (auto simp: task_bind_def split: option.splits sum.splits)

lemma transmit_round_returns:
  assumes "\<forall>generate staple priority c. to_generate_fee_block options = Some generate \<longrightarrow> generate staple priority c \<noteq> None"
  shows "transmit_round E blocks options c \<noteq> None"
proof -
  have "fee_block_from_options E blocks votes moment options c \<noteq> None" for votes moment c
    using assms by (cases "to_generate_fee_block options")
      (auto simp: fee_block_from_options_def task_bind_def task_of_def split: sum.splits)
  then have "with_fee_block E blocks votes moment options c \<noteq> None" for votes moment c
    unfolding with_fee_block_def
    by (cases "votes_require_fee votes")
      (simp_all only: if_True if_False act_returns bind_returns not_False_eq_True)
  then show ?thesis unfolding transmit_round_def Let_def by (intro bind_returns) auto
qed

lemma transmit_loop_returns:
  assumes "\<And>c. transmit_round E blocks options c \<noteq> None"
  shows "transmit_loop E blocks options n delay attempt c \<noteq> None"
proof (induction "unat n - unat attempt" arbitrary: delay attempt c rule: less_induct)
  case less
  obtain d x where d: "transmit_round E blocks options c = Some (d, x)" using assms[of c] by auto
  show ?case using d less.hyps[OF retries_decrease]
    by (subst transmit_loop.simps) (auto split: sum.split)
qed

text \<open>C13: a transmission always returns, whatever the representatives answer, as long as the fee block
  factory it was given returns; the retries on insufficient voting weight are bounded.
\<close>
theorem transmission_returns:
  assumes "\<forall>generate staple priority c. to_generate_fee_block options = Some generate \<longrightarrow> generate staple priority c \<noteq> None"
  shows "\<exists>c' r. transmit_with_optional_fee E blocks options c = Some (c', r)"
  using transmit_loop_returns[OF transmit_round_returns[OF assms], of E blocks "cfg_max_retries (kc_config c)" 1 0 c]
  by (auto simp: transmit_with_optional_fee_def)

theorem transmission_returns_witness:
  "\<exists>c' r. transmit_with_optional_fee (ref_env silent_node id) [] transmit_options_default
     (ref_client (ref_env silent_node id) [''rep''] (0 :: nat)) = Some (c', r)"
  by (rule transmission_returns) (simp add: transmit_options_default_def)

end
