(* ===== verification/DispatchProps.thy ===== *)
theory DispatchProps
  imports ClientProps
begin

text \<open>
  When a dispatched call returns, what a cursor-paged read collects, and which pending block is
  reported.
\<close>

section \<open>Dispatch\<close>

interpretation config: client_inv E "\<lambda>c. kc_config c = cfg" for E :: "('t, 'w) client_env" and cfg
proof unfold_locales
  fix c :: "('t, 'w) client" and fetched discover
  assume c: "kc_config c = cfg"
  have "kc_config (apply_rep E d entry) = kc_config d" for d :: "('t, 'w) client" and entry
    by (simp add: apply_rep_def split: prod.split option.split)
  then have "kc_config (foldl (apply_rep E) d entries) = kc_config d" for d :: "('t, 'w) client" and entries
    by (induction entries arbitrary: d) auto
  then show "kc_config (apply_reps E fetched discover c) = cfg" using c by (simp add: apply_reps_def Let_def)
qed (simp_all add: boost_def decay_def)

definition vote_conflict :: "client_error \<Rightarrow> bool" where
  "vote_conflict e \<longleftrightarrow> (case e of CNode (KLedgerVote _ _ _) \<Rightarrow> True | _ \<Rightarrow> False)"

definition conflict_free :: "('t \<Rightarrow> ('w, 'a) request) \<Rightarrow> bool" where
  "conflict_free request \<longleftrightarrow> (\<forall>t w e. snd (request t w) = Inl e \<longrightarrow> \<not> vote_conflict e)"

lemma no_conflict_no_recovery: "\<not> vote_conflict e \<Longrightarrow> try_recover_on_error E e c = (c, False)"
  by (simp add: vote_conflict_def try_recover_on_error_def split: client_error.splits keeta_net_error.splits)

lemma run_call_answer: "run_call E request c = (c', Some r) \<Longrightarrow> r = snd (request (kc_world c))"
  by (auto simp: run_call_def Let_def call_node_def map_prod_def split: if_splits option.splits prod.splits)

lemma dispatch_once_not_recovered:
  assumes "conflict_free request" and "dispatch_once E request c = (c', d)"
  shows "d \<noteq> Recovered"
proof (cases "pick_target c")
  case (Some p)
  obtain c1 r where r: "run_call E (request (pk_transport p)) c = (c1, r)" by force
  have "try_recover_on_error E e c1 = (c1, False)" if "r = Some (Inl e)" for e
    using run_call_answer[of E "request (pk_transport p)" c c1] r that assms(1) no_conflict_no_recovery
    unfolding conflict_free_def by metis
  then show ?thesis using assms(2) Some r
    by (auto simp: dispatch_once_def split: option.splits sum.splits)
qed (use assms(2) in \<open>simp add: dispatch_once_def\<close>)

lemma dispatch_loop_returns:
  assumes "conflict_free request" and "kc_config c = cfg"
  shows "\<exists>y. dispatch_loop E request delay attempt c = Some y"
  using assms(2)
proof (induction "unat (cfg_max_retries cfg) - unat attempt" arbitrary: delay attempt c rule: less_induct)
  case less
  obtain d x where d: "dispatch_once E request c = (d, x)" by force
  have cfg: "kc_config d = cfg" using config.dispatch_once_inv[OF less.prems d] .
  show ?case
  proof (cases "\<exists>e. x = Failed e \<and> \<not> cfg_max_retries cfg \<le> attempt")
    case True
    then have "\<exists>y. dispatch_loop E request (next_backoff delay (cfg_max_backoff_ms cfg)) (attempt + 1)
        (d\<lparr>kc_world := rt_sleep E delay (kc_world d)\<rparr>) = Some y"
      using less.hyps[OF retries_decrease] cfg by auto
    then show ?thesis using d True cfg by (subst dispatch_loop.simps) auto
  next
    case False
    then show ?thesis using d cfg dispatch_once_not_recovered[OF assms(1) d]
      by (subst dispatch_loop.simps) (cases x; auto)
  qed
qed

text \<open>A dispatched call returns, after at most the configured number of retries, when no node
  answers it with a ledger vote conflict.
\<close>
theorem dispatch_returns:
  assumes "conflict_free request"
  shows "\<exists>c' r. dispatch_any E request c = Some (c', r)"
  using dispatch_loop_returns[OF assms refl, of E 1 0 "ensure_refresh c"] by (simp add: dispatch_any_def)

theorem dispatch_returns_witness:
  "\<exists>c' r. dispatch_any (ref_env silent_node id) (nt_node_version (silent_node :: (string, nat) node_transport))
     (ref_client (ref_env silent_node id) [''rep''] 0) = Some (c', r)"
  by (rule dispatch_returns) (simp add: conflict_free_def silent_node_def vote_conflict_def)

section \<open>A dispatched call that never returns\<close>

text \<open>
  Two nodes, of which one is always a block behind the other, and a read that is always answered
  with a vote conflict of one account: each attempt synchronises the account, and the retry after a
  synchronisation is not counted.
\<close>

definition lagging_nodes :: "block \<Rightarrow> vote \<Rightarrow> (bool, nat) node_transport" where
  "lagging_nodes b v =
     silent_node\<lparr>
       nt_account_state := (\<lambda>ahead _ w. (w, Ok
         \<lparr>as_representative = None, as_head = Some (blk_hash b), as_height = Some (int w + (if ahead then 1 else 0)),
          as_info = None, as_supply = None, as_balances = []\<rparr>)),
       nt_successor_block := (\<lambda>_ _ w. (w, Ok (Some b))),
       nt_block_votes := (\<lambda>_ _ _ w. (w, Ok (Some [v]))),
       nt_block := (\<lambda>_ _ _ w. (w, Ok (Some b))),
       nt_publish_staple := (\<lambda>_ _ w. (Suc w, Ok True))\<rparr>"

definition lagging_env :: "block \<Rightarrow> vote \<Rightarrow> (bool, nat) client_env" where
  "lagging_env b v = ref_env (lagging_nodes b v) (\<lambda>url. url = ''ahead'')"

definition conflicting :: "'t \<Rightarrow> ('w, unit) request" where
  "conflicting _ w =
     (w, Err (CNode (KLedgerVote ''LEDGER_NOT_SUCCESSOR'' '''' [account_to_string ref_lib ref_account])))"

lemma lagging_sel [simp]:
  "nt_account_state (lagging_nodes b v) ahead a w = (w, Inr \<lparr>as_representative = None, as_head = Some (blk_hash b),
     as_height = Some (int w + (if ahead then 1 else 0)), as_info = None, as_supply = None, as_balances = []\<rparr>)"
  "nt_successor_block (lagging_nodes b v) ahead h w = (w, Inr (Some b))"
  "nt_block_votes (lagging_nodes b v) ahead h side w = (w, Inr (Some [v]))"
  "nt_block (lagging_nodes b v) ahead h side' w = (w, Inr (Some b))"
  "nt_publish_staple (lagging_nodes b v) ahead st w = (Suc w, Inr True)"
  by (simp_all add: lagging_nodes_def)

definition two_reps :: "(bool, nat) client \<Rightarrow> bool" where
  "two_reps c \<longleftrightarrow> map rr_key (kc_reps c) = [''behind'', ''ahead''] \<and>
     kc_transports c = [''behind'' \<mapsto> False, ''ahead'' \<mapsto> True] \<and> cfg_request_timeout_ms (kc_config c) = 0 \<and> kc_single_rep c"

lemma two_reps_world [simp]: "two_reps (c\<lparr>kc_world := w\<rparr>) = two_reps c"
  by (simp add: two_reps_def)

lemma two_reps_picks:
  assumes "two_reps c"
  obtains m n where "snapshot_picks c =
    [\<lparr>pk_key = ''behind'', pk_weight = m, pk_transport = False\<rparr>, \<lparr>pk_key = ''ahead'', pk_weight = n, pk_transport = True\<rparr>]"
proof -
  obtain r s where "kc_reps c = [r, s]" "rr_key r = ''behind''" "rr_key s = ''ahead''"
    using assms by (auto simp: two_reps_def)
  then show thesis using that assms
    by (simp add: two_reps_def snapshot_picks_def rep_snapshot_def bind_transports_def to_rep_ref_def List.map_filter_simps)
qed

lemma two_reps_target:
  assumes "two_reps c"
  shows "pick_target c \<noteq> None"
proof -
  obtain q where q: "rep_pick (kc_reps c) = Some q" using assms by (cases "rep_pick (kc_reps c)") (auto simp: two_reps_def)
  then obtain b where "b \<in> set (kc_reps c)" "q = to_rep_ref b" by (rule rep_pick_member)
  then have "rf_key q \<in> {''behind'', ''ahead''}"
    using assms unfolding two_reps_def to_rep_ref_def by (metis (no_types, lifting) image_eqI list.set(1) list.set(2) list.set_map rep_ref.select_convs(1))
  then show ?thesis using q assms by (auto simp: pick_target_def two_reps_def)
qed

lemma two_reps_refresh: "two_reps c \<Longrightarrow> ensure_refresh c = c"
  by (simp add: two_reps_def ensure_refresh_def)

lemma lagging_sync:
  assumes st: "vote_staple_try_new ref_slib [b] [v] default_vote_config 0 = Inr st"
    and v: "dv_blocks (vote_decoded v) = [blk_hash b]" "dv_validity (vote_decoded v) = \<lparr>valid_from = 0, valid_to = 300000\<rparr>"
    and c: "two_reps c"
  shows "sync_account (lagging_env b v) ref_account True c = (c\<lparr>kc_world := Suc (kc_world c)\<rparr>, Inr (Some st))"
proof -
  obtain m n where picks: "snapshot_picks c =
    [\<lparr>pk_key = ''behind'', pk_weight = m, pk_transport = False\<rparr>, \<lparr>pk_key = ''ahead'', pk_weight = n, pk_transport = True\<rparr>]"
    using two_reps_picks[OF c] .
  have moment: "staple_moment ref_chrono [v] x = 0" for x
    by (simp add: staple_moment_def v(2) overlapping_moment_def overlap_step_def block_time_from_unix_millis_def
        ref_chrono_def year_start_def)
  have compose: "compose_staple_on (lagging_env b v) t h side c = (c, Inr (Some st))" for t h side
    by (simp add: compose_staple_on_def lagging_env_def act_bind_def call_node_def v(1) act_return_def moment st Let_def)
  show ?thesis
    by (simp add: sync_account_def two_reps_refresh[OF c] picks Let_def head_info_def call_node_def height_value_def
        act_bind_def sync_finish_def)
      (simp add: lagging_env_def compose[unfolded lagging_env_def] call_node_def head_info_def height_value_def
        act_bind_def sync_finish_def)
qed

lemma lagging_dispatch:
  assumes "vote_staple_try_new ref_slib [b] [v] default_vote_config 0 = Inr st"
    and "dv_blocks (vote_decoded v) = [blk_hash b]" "dv_validity (vote_decoded v) = \<lparr>valid_from = 0, valid_to = 300000\<rparr>"
    and "two_reps c"
  shows "dispatch_once (lagging_env b v) conflicting c = (c\<lparr>kc_world := Suc (kc_world c)\<rparr>, Recovered)"
proof -
  obtain p where p: "pick_target c = Some p" using two_reps_target[OF assms(4)] by blast
  have "account_from_str ref_lib (account_to_string ref_lib ref_account) = Inr ref_account"
    by (rule ref.account_from_str_roundtrip) simp
  then have "try_recover_on_error (lagging_env b v)
      (CNode (KLedgerVote ''LEDGER_NOT_SUCCESSOR'' '''' [account_to_string ref_lib ref_account])) c =
      (c\<lparr>kc_world := Suc (kc_world c)\<rparr>, True)"
    using lagging_sync[OF assms] by (simp add: try_recover_on_error_def) (simp add: lagging_env_def)
  then show ?thesis using p assms(4)
    by (simp add: dispatch_once_def run_call_def two_reps_def conflicting_def call_node_def)
qed

lemma lagging_loop:
  assumes "vote_staple_try_new ref_slib [b] [v] default_vote_config 0 = Inr st"
    and "dv_blocks (vote_decoded v) = [blk_hash b]" "dv_validity (vote_decoded v) = \<lparr>valid_from = 0, valid_to = 300000\<rparr>"
    and "two_reps c"
  shows "dispatch_loop (lagging_env b v) conflicting delay attempt c = None"
proof -
  have "E' = lagging_env b v \<longrightarrow> request = conflicting \<longrightarrow> two_reps c \<longrightarrow> False"
    if "dispatch_loop E' request delay attempt c = Some y" for E' request delay attempt c y
  proof (induct rule: dispatch_loop.raw_induct[where
      P = "\<lambda>E' request delay attempt c y. E' = lagging_env b v \<longrightarrow> request = conflicting \<longrightarrow> two_reps c \<longrightarrow> False", OF _ that])
    case (1 loop E' request delay attempt c y)
    show ?case
    proof (intro impI)
      assume "E' = lagging_env b v" "request = conflicting" and c: "two_reps c"
      then have "loop (lagging_env b v) conflicting delay attempt (c\<lparr>kc_world := Suc (kc_world c)\<rparr>) = Some y"
        using 1(2) lagging_dispatch[OF assms(1-3) c] by simp
      from 1(1)[OF this] show False using c by simp
    qed
  qed
  then show ?thesis using assms(4) by (cases "dispatch_loop (lagging_env b v) conflicting delay attempt c") blast+
qed

lemma lagging_staple:
  obtains b v st where "vote_staple_try_new ref_slib [b] [v] default_vote_config 0 = Inr st"
    "dv_blocks (vote_decoded v) = [blk_hash b]" "dv_validity (vote_decoded v) = \<lparr>valid_from = 0, valid_to = 300000\<rparr>"
proof -
  obtain b v st where s: "vote_staple_try_new ref_slib [b] [v] default_vote_config 1000 = Inr st"
    and v: "dv_fees (vote_decoded v) = None" "dv_validity (vote_decoded v) = \<lparr>valid_from = 0, valid_to = 300000\<rparr>"
    using ref_staple by blast
  have "reorder_blocks_to_match [b] (dv_blocks (vote_decoded v)) = Inr (vs_blocks st)"
    using s by (simp add: vote_staple_try_new_ok)
  then have blocks: "vs_blocks st = [b]" "dv_blocks (vote_decoded v) = [blk_hash b]" by (auto simp: reorder_iff)
  have "votes_agree default_vote_config 0 [v]"
    by (auto simp: votes_agree_def vote_acceptable_def vote_is_quote_def v ensure_active_at_def
        moment_is_before_from_def is_expired_at_def sat64_def default_vote_config_def)
  then have "vote_staple_try_new ref_slib [b] [v] default_vote_config 0 = Inr st"
    using s by (auto simp: vote_staple_try_new_ok)
  then show thesis using that blocks(2) v(2) by blast
qed

text \<open>C16: a dispatched call may retry forever.  The number of retries is bounded by the configuration
  only for attempts that fail; an attempt whose vote conflict could be synchronised is repeated
  without being counted, even with no retries configured.
\<close>
theorem dispatch_may_never_return:
  "\<exists>(E :: (bool, nat) client_env) (request :: bool \<Rightarrow> (nat, unit) request) c.
     cfg_max_retries (kc_config c) = 0 \<and> dispatch_any E request c = None"
proof -
  obtain b v st where s: "vote_staple_try_new ref_slib [b] [v] default_vote_config 0 = Inr st"
    "dv_blocks (vote_decoded v) = [blk_hash b]" "dv_validity (vote_decoded v) = \<lparr>valid_from = 0, valid_to = 300000\<rparr>"
    by (rule lagging_staple)
  let ?c = "with_parts (lagging_env b v) [ref_part ''behind'', ref_part ''ahead'']
    (config_with_max_retries 0 client_config_default) True Map.empty 0"
  have c: "two_reps ?c" "cfg_max_retries (kc_config ?c) = 0"
    by (simp_all add: two_reps_def with_parts_def ref_part_def rep_record_new_def lagging_env_def config_with_max_retries_def
        client_config_default_def)
  have "dispatch_any (lagging_env b v) conflicting ?c = None"
    using lagging_loop[OF s c(1)] by (simp add: dispatch_any_def two_reps_refresh[OF c(1)])
  then show ?thesis using c(2) by blast
qed

section \<open>Cursor-paged reads\<close>

text \<open>A node serves a sequence in pages of \<open>n\<close> items, with the cursor of a page at its first item.\<close>

definition serves_pages ::
    "('k option \<Rightarrow> ('c, 'i list \<times> 'k option) task) \<Rightarrow> ('c \<Rightarrow> bool) \<Rightarrow> nat \<Rightarrow> ('k option \<Rightarrow> nat) \<Rightarrow> (nat \<Rightarrow> 'k) \<Rightarrow> 'i list \<Rightarrow> bool" where
  "serves_pages fetch I n pos key xs \<longleftrightarrow>
     pos None = 0 \<and> (\<forall>i. pos (Some (key i)) = i) \<and>
     (\<forall>cursor c. I c \<longrightarrow> (\<exists>c'. I c' \<and> fetch cursor c = Some (c', Inr (take n (drop (pos cursor) xs),
        if pos cursor + n < length xs then Some (key (pos cursor + n)) else None))))"

lemma drain_pages:
  assumes "serves_pages fetch I n pos key xs" and "0 < n" and "I c"
  shows "\<exists>c'. I c' \<and> drain_cursor_pages fetch cursor items c = Some (c', Inr (items @ drop (pos cursor) xs))"
  using assms(3)
proof (induction "length xs - pos cursor" arbitrary: cursor items c rule: less_induct)
  case less
  let ?page = "take n (drop (pos cursor) xs)"
  obtain d where d: "I d" "fetch cursor c = Some (d, Inr (?page,
      if pos cursor + n < length xs then Some (key (pos cursor + n)) else None))"
    using assms(1) less.prems unfolding serves_pages_def by meson
  have next_pos: "pos (Some (key (pos cursor + n))) = pos cursor + n" using assms(1) by (simp add: serves_pages_def)
  show ?case
  proof (cases "pos cursor + n < length xs")
    case True
    then have "length xs - pos (Some (key (pos cursor + n))) < length xs - pos cursor" using next_pos assms(2) by simp
    from less.hyps[OF this d(1), of "items @ ?page"] obtain c' where "I c'"
      "drain_cursor_pages fetch (Some (key (pos cursor + n))) (items @ ?page) d =
        Some (c', Inr ((items @ ?page) @ drop (pos cursor + n) xs))" unfolding next_pos by blast
    moreover have "?page @ drop (pos cursor + n) xs = drop (pos cursor) xs" by (simp add: add.commute flip: drop_drop)
    moreover have "?page \<noteq> []" using True assms(2) by simp
    ultimately show ?thesis using d(2) True by (subst drain_cursor_pages.simps) simp
  next
    case False
    then have "?page = drop (pos cursor) xs" by simp
    then show ?thesis using d False by (subst drain_cursor_pages.simps) auto
  qed
qed

definition chain_fetch ::
    "('t, 'w) client_env \<Rightarrow> string \<Rightarrow> 32 word \<Rightarrow> bytes option \<Rightarrow> (('t, 'w) client, block list \<times> bytes option) task" where
  "chain_fetch E address page_limit cursor =
     task_bind (client_chain_page_cursor_raw E address
         \<lparr>cq_start = cursor, cq_end = None, cq_limit = Some (page_limit_value page_limit)\<rparr>) (\<lambda>page.
       task_return (cp_blocks page, cp_next_key page))"

text \<open>C18: reading a whole chain.  When the node serves the chain in pages of the limit it is sent, the
  read returns, and returns exactly the chain, for every page limit; a limit of zero is sent as one.
\<close>
theorem chain_all_reads_whole_chain:
  assumes "to_public_key_string (ce_crypto E) account = Inr address"
    and "serves_pages (chain_fetch E address page_limit) I (nat (page_limit_value page_limit)) pos key chain" and "I c"
  shows "\<exists>c'. client_chain_all E account page_limit c = Some (c', Inr chain)"
proof -
  have "max page_limit 1 \<noteq> (0 :: 32 word)" by (auto simp: max_def)
  then have "0 < nat (page_limit_value page_limit)" by (simp add: page_limit_value_def unat_gt_0)
  from drain_pages[OF assms(2) this assms(3), of None "[]"] assms(2)
  have "\<exists>c'. drain_cursor_pages (chain_fetch E address page_limit) None [] c = Some (c', Inr chain)"
    by (auto simp: serves_pages_def)
  moreover have "client_chain_all E account page_limit c = drain_cursor_pages (chain_fetch E address page_limit) None [] c"
    using assms(1) unfolding client_chain_all_def with_address_def chain_fetch_def[abs_def]
    by (simp add: task_bind_def[of "task_of _"] task_of_def)
  ultimately show ?thesis by simp
qed

definition paging_node :: "block list \<Rightarrow> ('t, 'w) node_transport" where
  "paging_node chain =
     silent_node\<lparr>nt_chain_page := (\<lambda>_ _ query w.
       let start = (case cq_start query of None \<Rightarrow> 0 | Some bs \<Rightarrow> length bs);
           n = nat (case cq_limit query of None \<Rightarrow> 100 | Some l \<Rightarrow> l)
       in (w, Ok \<lparr>cp_blocks = take n (drop start chain),
                 cp_next_key = (if start + n < length chain then Some (replicate (start + n) 0) else None)\<rparr>))\<rparr>"

definition answering :: "('t, 'w) client \<Rightarrow> bool" where
  "answering c \<longleftrightarrow> one_rep c \<and> cfg_request_timeout_ms (kc_config c) = 0"

lemma answering_dispatch:
  assumes "answering c" and "\<And>t w. request t w = (w, Inr x)"
  shows "\<exists>c'. dispatch_any E request c = Some (c', Inr x) \<and> answering c'"
proof -
  have c: "one_rep (ensure_refresh c)" "cfg_request_timeout_ms (kc_config (ensure_refresh c)) = 0"
    using assms(1) by (auto simp: answering_def) (simp add: ensure_refresh_def)
  obtain r where r: "kc_reps (ensure_refresh c) = [r]" "rr_key r = ''rep''" using c(1) by (auto simp: one_rep_def)
  obtain q where q: "rep_pick (kc_reps (ensure_refresh c)) = Some q" using r(1) by (cases "rep_pick (kc_reps (ensure_refresh c))") auto
  then have "q = to_rep_ref r" using rep_pick_member[OF q] r(1) by auto
  moreover obtain t where "kc_transports (ensure_refresh c) ''rep'' = Some t"
    using c(1) r by (auto simp: one_rep_def transports_ok_def)
  ultimately have "\<exists>p. pick_target (ensure_refresh c) = Some p" using q r by (auto simp: pick_target_def to_rep_ref_def)
  then obtain p where p: "pick_target (ensure_refresh c) = Some p" ..
  have "dispatch_once E request (ensure_refresh c) = (boost (pk_key p) (ensure_refresh c), Answered x)"
    using p c(2) assms(2) by (simp add: dispatch_once_def run_call_def call_node_def)
  moreover have "answering (boost (pk_key p) (ensure_refresh c))" using c by (simp add: answering_def) (simp add: boost_def)
  ultimately show ?thesis by (simp add: dispatch_any_def dispatch_loop.simps)
qed

lemma paging_serves:
  "serves_pages (chain_fetch (ref_env (paging_node chain) id) address limit) answering (nat (page_limit_value limit))
     (\<lambda>cursor. case cursor of None \<Rightarrow> 0 | Some bs \<Rightarrow> length bs) (\<lambda>i. replicate i 0) chain"
proof -
  let ?pos = "\<lambda>cursor. case cursor of None \<Rightarrow> 0 | Some (bs :: bytes) \<Rightarrow> length bs" and ?n = "nat (page_limit_value limit)"
  have "\<exists>c'. answering c' \<and> chain_fetch (ref_env (paging_node chain) id) address limit cursor c =
      Some (c', Inr (take ?n (drop (?pos cursor) chain),
        if ?pos cursor + ?n < length chain then Some (replicate (?pos cursor + ?n) 0) else None))"
    if "answering c" for cursor c
  proof -
    let ?request = "\<lambda>t. nt_chain_page (paging_node chain) t address
        \<lparr>cq_start = cursor, cq_end = None, cq_limit = Some (page_limit_value limit)\<rparr>"
    have "?request t w = (w, Inr \<lparr>cp_blocks = take ?n (drop (?pos cursor) chain),
        cp_next_key = (if ?pos cursor + ?n < length chain then Some (replicate (?pos cursor + ?n) 0) else None)\<rparr>)" for t w
      by (simp add: paging_node_def Let_def)
    from answering_dispatch[where request = ?request and E = "ref_env (paging_node chain) id", OF that this]
    obtain c' where "answering c'" "dispatch_any (ref_env (paging_node chain) id) ?request c = Some (c', Inr
      \<lparr>cp_blocks = take ?n (drop (?pos cursor) chain),
       cp_next_key = (if ?pos cursor + ?n < length chain then Some (replicate (?pos cursor + ?n) 0) else None)\<rparr>)" by blast
    then show ?thesis
      by (intro exI[of _ c']) (simp add: chain_fetch_def client_chain_page_cursor_raw_def task_bind_def task_return_def)
  qed
  then show ?thesis unfolding serves_pages_def option.case length_replicate by blast
qed

theorem chain_all_reads_whole_chain_witness:
  "\<exists>b c'. client_chain_all (ref_env (paging_node [b, b, b]) id) ref_account 0
     (ref_client (ref_env (paging_node [b, b, b]) id) [''rep''] (0 :: nat)) = Some (c', Inr [b, b, b])"
proof -
  obtain b v st where "vote_staple_try_new ref_slib [b] [v] default_vote_config 1000 = Inr st" using ref_staple by blast
  let ?E = "ref_env (paging_node [b, b, b]) id :: (string, nat) client_env"
  obtain address where "to_public_key_string (ce_crypto ?E) ref_account = Inr address"
    by (auto simp: to_public_key_string_def ref_account_def to_public_key_with_type_def public_key_with_type_def
        format_public_key_string_def Let_def)
  moreover have "answering (ref_client ?E [''rep''] 0)"
    by (simp add: answering_def ref_client_one_rep) (simp add: ref_client_def with_parts_def client_config_default_def)
  ultimately show ?thesis using chain_all_reads_whole_chain[OF _ paging_serves] by blast
qed

section \<open>The pending block\<close>

definition pending_acc :: "'p \<Rightarrow> client_error + block option \<Rightarrow> pending_tally \<Rightarrow> pending_tally" where
  "pending_acc p r acc =
     (case r of
        Inr (Some block) \<Rightarrow>
          acc\<lparr>pt_any_success := True,
              pt_blocks := (case pt_blocks acc (blk_hash block) of
                 Some _ \<Rightarrow> pt_blocks acc | None \<Rightarrow> (pt_blocks acc)(blk_hash block \<mapsto> block)),
              pt_observed := pt_observed acc @ [blk_hash block]\<rparr>
      | Inr None \<Rightarrow> acc\<lparr>pt_any_success := True\<rparr>
      | Inl e \<Rightarrow> acc\<lparr>pt_last_error := Some e\<rparr>)"

lemma on_pending_acc: "snd (on_pending p r acc c) = (pending_acc p r acc, False)"
  by (simp add: on_pending_def pending_acc_def split: sum.split option.split)

definition reported :: "('p \<times> (client_error + block option)) list \<Rightarrow> block list" where
  "reported tr = List.map_filter id (granted tr)"

lemma reported_simps [simp]:
  "reported [] = []" "reported ((p, Inr (Some b)) # tr) = b # reported tr" "reported ((p, Inr None) # tr) = reported tr"
  "reported ((p, Inl e) # tr) = reported tr"
  by (simp_all add: reported_def List.map_filter_simps)

lemma pending_fold:
  assumes "acc' = fold (\<lambda>(p, r). pending_acc p r) tr acc"
  shows "pt_observed acc' = pt_observed acc @ map blk_hash (reported tr)"
    "pt_any_success acc' \<longleftrightarrow> pt_any_success acc \<or> granted tr \<noteq> []"
    "pt_blocks acc' h = (case pt_blocks acc h of Some b \<Rightarrow> Some b | None \<Rightarrow> find (\<lambda>b. blk_hash b = h) (reported tr))"
    "granted tr = [] \<Longrightarrow> tr \<noteq> [] \<Longrightarrow> \<exists>p e. pt_last_error acc' = Some e \<and> (p, Inl e) \<in> set tr"
  using assms
proof (induction tr arbitrary: acc)
  case (Cons x tr)
  obtain p r where x: "x = (p, r)" by force
  consider b where "r = Inr (Some b)" | "r = Inr None" | e where "r = Inl e" using sum.exhaust[of r] option.exhaust by metis
  note r = this
  {
    case 1
    show ?case by (rule r) (use Cons.IH(1)[of "pending_acc p r acc"] 1 x in \<open>auto simp: pending_acc_def\<close>)
  next
    case 2
    show ?case by (rule r) (use Cons.IH(2)[of "pending_acc p r acc"] 2 x in \<open>auto simp: pending_acc_def\<close>)
  next
    case 3
    show ?case
      by (rule r) (use Cons.IH(3)[of "pending_acc p r acc"] 3 x in \<open>auto simp: pending_acc_def split: option.splits\<close>)
  next
    case 4
    then obtain e where e: "r = Inl e" using x by (cases r) auto
    show ?case
    proof (cases "tr = []")
      case True
      then show ?thesis using 4 x e by (auto simp: pending_acc_def)
    next
      case False
      then show ?thesis using Cons.IH(4)[of "pending_acc p r acc"] 4 x e by auto
    qed
  }
qed (auto split: option.split)

text \<open>The pending block of an account is decided by all representatives.  The block returned was
  reported by at least as many of them as any other block; none is returned only when some
  representative answered and none of them knew a block; an error is one that a representative gave,
  and only when all of them failed.
\<close>
theorem pending_block_is_majority:
  assumes "client_pending_block E account c = (c', r)" and "to_public_key_string (ce_crypto E) account = Inr address"
    and "snapshot_picks c \<noteq> []"
  shows "\<exists>tr. mset (map fst tr) = mset (snapshot_picks c) \<and>
    answers (\<lambda>p. nt_pending_block (ce_transport E) (pk_transport p) address) tr \<and>
    (case r of
       Inr (Some b) \<Rightarrow> b \<in> set (reported tr) \<and>
         (\<forall>h. count_list (map blk_hash (reported tr)) h \<le> count_list (map blk_hash (reported tr)) (blk_hash b))
     | Inr None \<Rightarrow> granted tr \<noteq> [] \<and> reported tr = []
     | Inl e \<Rightarrow> granted tr = [] \<and> (\<exists>p. (p, Inl e) \<in> set tr))"
proof -
  let ?run = "\<lambda>p. nt_pending_block (ce_transport E) (pk_transport p) address"
  let ?acc = "\<lparr>pt_blocks = Map.empty, pt_observed = [], pt_any_success = False, pt_last_error = None\<rparr>"
  obtain d acc where d: "drain E ?run on_pending (snapshot_picks c) ?acc (ensure_refresh c) = (d, acc)" by force
  obtain tr where tr: "mset (map fst tr) = mset (snapshot_picks c)" "answers ?run tr"
    "acc = fold (\<lambda>(p, r). pending_acc p r) tr ?acc"
    using drain_trace_pair[OF d on_pending_acc] .
  have r: "r = pending_result acc" using assms d by (auto simp: client_pending_block_def Let_def)
  have "tr \<noteq> []" using tr(1) assms(3) by auto
  note f = pending_fold[OF tr(3)]
  have obs: "pt_observed acc = map blk_hash (reported tr)" using f(1) by simp
  have blocks: "pt_blocks acc h = find (\<lambda>b. blk_hash b = h) (reported tr)" for h using f(3)[of h] by simp
  show ?thesis
  proof (cases "reported tr = []")
    case True
    have nil: "most_common_hash ([] :: bytes list) = None" by simp
    have "r = (if granted tr \<noteq> [] then Inr None else case pt_last_error acc of Some e \<Rightarrow> Inl e | None \<Rightarrow> Inr None)"
      using True r obs f(2) by (simp add: pending_result_def nil)
    then show ?thesis using tr(1,2) True f(4) \<open>tr \<noteq> []\<close> by (intro exI[of _ tr]) (auto split: if_splits)
  next
    case False
    then obtain h where h: "most_common_hash (pt_observed acc) = Some h"
      using most_common_hash_None[of "pt_observed acc"] obs by (cases "most_common_hash (pt_observed acc)") auto
    have top: "h \<in> set (map blk_hash (reported tr))"
      "\<And>k. k \<in> set (map blk_hash (reported tr)) \<Longrightarrow>
        count_list (map blk_hash (reported tr)) k \<le> count_list (map blk_hash (reported tr)) h"
      using most_common_hash_sound[OF h] unfolding obs by (auto simp: le_less)
    then obtain b where b: "find (\<lambda>b. blk_hash b = h) (reported tr) = Some b"
      by (cases "find (\<lambda>b. blk_hash b = h) (reported tr)") (auto simp: find_None_iff)
    then have "b \<in> set (reported tr)" "blk_hash b = h" by (auto simp: find_Some_iff)
    moreover have "r = Inr (Some b)" using r h b blocks by (simp add: pending_result_def)
    moreover have "count_list (map blk_hash (reported tr)) k \<le> count_list (map blk_hash (reported tr)) h" for k
      using top(2)[of k] count_notin[of k "map blk_hash (reported tr)"] by fastforce
    ultimately show ?thesis using tr(1,2) by (intro exI[of _ tr]) simp
  qed
qed

definition pending_node :: "block \<Rightarrow> ('t, 'w) node_transport" where
  "pending_node b = silent_node\<lparr>nt_pending_block := (\<lambda>_ _ w. (w, Ok (Some b)))\<rparr>"

theorem pending_block_is_majority_witness:
  "\<exists>b c' r tr. client_pending_block (ref_env (pending_node b) id) ref_account
       (ref_client (ref_env (pending_node b) id) [''a'', ''b''] (0 :: nat)) = (c', r) \<and>
     length (tr :: (string rep_target \<times> _) list) = 2 \<and>
     (case r of Inr (Some b') \<Rightarrow> b' \<in> set (reported tr) | Inr None \<Rightarrow> reported tr = [] | Inl e \<Rightarrow> granted tr = [])"
proof -
  obtain b v st where "vote_staple_try_new ref_slib [b] [v] default_vote_config 1000 = Inr st" using ref_staple by blast
  let ?E = "ref_env (pending_node b) id :: (string, nat) client_env"
  let ?c = "ref_client ?E [''a'', ''b''] 0"
  obtain c' r where c': "client_pending_block ?E ref_account ?c = (c', r)" by force
  have len: "length (snapshot_picks ?c) = 2"
    using snapshot_picks_length[OF with_parts_transports, of ?E "map ref_part [''a'', ''b'']" client_config_default True Map.empty 0]
    by (simp add: ref_client_def) (simp add: with_parts_def)
  obtain address where "to_public_key_string (ce_crypto ?E) ref_account = Inr address"
    by (auto simp: to_public_key_string_def ref_account_def to_public_key_with_type_def public_key_with_type_def
        format_public_key_string_def Let_def)
  from pending_block_is_majority[OF c' this] len obtain tr where tr: "mset (map fst tr) = mset (snapshot_picks ?c)"
    "case r of Inr (Some b') \<Rightarrow> b' \<in> set (reported tr) | Inr None \<Rightarrow> reported tr = [] | Inl e \<Rightarrow> granted tr = []"
    by (fastforce split: sum.splits option.splits)
  have "length tr = 2" using arg_cong[OF tr(1), of size] len by simp
  then show ?thesis using c' tr(2) by blast
qed

end
