(* ===== verification/UserProps.thy ===== *)
theory UserProps
  imports DispatchProps TxProps
begin

text \<open>
  Fee blocks, swaps and genesis: properties that span the client, the transaction builder, block
  validation and vote staples.
\<close>

section \<open>Builds of one group\<close>

lemma apply_network_meta:
  "bb_purpose (apply_network cl b) = bb_purpose b" "bb_signer (apply_network cl b) = bb_signer b"
  by (auto simp: apply_network_def with_network_def with_subnet_def Let_def split: option.splits)

lemma seal_builder_meta:
  "bb_purpose (seal_builder cl account signer previous purpose date operations) = purpose"
  "bb_date (seal_builder cl account signer previous purpose date operations) =
     Some (case date of Some d \<Rightarrow> d | None \<Rightarrow> now_moment cl)"
  "bb_signer (seal_builder cl account signer previous purpose date operations) =
     (if signer = account then None else Some (Single signer))"
  by (cases previous; cases purpose;
      simp add: seal_builder_def Let_def with_operations_def with_account_def with_signer_def with_purpose_def
        apply_network_meta with_date_def with_previous_def as_opening_def block_builder_default_def)+

lemma seal_block_meta:
  assumes "seal_block cl account signer previous purpose date operations = Inr b"
  shows "bd_purpose (blk_data b) = (case purpose of Some p \<Rightarrow> p | None \<Rightarrow> Generic) \<and>
    bd_date (blk_data b) = (case date of Some d \<Rightarrow> d | None \<Rightarrow> now_moment cl) \<and>
    bd_signer (blk_data b) = Single signer"
proof -
  let ?bld = "seal_builder cl account signer previous purpose date operations"
  obtain u where u: "block_builder_build (cl_block cl) (cl_backend cl) (now_moment cl) ?bld = Inr u"
    and b: "unsigned_block_sign (cl_block cl) (cl_backend cl) u = Inr b"
    using assms by (auto simp: seal_block_def)
  have "blk_data b = ub_data u" using b by (auto simp: unsigned_block_sign_def unsigned_block_seal_def block_try_from_parts_ok)
  then show ?thesis using u seal_builder_meta[of cl account signer previous purpose date operations]
      seal_builder_fields(1)[of cl account signer previous purpose date operations]
    by (auto simp: block_builder_build_def unsigned_block_try_from_data_def Let_def)
qed

lemma context_block [simp]: "cl_block (client_context E c) = sl_block (ce_staple E)"
  by (simp add: client_context_def)

lemma build_blocks_single:
  assumes "build_blocks E t c = Some (c', Inr blocks)" and "tx_groups t = []" and "grp_ops (tx_current t) \<noteq> []"
  obtains previous cells ops where
    "render_ops (ce_crypto E) (tx_current t) previous [] = (cells, Inr ops)"
    "\<And>h. tx_initial_previous t = Some h \<Longrightarrow> grp_account (tx_current t) = tx_primary t \<Longrightarrow> previous = Some h"
    "if ops = [] then blocks = [] else \<exists>b now. blocks = [b] \<and>
       seal_block ((client_context E c)\<lparr>cl_unix_millis := now\<rparr>) (grp_account (tx_current t)) (grp_signer (tx_current t))
         previous (tx_purpose t) (tx_date t) ops = Inr b"
proof -
  let ?g = "tx_current t" and ?cl = "client_context E c"
  let ?t = "t\<lparr>tx_groups := [], tx_current := group_new (tx_primary t) (tx_primary t)\<rparr>"
  obtain s1 previous cells ops where
    p: "first_previous (ledger_head E) ?t (grp_account ?g) (Some c) = (s1, Inr previous)"
    and r: "render_ops (ce_crypto E) ?g previous [] = (cells, Inr ops)"
    using assms by (auto simp: build_blocks_def builder_build_def tx_build_def Let_def split: sum.splits prod.splits)
  have "if ops = [] then blocks = [] else \<exists>b now. blocks = [b] \<and>
       seal_block (?cl\<lparr>cl_unix_millis := now\<rparr>) (grp_account ?g) (grp_signer ?g) previous (tx_purpose t) (tx_date t) ops = Inr b"
    using assms p r
    by (auto simp: build_blocks_def builder_build_def tx_build_def Let_def split: sum.splits prod.splits if_splits)
  moreover have "previous = Some h" if "tx_initial_previous t = Some h" "grp_account ?g = tx_primary t" for h
    using p that by (simp add: first_previous_def)
  ultimately show thesis using that r by blast
qed

section \<open>Fee blocks\<close>

lemma tx_pushes:
  "tx_groups (tx_push op t) = tx_groups t" "tx_primary (tx_push op t) = tx_primary t" "tx_purpose (tx_push op t) = tx_purpose t"
  "tx_date (tx_push op t) = tx_date t" "tx_initial_previous (tx_push op t) = tx_initial_previous t"
  "grp_account (tx_current (tx_push op t)) = grp_account (tx_current t)"
  "grp_signer (tx_current (tx_push op t)) = grp_signer (tx_current t)"
  "grp_ops (tx_current (tx_push op t)) = grp_ops (tx_current t) @ [op]"
  by (simp_all add: tx_push_def)

lemma fold_pushes:
  defines "f \<equiv> fold (\<lambda>s. tx_with_operation (OpSend s))"
  shows "tx_groups (f sends t) = tx_groups t" "tx_primary (f sends t) = tx_primary t" "tx_purpose (f sends t) = tx_purpose t"
    "tx_date (f sends t) = tx_date t" "tx_initial_previous (f sends t) = tx_initial_previous t"
    "grp_account (tx_current (f sends t)) = grp_account (tx_current t)"
    "grp_signer (tx_current (f sends t)) = grp_signer (tx_current t)"
    "grp_ops (tx_current (f sends t)) = grp_ops (tx_current t) @ map (PRaw \<circ> OpSend) sends"
  unfolding f_def by (induction sends arbitrary: t) (simp_all add: tx_with_operation_def tx_pushes)

lemma render_raw:
  "render_loop L g dp cells b (map (PRaw \<circ> OpSend) sends) = (cells, Inr (b\<lparr>rb_raw := rb_raw b @ map OpSend sends\<rparr>))"
  by (induction sends arbitrary: b) simp_all

definition staple_tip :: "block list \<Rightarrow> generic_account \<Rightarrow> bytes option" where
  "staple_tip blocks account = map_option blk_hash (find (\<lambda>b. bd_account (blk_data b) = account) (rev blocks))"

lemma fee_builder_fields:
  fixes account signer blocks moment sends
  defines "t \<equiv> fee_builder account signer blocks moment sends"
  shows "tx_groups t = []" "tx_primary t = account" "tx_purpose t = Some Fee" "tx_date t = Some moment"
    "tx_initial_previous t = staple_tip blocks account" "grp_account (tx_current t) = account"
    "grp_signer (tx_current t) = signer" "grp_ops (tx_current t) = map (PRaw \<circ> OpSend) sends"
  unfolding t_def fee_builder_def Let_def fold_pushes staple_tip_def
  by (simp_all add: tx_with_date_def tx_with_purpose_def tx_with_previous_def for_account_with_signer_def tx_switch_def
      client_builder_def tx_new_def group_new_def split: option.split)

text \<open>C15: the fee block of a round is a valid block of the paying account with purpose FEE, dated with
  the round and signed by the given signer.  Its operations are the payments that the votes ask for,
  one per vote with a payable fee and at least one, and it follows the payer's last block in the round.
\<close>
theorem fee_block_pays_votes:
  assumes "fee_block_for E account signer blocks votes moment priority c = Some (c', Inr b)"
  shows "\<exists>base sends. base_token E c = Inr base \<and>
    sends = List.map_filter (\<lambda>v. vote_fee_send (sl_vote (ce_staple E)) v base priority) votes \<and> sends \<noteq> [] \<and>
    bd_operations (blk_data b) = map OpSend sends \<and> bd_purpose (blk_data b) = Fee \<and> bd_account (blk_data b) = account \<and>
    bd_signer (blk_data b) = Single signer \<and> bd_date (blk_data b) = moment \<and>
    (\<forall>h. staple_tip blocks account = Some h \<longrightarrow> bd_previous (blk_data b) = h) \<and>
    block_data_validate (sl_block (ce_staple E)) (blk_data b) (blk_hash b) = Inr ()"
proof -
  obtain sends fee_blocks where s: "fee_operations E votes priority c = Inr sends"
    and bl: "build_blocks E (fee_builder account signer blocks moment sends) c = Some (c', Inr fee_blocks)"
    and b: "fee_blocks \<noteq> []" "b = last fee_blocks"
    using assms by (auto simp: fee_block_for_def task_bind_ok ok_or_def eq_commute[of "Inr _" "fee_operations E votes priority c"]
        split: if_splits option.splits)
  obtain base where base: "base_token E c = Inr base"
    "sends = List.map_filter (\<lambda>v. vote_fee_send (sl_vote (ce_staple E)) v base priority) votes"
    using s by (auto simp: fee_operations_def)
  note fields = fee_builder_fields[of account signer blocks moment sends]
  have "sends \<noteq> []"
  proof
    assume "sends = []"
    then have "grp_ops (tx_current (fee_builder account signer blocks moment sends)) = []" using fields(8) by simp
    then have "fee_blocks = []" using bl fields(1) by (auto simp: build_blocks_def builder_build_def tx_build_def Let_def)
    then show False using b(1) by simp
  qed
  then have ops: "grp_ops (tx_current (fee_builder account signer blocks moment sends)) \<noteq> []" by (simp add: fields)
  obtain previous cells ops where
    r: "render_ops (ce_crypto E) (tx_current (fee_builder account signer blocks moment sends)) previous [] = (cells, Inr ops)"
    and prev: "\<And>h. staple_tip blocks account = Some h \<Longrightarrow> previous = Some h"
    and seal: "if ops = [] then fee_blocks = [] else \<exists>b now. fee_blocks = [b] \<and>
       seal_block ((client_context E c)\<lparr>cl_unix_millis := now\<rparr>) account signer previous (Some Fee) (Some moment) ops = Inr b"
    by (rule build_blocks_single[OF bl fields(1) ops, unfolded fields(2-7)]) blast
  have "ops = map OpSend sends"
    using r by (simp add: render_ops_def fields render_raw into_operations_def render_buckets_default_def)
  then obtain now where "seal_block ((client_context E c)\<lparr>cl_unix_millis := now\<rparr>) account signer previous (Some Fee) (Some moment)
      (map OpSend sends) = Inr b"
    using seal b \<open>sends \<noteq> []\<close> by auto
  from seal_block_ok[OF this] seal_block_meta[OF this] show ?thesis using base \<open>sends \<noteq> []\<close> prev by auto
qed

section \<open>Swaps\<close>

definition sends_of :: "operation list \<Rightarrow> send list" where
  "sends_of = List.map_filter (\<lambda>op. case op of OpSend s \<Rightarrow> Some s | _ \<Rightarrow> None)"

definition receives_of :: "operation list \<Rightarrow> receive list" where
  "receives_of = List.map_filter (\<lambda>op. case op of OpReceive r \<Rightarrow> Some r | _ \<Rightarrow> None)"

lemma swap_scan_eq:
  "swap_scan s r ops = (if sends_of ops = [] then s else Some (last (sends_of ops)),
     if receives_of ops = [] then r else Some (last (receives_of ops)))"
  by (induction s r ops rule: swap_scan.induct) (auto simp: sends_of_def receives_of_def List.map_filter_simps)

lemma swap_legs_ok:
  "swap_legs b = Inr (s, r) \<longleftrightarrow>
     sends_of (bd_operations (blk_data b)) \<noteq> [] \<and> s = last (sends_of (bd_operations (blk_data b))) \<and>
     receives_of (bd_operations (blk_data b)) \<noteq> [] \<and> r = last (receives_of (bd_operations (blk_data b)))"
  by (auto simp: swap_legs_def swap_scan_eq ok_or_def)

definition expectation_met :: "crypto_lib \<Rightarrow> generic_account \<Rightarrow> int \<Rightarrow> swap_token_amount option \<Rightarrow> bool" where
  "expectation_met L token amount expected \<longleftrightarrow>
     (case expected of
        None \<Rightarrow> True
      | Some x \<Rightarrow>
          (case sta_token x of None \<Rightarrow> True | Some t \<Rightarrow> account_to_string L token = account_to_string L t) \<and>
          (case sta_amount x of None \<Rightarrow> True | Some n \<Rightarrow> amount = n))"

lemma resolve_swap_amount_ok:
  "resolve_swap_amount L s r expected = Inr amount \<longleftrightarrow>
     recv_amount r \<le> amount \<and> (recv_exact r \<longrightarrow> amount = recv_amount r) \<and>
     expectation_met L (send_token s) (send_amount s) (Option.bind expected se_receive) \<and>
     expectation_met L (recv_token r) amount (Option.bind expected se_send) \<and>
     (Option.bind (Option.bind expected se_send) sta_amount = None \<longrightarrow> amount = recv_amount r)"
proof (cases expected)
  case (Some e)
  have recv: "(case se_receive e of
      None \<Rightarrow> Inr ()
    | Some x \<Rightarrow> and_then (assert_swap_token L (send_token s) x) (\<lambda>_. assert_swap_amount (send_amount s) x)) = Inr () \<longleftrightarrow>
      expectation_met L (send_token s) (send_amount s) (se_receive e)"
    by (auto simp: assert_swap_token_def assert_swap_amount_def expectation_met_def ensure_def split: option.splits)
  show ?thesis
  proof (cases "se_send e")
    case None
    then show ?thesis using Some recv by (auto simp: resolve_swap_amount_def expectation_met_def[of _ _ amount])
  next
    case (Some x)
    then show ?thesis using \<open>expected = Some e\<close> recv
      by (cases "sta_amount x"; cases "sta_token x")
        (auto simp: resolve_swap_amount_def expectation_met_def[of _ _ amount] assert_swap_token_def ensure_def split: if_splits)
  qed
qed (auto simp: resolve_swap_amount_def expectation_met_def)

text \<open>C17: the exact terms on which a swap request is accepted.  The last SEND and the last RECEIVE of
  the maker's block both name the taker; the taker pays at least what the maker asks for, and exactly
  that when the maker insists or the taker named no amount; and every token and amount the taker
  expects is met.
\<close>
theorem swap_acceptance_terms:
  "accept_terms L u request = Inr (s, r, amount) \<longleftrightarrow>
    (let ops = bd_operations (blk_data (ar_block request)); expected = ar_expected request in
     \<exists>taker. account_or u None = Inr taker \<and>
       sends_of ops \<noteq> [] \<and> s = last (sends_of ops) \<and> receives_of ops \<noteq> [] \<and> r = last (receives_of ops) \<and>
       account_to_string L (send_to s) = account_to_string L taker \<and>
       account_to_string L (recv_from r) = account_to_string L taker \<and>
       recv_amount r \<le> amount \<and> (recv_exact r \<longrightarrow> amount = recv_amount r) \<and>
       expectation_met L (send_token s) (send_amount s) (Option.bind expected se_receive) \<and>
       expectation_met L (recv_token r) amount (Option.bind expected se_send) \<and>
       (Option.bind (Option.bind expected se_send) sta_amount = None \<longrightarrow> amount = recv_amount r))"
proof -
  have "accept_terms L u request = Inr (s, r, amount) \<longleftrightarrow>
    (\<exists>taker. account_or u None = Inr taker \<and> swap_legs (ar_block request) = Inr (s, r) \<and>
       account_to_string L (send_to s) = account_to_string L taker \<and>
       account_to_string L (recv_from r) = account_to_string L taker \<and>
       resolve_swap_amount L s r (ar_expected request) = Inr amount)"
    by (auto simp: accept_terms_def split: if_splits)
  then show ?thesis unfolding swap_legs_ok resolve_swap_amount_ok Let_def by (simp only: conj_assoc)
qed

lemma swap_rendering:
  assumes "m \<noteq> 0" "n \<noteq> 0"
    and "grp_ops g = [PSend (Resolved a) (Resolved x) m None, PReceive (Resolved a) (Resolved y) n exact None]"
    and "render_ops L g previous [] = (cells, Inr ops)"
  shows "ops = [OpSend \<lparr>send_to = a, send_amount = m, send_token = x, send_external = None\<rparr>,
    OpReceive \<lparr>recv_amount = n, recv_token = y, recv_from = a, recv_exact = exact, recv_forward = None\<rparr>]"
  using assms by (simp add: render_ops_def push_send_def push_receive_def into_operations_def render_buckets_default_def)

lemma signed_builder_fields:
  assumes "signed_builder L u = Inr t"
  obtains account signer where "account_or u None = Inr account" "tx_groups t = []" "grp_ops (tx_current t) = []"
    "grp_account (tx_current t) = account" "user_signer u = Inr signer"
  using assms by (auto simp: signed_builder_def Let_def client_builder_def tx_new_def for_account_with_signer_def
      tx_switch_def group_new_def split: if_splits)

text \<open>A swap request made by one party is accepted by the other.  The block built for a request
  with non-zero amounts has the maker as its account, and the counterparty, expecting the terms of the
  request, accepts it and pays the amount asked for.
\<close>
theorem swap_request_is_accepted:
  assumes "user_create_swap_request E maker request c = Some (c', Inr b)"
    and "cs_send_amount request \<noteq> 0" and "cs_receive_amount request \<noteq> 0"
    and "account_or taker None = Inr a"
    and "account_to_string (ce_crypto E) a = account_to_string (ce_crypto E) (cs_counterparty request)"
  shows "account_or maker None = Inr (bd_account (blk_data b)) \<and>
    (\<exists>s r. accept_terms (ce_crypto E) taker
       \<lparr>ar_block = b, ar_expected = Some
         \<lparr>se_receive = Some \<lparr>sta_token = Some (cs_send_token request), sta_amount = Some (cs_send_amount request)\<rparr>,
          se_send = Some \<lparr>sta_token = Some (cs_receive_token request), sta_amount = Some (cs_receive_amount request)\<rparr>\<rparr>\<rparr> =
       Inr (s, r, cs_receive_amount request) \<and> recv_token r = cs_receive_token request)"
proof -
  let ?party = "Resolved (cs_counterparty request)"
  let ?add = "\<lambda>t. tx_receive_with ?party (Resolved (cs_receive_token request)) (cs_receive_amount request) (cs_receive_exact request) None
      (tx_send ?party (Resolved (cs_send_token request)) (cs_send_amount request) t)"
  obtain t where t: "signed_builder (ce_crypto E) maker = Inr t" and bl: "build_blocks E (?add t) c = Some (c', Inr [b])"
  proof -
    obtain blocks where "build_signed E maker ?add c = Some (c', Inr blocks)"
      "(case blocks of [b] \<Rightarrow> Inr b | _ \<Rightarrow> Inl CSwapMultiBlock) = Inr b"
      using assms(1) by (auto simp: user_create_swap_request_def task_bind_ok)
    moreover from this(2) have "blocks = [b]" by (auto split: list.splits)
    ultimately show thesis using that
      by (auto simp: build_signed_def task_bind_ok eq_commute[of "Inr _" "signed_builder _ _"])
  qed
  obtain account signer where f: "account_or maker None = Inr account" "tx_groups t = []" "grp_ops (tx_current t) = []"
    "grp_account (tx_current t) = account" "user_signer maker = Inr signer"
    by (rule signed_builder_fields[OF t])
  have g: "grp_ops (tx_current (?add t)) = [PSend ?party (Resolved (cs_send_token request)) (cs_send_amount request) None,
      PReceive ?party (Resolved (cs_receive_token request)) (cs_receive_amount request) (cs_receive_exact request) None]"
    "tx_groups (?add t) = []" "grp_account (tx_current (?add t)) = account"
    using f by (simp_all add: tx_receive_with_def tx_send_def tx_pushes)
  have nonempty: "grp_ops (tx_current (?add t)) \<noteq> []" by (simp add: g(1))
  obtain previous cells ops where r: "render_ops (ce_crypto E) (tx_current (?add t)) previous [] = (cells, Inr ops)"
    and seal: "if ops = [] then [b] = [] else \<exists>b' now. [b] = [b'] \<and>
       seal_block ((client_context E c)\<lparr>cl_unix_millis := now\<rparr>) account (grp_signer (tx_current (?add t)))
         previous (tx_purpose (?add t)) (tx_date (?add t)) ops = Inr b'"
    by (rule build_blocks_single[OF bl g(2) nonempty, unfolded g(3)]) blast
  have ops: "ops = [OpSend \<lparr>send_to = cs_counterparty request, send_amount = cs_send_amount request,
      send_token = cs_send_token request, send_external = None\<rparr>,
    OpReceive \<lparr>recv_amount = cs_receive_amount request, recv_token = cs_receive_token request,
      recv_from = cs_counterparty request, recv_exact = cs_receive_exact request, recv_forward = None\<rparr>]"
    by (rule swap_rendering[OF assms(2,3) g(1) r])
  then obtain now where "seal_block ((client_context E c)\<lparr>cl_unix_millis := now\<rparr>) account (grp_signer (tx_current (?add t)))
         previous (tx_purpose (?add t)) (tx_date (?add t)) ops = Inr b" using seal by auto
  from seal_block_ok[OF this] have b: "bd_account (blk_data b) = account" "bd_operations (blk_data b) = ops" by auto
  show ?thesis using f(1) b assms(4,5)
    by (simp add: accept_terms_def swap_legs_def ops resolve_swap_amount_def assert_swap_token_def assert_swap_amount_def)
qed

section \<open>Genesis\<close>

definition genesis_chain :: "('t, 'w) client_env \<Rightarrow> ('t, 'w) client \<Rightarrow> generic_account \<Rightarrow> block list \<Rightarrow> bool" where
  "genesis_chain E c recipient blocks \<longleftrightarrow>
     (\<exists>network_address base. base_addresses E c = Inr (network_address, base) \<and>
       map (bd_account \<circ> blk_data) blocks = [network_address, base, recipient, recipient] \<and>
       (\<forall>i < 3. bd_previous (blk_data (blocks ! i)) = to_opening_hash (ce_crypto E) (bd_account (blk_data (blocks ! i)))) \<and>
       bd_previous (blk_data (blocks ! 3)) = blk_hash (blocks ! 2) \<and>
       list_all (\<lambda>b. block_data_validate (sl_block (ce_staple E)) (blk_data b) (blk_hash b) = Inr ()) blocks)"

lemma all_below_three: "(\<forall>i < (3 :: nat). P i) \<longleftrightarrow> P 0 \<and> P 1 \<and> P 2"
  by (auto simp: numeral_3_eq_3 less_Suc_eq numeral_2_eq_2)

lemma genesis_blocks_chain:
  assumes "genesis_blocks E base64 trusted recipient delegate_to options c = Inr blocks"
  shows "genesis_chain E c recipient blocks"
proof -
  let ?cl = "client_context E c"
  obtain n base n_ops t_ops b1 b2 b3 b4 where a: "base_addresses E c = Inr (n, base)"
    and s: "genesis_seal ?cl n trusted None n_ops = Inr b1" "genesis_seal ?cl base trusted None t_ops = Inr b2"
      "genesis_seal ?cl recipient trusted None (balance_ops base options) = Inr b3"
      "genesis_seal ?cl recipient recipient (Some (blk_hash b3)) (set_rep_ops delegate_to) = Inr b4"
    and blocks: "blocks = [b1, b2, b3, b4]"
    using assms by (auto simp: genesis_blocks_def Let_def)
  note ok = s[unfolded genesis_seal_def, THEN seal_block_ok]
  show ?thesis unfolding genesis_chain_def blocks all_below_three using a ok by simp
qed

lemma permanent_vote_ok:
  assumes "permanent_vote E from_ms trusted hashes options = Inr v"
  shows "dv_issuer (vote_decoded v) = trusted \<and> dv_blocks (vote_decoded v) = hashes \<and> dv_fees (vote_decoded v) = None \<and>
    dv_validity (vote_decoded v) = \<lparr>valid_from = from_ms, valid_to =
      (case block_time_from_unix_millis (ce_chrono E) (sat64 (from_ms + PERMANENT_SPAN_MS)) of Some t \<Rightarrow> t | None \<Rightarrow> from_ms)\<rparr>"
  using assms
  by (auto simp: permanent_vote_def Let_def build_signed_vote_def build_unsigned_vote_ok vote_builder_defs unsigned_vote_sign_def)

lemma same_hashes_same_blocks:
  assumes "mset xs = mset ys" and "map f xs = map f ys" and "distinct (map f ys)"
  shows "xs = ys"
proof -
  have "inj_on f (set ys)" using assms(3) by (simp add: distinct_map)
  then have "inj_on f (set xs)" using mset_eq_setD[OF assms(1)] by simp
  then show ?thesis using assms(2) mset_eq_setD[OF assms(1)] by (metis Un_absorb map_inj_on)
qed

text \<open>The genesis staple holds the four genesis blocks in order (network address, base token,
  recipient's balance, recipient's representative), all valid, the first three opening their
  accounts and the last one following the balance block, under a single feeless vote of the trusted
  account, valid from the moment of building for the permanent span.
\<close>
theorem genesis_staple_spec:
  assumes "generate_initial_vote_staple E base64 clock trusted recipient delegate_to options c = Inr st"
  shows "genesis_chain E c recipient (vs_blocks st) \<and>
    (\<exists>v moment. vs_votes st = [v] \<and> dv_issuer (vote_decoded v) = trusted \<and> dv_fees (vote_decoded v) = None \<and>
      dv_blocks (vote_decoded v) = map blk_hash (vs_blocks st) \<and> valid_from (dv_validity (vote_decoded v)) = client_now E c \<and>
      clock = Some moment \<and> staple_inv (sl_vote (ce_staple E)) default_vote_config moment st)"
proof -
  obtain blocks v where b: "genesis_blocks E base64 trusted recipient delegate_to options c = Inr blocks"
    and v: "permanent_vote E (client_now E c) trusted (map blk_hash blocks) options = Inr v"
    and st: "build_vote_staple (ce_staple E) clock (staple_add_vote v (staple_add_blocks blocks vote_staple_builder_new)) = Inr st"
    using assms by (auto simp: generate_initial_vote_staple_def)
  obtain moment where clock: "clock = Some moment"
    and try_new: "vote_staple_try_new (ce_staple E) blocks [v] default_vote_config moment = Inr st"
    using st by (auto simp: build_vote_staple_def staple_add_vote_def staple_add_blocks_def vote_staple_builder_new_def ok_or_def
        split: option.splits)
  note pv = permanent_vote_ok[OF v]
  have "reorder_blocks_to_match blocks (map blk_hash blocks) = Inr (vs_blocks st)" and votes: "vs_votes st = [v]"
    using try_new pv by (auto simp: vote_staple_try_new_ok)
  then have "vs_blocks st = blocks" using same_hashes_same_blocks by (auto simp: reorder_iff)
  moreover have "staple_inv (sl_vote (ce_staple E)) default_vote_config moment st"
    using vote_staple_try_new_sound[OF try_new] by (simp add: staple_spec_def)
  ultimately show ?thesis using genesis_blocks_chain[OF b] pv votes clock by simp
qed

text \<open>Without a system clock genesis is impossible.  The staple builder is given no moment, and in
  builds without \<open>std\<close> it has no clock to fall back on, so \<open>initialize_network\<close> never succeeds there.
\<close>
theorem genesis_needs_clock:
  "user_initialize_network E base64 None u options c \<noteq> Some (c', Inr accepted)"
proof
  assume "user_initialize_network E base64 None u options c = Some (c', Inr accepted)"
  then obtain trusted recipient delegate_to st where
    "generate_initial_vote_staple E base64 None trusted recipient delegate_to options c = Inr st"
    by (auto simp: user_initialize_network_def task_bind_ok eq_commute[of "Inr _" "generate_initial_vote_staple _ _ _ _ _ _ _ _"])
  then show False
    by (auto simp: generate_initial_vote_staple_def build_vote_staple_def staple_add_vote_def staple_add_blocks_def
        vote_staple_builder_new_def ok_or_def)
qed

section \<open>An environment that seals\<close>

text \<open>
  The reference environment with a block encoding that is constant, so that every valid block of
  the reference account can be sealed.  The witnesses of this theory are stated over it.
\<close>

definition plain_backend :: asn1_backend where
  "plain_backend = \<lparr>backend_encode = (\<lambda>_. Ok (replicate 32 9)), backend_decode = (\<lambda>_. Err DerError)\<rparr>"

definition plain_env :: "('t, 'w) node_transport \<Rightarrow> (string \<Rightarrow> 't) \<Rightarrow> ('t, 'w) client_env" where
  "plain_env node create = (ref_env node create)\<lparr>ce_staple := ref_slib\<lparr>sl_backend := plain_backend\<rparr>\<rparr>"

lemma plain_env_sel [simp]:
  "sl_block (ce_staple (plain_env node create)) = ref_blib" "sl_backend (ce_staple (plain_env node create)) = plain_backend"
  "sl_vote (ce_staple (plain_env node create)) = ref_vlib" "ce_transport (plain_env node create) = node"
  "ce_chrono (plain_env node create) = ref_chrono"
  by (simp_all add: plain_env_def ref_slib_def)

lemma plain_encodes:
  assumes "bd_version data = V2" and "bd_signer data = Single a"
  shows "encode_block ref_lib plain_backend data None = Inr (replicate 32 9)"
    and "encode_block ref_lib plain_backend data (Some [s]) = Inr (replicate 32 9)"
  using assms by (simp_all add: encode_block_def plain_backend_def build_block_v2_def)

fun plain_op :: "operation \<Rightarrow> bool" where
  "plain_op (OpSend s) \<longleftrightarrow> 0 \<le> send_amount s \<and> to_keypair_type (send_token s) = TOKEN \<and> to_keypair_type (send_to s) \<noteq> TOKEN \<and>
     send_external s = None"
| "plain_op (OpReceive r) \<longleftrightarrow> 0 \<le> recv_amount r \<and> to_keypair_type (recv_token r) = TOKEN \<and> recv_forward r = None"
| "plain_op _ \<longleftrightarrow> False"

lemma plain_op_validate:
  assumes "plain_op op" and "to_keypair_type (ctx_account ctx) \<noteq> TOKEN" and "ctx_config ctx = Some default_config"
  shows "operation_validate B ctx op = Inr ()"
  using assms by (cases op) (auto simp: send_validate_def receive_validate_def guard_token_amount_def require_token_def
      validate_numeric_def account_is_token_def ctx_get_config_def send_external_validate_def reject_token_account_def
      default_config_def)

lemma plain_seal:
  assumes cl: "cl_block cl = ref_blib" "cl_backend cl = plain_backend" "cl_network cl = Some 0" "cl_subnet cl = None"
    and prev: "previous \<noteq> Some (replicate 32 9)" 
    and ops: "list_all plain_op ops" "purpose = Some Fee \<Longrightarrow> list_all (\<lambda>op. operation_type op = 0) ops"
  shows "\<exists>b. seal_block cl ref_account ref_account previous purpose date ops = Inr b"
proof -
  define data where "data = \<lparr>bd_version = V2, bd_purpose = (case purpose of Some p \<Rightarrow> p | None \<Rightarrow> Generic), bd_network = 0,
      bd_subnet = None, bd_idempotent = None, bd_date = (case date of Some d \<Rightarrow> d | None \<Rightarrow> now_moment cl), bd_account = ref_account, bd_signer = Single ref_account,
      bd_previous = (case previous of Some h \<Rightarrow> h | None \<Rightarrow> to_opening_hash ref_lib ref_account), bd_operations = ops\<rparr>"
  have build: "block_builder_build ref_blib plain_backend (now_moment cl)
      (seal_builder cl ref_account ref_account previous purpose date ops) = unsigned_block_try_from_data ref_blib plain_backend data"
    using cl by (cases previous; cases purpose; cases date; simp add: data_def block_builder_build_def seal_builder_def Let_def
        with_operations_def with_account_def with_purpose_def apply_network_def with_network_def with_date_def with_previous_def
        as_opening_def block_builder_default_def)
  have hash: "hash_default ref_lib (replicate 32 9) = replicate 32 9" by (simp add: hash_default_def ref_hash_def)
  have "to_opening_hash ref_lib ref_account \<noteq> replicate 32 9"
    by (simp add: to_opening_hash_def block_hash_opening_def ref_account_def hash_default_def ref_hash_def)
  then have "bd_previous data \<noteq> replicate 32 9" using prev by (auto simp: data_def split: option.split)
  moreover have "validate_operations ref_blib data (Some default_config) = Inr ()"
  proof -
    have "operation_validate ref_blib (operation_ctx data (Some default_config) i) (ops ! i) = Inr ()" if "i < length ops" for i
      using that ops(1) by (intro plain_op_validate) (auto simp: operation_ctx_def data_def list_all_length)
    then show ?thesis using ops(2) by (auto simp: validate_operations_ok data_def list_all_length split: option.splits)
  qed
  ultimately have valid: "block_data_validate ref_blib data (replicate 32 9) = Inr ()"
    by (simp add: block_data_validate_def config_for_network_def network_try_from_def validate_signer_field_def validate_idempotent_def data_def)
  have u: "unsigned_block_try_from_data ref_blib plain_backend data = Inr \<lparr>ub_data = data, ub_bytes = replicate 32 9, ub_hash = replicate 32 9\<rparr>"
    using valid plain_encodes(1)[of data ref_account] hash by (simp add: unsigned_block_try_from_data_def Let_def data_def)
  have "\<exists>b. block_try_from_parts ref_blib plain_backend data [ref_sign ref_account (replicate 32 9)] = Inr b"
    using valid plain_encodes[of data ref_account] hash
    by (simp add: block_try_from_parts_ok data_def signature_accepted_def is_identifier_iff) (simp add: ref_blib_def)
  moreover have "signature_sign ref_blib a m = Inr (ref_sign a m)" for a m by (simp add: ref_blib_def)
  then have "unsigned_block_sign ref_blib plain_backend \<lparr>ub_data = data, ub_bytes = replicate 32 9, ub_hash = replicate 32 9\<rparr> =
      block_try_from_parts ref_blib plain_backend data [ref_sign ref_account (replicate 32 9)]"
    by (simp add: unsigned_block_sign_def data_def unsigned_block_seal_def account_sign_def is_identifier_iff signature_try_from_def)
  ultimately show ?thesis using build u cl by (simp add: seal_block_def)
qed

theorem swap_acceptance_terms_witness:
  "\<exists>s r. accept_terms ref_lib \<lparr>uc_account = Some ref_account, uc_signer = None\<rparr>
     \<lparr>ar_block = \<lparr>blk_data = ref_data\<lparr>bd_operations :=
         [OpSend \<lparr>send_to = ref_account, send_amount = 3, send_token = Token (replicate 32 7), send_external = None\<rparr>,
          OpReceive \<lparr>recv_amount = 5, recv_token = Token (replicate 32 8), recv_from = ref_account, recv_exact = False, recv_forward = None\<rparr>]\<rparr>,
        blk_signatures = [], blk_bytes = [], blk_hash = []\<rparr>,
      ar_expected = Some \<lparr>se_receive = None, se_send = Some \<lparr>sta_token = None, sta_amount = Some 6\<rparr>\<rparr>\<rparr> = Inr (s, r, 6)"
  unfolding swap_acceptance_terms by (simp add: account_or_def sends_of_def receives_of_def List.map_filter_simps expectation_met_def)


lemma plain_build:
  assumes c: "kc_network c = Some 0" "kc_subnet c = None"
    and t: "tx_groups t = []" "grp_account (tx_current t) = ref_account" "grp_signer (tx_current t) = ref_account"
      "grp_ops (tx_current t) \<noteq> []" "tx_primary t = ref_account"
    and first: "(\<exists>h. tx_initial_previous t = Some h \<and> h \<noteq> replicate 32 9) \<or>
      tx_initial_previous t = None \<and> (\<exists>c'. ledger_head (plain_env node create) ref_account (Some c) = (Some c', Inr None))"
    and r: "\<And>previous. \<exists>cells. render_ops ref_lib (tx_current t) previous [] = (cells, Inr ops)"
    and ops: "ops \<noteq> []" "list_all plain_op ops" "tx_purpose t = Some Fee \<Longrightarrow> list_all (\<lambda>op. operation_type op = 0) ops"
  shows "\<exists>c' b. build_blocks (plain_env node create) t c = Some (c', Inr [b])"
proof -
  let ?E = "plain_env node create"
  let ?t = "t\<lparr>tx_groups := [], tx_current := group_new (tx_primary t) (tx_primary t)\<rparr>"
  obtain c' previous where p: "first_previous (ledger_head ?E) ?t ref_account (Some c) = (Some c', Inr previous)" "previous \<noteq> Some (replicate 32 9)"
    using first t(5) by (auto simp: first_previous_def)
  obtain cells where cells: "render_ops ref_lib (tx_current t) previous [] = (cells, Inr ops)" using r by blast
  have cl: "cl_block (client_context ?E c\<lparr>cl_unix_millis := n\<rparr>) = ref_blib" "cl_backend (client_context ?E c\<lparr>cl_unix_millis := n\<rparr>) = plain_backend"
    "cl_network (client_context ?E c\<lparr>cl_unix_millis := n\<rparr>) = Some 0" "cl_subnet (client_context ?E c\<lparr>cl_unix_millis := n\<rparr>) = None" for n
    using c by (simp_all add: client_context_def)
  obtain b where "seal_block (client_context ?E c\<lparr>cl_unix_millis := client_clock ?E (Some c')\<rparr>) ref_account ref_account previous (tx_purpose t) (tx_date t) ops = Inr b"
    using plain_seal[OF cl p(2) ops(2,3)] by blast
  then have "build_blocks ?E t c = Some (c', Inr [b])" using p(1) cells t ops(1)
    by (simp add: build_blocks_def builder_build_def tx_build_def Let_def)
  then show ?thesis by blast
qed

definition plain_client :: "(string, nat) node_transport \<Rightarrow> (string, nat) client" where
  "plain_client node = client_with_network 0 (ref_client (plain_env node id) [''rep''] 0)"

lemma plain_client_sel [simp]: "kc_network (plain_client node) = Some 0" "kc_subnet (plain_client node) = None"
  by (simp_all add: plain_client_def client_with_network_def ref_client_def with_parts_def)

lemma plain_base_token: "\<exists>base. base_token (plain_env node id) (plain_client node) = Inr base \<and> to_keypair_type base = TOKEN"
  by (simp add: base_token_def base_addresses_def generate_network_address_def ref.identifier_from_seed_ok ref.generate_identifier_eq is_identifier_iff)

definition fee_vote :: vote where
  "fee_vote = \<lparr>vote_decoded = \<lparr>dv_serial = 1, dv_algo = SigEd25519, dv_issuer = ref_account,
     dv_validity = \<lparr>valid_from = 0, valid_to = 300000\<rparr>, dv_blocks = [replicate 32 3],
     dv_fees = Some (FeesSingle False \<lparr>fee_amount = 5, fee_pay_to = None, fee_token = None\<rparr>), dv_signature = [], dv_tbs_bytes = []\<rparr>,
     vote_serialized = []\<rparr>"

definition tip_block :: block where
  "tip_block = \<lparr>blk_data = ref_data, blk_signatures = [], blk_bytes = [], blk_hash = replicate 32 3\<rparr>"

theorem fee_block_pays_votes_witness:
  "\<exists>c' b base. fee_block_for (plain_env silent_node id) ref_account ref_account [tip_block] [fee_vote] 1000 [] (plain_client silent_node) =
      Some (c', Inr b) \<and> bd_purpose (blk_data b) = Fee \<and> bd_previous (blk_data b) = replicate 32 3 \<and>
      bd_operations (blk_data b) =
        [OpSend \<lparr>send_to = ref_account, send_amount = 5, send_token = base, send_external = None\<rparr>]"
proof -
  let ?E = "plain_env silent_node id :: (string, nat) client_env" and ?c = "plain_client silent_node"
  obtain base where base: "base_token ?E ?c = Inr base" "to_keypair_type base = TOKEN" using plain_base_token by blast
  define sends where "sends = [\<lparr>send_to = ref_account, send_amount = 5, send_token = base, send_external = None\<rparr>]"
  have votes: "List.map_filter (\<lambda>v. vote_fee_send ref_vlib v base []) [fee_vote] = sends"
  proof -
    have "vote_fee_send ref_vlib fee_vote base [] = Some \<lparr>send_to = ref_account, send_amount = 5, send_token = base, send_external = None\<rparr>"
      by (simp add: vote_fee_send_def fee_vote_def fees_to_send_def fees_required_def fees_select_def pays_base_token_def or_else_def)
    then show ?thesis by (simp add: List.map_filter_simps sends_def)
  qed
  then have ops: "fee_operations ?E [fee_vote] [] ?c = Inr sends" using base by (simp add: fee_operations_def)
  note f = fee_builder_fields[of ref_account ref_account "[tip_block]" 1000 sends]
  have tip: "staple_tip [tip_block] ref_account = Some (replicate 32 3)" by (simp add: staple_tip_def tip_block_def)
  have s: "sends \<noteq> []" "list_all plain_op (map OpSend sends)" "list_all (\<lambda>op. operation_type op = 0) (map OpSend sends)"
    using base(2) by (simp_all add: sends_def)
  have "\<exists>c' b. build_blocks ?E (fee_builder ref_account ref_account [tip_block] 1000 sends) ?c = Some (c', Inr [b])"
    by (intro plain_build[where ops = "map OpSend sends"])
      (simp_all add: f tip s render_ops_def render_raw into_operations_def render_buckets_default_def)
  then obtain c' b where "build_blocks ?E (fee_builder ref_account ref_account [tip_block] 1000 sends) ?c = Some (c', Inr [b])" by blast
  then have "fee_block_for ?E ref_account ref_account [tip_block] [fee_vote] 1000 [] ?c = Some (c', Inr b)"
    using ops by (simp add: fee_block_for_def task_bind_def task_of_def ok_or_def)
  moreover from fee_block_pays_votes[OF this] votes tip base have "bd_purpose (blk_data b) = Fee \<and> bd_previous (blk_data b) = replicate 32 3 \<and>
      bd_operations (blk_data b) = map OpSend sends" by auto
  ultimately show ?thesis unfolding sends_def by auto
qed


lemma ref_head:
  assumes "answering c"
  shows "\<exists>c'. ledger_head (plain_env (voting_node v) create) ref_account (Some c) = (Some c', Inr None)"
proof -
  let ?E = "plain_env (voting_node v) create"
  obtain address where a: "to_public_key_string ref_lib ref_account = Inr address"
    by (auto simp: to_public_key_string_def ref_account_def to_public_key_with_type_def public_key_with_type_def
        format_public_key_string_def Let_def)
  obtain c' where "dispatch_any ?E (\<lambda>t. nt_head_block (voting_node v) t address) c = Some (c', Inr None)"
    using answering_dispatch[OF assms, of "\<lambda>t. nt_head_block (voting_node v) t address" None ?E] by auto
  then show ?thesis using a by (simp add: ledger_head_def client_head_block_def with_address_def task_bind_def task_of_def)
qed

theorem swap_request_is_accepted_witness:
  "\<exists>c' b s r. user_create_swap_request (plain_env (voting_node fee_vote) id) \<lparr>uc_account = None, uc_signer = Some ref_account\<rparr>
      \<lparr>cs_counterparty = Ed25519 (replicate 32 2), cs_send_token = Token (replicate 32 7), cs_send_amount = 3,
       cs_receive_token = Token (replicate 32 8), cs_receive_amount = 5, cs_receive_exact = True\<rparr> (plain_client (voting_node fee_vote)) =
      Some (c', Inr b) \<and>
    accept_terms ref_lib \<lparr>uc_account = None, uc_signer = Some (Ed25519 (replicate 32 2))\<rparr>
       \<lparr>ar_block = b, ar_expected = Some
         \<lparr>se_receive = Some \<lparr>sta_token = Some (Token (replicate 32 7)), sta_amount = Some 3\<rparr>,
          se_send = Some \<lparr>sta_token = Some (Token (replicate 32 8)), sta_amount = Some 5\<rparr>\<rparr>\<rparr> = Inr (s, r, 5)"
proof -
  let ?E = "plain_env (voting_node fee_vote) id :: (string, nat) client_env" and ?c = "plain_client (voting_node fee_vote)"
  let ?maker = "\<lparr>uc_account = None, uc_signer = Some ref_account\<rparr>" and ?party = "Ed25519 (replicate 32 2)"
  let ?taker = "\<lparr>uc_account = None, uc_signer = Some ?party\<rparr>"
  let ?request = "\<lparr>cs_counterparty = ?party, cs_send_token = Token (replicate 32 7), cs_send_amount = 3,
       cs_receive_token = Token (replicate 32 8), cs_receive_amount = 5, cs_receive_exact = True\<rparr>"
  let ?t = "tx_receive_with (Resolved ?party) (Resolved (Token (replicate 32 8))) 5 True None
      (tx_send (Resolved ?party) (Resolved (Token (replicate 32 7))) 3 (client_builder ref_account))"
  have "answering ?c"
    by (simp add: answering_def plain_client_def client_with_network_def one_rep_def transports_ok_def ref_client_def with_parts_def
        ref_part_def rep_record_new_def client_config_default_def)
  then have head: "\<exists>c'. ledger_head ?E ref_account (Some ?c) = (Some c', Inr None)" by (rule ref_head)
  have t: "tx_groups ?t = []" "grp_account (tx_current ?t) = ref_account" "grp_signer (tx_current ?t) = ref_account" "tx_primary ?t = ref_account"
    "tx_initial_previous ?t = None" "tx_purpose ?t = None"
    "grp_ops (tx_current ?t) = [PSend (Resolved ?party) (Resolved (Token (replicate 32 7))) 3 None,
       PReceive (Resolved ?party) (Resolved (Token (replicate 32 8))) 5 True None]"
    by (simp_all add: tx_receive_with_def tx_send_def tx_pushes client_builder_def tx_new_def group_new_def)
  have "\<exists>c' b. build_blocks ?E ?t ?c = Some (c', Inr [b])"
    by (rule plain_build[where ops = "[OpSend \<lparr>send_to = ?party, send_amount = 3, send_token = Token (replicate 32 7), send_external = None\<rparr>,
        OpReceive \<lparr>recv_amount = 5, recv_token = Token (replicate 32 8), recv_from = ?party, recv_exact = True, recv_forward = None\<rparr>]"])
      (use head in \<open>simp_all add: t render_ops_def push_send_def push_receive_def into_operations_def render_buckets_default_def\<close>)
  then obtain c' b where "build_blocks ?E ?t ?c = Some (c', Inr [b])" by blast
  then have r: "user_create_swap_request ?E ?maker ?request ?c = Some (c', Inr b)"
    by (simp add: user_create_swap_request_def build_signed_def task_bind_def task_of_def signed_builder_def user_signer_def
        account_or_def ok_or_def Let_def)
  have "account_or ?taker None = Inr ?party" by (simp add: account_or_def)
  from swap_request_is_accepted[OF r _ _ this] show ?thesis using r by fastforce
qed

end
