(* ===== verification/X509.thy ===== *)
theory X509
  imports Asn1Vote Account "HOL-Library.Option_ord"
begin

text \<open>
  X.509 certificates: the data types and errors of \<open>x509/src/certificates.rs\<close>, \<open>error.rs\<close> and
  \<open>asn1/src/der.rs\<close>, the helpers of \<open>x509/src/utils.rs\<close>, hash algorithms, and the ECDSA signature
  codec of \<open>crypto/src/utils.rs\<close>.  \<open>x509_lib\<close> holds what they take from other crates: the codec
  that \<open>der\<close> derives for certificates, object identifiers, base64, SHA-2 and the verification of
  raw signatures.  Points in time are nanoseconds since the epoch; a certificate holds whole seconds.
\<close>

section \<open>Hash algorithms\<close>

datatype hash_algorithm = Sha3_256 | Sha2_256 | Sha2_512

fun hash_algorithm_name :: "hash_algorithm \<Rightarrow> string" where
  "hash_algorithm_name Sha3_256 = ''sha3-256''"
| "hash_algorithm_name Sha2_256 = ''sha2-256''"
| "hash_algorithm_name Sha2_512 = ''sha2-512''"

fun hash_algorithm_length :: "hash_algorithm \<Rightarrow> nat" where
  "hash_algorithm_length Sha3_256 = 32"
| "hash_algorithm_length Sha2_256 = 32"
| "hash_algorithm_length Sha2_512 = 64"

section \<open>Errors and object identifiers\<close>

datatype certificate_error =
    XInvalidCertificate | XValidationFailed string | XExpired | XNotYetValid | XAsn1ParseError
  | XMissingField string | XInvalidExtension string | XChainValidationFailed string | XUnsupportedVersion nat
  | XUnsupportedSignatureHash hash_algorithm | XSignatureVerificationFailed | XDuplicateIncluded
  | XOrphanFound | XCycleFound | XInvalidGraphCount nat

definition or_invalid_certificate :: "'e + 'a \<Rightarrow> certificate_error + 'a" where
  "or_invalid_certificate r = map_err (\<lambda>_. XInvalidCertificate) r"

definition SHA256_WITH_RSA :: string where "SHA256_WITH_RSA = ''1.2.840.113549.1.1.11''"
definition EC_PUBLIC_KEY :: string where "EC_PUBLIC_KEY = ''1.2.840.10045.2.1''"
definition ECDSA_WITH_SHA256 :: string where "ECDSA_WITH_SHA256 = ''1.2.840.10045.4.3.2''"
definition ECDSA_WITH_SHA3_256 :: string where "ECDSA_WITH_SHA3_256 = ''2.16.840.1.101.3.4.3.10''"
definition X_SECP256R1 :: string where "X_SECP256R1 = ''1.2.840.10045.3.1.7''"
definition X_SECP256K1 :: string where "X_SECP256K1 = ''1.3.132.0.10''"
definition X_ED25519 :: string where "X_ED25519 = ''1.3.101.112''"
definition BASIC_CONSTRAINTS :: string where "BASIC_CONSTRAINTS = ''2.5.29.19''"
definition KEY_USAGE :: string where "KEY_USAGE = ''2.5.29.15''"
definition EXTENDED_KEY_USAGE :: string where "EXTENDED_KEY_USAGE = ''2.5.29.37''"
definition SUBJECT_ALT_NAME :: string where "SUBJECT_ALT_NAME = ''2.5.29.17''"
definition SUBJECT_KEY_IDENTIFIER :: string where "SUBJECT_KEY_IDENTIFIER = ''2.5.29.14''"
definition AUTHORITY_KEY_IDENTIFIER :: string where "AUTHORITY_KEY_IDENTIFIER = ''2.5.29.35''"
definition CERTIFICATE_POLICIES :: string where "CERTIFICATE_POLICIES = ''2.5.29.32''"
definition NAME_CONSTRAINTS :: string where "NAME_CONSTRAINTS = ''2.5.29.30''"
definition SERVER_AUTH :: string where "SERVER_AUTH = ''1.3.6.1.5.5.7.3.1''"
definition CLIENT_AUTH :: string where "CLIENT_AUTH = ''1.3.6.1.5.5.7.3.2''"
definition X_CN :: string where "X_CN = ''2.5.4.3''"
definition X_O :: string where "X_O = ''2.5.4.10''"
definition X_OU :: string where "X_OU = ''2.5.4.11''"
definition X_C :: string where "X_C = ''2.5.4.6''"
definition X_ST :: string where "X_ST = ''2.5.4.8''"
definition X_L :: string where "X_L = ''2.5.4.7''"
definition EMAIL_ADDRESS :: string where "EMAIL_ADDRESS = ''1.2.840.113549.1.9.1''"
definition X_SHA256 :: string where "X_SHA256 = ''2.16.840.1.101.3.4.2.1''"
definition X_SHA512 :: string where "X_SHA512 = ''2.16.840.1.101.3.4.2.3''"
definition X_SHA3_256 :: string where "X_SHA3_256 = ''2.16.840.1.101.3.4.2.8''"

lemmas x509_oids =
  SHA256_WITH_RSA_def EC_PUBLIC_KEY_def ECDSA_WITH_SHA256_def ECDSA_WITH_SHA3_256_def X_SECP256R1_def
  X_SECP256K1_def X_ED25519_def BASIC_CONSTRAINTS_def KEY_USAGE_def EXTENDED_KEY_USAGE_def SUBJECT_ALT_NAME_def
  SUBJECT_KEY_IDENTIFIER_def AUTHORITY_KEY_IDENTIFIER_def CERTIFICATE_POLICIES_def NAME_CONSTRAINTS_def
  SERVER_AUTH_def CLIENT_AUTH_def X_CN_def X_O_def X_OU_def X_C_def X_ST_def X_L_def EMAIL_ADDRESS_def
  X_SHA256_def X_SHA512_def X_SHA3_256_def

section \<open>Data\<close>

type_synonym x509_oid = "nat list"

record der_value =
  any_tag :: tag
  any_bytes :: bytes

record bit_string =
  bit_unused :: nat
  bit_bytes :: bytes

record algorithm_identifier =
  ai_oid :: x509_oid
  ai_parameters :: "der_value option"

record subject_public_key_info =
  spki_algorithm :: algorithm_identifier
  spki_key :: bit_string

record x509_attribute =
  xa_oid :: x509_oid
  xa_value :: der_value

type_synonym x509_name = "x509_attribute list list"

record basic_constraints =
  bc_ca :: bool
  bc_path_len :: "32 word option"

record x509_extension =
  extn_id :: x509_oid
  extn_critical :: bool
  extn_value :: bytes

record base_extensions =
  be_basic_constraints :: "basic_constraints option"
  be_subject_key_identifier :: "string option"
  be_authority_key_identifier :: "string option"

datatype x509_version = X509V1 | X509V2 | X509V3

record x509_tbs =
  xt_version :: x509_version
  xt_serial :: bytes
  xt_signature_algorithm :: algorithm_identifier
  xt_issuer :: x509_name
  xt_not_before :: nat
  xt_not_after :: nat
  xt_subject :: x509_name
  xt_public_key :: subject_public_key_info
  xt_issuer_unique_id :: "bit_string option"
  xt_subject_unique_id :: "bit_string option"
  xt_extensions :: "x509_extension list option"

record x509_certificate =
  xc_tbs :: x509_tbs
  xc_signature_algorithm :: algorithm_identifier
  xc_signature :: bit_string

record certificate_options =
  co_moment :: "int option"
  co_is_trusted_root :: "bool option"

record cert_hash =
  ch_hash :: bytes
  ch_algorithm_oid :: string

section \<open>The crates below\<close>

record x509_lib =
  xl_crypto :: crypto_lib
  xl_der :: der_lib
  xl_oids :: oid_lib
  sha2_256 :: "bytes \<Rightarrow> bytes"
  sha2_512 :: "bytes \<Rightarrow> bytes"
  oid_new :: "string \<Rightarrow> x509_oid option"
  oid_string :: "x509_oid \<Rightarrow> string"
  tbs_encode :: "x509_tbs \<Rightarrow> bytes option"
  cert_encode :: "x509_certificate \<Rightarrow> bytes option"
  cert_decode :: "bytes \<Rightarrow> x509_certificate option"
  basic_constraints_decode :: "bytes \<Rightarrow> basic_constraints option"
  base64_encode :: "bytes \<Rightarrow> string"
  base64_decode :: "string \<Rightarrow> bytes option"
  generalized_time :: "nat \<Rightarrow> nat option"
  ec_key :: "ecdsa_curve \<Rightarrow> bytes \<Rightarrow> bool"
  ec_signature :: "ecdsa_curve \<Rightarrow> bytes \<Rightarrow> bool"
  ec_verify :: "ecdsa_curve \<Rightarrow> bytes \<Rightarrow> bytes \<Rightarrow> bytes \<Rightarrow> bool"
  ed_key :: "bytes \<Rightarrow> bool"
  ed_verify :: "bytes \<Rightarrow> bytes \<Rightarrow> bytes \<Rightarrow> bool"

fun hash_with :: "x509_lib \<Rightarrow> hash_algorithm \<Rightarrow> bytes \<Rightarrow> bytes" where
  "hash_with X Sha3_256 data = sha3_256 (xl_crypto X) data"
| "hash_with X Sha2_256 data = sha2_256 X data"
| "hash_with X Sha2_512 data = sha2_512 X data"

section \<open>Algorithm identifiers and public keys\<close>

definition bit_string_from_bytes :: "bytes \<Rightarrow> bit_string" where
  "bit_string_from_bytes bs = \<lparr>bit_unused = 0, bit_bytes = bs\<rparr>"

definition algorithm_identifier_new :: "x509_lib \<Rightarrow> string \<Rightarrow> asn1_error + algorithm_identifier" where
  "algorithm_identifier_new X oid =
     and_then (ok_or InvalidOid (oid_new X oid)) (\<lambda>oid. Ok \<lparr>ai_oid = oid, ai_parameters = None\<rparr>)"

definition algorithm_identifier_new_with_params ::
    "x509_lib \<Rightarrow> string \<Rightarrow> der_value \<Rightarrow> asn1_error + algorithm_identifier" where
  "algorithm_identifier_new_with_params X oid parameters =
     and_then (ok_or InvalidOid (oid_new X oid)) (\<lambda>oid. Ok \<lparr>ai_oid = oid, ai_parameters = Some parameters\<rparr>)"

definition parameters_oid :: "x509_lib \<Rightarrow> algorithm_identifier \<Rightarrow> x509_oid option" where
  "parameters_oid X alg =
     Option.bind (ai_parameters alg) (\<lambda>parameters.
       if any_tag parameters = TagOid then oid_of_der (xl_oids X) (any_bytes parameters) else None)"

definition algorithm_identifier_try_from :: "x509_lib \<Rightarrow> algorithm_identifier \<Rightarrow> asn1_error + algorithm_identifier" where
  "algorithm_identifier_try_from X alg =
     and_then (ok_or InvalidOid (oid_new X (oid_string X (ai_oid alg)))) (\<lambda>oid.
       Ok \<lparr>ai_oid = oid, ai_parameters = ai_parameters alg\<rparr>)"

definition spki_new :: "algorithm_identifier \<Rightarrow> bytes \<Rightarrow> asn1_error + subject_public_key_info" where
  "spki_new algorithm key = Ok \<lparr>spki_algorithm = algorithm, spki_key = bit_string_from_bytes key\<rparr>"

definition spki_try_from :: "x509_lib \<Rightarrow> subject_public_key_info \<Rightarrow> asn1_error + subject_public_key_info" where
  "spki_try_from X info =
     and_then (algorithm_identifier_try_from X (spki_algorithm info)) (\<lambda>alg.
       Ok \<lparr>spki_algorithm = alg, spki_key = bit_string_from_bytes (bit_bytes (spki_key info))\<rparr>)"

definition spki_of_certificate :: "x509_lib \<Rightarrow> subject_public_key_info \<Rightarrow> certificate_error + subject_public_key_info" where
  "spki_of_certificate X info = map_err (\<lambda>_. XAsn1ParseError) (spki_try_from X info)"

end
