(* ===== verification/X509Util.thy ===== *)
theory X509Util
  imports X509
begin

text \<open>
  \<open>x509/src/utils.rs\<close>: distinguished names, key identifiers, DER lengths and the verification of
  signatures; \<open>crypto/src/utils.rs\<close>: the DER form of ECDSA signatures.  Distinguished names are
  written as text with the object identifiers in dotted form.
\<close>

unbundle bit_operations_syntax

section \<open>ECDSA signatures\<close>

definition encode_integer :: "bytes \<Rightarrow> bytes" where
  "encode_integer value =
     (let start = (if list_all (\<lambda>b. b = 0) value then length value - 1 else length (takeWhile (\<lambda>b. b = 0) value));
          trimmed = drop start value
      in if trimmed = [] then [0x02, 0x01, 0x00]
         else if hd trimmed AND 0x80 \<noteq> 0 then [0x02, word_of_nat (length trimmed + 1), 0x00] @ trimmed
         else [0x02, word_of_nat (length trimmed)] @ trimmed)"

definition encode_ecdsa_signature_to_der :: "bytes \<Rightarrow> bytes \<Rightarrow> bytes" where
  "encode_ecdsa_signature_to_der r s =
     (let r_encoded = encode_integer r; s_encoded = encode_integer s
      in [0x30, word_of_nat (length r_encoded + length s_encoded)] @ r_encoded @ s_encoded)"

definition fit32 :: "bytes \<Rightarrow> bytes" where
  "fit32 value =
     (if length value > 32 then drop (length value - 32) value else replicate (32 - length value) 0 @ value)"

definition parse_ecdsa_integer :: "bytes \<Rightarrow> nat \<Rightarrow> crypto_error + bytes \<times> nat" where
  "parse_ecdsa_integer der pos =
     (if pos \<ge> length der \<or> der ! pos \<noteq> 0x02 then Err CryptoInvalidInput
      else if pos + 1 \<ge> length der then Err CryptoInvalidInput
      else let len = unat (der ! (pos + 1)) in
        if pos + 2 + len > length der then Err CryptoInvalidInput
        else Ok (take len (drop (pos + 2) der), pos + 2 + len))"

definition parse_der_ecdsa_signature :: "bytes \<Rightarrow> crypto_error + bytes \<times> bytes" where
  "parse_der_ecdsa_signature der =
     (if length der < 8 \<or> der ! 0 \<noteq> 0x30 then Err CryptoInvalidInput
      else if unat (der ! 1) + 2 > length der then Err CryptoInvalidInput
      else and_then (parse_ecdsa_integer der 2) (\<lambda>(r, pos).
           and_then (parse_ecdsa_integer der pos) (\<lambda>(s, _). Ok (fit32 r, fit32 s))))"

definition der_to_raw_signature :: "bytes \<Rightarrow> certificate_error + bytes" where
  "der_to_raw_signature signature =
     (case parse_der_ecdsa_signature signature of
        Inr (r, s) \<Rightarrow> Ok (r @ s)
      | Inl _ \<Rightarrow> Err XInvalidCertificate)"

definition raw_to_der_signature :: "bytes \<Rightarrow> certificate_error + bytes" where
  "raw_to_der_signature signature =
     (if length signature \<noteq> 64 then Err XInvalidCertificate
      else Ok (encode_ecdsa_signature_to_der (take 32 signature) (drop 32 signature)))"

section \<open>Verification\<close>

definition try_verify_ecdsa_generic ::
    "x509_lib \<Rightarrow> ecdsa_curve \<Rightarrow> bytes \<Rightarrow> bytes \<Rightarrow> bytes \<Rightarrow> hash_algorithm \<Rightarrow> certificate_error + bool" where
  "try_verify_ecdsa_generic X curve key signature tbs_der hash =
     (case der_to_raw_signature signature of
        Inl _ \<Rightarrow> Ok False
      | Inr sig_array \<Rightarrow>
          if \<not> ec_signature X curve sig_array then Err XInvalidCertificate
          else Ok (ec_verify X curve key (hash_with X hash tbs_der) sig_array))"

definition try_verify_ecdsa ::
    "x509_lib \<Rightarrow> ecdsa_curve \<Rightarrow> bytes \<Rightarrow> bytes \<Rightarrow> bytes \<Rightarrow> hash_algorithm \<Rightarrow> certificate_error + bool" where
  "try_verify_ecdsa X curve key signature tbs_der hash =
     (if \<not> ec_key X curve key then Err XInvalidCertificate
      else try_verify_ecdsa_generic X curve key signature tbs_der hash)"

definition verify_ed25519_signature :: "x509_lib \<Rightarrow> bytes \<Rightarrow> bytes \<Rightarrow> bytes \<Rightarrow> certificate_error + bool" where
  "verify_ed25519_signature X key signature tbs_der =
     (if length signature \<noteq> 64 then Ok False
      else if \<not> ed_key X key then Err XInvalidCertificate
      else if ed_verify X key tbs_der signature then Ok True else Err XSignatureVerificationFailed)"

section \<open>Times and key identifiers\<close>

definition time_to_utc :: "nat \<Rightarrow> int" where
  "time_to_utc t = int t * 1000000000"

definition generate_key_identifier :: "x509_lib \<Rightarrow> bytes \<Rightarrow> bytes" where
  "generate_key_identifier X key = hash_with X Sha3_256 key"

definition parse_key_identifier :: "x509_lib \<Rightarrow> bytes \<Rightarrow> bytes option" where
  "parse_key_identifier X bs = map_option fst (ok (read_octet (xl_der X) bs))"

text \<open>The loop over the elements of the sequence; each element takes at least two octets.\<close>

fun find_key_identifier :: "nat \<Rightarrow> x509_lib \<Rightarrow> bytes \<Rightarrow> bytes option option" where
  "find_key_identifier n X [] = Some None"
| "find_key_identifier 0 X (b # bs) = None"
| "find_key_identifier (Suc n) X (b # bs) =
     (case tlv_decode (xl_der X) (b # bs) of
        None \<Rightarrow> Some None
      | Some (t, value, rest) \<Rightarrow>
          (case t of
             TagContext _ k \<Rightarrow> if k = 0 then Some (Some value) else find_key_identifier n X rest
           | _ \<Rightarrow> find_key_identifier n X rest))"

definition parse_authority_key_identifier :: "x509_lib \<Rightarrow> bytes \<Rightarrow> bytes option" where
  "parse_authority_key_identifier X bs =
     (case tlv_decode (xl_der X) bs of
        None \<Rightarrow> None
      | Some (t, content, _) \<Rightarrow>
          if t \<noteq> TagSequence then None
          else (case find_key_identifier (length content) X content of Some r \<Rightarrow> r | None \<Rightarrow> None))"

section \<open>Distinguished names\<close>

definition TagIa5String :: tag where "TagIa5String = TagOther 0x16"

definition ia5_string_new :: "rust_string \<Rightarrow> certificate_error + der_value" where
  "ia5_string_new value =
     (if list_all (\<lambda>b. b < 128) value then Ok \<lparr>any_tag = TagIa5String, any_bytes = value\<rparr> else Err XAsn1ParseError)"

definition dn_attribute :: "x509_lib \<Rightarrow> string \<Rightarrow> rust_string \<Rightarrow> certificate_error + x509_attribute list" where
  "dn_attribute X oid value =
     and_then (ok_or XInvalidCertificate (oid_new X oid)) (\<lambda>oid.
     and_then (ia5_string_new value) (\<lambda>value.
       Ok [\<lparr>xa_oid = oid, xa_value = value\<rparr>]))"

definition create_dn :: "x509_lib \<Rightarrow> (string \<times> rust_string) list \<Rightarrow> certificate_error + x509_name" where
  "create_dn X pairs = traverse (\<lambda>(name, value). dn_attribute X name value) pairs"

record name_value_pair =
  nv_name :: string
  nv_value :: rust_string

definition dn_common_names :: "(string \<times> string) list" where
  "dn_common_names =
     [(X_CN, ''commonName''), (X_C, ''countryName''), (X_L, ''localityName''), (X_ST, ''stateOrProvinceName''),
      (X_O, ''organizationName''), (X_OU, ''organizationalUnitName''), (EMAIL_ADDRESS, ''emailAddress'')]"

text \<open>\<open>String::from_utf8_lossy\<close>: the length of the sequence at the front and whether it is valid.\<close>

fun utf8_front :: "nat list \<Rightarrow> bool \<times> nat" where
  "utf8_front [] = (True, 0)"
| "utf8_front (a # bs) =
     (let cont = (\<lambda>i lo hi. i < length bs \<and> lo \<le> bs ! i \<and> bs ! i \<le> hi);
          lo = (if a = 0xE0 then 0xA0 else if a = 0xF0 then 0x90 else 0x80);
          hi = (if a = 0xED then 0x9F else if a = 0xF4 then 0x8F else 0xBF);
          len = (if (0xC2 :: nat) \<le> a \<and> a \<le> 0xDF then 2 else if 0xE0 \<le> a \<and> a \<le> 0xEF then 3
                 else if 0xF0 \<le> a \<and> a \<le> 0xF4 then 4 else (1 :: nat))
      in if a < 128 then (True, 1)
         else if len = 1 \<or> \<not> cont 0 lo hi then (False, 1)
         else if len = 2 then (True, 2)
         else if \<not> cont 1 0x80 0xBF then (False, 2)
         else if len = 3 then (True, 3)
         else if \<not> cont 2 0x80 0xBF then (False, 3) else (True, 4))"

function utf8_lossy :: "bytes \<Rightarrow> rust_string" where
  "utf8_lossy bs =
     (if bs = [] then []
      else let (valid, n) = utf8_front (map unat bs)
           in (if valid then take n bs else [0xEF, 0xBF, 0xBD]) @ utf8_lossy (drop (max 1 n) bs))"
  by auto
termination by (relation "measure length") auto

declare utf8_lossy.simps [simp del]

definition dn_value :: "der_value \<Rightarrow> rust_string" where
  "dn_value v =
     (if any_tag v = TagIa5String \<and> list_all (\<lambda>b. b < 128) (any_bytes v) then any_bytes v
      else utf8_lossy (any_bytes v))"

definition dn_to_name_value_pairs :: "x509_lib \<Rightarrow> x509_name \<Rightarrow> name_value_pair list" where
  "dn_to_name_value_pairs X dn =
     map (\<lambda>attr.
       let oid = oid_string X (xa_oid attr)
       in \<lparr>nv_name = (case map_of dn_common_names oid of Some name \<Rightarrow> name | None \<Rightarrow> oid),
          nv_value = dn_value (xa_value attr)\<rparr>) (concat dn)"

definition name_to_oid :: "string \<Rightarrow> string" where
  "name_to_oid name =
     (if name \<in> {''commonName'', ''CN''} then X_CN
      else if name \<in> {''countryName'', ''C''} then X_C
      else if name \<in> {''localityName'', ''L''} then X_L
      else if name \<in> {''stateOrProvinceName'', ''ST''} then X_ST
      else if name \<in> {''organizationName'', ''O''} then X_O
      else if name \<in> {''organizationalUnitName'', ''OU''} then X_OU
      else if name = ''emailAddress'' then EMAIL_ADDRESS
      else name)"

definition name_value_pairs_to_dn :: "x509_lib \<Rightarrow> name_value_pair list \<Rightarrow> certificate_error + x509_name" where
  "name_value_pairs_to_dn X pairs = traverse (\<lambda>p. dn_attribute X (name_to_oid (nv_name p)) (nv_value p)) pairs"

fun dn_join :: "'a list \<Rightarrow> 'a list list \<Rightarrow> 'a list" where
  "dn_join sep [] = []"
| "dn_join sep [x] = x"
| "dn_join sep (x # y # ys) = x @ sep @ dn_join sep (y # ys)"

definition dn_to_string :: "x509_lib \<Rightarrow> x509_name \<Rightarrow> rust_string" where
  "dn_to_string X dn =
     dn_join (str '', '') (map (\<lambda>attr.
       str (oid_string X (xa_oid attr)) @ str ''='' @ dn_value (xa_value attr)) (concat dn))"

section \<open>Lengths\<close>

definition parse_der_length :: "bytes \<Rightarrow> (nat \<times> nat) option" where
  "parse_der_length data =
     (if data = [] \<or> data ! 0 \<noteq> 0x30 \<or> length data < 2 then None
      else if data ! 1 AND 0x80 = 0 then Some (unat (data ! 1), 2)
      else let length_bytes = unat (data ! 1 AND 0x7F) in
        if length_bytes = 0 \<or> length data < 2 + length_bytes then None
        else Some (unat (fold (\<lambda>b acc. push_bit 8 acc OR ucast b) (take length_bytes (drop 2 data)) (0 :: 64 word)),
                   2 + length_bytes))"

end
