(* ===== verification/X509Cert.thy ===== *)
theory X509Cert
  imports X509Util "HOL-Library.List_Lexorder"
begin

text \<open>
  Certificates (\<open>x509/src/certificates.rs\<close>): queries, signature and path validation, RFC 5280
  checks, PEM, hashes, chain building and the graph check, and bundles of certificates.

  Certificates are ordered by their DER encoding.  A \<open>BTreeSet<Certificate>\<close> that is iterated is a
  list sorted by that key without repeated keys; a set that is only asked for members is the set of
  its keys.
\<close>

section \<open>Extensions and conversions\<close>

definition extension_new :: "x509_lib \<Rightarrow> string \<Rightarrow> bytes \<Rightarrow> bool \<Rightarrow> certificate_error + x509_extension" where
  "extension_new X oid value critical =
     and_then (ok_or XInvalidCertificate (oid_new X oid)) (\<lambda>oid.
       Ok \<lparr>extn_id = oid, extn_critical = critical, extn_value = value\<rparr>)"

definition extension_try_from :: "x509_lib \<Rightarrow> x509_extension \<Rightarrow> certificate_error + x509_extension" where
  "extension_try_from X ext =
     and_then (ok_or XInvalidCertificate (oid_new X (oid_string X (extn_id ext)))) (\<lambda>oid.
       Ok \<lparr>extn_id = oid, extn_critical = extn_critical ext, extn_value = extn_value ext\<rparr>)"

definition tbs_try_from :: "x509_lib \<Rightarrow> x509_tbs \<Rightarrow> certificate_error + x509_tbs" where
  "tbs_try_from X tbs =
     and_then (transpose_opt (traverse (extension_try_from X)) (xt_extensions tbs)) (\<lambda>extensions.
       Ok (tbs\<lparr>xt_extensions := extensions\<rparr>))"

definition certificate_try_from_inner :: "x509_lib \<Rightarrow> x509_certificate \<Rightarrow> certificate_error + x509_certificate" where
  "certificate_try_from_inner X cert =
     and_then (tbs_try_from X (xc_tbs cert)) (\<lambda>tbs. Ok (cert\<lparr>xc_tbs := tbs\<rparr>))"

section \<open>Queries\<close>

definition to_der :: "x509_lib \<Rightarrow> x509_certificate \<Rightarrow> certificate_error + bytes" where
  "to_der X cert = ok_or XAsn1ParseError (cert_encode X cert)"

definition cert_key :: "x509_lib \<Rightarrow> x509_certificate \<Rightarrow> bytes option" where
  "cert_key X cert = ok (to_der X cert)"

definition to_not_before :: "x509_certificate \<Rightarrow> int" where
  "to_not_before cert = time_to_utc (xt_not_before (xc_tbs cert))"

definition to_not_after :: "x509_certificate \<Rightarrow> int" where
  "to_not_after cert = time_to_utc (xt_not_after (xc_tbs cert))"

definition is_valid_at :: "x509_certificate \<Rightarrow> int \<Rightarrow> certificate_error + bool" where
  "is_valid_at cert time =
     (if time < to_not_before cert then Ok False else if time > to_not_after cert then Ok False else Ok True)"

definition validate_at :: "x509_certificate \<Rightarrow> int \<Rightarrow> certificate_error + unit" where
  "validate_at cert time =
     (if time < to_not_before cert then Err XNotYetValid
      else if time > to_not_after cert then Err XExpired else Ok ())"

definition is_currently_valid :: "int \<Rightarrow> x509_certificate \<Rightarrow> certificate_error + bool" where
  "is_currently_valid now cert = is_valid_at cert now"

definition is_expiring_within :: "int \<Rightarrow> x509_certificate \<Rightarrow> int \<Rightarrow> bool" where
  "is_expiring_within now cert duration \<longleftrightarrow> to_not_after cert \<le> now + duration"

definition to_age :: "int \<Rightarrow> x509_certificate \<Rightarrow> int" where
  "to_age now cert = now - to_not_before cert"

definition is_valid_for_at_least :: "int \<Rightarrow> x509_certificate \<Rightarrow> int \<Rightarrow> bool" where
  "is_valid_for_at_least now cert duration \<longleftrightarrow> to_age now cert \<ge> duration"

definition to_remaining_validity :: "int \<Rightarrow> x509_certificate \<Rightarrow> int" where
  "to_remaining_validity now cert = to_not_after cert - now"

definition to_subject :: "x509_lib \<Rightarrow> x509_certificate \<Rightarrow> rust_string" where
  "to_subject X cert = dn_to_string X (xt_subject (xc_tbs cert))"

definition to_issuer :: "x509_lib \<Rightarrow> x509_certificate \<Rightarrow> rust_string" where
  "to_issuer X cert = dn_to_string X (xt_issuer (xc_tbs cert))"

definition to_subject_public_key :: "x509_lib \<Rightarrow> x509_certificate \<Rightarrow> certificate_error + subject_public_key_info" where
  "to_subject_public_key X cert = spki_of_certificate X (xt_public_key (xc_tbs cert))"

definition is_self_signed :: "x509_certificate \<Rightarrow> bool" where
  "is_self_signed cert \<longleftrightarrow> xt_issuer (xc_tbs cert) = xt_subject (xc_tbs cert)"

definition cert_extensions :: "x509_certificate \<Rightarrow> x509_extension list" where
  "cert_extensions cert = (case xt_extensions (xc_tbs cert) of None \<Rightarrow> [] | Some exts \<Rightarrow> exts)"

definition extension_of :: "x509_lib \<Rightarrow> x509_certificate \<Rightarrow> string \<Rightarrow> x509_extension option" where
  "extension_of X cert oid =
     (case xt_extensions (xc_tbs cert) of
        None \<Rightarrow> None
      | Some extensions \<Rightarrow>
          Option.bind (oid_new X oid) (\<lambda>target. find (\<lambda>ext. extn_id ext = target) extensions))"

definition is_ca :: "x509_lib \<Rightarrow> x509_certificate \<Rightarrow> bool" where
  "is_ca X cert =
     (case extension_of X cert BASIC_CONSTRAINTS of
        None \<Rightarrow> False
      | Some ext \<Rightarrow> (case basic_constraints_decode X (extn_value ext) of Some bc \<Rightarrow> bc_ca bc | None \<Rightarrow> False))"

definition has_same_public_key :: "x509_certificate \<Rightarrow> x509_certificate \<Rightarrow> bool" where
  "has_same_public_key cert other \<longleftrightarrow> xt_public_key (xc_tbs cert) = xt_public_key (xc_tbs other)"

definition apply_base_extension :: "x509_lib \<Rightarrow> base_extensions \<Rightarrow> x509_extension \<Rightarrow> base_extensions" where
  "apply_base_extension X base ext =
     (let oid = oid_string X (extn_id ext) in
      if oid = BASIC_CONSTRAINTS
      then (case basic_constraints_decode X (extn_value ext) of
              Some bc \<Rightarrow> base\<lparr>be_basic_constraints := Some bc\<rparr> | None \<Rightarrow> base)
      else if oid = SUBJECT_KEY_IDENTIFIER
      then (case parse_key_identifier X (extn_value ext) of
              Some key_id \<Rightarrow> base\<lparr>be_subject_key_identifier := Some (hex_encode (xl_crypto X) key_id)\<rparr> | None \<Rightarrow> base)
      else if oid = AUTHORITY_KEY_IDENTIFIER
      then (case parse_authority_key_identifier X (extn_value ext) of
              Some key_id \<Rightarrow> base\<lparr>be_authority_key_identifier := Some (hex_encode (xl_crypto X) key_id)\<rparr> | None \<Rightarrow> base)
      else base)"

definition parse_base_extensions :: "x509_lib \<Rightarrow> x509_certificate \<Rightarrow> base_extensions" where
  "parse_base_extensions X cert =
     foldl (apply_base_extension X)
       \<lparr>be_basic_constraints = None, be_subject_key_identifier = None, be_authority_key_identifier = None\<rparr>
       (cert_extensions cert)"

section \<open>Signatures and issuers\<close>

definition verify_ecdsa_declared_curve ::
    "x509_lib \<Rightarrow> subject_public_key_info \<Rightarrow> bytes \<Rightarrow> bytes \<Rightarrow> hash_algorithm \<Rightarrow> certificate_error + bool" where
  "verify_ecdsa_declared_curve X issuer_key signature tbs_der hash =
     (case parameters_oid X (spki_algorithm issuer_key) of
        None \<Rightarrow> Ok False
      | Some declared \<Rightarrow>
          let curve = oid_string X declared; key = bit_bytes (spki_key issuer_key) in
          if curve = X_SECP256R1 then try_verify_ecdsa X CurveSecp256r1 key signature tbs_der hash
          else if curve = X_SECP256K1 then try_verify_ecdsa X CurveSecp256k1 key signature tbs_der hash
          else Ok False)"

definition verify_signature :: "x509_lib \<Rightarrow> x509_certificate \<Rightarrow> subject_public_key_info \<Rightarrow> certificate_error + bool" where
  "verify_signature X cert issuer_key =
     (let sig_oid = oid_string X (ai_oid (xc_signature_algorithm cert));
          key_oid = oid_string X (ai_oid (spki_algorithm issuer_key));
          is_compatible =
            (if sig_oid = ECDSA_WITH_SHA3_256 \<or> sig_oid = ECDSA_WITH_SHA256 then key_oid = EC_PUBLIC_KEY
             else if sig_oid = X_ED25519 then key_oid = X_ED25519
             else False)
      in if \<not> is_compatible then Ok False
         else and_then (ok_or XAsn1ParseError (tbs_encode X (xc_tbs cert))) (\<lambda>tbs_der.
           let signature = bit_bytes (xc_signature cert); key = bit_bytes (spki_key issuer_key) in
           if sig_oid = X_ED25519 then verify_ed25519_signature X key signature tbs_der
           else if sig_oid = ECDSA_WITH_SHA3_256
           then verify_ecdsa_declared_curve X issuer_key signature tbs_der Sha3_256
           else if sig_oid = ECDSA_WITH_SHA256
           then verify_ecdsa_declared_curve X issuer_key signature tbs_der Sha2_256
           else if sig_oid = SHA256_WITH_RSA then Err XInvalidCertificate
           else Ok False))"

definition has_matching_issuer_subject_dn :: "x509_certificate \<Rightarrow> x509_certificate \<Rightarrow> bool" where
  "has_matching_issuer_subject_dn cert issuer \<longleftrightarrow> xt_issuer (xc_tbs cert) = xt_subject (xc_tbs issuer)"

definition has_valid_authority_key_identifier :: "x509_lib \<Rightarrow> x509_certificate \<Rightarrow> x509_certificate \<Rightarrow> bool" where
  "has_valid_authority_key_identifier X cert issuer =
     (case extension_of X cert AUTHORITY_KEY_IDENTIFIER of
        None \<Rightarrow> True
      | Some auth_ext \<Rightarrow>
          (case extension_of X issuer SUBJECT_KEY_IDENTIFIER of
             None \<Rightarrow> False
           | Some subject_ext \<Rightarrow>
               (case (parse_authority_key_identifier X (extn_value auth_ext),
                      parse_key_identifier X (extn_value subject_ext)) of
                  (Some auth_key_id, Some subject_key_id) \<Rightarrow> auth_key_id = subject_key_id
                | _ \<Rightarrow> False)))"

definition is_valid_issuer_subject_pair :: "x509_lib \<Rightarrow> x509_certificate \<Rightarrow> x509_certificate \<Rightarrow> certificate_error + bool" where
  "is_valid_issuer_subject_pair X cert issuer =
     (if \<not> has_matching_issuer_subject_dn cert issuer then Ok False
      else if \<not> has_valid_authority_key_identifier X cert issuer then Ok False
      else and_then (to_subject_public_key X issuer) (\<lambda>issuer_key.
           and_then (verify_signature X cert issuer_key) (\<lambda>verified.
           if \<not> verified then Ok False
           else and_then (is_valid_at issuer (to_not_before cert)) (\<lambda>valid.
             if \<not> valid then Ok False else Ok True))))"

definition is_issued_by :: "x509_lib \<Rightarrow> x509_certificate \<Rightarrow> x509_certificate \<Rightarrow> bool" where
  "is_issued_by X cert issuer =
     (case to_subject_public_key X issuer of
        Inl _ \<Rightarrow> False
      | Inr issuer_key \<Rightarrow>
          has_matching_issuer_subject_dn cert issuer \<and> has_valid_authority_key_identifier X cert issuer \<and>
          (case verify_signature X cert issuer_key of Inr verified \<Rightarrow> verified | Inl _ \<Rightarrow> False))"

fun validate_links :: "x509_lib \<Rightarrow> x509_certificate list \<Rightarrow> certificate_error + bool" where
  "validate_links X (subject # issuer # path) =
     and_then (is_valid_issuer_subject_pair X subject issuer) (\<lambda>valid.
       if \<not> valid then Ok False else validate_links X (issuer # path))"
| "validate_links X _ = Ok True"

definition validate_certificate_path :: "x509_lib \<Rightarrow> x509_certificate \<Rightarrow> x509_certificate list \<Rightarrow> certificate_error + bool" where
  "validate_certificate_path X cert path =
     (if path = [] then Ok False
      else if cert \<noteq> hd path then Ok False
      else and_then (validate_links X path) (\<lambda>linked.
        if \<not> linked then Ok False
        else if \<not> is_self_signed (last path) then Ok False else Ok True))"

section \<open>RFC 5280\<close>

definition check_duplicate_step :: "x509_lib \<Rightarrow> string set \<Rightarrow> x509_extension \<Rightarrow> certificate_error + string set" where
  "check_duplicate_step X seen ext =
     (let oid = oid_string X (extn_id ext) in
      if oid \<in> seen then Err (XValidationFailed (''Duplicate extension OID: '' @ oid)) else Ok (insert oid seen))"

definition check_duplicate_extensions :: "x509_lib \<Rightarrow> x509_extension list \<Rightarrow> certificate_error + unit" where
  "check_duplicate_extensions X extensions =
     and_then (try_fold (check_duplicate_step X) {} extensions) (\<lambda>_. Ok ())"

definition check_basic_constraints_consistency :: "x509_lib \<Rightarrow> x509_certificate \<Rightarrow> certificate_error + unit" where
  "check_basic_constraints_consistency X cert =
     (case extension_of X cert BASIC_CONSTRAINTS of
        None \<Rightarrow> Ok ()
      | Some ext \<Rightarrow>
          (case basic_constraints_decode X (extn_value ext) of
             None \<Rightarrow> Ok ()
           | Some bc \<Rightarrow>
               if bc_ca bc \<and> \<not> extn_critical ext
               then Err (XValidationFailed ''CA certificates must have Basic Constraints marked as critical'') else Ok ()))"

definition known_critical_extensions :: "string list" where
  "known_critical_extensions =
     [BASIC_CONSTRAINTS, KEY_USAGE, CERTIFICATE_POLICIES, SUBJECT_ALT_NAME, NAME_CONSTRAINTS]"

definition validate_critical_extensions :: "x509_lib \<Rightarrow> x509_certificate \<Rightarrow> certificate_error + unit" where
  "validate_critical_extensions X cert =
     (case xt_extensions (xc_tbs cert) of
        None \<Rightarrow> Ok ()
      | Some extensions \<Rightarrow>
          for_each (\<lambda>ext.
            if \<not> extn_critical ext then Ok ()
            else let oid = oid_string X (extn_id ext) in
              if oid \<notin> set known_critical_extensions
              then Err (XValidationFailed (''Unknown critical extension: '' @ oid)) else Ok ()) extensions)"

definition validate_extension_consistency :: "x509_lib \<Rightarrow> x509_certificate \<Rightarrow> certificate_error + unit" where
  "validate_extension_consistency X cert =
     (case xt_extensions (xc_tbs cert) of
        None \<Rightarrow> Ok ()
      | Some extensions \<Rightarrow>
          and_then (check_duplicate_extensions X extensions) (\<lambda>_. check_basic_constraints_consistency X cert))"

definition validate_distinguished_names :: "x509_lib \<Rightarrow> x509_certificate \<Rightarrow> certificate_error + unit" where
  "validate_distinguished_names X cert =
     and_then
       (if xt_subject (xc_tbs cert) = []
        then (case extension_of X cert SUBJECT_ALT_NAME of
                Some san \<Rightarrow>
                  if \<not> extn_critical san
                  then Err (XValidationFailed ''Empty subject DN requires critical Subject Alternative Name extension'')
                  else Ok ()
              | None \<Rightarrow>
                  Err (XValidationFailed ''Subject DN cannot be empty without Subject Alternative Name extension''))
        else Ok ()) (\<lambda>_.
     if xt_issuer (xc_tbs cert) = [] then Err (XValidationFailed ''Issuer DN cannot be empty'') else Ok ())"

definition validate_rfc5280_compliance :: "x509_lib \<Rightarrow> x509_certificate \<Rightarrow> certificate_error + unit" where
  "validate_rfc5280_compliance X cert =
     (if xt_version (xc_tbs cert) \<noteq> X509V3
      then Err (XValidationFailed ''Only X.509 v3 certificates are supported per RFC 5280'')
      else and_then (validate_critical_extensions X cert) (\<lambda>_.
           and_then (validate_extension_consistency X cert) (\<lambda>_.
           validate_distinguished_names X cert)))"

definition certificate_try_from :: "x509_lib \<Rightarrow> bytes \<Rightarrow> certificate_error + x509_certificate" where
  "certificate_try_from X data =
     and_then (ok_or XAsn1ParseError (cert_decode X data)) (\<lambda>cert.
     and_then (validate_rfc5280_compliance X cert) (\<lambda>_. Ok cert))"

end
