(* ===== verification/X509Chain.thy ===== *)
theory X509Chain
  imports X509Cert
begin

text \<open>
  The rest of \<open>x509/src/certificates.rs\<close>: chains of issuers, the graph check, hashes and hash sets,
  PEM, and certificate bundles.  \<open>verify_chain\<close> has no bound in the code; it is a partial function,
  \<open>None\<close> when it does not return.
\<close>

section \<open>Sets of certificates\<close>

definition btree_insert :: "x509_lib \<Rightarrow> x509_certificate \<Rightarrow> x509_certificate list \<Rightarrow> x509_certificate list" where
  "btree_insert X cert certs =
     (if cert_key X cert \<in> cert_key X ` set certs then certs else insort_key (cert_key X) cert certs)"

definition btree_collect :: "x509_lib \<Rightarrow> x509_certificate list \<Rightarrow> x509_certificate list" where
  "btree_collect X certs = fold (btree_insert X) certs []"

section \<open>Chains\<close>

partial_function (option) follow_issuers ::
    "x509_lib \<Rightarrow> x509_certificate \<Rightarrow> x509_certificate list \<Rightarrow> x509_certificate \<Rightarrow> bytes option set \<Rightarrow>
      x509_certificate list \<Rightarrow> x509_certificate list option" where
  "follow_issuers X self certificates current chain_set ordered_chain =
     (if is_self_signed current then Some ordered_chain
      else case find (\<lambda>cert. cert \<noteq> self \<and> is_issued_by X current cert) certificates of
        None \<Rightarrow> Some ordered_chain
      | Some issuer \<Rightarrow>
          if cert_key X issuer \<notin> chain_set
          then follow_issuers X self certificates issuer (insert (cert_key X issuer) chain_set) (ordered_chain @ [issuer])
          else follow_issuers X self certificates issuer chain_set ordered_chain)"

definition verify_chain ::
    "x509_lib \<Rightarrow> x509_certificate \<Rightarrow> x509_certificate list \<Rightarrow> x509_certificate list option" where
  "verify_chain X self certificates = follow_issuers X self certificates self {cert_key X self} [self]"

definition cert_is_trusted ::
    "x509_lib \<Rightarrow> int \<Rightarrow> x509_certificate \<Rightarrow> x509_certificate list \<Rightarrow> int option \<Rightarrow> bool option" where
  "cert_is_trusted X now cert certificates moment =
     (let check_time = (case moment of Some t \<Rightarrow> t | None \<Rightarrow> now);
          cert_set = cert_key X ` set certificates
      in if is_valid_at cert check_time \<noteq> Ok True then Some False
         else if cert_key X cert \<in> cert_set then Some True
         else map_option (\<lambda>chain. chain \<noteq> [] \<and> cert_key X (last chain) \<in> cert_set) (verify_chain X cert certificates))"

section \<open>Hashes\<close>

definition certificate_hash_new :: "bytes \<Rightarrow> string option \<Rightarrow> cert_hash" where
  "certificate_hash_new hash oid =
     \<lparr>ch_hash = hash, ch_algorithm_oid = (case oid of Some s \<Rightarrow> s | None \<Rightarrow> X_SHA3_256)\<rparr>"

definition certificate_hash_sha3_256 :: "x509_lib \<Rightarrow> bytes \<Rightarrow> cert_hash" where
  "certificate_hash_sha3_256 X data = certificate_hash_new (hash_with X Sha3_256 data) (Some X_SHA3_256)"

definition certificate_hash_try_from :: "x509_lib \<Rightarrow> x509_certificate \<Rightarrow> certificate_error + cert_hash" where
  "certificate_hash_try_from X cert = and_then (to_der X cert) (\<lambda>der. Ok (certificate_hash_sha3_256 X der))"

definition hash_function_name :: "cert_hash \<Rightarrow> string" where
  "hash_function_name h =
     (if ch_algorithm_oid h = X_SHA256 then ''SHA256''
      else if ch_algorithm_oid h = X_SHA512 then ''SHA512''
      else if ch_algorithm_oid h = X_SHA3_256 then ''SHA3-256'' else ''UNKNOWN'')"

definition verify_certificate :: "x509_lib \<Rightarrow> cert_hash \<Rightarrow> x509_certificate \<Rightarrow> certificate_error + bool" where
  "verify_certificate X h cert =
     and_then (to_der X cert) (\<lambda>der.
     if ch_algorithm_oid h = X_SHA256 then Ok (h = certificate_hash_new (hash_with X Sha2_256 der) (Some X_SHA256))
     else if ch_algorithm_oid h = X_SHA512 then Ok (h = certificate_hash_new (hash_with X Sha2_512 der) (Some X_SHA512))
     else if ch_algorithm_oid h = X_SHA3_256 then Ok (h = certificate_hash_new (hash_with X Sha3_256 der) (Some X_SHA3_256))
     else Err (XValidationFailed (''Unsupported hash algorithm OID: '' @ ch_algorithm_oid h)))"

definition certificate_hash_to_string :: "x509_lib \<Rightarrow> cert_hash \<Rightarrow> string" where
  "certificate_hash_to_string X h = hex_encode (xl_crypto X) (ch_hash h)"

definition certificate_hash_from_str :: "x509_lib \<Rightarrow> string \<Rightarrow> certificate_error + cert_hash" where
  "certificate_hash_from_str X hex =
     (case hex_decode (xl_crypto X) hex of
        Some bs \<Rightarrow> Ok (certificate_hash_new bs None)
      | None \<Rightarrow> Err (XValidationFailed ''Invalid hex string''))"

section \<open>The graph check\<close>

definition MAX_GRAPH_CERTIFICATES :: nat where "MAX_GRAPH_CERTIFICATES = 10"

definition check_hash_step :: "x509_lib \<Rightarrow> cert_hash set \<Rightarrow> x509_certificate \<Rightarrow> certificate_error + cert_hash set" where
  "check_hash_step X seen cert =
     and_then (certificate_hash_try_from X cert) (\<lambda>h.
       if h \<in> seen then Err XDuplicateIncluded else Ok (insert h seen))"

definition adjacent :: "x509_certificate \<Rightarrow> x509_certificate \<Rightarrow> bool" where
  "adjacent current cert \<longleftrightarrow>
     xt_issuer (xc_tbs current) = xt_subject (xc_tbs cert) \<or> xt_issuer (xc_tbs cert) = xt_subject (xc_tbs current)"

function connected_loop ::
    "x509_lib \<Rightarrow> x509_certificate list \<Rightarrow> bytes option set \<Rightarrow> bytes option set \<Rightarrow> x509_certificate list \<Rightarrow> bytes option set" where
  "connected_loop X certs connected visited [] = connected"
| "connected_loop X certs connected visited (current # to_visit) =
     (if cert_key X current \<in> visited then connected_loop X certs connected visited to_visit
      else let visited = insert (cert_key X current) visited;
               near = filter (adjacent current) certs
           in connected_loop X certs (cert_key X ` set near \<union> connected) visited
                (rev (filter (\<lambda>cert. cert_key X cert \<notin> visited) near) @ to_visit))"
  by pat_completeness auto
termination
proof (relation "inv_image (less_than <*lex*> less_than)
    (\<lambda>(X, certs, connected, visited, to_visit).
      (card (cert_key X ` (set certs \<union> set to_visit) - visited), length to_visit))", goal_cases)
  case (2 X certs connected visited current to_visit)
  have "cert_key X ` (set certs \<union> set to_visit) - visited \<subseteq> cert_key X ` (set certs \<union> set (current # to_visit)) - visited"
    by auto
  then have "card (cert_key X ` (set certs \<union> set to_visit) - visited)
      \<le> card (cert_key X ` (set certs \<union> set (current # to_visit)) - visited)"
    by (intro card_mono) auto
  then show ?case by auto
next
  case (3 X certs connected visited current to_visit v near)
  have "cert_key X ` (set certs \<union> set (rev (filter (\<lambda>cert. cert_key X cert \<notin> v) near) @ to_visit)) - v
      \<subset> cert_key X ` (set certs \<union> set (current # to_visit)) - visited"
    using 3 by auto
  then have "card (cert_key X ` (set certs \<union> set (rev (filter (\<lambda>cert. cert_key X cert \<notin> v) near) @ to_visit)) - v)
      < card (cert_key X ` (set certs \<union> set (current # to_visit)) - visited)"
    by (intro psubset_card_mono) auto
  then show ?case by simp
qed auto

definition find_connected_certificates :: "x509_lib \<Rightarrow> x509_certificate \<Rightarrow> x509_certificate list \<Rightarrow> bytes option set" where
  "find_connected_certificates X self certs = connected_loop X certs {} {} [self]"

text \<open>
  The depth-first search: \<open>todo\<close> is what is left of the loop over the certificates.  Fuel bounds the
  depth of the recursion; \<open>None\<close> is running out of it.
\<close>

fun dfs_cycle_detection ::
    "nat \<Rightarrow> x509_lib \<Rightarrow> x509_certificate list \<Rightarrow> x509_certificate \<Rightarrow> x509_certificate list \<Rightarrow>
      bytes option set \<times> bytes option set \<Rightarrow>
      (certificate_error + bytes option set \<times> bytes option set) option" where
  "dfs_cycle_detection 0 X certs self todo st = None"
| "dfs_cycle_detection (Suc n) X certs self [] (visited, rec_stack) =
     Some (Ok (visited, rec_stack - {cert_key X self}))"
| "dfs_cycle_detection (Suc n) X certs self (cert # todo) (visited, rec_stack) =
     (if xt_issuer (xc_tbs cert) = xt_subject (xc_tbs self) \<and> \<not> is_self_signed cert
      then if cert_key X cert \<in> rec_stack then Some (Err XCycleFound)
           else if cert_key X cert \<notin> visited
           then (case dfs_cycle_detection n X certs cert certs
                   (insert (cert_key X cert) visited, insert (cert_key X cert) rec_stack) of
                   None \<Rightarrow> None
                 | Some (Inl e) \<Rightarrow> Some (Err e)
                 | Some (Inr st) \<Rightarrow> dfs_cycle_detection (Suc n) X certs self todo st)
           else dfs_cycle_detection (Suc n) X certs self todo (visited, rec_stack)
      else dfs_cycle_detection (Suc n) X certs self todo (visited, rec_stack))"

definition dfs_from ::
    "x509_lib \<Rightarrow> x509_certificate list \<Rightarrow> x509_certificate \<Rightarrow> bytes option set \<times> bytes option set \<Rightarrow>
      (certificate_error + bytes option set \<times> bytes option set) option" where
  "dfs_from X certs self st =
     dfs_cycle_detection (length certs + 2) X certs self certs
       (insert (cert_key X self) (fst st), insert (cert_key X self) (snd st))"

fun dfs_rest ::
    "x509_lib \<Rightarrow> x509_certificate list \<Rightarrow> x509_certificate list \<Rightarrow> bytes option set \<times> bytes option set \<Rightarrow>
      (certificate_error + unit) option" where
  "dfs_rest X certs [] st = Some (Ok ())"
| "dfs_rest X certs (cert # todo) st =
     (if cert_key X cert \<notin> fst st
      then (case dfs_from X certs cert st of
              None \<Rightarrow> None
            | Some (Inl e) \<Rightarrow> Some (Err e)
            | Some (Inr st) \<Rightarrow> dfs_rest X certs todo st)
      else dfs_rest X certs todo st)"

definition detect_cycles :: "x509_lib \<Rightarrow> x509_certificate \<Rightarrow> x509_certificate list \<Rightarrow> (certificate_error + unit) option" where
  "detect_cycles X self certs =
     (case dfs_from X certs self ({}, {}) of
        None \<Rightarrow> None
      | Some (Inl e) \<Rightarrow> Some (Err e)
      | Some (Inr st) \<Rightarrow> dfs_rest X certs certs st)"

definition assert_can_construct_valid_graph ::
    "x509_lib \<Rightarrow> x509_certificate \<Rightarrow> x509_certificate list \<Rightarrow> (certificate_error + unit) option" where
  "assert_can_construct_valid_graph X self certs =
     (if length certs > MAX_GRAPH_CERTIFICATES then Some (Err (XInvalidGraphCount MAX_GRAPH_CERTIFICATES))
      else case try_fold (check_hash_step X) {} certs of
        Inl e \<Rightarrow> Some (Err e)
      | Inr _ \<Rightarrow>
          let connected = find_connected_certificates X self certs in
          if list_ex (\<lambda>cert. cert_key X cert \<notin> connected \<and> cert \<noteq> self) certs then Some (Err XOrphanFound)
          else detect_cycles X self certs)"

section \<open>PEM\<close>

fun split_lines :: "string \<Rightarrow> string \<Rightarrow> string list" where
  "split_lines line [] = (if line = [] then [] else [rev line])"
| "split_lines line (c # cs) =
     (if c = CHR 10 then rev line # split_lines [] cs else split_lines (c # line) cs)"

definition strip_cr :: "string \<Rightarrow> string" where
  "strip_cr line = (if line \<noteq> [] \<and> last line = CHR 13 then butlast line else line)"

definition text_lines :: "string \<Rightarrow> string list" where
  "text_lines text = map strip_cr (split_lines [] text)"

fun contains_text :: "string \<Rightarrow> string \<Rightarrow> bool" where
  "contains_text pat [] \<longleftrightarrow> pat = []"
| "contains_text pat (c # cs) \<longleftrightarrow> starts_with (c # cs) pat \<or> contains_text pat cs"

fun line_position :: "('a \<Rightarrow> bool) \<Rightarrow> 'a list \<Rightarrow> nat option" where
  "line_position P [] = None"
| "line_position P (x # xs) = (if P x then Some 0 else map_option Suc (line_position P xs))"

function chunks_of :: "nat \<Rightarrow> 'a list \<Rightarrow> 'a list list" where
  "chunks_of n xs = (if xs = [] \<or> n = 0 then [] else take n xs # chunks_of n (drop n xs))"
  by auto
termination by (relation "measure (length \<circ> snd)") auto

declare chunks_of.simps [simp del]

definition PEM_BEGIN :: string where "PEM_BEGIN = ''-----BEGIN CERTIFICATE-----''"
definition PEM_END :: string where "PEM_END = ''-----END CERTIFICATE-----''"

definition to_pem :: "x509_lib \<Rightarrow> x509_certificate \<Rightarrow> string option" where
  "to_pem X cert =
     map_option (\<lambda>der. concat (map (\<lambda>line. line @ [CHR 10]) (PEM_BEGIN # chunks_of 64 (base64_encode X der) @ [PEM_END])))
       (cert_encode X cert)"

definition certificate_from_str :: "x509_lib \<Rightarrow> string \<Rightarrow> certificate_error + x509_certificate" where
  "certificate_from_str X pem =
     (let lines = text_lines pem in
      and_then (ok_or XInvalidCertificate (line_position (contains_text ''BEGIN CERTIFICATE'') lines)) (\<lambda>start.
      and_then (ok_or XInvalidCertificate (line_position (contains_text ''END CERTIFICATE'') lines)) (\<lambda>stop.
      if start \<ge> stop then Err XInvalidCertificate
      else and_then (ok_or XInvalidCertificate (base64_decode X (concat (take (stop - (start + 1)) (drop (start + 1) lines)))))
        (certificate_try_from X))))"

section \<open>Hash sets\<close>

record certificate_hash_set =
  hs_certificates :: "x509_certificate list"

definition certificate_hash_set_new :: "x509_lib \<Rightarrow> x509_certificate list \<Rightarrow> certificate_hash_set" where
  "certificate_hash_set_new X certs = \<lparr>hs_certificates = btree_collect X certs\<rparr>"

definition certificate_hash_set_has :: "x509_lib \<Rightarrow> certificate_hash_set \<Rightarrow> x509_certificate \<Rightarrow> bool" where
  "certificate_hash_set_has X hs cert \<longleftrightarrow> cert_key X cert \<in> cert_key X ` set (hs_certificates hs)"

definition certificate_hash_set_insert :: "x509_lib \<Rightarrow> x509_certificate \<Rightarrow> certificate_hash_set \<Rightarrow> certificate_hash_set" where
  "certificate_hash_set_insert X cert hs = hs\<lparr>hs_certificates := btree_insert X cert (hs_certificates hs)\<rparr>"

definition certificate_hash_set_subjects :: "x509_lib \<Rightarrow> certificate_hash_set \<Rightarrow> rust_string list" where
  "certificate_hash_set_subjects X hs = map (to_subject X) (hs_certificates hs)"

section \<open>Bundles\<close>

record certificate_bundle =
  cb_certificate :: x509_certificate
  cb_options :: certificate_options
  cb_root :: "x509_certificate list"
  cb_intermediate :: "x509_certificate list"

definition certificate_options_default :: certificate_options where
  "certificate_options_default = \<lparr>co_moment = None, co_is_trusted_root = None\<rparr>"

definition bundle_new ::
    "x509_lib \<Rightarrow> string \<Rightarrow> certificate_options option \<Rightarrow> x509_certificate list option \<Rightarrow> x509_certificate list option \<Rightarrow>
      certificate_error + certificate_bundle" where
  "bundle_new X pem opts root intermediate =
     and_then (certificate_from_str X pem) (\<lambda>cert.
       Ok \<lparr>cb_certificate = cert, cb_options = (case opts of Some given \<Rightarrow> given | None \<Rightarrow> certificate_options_default),
          cb_root = (case root of Some r \<Rightarrow> r | None \<Rightarrow> []), cb_intermediate = (case intermediate of Some i \<Rightarrow> i | None \<Rightarrow> [])\<rparr>)"

definition bundle_certificates :: "certificate_bundle \<Rightarrow> x509_certificate list" where
  "bundle_certificates b = cb_certificate b # cb_root b @ cb_intermediate b"

definition bundle_verify_chain :: "x509_lib \<Rightarrow> certificate_bundle \<Rightarrow> x509_certificate list option" where
  "bundle_verify_chain X b = verify_chain X (cb_certificate b) (bundle_certificates b)"

definition to_root_certificate :: "x509_lib \<Rightarrow> certificate_bundle \<Rightarrow> x509_certificate option option" where
  "to_root_certificate X b =
     map_option (\<lambda>chain.
       if length chain > 1 then Some (last chain)
       else if is_self_signed (cb_certificate b) then Some (cb_certificate b) else None) (bundle_verify_chain X b)"

definition to_issuer_certificate :: "x509_lib \<Rightarrow> certificate_bundle \<Rightarrow> x509_certificate option option" where
  "to_issuer_certificate X b =
     map_option (\<lambda>chain.
       if length chain > 1 then Some (chain ! 1)
       else if is_self_signed (cb_certificate b) then Some (cb_certificate b) else None) (bundle_verify_chain X b)"

definition to_issuer_public_key :: "x509_lib \<Rightarrow> certificate_bundle \<Rightarrow> subject_public_key_info option option" where
  "to_issuer_public_key X b =
     map_option (\<lambda>issuer. Option.bind issuer (\<lambda>cert. ok (to_subject_public_key X cert))) (to_issuer_certificate X b)"

definition to_chain_length :: "x509_lib \<Rightarrow> certificate_bundle \<Rightarrow> nat option" where
  "to_chain_length X b = map_option length (bundle_verify_chain X b)"

definition bundle_is_trusted :: "certificate_bundle \<Rightarrow> bool" where
  "bundle_is_trusted b = (case co_is_trusted_root (cb_options b) of Some t \<Rightarrow> t | None \<Rightarrow> False)"

definition as_trusted :: "certificate_bundle \<Rightarrow> certificate_bundle" where
  "as_trusted b = b\<lparr>cb_options := (cb_options b)\<lparr>co_is_trusted_root := Some True\<rparr>\<rparr>"

definition as_untrusted :: "certificate_bundle \<Rightarrow> certificate_bundle" where
  "as_untrusted b = b\<lparr>cb_options := (cb_options b)\<lparr>co_is_trusted_root := Some False\<rparr>\<rparr>"

definition add_root :: "x509_lib \<Rightarrow> x509_certificate \<Rightarrow> certificate_bundle \<Rightarrow> certificate_bundle" where
  "add_root X cert b = b\<lparr>cb_root := btree_insert X cert (cb_root b)\<rparr>"

definition add_intermediate :: "x509_lib \<Rightarrow> x509_certificate \<Rightarrow> certificate_bundle \<Rightarrow> certificate_bundle" where
  "add_intermediate X cert b = b\<lparr>cb_intermediate := btree_insert X cert (cb_intermediate b)\<rparr>"

definition with_chain :: "x509_lib \<Rightarrow> x509_certificate list \<Rightarrow> certificate_bundle \<Rightarrow> certificate_bundle" where
  "with_chain X chain b = fold (add_intermediate X) chain b"

definition bundle_to_der :: "x509_lib \<Rightarrow> certificate_bundle \<Rightarrow> (certificate_error + bytes) option" where
  "bundle_to_der X b =
     (case to_der X (cb_certificate b) of
        Inl e \<Rightarrow> Some (Err e)
      | Inr first \<Rightarrow>
          map_option (\<lambda>chain. and_then (traverse (to_der X) (tl chain)) (\<lambda>rest. Ok (first @ concat rest)))
            (bundle_verify_chain X b))"

definition bundle_of_certificates :: "x509_lib \<Rightarrow> x509_certificate list \<Rightarrow> certificate_error + certificate_bundle" where
  "bundle_of_certificates X certs =
     (case certs of
        [] \<Rightarrow> Err (XValidationFailed ''Cannot create options from empty certificate vector'')
      | cert # rest \<Rightarrow>
          Ok (fold (\<lambda>c. if is_self_signed c then add_root X c else add_intermediate X c) rest
            \<lparr>cb_certificate = cert, cb_options = certificate_options_default, cb_root = [], cb_intermediate = []\<rparr>))"

text \<open>
  Certificates from concatenated DER: each step takes the length that the next header declares.  The
  sums have 64 bits and wrap; \<open>None\<close> is the panic of a slice that would end before it starts.  A step
  of no octets stops, as no certificate is empty.
\<close>

function split_certificates :: "x509_lib \<Rightarrow> bytes \<Rightarrow> nat \<Rightarrow> x509_certificate list option" where
  "split_certificates X data offset =
     (if offset \<ge> length data then Some []
      else case parse_der_length (drop offset data) of
        None \<Rightarrow> Some []
      | Some (cert_len, header_len) \<Rightarrow>
          let total_len = (header_len + cert_len) mod 2 ^ 64; stop = (offset + total_len) mod 2 ^ 64 in
          if stop > length data then Some []
          else if stop < offset then None
          else if stop = offset then Some []
          else (case certificate_try_from X (take (stop - offset) (drop offset data)) of
                  Inl _ \<Rightarrow> Some []
                | Inr cert \<Rightarrow> map_option ((#) cert) (split_certificates X data stop)))"
  by auto
termination
proof (relation "measure (\<lambda>p. length (fst (snd p)) - snd (snd p))", goal_cases)
  case (2 X data offset header cert_len header_len total_len stop cert)
  from 2(1,6-8) have "length data - stop < length data - offset" by (meson diff_less_mono2 linorder_neqE_nat not_le)
  then show ?case by simp
qed simp

declare split_certificates.simps [simp del]

definition bundle_try_from :: "x509_lib \<Rightarrow> bytes \<Rightarrow> (certificate_error + certificate_bundle) option" where
  "bundle_try_from X data = map_option (bundle_of_certificates X) (split_certificates X data 0)"

end
