(* ===== verification/X509Builder.thy ===== *)
theory X509Builder
  imports X509Chain
begin

text \<open>
  \<open>x509/src/builder.rs\<close>: building extensions one by one or in a batch, and building and signing
  certificates.  The octets of standard extensions are written with one-octet lengths, as in the
  code.  \<open>None\<close> is the panic of \<open>expect\<close> on a library that refuses an identifier.
\<close>

section \<open>Text addresses\<close>

text \<open>\<open>str::parse\<close> of IPv4 and IPv6 addresses in the standard library, on ASCII codes.\<close>

fun split_on :: "'a \<Rightarrow> 'a list \<Rightarrow> 'a list \<Rightarrow> 'a list list" where
  "split_on c acc [] = [rev acc]"
| "split_on c acc (x # xs) = (if x = c then rev acc # split_on c [] xs else split_on c (x # acc) xs)"

definition decimal_digit :: "byte \<Rightarrow> nat option" where
  "decimal_digit b = (if 48 \<le> b \<and> b \<le> 57 then Some (unat b - 48) else None)"

definition hexadecimal_digit :: "byte \<Rightarrow> nat option" where
  "hexadecimal_digit b =
     (if 48 \<le> b \<and> b \<le> 57 then Some (unat b - 48)
      else if 65 \<le> b \<and> b \<le> 70 then Some (unat b - 55)
      else if 97 \<le> b \<and> b \<le> 102 then Some (unat b - 87) else None)"

fun digits_value :: "(byte \<Rightarrow> nat option) \<Rightarrow> nat \<Rightarrow> nat \<Rightarrow> bytes \<Rightarrow> nat option" where
  "digits_value digit base acc [] = Some acc"
| "digits_value digit base acc (b # bs) = Option.bind (digit b) (\<lambda>d. digits_value digit base (acc * base + d) bs)"

definition parse_ipv4_octet :: "bytes \<Rightarrow> byte option" where
  "parse_ipv4_octet s =
     (if s = [] \<or> length s > 3 \<or> (length s > 1 \<and> hd s = 48) then None
      else case digits_value decimal_digit 10 0 s of
        Some n \<Rightarrow> if n < 256 then Some (word_of_nat n) else None
      | None \<Rightarrow> None)"

definition parse_ipv4 :: "rust_string \<Rightarrow> bytes option" where
  "parse_ipv4 s =
     (case map parse_ipv4_octet (split_on 46 [] s) of
        [Some a, Some b, Some c, Some d] \<Rightarrow> Some [a, b, c, d]
      | _ \<Rightarrow> None)"

definition parse_ipv6_group :: "bytes \<Rightarrow> bytes option" where
  "parse_ipv6_group s =
     (if s = [] \<or> length s > 4 then None
      else map_option (\<lambda>n. [word_of_nat (n div 256), word_of_nat (n mod 256)]) (digits_value hexadecimal_digit 16 0 s))"

text \<open>Groups between colons; the last one may be an IPv4 address.\<close>

fun parse_ipv6_groups :: "bytes list \<Rightarrow> bytes option" where
  "parse_ipv6_groups [] = Some []"
| "parse_ipv6_groups [s] = (case parse_ipv4 s of Some v4 \<Rightarrow> Some v4 | None \<Rightarrow> parse_ipv6_group s)"
| "parse_ipv6_groups (s # t # ss) =
     Option.bind (parse_ipv6_group s) (\<lambda>g. map_option ((@) g) (parse_ipv6_groups (t # ss)))"

definition hex_groups :: "bytes list \<Rightarrow> bytes option" where
  "hex_groups ss = (if list_all (\<lambda>s. parse_ipv6_group s \<noteq> None) ss then Some (concat (map (the \<circ> parse_ipv6_group) ss)) else None)"

fun find_double_colon :: "bytes \<Rightarrow> bytes \<Rightarrow> (bytes \<times> bytes) option" where
  "find_double_colon acc (a # b # bs) =
     (if a = 58 \<and> b = 58 then Some (rev acc, bs) else find_double_colon (a # acc) (b # bs))"
| "find_double_colon acc _ = None"

definition colon_groups :: "bytes \<Rightarrow> bytes list" where
  "colon_groups s = (if s = [] then [] else split_on 58 [] s)"

definition parse_ipv6 :: "rust_string \<Rightarrow> bytes option" where
  "parse_ipv6 s =
     (case find_double_colon [] s of
        None \<Rightarrow> Option.bind (parse_ipv6_groups (colon_groups s)) (\<lambda>bs. if length bs = 16 then Some bs else None)
      | Some (front, back) \<Rightarrow>
          Option.bind (hex_groups (colon_groups front)) (\<lambda>head_bytes.
          Option.bind (parse_ipv6_groups (colon_groups back)) (\<lambda>tail_bytes.
            if length head_bytes + length tail_bytes \<le> 14
            then Some (head_bytes @ replicate (16 - length head_bytes - length tail_bytes) 0 @ tail_bytes) else None)))"

section \<open>Extensions\<close>

record extension_builder =
  eb_oid :: "string option"
  eb_critical :: bool
  eb_value :: "bytes option"
  eb_extensions :: "x509_extension list"
  eb_batch_mode :: bool

definition extension_builder_new :: extension_builder where
  "extension_builder_new = \<lparr>eb_oid = None, eb_critical = False, eb_value = None, eb_extensions = [], eb_batch_mode = False\<rparr>"

definition with_oid :: "string \<Rightarrow> extension_builder \<Rightarrow> extension_builder" where
  "with_oid oid b = b\<lparr>eb_oid := Some oid\<rparr>"

definition as_critical :: "extension_builder \<Rightarrow> extension_builder" where
  "as_critical b = b\<lparr>eb_critical := True\<rparr>"

definition as_non_critical :: "extension_builder \<Rightarrow> extension_builder" where
  "as_non_critical b = b\<lparr>eb_critical := False\<rparr>"

definition with_critical :: "bool \<Rightarrow> extension_builder \<Rightarrow> extension_builder" where
  "with_critical critical b = b\<lparr>eb_critical := critical\<rparr>"

definition set_value :: "bytes \<Rightarrow> extension_builder \<Rightarrow> extension_builder" where
  "set_value value b = b\<lparr>eb_value := Some value\<rparr>"

definition with_value :: "bytes \<Rightarrow> extension_builder \<Rightarrow> extension_builder" where
  "with_value value b = set_value value b"

definition short_element :: "byte \<Rightarrow> bytes \<Rightarrow> bytes" where
  "short_element t content = t # word_of_nat (length content) # content"

definition general_name :: "rust_string \<Rightarrow> bytes" where
  "general_name entry =
     (if 64 \<in> set entry then short_element 0x81 entry
      else if parse_ipv4 entry \<noteq> None \<or> parse_ipv6 entry \<noteq> None
      then (case parse_ipv4 entry of
              Some ip \<Rightarrow> short_element 0x87 ip
            | None \<Rightarrow> (case parse_ipv6 entry of
                Some ip \<Rightarrow> short_element 0x87 ip
              | None \<Rightarrow> short_element 0x87 entry))
      else if starts_with entry (str ''http://'') \<or> starts_with entry (str ''https://'')
      then short_element 0x86 entry
      else short_element 0x82 entry)"

definition with_subject_alt_name_value :: "rust_string list \<Rightarrow> extension_builder \<Rightarrow> extension_builder" where
  "with_subject_alt_name_value entries b = set_value (short_element 0x30 (concat (map general_name entries))) b"

definition with_basic_constraints_value :: "bool \<Rightarrow> byte option \<Rightarrow> extension_builder \<Rightarrow> extension_builder" where
  "with_basic_constraints_value ca path_length b =
     set_value
       (if ca
        then (case path_length of
                Some path_len \<Rightarrow> short_element 0x30 [0x01, 0x01, 0xFF, 0x02, 0x01, path_len]
              | None \<Rightarrow> short_element 0x30 [0x01, 0x01, 0xFF])
        else [0x30, 0x00]) b"

definition with_key_usage_value :: "16 word \<Rightarrow> extension_builder \<Rightarrow> extension_builder" where
  "with_key_usage_value key_usage_bits b = set_value [0x03, 0x02, 0x00, ucast key_usage_bits] b"

definition eku_content :: "x509_lib \<Rightarrow> string list \<Rightarrow> bytes" where
  "eku_content X usages =
     concat (List.map_filter (\<lambda>s.
       Option.bind (oid_new X s) (\<lambda>oid. ok (encode_oid (xl_der X) (xl_oids X) oid))) usages)"

definition with_extended_key_usage_value :: "x509_lib \<Rightarrow> string list \<Rightarrow> extension_builder \<Rightarrow> extension_builder" where
  "with_extended_key_usage_value X usages b = set_value (short_element 0x30 (eku_content X usages)) b"

definition with_subject_key_identifier_value :: "bytes \<Rightarrow> extension_builder \<Rightarrow> extension_builder" where
  "with_subject_key_identifier_value key_id b = set_value (short_element 0x04 key_id) b"

definition with_authority_key_identifier_value :: "bytes \<Rightarrow> extension_builder \<Rightarrow> extension_builder" where
  "with_authority_key_identifier_value key_id b = set_value (short_element 0x30 (short_element 0x80 key_id)) b"

definition extension_build :: "x509_lib \<Rightarrow> extension_builder \<Rightarrow> certificate_error + x509_extension" where
  "extension_build X b =
     and_then (ok_or (XMissingField ''oid'') (eb_oid b)) (\<lambda>oid.
     and_then (ok_or (XMissingField ''value'') (eb_value b)) (\<lambda>value.
       extension_new X oid value (eb_critical b)))"

definition extension_batch :: extension_builder where
  "extension_batch = extension_builder_new\<lparr>eb_batch_mode := True\<rparr>"

definition build_all :: "extension_builder \<Rightarrow> certificate_error + x509_extension list" where
  "build_all b = (if \<not> eb_batch_mode b then Err (XMissingField ''batch mode not enabled'') else Ok (eb_extensions b))"

definition for_basic_constraints :: "x509_lib \<Rightarrow> bool \<Rightarrow> byte option \<Rightarrow> x509_extension option" where
  "for_basic_constraints X ca path_length =
     ok (extension_build X (with_basic_constraints_value ca path_length (with_critical True
       (with_oid BASIC_CONSTRAINTS extension_builder_new))))"

definition for_key_usage :: "x509_lib \<Rightarrow> 16 word \<Rightarrow> x509_extension option" where
  "for_key_usage X bits =
     ok (extension_build X (as_critical (with_key_usage_value bits (with_oid KEY_USAGE extension_builder_new))))"

definition for_extended_key_usage :: "x509_lib \<Rightarrow> string list \<Rightarrow> x509_extension option" where
  "for_extended_key_usage X usages =
     ok (extension_build X (as_non_critical (with_extended_key_usage_value X usages
       (with_oid EXTENDED_KEY_USAGE extension_builder_new))))"

definition for_subject_alt_name :: "x509_lib \<Rightarrow> rust_string list \<Rightarrow> x509_extension option" where
  "for_subject_alt_name X entries =
     ok (extension_build X (as_non_critical (with_subject_alt_name_value entries
       (with_oid SUBJECT_ALT_NAME extension_builder_new))))"

definition for_subject_key_identifier :: "x509_lib \<Rightarrow> bytes \<Rightarrow> x509_extension option" where
  "for_subject_key_identifier X key_id =
     ok (extension_build X (as_non_critical (with_subject_key_identifier_value key_id
       (with_oid SUBJECT_KEY_IDENTIFIER extension_builder_new))))"

definition for_authority_key_identifier :: "x509_lib \<Rightarrow> bytes \<Rightarrow> x509_extension option" where
  "for_authority_key_identifier X key_id =
     ok (extension_build X (as_non_critical (with_authority_key_identifier_value key_id
       (with_oid AUTHORITY_KEY_IDENTIFIER extension_builder_new))))"

text \<open>The \<open>include_*\<close> methods, generated by one macro from the constructors above.\<close>

definition include_extension :: "x509_extension option \<Rightarrow> extension_builder \<Rightarrow> extension_builder option" where
  "include_extension extension b =
     (if eb_batch_mode b then map_option (\<lambda>ext. b\<lparr>eb_extensions := eb_extensions b @ [ext]\<rparr>) extension else Some b)"

definition include_basic_constraints :: "x509_lib \<Rightarrow> bool \<Rightarrow> byte option \<Rightarrow> extension_builder \<Rightarrow> extension_builder option" where
  "include_basic_constraints X ca path_length = include_extension (for_basic_constraints X ca path_length)"

definition include_key_usage :: "x509_lib \<Rightarrow> 16 word \<Rightarrow> extension_builder \<Rightarrow> extension_builder option" where
  "include_key_usage X bits = include_extension (for_key_usage X bits)"

definition include_extended_key_usage :: "x509_lib \<Rightarrow> string list \<Rightarrow> extension_builder \<Rightarrow> extension_builder option" where
  "include_extended_key_usage X usages = include_extension (for_extended_key_usage X usages)"

definition include_subject_alt_name :: "x509_lib \<Rightarrow> rust_string list \<Rightarrow> extension_builder \<Rightarrow> extension_builder option" where
  "include_subject_alt_name X entries = include_extension (for_subject_alt_name X entries)"

definition include_subject_key_identifier :: "x509_lib \<Rightarrow> bytes \<Rightarrow> extension_builder \<Rightarrow> extension_builder option" where
  "include_subject_key_identifier X key_id = include_extension (for_subject_key_identifier X key_id)"

definition include_authority_key_identifier :: "x509_lib \<Rightarrow> bytes \<Rightarrow> extension_builder \<Rightarrow> extension_builder option" where
  "include_authority_key_identifier X key_id = include_extension (for_authority_key_identifier X key_id)"

section \<open>Certificates\<close>

record certificate_builder =
  cbd_public_key :: "subject_public_key_info option"
  cbd_subject_dn :: "x509_name option"
  cbd_issuer_dn :: "x509_name option"
  cbd_valid_from :: "int option"
  cbd_valid_to :: "int option"
  cbd_serial :: "bytes option"
  cbd_is_ca :: "bool option"
  cbd_include_common :: bool
  cbd_extensions :: "x509_extension list"
  cbd_signature_hash :: hash_algorithm

definition certificate_builder_new :: certificate_builder where
  "certificate_builder_new =
     \<lparr>cbd_public_key = None, cbd_subject_dn = None, cbd_issuer_dn = None, cbd_valid_from = None, cbd_valid_to = None,
      cbd_serial = None, cbd_is_ca = None, cbd_include_common = True, cbd_extensions = [], cbd_signature_hash = Sha3_256\<rparr>"

definition with_signature_hash :: "hash_algorithm \<Rightarrow> certificate_builder \<Rightarrow> certificate_builder" where
  "with_signature_hash hash b = b\<lparr>cbd_signature_hash := hash\<rparr>"

definition with_subject_public_key :: "subject_public_key_info \<Rightarrow> certificate_builder \<Rightarrow> certificate_builder" where
  "with_subject_public_key key b = b\<lparr>cbd_public_key := Some key\<rparr>"

definition with_subject_dn :: "x509_name \<Rightarrow> certificate_builder \<Rightarrow> certificate_builder" where
  "with_subject_dn dn b = b\<lparr>cbd_subject_dn := Some dn\<rparr>"

definition with_issuer_dn :: "x509_name \<Rightarrow> certificate_builder \<Rightarrow> certificate_builder" where
  "with_issuer_dn dn b = b\<lparr>cbd_issuer_dn := Some dn\<rparr>"

definition with_validity :: "int \<Rightarrow> int \<Rightarrow> certificate_builder \<Rightarrow> certificate_builder" where
  "with_validity from until b = b\<lparr>cbd_valid_from := Some from, cbd_valid_to := Some until\<rparr>"

definition with_serial_number :: "bytes \<Rightarrow> certificate_builder \<Rightarrow> certificate_builder" where
  "with_serial_number serial b = b\<lparr>cbd_serial := Some serial\<rparr>"

definition with_extension :: "x509_extension \<Rightarrow> certificate_builder \<Rightarrow> certificate_builder" where
  "with_extension extension b = b\<lparr>cbd_extensions := cbd_extensions b @ [extension]\<rparr>"

definition with_extensions :: "x509_extension list \<Rightarrow> certificate_builder \<Rightarrow> certificate_builder" where
  "with_extensions extensions b = b\<lparr>cbd_extensions := cbd_extensions b @ extensions\<rparr>"

definition push_extension :: "x509_extension option \<Rightarrow> certificate_builder \<Rightarrow> certificate_builder option" where
  "push_extension extension b = map_option (\<lambda>ext. with_extension ext b) extension"

definition with_basic_constraints :: "x509_lib \<Rightarrow> bool \<Rightarrow> byte option \<Rightarrow> certificate_builder \<Rightarrow> certificate_builder option" where
  "with_basic_constraints X ca path_length = push_extension (for_basic_constraints X ca path_length)"

definition with_key_usage :: "x509_lib \<Rightarrow> 16 word \<Rightarrow> certificate_builder \<Rightarrow> certificate_builder option" where
  "with_key_usage X bits = push_extension (for_key_usage X bits)"

definition with_extended_key_usage :: "x509_lib \<Rightarrow> string list \<Rightarrow> certificate_builder \<Rightarrow> certificate_builder option" where
  "with_extended_key_usage X usages = push_extension (for_extended_key_usage X usages)"

definition with_subject_alt_name :: "x509_lib \<Rightarrow> rust_string list \<Rightarrow> certificate_builder \<Rightarrow> certificate_builder option" where
  "with_subject_alt_name X entries = push_extension (for_subject_alt_name X entries)"

definition with_custom_extension :: "x509_lib \<Rightarrow> string \<Rightarrow> bytes \<Rightarrow> bool \<Rightarrow> certificate_builder \<Rightarrow> certificate_builder" where
  "with_custom_extension X oid value critical b =
     (case extension_new X oid value critical of Inr ext \<Rightarrow> with_extension ext b | Inl _ \<Rightarrow> b)"

definition NANOS_PER_DAY :: int where "NANOS_PER_DAY = 86400000000000"

text \<open>The panics of chrono on spans beyond its range are not represented.\<close>

definition with_validity_days :: "int \<Rightarrow> 64 word \<Rightarrow> certificate_builder \<Rightarrow> certificate_builder" where
  "with_validity_days now days b = with_validity now (now + sint days * NANOS_PER_DAY) b"

definition without_common_extensions :: "certificate_builder \<Rightarrow> certificate_builder" where
  "without_common_extensions b = b\<lparr>cbd_include_common := False\<rparr>"

definition with_common_extensions :: "certificate_builder \<Rightarrow> certificate_builder" where
  "with_common_extensions b = b\<lparr>cbd_include_common := True\<rparr>"

definition with_is_ca :: "bool \<Rightarrow> certificate_builder \<Rightarrow> certificate_builder" where
  "with_is_ca ca b = b\<lparr>cbd_is_ca := Some ca\<rparr>"

definition as_ca :: "certificate_builder \<Rightarrow> certificate_builder" where
  "as_ca b = with_is_ca True b"

definition as_self_signed :: "certificate_builder \<Rightarrow> certificate_builder" where
  "as_self_signed b = (case cbd_subject_dn b of Some subject \<Rightarrow> b\<lparr>cbd_issuer_dn := Some subject\<rparr> | None \<Rightarrow> b)"

definition for_ca :: "x509_lib \<Rightarrow> int \<Rightarrow> certificate_builder option" where
  "for_ca X now =
     map_option (with_validity_days now (365 * 10)) (with_key_usage X 0x06 (with_is_ca True certificate_builder_new))"

definition for_end_entity :: "x509_lib \<Rightarrow> int \<Rightarrow> certificate_builder option" where
  "for_end_entity X now =
     map_option (with_validity_days now 365) (with_key_usage X 0xC0 (with_is_ca False certificate_builder_new))"

definition for_server :: "x509_lib \<Rightarrow> int \<Rightarrow> certificate_builder option" where
  "for_server X now = Option.bind (for_end_entity X now) (with_extended_key_usage X [SERVER_AUTH])"

definition for_client :: "x509_lib \<Rightarrow> int \<Rightarrow> certificate_builder option" where
  "for_client X now = Option.bind (for_end_entity X now) (with_extended_key_usage X [CLIENT_AUTH])"

definition der_time_from_datetime :: "x509_lib \<Rightarrow> int \<Rightarrow> certificate_error + nat" where
  "der_time_from_datetime X value =
     (let seconds = value div 1000000000 in
      if seconds < 0 then Err XInvalidCertificate
      else ok_or XAsn1ParseError (generalized_time X (nat seconds)))"

definition common_extensions :: "x509_lib \<Rightarrow> certificate_builder \<Rightarrow> x509_extension option list" where
  "common_extensions X b =
     (case cbd_is_ca b of Some ca \<Rightarrow> [for_basic_constraints X ca None] | None \<Rightarrow> []) @
     (case cbd_is_ca b of Some ca \<Rightarrow> [for_key_usage X (if ca then 0x06 else 0xC0)] | None \<Rightarrow> []) @
     (case cbd_public_key b of
        Some key \<Rightarrow> [for_subject_key_identifier X (generate_key_identifier X (bit_bytes (spki_key key)))] | None \<Rightarrow> []) @
     (case (cbd_issuer_dn b, cbd_subject_dn b, cbd_public_key b) of
        (Some issuer, Some subject, Some key) \<Rightarrow>
          if issuer = subject
          then [for_authority_key_identifier X (generate_key_identifier X (bit_bytes (spki_key key)))] else []
      | _ \<Rightarrow> [])"

definition create_common_extensions :: "x509_lib \<Rightarrow> certificate_builder \<Rightarrow> x509_extension list option" where
  "create_common_extensions X b =
     (let common = common_extensions X b in
      if None \<in> set common then None
      else Some (filter (\<lambda>ext. extn_id ext \<notin> extn_id ` set (cbd_extensions b)) (map the common)))"

definition all_extensions :: "x509_lib \<Rightarrow> certificate_builder \<Rightarrow> x509_extension list option" where
  "all_extensions X b =
     (if cbd_include_common b then map_option (\<lambda>common. cbd_extensions b @ common) (create_common_extensions X b)
      else Some (cbd_extensions b))"

definition x509_build_tbs :: "x509_lib \<Rightarrow> certificate_builder \<Rightarrow> (certificate_error + x509_tbs) option" where
  "x509_build_tbs X b =
     (let fields =
        and_then (ok_or (XMissingField ''subject_public_key'') (cbd_public_key b)) (\<lambda>key.
        and_then (spki_of_certificate X key) (\<lambda>key.
        and_then (ok_or (XMissingField ''subject_dn'') (cbd_subject_dn b)) (\<lambda>subject.
        and_then (ok_or (XMissingField ''issuer_dn'') (cbd_issuer_dn b)) (\<lambda>issuer.
        and_then (ok_or (XMissingField ''valid_from'') (cbd_valid_from b)) (\<lambda>from.
        and_then (ok_or (XMissingField ''valid_to'') (cbd_valid_to b)) (\<lambda>until.
        and_then (ok_or (XMissingField ''serial'') (cbd_serial b)) (\<lambda>serial.
          Ok (key, subject, issuer, from, until, serial))))))))
      in case fields of
           Inl e \<Rightarrow> Some (Err e)
         | Inr (key, subject, issuer, from, until, serial) \<Rightarrow>
             map_option (\<lambda>extensions.
               and_then (ok_or XInvalidCertificate (oid_new X SHA256_WITH_RSA)) (\<lambda>oid.
               and_then (der_time_from_datetime X from) (\<lambda>not_before.
               and_then (der_time_from_datetime X until) (\<lambda>not_after.
                 Ok \<lparr>xt_version = X509V3, xt_serial = serial,
                     xt_signature_algorithm = \<lparr>ai_oid = oid, ai_parameters = None\<rparr>, xt_issuer = issuer,
                     xt_not_before = not_before, xt_not_after = not_after, xt_subject = subject, xt_public_key = key,
                     xt_issuer_unique_id = None, xt_subject_unique_id = None,
                     xt_extensions = (if extensions = [] then None else Some extensions)\<rparr>)))) (all_extensions X b))"

datatype key_algorithm = AlgSecp256k1 | AlgEd25519 | AlgSecp256r1

record raw_signer =
  sg_algorithm :: key_algorithm
  sg_sign :: "bytes \<Rightarrow> bytes option"

definition signature_algorithm_oid :: "key_algorithm \<Rightarrow> hash_algorithm \<Rightarrow> certificate_error + string" where
  "signature_algorithm_oid algorithm hash =
     (case algorithm of
        AlgEd25519 \<Rightarrow> Ok X_ED25519
      | _ \<Rightarrow> (case hash of
          Sha3_256 \<Rightarrow> Ok ECDSA_WITH_SHA3_256
        | Sha2_256 \<Rightarrow> Ok ECDSA_WITH_SHA256
        | Sha2_512 \<Rightarrow> Err (XUnsupportedSignatureHash hash)))"

definition sign_certificate ::
    "x509_lib \<Rightarrow> raw_signer \<Rightarrow> hash_algorithm \<Rightarrow> x509_oid \<Rightarrow> x509_tbs \<Rightarrow> certificate_error + x509_certificate" where
  "sign_certificate X signer hash oid tbs =
     (let tbs = tbs\<lparr>xt_signature_algorithm := \<lparr>ai_oid = oid, ai_parameters = None\<rparr>\<rparr> in
      and_then (ok_or XAsn1ParseError (tbs_encode X tbs)) (\<lambda>tbs_der.
      let to_sign = (if sg_algorithm signer = AlgEd25519 then tbs_der else hash_with X hash tbs_der) in
      and_then (ok_or XSignatureVerificationFailed (sg_sign signer to_sign)) (\<lambda>signature.
      and_then (if sg_algorithm signer = AlgEd25519 then Ok signature else raw_to_der_signature signature) (\<lambda>signature.
        Ok \<lparr>xc_tbs = tbs, xc_signature_algorithm = \<lparr>ai_oid = oid, ai_parameters = None\<rparr>,
           xc_signature = bit_string_from_bytes signature\<rparr>))))"

definition build_certificate :: "x509_lib \<Rightarrow> raw_signer \<Rightarrow> certificate_builder \<Rightarrow> (certificate_error + x509_certificate) option" where
  "build_certificate X signer b =
     (case signature_algorithm_oid (sg_algorithm signer) (cbd_signature_hash b) of
        Inl e \<Rightarrow> Some (Err e)
      | Inr algorithm \<Rightarrow>
          map_option (\<lambda>r.
            and_then r (\<lambda>tbs.
            and_then (ok_or XInvalidCertificate (oid_new X algorithm)) (\<lambda>oid.
              sign_certificate X signer (cbd_signature_hash b) oid tbs))) (x509_build_tbs X b))"

end
