(* ===== verification/X509Graph.thy ===== *)
theory X509Graph
  imports X509Chain
begin

text \<open>
  What the graph check and chain building decide, as statements about relations between
  certificates: the names that connect two certificates, and the issuing of one by another.
\<close>

definition graph_nodes :: "x509_certificate \<Rightarrow> x509_certificate list \<Rightarrow> x509_certificate set" where
  "graph_nodes self certs = insert self (set certs)"

definition issues :: "x509_certificate \<Rightarrow> x509_certificate list \<Rightarrow> (x509_certificate \<times> x509_certificate) set" where
  "issues self certs =
     {(x, y). x \<in> graph_nodes self certs \<and> y \<in> set certs \<and> xt_issuer (xc_tbs y) = xt_subject (xc_tbs x) \<and> \<not> is_self_signed y}"

definition connects :: "x509_certificate list \<Rightarrow> (x509_certificate \<times> x509_certificate) set" where
  "connects certs = {(x, y). y \<in> set certs \<and> adjacent x y}"

definition keyed :: "x509_lib \<Rightarrow> x509_certificate \<Rightarrow> x509_certificate list \<Rightarrow> bool" where
  "keyed X self certs \<longleftrightarrow> inj_on (cert_key X) (graph_nodes self certs)"

lemma certs_nodes: "y \<in> set certs \<Longrightarrow> y \<in> graph_nodes self certs"
  by (simp add: graph_nodes_def)

lemma issues_nodes: "(x, y) \<in> issues self certs \<Longrightarrow> x \<in> graph_nodes self certs \<and> y \<in> graph_nodes self certs"
  by (auto simp: issues_def graph_nodes_def)

lemma key_eq:
  "keyed X self certs \<Longrightarrow> x \<in> graph_nodes self certs \<Longrightarrow> y \<in> graph_nodes self certs \<Longrightarrow> cert_key X x = cert_key X y \<longleftrightarrow> x = y"
  by (auto simp: keyed_def dest: inj_onD)

section \<open>Search for cycles\<close>

text \<open>A set of finished certificates is closed under issuing and on no cycle.\<close>

definition finished :: "x509_lib \<Rightarrow> x509_certificate \<Rightarrow> x509_certificate list \<Rightarrow> bytes option set \<Rightarrow> bool" where
  "finished X self certs F \<longleftrightarrow>
     (\<forall>x \<in> graph_nodes self certs. cert_key X x \<in> F \<longrightarrow>
        (x, x) \<notin> (issues self certs)\<^sup>+ \<and> (\<forall>y. (x, y) \<in> issues self certs \<longrightarrow> cert_key X y \<in> F))"

lemma finished_reach:
  "(x, y) \<in> (issues self certs)\<^sup>* \<Longrightarrow> finished X self certs F \<Longrightarrow> x \<in> graph_nodes self certs \<Longrightarrow> cert_key X x \<in> F \<Longrightarrow>
     cert_key X y \<in> F"
proof (induction rule: rtrancl_induct)
  case (step y z)
  then show ?case using issues_nodes[OF step(2)] by (auto simp: finished_def)
qed

lemma finished_insert:
  assumes "finished X self certs F" and "keyed X self certs" and "x \<in> graph_nodes self certs" and "cert_key X x \<notin> F"
    and "\<And>y. (x, y) \<in> issues self certs \<Longrightarrow> cert_key X y \<in> F"
  shows "finished X self certs (insert (cert_key X x) F)"
proof -
  have "(x, x) \<notin> (issues self certs)\<^sup>+"
  proof
    assume "(x, x) \<in> (issues self certs)\<^sup>+"
    then obtain y where "(x, y) \<in> issues self certs" "(y, x) \<in> (issues self certs)\<^sup>*" by (meson tranclD)
    then show False using assms finished_reach issues_nodes by metis
  qed
  then show ?thesis using assms key_eq[OF assms(2)] by (auto simp: finished_def)
qed

definition searching ::
    "x509_lib \<Rightarrow> x509_certificate \<Rightarrow> x509_certificate list \<Rightarrow> x509_certificate \<Rightarrow> x509_certificate list \<Rightarrow>
      bytes option set \<Rightarrow> bytes option set \<Rightarrow> bool" where
  "searching X self certs cur todo V R \<longleftrightarrow>
     keyed X self certs \<and> cur \<in> graph_nodes self certs \<and> set todo \<subseteq> set certs \<and> R \<subseteq> V \<and> cert_key X cur \<in> R \<and>
     finished X self certs (V - R) \<and>
     (\<forall>x \<in> graph_nodes self certs. cert_key X x \<in> R \<longrightarrow> (x, cur) \<in> (issues self certs)\<^sup>*) \<and>
     (\<forall>y. (cur, y) \<in> issues self certs \<longrightarrow> y \<in> set todo \<or> cert_key X y \<in> V - R)"

definition searched ::
    "x509_lib \<Rightarrow> x509_certificate \<Rightarrow> x509_certificate list \<Rightarrow> x509_certificate \<Rightarrow> bytes option set \<times> bytes option set \<Rightarrow>
      certificate_error + bytes option set \<times> bytes option set \<Rightarrow> bool" where
  "searched X self certs cur st r \<longleftrightarrow>
     (case r of
        Inl e \<Rightarrow> e = XCycleFound \<and> \<not> acyclic (issues self certs)
      | Inr (V', R') \<Rightarrow>
          R' = snd st - {cert_key X cur} \<and> fst st \<subseteq> V' \<and> finished X self certs (V' - R') \<and> cert_key X cur \<in> V' - R')"

lemma searching_edge:
  assumes "searching X self certs cur (cert # todo) V R"
    and "xt_issuer (xc_tbs cert) = xt_subject (xc_tbs cur) \<and> \<not> is_self_signed cert"
  shows "(cur, cert) \<in> issues self certs" "cert \<in> graph_nodes self certs"
  using assms by (auto simp: searching_def issues_def certs_nodes)

lemma searching_cycle:
  assumes "searching X self certs cur (cert # todo) V R"
    and "xt_issuer (xc_tbs cert) = xt_subject (xc_tbs cur) \<and> \<not> is_self_signed cert" and "cert_key X cert \<in> R"
  shows "\<not> acyclic (issues self certs)"
proof -
  note e = searching_edge[OF assms(1,2)]
  then have "(cert, cur) \<in> (issues self certs)\<^sup>*" using assms(1,3) by (auto simp: searching_def)
  then have "(cert, cert) \<in> (issues self certs)\<^sup>+" using e(1) by (rule rtrancl_into_trancl1)
  then show ?thesis by (auto simp: acyclic_def)
qed

lemma searching_inner:
  assumes "searching X self certs cur (cert # todo) V R"
    and "xt_issuer (xc_tbs cert) = xt_subject (xc_tbs cur) \<and> \<not> is_self_signed cert" and "cert_key X cert \<notin> V"
  shows "searching X self certs cert certs (insert (cert_key X cert) V) (insert (cert_key X cert) R)"
proof -
  note e = searching_edge[OF assms(1,2)]
  have "insert (cert_key X cert) V - insert (cert_key X cert) R = V - R" using assms(3) by auto
  moreover have "(x, cert) \<in> (issues self certs)\<^sup>*"
    if "x \<in> graph_nodes self certs" "cert_key X x \<in> insert (cert_key X cert) R" for x
    using that assms(1) e key_eq[of X self certs x cert] by (auto simp: searching_def intro: rtrancl_into_rtrancl)
  moreover have "y \<in> set certs" if "(cert, y) \<in> issues self certs" for y using that by (simp add: issues_def)
  ultimately show ?thesis using assms(1) e(2) by (auto simp: searching_def)
qed

lemma searching_after:
  assumes "searching X self certs cur (cert # todo) V R" and "cert_key X cert \<notin> V"
    and "searched X self certs cert (insert (cert_key X cert) V, insert (cert_key X cert) R) (Inr (V', R'))"
  shows "R' = R \<and> V \<subseteq> V' \<and> searching X self certs cur todo V' R"
proof -
  have "cert_key X cert \<notin> R" using assms(1,2) by (auto simp: searching_def)
  then have r: "R' = R" "V \<subseteq> V'" "finished X self certs (V' - R)" "cert_key X cert \<in> V' - R"
    using assms(3) by (auto simp: searched_def)
  then show ?thesis using assms(1) by (auto simp: searching_def)
qed

lemma searching_skip:
  assumes "searching X self certs cur (cert # todo) V R"
    and "(cur, cert) \<in> issues self certs \<Longrightarrow> cert_key X cert \<in> V - R"
  shows "searching X self certs cur todo V R"
  using assms by (auto simp: searching_def)

lemma dfs_searched:
  "dfs_cycle_detection n X certs cur todo (V, R) = Some r \<Longrightarrow> searching X self certs cur todo V R \<Longrightarrow>
     searched X self certs cur (V, R) r"
proof (induction n X certs cur todo "(V, R)" arbitrary: V R r rule: dfs_cycle_detection.induct)
  case (2 n X certs cur V R)
  have "finished X self certs (insert (cert_key X cur) (V - R))"
    using 2(2) by (intro finished_insert) (auto simp: searching_def)
  moreover have "V - (R - {cert_key X cur}) = insert (cert_key X cur) (V - R)" using 2(2) by (auto simp: searching_def)
  ultimately show ?case using 2 by (auto simp: searched_def)
next
  case (3 n X certs cur cert todo V R)
  let ?edge = "xt_issuer (xc_tbs cert) = xt_subject (xc_tbs cur) \<and> \<not> is_self_signed cert"
  consider (skip) "\<not> ?edge" | (cycle) ?edge "cert_key X cert \<in> R" | (visit) ?edge "cert_key X cert \<notin> R" "cert_key X cert \<notin> V"
    | (seen) ?edge "cert_key X cert \<notin> R" "cert_key X cert \<in> V" by blast
  then show ?case
  proof cases
    case skip
    then have "dfs_cycle_detection (Suc n) X certs cur todo (V, R) = Some r" using 3(5) by auto
    moreover have "searching X self certs cur todo V R" using searching_skip[OF 3(6)] skip by (auto simp: issues_def)
    ultimately show ?thesis using 3(4)[OF skip] by blast
  next
    case cycle
    then show ?thesis using 3(5) searching_cycle[OF 3(6)] by (auto simp: searched_def)
  next
    case visit
    let ?V = "insert (cert_key X cert) V" and ?R = "insert (cert_key X cert) R"
    obtain r1 where r1: "dfs_cycle_detection n X certs cert certs (?V, ?R) = Some r1" using 3(5) visit by (auto split: option.splits)
    have s1: "searched X self certs cert (?V, ?R) r1"
      using 3(1)[OF visit(1-3) r1 searching_inner[OF 3(6) visit(1,3)]] .
    show ?thesis
    proof (cases r1)
      case (Inl e)
      then show ?thesis using 3(5) visit r1 s1 by (auto simp: searched_def)
    next
      case (Inr st)
      obtain V' R' where st: "st = (V', R')" by force
      note after = searching_after[OF 3(6) visit(3) s1[unfolded Inr st]]
      have "dfs_cycle_detection (Suc n) X certs cur todo (V', R') = Some r" using 3(5) visit r1 Inr st by simp
      then have "searched X self certs cur (V', R') r" using 3(2)[OF visit(1-3)] r1 Inr st after by blast
      then show ?thesis using after by (auto simp: searched_def split: sum.splits)
    qed
  next
    case seen
    then have "dfs_cycle_detection (Suc n) X certs cur todo (V, R) = Some r" using 3(5) by auto
    moreover have "searching X self certs cur todo V R" using searching_skip[OF 3(6)] seen by auto
    ultimately show ?thesis using 3(3)[OF seen(1,2)] seen(3) by blast
  qed
qed simp

lemma dfs_fuel:
  "card (cert_key X ` set certs - V) < n \<Longrightarrow> set todo \<subseteq> set certs \<Longrightarrow>
     \<exists>r. dfs_cycle_detection n X certs cur todo (V, R) = Some r \<and> (\<forall>V' R'. r = Inr (V', R') \<longrightarrow> V \<subseteq> V')"
proof (induction n X certs cur todo "(V, R)" arbitrary: V R rule: dfs_cycle_detection.induct)
  case (3 n X certs cur cert todo V R)
  let ?edge = "xt_issuer (xc_tbs cert) = xt_subject (xc_tbs cur) \<and> \<not> is_self_signed cert"
  show ?case
  proof (cases "?edge \<and> cert_key X cert \<notin> R \<and> cert_key X cert \<notin> V")
    case True
    let ?V = "insert (cert_key X cert) V" and ?R = "insert (cert_key X cert) R"
    have "cert_key X ` set certs - ?V \<subset> cert_key X ` set certs - V" using True 3(6) by auto
    then have "card (cert_key X ` set certs - ?V) < card (cert_key X ` set certs - V)" by (intro psubset_card_mono) auto
    then obtain r1 where r1: "dfs_cycle_detection n X certs cert certs (?V, ?R) = Some r1"
      "\<And>V' R'. r1 = Inr (V', R') \<Longrightarrow> ?V \<subseteq> V'"
      using 3(1) True 3(5) by auto
    show ?thesis
    proof (cases r1)
      case (Inl e)
      then show ?thesis using True r1(1) by auto
    next
      case (Inr st)
      obtain V' R' where st: "st = (V', R')" by force
      have V': "?V \<subseteq> V'" using r1(2) Inr st by simp
      then have "card (cert_key X ` set certs - V') \<le> card (cert_key X ` set certs - V)" by (intro card_mono) auto
      then show ?thesis using 3(2) True r1(1) Inr st V' 3(5,6) by fastforce
    qed
  next
    case False
    then show ?thesis using 3(3,4,5,6) by auto
  qed
qed auto

lemma dfs_from_spec:
  assumes "keyed X self certs" and "cur \<in> graph_nodes self certs" and "finished X self certs V" and "cert_key X cur \<notin> V"
  shows "dfs_from X certs cur (V, {}) = Some (Inl XCycleFound) \<and> \<not> acyclic (issues self certs) \<or>
    (\<exists>V'. dfs_from X certs cur (V, {}) = Some (Inr (V', {})) \<and> V \<subseteq> V' \<and> cert_key X cur \<in> V' \<and> finished X self certs V')"
proof -
  let ?V = "insert (cert_key X cur) V" and ?R = "{cert_key X cur}"
  have "card (cert_key X ` set certs - ?V) \<le> card (cert_key X ` set certs)" by (intro card_mono) auto
  also have "\<dots> \<le> length certs" using card_image_le[of "set certs" "cert_key X"] card_length[of certs] by simp
  finally obtain r where r: "dfs_from X certs cur (V, {}) = Some r"
    using dfs_fuel[of X certs ?V "length certs + 2" certs cur ?R] by (auto simp: dfs_from_def)
  have "?V - ?R = V" using assms(4) by auto
  then have "searching X self certs cur certs ?V ?R"
    using assms key_eq[OF assms(1) _ assms(2)] by (auto simp: searching_def issues_def)
  then have s: "searched X self certs cur (?V, ?R) r"
    using r dfs_searched[of "length certs + 2" X certs cur certs ?V ?R r self] by (simp add: dfs_from_def)
  show ?thesis
  proof (cases r)
    case (Inl e)
    then show ?thesis using r s by (simp add: searched_def)
  next
    case (Inr st)
    then show ?thesis using r s by (cases st) (auto simp: searched_def)
  qed
qed

definition cleared ::
    "x509_lib \<Rightarrow> x509_certificate \<Rightarrow> x509_certificate list \<Rightarrow> bytes option set \<Rightarrow> (certificate_error + unit) option \<Rightarrow> bool" where
  "cleared X self certs keys r \<longleftrightarrow>
     r = Some (Inl XCycleFound) \<and> \<not> acyclic (issues self certs) \<or>
     r = Some (Inr ()) \<and> (\<exists>V. finished X self certs V \<and> keys \<subseteq> V)"

lemma cleared_mono: "cleared X self certs keys r \<Longrightarrow> keys' \<subseteq> keys \<Longrightarrow> cleared X self certs keys' r"
  unfolding cleared_def by blast

lemma dfs_rest_spec:
  assumes "keyed X self certs"
  shows "set todo \<subseteq> set certs \<Longrightarrow> finished X self certs V \<Longrightarrow>
    cleared X self certs (V \<union> cert_key X ` set todo) (dfs_rest X certs todo (V, {}))"
proof (induction todo arbitrary: V)
  case (Cons cert todo)
  show ?case
  proof (cases "cert_key X cert \<in> V")
    case True
    then have "V \<union> cert_key X ` set (cert # todo) = V \<union> cert_key X ` set todo" by auto
    then show ?thesis using Cons True by simp
  next
    case False
    have cert: "cert \<in> graph_nodes self certs" using Cons.prems(1) by (simp add: graph_nodes_def)
    from dfs_from_spec[OF assms cert Cons.prems(2) False] show ?thesis
    proof (elim disjE exE conjE)
      fix V' assume v: "dfs_from X certs cert (V, {}) = Some (Inr (V', {}))" "V \<subseteq> V'" "cert_key X cert \<in> V'" "finished X self certs V'"
      then have "cleared X self certs (V' \<union> cert_key X ` set todo) (dfs_rest X certs (cert # todo) (V, {}))"
        using False Cons.IH[of V'] Cons.prems(1) by simp
      then show ?thesis by (rule cleared_mono) (use v in auto)
    qed (use False in \<open>simp add: cleared_def\<close>)
  qed
qed (auto simp: cleared_def)

theorem detect_cycles_spec:
  assumes "keyed X self certs"
  shows "detect_cycles X self certs = Some (if acyclic (issues self certs) then Ok () else Err XCycleFound)"
proof -
  have nodes: "x \<in> graph_nodes self certs" if "(x, x) \<in> (issues self certs)\<^sup>+" for x
    using that by (metis issues_nodes tranclD)
  have all: "acyclic (issues self certs)" if "finished X self certs V" "cert_key X self \<in> V" "cert_key X ` set certs \<subseteq> V" for V
  proof -
    have "cert_key X x \<in> V" if "x \<in> graph_nodes self certs" for x
      using that \<open>cert_key X self \<in> V\<close> \<open>cert_key X ` set certs \<subseteq> V\<close> by (auto simp: graph_nodes_def)
    then show ?thesis using \<open>finished X self certs V\<close> nodes unfolding acyclic_def finished_def by blast
  qed
  have "finished X self certs {}" "self \<in> graph_nodes self certs" by (auto simp: finished_def graph_nodes_def)
  from dfs_from_spec[OF assms this(2,1)] have "dfs_from X certs self ({}, {}) = Some (Inl XCycleFound) \<and> \<not> acyclic (issues self certs) \<or>
    (\<exists>V. dfs_from X certs self ({}, {}) = Some (Inr (V, {})) \<and> cert_key X self \<in> V \<and> finished X self certs V)" by auto
  then show ?thesis
  proof (elim disjE exE conjE)
    fix V assume v: "dfs_from X certs self ({}, {}) = Some (Inr (V, {}))" "cert_key X self \<in> V" "finished X self certs V"
    from dfs_rest_spec[OF assms _ v(3), of certs] show ?thesis using v(1,2) all by (auto simp: detect_cycles_def cleared_def)
  qed (simp_all add: detect_cycles_def)
qed

section \<open>Connected certificates\<close>

lemma connected_sound:
  assumes "\<And>x. x \<in> set to_visit \<Longrightarrow> (self, x) \<in> (connects certs)\<^sup>*"
    and "connected \<subseteq> cert_key X ` ((connects certs)\<^sup>+ `` {self})"
  shows "connected_loop X certs connected visited to_visit \<subseteq> cert_key X ` ((connects certs)\<^sup>+ `` {self})"
  using assms
proof (induction X certs connected visited to_visit rule: connected_loop.induct)
  case (2 X certs connected visited cur to_visit)
  show ?case
  proof (cases "cert_key X cur \<in> visited")
    case True
    then show ?thesis using 2(1)[OF True] 2(3,4) by auto
  next
    case False
    have near: "(self, y) \<in> (connects certs)\<^sup>+" if "y \<in> set certs" "adjacent cur y" for y
    proof -
      have "(cur, y) \<in> connects certs" using that by (simp add: connects_def)
      then show ?thesis using 2(3)[of cur] rtrancl_into_trancl1 by auto
    qed
    have "connected_loop X certs connected visited (cur # to_visit) =
        connected_loop X certs (cert_key X ` set (filter (adjacent cur) certs) \<union> connected) (insert (cert_key X cur) visited)
          (rev (filter (\<lambda>cert. cert_key X cert \<notin> insert (cert_key X cur) visited) (filter (adjacent cur) certs)) @ to_visit)"
      using False by (simp add: Let_def)
    also have "\<dots> \<subseteq> cert_key X ` ((connects certs)\<^sup>+ `` {self})"
      using near 2(3,4) by (intro 2(2)[OF False refl refl]) (auto intro: trancl_into_rtrancl)
    finally show ?thesis .
  qed
qed auto

text \<open>While the loop runs, the neighbours of a visited certificate are connected, and visited or waiting.\<close>

definition exploring ::
    "x509_lib \<Rightarrow> x509_certificate list \<Rightarrow> x509_certificate set \<Rightarrow> bytes option set \<Rightarrow> bytes option set \<Rightarrow> x509_certificate list \<Rightarrow> bool" where
  "exploring X certs nodes connected visited to_visit \<longleftrightarrow>
     (\<forall>x \<in> nodes. cert_key X x \<in> visited \<longrightarrow> (\<forall>y. (x, y) \<in> connects certs \<longrightarrow>
        cert_key X y \<in> connected \<and> cert_key X y \<in> visited \<union> cert_key X ` set to_visit))"

lemma exploring_done:
  assumes "exploring X certs nodes connected visited []" and "set certs \<subseteq> nodes" and "x \<in> nodes" and "cert_key X x \<in> visited"
    and "(x, y) \<in> (connects certs)\<^sup>+"
  shows "cert_key X y \<in> connected"
proof -
  have "cert_key X y \<in> connected \<and> cert_key X y \<in> visited \<and> y \<in> nodes" using assms(5)
  proof (induction rule: trancl_induct)
    case (base y)
    then show ?case using assms by (auto simp: exploring_def connects_def)
  next
    case (step y z)
    then show ?case using assms(1,2) by (auto simp: exploring_def connects_def)
  qed
  then show ?thesis by simp
qed

lemma connected_complete:
  assumes "exploring X certs nodes connected visited to_visit" and "inj_on (cert_key X) nodes" and "set certs \<subseteq> nodes"
    and "set to_visit \<subseteq> nodes" and "x \<in> nodes" and "cert_key X x \<in> visited \<union> cert_key X ` set to_visit"
    and "(x, y) \<in> (connects certs)\<^sup>+"
  shows "cert_key X y \<in> connected_loop X certs connected visited to_visit"
  using assms
proof (induction X certs connected visited to_visit rule: connected_loop.induct)
  case (1 X certs connected visited)
  then show ?case using exploring_done by fastforce
next
  case (2 X certs connected visited cur to_visit)
  show ?case
  proof (cases "cert_key X cur \<in> visited")
    case True
    moreover have "exploring X certs nodes connected visited to_visit" using 2(3) True unfolding exploring_def by fastforce
    ultimately show ?thesis using 2(1)[OF True] 2(4-9) by auto
  next
    case False
    let ?near = "filter (adjacent cur) certs" and ?V = "insert (cert_key X cur) visited"
    let ?todo = "rev (filter (\<lambda>cert. cert_key X cert \<notin> ?V) ?near) @ to_visit"
    have "exploring X certs nodes (cert_key X ` set ?near \<union> connected) ?V ?todo"
      unfolding exploring_def
    proof (intro ballI impI allI)
      fix x y assume x: "x \<in> nodes" "cert_key X x \<in> ?V" and y: "(x, y) \<in> connects certs"
      show "cert_key X y \<in> cert_key X ` set ?near \<union> connected \<and> cert_key X y \<in> ?V \<union> cert_key X ` set ?todo"
      proof (cases "x = cur")
        case True
        then show ?thesis using y by (auto simp: connects_def)
      next
        case False
        then have "cert_key X x \<in> visited" using x 2(4,6) by (auto dest: inj_onD)
        then have "cert_key X y \<in> connected \<and> cert_key X y \<in> visited \<union> cert_key X ` set (cur # to_visit)"
          using 2(3) x(1) y unfolding exploring_def by blast
        then show ?thesis by auto
      qed
    qed
    then have "cert_key X y \<in> connected_loop X certs (cert_key X ` set ?near \<union> connected) ?V ?todo"
      by (rule 2(2)[OF False refl refl]) (use 2(4-9) in auto)
    then show ?thesis using False by (simp add: Let_def)
  qed
qed

lemma find_connected_spec:
  assumes "keyed X self certs"
  shows "find_connected_certificates X self certs = cert_key X ` ((connects certs)\<^sup>+ `` {self})"
proof
  show "find_connected_certificates X self certs \<subseteq> cert_key X ` ((connects certs)\<^sup>+ `` {self})"
    unfolding find_connected_certificates_def by (rule connected_sound) auto
  have "cert_key X y \<in> find_connected_certificates X self certs" if "(self, y) \<in> (connects certs)\<^sup>+" for y
    unfolding find_connected_certificates_def
    by (rule connected_complete[of X certs "graph_nodes self certs" "{}" "{}" "[self]" self])
      (use assms that in \<open>auto simp: exploring_def keyed_def graph_nodes_def\<close>)
  then show "cert_key X ` ((connects certs)\<^sup>+ `` {self}) \<subseteq> find_connected_certificates X self certs" by auto
qed

section \<open>The graph check\<close>

lemma hash_fold:
  "(\<exists>s. try_fold (check_hash_step X) seen certs = Inr s) \<longleftrightarrow>
     (\<exists>hs. traverse (certificate_hash_try_from X) certs = Inr hs \<and> distinct hs \<and> set hs \<inter> seen = {})"
proof (induction certs arbitrary: seen)
  case (Cons c certs)
  show ?case
  proof (cases "certificate_hash_try_from X c")
    case (Inr h)
    then show ?thesis using Cons[of "insert h seen"] by (auto simp: check_hash_step_def)
  qed (simp add: check_hash_step_def)
qed simp

lemma hashes_encoded:
  "traverse (certificate_hash_try_from X) certs = Inr hs \<Longrightarrow> c \<in> set certs \<Longrightarrow> cert_encode X c \<noteq> None"
  by (induction certs arbitrary: hs) (auto simp: certificate_hash_try_from_def to_der_def)

lemma encoded_keyed:
  assumes "\<And>c bs. cert_encode X c = Some bs \<Longrightarrow> cert_decode X bs = Some c"
    and "cert_encode X self \<noteq> None" and "\<And>c. c \<in> set certs \<Longrightarrow> cert_encode X c \<noteq> None"
  shows "keyed X self certs"
proof -
  have "x = y" if "cert_key X x = cert_key X y" "x \<in> graph_nodes self certs" "y \<in> graph_nodes self certs" for x y
  proof -
    have "cert_encode X x \<noteq> None" "cert_encode X y \<noteq> None" using that(2,3) assms(2,3) by (auto simp: graph_nodes_def)
    then obtain a b where "cert_encode X x = Some a" "cert_encode X y = Some b" by blast
    then show ?thesis using that(1) assms(1)[of x a] assms(1)[of y b] by (simp add: cert_key_def to_der_def)
  qed
  then show ?thesis by (auto simp: keyed_def inj_on_def)
qed

definition valid_graph :: "x509_lib \<Rightarrow> x509_certificate \<Rightarrow> x509_certificate list \<Rightarrow> bool" where
  "valid_graph X self certs \<longleftrightarrow>
     length certs \<le> 10 \<and>
     (\<exists>hs. traverse (certificate_hash_try_from X) certs = Inr hs \<and> distinct hs) \<and>
     (\<forall>c \<in> set certs. c = self \<or> (self, c) \<in> (connects certs)\<^sup>+) \<and>
     acyclic (issues self certs)"

lemma graph_check_cases:
  assumes "\<And>c bs. cert_encode X c = Some bs \<Longrightarrow> cert_decode X bs = Some c" and "cert_encode X self \<noteq> None"
  shows "\<exists>r. assert_can_construct_valid_graph X self certs = Some r \<and> (r = Inr () \<longleftrightarrow> valid_graph X self certs)"
proof (cases "length certs \<le> 10 \<and> (\<exists>hs. traverse (certificate_hash_try_from X) certs = Inr hs \<and> distinct hs)")
  case True
  then obtain s where s: "try_fold (check_hash_step X) {} certs = Inr s" using hash_fold[of X "{}" certs] by auto
  have "\<And>c. c \<in> set certs \<Longrightarrow> cert_encode X c \<noteq> None" using True hashes_encoded by blast
  then have k: "keyed X self certs" using encoded_keyed[OF assms] by blast
  have "cert_key X c \<in> find_connected_certificates X self certs \<longleftrightarrow> (self, c) \<in> (connects certs)\<^sup>+" if "c \<in> set certs" for c
  proof -
    have "y \<in> set certs" if "(self, y) \<in> (connects certs)\<^sup>+" for y using that by (cases rule: tranclE) (auto simp: connects_def)
    then show ?thesis using that key_eq[OF k] certs_nodes by (auto simp: find_connected_spec[OF k])
  qed
  then have "list_ex (\<lambda>c. cert_key X c \<notin> find_connected_certificates X self certs \<and> c \<noteq> self) certs \<longleftrightarrow>
      \<not> (\<forall>c \<in> set certs. c = self \<or> (self, c) \<in> (connects certs)\<^sup>+)"
    by (auto simp: list_ex_iff)
  then show ?thesis using True s detect_cycles_spec[OF k]
    by (auto simp: assert_can_construct_valid_graph_def valid_graph_def MAX_GRAPH_CERTIFICATES_def Let_def)
next
  case False
  then show ?thesis using hash_fold[of X "{}" certs]
    by (auto simp: assert_can_construct_valid_graph_def valid_graph_def MAX_GRAPH_CERTIFICATES_def Let_def split: sum.split)
qed

section \<open>Chains\<close>

definition next_issuer :: "x509_lib \<Rightarrow> x509_certificate \<Rightarrow> x509_certificate list \<Rightarrow> x509_certificate \<Rightarrow> x509_certificate option" where
  "next_issuer X self certs cur =
     (if is_self_signed cur then None else find (\<lambda>cert. cert \<noteq> self \<and> is_issued_by X cur cert) certs)"

lemma next_issuer_ok:
  "next_issuer X self certs cur = Some i \<Longrightarrow>
     \<not> is_self_signed cur \<and> i \<in> set certs \<and> i \<noteq> self \<and> is_issued_by X cur i"
  by (auto simp: next_issuer_def find_Some_iff split: if_splits)

lemma is_issued_by_name: "is_issued_by X cur i \<Longrightarrow> xt_issuer (xc_tbs cur) = xt_subject (xc_tbs i)"
  by (simp add: is_issued_by_def has_matching_issuer_subject_dn_def split: sum.splits)

lemma follow_step:
  "follow_issuers X self certs cur S ch =
     (case next_issuer X self certs cur of
        None \<Rightarrow> Some ch
      | Some i \<Rightarrow>
          if cert_key X i \<notin> S then follow_issuers X self certs i (insert (cert_key X i) S) (ch @ [i])
          else follow_issuers X self certs i S ch)"
  by (subst follow_issuers.simps) (simp add: next_issuer_def)

lemma follow_loops:
  assumes "\<And>c. c \<in> C \<Longrightarrow> \<exists>d \<in> C. next_issuer X self certs c = Some d" and "cur \<in> C"
  shows "follow_issuers X self certs cur S ch = None"
proof -
  have "\<not> (X' = X \<and> self' = self \<and> certs' = certs \<and> cur' \<in> C)"
    if "follow_issuers X' self' certs' cur' S' ch' = Some y" for X' self' certs' cur' S' ch' y
  proof (induct rule: follow_issuers.raw_induct[where
      P = "\<lambda>X' self' certs' cur' S' ch' y. \<not> (X' = X \<and> self' = self \<and> certs' = certs \<and> cur' \<in> C)", OF _ that])
    case (1 f X' self' certs' cur' S' ch' y)
    show ?case
    proof
      assume a: "X' = X \<and> self' = self \<and> certs' = certs \<and> cur' \<in> C"
      then obtain d where d: "d \<in> C" "next_issuer X self certs cur' = Some d" using assms(1) by blast
      then have "\<exists>S' ch'. f X self certs d S' ch' = Some y" using 1(2) a by (auto simp: next_issuer_def split: if_splits)
      then show False using 1(1) d(1) by blast
    qed
  qed
  then show ?thesis using assms(2) by (cases "follow_issuers X self certs cur S ch") auto
qed

text \<open>A chain so far: it starts with the subject, each link was found as the issuer of the one before.\<close>

definition issuer_chain :: "x509_lib \<Rightarrow> x509_certificate \<Rightarrow> x509_certificate list \<Rightarrow> x509_certificate list \<Rightarrow> bool" where
  "issuer_chain X self certs ch \<longleftrightarrow>
     ch \<noteq> [] \<and> hd ch = self \<and> distinct ch \<and>
     (\<forall>i. Suc i < length ch \<longrightarrow> next_issuer X self certs (ch ! i) = Some (ch ! Suc i))"

lemma issuer_chain_nodes: "issuer_chain X self certs ch \<Longrightarrow> set ch \<subseteq> graph_nodes self certs"
proof
  fix x assume ch: "issuer_chain X self certs ch" and "x \<in> set ch"
  then obtain i where i: "i < length ch" "x = ch ! i" by (auto simp: in_set_conv_nth)
  show "x \<in> graph_nodes self certs"
  proof (cases i)
    case 0
    then show ?thesis using ch i by (auto simp: issuer_chain_def graph_nodes_def hd_conv_nth)
  next
    case (Suc j)
    then have "next_issuer X self certs (ch ! j) = Some x" using ch i by (auto simp: issuer_chain_def)
    then show ?thesis using next_issuer_ok certs_nodes by blast
  qed
qed

lemma issuer_chain_snoc:
  "issuer_chain X self certs ch \<Longrightarrow> next_issuer X self certs (last ch) = Some i \<Longrightarrow> i \<notin> set ch \<Longrightarrow> issuer_chain X self certs (ch @ [i])"
  by (auto simp: issuer_chain_def nth_append last_conv_nth less_Suc_eq) (metis diff_Suc_Suc diff_zero)

lemma issuer_chain_closed:
  assumes "issuer_chain X self certs ch" and "next_issuer X self certs (last ch) = Some i" and "i \<in> set ch" and "c \<in> set ch"
  shows "\<exists>d \<in> set ch. next_issuer X self certs c = Some d"
proof -
  obtain j where j: "j < length ch" "c = ch ! j" using assms(4) by (auto simp: in_set_conv_nth)
  show ?thesis
  proof (cases "Suc j < length ch")
    case True
    then show ?thesis using assms(1) j by (auto simp: issuer_chain_def)
  next
    case False
    then have "c = last ch" using j by (metis Suc_lessI diff_Suc_1 last_conv_nth list.size(3) not_less_zero)
    then show ?thesis using assms(2,3) by blast
  qed
qed

lemma next_issuer_issues:
  "next_issuer X self certs c = Some d \<Longrightarrow> c \<in> set certs \<Longrightarrow> (d, c) \<in> issues self certs"
  using next_issuer_ok[of X self certs c d] is_issued_by_name[of X c d] by (auto simp: issues_def graph_nodes_def)

lemma finite_issues: "finite (issues self certs)"
  by (rule finite_subset[of _ "graph_nodes self certs \<times> set certs"]) (auto simp: issues_def graph_nodes_def)

lemma repeated_issuer_cycle:
  assumes "issuer_chain X self certs ch" and "next_issuer X self certs (last ch) = Some i" and "i \<in> set ch"
  shows "\<not> acyclic (issues self certs)"
proof
  assume "acyclic (issues self certs)"
  then have "wf (issues self certs)" using finite_issues by (rule finite_acyclic_wf[rotated])
  moreover have "i \<in> set ch - {self}" using assms(2,3) next_issuer_ok by blast
  ultimately obtain c where c: "c \<in> set ch - {self}" "\<And>d. (d, c) \<in> issues self certs \<Longrightarrow> d \<notin> set ch - {self}"
    by (metis wf_eq_minimal)
  obtain d where d: "d \<in> set ch" "next_issuer X self certs c = Some d" using issuer_chain_closed[OF assms] c(1) by blast
  have "c \<in> set certs" using issuer_chain_nodes[OF assms(1)] c(1) by (auto simp: graph_nodes_def)
  then show False using c(2) d next_issuer_issues next_issuer_ok by blast
qed

lemma follow_chain:
  assumes "keyed X self certs"
  shows "issuer_chain X self certs ch \<Longrightarrow>
    (case follow_issuers X self certs (last ch) (cert_key X ` set ch) ch of
       None \<Rightarrow> \<not> acyclic (issues self certs)
     | Some r \<Rightarrow> issuer_chain X self certs r \<and> next_issuer X self certs (last r) = None)"
proof (induction "card (graph_nodes self certs) - length ch" arbitrary: ch rule: less_induct)
  case less
  have nodes: "set ch \<subseteq> graph_nodes self certs" using issuer_chain_nodes[OF less.prems] .
  show ?case
  proof (cases "next_issuer X self certs (last ch)")
    case None
    then show ?thesis using less.prems by (subst follow_step) simp
  next
    case (Some i)
    have i: "i \<in> graph_nodes self certs" using next_issuer_ok[OF Some] certs_nodes by blast
    then have key: "cert_key X i \<in> cert_key X ` set ch \<longleftrightarrow> i \<in> set ch" using nodes key_eq[OF assms] by auto
    show ?thesis
    proof (cases "i \<in> set ch")
      case True
      then have "follow_issuers X self certs (last ch) (cert_key X ` set ch) ch = None"
        using issuer_chain_closed[OF less.prems Some] less.prems
        by (intro follow_loops[of "set ch"]) (auto simp: issuer_chain_def)
      moreover have "\<not> acyclic (issues self certs)" using repeated_issuer_cycle[OF less.prems Some True] .
      ultimately show ?thesis by simp
    next
      case False
      have ch': "issuer_chain X self certs (ch @ [i])" using issuer_chain_snoc[OF less.prems Some False] .
      have "card (set (ch @ [i])) \<le> card (graph_nodes self certs)"
        using issuer_chain_nodes[OF ch'] by (intro card_mono) (auto simp: graph_nodes_def)
      moreover have "card (set (ch @ [i])) = Suc (length ch)" using ch' distinct_card[of "ch @ [i]"] by (simp add: issuer_chain_def)
      ultimately show ?thesis using less.hyps[OF _ ch'] Some key False by (subst follow_step) simp
    qed
  qed
qed

end
