(* ===== verification/X509Laws.thy ===== *)
theory X509Laws
  imports X509Builder X509Graph
begin

text \<open>
  What certificates rely on from the crates below (\<open>x509_laws\<close>), and what follows: the ECDSA
  signature codec, PEM, the octets of standard extensions, and built certificates.
\<close>

section \<open>ECDSA signatures\<close>

lemma trimmed_integer:
  assumes "val \<noteq> []"
  obtains zs t ts where "val = zs @ t # ts" "list_all (\<lambda>b. b = 0) zs"
    "encode_integer val =
       (if t AND 0x80 \<noteq> 0 then [0x02, word_of_nat (length ts + 2), 0x00] else [0x02, word_of_nat (length ts + 1)]) @ t # ts"
proof (cases "list_all (\<lambda>b. b = 0) val")
  case True
  have v: "val = butlast val @ [last val]" using assms by simp
  have "drop (length val - 1) val = [last val]" using assms by (metis append_butlast_last_id append_eq_conv_conj length_butlast)
  then have "encode_integer val = (if last val AND 0x80 \<noteq> 0 then [0x02, word_of_nat 2, 0x00] else [0x02, word_of_nat 1]) @ [last val]"
    using True assms by (cases "val") (simp_all add: encode_integer_def Let_def)
  moreover have "list_all (\<lambda>b. b = 0) (butlast val)" using True by (auto simp: list_all_iff dest: in_set_butlastD)
  ultimately show thesis using that[of "butlast val" "last val" "[]"] v by simp
next
  case False
  let ?zs = "takeWhile (\<lambda>b. b = 0) val"
  have d: "drop (length ?zs) val = dropWhile (\<lambda>b. b = 0) val" by (simp add: dropWhile_eq_drop)
  have "dropWhile (\<lambda>b. b = 0) val \<noteq> []" using False by (auto simp: list_all_iff)
  then obtain t ts where t: "dropWhile (\<lambda>b. b = 0) val = t # ts" by (meson neq_Nil_conv)
  have "val = ?zs @ t # ts" using t takeWhile_dropWhile_id[of "\<lambda>b. b = 0" val] by simp
  moreover have "list_all (\<lambda>b. b = 0) ?zs" by (auto simp: list_all_iff dest: set_takeWhileD)
  moreover have "encode_integer val =
       (if t AND 0x80 \<noteq> 0 then [0x02, word_of_nat (length ts + 2), 0x00] else [0x02, word_of_nat (length ts + 1)]) @ t # ts"
    using False d t by (simp add: encode_integer_def Let_def del: drop_eq_Nil drop_eq_Nil2)
  ultimately show thesis using that by blast
qed

lemma zeros_replicate: "list_all (\<lambda>b. b = 0) zs \<Longrightarrow> zs = replicate (length zs) 0"
  by (induction zs) auto

lemma encoded_integer:
  assumes "length val = 32"
  obtains content where "encode_integer val = 0x02 # word_of_nat (length content) # content" "fit32 content = val"
    "length content \<le> 33" "content \<noteq> []"
proof -
  have "val \<noteq> []" using assms by auto
  then obtain zs t ts where v: "val = zs @ t # ts" "list_all (\<lambda>b. b = 0) zs" "encode_integer val =
       (if t AND 0x80 \<noteq> 0 then [0x02, word_of_nat (length ts + 2), 0x00] else [0x02, word_of_nat (length ts + 1)]) @ t # ts"
    by (rule trimmed_integer)
  have len: "length zs + Suc (length ts) = 32" using v(1) assms by simp
  have zs: "replicate (length zs) 0 = zs" using zeros_replicate[OF v(2)] by simp
  have fit1: "fit32 (t # ts) = val"
  proof -
    have "32 - Suc (length ts) = length zs" using len by linarith
    then show ?thesis using len by (simp add: fit32_def v(1) zs)
  qed
  have fit2: "fit32 (0 # t # ts) = val"
  proof (cases zs)
    case Nil
    then show ?thesis using len by (simp add: fit32_def v(1))
  next
    case (Cons z zs')
    then have "replicate (length zs') 0 @ [0] = zs" using zs replicate_append_same[of "length zs'" "0 :: byte"] by (simp only: list.size replicate_Suc add_Suc_right add_0_right)
    moreover have "32 - Suc (Suc (length ts)) = length zs'" using len Cons by simp
    ultimately show ?thesis using len Cons by (simp add: fit32_def v(1))
  qed
  show thesis
  proof (cases "t AND 0x80 \<noteq> 0")
    case True
    then show thesis using that[of "0 # t # ts"] v(3) fit2 len by simp
  next
    case False
    then show thesis using that[of "t # ts"] v(3) fit1 len by simp
  qed
qed

lemma parse_integer_at:
  assumes "length content \<le> 255" and "pre @ 0x02 # word_of_nat (length content) # content @ rest = der" and "length pre = pos"
  shows "parse_ecdsa_integer der pos = Inr (content, pos + 2 + length content)"
proof -
  have "unat (word_of_nat (length content) :: byte) = length content" using assms(1) by (simp add: unat_of_nat)
  then show ?thesis using assms(2,3)[symmetric] by (simp add: parse_ecdsa_integer_def nth_append Let_def)
qed

lemma ecdsa_parse_encode:
  assumes "length r = 32" and "length s = 32"
  shows "parse_der_ecdsa_signature (encode_ecdsa_signature_to_der r s @ trailing) = Inr (r, s)"
proof -
  obtain a where a: "encode_integer r = 0x02 # word_of_nat (length a) # a" "fit32 a = r" "length a \<le> 33" "a \<noteq> []"
    using encoded_integer[OF assms(1)] by blast
  obtain b where b: "encode_integer s = 0x02 # word_of_nat (length b) # b" "fit32 b = s" "length b \<le> 33" "b \<noteq> []"
    using encoded_integer[OF assms(2)] by blast
  let ?n = "length a + length b + 4"
  let ?der = "[0x30, word_of_nat ?n] @ (0x02 # word_of_nat (length a) # a) @ (0x02 # word_of_nat (length b) # b) @ trailing"
  have der: "encode_ecdsa_signature_to_der r s @ trailing = ?der"
    using a(1) b(1) by (simp add: encode_ecdsa_signature_to_der_def Let_def)
  have "unat (word_of_nat ?n :: byte) = ?n" using a(3) b(3) by (simp add: unat_of_nat del: of_nat_add)
  moreover have "Suc 0 \<le> length a" "Suc 0 \<le> length b" using a(4) b(4) by (auto simp: Suc_le_eq)
  moreover have "parse_ecdsa_integer ?der 2 = Inr (a, 4 + length a)"
    using parse_integer_at[of a "[0x30, word_of_nat ?n]" "(0x02 # word_of_nat (length b) # b) @ trailing" ?der 2] a(3) by simp
  moreover have "parse_ecdsa_integer ?der (4 + length a) = Inr (b, 6 + length a + length b)"
    using parse_integer_at[of b "[0x30, word_of_nat ?n] @ 0x02 # word_of_nat (length a) # a" trailing ?der "4 + length a"] b(3) by simp
  ultimately show ?thesis unfolding der using a(2) b(2) by (simp add: parse_der_ecdsa_signature_def)
qed

lemma raw_signature_roundtrip:
  assumes "length s = 64"
  shows "\<exists>der. raw_to_der_signature s = Inr der \<and> der_to_raw_signature der = Inr s"
proof -
  have "parse_der_ecdsa_signature (encode_ecdsa_signature_to_der (take 32 s) (drop 32 s)) = Inr (take 32 s, drop 32 s)"
    using ecdsa_parse_encode[of "take 32 s" "drop 32 s" "[]"] assms by simp
  then show ?thesis using assms by (simp add: raw_to_der_signature_def der_to_raw_signature_def)
qed

section \<open>PEM\<close>

lemma split_lines_line:
  "CHR 10 \<notin> set xs \<Longrightarrow> split_lines acc (xs @ CHR 10 # rest) = (rev acc @ xs) # split_lines [] rest"
  by (induction xs arbitrary: acc) auto

lemma text_lines_concat:
  assumes "\<And>l. l \<in> set ls \<Longrightarrow> CHR 10 \<notin> set l \<and> CHR 13 \<notin> set l"
  shows "text_lines (concat (map (\<lambda>l. l @ [CHR 10]) ls)) = ls"
proof -
  have "split_lines [] (concat (map (\<lambda>l. l @ [CHR 10]) ls)) = ls"
    using assms by (induction ls) (auto simp: split_lines_line)
  moreover have "map strip_cr ls = ls"
    using assms by (intro map_idI) (auto simp: strip_cr_def dest: last_in_set)
  ultimately show ?thesis by (simp add: text_lines_def)
qed

lemma starts_with_set: "starts_with s pat \<Longrightarrow> set pat \<subseteq> set s"
  by (metis starts_with_def set_take_subset)

lemma contains_text_set: "contains_text pat s \<Longrightarrow> set pat \<subseteq> set s"
proof (induction pat s rule: contains_text.induct)
  case (2 pat c cs)
  then show ?case using starts_with_set[of "c # cs" pat] by auto
qed simp

lemma line_position_at:
  "(\<And>l. l \<in> set ls \<Longrightarrow> \<not> P l) \<Longrightarrow> P m \<Longrightarrow> line_position P (ls @ m # ms) = Some (length ls)"
  by (induction ls) auto

lemma chunks_of_set: "0 < n \<Longrightarrow> c \<in> set (chunks_of n xs) \<Longrightarrow> set c \<subseteq> set xs"
proof (induction n xs rule: chunks_of.induct)
  case (1 n xs)
  then show ?case by (subst (asm) (2) chunks_of.simps) (auto split: if_splits dest: in_set_takeD in_set_dropD)
qed

lemma concat_chunks_of: "0 < n \<Longrightarrow> concat (chunks_of n xs) = xs"
proof (induction n xs rule: chunks_of.induct)
  case (1 n xs)
  then show ?case by (subst chunks_of.simps) auto
qed

definition pem_safe :: "string \<Rightarrow> bool" where
  "pem_safe s \<longleftrightarrow> CHR 10 \<notin> set s \<and> CHR 13 \<notin> set s \<and> CHR '' '' \<notin> set s"

lemma pem_lines:
  assumes "pem_safe body"
  defines "ls \<equiv> PEM_BEGIN # chunks_of 64 body @ [PEM_END]"
  shows "text_lines (concat (map (\<lambda>line. line @ [CHR 10]) ls)) = ls"
    and "line_position (contains_text ''BEGIN CERTIFICATE'') ls = Some 0"
    and "line_position (contains_text ''END CERTIFICATE'') ls = Some (Suc (length (chunks_of 64 body)))"
proof -
  have safe: "CHR 10 \<notin> set l \<and> CHR 13 \<notin> set l \<and> CHR '' '' \<notin> set l" if "l \<in> set (chunks_of 64 body)" for l
    using assms(1) chunks_of_set[OF _ that] by (auto simp: pem_safe_def)
  then show "text_lines (concat (map (\<lambda>line. line @ [CHR 10]) ls)) = ls"
    by (intro text_lines_concat) (auto simp: ls_def PEM_BEGIN_def PEM_END_def)
  have b: "contains_text ''BEGIN CERTIFICATE'' PEM_BEGIN" by code_simp
  then show "line_position (contains_text ''BEGIN CERTIFICATE'') ls = Some 0" by (simp add: ls_def)
  have "\<not> contains_text ''END CERTIFICATE'' l" if "l \<in> set (PEM_BEGIN # chunks_of 64 body)" for l
  proof (cases "l = PEM_BEGIN")
    case True
    then show ?thesis by (simp only:) code_simp
  next
    case False
    then show ?thesis using safe[of l] that contains_text_set[of "''END CERTIFICATE''" l] by auto
  qed
  moreover have "contains_text ''END CERTIFICATE'' PEM_END" by code_simp
  ultimately show "line_position (contains_text ''END CERTIFICATE'') ls = Some (Suc (length (chunks_of 64 body)))"
    using line_position_at[of "PEM_BEGIN # chunks_of 64 body" "contains_text ''END CERTIFICATE''" PEM_END "[]"]
    by (simp add: ls_def)
qed

lemma pem_roundtrip:
  assumes "to_pem X cert = Some pem" and "cert_encode X cert = Some der"
    and "base64_decode X (base64_encode X der) = Some der" and "pem_safe (base64_encode X der)"
  shows "certificate_from_str X pem = certificate_try_from X der"
proof -
  let ?cs = "chunks_of 64 (base64_encode X der)"
  have "pem = concat (map (\<lambda>line. line @ [CHR 10]) (PEM_BEGIN # ?cs @ [PEM_END]))"
    using assms(1,2) by (simp add: to_pem_def)
  note p = pem_lines[OF assms(4), folded this]
  have "concat (take (Suc (length ?cs) - (0 + 1)) (drop (0 + 1) (PEM_BEGIN # ?cs @ [PEM_END]))) = base64_encode X der"
    by (simp add: concat_chunks_of)
  then show ?thesis using assms(3) unfolding certificate_from_str_def p Let_def by (simp add: p(2,3))
qed

section \<open>The crates below\<close>

definition known_oids :: "string list" where
  "known_oids =
     [SHA256_WITH_RSA, EC_PUBLIC_KEY, ECDSA_WITH_SHA256, ECDSA_WITH_SHA3_256, X_SECP256R1, X_SECP256K1, X_ED25519,
      BASIC_CONSTRAINTS, KEY_USAGE, EXTENDED_KEY_USAGE, SUBJECT_ALT_NAME, SUBJECT_KEY_IDENTIFIER,
      AUTHORITY_KEY_IDENTIFIER, SERVER_AUTH, CLIENT_AUTH, X_CN, X_O, X_OU, X_C, X_ST, X_L, EMAIL_ADDRESS]"

definition short_tags :: "(byte \<times> tag) list" where
  "short_tags = [(0x04, TagOctetString), (0x30, TagSequence), (0x80, TagContext False 0)]"

locale x509_laws =
  crypto_laws "xl_crypto X" + codec: vote_der_laws "xl_der X" "xl_oids X" for X :: x509_lib +
  assumes short_form: "(b, t) \<in> set short_tags \<Longrightarrow> length v < 128 \<Longrightarrow>
      tlv_decode (xl_der X) (b # word_of_nat (length v) # v @ rest) = Some (t, v, rest)"
    and oid_known: "s \<in> set known_oids \<Longrightarrow> \<exists>oid. oid_new X s = Some oid \<and> oid_string X oid = s"
    and oid_canonical: "oid_new X s = Some oid \<Longrightarrow> oid_new X (oid_string X oid) = Some oid"
    and cert_roundtrip: "cert_encode X c = Some bs \<Longrightarrow> cert_decode X bs = Some c"
    and base64_roundtrip: "base64_decode X (base64_encode X bs) = Some bs"
    and base64_alphabet: "pem_safe (base64_encode X bs)"
    and generalized_seconds: "generalized_time X n = Some seconds \<Longrightarrow> seconds = n"
    and ca_flag: "basic_constraints_decode X [0x30, 3, 1, 1, 0xFF] = Some \<lparr>bc_ca = True, bc_path_len = None\<rparr>"
    and no_ca_flag: "basic_constraints_decode X [0x30, 0] = Some \<lparr>bc_ca = False, bc_path_len = None\<rparr>"
    and ca_path_length: "p < 128 \<Longrightarrow> basic_constraints_decode X [0x30, 6, 1, 1, 0xFF, 2, 1, p] =
      Some \<lparr>bc_ca = True, bc_path_len = Some (ucast p)\<rparr>"
    and ca_negative_path_length: "128 \<le> p \<Longrightarrow> basic_constraints_decode X [0x30, 6, 1, 1, 0xFF, 2, 1, p] = None"
begin

definition oid_of :: "string \<Rightarrow> x509_oid" where
  "oid_of s = the (oid_new X s)"

lemma oid_of [simp]: "s \<in> set known_oids \<Longrightarrow> oid_new X s = Some (oid_of s)"
  "s \<in> set known_oids \<Longrightarrow> oid_string X (oid_of s) = s"
  using oid_known[of s] by (auto simp: oid_of_def)

lemma oid_of_inject: "s \<in> set known_oids \<Longrightarrow> t \<in> set known_oids \<Longrightarrow> oid_of s = oid_of t \<longleftrightarrow> s = t"
  by (metis oid_of(2))

lemma standard_ids:
  assumes "s \<in> {BASIC_CONSTRAINTS, KEY_USAGE, SUBJECT_KEY_IDENTIFIER, AUTHORITY_KEY_IDENTIFIER}"
    and "t \<in> {BASIC_CONSTRAINTS, KEY_USAGE, SUBJECT_KEY_IDENTIFIER, AUTHORITY_KEY_IDENTIFIER}"
  shows "oid_new X s = Some (oid_of s)" "oid_string X (oid_of s) = s" "oid_of s = oid_of t \<longleftrightarrow> s = t"
proof -
  have k: "s \<in> set known_oids" "t \<in> set known_oids" using assms by (auto simp: known_oids_def)
  show "oid_new X s = Some (oid_of s)" "oid_string X (oid_of s) = s" "oid_of s = oid_of t \<longleftrightarrow> s = t"
    using oid_of[OF k(1)] oid_of_inject[OF k] by simp_all
qed

lemmas standard_id = standard_ids(1,2)[OF _ insertI1]

lemma standard_oids_differ:
  "distinct [BASIC_CONSTRAINTS, KEY_USAGE, SUBJECT_KEY_IDENTIFIER, AUTHORITY_KEY_IDENTIFIER]"
  by (simp add: x509_oids)

lemma pem_text:
  "to_pem X cert = Some pem \<Longrightarrow> cert_encode X cert = Some der \<Longrightarrow>
    certificate_from_str X pem = certificate_try_from X der"
  using pem_roundtrip[OF _ _ base64_roundtrip base64_alphabet] by blast

lemma certificate_accepted:
  assumes "cert_encode X cert = Some der"
  shows "certificate_try_from X der = Inr cert \<longleftrightarrow> validate_rfc5280_compliance X cert = Inr ()"
    and "to_pem X cert = Some pem \<Longrightarrow> certificate_from_str X pem = certificate_try_from X der"
  using assms cert_roundtrip pem_text by (auto simp: certificate_try_from_def)

subsection \<open>Standard extensions\<close>

lemma standard_extensions [simp]:
  "for_basic_constraints X ca p = Some \<lparr>extn_id = oid_of BASIC_CONSTRAINTS, extn_critical = True,
     extn_value = (if ca then (case p of Some n \<Rightarrow> [0x30, 6, 1, 1, 0xFF, 2, 1, n] | None \<Rightarrow> [0x30, 3, 1, 1, 0xFF]) else [0x30, 0])\<rparr>"
  "for_key_usage X bits = Some \<lparr>extn_id = oid_of KEY_USAGE, extn_critical = True, extn_value = [3, 2, 0, ucast bits]\<rparr>"
  "for_subject_key_identifier X key_id = Some \<lparr>extn_id = oid_of SUBJECT_KEY_IDENTIFIER, extn_critical = False,
     extn_value = short_element 0x04 key_id\<rparr>"
  "for_authority_key_identifier X key_id = Some \<lparr>extn_id = oid_of AUTHORITY_KEY_IDENTIFIER, extn_critical = False,
     extn_value = short_element 0x30 (short_element 0x80 key_id)\<rparr>"
  by (auto simp: for_basic_constraints_def for_key_usage_def for_subject_key_identifier_def for_authority_key_identifier_def
      extension_build_def extension_new_def extension_builder_new_def with_oid_def with_critical_def as_critical_def
      as_non_critical_def set_value_def with_basic_constraints_value_def with_key_usage_value_def
      with_subject_key_identifier_value_def with_authority_key_identifier_value_def known_oids_def short_element_def
      split: option.splits)

lemma short_element_length [simp]: "length (short_element t v) = length v + 2"
  by (simp add: short_element_def)

lemma key_identifier_decode:
  "length key_id < 128 \<Longrightarrow> parse_key_identifier X (short_element 0x04 key_id) = Some key_id"
  using short_form[of "0x04" TagOctetString key_id "[]"]
  by (simp add: parse_key_identifier_def short_element_def short_tags_def read_octet_def read_tagged_def der_any_def)

lemma authority_key_identifier_decode:
  assumes "length key_id < 126"
  shows "parse_authority_key_identifier X (short_element 0x30 (short_element 0x80 key_id)) = Some key_id"
proof -
  have o: "tlv_decode (xl_der X) (short_element 0x30 (short_element 0x80 key_id)) = Some (TagSequence, short_element 0x80 key_id, [])"
    using short_form[of "0x30" TagSequence "short_element 0x80 key_id" "[]"] assms
    by (simp add: short_tags_def short_element_def[of "0x30"])
  have i: "tlv_decode (xl_der X) (short_element 0x80 key_id) = Some (TagContext False 0, key_id, [])"
    using short_form[of "0x80" "TagContext False 0" key_id "[]"] assms by (simp add: short_tags_def short_element_def)
  then have "find_key_identifier (Suc (Suc (length key_id))) X (short_element 0x80 key_id) = Some (Some key_id)"
    unfolding short_element_def by simp
  then show ?thesis using o by (simp add: parse_authority_key_identifier_def)
qed

end

section \<open>Built certificates\<close>

text \<open>
  A key pair whose signatures verify: for Ed25519 over the message, for ECDSA over its digest.  The
  public half is what a certificate or an issuer carries.
\<close>

definition signs_for :: "x509_lib \<Rightarrow> raw_signer \<Rightarrow> subject_public_key_info \<Rightarrow> bool" where
  "signs_for X signer key \<longleftrightarrow>
     (let key_oid = oid_string X (ai_oid (spki_algorithm key)); bs = bit_bytes (spki_key key);
          ecdsa = (\<lambda>curve name.
            key_oid = EC_PUBLIC_KEY \<and> map_option (oid_string X) (parameters_oid X (spki_algorithm key)) = Some name \<and>
            ec_key X curve bs \<and>
            (\<forall>m s. sg_sign signer m = Some s \<longrightarrow> length s = 64 \<and> ec_signature X curve s \<and> ec_verify X curve bs m s))
      in case sg_algorithm signer of
           AlgSecp256k1 \<Rightarrow> ecdsa CurveSecp256k1 X_SECP256K1
         | AlgSecp256r1 \<Rightarrow> ecdsa CurveSecp256r1 X_SECP256R1
         | AlgEd25519 \<Rightarrow> key_oid = X_ED25519 \<and> ed_key X bs \<and>
             (\<forall>m s. sg_sign signer m = Some s \<longrightarrow> length s = 64 \<and> ed_verify X bs m s))"

definition tbs_of :: "certificate_builder \<Rightarrow> x509_oid \<Rightarrow> subject_public_key_info \<Rightarrow> x509_extension list \<Rightarrow> x509_tbs" where
  "tbs_of b oid key extensions =
     \<lparr>xt_version = X509V3, xt_serial = the (cbd_serial b), xt_signature_algorithm = \<lparr>ai_oid = oid, ai_parameters = None\<rparr>,
      xt_issuer = the (cbd_issuer_dn b), xt_not_before = nat (the (cbd_valid_from b) div 1000000000),
      xt_not_after = nat (the (cbd_valid_to b) div 1000000000), xt_subject = the (cbd_subject_dn b), xt_public_key = key,
      xt_issuer_unique_id = None, xt_subject_unique_id = None,
      xt_extensions = (if extensions = [] then None else Some extensions)\<rparr>"

context x509_laws
begin

lemma ecdsa_verifies:
  assumes "sg_sign signer (hash_with X hash tbs_der) = Some s" "length s = 64" "ec_signature X curve s"
    "ec_verify X curve key (hash_with X hash tbs_der) s" "ec_key X curve key" "raw_to_der_signature s = Inr signature"
  shows "try_verify_ecdsa X curve key signature tbs_der hash = Inr True"
proof -
  have "der_to_raw_signature signature = Inr s" using raw_signature_roundtrip[OF assms(2)] assms(6) by auto
  then show ?thesis using assms by (simp add: try_verify_ecdsa_def try_verify_ecdsa_generic_def)
qed

lemma signed_certificate_verifies:
  assumes "signature_algorithm_oid (sg_algorithm signer) hash = Inr algorithm"
    and "sign_certificate X signer hash (oid_of algorithm) tbs = Inr cert" and "signs_for X signer key"
  shows "verify_signature X cert key = Inr True"
    and "xc_tbs cert = tbs\<lparr>xt_signature_algorithm := \<lparr>ai_oid = oid_of algorithm, ai_parameters = None\<rparr>\<rparr>"
proof -
  show t: "xc_tbs cert = tbs\<lparr>xt_signature_algorithm := \<lparr>ai_oid = oid_of algorithm, ai_parameters = None\<rparr>\<rparr>"
    using assms(2) by (auto simp: sign_certificate_def Let_def)
  have a: "oid_string X (ai_oid (xc_signature_algorithm cert)) = algorithm"
    using assms(1,2) by (auto simp: sign_certificate_def Let_def signature_algorithm_oid_def known_oids_def
        split: key_algorithm.splits hash_algorithm.splits)
  obtain tbs_der s where s: "tbs_encode X (xc_tbs cert) = Some tbs_der"
    "sg_sign signer (if sg_algorithm signer = AlgEd25519 then tbs_der else hash_with X hash tbs_der) = Some s"
    "if sg_algorithm signer = AlgEd25519 then bit_bytes (xc_signature cert) = s
     else raw_to_der_signature s = Inr (bit_bytes (xc_signature cert))"
    using assms(2) unfolding t by (auto simp: sign_certificate_def Let_def bit_string_from_bytes_def split: if_splits)
  show "verify_signature X cert key = Inr True"
  proof (cases "sg_algorithm signer")
    case AlgEd25519
    then show ?thesis using s a assms(1,3)
      by (auto simp: verify_signature_def Let_def signs_for_def verify_ed25519_signature_def signature_algorithm_oid_def x509_oids)
  next
    case AlgSecp256k1
    then have "try_verify_ecdsa X CurveSecp256k1 (bit_bytes (spki_key key)) (bit_bytes (xc_signature cert)) tbs_der hash = Inr True"
      using s assms(3) by (intro ecdsa_verifies[of signer hash tbs_der s]) (auto simp: signs_for_def Let_def)
    then show ?thesis using AlgSecp256k1 s(1) a assms(1,3)
      by (auto simp: verify_signature_def verify_ecdsa_declared_curve_def Let_def signs_for_def signature_algorithm_oid_def
          x509_oids split: hash_algorithm.splits)
  next
    case AlgSecp256r1
    then have "try_verify_ecdsa X CurveSecp256r1 (bit_bytes (spki_key key)) (bit_bytes (xc_signature cert)) tbs_der hash = Inr True"
      using s assms(3) by (intro ecdsa_verifies[of signer hash tbs_der s]) (auto simp: signs_for_def Let_def)
    then show ?thesis using AlgSecp256r1 s(1) a assms(1,3)
      by (auto simp: verify_signature_def verify_ecdsa_declared_curve_def Let_def signs_for_def signature_algorithm_oid_def
          x509_oids split: hash_algorithm.splits)
  qed
qed

end

section \<open>Extensions of a certificate\<close>

text \<open>
  What \<open>Certificate::try_from\<close> asks of the extensions and the names, said without the certificate:
  each object identifier once, critical extensions of the known ones, a critical basic constraints
  extension where it declares a CA, and names that are not empty unless a critical subject
  alternative name stands for the subject.
\<close>

abbreviation extn_oid :: "x509_lib \<Rightarrow> x509_extension \<Rightarrow> string" where
  "extn_oid X ext \<equiv> oid_string X (extn_id ext)"

definition declares_ca :: "x509_lib \<Rightarrow> x509_extension \<Rightarrow> bool" where
  "declares_ca X ext \<longleftrightarrow> (case basic_constraints_decode X (extn_value ext) of Some bc \<Rightarrow> bc_ca bc | None \<Rightarrow> False)"

definition acceptable_extensions :: "x509_lib \<Rightarrow> x509_extension list \<Rightarrow> bool" where
  "acceptable_extensions X exts \<longleftrightarrow>
     distinct (map (extn_oid X) exts) \<and>
     list_all (\<lambda>ext.
       if extn_critical ext then extn_oid X ext \<in> set known_critical_extensions
       else \<not> (extn_oid X ext = BASIC_CONSTRAINTS \<and> declares_ca X ext)) exts"

definition acceptable_names :: "x509_lib \<Rightarrow> x509_extension list \<Rightarrow> x509_name \<Rightarrow> x509_name \<Rightarrow> bool" where
  "acceptable_names X exts subject issuer \<longleftrightarrow>
     issuer \<noteq> [] \<and> (subject = [] \<longrightarrow> list_ex (\<lambda>ext. extn_oid X ext = SUBJECT_ALT_NAME \<and> extn_critical ext) exts)"

text \<open>An object identifier is the one its text denotes.\<close>

definition canonical_oids :: "x509_lib \<Rightarrow> x509_extension list \<Rightarrow> bool" where
  "canonical_oids X exts \<longleftrightarrow> list_all (\<lambda>ext. oid_new X (extn_oid X ext) = Some (extn_id ext)) exts"

lemma duplicates_fold:
  "try_fold (check_duplicate_step X) seen exts = Inr seen' \<Longrightarrow>
     distinct (map (extn_oid X) exts) \<and> extn_oid X ` set exts \<inter> seen = {}"
  by (induction exts arbitrary: seen) (fastforce simp: check_duplicate_step_def Let_def split: if_splits)+

lemma duplicates_absent:
  assumes "distinct (map (\<lambda>ext. oid_string X (extn_id ext)) exts)"
  shows "check_duplicate_extensions X exts = Inr ()"
proof -
  have "try_fold (check_duplicate_step X) seen exts \<noteq> Inl e"
    if "\<And>ext. ext \<in> set exts \<Longrightarrow> oid_string X (extn_id ext) \<notin> seen" for seen e
    using assms that
  proof (induction exts arbitrary: seen)
    case (Cons ext exts)
    have "oid_string X (extn_id x) \<noteq> oid_string X (extn_id ext)" if "x \<in> set exts" for x
      using Cons.prems(1) that by (auto simp: image_iff)
    then have "try_fold (check_duplicate_step X) (insert (oid_string X (extn_id ext)) seen) exts \<noteq> Inl e"
      using Cons.prems by (intro Cons.IH) auto
    moreover have "check_duplicate_step X seen ext = Inr (insert (oid_string X (extn_id ext)) seen)"
      using Cons.prems by (simp add: check_duplicate_step_def)
    ultimately show ?case by simp
  qed simp
  then obtain seen where "try_fold (check_duplicate_step X) {} exts = Inr seen"
    by (metis empty_iff sum.exhaust)
  then show ?thesis by (simp add: check_duplicate_extensions_def)
qed

lemma duplicates_exact: "check_duplicate_extensions X exts = Inr () \<longleftrightarrow> distinct (map (extn_oid X) exts)"
  using duplicates_absent duplicates_fold[of X "{}" exts] by (fastforce simp: check_duplicate_extensions_def)

lemma find_unique:
  "distinct (map f xs) \<Longrightarrow> x \<in> set xs \<Longrightarrow> f x = k \<Longrightarrow> find (\<lambda>x. f x = k) xs = Some x"
  by (induction xs) (auto simp: image_iff)

context x509_laws
begin

lemma extension_lookup:
  assumes "canonical_oids X exts" and "s \<in> set known_oids" and "distinct (map (extn_oid X) exts)"
    and "xt_extensions (xc_tbs cert) = (if exts = [] then None else Some exts)"
  shows "extension_of X cert s = Some ext \<longleftrightarrow> ext \<in> set exts \<and> extn_oid X ext = s"
proof -
  have same: "extn_id x = oid_of s \<longleftrightarrow> extn_oid X x = s" if "x \<in> set exts" for x
    using assms(1) that oid_of[OF assms(2)] by (auto simp: canonical_oids_def list_all_iff)
  have "extension_of X cert s = find (\<lambda>x. extn_oid X x = s) exts"
    using assms(2,4) same find_cong[OF refl, of exts "\<lambda>x. extn_id x = oid_of s" "\<lambda>x. extn_oid X x = s"]
    by (auto simp: extension_of_def)
  then show ?thesis using find_unique[OF assms(3)] by (auto simp: find_Some_iff in_set_conv_nth)
qed

lemma rfc5280_exact:
  assumes "canonical_oids X exts" and "xt_version (xc_tbs cert) = X509V3"
    and "xt_extensions (xc_tbs cert) = (if exts = [] then None else Some exts)"
  shows "validate_rfc5280_compliance X cert = Inr () \<longleftrightarrow>
    acceptable_extensions X exts \<and> acceptable_names X exts (xt_subject (xc_tbs cert)) (xt_issuer (xc_tbs cert))"
proof (cases "distinct (map (extn_oid X) exts)")
  case True
  note look = extension_lookup[OF assms(1) _ True assms(3)]
  have k: "BASIC_CONSTRAINTS \<in> set known_oids" "SUBJECT_ALT_NAME \<in> set known_oids" by (simp_all add: known_oids_def)
  have "check_basic_constraints_consistency X cert = Inr () \<longleftrightarrow>
      (\<forall>ext \<in> set exts. extn_oid X ext = BASIC_CONSTRAINTS \<longrightarrow> \<not> declares_ca X ext \<or> extn_critical ext)"
    unfolding check_basic_constraints_consistency_def declares_ca_def
    using look[OF k(1)] by (cases "extension_of X cert BASIC_CONSTRAINTS") (force split: option.splits)+
  moreover have "validate_critical_extensions X cert = Inr () \<longleftrightarrow>
      (\<forall>ext \<in> set exts. extn_critical ext \<longrightarrow> extn_oid X ext \<in> set known_critical_extensions)"
    using assms(3) by (auto simp: validate_critical_extensions_def Let_def)
  moreover have "validate_distinguished_names X cert = Inr () \<longleftrightarrow>
      acceptable_names X exts (xt_subject (xc_tbs cert)) (xt_issuer (xc_tbs cert))"
    unfolding validate_distinguished_names_def acceptable_names_def list_ex_iff
    using look[OF k(2)] by (cases "extension_of X cert SUBJECT_ALT_NAME") (auto split: if_splits, metis+)
  moreover have "validate_extension_consistency X cert = Inr () \<longleftrightarrow> check_basic_constraints_consistency X cert = Inr ()"
    using True assms(3) duplicates_exact[of X exts]
    by (auto simp: validate_extension_consistency_def check_basic_constraints_consistency_def extension_of_def)
  ultimately show ?thesis using assms(2) True
    by (auto simp: validate_rfc5280_compliance_def acceptable_extensions_def list_all_iff)
next
  case False
  then have "validate_extension_consistency X cert \<noteq> Inr ()"
    using assms(3) duplicates_exact[of X exts] by (auto simp: validate_extension_consistency_def)
  then show ?thesis using False by (auto simp: validate_rfc5280_compliance_def acceptable_extensions_def)
qed

end

section \<open>The builder\<close>

context x509_laws
begin

lemma der_time_seconds: "der_time_from_datetime X t = Inr n \<Longrightarrow> 0 \<le> t div 1000000000 \<and> n = nat (t div 1000000000)"
  by (auto simp: der_time_from_datetime_def Let_def dest: generalized_seconds split: if_splits)

lemma built_tbs:
  assumes "x509_build_tbs X b = Some (Inr tbs)"
  obtains key key' exts where "cbd_public_key b = Some key" "spki_of_certificate X key = Inr key'"
    "all_extensions X b = Some exts" "tbs = tbs_of b (oid_of SHA256_WITH_RSA) key' exts"
    "cbd_subject_dn b \<noteq> None" "cbd_issuer_dn b \<noteq> None" "cbd_valid_from b \<noteq> None" "cbd_valid_to b \<noteq> None"
proof -
  have "oid_new X SHA256_WITH_RSA = Some (oid_of SHA256_WITH_RSA)" by (simp add: known_oids_def)
  then show thesis using assms that
    by (auto simp: x509_build_tbs_def Let_def tbs_of_def dest!: der_time_seconds split: sum.splits)
qed

lemma built_certificate:
  assumes "build_certificate X signer b = Some (Inr cert)"
  obtains key key' exts algorithm where "cbd_public_key b = Some key" "spki_of_certificate X key = Inr key'"
    "all_extensions X b = Some exts" "xc_tbs cert = tbs_of b (oid_of algorithm) key' exts"
    "cbd_subject_dn b \<noteq> None" "cbd_issuer_dn b \<noteq> None" "cbd_valid_from b \<noteq> None" "cbd_valid_to b \<noteq> None"
    "\<And>issuer_key. signs_for X signer issuer_key \<Longrightarrow> verify_signature X cert issuer_key = Inr True"
proof -
  obtain algorithm tbs where a: "signature_algorithm_oid (sg_algorithm signer) (cbd_signature_hash b) = Inr algorithm"
    and tbs: "x509_build_tbs X b = Some (Inr tbs)"
    and s: "sign_certificate X signer (cbd_signature_hash b) (oid_of algorithm) tbs = Inr cert"
    using assms by (auto simp: build_certificate_def oid_of_def split: sum.splits)
  obtain key key' exts where t: "cbd_public_key b = Some key" "spki_of_certificate X key = Inr key'"
    "all_extensions X b = Some exts" "tbs = tbs_of b (oid_of SHA256_WITH_RSA) key' exts"
    "cbd_subject_dn b \<noteq> None" "cbd_issuer_dn b \<noteq> None" "cbd_valid_from b \<noteq> None" "cbd_valid_to b \<noteq> None"
    using built_tbs[OF tbs] by metis
  have "xc_tbs cert = tbs_of b (oid_of algorithm) key' exts"
    using s t(4) by (auto simp: sign_certificate_def tbs_of_def Let_def)
  then show thesis using that[OF t(1-3) _ t(5-8)] signed_certificate_verifies(1)[OF a s] by blast
qed

lemma common_standard:
  "common_extensions X b = map Some (map the (common_extensions X b))"
  "ext \<in> set (map the (common_extensions X b)) \<Longrightarrow>
     extn_id ext \<in> oid_of ` {BASIC_CONSTRAINTS, KEY_USAGE, SUBJECT_KEY_IDENTIFIER, AUTHORITY_KEY_IDENTIFIER} \<and>
     (extn_critical ext \<longleftrightarrow> extn_id ext \<in> oid_of ` {BASIC_CONSTRAINTS, KEY_USAGE})"
proof -
  have n: "oid_of SUBJECT_KEY_IDENTIFIER \<noteq> oid_of BASIC_CONSTRAINTS" "oid_of SUBJECT_KEY_IDENTIFIER \<noteq> oid_of KEY_USAGE"
    "oid_of AUTHORITY_KEY_IDENTIFIER \<noteq> oid_of BASIC_CONSTRAINTS" "oid_of AUTHORITY_KEY_IDENTIFIER \<noteq> oid_of KEY_USAGE"
    using standard_oids_differ by (auto simp: standard_ids)
  show "common_extensions X b = map Some (map the (common_extensions X b))"
    by (auto simp: common_extensions_def split: option.splits)
  show "ext \<in> set (map the (common_extensions X b)) \<Longrightarrow>
     extn_id ext \<in> oid_of ` {BASIC_CONSTRAINTS, KEY_USAGE, SUBJECT_KEY_IDENTIFIER, AUTHORITY_KEY_IDENTIFIER} \<and>
     (extn_critical ext \<longleftrightarrow> extn_id ext \<in> oid_of ` {BASIC_CONSTRAINTS, KEY_USAGE})"
    using n by (auto simp: common_extensions_def split: option.splits if_splits)
qed

end

section \<open>Extensions of built certificates\<close>

lemma find_filter: "(\<And>x. P x \<Longrightarrow> Q x) \<Longrightarrow> find P (filter Q xs) = find P xs"
  by (induction xs) auto

lemma find_append_none: "(\<And>x. x \<in> set xs \<Longrightarrow> \<not> P x) \<Longrightarrow> find P (xs @ ys) = find P ys"
  by (induction xs) auto

context x509_laws
begin

lemma all_extensions_eq:
  assumes "all_extensions X b = Some exts"
  shows "exts = (if cbd_include_common b
     then cbd_extensions b @ filter (\<lambda>ext. extn_id ext \<notin> extn_id ` set (cbd_extensions b)) (map the (common_extensions X b))
     else cbd_extensions b)"
proof -
  have "None \<notin> set (common_extensions X b)" using common_standard(1)[of b] by (metis ex_map_conv option.distinct(1))
  then show ?thesis using assms by (auto simp: all_extensions_def create_common_extensions_def Let_def split: if_splits)
qed

lemma common_distinct: "distinct (map extn_id (map the (common_extensions X b)))"
  using standard_oids_differ by (auto simp: common_extensions_def standard_ids split: option.splits)

lemma acceptable_append:
  "acceptable_extensions X ys \<Longrightarrow> extn_oid X ` set xs \<inter> extn_oid X ` set ys = {} \<Longrightarrow>
     acceptable_extensions X (xs @ ys) \<longleftrightarrow> acceptable_extensions X xs"
  by (auto simp: acceptable_extensions_def)

lemma acceptable_filter: "acceptable_extensions X xs \<Longrightarrow> acceptable_extensions X (filter Q xs)"
  by (auto simp: acceptable_extensions_def list_all_iff distinct_map_filter)

lemma distinct_oids:
  "distinct (map extn_id xs) \<Longrightarrow> inj_on (oid_string X) (extn_id ` set xs) \<Longrightarrow> distinct (map (extn_oid X) xs)"
  by (induction xs) (auto simp: inj_on_def)

lemma common_canonical:
  "canonical_oids X (filter Q (map the (common_extensions X b)))"
  using common_standard(2)[of _ b] standard_id by (fastforce simp: canonical_oids_def list_all_iff)

lemma common_acceptable: "acceptable_extensions X (filter Q (map the (common_extensions X b)))"
proof -
  let ?common = "map the (common_extensions X b)"
  have known: "if extn_critical ext then extn_oid X ext \<in> set known_critical_extensions
      else \<not> (extn_oid X ext = BASIC_CONSTRAINTS \<and> declares_ca X ext)" if "ext \<in> set ?common" for ext
    using common_standard(2)[OF that] standard_oids_differ
    by (auto simp: known_critical_extensions_def standard_id)
  have "oid_new X (extn_oid X ext) = Some (extn_id ext)" if "ext \<in> set ?common" for ext
    using common_canonical[of "\<lambda>_. True" b] that unfolding canonical_oids_def list_all_iff set_filter by blast
  then have "inj_on (oid_string X) (extn_id ` set ?common)"
    by (intro inj_onI) (metis (no_types, lifting) imageE option.inject)
  then have "distinct (map (extn_oid X) ?common)"
    by (rule distinct_oids[OF common_distinct])
  then have "acceptable_extensions X ?common"
    unfolding acceptable_extensions_def list_all_iff using known by (intro conjI ballI)
  then show ?thesis by (rule acceptable_filter)
qed

text \<open>The common extensions of the builder make no difference to what is accepted.\<close>

lemma built_canonical:
  assumes "all_extensions X b = Some exts" and "canonical_oids X (cbd_extensions b)"
  shows "canonical_oids X exts"
  using all_extensions_eq[OF assms(1)] assms(2) common_canonical by (simp add: canonical_oids_def)

lemma built_acceptable:
  assumes "all_extensions X b = Some exts" and "canonical_oids X (cbd_extensions b)"
  shows "acceptable_extensions X exts \<longleftrightarrow> acceptable_extensions X (cbd_extensions b)"
proof -
  let ?own = "cbd_extensions b" and ?common = "map the (common_extensions X b)"
  let ?added = "filter (\<lambda>ext. extn_id ext \<notin> extn_id ` set ?own) ?common"
  have "extn_oid X ` set ?own \<inter> extn_oid X ` set ?added = {}"
  proof (rule ccontr)
    assume "extn_oid X ` set ?own \<inter> extn_oid X ` set ?added \<noteq> {}"
    then obtain x y where x: "x \<in> set ?own" and y: "y \<in> set ?added" and eq: "extn_oid X x = extn_oid X y" by blast
    have "oid_new X (extn_oid X x) = Some (extn_id x)" "oid_new X (extn_oid X y) = Some (extn_id y)"
      using x y assms(2) common_canonical[of "\<lambda>ext. extn_id ext \<notin> extn_id ` set ?own" b]
      by (auto simp: canonical_oids_def list_all_iff)
    then have "extn_id x = extn_id y" unfolding eq by (metis option.inject)
    moreover have "extn_id y \<notin> extn_id ` set ?own" using y by (simp only: set_filter mem_Collect_eq simp_thms)
    ultimately show False using x by (metis imageI)
  qed
  then have "acceptable_extensions X (?own @ ?added) \<longleftrightarrow> acceptable_extensions X ?own"
    by (rule acceptable_append[OF common_acceptable])
  then show ?thesis using all_extensions_eq[OF assms(1)] by simp
qed

lemma built_names:
  assumes "all_extensions X b = Some exts"
  shows "acceptable_names X exts subject issuer \<longleftrightarrow> acceptable_names X (cbd_extensions b) subject issuer"
proof -
  have "extn_oid X ext \<noteq> SUBJECT_ALT_NAME" if "ext \<in> set (map the (common_extensions X b))" for ext
    using common_standard(2)[OF that] by (auto simp: standard_id x509_oids)
  then show ?thesis using all_extensions_eq[OF assms] by (auto simp: acceptable_names_def list_ex_iff)
qed

lemma built_lookup:
  assumes "all_extensions X b = Some exts" and "cbd_include_common b"
    and "xt_extensions (xc_tbs cert) = (if exts = [] then None else Some exts)"
    and "s \<in> {BASIC_CONSTRAINTS, KEY_USAGE, SUBJECT_KEY_IDENTIFIER, AUTHORITY_KEY_IDENTIFIER}"
    and "\<And>ext. ext \<in> set (cbd_extensions b) \<Longrightarrow> oid_string X (extn_id ext) \<noteq> s"
  shows "extension_of X cert s = find (\<lambda>ext. extn_id ext = oid_of s) (map the (common_extensions X b))"
proof -
  have own: "extn_id ext \<noteq> oid_of s" if "ext \<in> set (cbd_extensions b)" for ext
    using assms(5)[OF that] standard_ids(2)[OF assms(4,4)] by metis
  have "extension_of X cert s = find (\<lambda>ext. extn_id ext = oid_of s) exts"
    using assms(3) standard_ids(1)[OF assms(4,4)] by (simp add: extension_of_def)
  also have "\<dots> = find (\<lambda>ext. extn_id ext = oid_of s) (map the (common_extensions X b))"
    unfolding all_extensions_eq[OF assms(1)] using assms(2) own
    by (subst if_P) (auto simp: find_append_none intro!: find_filter)
  finally show ?thesis .
qed

lemma common_lookup:
  "cbd_is_ca b = Some ca \<Longrightarrow> find (\<lambda>ext. extn_id ext = oid_of BASIC_CONSTRAINTS) (map the (common_extensions X b)) =
     for_basic_constraints X ca None"
  "cbd_public_key b = Some key \<Longrightarrow> find (\<lambda>ext. extn_id ext = oid_of SUBJECT_KEY_IDENTIFIER) (map the (common_extensions X b)) =
     for_subject_key_identifier X (generate_key_identifier X (bit_bytes (spki_key key)))"
  "cbd_public_key b = Some key \<Longrightarrow> cbd_issuer_dn b = Some issuer \<Longrightarrow> cbd_subject_dn b = Some subject \<Longrightarrow>
     find (\<lambda>ext. extn_id ext = oid_of AUTHORITY_KEY_IDENTIFIER) (map the (common_extensions X b)) =
     (if issuer = subject then for_authority_key_identifier X (generate_key_identifier X (bit_bytes (spki_key key))) else None)"
  using standard_oids_differ by (auto simp: common_extensions_def standard_ids split: option.splits)

end

section \<open>Issued and self-signed certificates\<close>

context x509_laws
begin

lemma no_authority_key_identifier:
  assumes "all_extensions X b = Some exts" and "xt_extensions (xc_tbs cert) = (if exts = [] then None else Some exts)"
    and "\<And>ext. ext \<in> set (cbd_extensions b) \<Longrightarrow> oid_string X (extn_id ext) \<noteq> AUTHORITY_KEY_IDENTIFIER"
    and "cbd_public_key b = Some key" and "cbd_issuer_dn b = Some issuer" and "cbd_subject_dn b = Some subject" and "issuer \<noteq> subject"
  shows "extension_of X cert AUTHORITY_KEY_IDENTIFIER = None"
proof (cases "cbd_include_common b")
  case True
  then show ?thesis using built_lookup[OF assms(1) True assms(2) _ assms(3)] common_lookup(3)[OF assms(4-6)] assms(7) by simp
next
  case False
  then have "exts = cbd_extensions b" using all_extensions_eq[OF assms(1)] by simp
  moreover have "extn_id ext \<noteq> oid_of AUTHORITY_KEY_IDENTIFIER" if "ext \<in> set (cbd_extensions b)" for ext
    using assms(3)[OF that] standard_id(2)[of AUTHORITY_KEY_IDENTIFIER] by auto
  ultimately show ?thesis using assms(2) by (auto simp: extension_of_def find_None_iff standard_id)
qed

lemma issued_by:
  assumes "verify_signature X cert key = Inr True" and "to_subject_public_key X issuer = Inr key"
    and "xt_issuer (xc_tbs cert) = xt_subject (xc_tbs issuer)" and "has_valid_authority_key_identifier X cert issuer"
  shows "is_issued_by X cert issuer"
    and "is_valid_at issuer (to_not_before cert) = Inr True \<Longrightarrow> is_valid_issuer_subject_pair X cert issuer = Inr True"
  using assms by (simp_all add: is_issued_by_def is_valid_issuer_subject_pair_def has_matching_issuer_subject_dn_def)

lemma key_differs: "cert_encode X a \<noteq> None \<Longrightarrow> a \<noteq> b \<Longrightarrow> cert_key X a \<noteq> cert_key X b"
  using cert_roundtrip by (auto simp: cert_key_def to_der_def ok_or_def split: option.splits)
    (metis option.inject)

lemma chain_to_root:
  assumes "is_issued_by X cert root" and "\<not> is_self_signed cert" and "is_self_signed root" and "cert_encode X root \<noteq> None"
    and "root \<in> set certs" and "\<And>c. c \<in> set certs \<Longrightarrow> is_issued_by X cert c \<Longrightarrow> c = root \<or> c = cert"
  shows "verify_chain X cert certs = Some [cert, root]"
proof -
  have "root \<noteq> cert" using assms(2,3) by auto
  then have "find (\<lambda>c. c \<noteq> cert \<and> is_issued_by X cert c) certs = Some root"
    using assms(1,5,6) by (induction certs) auto
  moreover have "follow_issuers X cert certs root ks ch = Some ch" for ks ch
    using assms(3) by (simp add: follow_issuers.simps)
  ultimately show ?thesis using assms(2) key_differs[OF assms(4), of cert] \<open>root \<noteq> cert\<close>
    by (simp add: verify_chain_def follow_issuers.simps[of _ _ _ cert])
qed

lemma key_identifiers_match:
  assumes "extension_of X cert AUTHORITY_KEY_IDENTIFIER = for_authority_key_identifier X (generate_key_identifier X key)"
    and "extension_of X issuer SUBJECT_KEY_IDENTIFIER = for_subject_key_identifier X (generate_key_identifier X key)"
  shows "has_valid_authority_key_identifier X cert issuer"
  using assms sha3_length by (simp add: has_valid_authority_key_identifier_def generate_key_identifier_def
      authority_key_identifier_decode key_identifier_decode)

end

context x509_laws
begin

lemma common_no_constraints:
  "cbd_is_ca b = None \<Longrightarrow> find (\<lambda>ext. extn_id ext = oid_of BASIC_CONSTRAINTS) (map the (common_extensions X b)) = None"
  using standard_oids_differ by (auto simp: common_extensions_def standard_ids split: option.splits)

end

end
