(* ===== verification/X509Ref.thy ===== *)
theory X509Ref
  imports X509Laws VoteRef
begin

text \<open>
  An executable instance of \<open>x509_lib\<close>.  Object identifiers are dotted decimal numbers, base64 is
  replaced by hexadecimal digits, the octets of a certificate are its place in a given table of
  certificates, and a signature is made from the message and the key.  It discharges \<open>x509_laws\<close>.
\<close>

section \<open>Object identifiers\<close>

function decimal :: "nat \<Rightarrow> string" where
  "decimal n = (if n < 10 then [hex_char n] else decimal (n div 10) @ [hex_char (n mod 10)])"
  by auto
termination by (relation "measure id") auto

declare decimal.simps [simp del]

lemma decimal_small: "n < 10 \<Longrightarrow> decimal n = [hex_char n]"
  by (simp add: decimal.simps)

lemma decimal_large: "10 \<le> n \<Longrightarrow> decimal n = decimal (n div 10) @ [hex_char (n mod 10)]"
  by (subst decimal.simps) simp

definition of_decimal :: "string \<Rightarrow> nat" where
  "of_decimal s = foldl (\<lambda>n c. 10 * n + the (hex_value c)) 0 s"

definition ref_oid_string :: "x509_oid \<Rightarrow> string" where
  "ref_oid_string oid = dn_join ''.'' (map decimal oid)"

definition ref_oid_new :: "string \<Rightarrow> x509_oid option" where
  "ref_oid_new s =
     (let oid = map of_decimal (split_on (CHR ''.'') [] s) in if ref_oid_string oid = s then Some oid else None)"

lemma ref_oid_known: "list_all (\<lambda>s. ref_oid_new s \<noteq> None) known_oids"
  by (simp add: known_oids_def x509_oids ref_oid_new_def ref_oid_string_def of_decimal_def hex_value_def hex_char_def
      decimal_small decimal_large)

section \<open>Certificates\<close>

definition table_encode :: "x509_certificate list \<Rightarrow> x509_certificate \<Rightarrow> bytes option" where
  "table_encode certs cert =
     (case line_position ((=) cert) certs of
        Some i \<Rightarrow> if i < 256 then Some [0x30, 1, word_of_nat i] else None
      | None \<Rightarrow> None)"

definition table_decode :: "x509_certificate list \<Rightarrow> bytes \<Rightarrow> x509_certificate option" where
  "table_decode certs bs =
     (case bs of
        [t, n, i] \<Rightarrow> if unat i < length certs then Some (certs ! unat i) else None
      | _ \<Rightarrow> None)"

lemma line_position_nth: "line_position P xs = Some i \<Longrightarrow> i < length xs \<and> P (xs ! i)"
  by (induction xs arbitrary: i) (auto split: if_splits)

lemma table_roundtrip: "table_encode certs cert = Some bs \<Longrightarrow> table_decode certs bs = Some cert"
  using line_position_nth[of "(=) cert" certs]
  by (auto simp: table_encode_def table_decode_def unat_of_nat split: option.splits if_splits)

definition ref_basic_constraints :: "bytes \<Rightarrow> basic_constraints option" where
  "ref_basic_constraints bs =
     (if bs = [0x30, 0] then Some \<lparr>bc_ca = False, bc_path_len = None\<rparr>
      else if bs = [0x30, 3, 1, 1, 0xFF] then Some \<lparr>bc_ca = True, bc_path_len = None\<rparr>
      else if length bs = 8 \<and> take 7 bs = [0x30, 6, 1, 1, 0xFF, 2, 1] \<and> last bs < 128
      then Some \<lparr>bc_ca = True, bc_path_len = Some (ucast (last bs))\<rparr> else None)"

definition ref_signature :: "bytes \<Rightarrow> bytes \<Rightarrow> bytes" where
  "ref_signature key m = take 64 (m @ key @ replicate 64 0)"

definition ref_x509 :: "x509_certificate list \<Rightarrow> x509_lib" where
  "ref_x509 certs =
     \<lparr>xl_crypto = ref_lib, xl_der = ref_der, xl_oids = ref_oid, sha2_256 = ref_hash, sha2_512 = (\<lambda>bs. ref_hash bs @ ref_hash bs),
      oid_new = ref_oid_new, oid_string = ref_oid_string, tbs_encode = (\<lambda>tbs. Some (xt_serial tbs)),
      cert_encode = table_encode certs, cert_decode = table_decode certs, basic_constraints_decode = ref_basic_constraints,
      base64_encode = ref_hex_encode, base64_decode = ref_hex_decode, generalized_time = Some,
      ec_key = (\<lambda>_ _. True), ec_signature = (\<lambda>_ _. True), ec_verify = (\<lambda>_ key m s. s = ref_signature key m),
      ed_key = (\<lambda>_. True), ed_verify = (\<lambda>key m s. s = ref_signature key m)\<rparr>"

lemma ref_x509_sel [simp]:
  "xl_crypto (ref_x509 certs) = ref_lib" "xl_der (ref_x509 certs) = ref_der" "xl_oids (ref_x509 certs) = ref_oid"
  "oid_new (ref_x509 certs) = ref_oid_new" "oid_string (ref_x509 certs) = ref_oid_string"
  "cert_encode (ref_x509 certs) = table_encode certs" "cert_decode (ref_x509 certs) = table_decode certs"
  "basic_constraints_decode (ref_x509 certs) = ref_basic_constraints" "base64_encode (ref_x509 certs) = ref_hex_encode"
  "base64_decode (ref_x509 certs) = ref_hex_decode" "generalized_time (ref_x509 certs) = Some"
  "tbs_encode (ref_x509 certs) tbs = Some (xt_serial tbs)" "ec_key (ref_x509 certs) curve k" "ed_key (ref_x509 certs) k"
  "ec_signature (ref_x509 certs) curve s" "ec_verify (ref_x509 certs) curve k m s \<longleftrightarrow> s = ref_signature k m"
  "ed_verify (ref_x509 certs) k m s \<longleftrightarrow> s = ref_signature k m"
  by (simp_all add: ref_x509_def)

lemma ref_signature_length [simp]: "length (ref_signature k m) = 64"
  by (simp add: ref_signature_def)

lemma hex_text_safe: "pem_safe (ref_hex_encode bs)"
proof -
  have "set (ref_hex_encode bs) \<subseteq> set ''0123456789abcdef''"
  proof
    fix c assume "c \<in> set (ref_hex_encode bs)"
    then obtain b where "c = hex_char (unat b div 16) \<or> c = hex_char (unat (b :: byte) mod 16)"
      by (auto simp: ref_hex_encode_def)
    moreover have "unat b div 16 < 16" using byte_unat_less[of b] by linarith
    ultimately obtain n where "c = ''0123456789abcdef'' ! n" "n < length ''0123456789abcdef''"
      by (auto simp: hex_char_def)
    then show "c \<in> set ''0123456789abcdef''" using nth_mem by blast
  qed
  then show ?thesis by (auto simp: pem_safe_def)
qed

lemma ref_short_form:
  assumes "(b, t) \<in> set short_tags" and "length v < 128"
  shows "ref_tlv_decode (b # word_of_nat (length v) # v @ rest) = Some (t, v, rest)"
proof -
  have "unat (word_of_nat (length v) :: byte) = length v" using assms(2) by (simp add: unat_of_nat)
  moreover have "ref_octet_tag b = t" using assms(1) by (auto simp: short_tags_def ref_octet_tag_def)
  ultimately show ?thesis using assms(2) by (simp add: ref_tlv_decode_def ref_len_decode_def)
qed

interpretation refx: x509_laws "ref_x509 certs" for certs
proof (intro x509_laws.intro)
  show "crypto_laws (xl_crypto (ref_x509 certs))" using ref.crypto_laws_axioms by simp
  show "vote_der_laws (xl_der (ref_x509 certs)) (xl_oids (ref_x509 certs))" using refvd.vote_der_laws_axioms by simp
  have known: "\<exists>oid. ref_oid_new s = Some oid \<and> ref_oid_string oid = s" if "s \<in> set known_oids" for s
    using ref_oid_known that by (auto simp: list_all_iff ref_oid_new_def Let_def split: if_splits)
  have canonical: "ref_oid_new (ref_oid_string oid) = Some oid" if "ref_oid_new s = Some oid" for s oid
    using that by (auto simp: ref_oid_new_def Let_def split: if_splits)
  show "x509_laws_axioms (ref_x509 certs)"
    using known canonical
    by unfold_locales
      (auto simp: ref_short_form table_roundtrip ref_hex_roundtrip hex_text_safe ref_basic_constraints_def not_less)
qed

end
