(* ===== verification/X509Props.thy ===== *)
theory X509Props
  imports X509Ref
begin

text \<open>
  Properties of certificates: the graph check and chain building, the ECDSA signature codec, and
  certificates that the builder signs.
\<close>

section \<open>Sample certificates\<close>

definition sample_name :: "byte \<Rightarrow> x509_name" where
  "sample_name b = [[\<lparr>xa_oid = [2, 5, 4, 3], xa_value = \<lparr>any_tag = TagIa5String, any_bytes = [b]\<rparr>\<rparr>]]"

definition ed_oid :: x509_oid where
  "ed_oid = [1, 3, 101, 112]"

definition ed_algorithm :: algorithm_identifier where
  "ed_algorithm = \<lparr>ai_oid = ed_oid, ai_parameters = None\<rparr>"

definition sample_cert :: "byte \<Rightarrow> byte \<Rightarrow> x509_certificate" where
  "sample_cert issuer subject =
     \<lparr>xc_tbs =
        \<lparr>xt_version = X509V3, xt_serial = [subject], xt_signature_algorithm = ed_algorithm, xt_issuer = sample_name issuer,
         xt_not_before = 0, xt_not_after = 1000, xt_subject = sample_name subject,
         xt_public_key = \<lparr>spki_algorithm = ed_algorithm, spki_key = bit_string_from_bytes [7]\<rparr>,
         xt_issuer_unique_id = None, xt_subject_unique_id = None, xt_extensions = None\<rparr>,
      xc_signature_algorithm = ed_algorithm, xc_signature = bit_string_from_bytes (ref_signature [7] [subject])\<rparr>"

lemma ref_ed_oid [simp]:
  "ref_oid_string ed_oid = X_ED25519" "ref_oid_new X_ED25519 = Some ed_oid"
  by (simp_all add: ed_oid_def x509_oids ref_oid_new_def ref_oid_string_def of_decimal_def hex_value_def hex_char_def
      decimal_small decimal_large)

lemma oids_differ: "X_ED25519 \<noteq> ECDSA_WITH_SHA3_256" "X_ED25519 \<noteq> ECDSA_WITH_SHA256"
  by (simp_all add: x509_oids)

lemma sample_issued [simp]:
  "is_issued_by (ref_x509 certs) (sample_cert i s) (sample_cert i' s') \<longleftrightarrow> i = s'"
proof -
  have "verify_signature (ref_x509 certs) (sample_cert i s) \<lparr>spki_algorithm = ed_algorithm, spki_key = bit_string_from_bytes [7]\<rparr> = Inr True"
    using oids_differ
    by (simp add: verify_signature_def sample_cert_def ed_algorithm_def bit_string_from_bytes_def verify_ed25519_signature_def)
  moreover have "to_subject_public_key (ref_x509 certs) (sample_cert i' s') =
      Inr \<lparr>spki_algorithm = ed_algorithm, spki_key = bit_string_from_bytes [7]\<rparr>"
    by (simp add: to_subject_public_key_def spki_of_certificate_def spki_try_from_def algorithm_identifier_try_from_def
        sample_cert_def ed_algorithm_def bit_string_from_bytes_def)
  ultimately show ?thesis
    by (simp add: is_issued_by_def has_matching_issuer_subject_dn_def has_valid_authority_key_identifier_def extension_of_def
        sample_cert_def sample_name_def)
qed

lemma sample_self_signed [simp]: "is_self_signed (sample_cert i s) \<longleftrightarrow> i = s"
  by (simp add: is_self_signed_def sample_cert_def sample_name_def)

lemma sample_eq [simp]: "sample_cert i s = sample_cert i' s' \<longleftrightarrow> i = i' \<and> s = s'"
  by (auto simp: sample_cert_def sample_name_def)

section \<open>The graph check\<close>

lemma table_encoded: "c \<in> set certs \<Longrightarrow> length certs \<le> 256 \<Longrightarrow> table_encode certs c \<noteq> None"
proof -
  assume c: "c \<in> set certs" "length certs \<le> 256"
  have "line_position ((=) c) certs \<noteq> None" using c(1) by (induction certs) auto
  then show ?thesis using c(2) line_position_nth[of "(=) c" certs] by (fastforce simp: table_encode_def)
qed

lemma sample_graph:
  "valid_graph (ref_x509 [sample_cert 1 2, sample_cert 1 1]) (sample_cert 1 2) [sample_cert 1 1]"
proof -
  have "issues (sample_cert 1 2) [sample_cert 1 1] = {}" by (auto simp: issues_def)
  moreover have "(sample_cert 1 2, sample_cert 1 1) \<in> connects [sample_cert 1 1]"
    by (simp add: connects_def adjacent_def sample_cert_def)
  moreover have "\<exists>h. certificate_hash_try_from (ref_x509 [sample_cert 1 2, sample_cert 1 1]) (sample_cert 1 1) = Inr h"
    using table_encoded[of "sample_cert 1 1" "[sample_cert 1 2, sample_cert 1 1]"]
    by (auto simp: certificate_hash_try_from_def to_der_def)
  ultimately show ?thesis by (auto simp: valid_graph_def acyclic_def)
qed

text \<open>C21: the graph check always returns, and accepts exactly the sets of at most ten certificates with
  distinct hashes, in which every certificate is connected by names to the subject certificate and no
  chain of issuing, self-signed certificates aside, leads back to its start.
\<close>
theorem graph_check_exact:
  assumes "\<And>c bs. cert_encode X c = Some bs \<Longrightarrow> cert_decode X bs = Some c" and "cert_encode X self \<noteq> None"
  shows "assert_can_construct_valid_graph X self certs \<noteq> None \<and>
    (assert_can_construct_valid_graph X self certs = Some (Inr ()) \<longleftrightarrow>
      length certs \<le> 10 \<and>
      (\<exists>hs. traverse (certificate_hash_try_from X) certs = Inr hs \<and> distinct hs) \<and>
      (\<forall>c \<in> set certs. c = self \<or> (self, c) \<in> (connects certs)\<^sup>+) \<and>
      acyclic (issues self certs))"
  using graph_check_cases[OF assms, of certs] unfolding valid_graph_def by auto

theorem graph_check_exact_witness:
  "assert_can_construct_valid_graph (ref_x509 [sample_cert 1 2, sample_cert 1 1]) (sample_cert 1 2) [sample_cert 1 1] = Some (Inr ())"
proof -
  have "cert_encode (ref_x509 [sample_cert 1 2, sample_cert 1 1]) (sample_cert 1 2) \<noteq> None" by (simp add: table_encoded)
  from graph_check_exact[OF refx.cert_roundtrip this] show ?thesis using sample_graph unfolding valid_graph_def by blast
qed

text \<open>C22: within a set that passes the graph check, chain building returns.  The chain starts at the
  certificate, has no repetitions, each certificate in it is issued by the next (name, key identifier
  and signature), and it ends at a self-signed certificate or at one whose issuer is not at hand.
\<close>
theorem valid_graph_has_chain:
  assumes "\<And>c bs. cert_encode X c = Some bs \<Longrightarrow> cert_decode X bs = Some c" and "cert_encode X self \<noteq> None"
    and "assert_can_construct_valid_graph X self certs = Some (Inr ())"
  shows "\<exists>chain. verify_chain X self certs = Some chain \<and> chain \<noteq> [] \<and> hd chain = self \<and> distinct chain \<and>
    (\<forall>i. Suc i < length chain \<longrightarrow> chain ! Suc i \<in> set certs \<and> is_issued_by X (chain ! i) (chain ! Suc i)) \<and>
    (is_self_signed (last chain) \<or> (\<forall>c \<in> set certs. c \<noteq> self \<longrightarrow> \<not> is_issued_by X (last chain) c))"
proof -
  have v: "valid_graph X self certs" using graph_check_cases[OF assms(1,2), of certs] assms(3) by auto
  then have "\<And>c. c \<in> set certs \<Longrightarrow> cert_encode X c \<noteq> None" using hashes_encoded by (auto simp: valid_graph_def)
  then have k: "keyed X self certs" using encoded_keyed[OF assms(1,2)] by blast
  have "issuer_chain X self certs [self]" by (simp add: issuer_chain_def)
  from follow_chain[OF k this] v obtain chain where c: "verify_chain X self certs = Some chain"
    "issuer_chain X self certs chain" "next_issuer X self certs (last chain) = None"
    by (auto simp: verify_chain_def valid_graph_def split: option.splits)
  have "chain ! Suc i \<in> set certs \<and> is_issued_by X (chain ! i) (chain ! Suc i)" if "Suc i < length chain" for i
    using c(2) that next_issuer_ok by (fastforce simp: issuer_chain_def)
  moreover have "is_self_signed (last chain) \<or> (\<forall>c \<in> set certs. c \<noteq> self \<longrightarrow> \<not> is_issued_by X (last chain) c)"
    using c(3) by (auto simp: next_issuer_def find_None_iff split: if_splits)
  ultimately show ?thesis using c(1,2) by (auto simp: issuer_chain_def)
qed

theorem valid_graph_has_chain_witness:
  "\<exists>chain. verify_chain (ref_x509 [sample_cert 1 2, sample_cert 1 1]) (sample_cert 1 2) [sample_cert 1 1] = Some chain \<and>
    hd chain = sample_cert 1 2 \<and> distinct chain"
proof -
  let ?X = "ref_x509 [sample_cert 1 2, sample_cert 1 1]"
  have e: "cert_encode ?X (sample_cert 1 2) \<noteq> None" by (simp add: table_encoded)
  have "assert_can_construct_valid_graph ?X (sample_cert 1 2) [sample_cert 1 1] = Some (Inr ())"
    using graph_check_cases[OF refx.cert_roundtrip e, of "[sample_cert 1 1]"] sample_graph by auto
  from valid_graph_has_chain[OF refx.cert_roundtrip e this] show ?thesis by blast
qed

text \<open>C23: chain building may never return: when the issuer of a certificate and another certificate
  issue each other, the walk goes around them forever.  The graph check rejects such a set.
\<close>
theorem verify_chain_may_never_return:
  "\<exists>X self certs. x509_laws X \<and> length certs \<le> 10 \<and> verify_chain X self certs = None \<and>
    assert_can_construct_valid_graph X self certs \<noteq> Some (Inr ())"
proof -
  let ?a = "sample_cert 2 1" and ?b = "sample_cert 3 2" and ?c = "sample_cert 2 3"
  let ?X = "ref_x509 [?a, ?b, ?c]"
  have "next_issuer ?X ?a [?b, ?c] ?b = Some ?c" "next_issuer ?X ?a [?b, ?c] ?c = Some ?b"
    "next_issuer ?X ?a [?b, ?c] ?a = Some ?b"
    by (simp_all add: next_issuer_def)
  then have "follow_issuers ?X ?a [?b, ?c] ?a {cert_key ?X ?a} [?a] = None"
    by (intro follow_loops[where C = "{?a, ?b, ?c}"]) auto
  moreover have "\<not> acyclic (issues ?a [?b, ?c])"
  proof -
    have "(?b, ?c) \<in> issues ?a [?b, ?c]" "(?c, ?b) \<in> issues ?a [?b, ?c]"
      by (simp_all add: issues_def graph_nodes_def) (simp_all add: sample_cert_def)
    then show ?thesis by (meson acyclic_def trancl.intros)
  qed
  moreover have "cert_encode ?X ?a \<noteq> None" by (simp add: table_encoded)
  ultimately have "verify_chain ?X ?a [?b, ?c] = None \<and> assert_can_construct_valid_graph ?X ?a [?b, ?c] \<noteq> Some (Inr ())"
    using graph_check_cases[of ?X ?a "[?b, ?c]", OF refx.cert_roundtrip] by (auto simp: verify_chain_def valid_graph_def)
  moreover have "x509_laws ?X" by (rule refx.x509_laws_axioms)
  ultimately show ?thesis by (intro exI[of _ ?X] exI[of _ ?a] exI[of _ "[?b, ?c]"]) auto
qed

section \<open>ECDSA signatures\<close>

text \<open>The two 32-octet numbers of an ECDSA signature are read back from the DER form that is written
  for them, leading zeros and sign octets included; octets after the signature do not matter.
\<close>
theorem ecdsa_signature_roundtrip:
  assumes "length r = 32" and "length s = 32"
  shows "parse_der_ecdsa_signature (encode_ecdsa_signature_to_der r s @ trailing) = Inr (r, s)"
  using ecdsa_parse_encode[OF assms] .

theorem ecdsa_signature_roundtrip_witness:
  "parse_der_ecdsa_signature (encode_ecdsa_signature_to_der (replicate 31 0 @ [0x80]) (replicate 32 0xFF) @ [1, 2]) =
    Inr (replicate 31 0 @ [0x80], replicate 32 0xFF)"
  using ecdsa_signature_roundtrip[of "replicate 31 0 @ [0x80]" "replicate 32 0xFF" "[1, 2]"] by simp

section \<open>Built certificates\<close>

text \<open>C20: reading back a certificate that the builder signed.  It is accepted from its DER octets, and
  from its PEM text, as the same certificate exactly when the caller's own extensions each have an
  object identifier of their own, are of the known ones when critical, are critical when they are
  basic constraints of a CA, and the issuer name is not empty nor the subject name without a critical
  subject alternative name.  The extensions that the builder adds by itself never matter.  Object
  identifiers are those that their texts denote.
\<close>
theorem built_certificate_reparsed:
  assumes "x509_laws X" and "build_certificate X signer b = Some (Inr cert)" and "canonical_oids X (cbd_extensions b)"
    and "cbd_subject_dn b = Some subject" and "cbd_issuer_dn b = Some issuer"
    and "to_der X cert = Inr der" and "to_pem X cert = Some pem"
  shows "(certificate_try_from X der = Inr cert \<longleftrightarrow>
      acceptable_extensions X (cbd_extensions b) \<and> acceptable_names X (cbd_extensions b) subject issuer) \<and>
    certificate_from_str X pem = certificate_try_from X der"
proof -
  obtain key' exts algorithm where t: "all_extensions X b = Some exts"
    "xc_tbs cert = tbs_of b (x509_laws.oid_of X algorithm) key' exts"
    using x509_laws.built_certificate[OF assms(1,2)] by metis
  have "cert_encode X cert = Some der" using assms(6) by (simp add: to_der_def)
  note accepted = x509_laws.certificate_accepted[OF assms(1) this]
  have "validate_rfc5280_compliance X cert = Inr () \<longleftrightarrow>
      acceptable_extensions X (cbd_extensions b) \<and> acceptable_names X (cbd_extensions b) subject issuer"
    using x509_laws.rfc5280_exact[OF assms(1) x509_laws.built_canonical[OF assms(1) t(1) assms(3)], of cert] t(2) assms(4,5)
      x509_laws.built_acceptable[OF assms(1) t(1) assms(3)] x509_laws.built_names[OF assms(1) t(1)]
    by (simp add: tbs_of_def)
  then show ?thesis using accepted(1) accepted(2)[OF assms(7)] by simp
qed

text \<open>In particular a builder that is given an extension twice, as the quick start of
  \<open>x509/src/builder.rs\<close> does, signs a certificate that cannot be read back.
\<close>

lemma repeated_extension_refused: "\<not> acceptable_extensions X (ext # exts @ ext' # exts')" if "extn_id ext = extn_id ext'"
  using that by (simp add: acceptable_extensions_def)

text \<open>C19: the builder signs, with the key of a self-signed certificate, a certificate of another subject,
  under the root's name and at a time at which the root is valid; the caller gives no authority key
  identifier of its own.  Then the path to the root is valid.  In a collection that holds the root and
  no other issuer of the certificate, chain building finds that path, and the certificate is trusted at
  every time at which it is valid.
\<close>
theorem issued_certificate_trusted:
  assumes "x509_laws X" and "build_certificate X signer b = Some (Inr cert)"
    and "is_self_signed root" and "to_subject_public_key X root = Inr key" and "signs_for X signer key"
    and "cbd_issuer_dn b = Some (xt_subject (xc_tbs root))" and "cbd_subject_dn b \<noteq> cbd_issuer_dn b"
    and "\<forall>ext \<in> set (cbd_extensions b). oid_string X (extn_id ext) \<noteq> AUTHORITY_KEY_IDENTIFIER"
    and "is_valid_at root (to_not_before cert) = Inr True" and "cert_encode X root \<noteq> None"
    and "root \<in> set certs" and "\<forall>c \<in> set certs. is_issued_by X cert c \<longrightarrow> c \<in> {root, cert}"
  shows "validate_certificate_path X cert [cert, root] = Inr True \<and> verify_chain X cert certs = Some [cert, root] \<and>
    (is_valid_at cert t = Inr True \<longrightarrow> cert_is_trusted X now cert certs (Some t) = Some True)"
proof -
  from assms(2) obtain subject_key key' exts algorithm where t: "cbd_public_key b = Some subject_key" "all_extensions X b = Some exts"
    "xc_tbs cert = tbs_of b (x509_laws.oid_of X algorithm) key' exts" "cbd_subject_dn b \<noteq> None"
    "verify_signature X cert key = Inr True"
    using x509_laws.built_certificate[OF assms(1), of signer b cert] assms(5) by metis
  then obtain subject where s: "cbd_subject_dn b = Some subject" by blast
  have "extension_of X cert AUTHORITY_KEY_IDENTIFIER = None"
    using x509_laws.no_authority_key_identifier[OF assms(1) t(2) _ _ t(1) assms(6) s, of cert] t(3) assms(6-8) s
    by (auto simp: tbs_of_def)
  then have "has_valid_authority_key_identifier X cert root" by (simp add: has_valid_authority_key_identifier_def)
  moreover have n: "xt_issuer (xc_tbs cert) = xt_subject (xc_tbs root)" using t(3) assms(6) by (simp add: tbs_of_def)
  ultimately have i: "is_issued_by X cert root" "is_valid_issuer_subject_pair X cert root = Inr True"
    using x509_laws.issued_by[OF assms(1) t(5) assms(4)] assms(9) by blast+
  have "\<not> is_self_signed cert" using t(3) s assms(6,7) by (auto simp: is_self_signed_def tbs_of_def)
  then have "verify_chain X cert certs = Some [cert, root]"
    using x509_laws.chain_to_root[OF assms(1) i(1) _ assms(3,10,11)] assms(12) by blast
  then show ?thesis using i(2) assms(3,11) by (simp add: validate_certificate_path_def cert_is_trusted_def)
qed

text \<open>A self-signed certificate that the builder signs with its own key is valid as its own issuer, key
  identifiers included, and it is a CA certificate exactly when the builder was asked for one.
\<close>
theorem self_signed_certificate_valid:
  assumes "x509_laws X" and "build_certificate X signer b = Some (Inr cert)" and "cbd_issuer_dn b = cbd_subject_dn b"
    and "cbd_public_key b = Some key" and "spki_of_certificate X key = Inr key" and "signs_for X signer key"
    and "cbd_include_common b"
    and "\<forall>ext \<in> set (cbd_extensions b). oid_string X (extn_id ext) \<notin>
      {BASIC_CONSTRAINTS, SUBJECT_KEY_IDENTIFIER, AUTHORITY_KEY_IDENTIFIER}"
    and "to_not_before cert \<le> to_not_after cert"
  shows "is_self_signed cert \<and> is_valid_issuer_subject_pair X cert cert = Inr True \<and>
    (is_ca X cert \<longleftrightarrow> cbd_is_ca b = Some True)"
proof -
  from assms(2) obtain exts algorithm where t: "all_extensions X b = Some exts" "cbd_subject_dn b \<noteq> None"
    "xc_tbs cert = tbs_of b (x509_laws.oid_of X algorithm) key exts" "verify_signature X cert key = Inr True"
    using x509_laws.built_certificate[OF assms(1), of signer b cert] assms(4-6) by (metis option.inject sum.inject(2))
  then obtain subject where s: "cbd_subject_dn b = Some subject" by blast
  have x: "xt_extensions (xc_tbs cert) = (if exts = [] then None else Some exts)" using t(3) by (simp add: tbs_of_def)
  note lookup = x509_laws.built_lookup[OF assms(1) t(1) assms(7) x]
  have "has_valid_authority_key_identifier X cert cert"
    using lookup[of AUTHORITY_KEY_IDENTIFIER] lookup[of SUBJECT_KEY_IDENTIFIER] assms(3,8) s
      x509_laws.common_lookup(2)[OF assms(1,4)] x509_laws.common_lookup(3)[OF assms(1,4)]
    by (intro x509_laws.key_identifiers_match[OF assms(1), where key = "bit_bytes (spki_key key)"]) auto
  moreover have n: "xt_issuer (xc_tbs cert) = xt_subject (xc_tbs cert)" using t(3) assms(3) by (simp add: tbs_of_def)
  moreover have "to_subject_public_key X cert = Inr key" using t(3) assms(5) by (simp add: to_subject_public_key_def tbs_of_def)
  moreover have "is_valid_at cert (to_not_before cert) = Inr True" using assms(9) by (simp add: is_valid_at_def)
  ultimately have "is_valid_issuer_subject_pair X cert cert = Inr True" using x509_laws.issued_by(2)[OF assms(1) t(4)] by blast
  moreover have "extension_of X cert BASIC_CONSTRAINTS = Option.bind (cbd_is_ca b) (\<lambda>ca. for_basic_constraints X ca None)"
    using lookup[of BASIC_CONSTRAINTS] assms(8) x509_laws.common_lookup(1)[OF assms(1)]
      x509_laws.common_no_constraints[OF assms(1), of b] by (cases "cbd_is_ca b") auto
  then have "is_ca X cert \<longleftrightarrow> cbd_is_ca b = Some True"
    using x509_laws.ca_flag[OF assms(1)] x509_laws.no_ca_flag[OF assms(1)]
    by (cases "cbd_is_ca b") (auto simp: is_ca_def x509_laws.standard_extensions[OF assms(1)])
  ultimately show ?thesis using n by (simp add: is_self_signed_def)
qed

text \<open>A path length of 128 or more is written as one octet, a negative number: the basic constraints
  of such an extension are not read back, and the certificate that carries it is not a CA certificate.
\<close>
theorem ca_path_length_lost:
  assumes "x509_laws X" and "for_basic_constraints X True (Some n) = Some ext"
    and "xt_extensions (xc_tbs cert) = Some (ext # exts)"
  shows "is_ca X cert \<longleftrightarrow> n < 128"
proof -
  have e: "ext = \<lparr>extn_id = x509_laws.oid_of X BASIC_CONSTRAINTS, extn_critical = True,
      extn_value = [0x30, 6, 1, 1, 0xFF, 2, 1, n]\<rparr>"
    using assms(2) by (simp add: x509_laws.standard_extensions[OF assms(1)])
  then have "extension_of X cert BASIC_CONSTRAINTS = Some ext"
    using assms(3) x509_laws.standard_id(1)[OF assms(1), of BASIC_CONSTRAINTS] by (simp add: extension_of_def)
  then show ?thesis using x509_laws.ca_path_length[OF assms(1), of n] x509_laws.ca_negative_path_length[OF assms(1), of n]
    by (cases "n < 128") (auto simp: is_ca_def e not_less)
qed

section \<open>Sample builders\<close>

definition ref_oid_at :: "string \<Rightarrow> x509_oid" where
  "ref_oid_at s = the (ref_oid_new s)"

definition ec_parameters :: der_value where
  "ec_parameters = \<lparr>any_tag = TagOid, any_bytes = [0x2B, 0x81, 0x04, 0x00, 0x0A]\<rparr>"

definition sample_key :: subject_public_key_info where
  "sample_key = \<lparr>spki_algorithm = \<lparr>ai_oid = ref_oid_at EC_PUBLIC_KEY, ai_parameters = Some ec_parameters\<rparr>,
     spki_key = bit_string_from_bytes (2 # replicate 32 5)\<rparr>"

definition sample_signer :: raw_signer where
  "sample_signer = \<lparr>sg_algorithm = AlgSecp256k1, sg_sign = (\<lambda>m. Some (ref_signature (2 # replicate 32 5) m))\<rparr>"

definition sample_builder :: "byte \<Rightarrow> byte \<Rightarrow> certificate_builder" where
  "sample_builder issuer subject =
     with_is_ca (issuer = subject) (with_subject_public_key sample_key (with_subject_dn (sample_name subject)
       (with_issuer_dn (sample_name issuer) (with_validity 0 5000000000 (with_serial_number [subject] certificate_builder_new)))))"

lemma sample_builder_sel [simp]:
  "cbd_public_key (sample_builder i s) = Some sample_key" "cbd_subject_dn (sample_builder i s) = Some (sample_name s)"
  "cbd_issuer_dn (sample_builder i s) = Some (sample_name i)" "cbd_valid_from (sample_builder i s) = Some 0"
  "cbd_valid_to (sample_builder i s) = Some 5000000000" "cbd_serial (sample_builder i s) = Some [s]"
  "cbd_is_ca (sample_builder i s) = Some (i = s)" "cbd_include_common (sample_builder i s)"
  "cbd_extensions (sample_builder i s) = []" "cbd_signature_hash (sample_builder i s) = Sha3_256"
  by (simp_all add: sample_builder_def with_is_ca_def with_subject_public_key_def with_subject_dn_def with_issuer_dn_def
      with_validity_def with_serial_number_def certificate_builder_new_def)

lemma ref_oid_of: "refx.oid_of certs s = ref_oid_at s"
  by (simp add: refx.oid_of_def ref_oid_at_def)

lemma ref_oids [simp]:
  "ref_oid_new EC_PUBLIC_KEY = Some (ref_oid_at EC_PUBLIC_KEY)" "ref_oid_string (ref_oid_at EC_PUBLIC_KEY) = EC_PUBLIC_KEY"
  "ref_oid_new SHA256_WITH_RSA = Some (ref_oid_at SHA256_WITH_RSA)"
  "ref_oid_new ECDSA_WITH_SHA3_256 = Some (ref_oid_at ECDSA_WITH_SHA3_256)"
  using refx.oid_of(1)[of EC_PUBLIC_KEY] refx.oid_of(2)[of EC_PUBLIC_KEY] refx.oid_of(1)[of SHA256_WITH_RSA]
    refx.oid_of(1)[of ECDSA_WITH_SHA3_256]
  by (simp_all add: ref_oid_of known_oids_def)

lemma sample_key_canonical [simp]: "spki_of_certificate (ref_x509 certs) sample_key = Inr sample_key"
  by (simp add: spki_of_certificate_def spki_try_from_def algorithm_identifier_try_from_def sample_key_def bit_string_from_bytes_def)

lemma sample_signs: "signs_for (ref_x509 certs) sample_signer sample_key"
proof -
  have "parameters_oid (ref_x509 certs) (spki_algorithm sample_key) = Some [1, 3, 132, 0, 10]"
    by (simp add: parameters_oid_def sample_key_def ec_parameters_def ref_oid_def ref_oid_of_der_def)
  moreover have "ref_oid_string [1, 3, 132, 0, 10] = X_SECP256K1"
    by (simp add: X_SECP256K1_def ref_oid_string_def hex_char_def decimal_small decimal_large)
  ultimately show ?thesis
    by (auto simp: signs_for_def sample_signer_def) (simp_all add: sample_key_def bit_string_from_bytes_def)
qed

lemma sample_build:
  "\<exists>cert. \<forall>certs. build_certificate (ref_x509 certs) sample_signer (sample_builder i s) = Some (Inr cert)"
proof -
  let ?b = "sample_builder i s"
  let ?exts = "map the (common_extensions (ref_x509 []) ?b)"
  have c: "common_extensions (ref_x509 certs) ?b = common_extensions (ref_x509 []) ?b" for certs
    by (simp add: common_extensions_def ref_oid_of generate_key_identifier_def)
  have e: "all_extensions (ref_x509 certs) ?b = Some ?exts" for certs
  proof -
    have "None \<notin> set (common_extensions (ref_x509 []) ?b)" using refx.common_standard(1)[of "[]" ?b] by (metis ex_map_conv option.distinct(1))
    then show ?thesis using c[of certs] by (simp add: all_extensions_def create_common_extensions_def)
  qed
  show ?thesis
    by (simp add: build_certificate_def x509_build_tbs_def e sample_signer_def signature_algorithm_oid_def sign_certificate_def
        der_time_from_datetime_def raw_to_der_signature_def Let_def)
qed

lemma sample_tbs:
  assumes "build_certificate (ref_x509 certs) sample_signer (sample_builder i s) = Some (Inr cert)"
  shows "xt_issuer (xc_tbs cert) = sample_name i" "xt_subject (xc_tbs cert) = sample_name s"
    "xt_public_key (xc_tbs cert) = sample_key" "xt_not_before (xc_tbs cert) = 0" "xt_not_after (xc_tbs cert) = 5"
proof -
  from assms obtain key exts algorithm where "spki_of_certificate (ref_x509 certs) sample_key = Inr key"
    and t: "xc_tbs cert = tbs_of (sample_builder i s) (refx.oid_of certs algorithm) key exts"
    by (rule refx.built_certificate) simp
  then have "key = sample_key" by simp
  then show "xt_issuer (xc_tbs cert) = sample_name i" "xt_subject (xc_tbs cert) = sample_name s"
    "xt_public_key (xc_tbs cert) = sample_key" "xt_not_before (xc_tbs cert) = 0" "xt_not_after (xc_tbs cert) = 5"
    by (simp_all add: t tbs_of_def)
qed

theorem built_certificate_reparsed_witness:
  "\<exists>X cert pem. build_certificate X sample_signer (sample_builder 1 2) = Some (Inr cert) \<and>
    to_pem X cert = Some pem \<and> certificate_from_str X pem = Inr cert"
proof -
  obtain cert where b: "\<And>certs. build_certificate (ref_x509 certs) sample_signer (sample_builder 1 2) = Some (Inr cert)"
    using sample_build by blast
  let ?X = "ref_x509 [cert]"
  obtain der where d: "to_der ?X cert = Inr der" using table_encoded[of cert "[cert]"] by (auto simp: to_der_def)
  then obtain pem where p: "to_pem ?X cert = Some pem" by (auto simp: to_pem_def to_der_def)
  have "certificate_from_str ?X pem = Inr cert"
    using built_certificate_reparsed[OF refx.x509_laws_axioms b _ _ _ d p, of "sample_name 2" "sample_name 1"]
    by (simp add: canonical_oids_def acceptable_extensions_def acceptable_names_def sample_name_def)
  then show ?thesis using b p by blast
qed

text \<open>The collection also holds an unrelated root.\<close>

theorem issued_certificate_trusted_witness:
  "\<exists>X root cert. build_certificate X sample_signer (sample_builder 1 1) = Some (Inr root) \<and>
    build_certificate X sample_signer (sample_builder 1 2) = Some (Inr cert) \<and>
    validate_certificate_path X cert [cert, root] = Inr True \<and>
    verify_chain X cert [sample_cert 3 3, root] = Some [cert, root]"
proof -
  obtain cert where c: "\<And>certs. build_certificate (ref_x509 certs) sample_signer (sample_builder 1 2) = Some (Inr cert)"
    using sample_build by blast
  obtain root where r: "\<And>certs. build_certificate (ref_x509 certs) sample_signer (sample_builder 1 1) = Some (Inr root)"
    using sample_build by blast
  let ?X = "ref_x509 [cert, root]"
  note ct = sample_tbs[OF c[of "[cert, root]"]] and rt = sample_tbs[OF r[of "[cert, root]"]]
  have "is_self_signed root" "to_subject_public_key ?X root = Inr sample_key" "xt_subject (xc_tbs root) = sample_name 1"
    "is_valid_at root (to_not_before cert) = Inr True"
    using ct rt by (simp_all add: is_self_signed_def to_subject_public_key_def is_valid_at_def to_not_before_def to_not_after_def time_to_utc_def)
  moreover have "cert_encode ?X root \<noteq> None" by (simp add: table_encoded)
  moreover have "sample_name 2 \<noteq> sample_name 1" by (simp add: sample_name_def)
  moreover have "xt_issuer (xc_tbs cert) \<noteq> xt_subject (xc_tbs (sample_cert 3 3))"
    using ct(1) by (simp add: sample_cert_def sample_name_def)
  then have "\<not> is_issued_by ?X cert (sample_cert 3 3)"
    by (auto simp: is_issued_by_def has_matching_issuer_subject_dn_def split: sum.splits)
  ultimately have "validate_certificate_path ?X cert [cert, root] = Inr True \<and>
      verify_chain ?X cert [sample_cert 3 3, root] = Some [cert, root]"
    using issued_certificate_trusted[OF refx.x509_laws_axioms c _ _ sample_signs, of root _ "[sample_cert 3 3, root]"] by auto
  then show ?thesis using c r by blast
qed

theorem self_signed_certificate_valid_witness:
  "\<exists>X cert. build_certificate X sample_signer (sample_builder 1 1) = Some (Inr cert) \<and>
    is_valid_issuer_subject_pair X cert cert = Inr True \<and> is_ca X cert"
proof -
  obtain cert where c: "\<And>certs. build_certificate (ref_x509 certs) sample_signer (sample_builder 1 1) = Some (Inr cert)"
    using sample_build by blast
  have "to_not_before cert \<le> to_not_after cert"
    using sample_tbs[OF c] by (simp add: to_not_before_def to_not_after_def time_to_utc_def)
  then have "is_valid_issuer_subject_pair (ref_x509 []) cert cert = Inr True \<and> is_ca (ref_x509 []) cert"
    using self_signed_certificate_valid[OF refx.x509_laws_axioms c _ _ sample_key_canonical sample_signs] by simp
  then show ?thesis using c by blast
qed

theorem ca_path_length_lost_witness:
  "\<exists>ext. for_basic_constraints (ref_x509 []) True (Some 200) = Some ext \<and>
    \<not> is_ca (ref_x509 []) ((sample_cert 1 1)\<lparr>xc_tbs := (xc_tbs (sample_cert 1 1))\<lparr>xt_extensions := Some [ext]\<rparr>\<rparr>)"
proof -
  obtain ext where e: "for_basic_constraints (ref_x509 []) True (Some 200) = Some ext" by simp
  then show ?thesis using ca_path_length_lost[OF refx.x509_laws_axioms e] by simp
qed

end
