(* ===== verification/Crypto.thy ===== *)
theory Crypto
  imports X509
begin

text \<open>
  The \<open>keetanetwork-crypto\<close> crate below the key types: hashing to fixed lengths (\<open>hash.rs\<close>), HKDF
  (\<open>kdf.rs\<close>), the AES modes (\<open>algorithms/aes_common.rs\<close>, \<open>aes_ctr.rs\<close>, \<open>aes_cbc.rs\<close>, \<open>aes_gcm.rs\<close>),
  signing options, passphrases and random octets (\<open>utils.rs\<close>).  The functions of the RustCrypto and
  dalek crates are the fields of \<open>key_lib\<close>.  The random number generator of the operating system is
  a function on an explicit state that may fail; an operation that draws from it takes and returns
  that state.  Memory fences, zeroing and constant time are not visible in values and are left out.
\<close>

unbundle bit_operations_syntax

section \<open>The crates below\<close>

record key_lib =
  kl_x509 :: x509_lib
  hkdf :: "hash_algorithm \<Rightarrow> bytes option \<Rightarrow> bytes \<Rightarrow> bytes \<Rightarrow> nat \<Rightarrow> bytes option"
  hkdf_from_prk :: "hash_algorithm \<Rightarrow> bytes \<Rightarrow> bytes \<Rightarrow> nat \<Rightarrow> bytes option"
  pbkdf2_sha256 :: "bytes \<Rightarrow> bytes \<Rightarrow> nat \<Rightarrow> nat \<Rightarrow> bytes"
  str_lowercase :: "string \<Rightarrow> string"
  aes128_keystream :: "bytes \<Rightarrow> bytes \<Rightarrow> nat \<Rightarrow> bytes"
  aes256_cbc_encrypt :: "bytes \<Rightarrow> bytes \<Rightarrow> bytes \<Rightarrow> bytes"
  aes256_cbc_decrypt :: "bytes \<Rightarrow> bytes \<Rightarrow> bytes \<Rightarrow> bytes option"
  aes256_gcm_encrypt :: "bytes \<Rightarrow> bytes \<Rightarrow> bytes \<Rightarrow> bytes \<Rightarrow> bytes option"
  aes256_gcm_decrypt :: "bytes \<Rightarrow> bytes \<Rightarrow> bytes \<Rightarrow> bytes \<Rightarrow> bytes option"
  hmac_sha256 :: "bytes \<Rightarrow> bytes \<Rightarrow> bytes"
  hmac_sha512 :: "bytes \<Rightarrow> bytes \<Rightarrow> bytes"
  ec_secret :: "ecdsa_curve \<Rightarrow> bytes \<Rightarrow> bytes option"
  ec_public :: "ecdsa_curve \<Rightarrow> bytes \<Rightarrow> bytes"
  ec_uncompressed :: "ecdsa_curve \<Rightarrow> bytes \<Rightarrow> bytes"
  ec_dh :: "ecdsa_curve \<Rightarrow> bytes \<Rightarrow> bytes \<Rightarrow> bytes"
  ec_sign :: "ecdsa_curve \<Rightarrow> bytes \<Rightarrow> bytes \<Rightarrow> bytes option"
  ed_public :: "bytes \<Rightarrow> bytes"
  ed_sign :: "bytes \<Rightarrow> bytes \<Rightarrow> bytes option"
  ed_to_montgomery :: "bytes \<Rightarrow> bytes option"
  x25519 :: "bytes \<Rightarrow> bytes \<Rightarrow> bytes"
  x25519_base :: bytes

abbreviation kl_crypto :: "key_lib \<Rightarrow> crypto_lib" where
  "kl_crypto K \<equiv> xl_crypto (kl_x509 K)"

section \<open>Random octets\<close>

type_synonym 'r os_rng = "'r \<Rightarrow> nat \<Rightarrow> bytes option \<times> 'r"
type_synonym ('r, 'e, 'a) sampled = "'r \<Rightarrow> ('e + 'a) \<times> 'r"

definition sample_return :: "'e + 'a \<Rightarrow> ('r, 'e, 'a) sampled" where
  "sample_return x r = (x, r)"

definition sample_then :: "('r, 'e, 'a) sampled \<Rightarrow> ('a \<Rightarrow> ('r, 'e, 'b) sampled) \<Rightarrow> ('r, 'e, 'b) sampled" where
  "sample_then m f r = (case m r of (Inl e, r') \<Rightarrow> (Inl e, r') | (Inr a, r') \<Rightarrow> f a r')"

definition sample_map_err :: "('e \<Rightarrow> 'f) \<Rightarrow> ('r, 'e, 'a) sampled \<Rightarrow> ('r, 'f, 'a) sampled" where
  "sample_map_err g m r = (case m r of (x, r') \<Rightarrow> (map_err g x, r'))"

definition generate_random_bytes :: "'r os_rng \<Rightarrow> nat \<Rightarrow> ('r, crypto_error, bytes) sampled" where
  "generate_random_bytes G n r = (case G r n of (x, r') \<Rightarrow> (ok_or CryptoInternalError x, r'))"

definition generate_random_seed :: "'r os_rng \<Rightarrow> ('r, crypto_error, bytes) sampled" where
  "generate_random_seed G = generate_random_bytes G 32"

lemma sample_then_ok [simp]:
  "sample_then m f r = (Inr b, r'') \<longleftrightarrow> (\<exists>a r'. m r = (Inr a, r') \<and> f a r' = (Inr b, r''))"
  by (auto simp: sample_then_def split: prod.splits sum.splits)

lemma sample_then_err:
  "sample_then m f r = (Inl e, r'') \<longleftrightarrow> m r = (Inl e, r'') \<or> (\<exists>a r'. m r = (Inr a, r') \<and> f a r' = (Inl e, r''))"
  by (auto simp: sample_then_def split: prod.splits sum.splits)

lemma sample_return_eq [simp]: "sample_return x r = (y, r') \<longleftrightarrow> x = y \<and> r = r'"
  by (simp add: sample_return_def)

lemma sample_map_err_ok [simp]: "sample_map_err g m r = (Inr a, r') \<longleftrightarrow> m r = (Inr a, r')"
  by (auto simp: sample_map_err_def split: prod.splits)

lemma generate_random_bytes_ok [simp]: "generate_random_bytes G n r = (Inr bs, r') \<longleftrightarrow> G r n = (Some bs, r')"
  by (auto simp: generate_random_bytes_def split: prod.splits)

section \<open>Hashing\<close>

definition DEFAULT_HASH_ALGORITHM :: hash_algorithm where
  "DEFAULT_HASH_ALGORITHM = Sha3_256"

definition HASH_FUNCTION_NAME :: string where "HASH_FUNCTION_NAME = ''sha3-256''"
definition HASH_FUNCTION_LENGTH :: nat where "HASH_FUNCTION_LENGTH = 32"

definition algorithm_hash_array :: "x509_lib \<Rightarrow> hash_algorithm \<Rightarrow> nat \<Rightarrow> bytes \<Rightarrow> crypto_error + bytes" where
  "algorithm_hash_array X algo n data =
     (if n \<noteq> hash_algorithm_length algo then Err CryptoInvalidLength else Ok (hash_with X algo data))"

definition hash_truncated :: "x509_lib \<Rightarrow> hash_algorithm \<Rightarrow> bytes \<Rightarrow> nat \<Rightarrow> crypto_error + bytes" where
  "hash_truncated X algo data n =
     (if n > hash_algorithm_length algo then Err CryptoInvalidLength else Ok (take n (hash_with X algo data)))"

definition hash_fixed :: "x509_lib \<Rightarrow> nat \<Rightarrow> bytes \<Rightarrow> hash_algorithm option \<Rightarrow> crypto_error + bytes" where
  "hash_fixed X n data algorithm =
     (let algo = (case algorithm of Some a \<Rightarrow> a | None \<Rightarrow> DEFAULT_HASH_ALGORITHM) in
      if n > hash_algorithm_length algo then Err CryptoInvalidLength else Ok (take n (hash_with X algo data)))"

definition crypto_hash_array :: "x509_lib \<Rightarrow> nat \<Rightarrow> bytes \<Rightarrow> hash_algorithm option \<Rightarrow> crypto_error + bytes" where
  "crypto_hash_array X n data algorithm =
     (let algo = (case algorithm of Some a \<Rightarrow> a | None \<Rightarrow> DEFAULT_HASH_ALGORITHM) in algorithm_hash_array X algo n data)"

definition block_hash_to_string :: "crypto_lib \<Rightarrow> bytes \<Rightarrow> string" where
  "block_hash_to_string L h = hex_encode_upper L h"

definition block_hash_from_str :: "crypto_lib \<Rightarrow> string \<Rightarrow> crypto_error + bytes" where
  "block_hash_from_str L s =
     and_then (ok_or CryptoInvalidInput (hex_decode L s)) (\<lambda>bs.
       if length bs \<noteq> HASH_FUNCTION_LENGTH then Err CryptoInvalidInput else Ok bs)"

section \<open>Key derivation functions\<close>

datatype kdf_algorithm = HkdfSha2_256 | HkdfSha2_512 | HkdfSha3_256

fun kdf_name :: "kdf_algorithm \<Rightarrow> string" where
  "kdf_name HkdfSha2_256 = ''hkdf-sha2-256''"
| "kdf_name HkdfSha2_512 = ''hkdf-sha2-512''"
| "kdf_name HkdfSha3_256 = ''hkdf-sha3-256''"

fun max_output_length :: "kdf_algorithm \<Rightarrow> nat" where
  "max_output_length HkdfSha2_256 = 255 * 32"
| "max_output_length HkdfSha2_512 = 255 * 64"
| "max_output_length HkdfSha3_256 = 255 * 32"

fun kdf_hash :: "kdf_algorithm \<Rightarrow> hash_algorithm" where
  "kdf_hash HkdfSha2_256 = Sha2_256"
| "kdf_hash HkdfSha2_512 = Sha2_512"
| "kdf_hash HkdfSha3_256 = Sha3_256"

definition kdf_derive ::
    "key_lib \<Rightarrow> kdf_algorithm \<Rightarrow> bytes \<Rightarrow> bytes option \<Rightarrow> bytes \<Rightarrow> nat \<Rightarrow> crypto_error + bytes" where
  "kdf_derive K alg ikm salt info output_length =
     (if output_length > max_output_length alg then Err CryptoInvalidLength
      else ok_or CryptoKeyDerivationFailed (hkdf K (kdf_hash alg) salt ikm info output_length))"

definition expand_only :: "key_lib \<Rightarrow> kdf_algorithm \<Rightarrow> bytes \<Rightarrow> bytes \<Rightarrow> nat \<Rightarrow> crypto_error + bytes" where
  "expand_only K alg prk info output_length =
     (if output_length > max_output_length alg then Err CryptoInvalidLength
      else ok_or CryptoKeyDerivationFailed (hkdf_from_prk K (kdf_hash alg) prk info output_length))"

definition derive_array :: "key_lib \<Rightarrow> nat \<Rightarrow> kdf_algorithm \<Rightarrow> bytes \<Rightarrow> bytes option \<Rightarrow> bytes \<Rightarrow> crypto_error + bytes" where
  "derive_array K n alg ikm salt info = kdf_derive K alg ikm salt info n"

definition expand_only_array :: "key_lib \<Rightarrow> nat \<Rightarrow> kdf_algorithm \<Rightarrow> bytes \<Rightarrow> bytes \<Rightarrow> crypto_error + bytes" where
  "expand_only_array K n alg prk info = expand_only K alg prk info n"

section \<open>AES\<close>

definition IV_SIZE :: nat where "IV_SIZE = 16"

definition ensure_key_size :: "bytes \<Rightarrow> nat \<Rightarrow> crypto_error + unit" where
  "ensure_key_size key expected = (if length key \<noteq> expected then Err CryptoInvalidKeySize else Ok ())"

definition resolve_iv :: "'r os_rng \<Rightarrow> bytes option \<Rightarrow> ('r, crypto_error, bytes) sampled" where
  "resolve_iv G iv =
     (case iv of
        Some iv_slice \<Rightarrow> sample_return (if length iv_slice \<noteq> IV_SIZE then Err CryptoInvalidIvSize else Ok iv_slice)
      | None \<Rightarrow> generate_random_bytes G IV_SIZE)"

definition prepend_iv :: "bytes \<Rightarrow> bytes \<Rightarrow> bytes" where
  "prepend_iv iv ciphertext = iv @ ciphertext"

definition split_iv :: "bytes \<Rightarrow> crypto_error + bytes \<times> bytes" where
  "split_iv ciphertext =
     (if length ciphertext < IV_SIZE then Err CryptoDecryptionFailed
      else Ok (take IV_SIZE ciphertext, drop IV_SIZE ciphertext))"

subsection \<open>AES-128-CTR\<close>

definition ctr_key_size :: nat where "ctr_key_size = 16"
definition ctr_iv_size :: nat where "ctr_iv_size = 16"

definition generate_iv :: "'r os_rng \<Rightarrow> ('r, crypto_error, bytes) sampled" where
  "generate_iv G = resolve_iv G None"

definition xor_bytes :: "bytes \<Rightarrow> bytes \<Rightarrow> bytes" where
  "xor_bytes xs ys = map2 (XOR) xs ys"

definition apply_keystream :: "key_lib \<Rightarrow> bytes \<Rightarrow> bytes \<Rightarrow> bytes \<Rightarrow> crypto_error + bytes" where
  "apply_keystream K key iv data =
     and_then (ensure_key_size key 16) (\<lambda>_.
     if length iv \<noteq> 16 then Err CryptoInvalidOperation
     else Ok (xor_bytes data (aes128_keystream K key iv (length data))))"

definition encrypt_with_iv :: "key_lib \<Rightarrow> bytes \<Rightarrow> bytes \<Rightarrow> bytes \<Rightarrow> crypto_error + bytes" where
  "encrypt_with_iv K key iv plaintext = apply_keystream K key iv plaintext"

definition decrypt_with_iv :: "key_lib \<Rightarrow> bytes \<Rightarrow> bytes \<Rightarrow> bytes \<Rightarrow> crypto_error + bytes" where
  "decrypt_with_iv K key iv ciphertext = apply_keystream K key iv ciphertext"

definition ctr_encrypt :: "key_lib \<Rightarrow> 'r os_rng \<Rightarrow> bytes \<Rightarrow> bytes option \<Rightarrow> bytes \<Rightarrow> ('r, crypto_error, bytes) sampled" where
  "ctr_encrypt K G key iv plaintext =
     sample_then (sample_return (ensure_key_size key 16)) (\<lambda>_.
     sample_then (resolve_iv G iv) (\<lambda>iv_bytes.
     sample_then (sample_return (encrypt_with_iv K key iv_bytes plaintext)) (\<lambda>ciphertext.
       sample_return (Ok (prepend_iv iv_bytes ciphertext)))))"

definition ctr_decrypt :: "key_lib \<Rightarrow> bytes \<Rightarrow> bytes \<Rightarrow> crypto_error + bytes" where
  "ctr_decrypt K key ciphertext =
     and_then (ensure_key_size key 16) (\<lambda>_.
     and_then (split_iv ciphertext) (\<lambda>(iv, encrypted_data). decrypt_with_iv K key iv encrypted_data))"

subsection \<open>AES-256-CBC\<close>

definition cbc_encrypt :: "key_lib \<Rightarrow> 'r os_rng \<Rightarrow> bytes \<Rightarrow> bytes option \<Rightarrow> bytes \<Rightarrow> ('r, crypto_error, bytes) sampled" where
  "cbc_encrypt K G key iv plaintext =
     sample_then (sample_return (ensure_key_size key 32)) (\<lambda>_.
     sample_then (resolve_iv G iv) (\<lambda>iv_bytes.
       sample_return (Ok (prepend_iv iv_bytes (aes256_cbc_encrypt K key iv_bytes plaintext)))))"

definition cbc_decrypt :: "key_lib \<Rightarrow> bytes \<Rightarrow> bytes \<Rightarrow> crypto_error + bytes" where
  "cbc_decrypt K key ciphertext =
     and_then (ensure_key_size key 32) (\<lambda>_.
     and_then (split_iv ciphertext) (\<lambda>(iv, encrypted_data).
       ok_or CryptoDecryptionFailed (aes256_cbc_decrypt K key iv encrypted_data)))"

definition cbc_key_size :: nat where "cbc_key_size = 32"
definition cbc_block_size :: nat where "cbc_block_size = 16"

subsection \<open>AES-256-GCM\<close>

definition gcm_new :: "bytes \<Rightarrow> crypto_error + bytes" where
  "gcm_new key = (if length key \<noteq> 32 then Err CryptoInvalidKeySize else Ok key)"

definition gcm_key_size :: nat where "gcm_key_size = 32"
definition gcm_nonce_size :: nat where "gcm_nonce_size = 12"
definition gcm_tag_size :: nat where "gcm_tag_size = 16"

definition gcm_encrypt :: "key_lib \<Rightarrow> bytes \<Rightarrow> bytes \<Rightarrow> bytes \<Rightarrow> bytes \<Rightarrow> bytes option" where
  "gcm_encrypt K cipher nonce aad plaintext = aes256_gcm_encrypt K cipher nonce aad plaintext"

definition gcm_decrypt :: "key_lib \<Rightarrow> bytes \<Rightarrow> bytes \<Rightarrow> bytes \<Rightarrow> bytes \<Rightarrow> bytes option" where
  "gcm_decrypt K cipher nonce aad ciphertext = aes256_gcm_decrypt K cipher nonce aad ciphertext"

section \<open>Signing options\<close>

record signing_options =
  so_raw :: bool

definition default_options :: signing_options where "default_options = \<lparr>so_raw = False\<rparr>"
definition raw_options :: signing_options where "raw_options = \<lparr>so_raw = True\<rparr>"

definition options_digest :: "crypto_lib \<Rightarrow> signing_options \<Rightarrow> bytes \<Rightarrow> crypto_error + bytes" where
  "options_digest L options message =
     (if so_raw options then (if length message \<noteq> 32 then Err CryptoSignatureError else Ok message)
      else Ok (hash_default L message))"

section \<open>Passphrases\<close>

definition MIN_PASSPHRASE_LENGTH :: nat where "MIN_PASSPHRASE_LENGTH = 60"
definition PBKDF2_ITERATIONS :: nat where "PBKDF2_ITERATIONS = 64000"

definition str_bytes :: "string \<Rightarrow> bytes" where
  "str_bytes s = map of_char s"

definition remove_spaces :: "string \<Rightarrow> string" where
  "remove_spaces s = filter (\<lambda>c. c \<noteq> CHR '' '') s"

definition seed_from_passphrase :: "key_lib \<Rightarrow> string \<Rightarrow> crypto_error + bytes" where
  "seed_from_passphrase K passphrase =
     (let clean_passphrase = remove_spaces (str_lowercase K passphrase);
          passphrase_buffer = str_bytes clean_passphrase
      in if length passphrase_buffer < MIN_PASSPHRASE_LENGTH then Err CryptoInvalidLength
         else Ok (pbkdf2_sha256 K passphrase_buffer passphrase_buffer PBKDF2_ITERATIONS 32))"

fun le_words :: "bytes \<Rightarrow> 32 word list" where
  "le_words (a # b # c # d # bs) =
     (ucast a OR push_bit 8 (ucast b) OR push_bit 16 (ucast c) OR push_bit 24 (ucast d)) # le_words bs"
| "le_words _ = []"

definition generate_random_passphrase :: "'r os_rng \<Rightarrow> string list \<Rightarrow> ('r, crypto_error, string list) sampled" where
  "generate_random_passphrase G words =
     (let word_count = word_of_nat (length words) :: 32 word in
      sample_then (generate_random_bytes G (4 * 24)) (\<lambda>bs.
        sample_return (Ok (map (\<lambda>raw_index. words ! unat (raw_index mod word_count)) (le_words bs)))))"

end
