(* ===== verification/Keys.thy ===== *)
theory Keys
  imports Crypto
begin

text \<open>
  Private and public keys of the three signature algorithms (\<open>crypto/src/algorithms/secp256k1.rs\<close>,
  \<open>secp256r1.rs\<close>, \<open>ed25519.rs\<close>, \<open>mod.rs\<close>): parsing, derivation from a seed, signing and verifying, key
  exchange, and the subject public key info of a key.  A private key is its 32 octets.  A public key
  is the octets that its \<open>as_ref\<close> returns; the curve point inside it is the parsed form of
  these octets and is represented by its compressed encoding.
\<close>

unbundle bit_operations_syntax

section \<open>Key types\<close>

datatype any_private_key = PrivSecp256k1 bytes | PrivEd25519 bytes | PrivSecp256r1 bytes
datatype any_public_key = PubSecp256k1 bytes | PubEd25519 bytes | PubSecp256r1 bytes
datatype any_signature = RawSigSecp256k1 bytes | RawSigEd25519 bytes | RawSigSecp256r1 bytes

fun private_key_algorithm :: "any_private_key \<Rightarrow> algorithm" where
  "private_key_algorithm (PrivSecp256k1 _) = Secp256k1"
| "private_key_algorithm (PrivEd25519 _) = Ed25519Alg"
| "private_key_algorithm (PrivSecp256r1 _) = Secp256r1"

fun public_key_algorithm :: "any_public_key \<Rightarrow> algorithm" where
  "public_key_algorithm (PubSecp256k1 _) = Secp256k1"
| "public_key_algorithm (PubEd25519 _) = Ed25519Alg"
| "public_key_algorithm (PubSecp256r1 _) = Secp256r1"

fun signature_algorithm :: "any_signature \<Rightarrow> algorithm" where
  "signature_algorithm (RawSigSecp256k1 _) = Secp256k1"
| "signature_algorithm (RawSigEd25519 _) = Ed25519Alg"
| "signature_algorithm (RawSigSecp256r1 _) = Secp256r1"

fun private_key_to_bytes :: "any_private_key \<Rightarrow> bytes" where
  "private_key_to_bytes (PrivSecp256k1 k) = k"
| "private_key_to_bytes (PrivEd25519 k) = k"
| "private_key_to_bytes (PrivSecp256r1 k) = k"

fun signature_to_bytes :: "any_signature \<Rightarrow> bytes" where
  "signature_to_bytes (RawSigSecp256k1 s) = s"
| "signature_to_bytes (RawSigEd25519 s) = s"
| "signature_to_bytes (RawSigSecp256r1 s) = s"

fun any_signature_of :: "algorithm \<Rightarrow> bytes \<Rightarrow> any_signature" where
  "any_signature_of Secp256k1 s = RawSigSecp256k1 s"
| "any_signature_of Ed25519Alg s = RawSigEd25519 s"
| "any_signature_of Secp256r1 s = RawSigSecp256r1 s"

fun public_key_as_ref :: "any_public_key \<Rightarrow> bytes" where
  "public_key_as_ref (PubSecp256k1 b) = b"
| "public_key_as_ref (PubEd25519 b) = b"
| "public_key_as_ref (PubSecp256r1 b) = b"

fun sec1_compress :: "crypto_lib \<Rightarrow> ecdsa_curve \<Rightarrow> bytes \<Rightarrow> bytes option" where
  "sec1_compress L CurveSecp256k1 bs = k256_compress L bs"
| "sec1_compress L CurveSecp256r1 bs = p256_compress L bs"

definition ec_point :: "crypto_lib \<Rightarrow> ecdsa_curve \<Rightarrow> bytes \<Rightarrow> bytes" where
  "ec_point L curve bs = (case sec1_compress L curve bs of Some point \<Rightarrow> point | None \<Rightarrow> bs)"

fun public_key_to_bytes :: "crypto_lib \<Rightarrow> any_public_key \<Rightarrow> bytes" where
  "public_key_to_bytes L (PubSecp256k1 b) = ec_point L CurveSecp256k1 b"
| "public_key_to_bytes L (PubEd25519 b) = b"
| "public_key_to_bytes L (PubSecp256r1 b) = ec_point L CurveSecp256r1 b"

fun to_uncompressed_bytes :: "key_lib \<Rightarrow> any_public_key \<Rightarrow> bytes" where
  "to_uncompressed_bytes K (PubSecp256k1 b) = ec_uncompressed K CurveSecp256k1 (ec_point (kl_crypto K) CurveSecp256k1 b)"
| "to_uncompressed_bytes K (PubEd25519 b) = b"
| "to_uncompressed_bytes K (PubSecp256r1 b) = ec_uncompressed K CurveSecp256r1 (ec_point (kl_crypto K) CurveSecp256r1 b)"

fun as_public_key :: "key_lib \<Rightarrow> any_private_key \<Rightarrow> any_public_key" where
  "as_public_key K (PrivSecp256k1 k) = PubSecp256k1 (ec_public K CurveSecp256k1 k)"
| "as_public_key K (PrivEd25519 k) = PubEd25519 (ed_public K k)"
| "as_public_key K (PrivSecp256r1 k) = PubSecp256r1 (ec_public K CurveSecp256r1 k)"

section \<open>Parsing\<close>

definition secp256k1_private_try_from :: "key_lib \<Rightarrow> bytes \<Rightarrow> crypto_error + any_private_key" where
  "secp256k1_private_try_from K bs =
     and_then (ok_or CryptoInvalidPrivateKey (ec_secret K CurveSecp256k1 bs)) (\<lambda>k. Ok (PrivSecp256k1 k))"

definition secp256r1_private_try_from :: "key_lib \<Rightarrow> bytes \<Rightarrow> crypto_error + any_private_key" where
  "secp256r1_private_try_from K bs =
     and_then (ok_or CryptoInvalidPrivateKey (ec_secret K CurveSecp256r1 bs)) (\<lambda>k. Ok (PrivSecp256r1 k))"

definition ed25519_private_try_from :: "bytes \<Rightarrow> crypto_error + any_private_key" where
  "ed25519_private_try_from bs = (if length bs \<noteq> 32 then Err CryptoInvalidKeySize else Ok (PrivEd25519 bs))"

fun private_key_try_from :: "key_lib \<Rightarrow> algorithm \<Rightarrow> bytes \<Rightarrow> crypto_error + any_private_key" where
  "private_key_try_from K Secp256k1 bs = secp256k1_private_try_from K bs"
| "private_key_try_from K Ed25519Alg bs = ed25519_private_try_from bs"
| "private_key_try_from K Secp256r1 bs = secp256r1_private_try_from K bs"

definition secp256k1_public_try_from :: "crypto_lib \<Rightarrow> bytes \<Rightarrow> crypto_error + any_public_key" where
  "secp256k1_public_try_from L bs =
     and_then (ok_or CryptoInvalidPublicKey (k256_compress L bs)) (\<lambda>point. Ok (PubSecp256k1 point))"

definition secp256r1_public_try_from :: "crypto_lib \<Rightarrow> bytes \<Rightarrow> crypto_error + any_public_key" where
  "secp256r1_public_try_from L bs =
     and_then (ok_or CryptoInvalidPublicKey (p256_compress L bs)) (\<lambda>_. Ok (PubSecp256r1 bs))"

definition ed25519_public_try_from :: "crypto_lib \<Rightarrow> bytes \<Rightarrow> crypto_error + any_public_key" where
  "ed25519_public_try_from L bs =
     (if length bs \<noteq> 32 then Err CryptoInvalidKeySize
      else if \<not> ed25519_point L bs then Err CryptoInvalidPublicKey else Ok (PubEd25519 bs))"

fun any_public_key_try_from :: "crypto_lib \<Rightarrow> algorithm \<Rightarrow> bytes \<Rightarrow> crypto_error + any_public_key" where
  "any_public_key_try_from L Secp256k1 bs = secp256k1_public_try_from L bs"
| "any_public_key_try_from L Ed25519Alg bs = ed25519_public_try_from L bs"
| "any_public_key_try_from L Secp256r1 bs = secp256r1_public_try_from L bs"

definition public_key_into :: "algorithm \<Rightarrow> any_public_key \<Rightarrow> crypto_error + bytes" where
  "public_key_into expected key =
     (if public_key_algorithm key = expected then Ok (public_key_as_ref key) else Err CryptoUnsupportedAlgorithm)"

section \<open>Derivation from a seed\<close>

definition u32_to_be_bytes :: "32 word \<Rightarrow> bytes" where
  "u32_to_be_bytes w = [ucast (drop_bit 24 w), ucast (drop_bit 16 w), ucast (drop_bit 8 w), ucast w]"

text \<open>
  One iteration of the derivation loop.  Its state is the buffer \<open>attempt_seed\<close>, the first valid
  key and the flag that a key was found.
\<close>

definition derive_attempt ::
    "key_lib \<Rightarrow> ecdsa_curve \<Rightarrow> nat \<Rightarrow> bytes \<times> bytes option \<times> bool \<Rightarrow> 32 word \<Rightarrow> crypto_error + bytes \<times> bytes option \<times> bool" where
  "derive_attempt K curve original_seed_len s attempt =
     (case s of (attempt_seed, result_key, found_valid) \<Rightarrow>
        let attempt_seed = (if attempt > 0 then take original_seed_len attempt_seed @ u32_to_be_bytes attempt else attempt_seed)
        in and_then (expand_only_array K 32 HkdfSha3_256 attempt_seed []) (\<lambda>key_bytes.
           case ec_secret K curve key_bytes of
             Some secret_key \<Rightarrow>
               if \<not> found_valid then Ok (attempt_seed, Some secret_key, True) else Ok (attempt_seed, result_key, found_valid)
           | None \<Rightarrow> Ok (attempt_seed, result_key, found_valid)))"

definition derive_scalar :: "key_lib \<Rightarrow> ecdsa_curve \<Rightarrow> bytes \<Rightarrow> crypto_error + bytes" where
  "derive_scalar K curve seed =
     and_then (try_fold (derive_attempt K curve (length seed)) (seed, None, False) (map word_of_nat [0..<100])) (\<lambda>(_, result_key, _).
       case result_key of Some secret_key \<Rightarrow> Ok secret_key | None \<Rightarrow> Err CryptoKeyDerivationFailed)"

definition clamp :: "bytes \<Rightarrow> bytes" where
  "clamp bs = (let bs = bs[0 := bs ! 0 AND 248]; bs = bs[31 := bs ! 31 AND 127] in bs[31 := bs ! 31 OR 64])"

definition ed25519_derive :: "key_lib \<Rightarrow> bytes \<Rightarrow> crypto_error + bytes" where
  "ed25519_derive K seed = and_then (crypto_hash_array (kl_x509 K) 32 seed None) (\<lambda>h. Ok (clamp h))"

fun derive_from_seed :: "key_lib \<Rightarrow> algorithm \<Rightarrow> bytes \<Rightarrow> crypto_error + any_private_key" where
  "derive_from_seed K Secp256k1 seed = and_then (derive_scalar K CurveSecp256k1 seed) (\<lambda>k. Ok (PrivSecp256k1 k))"
| "derive_from_seed K Ed25519Alg seed = and_then (ed25519_derive K seed) (\<lambda>k. Ok (PrivEd25519 k))"
| "derive_from_seed K Secp256r1 seed = and_then (derive_scalar K CurveSecp256r1 seed) (\<lambda>k. Ok (PrivSecp256r1 k))"

fun is_valid_key_material :: "key_lib \<Rightarrow> algorithm \<Rightarrow> bytes \<Rightarrow> bool" where
  "is_valid_key_material K Secp256k1 bs \<longleftrightarrow> length bs = 32 \<and> ec_secret K CurveSecp256k1 bs \<noteq> None"
| "is_valid_key_material K Ed25519Alg bs \<longleftrightarrow> length bs = 32"
| "is_valid_key_material K Secp256r1 bs \<longleftrightarrow> length bs = 32 \<and> ec_secret K CurveSecp256r1 bs \<noteq> None"

definition private_key_size :: nat where "private_key_size = 32"

definition generate_random :: "key_lib \<Rightarrow> 'r os_rng \<Rightarrow> algorithm \<Rightarrow> ('r, crypto_error, any_private_key) sampled" where
  "generate_random K G alg =
     sample_then (generate_random_seed G) (\<lambda>random_seed. sample_return (derive_from_seed K alg random_seed))"

definition create_keypair_from_seed :: "key_lib \<Rightarrow> bytes \<Rightarrow> algorithm \<Rightarrow> crypto_error + any_private_key \<times> any_public_key" where
  "create_keypair_from_seed K seed alg =
     (case alg of
        Secp256r1 \<Rightarrow> Err CryptoUnsupportedAlgorithm
      | _ \<Rightarrow> and_then (derive_from_seed K alg seed) (\<lambda>private_key. Ok (private_key, as_public_key K private_key)))"

section \<open>Signatures\<close>

definition ecdsa_sign_with_options :: "key_lib \<Rightarrow> ecdsa_curve \<Rightarrow> bytes \<Rightarrow> bytes \<Rightarrow> signing_options \<Rightarrow> crypto_error + bytes" where
  "ecdsa_sign_with_options K curve k message options =
     and_then (options_digest (kl_crypto K) options message) (\<lambda>digest.
       ok_or CryptoSignatureError (ec_sign K curve k digest))"

definition ed25519_sign_with_options :: "key_lib \<Rightarrow> bytes \<Rightarrow> bytes \<Rightarrow> signing_options \<Rightarrow> crypto_error + bytes" where
  "ed25519_sign_with_options K k message options =
     (let data = (if so_raw options then message else hash_default (kl_crypto K) message) in
      ok_or CryptoSignatureError (ed_sign K k data))"

fun sign_with_options :: "key_lib \<Rightarrow> any_private_key \<Rightarrow> bytes \<Rightarrow> signing_options \<Rightarrow> crypto_error + bytes" where
  "sign_with_options K (PrivSecp256k1 k) message options = ecdsa_sign_with_options K CurveSecp256k1 k message options"
| "sign_with_options K (PrivEd25519 k) message options = ed25519_sign_with_options K k message options"
| "sign_with_options K (PrivSecp256r1 k) message options = ecdsa_sign_with_options K CurveSecp256r1 k message options"

definition ecdsa_verify_with_options ::
    "key_lib \<Rightarrow> ecdsa_curve \<Rightarrow> bytes \<Rightarrow> bytes \<Rightarrow> bytes \<Rightarrow> signing_options \<Rightarrow> crypto_error + unit" where
  "ecdsa_verify_with_options K curve b message signature options =
     and_then (options_digest (kl_crypto K) options message) (\<lambda>digest.
       ensure (ec_verify (kl_x509 K) curve (ec_point (kl_crypto K) curve b) digest signature) CryptoSignatureError)"

definition ed25519_verify_with_options ::
    "key_lib \<Rightarrow> bytes \<Rightarrow> bytes \<Rightarrow> bytes \<Rightarrow> signing_options \<Rightarrow> crypto_error + unit" where
  "ed25519_verify_with_options K b message signature options =
     (let data = (if so_raw options then message else hash_default (kl_crypto K) message) in
      ensure (ed_verify (kl_x509 K) b data signature) CryptoSignatureError)"

fun verify_with_options ::
    "key_lib \<Rightarrow> any_public_key \<Rightarrow> bytes \<Rightarrow> bytes \<Rightarrow> signing_options \<Rightarrow> crypto_error + unit" where
  "verify_with_options K (PubSecp256k1 b) message signature options =
     ecdsa_verify_with_options K CurveSecp256k1 b message signature options"
| "verify_with_options K (PubEd25519 b) message signature options =
     ed25519_verify_with_options K b message signature options"
| "verify_with_options K (PubSecp256r1 b) message signature options =
     ecdsa_verify_with_options K CurveSecp256r1 b message signature options"

fun key_signature_try_from :: "x509_lib \<Rightarrow> algorithm \<Rightarrow> bytes \<Rightarrow> crypto_error + bytes" where
  "key_signature_try_from X Secp256k1 bs = (if ec_signature X CurveSecp256k1 bs then Ok bs else Err CryptoSignatureError)"
| "key_signature_try_from X Ed25519Alg bs = (if length bs = 64 then Ok bs else Err CryptoSignatureError)"
| "key_signature_try_from X Secp256r1 bs = (if ec_signature X CurveSecp256r1 bs then Ok bs else Err CryptoSignatureError)"

section \<open>Key exchange\<close>

definition ecdh :: "key_lib \<Rightarrow> ecdsa_curve \<Rightarrow> bytes \<Rightarrow> bytes \<Rightarrow> crypto_error + bytes" where
  "ecdh K curve k b = Ok (ec_dh K curve k (ec_point (kl_crypto K) curve b))"

fun key_exchange :: "key_lib \<Rightarrow> ecdsa_curve \<Rightarrow> bytes \<Rightarrow> bytes \<Rightarrow> crypto_error + bytes" where
  "key_exchange K CurveSecp256k1 k their_public_key =
     and_then (secp256k1_public_try_from (kl_crypto K) their_public_key) (\<lambda>key.
       ecdh K CurveSecp256k1 k (public_key_as_ref key))"
| "key_exchange K CurveSecp256r1 k their_public_key =
     and_then (secp256r1_public_try_from (kl_crypto K) their_public_key) (\<lambda>key.
       ecdh K CurveSecp256r1 k (public_key_as_ref key))"

definition derive_aead_key :: "bytes \<Rightarrow> crypto_error + bytes" where
  "derive_aead_key shared_secret = Err CryptoEncryptionNotSupported"

definition ed25519_to_x25519_private :: "key_lib \<Rightarrow> bytes \<Rightarrow> crypto_error + bytes" where
  "ed25519_to_x25519_private K k =
     and_then (crypto_hash_array (kl_x509 K) 64 k (Some Sha2_512)) (\<lambda>h. Ok (clamp (take 32 h)))"

definition ed25519_to_x25519_public :: "key_lib \<Rightarrow> bytes \<Rightarrow> crypto_error + bytes" where
  "ed25519_to_x25519_public K b = ok_or CryptoInvalidPublicKey (ed_to_montgomery K b)"

definition x25519_private_try_from :: "bytes \<Rightarrow> crypto_error + bytes" where
  "x25519_private_try_from bs = (if length bs \<noteq> 32 then Err CryptoInvalidKeySize else Ok bs)"

definition x25519_public_try_from :: "bytes \<Rightarrow> crypto_error + bytes" where
  "x25519_public_try_from bs = (if length bs \<noteq> 32 then Err CryptoInvalidPublicKey else Ok bs)"

definition x25519_derive_public_key :: "key_lib \<Rightarrow> bytes \<Rightarrow> bytes" where
  "x25519_derive_public_key K k = x25519 K k (x25519_base K)"

definition x25519_diffie_hellman :: "key_lib \<Rightarrow> bytes \<Rightarrow> bytes \<Rightarrow> bytes" where
  "x25519_diffie_hellman K k other = x25519 K k other"

section \<open>Subject public key info\<close>

fun algorithm_oid :: "algorithm \<Rightarrow> x509_oid" where
  "algorithm_oid Secp256k1 = OID_EC_PUBLIC_KEY"
| "algorithm_oid Ed25519Alg = OID_ED25519"
| "algorithm_oid Secp256r1 = OID_EC_PUBLIC_KEY"

fun algorithm_params_oid :: "algorithm \<Rightarrow> x509_oid option" where
  "algorithm_params_oid Secp256k1 = Some OID_SECP256K1"
| "algorithm_params_oid Ed25519Alg = None"
| "algorithm_params_oid Secp256r1 = Some OID_SECP256R1"

fun key_oid :: "algorithm \<Rightarrow> x509_oid" where
  "key_oid Secp256k1 = OID_SECP256K1"
| "key_oid Ed25519Alg = OID_ED25519"
| "key_oid Secp256r1 = OID_SECP256R1"

definition create_parameter_any :: "oid_lib \<Rightarrow> x509_oid \<Rightarrow> der_value" where
  "create_parameter_any Q oid =
     \<lparr>any_tag = TagOid, any_bytes = (case oid_to_der Q oid of Some v \<Rightarrow> v | None \<Rightarrow> [])\<rparr>"

definition algorithm_identifier_of :: "oid_lib \<Rightarrow> algorithm \<Rightarrow> algorithm_identifier" where
  "algorithm_identifier_of Q alg =
     \<lparr>ai_oid = algorithm_oid alg, ai_parameters = map_option (create_parameter_any Q) (algorithm_params_oid alg)\<rparr>"

definition spki_of_public_key :: "key_lib \<Rightarrow> any_public_key \<Rightarrow> subject_public_key_info" where
  "spki_of_public_key K key =
     \<lparr>spki_algorithm = algorithm_identifier_of (xl_oids (kl_x509 K)) (public_key_algorithm key),
      spki_key = bit_string_from_bytes (public_key_to_bytes (kl_crypto K) key)\<rparr>"

end
