(* ===== verification/Ecies.thy ===== *)
theory Ecies
  imports Keys
begin

text \<open>
  Encryption to a public key (\<open>crypto/src/algorithms/ecies.rs\<close>): an ephemeral key, a Diffie-Hellman
  exchange, a key derivation, a cipher and a message authentication code, in the three formats of
  the source; then the encryption operations of the key types.
\<close>

section \<open>secp256k1 with AES-128-CTR\<close>

function secp256k1_kdf_loop :: "key_lib \<Rightarrow> bytes \<Rightarrow> nat \<Rightarrow> 32 word \<Rightarrow> nat \<Rightarrow> bytes \<Rightarrow> bytes" where
  "secp256k1_kdf_loop K secret output_length ctr written result =
     (if written < output_length
      then secp256k1_kdf_loop K secret output_length (ctr + 1) (written + 32)
             (result @ hash_with (kl_x509 K) Sha2_256 (u32_to_be_bytes ctr @ secret))
      else result)"
  by auto
termination by (relation "measure (\<lambda>(_, _, n, _, written, _). n - written)") auto

declare secp256k1_kdf_loop.simps [simp del]

definition secp256k1_kdf :: "key_lib \<Rightarrow> bytes \<Rightarrow> nat \<Rightarrow> bytes" where
  "secp256k1_kdf K secret output_length = secp256k1_kdf_loop K secret output_length 1 0 []"

definition secp256k1_derive_keys :: "key_lib \<Rightarrow> bytes \<Rightarrow> crypto_error + bytes \<times> bytes" where
  "secp256k1_derive_keys K shared_secret =
     (let kdf_output = secp256k1_kdf K shared_secret 32 in
      and_then (algorithm_hash_array (kl_x509 K) Sha2_256 32 (take 16 (drop 16 kdf_output))) (\<lambda>mac_key.
        Ok (take 16 kdf_output, mac_key)))"

definition ecies_secp256k1_encrypt :: "key_lib \<Rightarrow> 'r os_rng \<Rightarrow> bytes \<Rightarrow> bytes \<Rightarrow> ('r, crypto_error, bytes) sampled" where
  "ecies_secp256k1_encrypt K G recipient plaintext =
     sample_then (generate_random K G Secp256k1) (\<lambda>ephemeral_private.
     let ephemeral_public = as_public_key K ephemeral_private in
     sample_then (sample_return (ecdh K CurveSecp256k1 (private_key_to_bytes ephemeral_private) recipient)) (\<lambda>shared_secret.
     let ephemeral_public_uncompressed = to_uncompressed_bytes K ephemeral_public in
     sample_then (sample_return (secp256k1_derive_keys K shared_secret)) (\<lambda>(encryption_key, mac_key).
     sample_then (generate_iv G) (\<lambda>iv.
     sample_then (sample_return (encrypt_with_iv K encryption_key iv plaintext)) (\<lambda>ciphertext_only.
     let cipher_with_iv = iv @ ciphertext_only;
         hmac = hmac_sha256 K mac_key cipher_with_iv
     in sample_return (Ok (ephemeral_public_uncompressed @ cipher_with_iv @ hmac)))))))"

definition ecies_secp256k1_decrypt :: "key_lib \<Rightarrow> bytes \<Rightarrow> bytes \<Rightarrow> crypto_error + bytes" where
  "ecies_secp256k1_decrypt K recipient ciphertext =
     (if length ciphertext < 113 then Err CryptoDecryptionFailed
      else
        let ephemeral_public_bytes = take 65 ciphertext;
            hmac_start = length ciphertext - 32;
            cipher_with_iv = drop 65 (take hmac_start ciphertext);
            received_hmac = drop hmac_start ciphertext
        in and_then (secp256k1_public_try_from (kl_crypto K) ephemeral_public_bytes) (\<lambda>ephemeral_public.
           and_then (ecdh K CurveSecp256k1 recipient (public_key_as_ref ephemeral_public)) (\<lambda>shared_secret.
           and_then (secp256k1_derive_keys K shared_secret) (\<lambda>(encryption_key, mac_key).
           if hmac_sha256 K mac_key cipher_with_iv \<noteq> received_hmac then Err CryptoDecryptionFailed
           else if length cipher_with_iv < 16 then Err CryptoDecryptionFailed
           else decrypt_with_iv K encryption_key (take 16 cipher_with_iv) (drop 16 cipher_with_iv)))))"

section \<open>X25519 with AES-256-CBC\<close>

definition ecies_x25519_encrypt :: "key_lib \<Rightarrow> 'r os_rng \<Rightarrow> bytes \<Rightarrow> bytes \<Rightarrow> ('r, crypto_error, bytes) sampled" where
  "ecies_x25519_encrypt K G recipient plaintext =
     sample_then (generate_random_bytes G 32) (\<lambda>ephemeral_private_bytes.
     sample_then (sample_return (x25519_private_try_from ephemeral_private_bytes)) (\<lambda>ephemeral_private.
     let ephemeral_public = x25519_derive_public_key K ephemeral_private;
         shared_secret = x25519_diffie_hellman K ephemeral_private recipient;
         sha512_hash = hash_with (kl_x509 K) Sha2_512 shared_secret;
         encryption_key = take 32 sha512_hash;
         mac_key = drop 32 sha512_hash
     in sample_then (generate_random_bytes G 16) (\<lambda>iv.
        sample_then (cbc_encrypt K G encryption_key (Some iv) plaintext) (\<lambda>iv_and_ciphertext.
        let ciphertext = drop 16 iv_and_ciphertext;
            hmac = hmac_sha256 K mac_key (iv @ ephemeral_public @ ciphertext)
        in sample_return (Ok (iv @ ephemeral_public @ hmac @ ciphertext))))))"

definition ecies_x25519_decrypt :: "key_lib \<Rightarrow> bytes \<Rightarrow> bytes \<Rightarrow> crypto_error + bytes" where
  "ecies_x25519_decrypt K recipient ciphertext =
     (if length ciphertext < 80 then Err CryptoDecryptionFailed
      else
        let iv = take 16 ciphertext;
            ephemeral_public_bytes = take 32 (drop 16 ciphertext);
            received_mac = take 32 (drop 48 ciphertext);
            encrypted_data = drop 80 ciphertext
        in and_then (x25519_public_try_from ephemeral_public_bytes) (\<lambda>ephemeral_public.
           let shared_secret = x25519_diffie_hellman K recipient ephemeral_public;
               sha512_hash = hash_with (kl_x509 K) Sha2_512 shared_secret;
               encryption_key = take 32 sha512_hash;
               mac_key = drop 32 sha512_hash
           in if hmac_sha256 K mac_key (iv @ ephemeral_public_bytes @ encrypted_data) \<noteq> received_mac
              then Err CryptoDecryptionFailed
              else cbc_decrypt K encryption_key (iv @ encrypted_data)))"

section \<open>secp256r1 with AES-256-CBC\<close>

definition secp256r1_derive_keys :: "key_lib \<Rightarrow> bytes \<Rightarrow> bytes \<Rightarrow> crypto_error + bytes \<times> bytes" where
  "secp256r1_derive_keys K ephemeral_public_key shared_secret_x =
     (let seed = ephemeral_public_key @ shared_secret_x;
          symmetric_key_bytes = 256 div 8;
          mac_key_bytes = 1024 div 8;
          digest_bytes = 512 div 8;
          total_bytes = symmetric_key_bytes + mac_key_bytes;
          iterations = (total_bytes + digest_bytes - 1) div digest_bytes;
          derivation_key = concat (map (\<lambda>i. hash_with (kl_x509 K) Sha2_512 (seed @ u32_to_be_bytes (word_of_nat i))) [1..<iterations + 1]);
          derivation_key = take total_bytes derivation_key
      in Ok (take 32 derivation_key, drop 32 derivation_key))"

definition ecies_secp256r1_encrypt :: "key_lib \<Rightarrow> 'r os_rng \<Rightarrow> bytes \<Rightarrow> bytes \<Rightarrow> ('r, crypto_error, bytes) sampled" where
  "ecies_secp256r1_encrypt K G recipient plaintext =
     sample_then (generate_random K G Secp256r1) (\<lambda>ephemeral_private.
     let ephemeral_public = as_public_key K ephemeral_private in
     sample_then (sample_return (ecdh K CurveSecp256r1 (private_key_to_bytes ephemeral_private) recipient)) (\<lambda>shared_secret_x.
     let ephemeral_public_uncompressed = to_uncompressed_bytes K ephemeral_public in
     sample_then (sample_return (secp256r1_derive_keys K ephemeral_public_uncompressed shared_secret_x)) (\<lambda>(encryption_key, mac_key).
     sample_then (generate_random_bytes G 16) (\<lambda>iv.
     sample_then (cbc_encrypt K G encryption_key (Some iv) plaintext) (\<lambda>iv_and_ciphertext.
     let ciphertext_only = drop 16 iv_and_ciphertext;
         hmac = hmac_sha512 K mac_key (ciphertext_only @ replicate 8 0)
     in sample_return (Ok (ephemeral_public_uncompressed @ ciphertext_only @ hmac @ iv)))))))"

definition ecies_secp256r1_decrypt :: "key_lib \<Rightarrow> bytes \<Rightarrow> bytes \<Rightarrow> crypto_error + bytes" where
  "ecies_secp256r1_decrypt K recipient ciphertext =
     (if length ciphertext < 161 then Err CryptoDecryptionFailed
      else
        let ephemeral_public_bytes = take 65 ciphertext;
            iv_start = length ciphertext - 16;
            hmac_start = length ciphertext - 80;
            encrypted_data = drop 65 (take hmac_start ciphertext);
            received_hmac = drop hmac_start (take iv_start ciphertext);
            iv = drop iv_start ciphertext
        in and_then (secp256r1_public_try_from (kl_crypto K) ephemeral_public_bytes) (\<lambda>ephemeral_public.
           and_then (ecdh K CurveSecp256r1 recipient (public_key_as_ref ephemeral_public)) (\<lambda>shared_secret_x.
           and_then (secp256r1_derive_keys K ephemeral_public_bytes shared_secret_x) (\<lambda>(encryption_key, mac_key).
           if hmac_sha512 K mac_key (encrypted_data @ replicate 8 0) \<noteq> received_hmac then Err CryptoDecryptionFailed
           else cbc_decrypt K encryption_key (iv @ encrypted_data)))))"

section \<open>Encryption with keys\<close>

fun public_encrypt :: "key_lib \<Rightarrow> 'r os_rng \<Rightarrow> any_public_key \<Rightarrow> bytes \<Rightarrow> ('r, crypto_error, bytes) sampled" where
  "public_encrypt K G (PubSecp256k1 b) plaintext = ecies_secp256k1_encrypt K G b plaintext"
| "public_encrypt K G (PubEd25519 b) plaintext =
     sample_then (sample_return (ed25519_to_x25519_public K b)) (\<lambda>x25519_public. ecies_x25519_encrypt K G x25519_public plaintext)"
| "public_encrypt K G (PubSecp256r1 b) plaintext = ecies_secp256r1_encrypt K G b plaintext"

definition public_decrypt :: "any_public_key \<Rightarrow> bytes \<Rightarrow> crypto_error + bytes" where
  "public_decrypt key ciphertext = Err CryptoInvalidOperation"

definition private_encrypt :: "key_lib \<Rightarrow> 'r os_rng \<Rightarrow> any_private_key \<Rightarrow> bytes \<Rightarrow> ('r, crypto_error, bytes) sampled" where
  "private_encrypt K G key plaintext = public_encrypt K G (as_public_key K key) plaintext"

fun private_decrypt :: "key_lib \<Rightarrow> any_private_key \<Rightarrow> bytes \<Rightarrow> crypto_error + bytes" where
  "private_decrypt K (PrivSecp256k1 k) ciphertext = ecies_secp256k1_decrypt K k ciphertext"
| "private_decrypt K (PrivEd25519 k) ciphertext =
     and_then (ed25519_to_x25519_private K k) (\<lambda>x25519_private. ecies_x25519_decrypt K x25519_private ciphertext)"
| "private_decrypt K (PrivSecp256r1 k) ciphertext = ecies_secp256r1_decrypt K k ciphertext"

definition x25519_private_encrypt :: "key_lib \<Rightarrow> 'r os_rng \<Rightarrow> bytes \<Rightarrow> bytes \<Rightarrow> ('r, crypto_error, bytes) sampled" where
  "x25519_private_encrypt K G k plaintext = ecies_x25519_encrypt K G (x25519_derive_public_key K k) plaintext"

end
