(* ===== verification/KeyedAccount.thy ===== *)
theory KeyedAccount
  imports Ecies
begin

text \<open>
  Accounts that hold private keys (\<open>keetanetwork-account/src/account.rs\<close>).  A \<open>keyed_account\<close> is the
  public identity of an account and, for the three signing key types, an optional private key.  The
  key type that is a type parameter in the source is an argument here.
\<close>

section \<open>Key material\<close>

datatype keyable =
    KeyPassphrase "string list" "32 word" | KeySeed bytes "32 word" | KeyHexSeed string "32 word"
  | KeyPublicKeyString string | KeyPrivateKey bytes | KeyPublicKey bytes | KeyIdentifier string

definition keyable_of_seed :: "bytes \<Rightarrow> keyable" where "keyable_of_seed seed = KeySeed seed 0"
definition keyable_of_hex :: "string \<Rightarrow> keyable" where "keyable_of_hex hex_seed = KeyHexSeed hex_seed 0"
definition keyable_of_words :: "string list \<Rightarrow> keyable" where "keyable_of_words passphrase = KeyPassphrase passphrase 0"
definition keyable_of_seed_index :: "bytes \<times> 32 word \<Rightarrow> keyable" where
  "keyable_of_seed_index p = (case p of (seed, index) \<Rightarrow> KeySeed seed index)"
definition keyable_of_hex_index :: "string \<times> 32 word \<Rightarrow> keyable" where
  "keyable_of_hex_index p = (case p of (hex_seed, index) \<Rightarrow> KeyHexSeed hex_seed index)"
definition keyable_of_words_index :: "string list \<times> 32 word \<Rightarrow> keyable" where
  "keyable_of_words_index p = (case p of (passphrase, index) \<Rightarrow> KeyPassphrase passphrase index)"

record keyed_account =
  ka_account :: generic_account
  ka_private :: "bytes option"

datatype accountable = AccountableKey keyed_account | AccountableAccount keyed_account | KeyAndType keyable keypair_type

fun any_private_key_of :: "algorithm \<Rightarrow> bytes \<Rightarrow> any_private_key" where
  "any_private_key_of Secp256k1 k = PrivSecp256k1 k"
| "any_private_key_of Ed25519Alg k = PrivEd25519 k"
| "any_private_key_of Secp256r1 k = PrivSecp256r1 k"

fun any_public_key_of :: "algorithm \<Rightarrow> bytes \<Rightarrow> any_public_key" where
  "any_public_key_of Secp256k1 b = PubSecp256k1 b"
| "any_public_key_of Ed25519Alg b = PubEd25519 b"
| "any_public_key_of Secp256r1 b = PubSecp256r1 b"

definition public_only :: "generic_account \<Rightarrow> keyed_account" where
  "public_only a = \<lparr>ka_account = a, ka_private = None\<rparr>"

definition account_of_private_key :: "key_lib \<Rightarrow> any_private_key \<Rightarrow> keyed_account" where
  "account_of_private_key K key =
     \<lparr>ka_account = mk_account (keypair_type_of_algorithm (private_key_algorithm key)) (public_key_as_ref (as_public_key K key)),
      ka_private = Some (private_key_to_bytes key)\<rparr>"

section \<open>Derivation\<close>

fun algorithm_discriminant :: "algorithm \<Rightarrow> byte" where
  "algorithm_discriminant Secp256k1 = 0"
| "algorithm_discriminant Ed25519Alg = 1"
| "algorithm_discriminant Secp256r1 = 2"

definition seed_to_private_key :: "key_lib \<Rightarrow> keypair_type \<Rightarrow> bytes \<Rightarrow> 32 word \<Rightarrow> account_error + any_private_key" where
  "seed_to_private_key K t seed index =
     (case algorithm_of_keypair_type t of
        Inl _ \<Rightarrow> Err InvalidConstruction
      | Inr alg \<Rightarrow> map_err account_error_of_crypto (derive_from_seed K alg (combine_seed_and_index seed index)))"

definition derive_public_key_string :: "key_lib \<Rightarrow> keypair_type \<Rightarrow> any_private_key \<Rightarrow> account_error + string" where
  "derive_public_key_string K t key =
     (case algorithm_of_keypair_type t of
        Inl _ \<Rightarrow> Err InvalidConstruction
      | Inr alg \<Rightarrow>
          if private_key_algorithm key = alg
          then format_public_key_string (kl_crypto K) (public_key_to_bytes (kl_crypto K) (as_public_key K key)) (algorithm_discriminant alg)
          else Err InvalidConstruction)"

definition derive_keypair :: "key_lib \<Rightarrow> keypair_type \<Rightarrow> bytes \<Rightarrow> 32 word \<Rightarrow> account_error + any_private_key" where
  "derive_keypair K t seed index =
     and_then (seed_to_private_key K t seed index) (\<lambda>any_private_key.
     and_then (derive_public_key_string K t any_private_key) (\<lambda>_.
     if Ok (private_key_algorithm any_private_key) = algorithm_of_keypair_type t then Ok any_private_key
     else Err InvalidKeyType))"

fun join_spaces :: "string list \<Rightarrow> string" where
  "join_spaces [] = []"
| "join_spaces [w] = w"
| "join_spaces (w # ws) = w @ CHR '' '' # join_spaces ws"

definition compute_seed_from_passphrase :: "key_lib \<Rightarrow> string list \<Rightarrow> account_error + bytes" where
  "compute_seed_from_passphrase K passphrase =
     map_err account_error_of_crypto (seed_from_passphrase K (join_spaces passphrase))"

definition generate_passphrase :: "'r os_rng \<Rightarrow> string list \<Rightarrow> ('r, account_error, string list) sampled" where
  "generate_passphrase G english = sample_map_err account_error_of_crypto (generate_random_passphrase G english)"

definition account_random_seed :: "'r os_rng \<Rightarrow> ('r, account_error, bytes) sampled" where
  "account_random_seed G = sample_map_err account_error_of_crypto (generate_random_seed G)"

section \<open>Construction\<close>

fun crypto_key_try_from :: "key_lib \<Rightarrow> keypair_type \<Rightarrow> keyable \<Rightarrow> account_error + keyed_account" where
  "crypto_key_try_from K t (KeyPassphrase passphrase index) =
     and_then (map_err account_error_of_crypto (seed_from_passphrase K (join_spaces passphrase))) (\<lambda>seed.
     and_then (derive_keypair K t seed index) (\<lambda>key. Ok (account_of_private_key K key)))"
| "crypto_key_try_from K t (KeySeed seed index) =
     and_then (derive_keypair K t seed index) (\<lambda>key. Ok (account_of_private_key K key))"
| "crypto_key_try_from K t (KeyHexSeed s index) =
     and_then (ok_or InvalidConstruction (hex_decode (kl_crypto K) s)) (\<lambda>decoded.
     if length decoded \<noteq> 32 then Err InvalidConstruction
     else and_then (derive_keypair K t decoded index) (\<lambda>key. Ok (account_of_private_key K key)))"
| "crypto_key_try_from K t (KeyPublicKeyString s) =
     and_then (crypto_key_from_public_key_string (kl_crypto K) t s) (\<lambda>a. Ok (public_only a))"
| "crypto_key_try_from K t (KeyPublicKey bs) =
     and_then (crypto_key_from_public_key (kl_crypto K) t bs) (\<lambda>a. Ok (public_only a))"
| "crypto_key_try_from K t (KeyPrivateKey bs) =
     (if length bs \<noteq> 32 then Err InvalidConstruction
      else and_then (algorithm_of_keypair_type t) (\<lambda>alg.
           and_then (map_err account_error_of_crypto (private_key_try_from K alg bs)) (\<lambda>key.
             Ok (account_of_private_key K key))))"
| "crypto_key_try_from K t (KeyIdentifier _) = Err InvalidIdentifierConstruction"

fun identifier_key_try_from :: "crypto_lib \<Rightarrow> keypair_type \<Rightarrow> keyable \<Rightarrow> account_error + keyed_account" where
  "identifier_key_try_from L t (KeyIdentifier id_str) =
     and_then (identifier_from_id L t (str_bytes id_str)) (\<lambda>a. Ok (public_only a))"
| "identifier_key_try_from L t (KeyPublicKeyString s) =
     and_then (identifier_from_public_key_string L t s) (\<lambda>a. Ok (public_only a))"
| "identifier_key_try_from L t (KeySeed seed index) =
     and_then (identifier_from_seed L t seed index) (\<lambda>a. Ok (public_only a))"
| "identifier_key_try_from L t _ = Err InvalidConstruction"

definition keypair_try_from :: "key_lib \<Rightarrow> keypair_type \<Rightarrow> keyable \<Rightarrow> account_error + keyed_account" where
  "keypair_try_from K t key =
     (if is_identifier t then identifier_key_try_from (kl_crypto K) t key else crypto_key_try_from K t key)"

fun account_try_from :: "key_lib \<Rightarrow> keypair_type \<Rightarrow> accountable \<Rightarrow> account_error + keyed_account" where
  "account_try_from K t (AccountableAccount account) = Ok account"
| "account_try_from K t (AccountableKey key) = Ok key"
| "account_try_from K t (KeyAndType key key_type) =
     (if key_type = t then keypair_try_from K t key else Err InvalidKeyType)"

definition generic_of_private_key :: "key_lib \<Rightarrow> any_private_key \<Rightarrow> account_error + keyed_account" where
  "generic_of_private_key K key =
     (let t = keypair_type_of_algorithm (private_key_algorithm key) in
      account_try_from K t (KeyAndType (KeyPrivateKey (private_key_to_bytes key)) t))"

definition generic_of_public_key :: "key_lib \<Rightarrow> any_public_key \<Rightarrow> account_error + keyed_account" where
  "generic_of_public_key K key =
     (let t = keypair_type_of_algorithm (public_key_algorithm key) in
      account_try_from K t (KeyAndType (KeyPublicKey (public_key_to_bytes (kl_crypto K) key)) t))"

definition to_public_account :: "key_lib \<Rightarrow> keyed_account \<Rightarrow> account_error + keyed_account" where
  "to_public_account K a =
     (let t = to_keypair_type (ka_account a) in
      and_then (to_public_key_string (kl_crypto K) (ka_account a)) (\<lambda>s.
        account_try_from K t (KeyAndType (KeyPublicKeyString s) t)))"

definition typed_from_hex :: "key_lib \<Rightarrow> keypair_type \<Rightarrow> string \<Rightarrow> account_error + keyed_account" where
  "typed_from_hex K t hex =
     and_then (ok_or InvalidConstruction (hex_decode (kl_crypto K) hex)) (\<lambda>data.
     if length data < 2 then Err InvalidConstruction
     else
       let key_type_byte = data ! 0; data_bytes = drop 1 data in
       if key_type_byte \<noteq> keypair_type_id t then Err InvalidConstruction
       else and_then
              (if is_identifier t
               then and_then (format_public_key_string (kl_crypto K) data_bytes key_type_byte) (\<lambda>s. Ok (KeyPublicKeyString s))
               else Ok (KeyPublicKey data_bytes))
              (\<lambda>key. account_try_from K t (KeyAndType key t)))"

definition encode_hex :: "crypto_lib \<Rightarrow> generic_account \<Rightarrow> string" where
  "encode_hex L a =
     (let data_bytes = (case parse_public_key L (account_to_string L a) of Inr (bs, _) \<Rightarrow> bs | Inl _ \<Rightarrow> []) in
      hex_encode_upper L (keypair_type_id (to_keypair_type a) # data_bytes))"

definition typed_of_generic :: "keypair_type \<Rightarrow> keyed_account \<Rightarrow> account_error + keyed_account" where
  "typed_of_generic t a = (if to_keypair_type (ka_account a) = t then Ok a else Err InvalidConstruction)"

definition typed_from_str :: "key_lib \<Rightarrow> keypair_type \<Rightarrow> string \<Rightarrow> account_error + keyed_account" where
  "typed_from_str K t s =
     and_then (account_from_str (kl_crypto K) s) (\<lambda>a.
       if to_keypair_type a = t then Ok (public_only a) else Err InvalidConstruction)"

section \<open>Identity and custody\<close>

definition is_network_account :: "generic_account \<Rightarrow> bool" where
  "is_network_account a \<longleftrightarrow> to_keypair_type a = NETWORK"
definition is_token_account :: "generic_account \<Rightarrow> bool" where
  "is_token_account a \<longleftrightarrow> to_keypair_type a = TOKEN"
definition is_storage_account :: "generic_account \<Rightarrow> bool" where
  "is_storage_account a \<longleftrightarrow> to_keypair_type a = STORAGE"
definition is_multisig_account :: "generic_account \<Rightarrow> bool" where
  "is_multisig_account a \<longleftrightarrow> to_keypair_type a = MULTISIG"

definition compare_public_key :: "crypto_lib \<Rightarrow> generic_account \<Rightarrow> string \<Rightarrow> bool" where
  "compare_public_key L a other \<longleftrightarrow> account_to_string L a = other"

definition compare_account :: "crypto_lib \<Rightarrow> generic_account \<Rightarrow> generic_account \<Rightarrow> bool" where
  "compare_account L a other \<longleftrightarrow> account_to_string L a = account_to_string L other"

definition has_private_key :: "keyed_account \<Rightarrow> bool" where
  "has_private_key a \<longleftrightarrow>
     (case to_keypair_type (ka_account a) of
        ECDSASECP256K1 \<Rightarrow> ka_private a \<noteq> None
      | ED25519 \<Rightarrow> ka_private a \<noteq> None
      | ECDSASECP256R1 \<Rightarrow> ka_private a \<noteq> None
      | _ \<Rightarrow> False)"

definition take_private_key :: "keyed_account \<Rightarrow> any_private_key option" where
  "take_private_key a =
     (case algorithm_of_keypair_type (to_keypair_type (ka_account a)) of
        Inl _ \<Rightarrow> None
      | Inr alg \<Rightarrow> map_option (any_private_key_of alg) (ka_private a))"

definition private_key_of_keypair :: "keyed_account \<Rightarrow> account_error + any_private_key" where
  "private_key_of_keypair a = ok_or InvalidConstruction (take_private_key a)"

definition supports_encryption :: "generic_account \<Rightarrow> bool" where
  "supports_encryption a \<longleftrightarrow> is_ok (algorithm_of_keypair_type (to_keypair_type a))"

definition signature_size :: "generic_account \<Rightarrow> nat" where
  "signature_size a = (case algorithm_of_keypair_type (to_keypair_type a) of Inl _ \<Rightarrow> 0 | Inr _ \<Rightarrow> 64)"

section \<open>Signing and encryption\<close>

definition account_key_sign :: "key_lib \<Rightarrow> keyed_account \<Rightarrow> bytes \<Rightarrow> signing_options option \<Rightarrow> account_error + bytes" where
  "account_key_sign K a message options =
     (case algorithm_of_keypair_type (to_keypair_type (ka_account a)) of
        Inl _ \<Rightarrow> Err NoIdentifierSign
      | Inr alg \<Rightarrow>
          and_then (ok_or InvalidConstruction (ka_private a)) (\<lambda>k.
            map_err account_error_of_crypto (sign_with_options K (any_private_key_of alg k) message
              (case options of Some o' \<Rightarrow> o' | None \<Rightarrow> default_options))))"

definition account_key_verify ::
    "key_lib \<Rightarrow> generic_account \<Rightarrow> bytes \<Rightarrow> bytes \<Rightarrow> signing_options option \<Rightarrow> account_error + unit" where
  "account_key_verify K a message signature options =
     (case algorithm_of_keypair_type (to_keypair_type a) of
        Inl _ \<Rightarrow> Err NoIdentifierVerify
      | Inr alg \<Rightarrow>
          map_err account_error_of_crypto
            (and_then (key_signature_try_from (kl_x509 K) alg signature) (\<lambda>sig.
               verify_with_options K (any_public_key_of alg (as_public_key_bytes a)) message sig
                 (case options of Some o' \<Rightarrow> o' | None \<Rightarrow> default_options))))"

definition account_encrypt :: "key_lib \<Rightarrow> 'r os_rng \<Rightarrow> generic_account \<Rightarrow> bytes \<Rightarrow> ('r, account_error, bytes) sampled" where
  "account_encrypt K G a plaintext =
     (case algorithm_of_keypair_type (to_keypair_type a) of
        Inl _ \<Rightarrow> sample_return (Err EncryptionNotSupported)
      | Inr alg \<Rightarrow>
          sample_map_err account_error_of_crypto (public_encrypt K G (any_public_key_of alg (as_public_key_bytes a)) plaintext))"

definition account_decrypt :: "key_lib \<Rightarrow> keyed_account \<Rightarrow> bytes \<Rightarrow> account_error + bytes" where
  "account_decrypt K a ciphertext =
     (case algorithm_of_keypair_type (to_keypair_type (ka_account a)) of
        Inl _ \<Rightarrow> Err EncryptionNotSupported
      | Inr alg \<Rightarrow>
          and_then (ok_or InvalidConstruction (ka_private a)) (\<lambda>k.
            map_err account_error_of_crypto (private_decrypt K (any_private_key_of alg k) ciphertext)))"

section \<open>Certificates\<close>

definition algorithm_identifier_of_account :: "generic_account \<Rightarrow> account_error + algorithm_identifier" where
  "algorithm_identifier_of_account a =
     and_then (algorithm_of_keypair_type (to_keypair_type a)) (\<lambda>alg.
       Ok \<lparr>ai_oid = algorithm_oid alg, ai_parameters = None\<rparr>)"

definition spki_of_account :: "key_lib \<Rightarrow> generic_account \<Rightarrow> account_error + subject_public_key_info" where
  "spki_of_account K a =
     and_then (algorithm_of_keypair_type (to_keypair_type a)) (\<lambda>alg.
       Ok \<lparr>spki_algorithm = algorithm_identifier_of (xl_oids (kl_x509 K)) alg,
          spki_key = bit_string_from_bytes (as_public_key_bytes a)\<rparr>)"

end
