(* ===== verification/KeyLaws.thy ===== *)
theory KeyLaws
  imports KeyedAccount X509Laws
begin

text \<open>
  What keys and keyed accounts rely on from the crates below (\<open>key_laws\<close>, and \<open>random_octets\<close> for the
  random number generator), and what follows: the derivation loop takes the first valid candidate,
  each of the three encryption schemes is inverted by its decryption, signatures verify, and every
  account that is constructed is well-formed.
\<close>

unbundle bit_operations_syntax

section \<open>Well-formed keys and accounts\<close>

fun algorithm_curve :: "algorithm \<Rightarrow> ecdsa_curve option" where
  "algorithm_curve Secp256k1 = Some CurveSecp256k1"
| "algorithm_curve Ed25519Alg = None"
| "algorithm_curve Secp256r1 = Some CurveSecp256r1"

definition valid_private :: "key_lib \<Rightarrow> any_private_key \<Rightarrow> bool" where
  "valid_private K key \<longleftrightarrow>
     (case algorithm_curve (private_key_algorithm key) of
        None \<Rightarrow> length (private_key_to_bytes key) = 32
      | Some curve \<Rightarrow> ec_secret K curve (private_key_to_bytes key) = Some (private_key_to_bytes key))"

definition wf_keyed :: "key_lib \<Rightarrow> keyed_account \<Rightarrow> bool" where
  "wf_keyed K a \<longleftrightarrow>
     wf_account (kl_crypto K) (ka_account a) \<and>
     (case ka_private a of
        None \<Rightarrow> True
      | Some k \<Rightarrow>
          (case algorithm_of_keypair_type (to_keypair_type (ka_account a)) of
             Inl _ \<Rightarrow> False
           | Inr alg \<Rightarrow>
               valid_private K (any_private_key_of alg k) \<and>
               as_public_key K (any_private_key_of alg k) = any_public_key_of alg (as_public_key_bytes (ka_account a))))"

definition random_octets :: "'r os_rng \<Rightarrow> bool" where
  "random_octets G \<longleftrightarrow> (\<forall>r n. \<exists>bs r'. G r n = (Some bs, r') \<and> length bs = n)"

lemma random_octetsE:
  assumes "random_octets G"
  obtains bs r' where "G r n = (Some bs, r')" "length bs = n"
  using assms unfolding random_octets_def by blast

lemma any_private_key_of_sel [simp]:
  "private_key_algorithm (any_private_key_of alg k) = alg" "private_key_to_bytes (any_private_key_of alg k) = k"
  by (cases alg; simp)+

lemma any_private_key_of_id [simp]: "any_private_key_of (private_key_algorithm key) (private_key_to_bytes key) = key"
  by (cases key) auto

lemma any_public_key_of_sel [simp]:
  "public_key_algorithm (any_public_key_of alg b) = alg" "public_key_as_ref (any_public_key_of alg b) = b"
  by (cases alg; simp)+

lemma as_public_key_algorithm [simp]: "public_key_algorithm (as_public_key K key) = private_key_algorithm key"
  by (cases key) auto

lemma any_public_key_of_id [simp]: "any_public_key_of (public_key_algorithm key) (public_key_as_ref key) = key"
  by (cases key) auto

lemma algorithm_of_keypair_type_of [simp]: "algorithm_of_keypair_type (keypair_type_of_algorithm alg) = Inr alg"
  by (cases alg) auto

lemma algorithm_of_keypair_type_inv: "algorithm_of_keypair_type t = Inr alg \<Longrightarrow> t = keypair_type_of_algorithm alg"
  by (cases t) auto

lemma identifier_no_algorithm: "is_identifier t \<longleftrightarrow> algorithm_of_keypair_type t = Inl InvalidKeyType"
  by (cases t) (auto simp: is_identifier_iff)

lemma crypto_type_algorithm: "\<not> is_identifier t \<Longrightarrow> \<exists>alg. algorithm_of_keypair_type t = Inr alg"
  by (cases t) (auto simp: is_identifier_iff)

text \<open>
  The specification of key derivation on the two ECDSA curves: the candidates are the expansions of
  the seed and of the seed followed by the counters 1 to 99, and the key is the first valid one.
\<close>

definition candidate :: "key_lib \<Rightarrow> bytes \<Rightarrow> 32 word \<Rightarrow> bytes" where
  "candidate K seed attempt = the (hkdf_from_prk K Sha3_256 (if attempt = 0 then seed else seed @ u32_to_be_bytes attempt) [] 32)"

definition first_valid :: "key_lib \<Rightarrow> ecdsa_curve \<Rightarrow> bytes \<Rightarrow> bytes option" where
  "first_valid K curve seed =
     map_option (\<lambda>c. the (ec_secret K curve c))
       (find (\<lambda>c. ec_secret K curve c \<noteq> None) (map (candidate K seed) (map word_of_nat [0..<100])))"

lemma clamp_length [simp]: "length (clamp bs) = length bs"
  by (simp add: clamp_def Let_def)

section \<open>The laws\<close>

locale key_laws = x509_laws "kl_x509 K" for K :: key_lib +
  assumes sha2_256_length: "length (sha2_256 (kl_x509 K) bs) = 32"
    and sha2_512_length: "length (sha2_512 (kl_x509 K) bs) = 64"
    and prk_expand: "hkdf_from_prk K h prk info n = None \<longleftrightarrow>
      length prk < hash_algorithm_length h \<or> 255 * hash_algorithm_length h < n"
    and prk_expand_length: "hkdf_from_prk K h prk info n = Some okm \<Longrightarrow> length okm = n"
    and keystream_length: "length (aes128_keystream K key iv n) = n"
    and cbc_inverse: "length key = 32 \<Longrightarrow> length iv = 16 \<Longrightarrow>
      aes256_cbc_decrypt K key iv (aes256_cbc_encrypt K key iv m) = Some m"
    and cbc_padded: "length iv = 16 \<Longrightarrow> 16 \<le> length (aes256_cbc_encrypt K key iv m)"
    and cbc_first_block: "length key = 32 \<Longrightarrow> length iv = 16 \<Longrightarrow> length iv' = 16 \<Longrightarrow>
      aes256_cbc_decrypt K key iv c = Some m \<Longrightarrow> 16 \<le> length m \<Longrightarrow>
      aes256_cbc_decrypt K key iv' c = Some (xor_bytes (take 16 m) (xor_bytes iv iv') @ drop 16 m)"
    and hmac_sha256_length: "length (hmac_sha256 K key bs) = 32"
    and hmac_sha512_length: "length (hmac_sha512 K key bs) = 64"
    and ec_secret_canonical: "ec_secret K curve bs = Some k \<Longrightarrow> length k = 32 \<and> ec_secret K curve k = Some k"
    and ec_public_point: "ec_secret K curve k = Some k \<Longrightarrow>
      sec1_compress (kl_crypto K) curve (ec_public K curve k) = Some (ec_public K curve k)"
    and ec_uncompressed_point: "ec_secret K curve k = Some k \<Longrightarrow>
      length (ec_uncompressed K curve (ec_public K curve k)) = 65 \<and>
      sec1_compress (kl_crypto K) curve (ec_uncompressed K curve (ec_public K curve k)) = Some (ec_public K curve k)"
    and ec_dh_commute: "ec_secret K curve k = Some k \<Longrightarrow> ec_secret K curve k' = Some k' \<Longrightarrow>
      ec_dh K curve k (ec_public K curve k') = ec_dh K curve k' (ec_public K curve k)"
    and ec_sign_verify: "ec_secret K curve k = Some k \<Longrightarrow> ec_sign K curve k digest = Some s \<Longrightarrow>
      length s = 64 \<and> ec_signature (kl_x509 K) curve s \<and> ec_verify (kl_x509 K) curve (ec_public K curve k) digest s"
    and ec_key_parse: "sec1_compress (kl_crypto K) curve bs \<noteq> None \<Longrightarrow> ec_key (kl_x509 K) curve bs"
    and ed_public_point: "length k = 32 \<Longrightarrow> length (ed_public K k) = 32 \<and> ed25519_point (kl_crypto K) (ed_public K k)"
    and ed_sign_verify: "length k = 32 \<Longrightarrow> ed_sign K k m = Some s \<Longrightarrow>
      length s = 64 \<and> ed_verify (kl_x509 K) (ed_public K k) m s"
    and ed_key_parse: "length bs = 32 \<Longrightarrow> ed25519_point (kl_crypto K) bs \<Longrightarrow> ed_key (kl_x509 K) bs"
    and montgomery_public: "length k = 32 \<Longrightarrow> ed_to_montgomery K (ed_public K k) =
      Some (x25519 K (clamp (take 32 (sha2_512 (kl_x509 K) k))) (x25519_base K))"
    and x25519_length: "length (x25519 K k u) = 32"
    and x25519_commute: "length k = 32 \<Longrightarrow> length k' = 32 \<Longrightarrow>
      x25519 K k (x25519 K k' (x25519_base K)) = x25519 K k' (x25519 K k (x25519_base K))"
    and key_oids: "oid_new (kl_x509 K) EC_PUBLIC_KEY = Some OID_EC_PUBLIC_KEY"
      "oid_new (kl_x509 K) X_SECP256K1 = Some OID_SECP256K1" "oid_new (kl_x509 K) X_SECP256R1 = Some OID_SECP256R1"
      "oid_new (kl_x509 K) X_ED25519 = Some OID_ED25519"
    and curve_oids_encode: "oid_to_der (xl_oids (kl_x509 K)) OID_SECP256K1 \<noteq> None"
      "oid_to_der (xl_oids (kl_x509 K)) OID_SECP256R1 \<noteq> None"
begin

section \<open>Derivation\<close>

lemma expand_candidate:
  "expand_only_array K 32 HkdfSha3_256 prk [] =
     (if length prk < 32 then Inl CryptoKeyDerivationFailed else Inr (the (hkdf_from_prk K Sha3_256 prk [] 32)))"
  using prk_expand[of Sha3_256 prk "[]" 32]
  by (cases "hkdf_from_prk K Sha3_256 prk [] 32") (auto simp: expand_only_array_def expand_only_def)

lemma derive_attempt_step:
  assumes "32 \<le> length seed" and "take (length seed) buf = seed" and "attempt = 0 \<longrightarrow> buf = seed"
  shows "\<exists>buf'. derive_attempt K curve (length seed) (buf, found, found \<noteq> None) attempt =
      Inr (buf', (case found of Some k \<Rightarrow> Some k | None \<Rightarrow> ec_secret K curve (candidate K seed attempt)),
        (case found of Some k \<Rightarrow> Some k | None \<Rightarrow> ec_secret K curve (candidate K seed attempt)) \<noteq> None) \<and>
    take (length seed) buf' = seed"
proof -
  let ?buf = "if attempt > 0 then take (length seed) buf @ u32_to_be_bytes attempt else buf"
  have b: "?buf = (if attempt = 0 then seed else seed @ u32_to_be_bytes attempt)"
    using assms(2,3) by (auto simp: word_neq_0_conv)
  then have "expand_only_array K 32 HkdfSha3_256 ?buf [] = Inr (candidate K seed attempt)"
    using assms(1) by (simp add: expand_candidate candidate_def)
  moreover have "take (length seed) ?buf = seed" using b by simp
  ultimately show ?thesis
    by (auto simp: derive_attempt_def Let_def split: option.splits)
qed

lemma derive_attempts:
  assumes "32 \<le> length seed" and "take (length seed) buf = seed" and "0 \<notin> set attempts"
  shows "\<exists>buf' flag. try_fold (derive_attempt K curve (length seed)) (buf, found, found \<noteq> None) attempts =
    Inr (buf', (case found of Some k \<Rightarrow> Some k
       | None \<Rightarrow> map_option (\<lambda>c. the (ec_secret K curve c)) (find (\<lambda>c. ec_secret K curve c \<noteq> None) (map (candidate K seed) attempts))), flag)"
  using assms(2,3)
proof (induction attempts arbitrary: buf found)
  case Nil
  then show ?case by (auto split: option.splits)
next
  case (Cons attempt attempts)
  let ?found = "case found of Some k \<Rightarrow> Some k | None \<Rightarrow> ec_secret K curve (candidate K seed attempt)"
  obtain buf' where "derive_attempt K curve (length seed) (buf, found, found \<noteq> None) attempt = Inr (buf', ?found, ?found \<noteq> None)"
    "take (length seed) buf' = seed"
    using derive_attempt_step[OF assms(1), of buf attempt curve found] Cons.prems by auto
  then show ?case using Cons.IH[of buf' ?found] Cons.prems(2)
    by (auto split: option.splits)
qed

lemma attempts_split: "map word_of_nat [0..<100] = (0 :: 32 word) # map word_of_nat [1..<100]" "(0 :: 32 word) \<notin> set (map word_of_nat [1..<100])"
proof -
  show "map word_of_nat [0..<100] = (0 :: 32 word) # map word_of_nat [1..<100]"
    by (subst upt_conv_Cons) simp_all
  have "word_of_nat n \<noteq> (0 :: 32 word)" if "0 < n" "n < 100" for n
  proof -
    have "unat (word_of_nat n :: 32 word) = n" using that by (simp add: unat_of_nat)
    then show ?thesis using that by (metis neq0_conv unsigned_0)
  qed
  then show "(0 :: 32 word) \<notin> set (map word_of_nat [1..<100])" by fastforce
qed

lemma derive_scalar_first_valid:
  "derive_scalar K curve seed =
     (if length seed < 32 then Inl CryptoKeyDerivationFailed else ok_or CryptoKeyDerivationFailed (first_valid K curve seed))"
proof (cases "length seed < 32")
  case True
  then have "derive_attempt K curve (length seed) (seed, None, False) 0 = Inl CryptoKeyDerivationFailed"
    by (simp add: derive_attempt_def expand_candidate)
  then show ?thesis using True by (simp add: derive_scalar_def attempts_split del: upt.simps)
next
  case False
  let ?first = "ec_secret K curve (candidate K seed 0)"
  obtain buf' where s: "derive_attempt K curve (length seed) (seed, None, False) 0 = Inr (buf', ?first, ?first \<noteq> None)"
    "take (length seed) buf' = seed"
    using derive_attempt_step[of seed seed 0 curve None] False by auto
  obtain buf'' flag where "try_fold (derive_attempt K curve (length seed)) (buf', ?first, ?first \<noteq> None) (map word_of_nat [1..<100]) =
      Inr (buf'', (case ?first of Some k \<Rightarrow> Some k
       | None \<Rightarrow> map_option (\<lambda>c. the (ec_secret K curve c))
           (find (\<lambda>c. ec_secret K curve c \<noteq> None) (map (candidate K seed) (map word_of_nat [1..<100])))), flag)"
    using derive_attempts[OF _ s(2) attempts_split(2), of curve ?first] False by auto
  then show ?thesis using False s(1)
    by (auto simp: derive_scalar_def attempts_split first_valid_def simp del: upt.simps split: option.splits)
qed

lemma derived_scalar_valid:
  assumes "derive_scalar K curve seed = Inr k"
  shows "ec_secret K curve k = Some k"
proof -
  obtain c where "find (\<lambda>c. ec_secret K curve c \<noteq> None) (map (candidate K seed) (map word_of_nat [0..<100])) = Some c"
    "k = the (ec_secret K curve c)"
    using assms by (auto simp: derive_scalar_first_valid first_valid_def simp del: upt.simps split: if_splits)
  then show ?thesis using ec_secret_canonical[of curve c k] by (auto simp: find_Some_iff simp del: upt.simps)
qed

lemma derived_key_valid: "derive_from_seed K alg seed = Inr key \<Longrightarrow> valid_private K key \<and> private_key_algorithm key = alg"
  by (cases alg)
    (auto simp: valid_private_def ed25519_derive_def crypto_hash_array_def algorithm_hash_array_def DEFAULT_HASH_ALGORITHM_def
      sha3_length dest: derived_scalar_valid)

end

section \<open>Encryption\<close>

lemma xor_bytes_length [simp]: "length (xor_bytes xs ys) = min (length xs) (length ys)"
  by (simp add: xor_bytes_def)

lemma xor_bytes_cancel: "length xs = length ys \<Longrightarrow> xor_bytes (xor_bytes xs ys) ys = xs"
  by (induction xs ys rule: list_induct2) (auto simp: xor_bytes_def xor.assoc)

lemma xor_bytes_cancel_left: "length xs = length ys \<Longrightarrow> xor_bytes xs (xor_bytes xs ys) = ys"
  by (induction xs ys rule: list_induct2) (auto simp: xor_bytes_def xor.assoc[symmetric])

context key_laws
begin

lemma keystream_inverse:
  assumes "apply_keystream K key iv m = Inr c"
  shows "apply_keystream K key iv c = Inr m \<and> length c = length m"
  using assms by (auto simp: apply_keystream_def keystream_length xor_bytes_cancel split: if_splits)

lemma public_point [simp]:
  assumes "ec_secret K curve k = Some k"
  shows "ec_point (kl_crypto K) curve (ec_public K curve k) = ec_public K curve k"
    and "ec_point (kl_crypto K) curve (ec_uncompressed K curve (ec_public K curve k)) = ec_public K curve k"
  using ec_public_point[OF assms] ec_uncompressed_point[OF assms] by (simp_all add: ec_point_def)

lemma ecdh_agree:
  assumes "ec_secret K curve k = Some k" and "ec_secret K curve e = Some e"
  shows "ecdh K curve e (ec_public K curve k) = Inr (ec_dh K curve e (ec_public K curve k))"
    and "ecdh K curve k (ec_public K curve e) = Inr (ec_dh K curve e (ec_public K curve k))"
    and "ecdh K curve k (ec_uncompressed K curve (ec_public K curve e)) = Inr (ec_dh K curve e (ec_public K curve k))"
  using assms ec_dh_commute[OF assms] by (simp_all add: ecdh_def)

lemma secp256k1_kdf_32: "secp256k1_kdf K secret 32 = sha2_256 (kl_x509 K) (u32_to_be_bytes 1 @ secret)"
  unfolding secp256k1_kdf_def by (simp add: secp256k1_kdf_loop.simps)

lemma secp256k1_derive_keys_ok:
  obtains encryption_key mac_key where "secp256k1_derive_keys K secret = Inr (encryption_key, mac_key)" "length encryption_key = 16"
  by (simp add: secp256k1_derive_keys_def secp256k1_kdf_32 algorithm_hash_array_def Let_def sha2_256_length)

lemma generate_random_valid:
  assumes "generate_random K G alg r = (Inr key, r')" and "algorithm_curve alg = Some curve"
  shows "ec_secret K curve (private_key_to_bytes key) = Some (private_key_to_bytes key)" "private_key_algorithm key = alg"
proof -
  obtain seed where "derive_from_seed K alg seed = Inr key" using assms(1) by (auto simp: generate_random_def)
  then have "valid_private K key \<and> private_key_algorithm key = alg" by (rule derived_key_valid)
  then show "ec_secret K curve (private_key_to_bytes key) = Some (private_key_to_bytes key)" "private_key_algorithm key = alg"
    using assms(2) by (auto simp: valid_private_def)
qed

lemma secp256k1_message_split:
  assumes "length p = 65" and "length iv = 16" and "length h = 32" and "ct = p @ (iv @ c) @ h"
  shows "113 \<le> length ct" "take 65 ct = p" "drop 65 (take (length ct - 32) ct) = iv @ c" "drop (length ct - 32) ct = h"
  using assms by (auto simp: drop_take)

lemma ecies_secp256k1_inverse:
  assumes "random_octets G" and "ec_secret K CurveSecp256k1 k = Some k"
    and "ecies_secp256k1_encrypt K G (ec_public K CurveSecp256k1 k) m r = (Inr ct, r')"
  shows "ecies_secp256k1_decrypt K k ct = Inr m"
proof -
  obtain key ek mk iv c r1 r2 where key: "generate_random K G Secp256k1 r = (Inr key, r1)"
    and keys: "secp256k1_derive_keys K (ec_dh K CurveSecp256k1 (private_key_to_bytes key) (ec_public K CurveSecp256k1 k)) = Inr (ek, mk)"
    and iv: "G r1 16 = (Some iv, r2)" and c: "apply_keystream K ek iv m = Inr c"
    and ct: "ct = to_uncompressed_bytes K (as_public_key K key) @ (iv @ c) @ hmac_sha256 K mk (iv @ c)"
    using assms(2,3) by (auto simp: ecies_secp256k1_encrypt_def Let_def ecdh_def encrypt_with_iv_def generate_iv_def
        resolve_iv_def IV_SIZE_def split: prod.splits)
  let ?e = "private_key_to_bytes key"
  have e: "ec_secret K CurveSecp256k1 ?e = Some ?e" "key = PrivSecp256k1 ?e"
    using generate_random_valid[OF key] by (cases key, simp_all)+
  let ?p = "ec_uncompressed K CurveSecp256k1 (ec_public K CurveSecp256k1 ?e)"
  have p: "to_uncompressed_bytes K (as_public_key K key) = ?p" using e by (cases key) auto
  have "length iv = 16" using assms(1) iv by (metis random_octetsE option.inject prod.inject)
  then have s: "113 \<le> length ct" "take 65 ct = ?p" "drop 65 (take (length ct - 32) ct) = iv @ c"
    "drop (length ct - 32) ct = hmac_sha256 K mk (iv @ c)"
    using secp256k1_message_split[of ?p iv "hmac_sha256 K mk (iv @ c)" ct c] ec_uncompressed_point[OF e(1)] hmac_sha256_length ct p
    by auto
  have "secp256k1_public_try_from (kl_crypto K) ?p = Inr (PubSecp256k1 (ec_public K CurveSecp256k1 ?e))"
    using ec_uncompressed_point[OF e(1)] by (simp add: secp256k1_public_try_from_def)
  then show ?thesis
    using s keys ecdh_agree(2)[OF assms(2) e(1)] keystream_inverse[OF c] \<open>length iv = 16\<close>
    by (simp add: ecies_secp256k1_decrypt_def Let_def decrypt_with_iv_def)
qed

lemma ecies_secp256k1_fails:
  assumes "random_octets G" and "ecies_secp256k1_encrypt K G b m r = (Inl e, r')"
  shows "e = CryptoKeyDerivationFailed \<and> (\<exists>seed r'. G r 32 = (Some seed, r') \<and> first_valid K CurveSecp256k1 seed = None)"
proof -
  obtain seed r1 where seed: "G r 32 = (Some seed, r1)" "length seed = 32" using random_octetsE[OF assms(1)] by metis
  obtain iv r2 where iv: "G r1 16 = (Some iv, r2)" "length iv = 16" using random_octetsE[OF assms(1)] by metis
  show ?thesis
  proof (cases "first_valid K CurveSecp256k1 seed")
    case None
    then show ?thesis using assms(2) seed
      by (auto simp: ecies_secp256k1_encrypt_def sample_then_def generate_random_def generate_random_seed_def
          generate_random_bytes_def derive_scalar_first_valid sample_return_def)
  next
    case (Some k)
    then have "generate_random K G Secp256k1 r = (Inr (PrivSecp256k1 k), r1)"
      using seed by (auto simp: generate_random_def generate_random_seed_def generate_random_bytes_def derive_scalar_first_valid)
    moreover obtain ek mk where "secp256k1_derive_keys K (ec_dh K CurveSecp256k1 k (ec_point (kl_crypto K) CurveSecp256k1 b)) = Inr (ek, mk)"
      "length ek = 16" by (rule secp256k1_derive_keys_ok)
    ultimately show ?thesis using assms(2) iv
      by (auto simp: ecies_secp256k1_encrypt_def sample_then_def ecdh_def sample_return_def generate_iv_def resolve_iv_def IV_SIZE_def
          generate_random_bytes_def encrypt_with_iv_def apply_keystream_def ensure_key_size_def Let_def)
  qed
qed

end

subsection \<open>X25519\<close>

context key_laws
begin

lemma cbc_with_iv:
  assumes "cbc_encrypt K G key (Some iv) m r = (Inr c, r')" and "length iv = 16"
  shows "length key = 32" "c = iv @ aes256_cbc_encrypt K key iv m" "r' = r"
  using assms by (auto simp: cbc_encrypt_def ensure_key_size_def resolve_iv_def prepend_iv_def IV_SIZE_def split: if_splits)

lemma cbc_with_iv_ok:
  "length key = 32 \<Longrightarrow> length iv = 16 \<Longrightarrow> cbc_encrypt K G key (Some iv) m r = (Inr (iv @ aes256_cbc_encrypt K key iv m), r)"
  by (auto simp: cbc_encrypt_def ensure_key_size_def resolve_iv_def prepend_iv_def IV_SIZE_def)

lemma cbc_decrypt_eq:
  "length key = 32 \<Longrightarrow> length iv = 16 \<Longrightarrow>
     cbc_decrypt K key (iv @ c) = ok_or CryptoDecryptionFailed (aes256_cbc_decrypt K key iv c)"
  by (simp add: cbc_decrypt_def ensure_key_size_def split_iv_def IV_SIZE_def)

lemma x25519_message_split:
  assumes "length iv = 16" and "length p = 32" and "length h = 32" and "ct = iv @ p @ h @ c"
  shows "80 \<le> length ct" "take 16 ct = iv" "take 32 (drop 16 ct) = p" "take 32 (drop 48 ct) = h" "drop 80 ct = c"
  using assms by auto

lemma ecies_x25519_inverse:
  assumes "random_octets G" and "length k = 32"
    and "ecies_x25519_encrypt K G (x25519 K k (x25519_base K)) m r = (Inr ct, r')"
  shows "ecies_x25519_decrypt K k ct = Inr m"
proof -
  obtain e iv c r1 r2 where e: "length e = 32" and iv: "G r1 16 = (Some iv, r2)"
    and ct: "ct = iv @ x25519 K e (x25519_base K) @
      hmac_sha256 K (drop 32 (sha2_512 (kl_x509 K) (x25519 K e (x25519 K k (x25519_base K)))))
        (iv @ x25519 K e (x25519_base K) @ drop 16 c) @ drop 16 c"
    and c: "cbc_encrypt K G (take 32 (sha2_512 (kl_x509 K) (x25519 K e (x25519 K k (x25519_base K))))) (Some iv) m r2 = (Inr c, r')"
    using assms(3) by (auto simp: ecies_x25519_encrypt_def Let_def x25519_private_try_from_def x25519_derive_public_key_def
        x25519_diffie_hellman_def split: if_splits)
  have iv16: "length iv = 16" using assms(1) iv by (metis random_octetsE option.inject prod.inject)
  have shared: "x25519 K k (x25519 K e (x25519_base K)) = x25519 K e (x25519 K k (x25519_base K))"
    using x25519_commute[OF assms(2) e] .
  note s = x25519_message_split[OF iv16 x25519_length hmac_sha256_length ct]
  show ?thesis
    using s cbc_with_iv[OF c iv16] cbc_inverse[of _ iv m] iv16
    by (simp add: ecies_x25519_decrypt_def x25519_public_try_from_def x25519_length x25519_diffie_hellman_def shared Let_def cbc_decrypt_eq)
qed

lemma ecies_x25519_succeeds:
  assumes "random_octets G"
  shows "\<exists>ct r'. ecies_x25519_encrypt K G b m r = (Inr ct, r')"
proof -
  obtain e r1 where e: "G r 32 = (Some e, r1)" "length e = 32" using random_octetsE[OF assms] by metis
  obtain iv r2 where iv: "G r1 16 = (Some iv, r2)" "length iv = 16" using random_octetsE[OF assms] by metis
  show ?thesis using e iv
    by (simp add: ecies_x25519_encrypt_def sample_then_def sample_return_def generate_random_bytes_def x25519_private_try_from_def
        Let_def cbc_with_iv_ok sha2_512_length)
qed

lemma ed25519_to_x25519:
  assumes "length k = 32"
  obtains x where "ed25519_to_x25519_private K k = Inr x" "length x = 32"
    "ed25519_to_x25519_public K (ed_public K k) = Inr (x25519 K x (x25519_base K))"
  using that montgomery_public[OF assms]
  by (simp add: ed25519_to_x25519_private_def ed25519_to_x25519_public_def crypto_hash_array_def algorithm_hash_array_def sha2_512_length)

end

subsection \<open>secp256r1\<close>

lemma secp256r1_message_split:
  assumes "length p = 65" and "length h = 64" and "length iv = 16" and "ct = p @ c @ h @ iv"
  shows "length ct = 145 + length c" "take 65 ct = p" "drop 65 (take (length ct - 80) ct) = c"
    "drop (length ct - 80) (take (length ct - 16) ct) = h" "drop (length ct - 16) ct = iv" "take (length ct - 16) ct = p @ c @ h"
  using assms by (auto simp: drop_take)

context key_laws
begin

lemma secp256r1_derive_keys_ok:
  obtains encryption_key mac_key where "secp256r1_derive_keys K p secret = Inr (encryption_key, mac_key)" "length encryption_key = 32"
proof -
  have "[1..<3 + 1] = [1, 2, 3 :: nat]" by (simp add: upt_conv_Cons)
  then show thesis using that by (simp add: secp256r1_derive_keys_def Let_def sha2_512_length)
qed

lemma ecies_secp256r1_inverse:
  assumes "random_octets G" and "ec_secret K CurveSecp256r1 k = Some k"
    and "ecies_secp256r1_encrypt K G (ec_public K CurveSecp256r1 k) m r = (Inr ct, r')"
  shows "ecies_secp256r1_decrypt K k ct = Inr m"
proof -
  obtain key ek mk iv c r1 r2 where key: "generate_random K G Secp256r1 r = (Inr key, r1)"
    and keys: "secp256r1_derive_keys K (to_uncompressed_bytes K (as_public_key K key))
      (ec_dh K CurveSecp256r1 (private_key_to_bytes key) (ec_public K CurveSecp256r1 k)) = Inr (ek, mk)"
    and iv: "G r1 16 = (Some iv, r2)" and c: "cbc_encrypt K G ek (Some iv) m r2 = (Inr c, r')"
    and ct: "ct = to_uncompressed_bytes K (as_public_key K key) @ drop 16 c @ hmac_sha512 K mk (drop 16 c @ replicate 8 0) @ iv"
    using assms(2,3) by (auto simp: ecies_secp256r1_encrypt_def Let_def ecdh_def split: prod.splits)
  let ?e = "private_key_to_bytes key"
  have e: "ec_secret K CurveSecp256r1 ?e = Some ?e" "key = PrivSecp256r1 ?e"
    using generate_random_valid[OF key] by (cases key, simp_all)+
  let ?p = "ec_uncompressed K CurveSecp256r1 (ec_public K CurveSecp256r1 ?e)"
  have p: "to_uncompressed_bytes K (as_public_key K key) = ?p" using e by (cases key) auto
  have iv16: "length iv = 16" using assms(1) iv by (metis random_octetsE option.inject prod.inject)
  note c' = cbc_with_iv[OF c iv16]
  have p65: "length ?p = 65" using ec_uncompressed_point[OF e(1)] by simp
  note s = secp256r1_message_split[OF p65 hmac_sha512_length iv16 ct[unfolded p]]
  have "16 \<le> length (drop 16 c)" using c'(2) iv16 cbc_padded by simp
  then have "161 \<le> length ct" using s(1) by linarith
  moreover have "secp256r1_public_try_from (kl_crypto K) ?p = Inr (PubSecp256r1 ?p)"
    using ec_uncompressed_point[OF e(1)] by (simp add: secp256r1_public_try_from_def)
  ultimately show ?thesis
    using s(2-5) keys[unfolded p] ecdh_agree(3)[OF assms(2) e(1)] c' cbc_inverse[of ek iv m] iv16
    by (simp add: ecies_secp256r1_decrypt_def Let_def cbc_decrypt_eq)
qed

lemma ecies_secp256r1_fails:
  assumes "random_octets G" and "ecies_secp256r1_encrypt K G b m r = (Inl e, r')"
  shows "e = CryptoKeyDerivationFailed \<and> (\<exists>seed r'. G r 32 = (Some seed, r') \<and> first_valid K CurveSecp256r1 seed = None)"
proof -
  obtain seed r1 where seed: "G r 32 = (Some seed, r1)" "length seed = 32" using random_octetsE[OF assms(1)] by metis
  obtain iv r2 where iv: "G r1 16 = (Some iv, r2)" "length iv = 16" using random_octetsE[OF assms(1)] by metis
  show ?thesis
  proof (cases "first_valid K CurveSecp256r1 seed")
    case None
    then show ?thesis using assms(2) seed
      by (auto simp: ecies_secp256r1_encrypt_def sample_then_def generate_random_def generate_random_seed_def
          generate_random_bytes_def derive_scalar_first_valid sample_return_def)
  next
    case (Some k)
    then have "generate_random K G Secp256r1 r = (Inr (PrivSecp256r1 k), r1)"
      using seed by (auto simp: generate_random_def generate_random_seed_def generate_random_bytes_def derive_scalar_first_valid)
    moreover obtain ek mk where "secp256r1_derive_keys K (to_uncompressed_bytes K (PubSecp256r1 (ec_public K CurveSecp256r1 k)))
        (ec_dh K CurveSecp256r1 k (ec_point (kl_crypto K) CurveSecp256r1 b)) = Inr (ek, mk)"
      "length ek = 32" by (rule secp256r1_derive_keys_ok)
    ultimately show ?thesis using assms(2) iv
      by (auto simp: ecies_secp256r1_encrypt_def sample_then_def ecdh_def sample_return_def
          generate_random_bytes_def cbc_with_iv_ok Let_def simp del: to_uncompressed_bytes.simps)
  qed
qed

text \<open>The initialisation vector at the end of a secp256r1 message is not covered by its authentication code.\<close>

lemma secp256r1_iv_swap:
  assumes "ecies_secp256r1_decrypt K k ct = Inr m" and "16 \<le> length m" and "length iv' = 16"
  shows "ecies_secp256r1_decrypt K k (take (length ct - 16) ct @ iv') =
    Inr (xor_bytes (take 16 m) (xor_bytes (drop (length ct - 16) ct) iv') @ drop 16 m)"
proof -
  define p c h iv where d: "p = take 65 ct" "c = drop 65 (take (length ct - 80) ct)"
    "h = drop (length ct - 80) (take (length ct - 16) ct)" "iv = drop (length ct - 16) ct"
  have len: "161 \<le> length ct" using assms(1) by (auto simp: ecies_secp256r1_decrypt_def split: if_splits)
  have l: "length p = 65" "length h = 64" "length iv = 16" "length iv' = 16" using len assms(3) by (auto simp: d)
  have "take (length ct - 80) ct @ h = take (length ct - 16) ct"
    using append_take_drop_id[of "length ct - 80" "take (length ct - 16) ct"] len by (simp add: d min_def diff_le_mono2)
  moreover have "p @ c = take (length ct - 80) ct"
    using append_take_drop_id[of 65 "take (length ct - 80) ct"] len by (simp add: d min_absorb1 le_diff_conv2)
  ultimately have pch: "p @ c @ h = take (length ct - 16) ct" by (metis append.assoc)
  then have ct: "ct = p @ c @ h @ iv" unfolding d(4) by (metis append.assoc append_take_drop_id)
  obtain pub where pub: "secp256r1_public_try_from (kl_crypto K) p = Inr pub"
    using assms(1) len by (auto simp: ecies_secp256r1_decrypt_def Let_def d)
  let ?x = "ec_dh K CurveSecp256r1 k (ec_point (kl_crypto K) CurveSecp256r1 (public_key_as_ref pub))"
  obtain ek mk where keys: "secp256r1_derive_keys K p ?x = Inr (ek, mk)" "length ek = 32" by (rule secp256r1_derive_keys_ok)
  have eq: "ecies_secp256r1_decrypt K k (p @ c @ h @ v) =
      (if hmac_sha512 K mk (c @ replicate 8 0) \<noteq> h then Inl CryptoDecryptionFailed
       else ok_or CryptoDecryptionFailed (aes256_cbc_decrypt K ek v c))" if v: "length v = 16" for v
  proof -
    define ct' where ct': "ct' = p @ c @ h @ v"
    note t = secp256r1_message_split[OF l(1,2) v ct']
    have "161 \<le> length ct'" using len ct l v by (simp add: ct')
    then have "ecies_secp256r1_decrypt K k ct' =
      (if hmac_sha512 K mk (c @ replicate 8 0) \<noteq> h then Inl CryptoDecryptionFailed
       else ok_or CryptoDecryptionFailed (aes256_cbc_decrypt K ek v c))"
      using t(2-5) pub keys v by (simp add: ecies_secp256r1_decrypt_def Let_def ecdh_def cbc_decrypt_eq)
    then show ?thesis by (simp only: ct')
  qed
  have "hmac_sha512 K mk (c @ replicate 8 0) = h" "aes256_cbc_decrypt K ek iv c = Some m"
    using eq[OF l(3)] assms(1) ct by (auto split: if_splits)
  then show ?thesis
    using eq[OF assms(3)] cbc_first_block[OF keys(2) l(3,4) _ assms(2)] by (simp add: d(4) pch[symmetric])
qed

end

section \<open>Keys of accounts\<close>

lemma account_of_private_key_type [simp]:
  "to_keypair_type (ka_account (account_of_private_key K key)) = keypair_type_of_algorithm (private_key_algorithm key)"
  by (simp add: account_of_private_key_def)

context key_laws
begin

lemma private_key_public:
  assumes "valid_private K key"
  shows "wf_account (kl_crypto K) (ka_account (account_of_private_key K key))"
proof -
  let ?k = "private_key_to_bytes key"
  show ?thesis
  proof (cases key)
    case (PrivEd25519 k)
    then show ?thesis using assms ed_public_point[of k]
      by (simp add: valid_private_def account_of_private_key_def wf_account_def)
  next
    case (PrivSecp256k1 k)
    then have "k256_compress (kl_crypto K) (ec_public K CurveSecp256k1 k) = Some (ec_public K CurveSecp256k1 k)"
      using assms ec_public_point[of CurveSecp256k1 k] by (simp add: valid_private_def)
    then show ?thesis using PrivSecp256k1 k256_canonical
      by (auto simp: account_of_private_key_def wf_account_def)
  next
    case (PrivSecp256r1 k)
    then have "p256_compress (kl_crypto K) (ec_public K CurveSecp256r1 k) = Some (ec_public K CurveSecp256r1 k)"
      using assms ec_public_point[of CurveSecp256r1 k] by (simp add: valid_private_def)
    then show ?thesis using PrivSecp256r1 p256_canonical
      by (auto simp: account_of_private_key_def wf_account_def)
  qed
qed

lemma account_of_private_key_wf:
  assumes "valid_private K key"
  shows "wf_keyed K (account_of_private_key K key)"
  using private_key_public[OF assms] assms
  by (simp add: wf_keyed_def account_of_private_key_def) (metis any_public_key_of_id as_public_key_algorithm)

lemma private_key_try_from_valid:
  "private_key_try_from K alg bs = Inr key \<Longrightarrow> valid_private K key \<and> private_key_algorithm key = alg"
  by (cases alg)
    (auto simp: valid_private_def secp256k1_private_try_from_def secp256r1_private_try_from_def ed25519_private_try_from_def
      dest: ec_secret_canonical split: if_splits)

lemma derive_keypair_valid:
  "derive_keypair K t seed index = Inr key \<Longrightarrow> valid_private K key \<and> keypair_type_of_algorithm (private_key_algorithm key) = t"
  by (auto simp: derive_keypair_def seed_to_private_key_def dest: derived_key_valid algorithm_of_keypair_type_inv split: sum.splits if_splits)

lemma public_key_try_from_wf:
  assumes "public_key_try_from (kl_crypto K) t bs = Some k"
  shows "wf_account (kl_crypto K) (mk_account t k)"
  using assms k256_canonical[of bs k] p256_length[of bs]
  by (cases t) (auto simp: public_key_try_from_def wf_account_def split: if_splits)

lemma public_only_wf: "wf_account (kl_crypto K) a \<Longrightarrow> wf_keyed K (public_only a)"
  by (simp add: wf_keyed_def public_only_def)

lemma crypto_key_try_from_wf:
  assumes "\<not> is_identifier t" and "crypto_key_try_from K t key = Inr a"
  shows "wf_keyed K a \<and> to_keypair_type (ka_account a) = t"
proof (cases key)
  case (KeyPrivateKey bs)
  then obtain alg k where "algorithm_of_keypair_type t = Inr alg" "private_key_try_from K alg bs = Inr k"
    "a = account_of_private_key K k" using assms(2) by (auto split: if_splits)
  then show ?thesis using private_key_try_from_valid[of alg bs k] account_of_private_key_wf algorithm_of_keypair_type_inv
    by auto
next
  case (KeyPublicKeyString s)
  then show ?thesis using assms(2)
    by (auto simp: crypto_key_from_public_key_string_def public_only_def wf_keyed_def dest: public_key_try_from_wf split: if_splits)
next
  case (KeyPublicKey bs)
  then show ?thesis using assms(2)
    by (auto simp: crypto_key_from_public_key_def public_only_def wf_keyed_def dest: public_key_try_from_wf split: if_splits)
next
  case (KeyIdentifier x)
  then show ?thesis using assms(2) by simp
qed (use assms(2) in \<open>auto dest!: derive_keypair_valid simp: account_of_private_key_wf split: if_splits\<close>)

lemma identifier_key_try_from_wf:
  assumes "is_identifier t" and "identifier_key_try_from (kl_crypto K) t key = Inr a"
  shows "wf_keyed K a \<and> to_keypair_type (ka_account a) = t \<and> ka_private a = None"
  using assms identifier_from_public_key_string_wf[OF assms(1)] identifier_from_seed_wf[OF assms(1)]
  by (cases key)
    (auto simp: public_only_def wf_keyed_def identifier_from_id_def identifier_key_new_def wf_account_identifier split: if_splits)

lemma keypair_try_from_wf:
  "keypair_try_from K t key = Inr a \<Longrightarrow> wf_keyed K a \<and> to_keypair_type (ka_account a) = t"
  using crypto_key_try_from_wf identifier_key_try_from_wf by (auto simp: keypair_try_from_def split: if_splits)

lemma format_parse:
  assumes "wf_account (kl_crypto K) a"
  shows "parse_public_key (kl_crypto K) (account_to_string (kl_crypto K) a) =
    Inr (as_public_key_bytes a, ok (algorithm_of_keypair_type (to_keypair_type a)))"
    and "starts_with (account_to_string (kl_crypto K) a) ''keeta_''"
proof -
  let ?s = "account_to_string (kl_crypto K) a" and ?t = "to_keypair_type a"
  have f: "format_public_key_string (kl_crypto K) (as_public_key_bytes a) (keypair_type_id ?t) = Inr ?s" by (rule account_to_string_eq)
  have "keypair_type_id ?t \<in> {2, 3, 4, 7} \<longrightarrow> length (as_public_key_bytes a) = 32"
    using assms by (cases a) (auto simp: wf_account_def)
  then have d: "decode_public_key_string (kl_crypto K) ?s = Inr (keypair_type_id ?t, as_public_key_bytes a)"
    using decode_format[OF _ f] by blast
  obtain payload where s: "?s = ''keeta_'' @ payload"
    using f unfolding format_public_key_string_def Let_def and_then_eq_Inr sum.inject by metis
  show "starts_with ?s ''keeta_''" unfolding s by (simp add: starts_with_def)
  have "\<not> starts_with ?s ''0x''" unfolding s by (simp add: starts_with_def)
  then show "parse_public_key (kl_crypto K) ?s = Inr (as_public_key_bytes a, ok (algorithm_of_keypair_type ?t))"
    using d by (cases a) (simp_all add: parse_public_key_def algorithm_from_id_def)
qed

lemma public_key_try_from_own:
  "wf_account (kl_crypto K) a \<Longrightarrow> \<not> is_identifier (to_keypair_type a) \<Longrightarrow>
     public_key_try_from (kl_crypto K) (to_keypair_type a) (as_public_key_bytes a) = Some (as_public_key_bytes a)"
  by (cases a) (auto simp: wf_account_def public_key_try_from_def is_identifier_iff)

lemma to_public_account_ok:
  assumes "wf_keyed K a"
  shows "to_public_account K a = Inr (public_only (ka_account a))"
proof -
  let ?a = "ka_account a"
  have wf: "wf_account (kl_crypto K) ?a" using assms by (simp add: wf_keyed_def)
  have s: "to_public_key_string (kl_crypto K) ?a = Inr (account_to_string (kl_crypto K) ?a)"
    using account_to_string_eq[of "kl_crypto K" ?a] by (simp add: to_public_key_string_def to_public_key_with_type_def public_key_with_type_def)
  show ?thesis
  proof (cases "is_identifier (to_keypair_type ?a)")
    case True
    have "length (as_public_key_bytes ?a) = 32" using wf True wf_account_identifier[OF True, of "kl_crypto K" "as_public_key_bytes ?a"] by simp
    then show ?thesis using True s identifier_from_format[OF True _ account_to_string_eq]
      by (simp add: to_public_account_def Let_def keypair_try_from_def)
  next
    case False
    then obtain alg where alg: "algorithm_of_keypair_type (to_keypair_type ?a) = Inr alg" using crypto_type_algorithm by blast
    then show ?thesis using False s format_parse[OF wf] public_key_try_from_own[OF wf False]
      by (simp add: to_public_account_def Let_def keypair_try_from_def crypto_key_from_public_key_string_def)
  qed
qed

end

section \<open>Operations of accounts\<close>

text \<open>An account as the signer of a certificate builder: it signs what it is given without hashing.\<close>

fun builder_algorithm :: "algorithm \<Rightarrow> key_algorithm" where
  "builder_algorithm Secp256k1 = AlgSecp256k1"
| "builder_algorithm Ed25519Alg = AlgEd25519"
| "builder_algorithm Secp256r1 = AlgSecp256r1"

definition account_signer :: "key_lib \<Rightarrow> algorithm \<Rightarrow> keyed_account \<Rightarrow> raw_signer" where
  "account_signer K alg a =
     \<lparr>sg_algorithm = builder_algorithm alg, sg_sign = (\<lambda>m. ok (account_key_sign K a m (Some raw_options)))\<rparr>"

lemma account_signer_algorithm: "sg_algorithm (account_signer K alg a) = builder_algorithm alg"
  by (simp add: account_signer_def)

lemma algorithm_oid_identifier: "ai_oid (algorithm_identifier_of Q alg) = algorithm_oid alg"
  by (simp add: algorithm_identifier_of_def)

lemma wf_keyedD:
  assumes "wf_keyed K a" and "ka_private a = Some k" and "algorithm_of_keypair_type (to_keypair_type (ka_account a)) = Inr alg"
  shows "valid_private K (any_private_key_of alg k)"
    and "as_public_key K (any_private_key_of alg k) = any_public_key_of alg (as_public_key_bytes (ka_account a))"
  using assms by (auto simp: wf_keyed_def)

context key_laws
begin

lemma key_signature_verifies:
  assumes "valid_private K key" and "sign_with_options K key m options = Inr s"
  shows "length s = 64 \<and> key_signature_try_from (kl_x509 K) (private_key_algorithm key) s = Inr s \<and>
    verify_with_options K (as_public_key K key) m s options = Inr ()"
proof (cases key)
  case (PrivEd25519 k)
  then show ?thesis using assms ed_sign_verify[of k]
    by (auto simp: valid_private_def ed25519_sign_with_options_def ed25519_verify_with_options_def Let_def)
next
  case (PrivSecp256k1 k)
  then show ?thesis using assms ec_sign_verify[of CurveSecp256k1 k]
    by (auto simp: valid_private_def ecdsa_sign_with_options_def ecdsa_verify_with_options_def)
next
  case (PrivSecp256r1 k)
  then show ?thesis using assms ec_sign_verify[of CurveSecp256r1 k]
    by (auto simp: valid_private_def ecdsa_sign_with_options_def ecdsa_verify_with_options_def)
qed

lemma account_signature_verifies:
  assumes "wf_keyed K a" and "account_key_sign K a m options = Inr s"
  shows "length s = 64 \<and> account_key_verify K (ka_account a) m s options = Inr ()"
proof -
  obtain alg k where k: "algorithm_of_keypair_type (to_keypair_type (ka_account a)) = Inr alg" "ka_private a = Some k"
    "sign_with_options K (any_private_key_of alg k) m (case options of Some o' \<Rightarrow> o' | None \<Rightarrow> default_options) = Inr s"
    using assms(2) by (auto simp: account_key_sign_def split: sum.splits)
  then show ?thesis
    using key_signature_verifies[OF wf_keyedD(1)[OF assms(1) k(2,1)] k(3)] wf_keyedD(2)[OF assms(1) k(2,1)]
    by (simp add: account_key_verify_def)
qed

lemma private_key_decrypts:
  assumes "random_octets G" and "valid_private K key"
  shows "case public_encrypt K G (as_public_key K key) m r of
      (Inr ct, r') \<Rightarrow> private_decrypt K key ct = Inr m
    | (Inl e, r') \<Rightarrow> e = CryptoKeyDerivationFailed \<and>
        (\<exists>curve seed r'. algorithm_curve (private_key_algorithm key) = Some curve \<and> G r 32 = (Some seed, r') \<and> first_valid K curve seed = None)"
proof (cases key)
  case (PrivEd25519 k)
  then have "length k = 32" using assms(2) by (simp add: valid_private_def)
  then obtain x where x: "ed25519_to_x25519_private K k = Inr x" "length x = 32"
    "ed25519_to_x25519_public K (ed_public K k) = Inr (x25519 K x (x25519_base K))" by (rule ed25519_to_x25519)
  obtain ct r' where "ecies_x25519_encrypt K G (x25519 K x (x25519_base K)) m r = (Inr ct, r')"
    using ecies_x25519_succeeds[OF assms(1)] by blast
  then show ?thesis using PrivEd25519 x ecies_x25519_inverse[OF assms(1) x(2)]
    by (simp add: sample_then_def sample_return_def)
next
  case (PrivSecp256k1 k)
  then show ?thesis
    using assms ecies_secp256k1_inverse[OF assms(1), of k m r] ecies_secp256k1_fails[OF assms(1), of _ m r]
    by (auto simp: valid_private_def split: prod.split sum.split)
next
  case (PrivSecp256r1 k)
  then show ?thesis
    using assms ecies_secp256r1_inverse[OF assms(1), of k m r] ecies_secp256r1_fails[OF assms(1), of _ m r]
    by (auto simp: valid_private_def split: prod.split sum.split)
qed

lemma account_decrypts:
  assumes "random_octets G" and "wf_keyed K a" and "ka_private a = Some k"
  shows "case account_encrypt K G (ka_account a) m r of
      (Inr ct, r') \<Rightarrow> account_decrypt K a ct = Inr m
    | (Inl e, r') \<Rightarrow> e = InvalidConstruction \<and>
        (\<exists>alg curve seed r'. algorithm_of_keypair_type (to_keypair_type (ka_account a)) = Inr alg \<and>
           algorithm_curve alg = Some curve \<and> G r 32 = (Some seed, r') \<and> first_valid K curve seed = None)"
proof -
  obtain alg where alg: "algorithm_of_keypair_type (to_keypair_type (ka_account a)) = Inr alg"
    using assms(2,3) by (auto simp: wf_keyed_def split: sum.splits)
  then show ?thesis
    using private_key_decrypts[OF assms(1) wf_keyedD(1)[OF assms(2,3) alg], where m = m and r = r] assms(3)
    unfolding wf_keyedD(2)[OF assms(2,3) alg]
    by (auto simp: account_encrypt_def account_decrypt_def sample_map_err_def split: prod.splits sum.splits)
qed

lemma key_oid_strings:
  "oid_string (kl_x509 K) OID_EC_PUBLIC_KEY = EC_PUBLIC_KEY" "oid_string (kl_x509 K) OID_SECP256K1 = X_SECP256K1"
  "oid_string (kl_x509 K) OID_SECP256R1 = X_SECP256R1" "oid_string (kl_x509 K) OID_ED25519 = X_ED25519"
  using oid_known key_oids by (fastforce simp: known_oids_def)+

lemma curve_parameters:
  assumes "algorithm_params_oid alg = Some oid"
  shows "parameters_oid (kl_x509 K) (algorithm_identifier_of (xl_oids (kl_x509 K)) alg) = Some oid"
proof -
  obtain v where "oid_to_der (xl_oids (kl_x509 K)) oid = Some v" using assms curve_oids_encode by (cases alg) auto
  then show ?thesis using assms codec.oid_roundtrip
    by (simp add: parameters_oid_def algorithm_identifier_of_def create_parameter_any_def)
qed

lemma account_signs_for:
  assumes "wf_keyed K a" and "algorithm_of_keypair_type (to_keypair_type (ka_account a)) = Inr alg"
    and "spki_of_account K (ka_account a) = Inr key"
  shows "signs_for (kl_x509 K) (account_signer K alg a) key"
proof -
  let ?b = "as_public_key_bytes (ka_account a)"
  have key: "key = \<lparr>spki_algorithm = algorithm_identifier_of (xl_oids (kl_x509 K)) alg,
      spki_key = bit_string_from_bytes (as_public_key_bytes (ka_account a))\<rparr>"
    using assms(2,3) by (simp add: spki_of_account_def)
  have sign: "length s = 64 \<and> key_signature_try_from (kl_x509 K) alg s = Inr s \<and>
      verify_with_options K (any_public_key_of alg ?b) m s raw_options = Inr () \<and>
      (\<forall>curve. algorithm_curve alg = Some curve \<longrightarrow> ec_point (kl_crypto K) curve ?b = ?b)"
    if signed: "sg_sign (account_signer K alg a) m = Some s" for m s
  proof -
    obtain k where k: "ka_private a = Some k" "sign_with_options K (any_private_key_of alg k) m raw_options = Inr s"
      using signed assms(2) by (auto simp: account_signer_def account_key_sign_def)
    note v = wf_keyedD[OF assms(1) k(1) assms(2)]
    have "ec_point (kl_crypto K) curve ?b = ?b" if "algorithm_curve alg = Some curve" for curve
      using v that by (cases alg) (auto simp: valid_private_def dest!: public_point(1))
    then show ?thesis using key_signature_verifies[OF v(1) k(2)] v(2) by simp
  qed
  have ecdsa: "length s = 64 \<and> ec_signature (kl_x509 K) curve s \<and> ec_verify (kl_x509 K) curve ?b m s"
    if "algorithm_curve alg = Some curve" "sg_sign (account_signer K alg a) m = Some s" for curve m s
    using sign[OF that(2)] that(1)
    by (cases alg) (auto simp: ecdsa_verify_with_options_def options_digest_def raw_options_def split: if_splits)
  have point: "wf_account (kl_crypto K) (ka_account a)" using assms(1) by (simp add: wf_keyed_def)
  have ec: "ec_key (kl_x509 K) curve ?b" if "algorithm_curve alg = Some curve" for curve
    using that point ec_key_parse[of curve ?b] assms(2)
    by (cases "ka_account a") (auto simp: wf_account_def)
  show ?thesis
  proof (cases alg)
    case Ed25519Alg
    then show ?thesis using key sign point assms(2) ed_key_parse
      by (cases "ka_account a")
        (auto simp: signs_for_def Let_def account_signer_def algorithm_identifier_of_def key_oid_strings bit_string_from_bytes_def
          ed25519_verify_with_options_def raw_options_def wf_account_def)
  next
    case Secp256k1
    then show ?thesis using key ecdsa ec curve_parameters[of alg]
      by (simp add: signs_for_def account_signer_algorithm key_oid_strings bit_string_from_bytes_def algorithm_oid_identifier)
  next
    case Secp256r1
    then show ?thesis using key ecdsa ec curve_parameters[of alg]
      by (simp add: signs_for_def account_signer_algorithm key_oid_strings bit_string_from_bytes_def algorithm_oid_identifier)
  qed
qed

lemma hex_parses:
  assumes "wf_account (kl_crypto K) a"
  shows "typed_from_hex K (to_keypair_type a) (encode_hex (kl_crypto K) a) = Inr (public_only a)"
proof -
  let ?t = "to_keypair_type a" and ?b = "as_public_key_bytes a"
  have n: "?b \<noteq> []" using assms by (cases a) (auto simp: wf_account_def)
  have h: "hex_decode (kl_crypto K) (encode_hex (kl_crypto K) a) = Some (keypair_type_id ?t # ?b)"
    using format_parse(1)[OF assms] by (simp add: encode_hex_def hex_upper_roundtrip)
  show ?thesis
  proof (cases "is_identifier ?t")
    case True
    have "length ?b = 32" using assms True wf_account_identifier[OF True, of "kl_crypto K" ?b] by simp
    then show ?thesis using True h n identifier_from_format[OF True _ account_to_string_eq] account_to_string_eq[of "kl_crypto K" a]
      by (simp add: typed_from_hex_def keypair_try_from_def)
  next
    case False
    moreover have "length ?b \<in> set (crypto_key_lengths ?t)"
      using assms False by (cases a) (auto simp: wf_account_def crypto_key_lengths_def is_identifier_iff)
    ultimately show ?thesis using h n public_key_try_from_own[OF assms False]
      by (simp add: typed_from_hex_def keypair_try_from_def crypto_key_from_public_key_def)
  qed
qed

end

section \<open>Addresses of private keys\<close>

context key_laws
begin

lemma hashed_network_string:
  assumes "length raw \<noteq> 32"
  shows "\<exists>s. format_public_key_string (kl_crypto K) raw 2 = Inr s \<and>
    account_from_str (kl_crypto K) s = Inr (Network (sha3_256 (kl_crypto K) raw))"
proof -
  let ?a = "Network (sha3_256 (kl_crypto K) raw)"
  have "format_public_key_string (kl_crypto K) raw 2 = format_public_key_string (kl_crypto K) (sha3_256 (kl_crypto K) raw) 2"
    using assms by (simp add: format_public_key_string_def sha3_length)
  then have "format_public_key_string (kl_crypto K) raw 2 = Inr (account_to_string (kl_crypto K) ?a)"
    using account_to_string_eq[of "kl_crypto K" ?a] by simp
  moreover have "wf_account (kl_crypto K) ?a" by (simp add: wf_account_def sha3_length)
  ultimately show ?thesis using account_from_str_roundtrip by blast
qed

lemma public_key_bytes_own: "valid_private K key \<Longrightarrow> public_key_to_bytes (kl_crypto K) (as_public_key K key) = public_key_as_ref (as_public_key K key)"
  by (cases key) (auto simp: valid_private_def)

lemma secp256r1_string_is_network:
  assumes "valid_private K (PrivSecp256r1 k)"
  shows "\<exists>s. derive_public_key_string K ECDSASECP256R1 (PrivSecp256r1 k) = Inr s \<and>
    account_from_str (kl_crypto K) s = Inr (Network (sha3_256 (kl_crypto K) (ec_public K CurveSecp256r1 k)))"
proof -
  have "p256_compress (kl_crypto K) (ec_public K CurveSecp256r1 k) = Some (ec_public K CurveSecp256r1 k)"
    using assms ec_public_point[of CurveSecp256r1 k] by (simp add: valid_private_def)
  then have "length (ec_public K CurveSecp256r1 k) \<noteq> 32" using p256_canonical by fastforce
  then show ?thesis using hashed_network_string public_key_bytes_own[OF assms]
    by (simp add: derive_public_key_string_def)
qed

lemma derived_string_is_address:
  assumes "valid_private K key" and "private_key_algorithm key \<noteq> Secp256r1"
  shows "derive_public_key_string K (keypair_type_of_algorithm (private_key_algorithm key)) key =
    Inr (account_to_string (kl_crypto K) (ka_account (account_of_private_key K key)))"
proof -
  let ?a = "ka_account (account_of_private_key K key)"
  have "algorithm_discriminant (private_key_algorithm key) = keypair_type_id (to_keypair_type ?a)"
    using assms(2) by (cases key) auto
  then show ?thesis using account_to_string_eq[of "kl_crypto K" ?a] public_key_bytes_own[OF assms(1)]
    by (simp add: derive_public_key_string_def account_of_private_key_def)
qed

end

end
