(* ===== verification/KeyRef.thy ===== *)
theory KeyRef
  imports KeyLaws X509Ref
begin

text \<open>
  An executable instance of \<open>key_lib\<close> over the reference library of certificates: a scalar is
  valid when its first octet is not zero, the public key on an ECDSA curve is the octet 2 and the
  scalar, key agreement is the exclusive or of the two keys, and the cipher in CBC mode masks its
  first block with the initialisation vector after PKCS#7 padding.  It has none of the secrecy of
  the real functions and all of the laws the development relies on: it discharges \<open>key_laws\<close>.
\<close>

unbundle bit_operations_syntax

definition ref_lower :: "string \<Rightarrow> string" where
  "ref_lower s = map (\<lambda>c. case CryptoRef.position c ''ABCDEFGHIJKLMNOPQRSTUVWXYZ'' of
     Some n \<Rightarrow> ''abcdefghijklmnopqrstuvwxyz'' ! n | None \<Rightarrow> c) s"

definition ref_expand :: "hash_algorithm \<Rightarrow> bytes \<Rightarrow> bytes \<Rightarrow> nat \<Rightarrow> bytes option" where
  "ref_expand h prk info n =
     (if length prk < hash_algorithm_length h \<or> 255 * hash_algorithm_length h < n then None
      else Some (take n (rev prk @ replicate n 0)))"

definition ref_mask :: "bytes \<Rightarrow> bytes \<Rightarrow> bytes" where
  "ref_mask iv bs = xor_bytes (take 16 bs) iv @ drop 16 bs"

definition ref_cbc_encrypt :: "bytes \<Rightarrow> bytes \<Rightarrow> bytes \<Rightarrow> bytes" where
  "ref_cbc_encrypt key iv m = (let p = 16 - length m mod 16 in ref_mask iv (m @ replicate p (word_of_nat p)))"

definition ref_cbc_decrypt :: "bytes \<Rightarrow> bytes \<Rightarrow> bytes \<Rightarrow> bytes option" where
  "ref_cbc_decrypt key iv c =
     (let bs = ref_mask iv c; p = unat (last bs) in
      if c = [] \<or> length c mod 16 \<noteq> 0 \<or> p = 0 \<or> 16 < p then None else Some (take (length bs - p) bs))"

definition ref_secret :: "ecdsa_curve \<Rightarrow> bytes \<Rightarrow> bytes option" where
  "ref_secret curve bs = (if length bs = 32 \<and> bs ! 0 \<noteq> 0 then Some bs else None)"

definition ref_keys :: "x509_certificate list \<Rightarrow> key_lib" where
  "ref_keys certs =
     \<lparr>kl_x509 = ref_x509 certs,
      hkdf = (\<lambda>h salt ikm info n. ref_expand h (ref_hash ikm @ ref_hash ikm) info n),
      hkdf_from_prk = ref_expand, pbkdf2_sha256 = (\<lambda>bs salt rounds n. take n (bs @ replicate n 0)), str_lowercase = ref_lower,
      aes128_keystream = (\<lambda>key iv n. replicate n (key ! 0 XOR iv ! 0)),
      aes256_cbc_encrypt = ref_cbc_encrypt, aes256_cbc_decrypt = ref_cbc_decrypt,
      aes256_gcm_encrypt = (\<lambda>key nonce aad m. Some (m @ ref_hash (key @ nonce @ aad @ m))),
      aes256_gcm_decrypt = (\<lambda>key nonce aad c. let m = take (length c - 32) c in
        if drop (length c - 32) c = ref_hash (key @ nonce @ aad @ m) then Some m else None),
      hmac_sha256 = (\<lambda>key bs. ref_hash (key @ bs)), hmac_sha512 = (\<lambda>key bs. ref_hash (key @ bs) @ ref_hash key),
      ec_secret = ref_secret, ec_public = (\<lambda>curve k. 2 # k), ec_uncompressed = (\<lambda>curve p. p @ replicate 32 0),
      ec_dh = (\<lambda>curve k p. xor_bytes k (tl p)), ec_sign = (\<lambda>curve k m. Some (ref_signature (2 # k) m)),
      ed_public = rev, ed_sign = (\<lambda>k m. Some (ref_signature (rev k) m)), ed_to_montgomery = (\<lambda>b. Some (clamp b)),
      x25519 = (\<lambda>k u. take 32 (xor_bytes k u @ replicate 32 0)), x25519_base = replicate 32 0\<rparr>"

lemma ref_keys_sel [simp]:
  "kl_x509 (ref_keys certs) = ref_x509 certs" "hkdf_from_prk (ref_keys certs) = ref_expand" "str_lowercase (ref_keys certs) = ref_lower"
  "pbkdf2_sha256 (ref_keys certs) bs salt rounds n = take n (bs @ replicate n 0)"
  "aes128_keystream (ref_keys certs) key iv n = replicate n (key ! 0 XOR iv ! 0)"
  "aes256_cbc_encrypt (ref_keys certs) = ref_cbc_encrypt" "aes256_cbc_decrypt (ref_keys certs) = ref_cbc_decrypt"
  "hmac_sha256 (ref_keys certs) key bs = ref_hash (key @ bs)" "hmac_sha512 (ref_keys certs) key bs = ref_hash (key @ bs) @ ref_hash key"
  "ec_secret (ref_keys certs) = ref_secret" "ec_public (ref_keys certs) curve k = 2 # k"
  "ec_uncompressed (ref_keys certs) curve p = p @ replicate 32 0" "ec_dh (ref_keys certs) curve k p = xor_bytes k (tl p)"
  "ec_sign (ref_keys certs) curve k m = Some (ref_signature (2 # k) m)" "ed_public (ref_keys certs) k = rev k"
  "ed_sign (ref_keys certs) k m = Some (ref_signature (rev k) m)" "ed_to_montgomery (ref_keys certs) b = Some (clamp b)"
  "x25519 (ref_keys certs) k u = take 32 (xor_bytes k u @ replicate 32 0)" "x25519_base (ref_keys certs) = replicate 32 0"
  by (simp_all add: ref_keys_def)

lemma ref_sha2 [simp]: "sha2_256 (ref_x509 certs) = ref_hash" "sha2_512 (ref_x509 certs) bs = ref_hash bs @ ref_hash bs"
  by (simp_all add: ref_x509_def)

lemma ref_hash_length [simp]: "length (ref_hash bs) = 32"
  by (simp add: ref_hash_def)

lemma ref_mask_length [simp]: "length iv = 16 \<Longrightarrow> length (ref_mask iv bs) = length bs"
  by (simp add: ref_mask_def min_def)

lemma ref_mask_mask: "length iv = 16 \<Longrightarrow> 16 \<le> length bs \<Longrightarrow> ref_mask iv (ref_mask iv bs) = bs"
  by (simp add: ref_mask_def xor_bytes_cancel)

lemma xor_bytes_assoc: "xor_bytes (xor_bytes xs ys) zs = xor_bytes xs (xor_bytes ys zs)"
  by (induction xs arbitrary: ys zs; case_tac ys; case_tac zs) (auto simp: xor_bytes_def xor.assoc)

lemma xor_bytes_commute: "xor_bytes xs ys = xor_bytes ys xs"
  by (induction xs arbitrary: ys; case_tac ys) (auto simp: xor_bytes_def xor.commute)

lemma xor_bytes_zero: "length xs = n \<Longrightarrow> xor_bytes xs (replicate n 0) = xs"
  by (induction xs arbitrary: n) (auto simp: xor_bytes_def)

lemma ref_cbc_inverse:
  assumes "length iv = 16"
  shows "ref_cbc_decrypt key iv (ref_cbc_encrypt key iv m) = Some m"
proof -
  define p where "p = 16 - length m mod 16"
  have p: "0 < p" "p \<le> 16" unfolding p_def by (simp_all add: less_imp_le)
  let ?bs = "m @ replicate p (word_of_nat p)"
  have "16 \<le> length ?bs" "length ?bs mod 16 = 0" unfolding p_def
    by (simp_all, presburger+)
  moreover have "unat (last ?bs) = p" using p by (simp add: unat_of_nat)
  moreover have "ref_mask iv ?bs \<noteq> []" using assms p by (metis calculation(1) length_0_conv not_numeral_le_zero ref_mask_length)
  ultimately show ?thesis using assms p
    by (auto simp: ref_cbc_decrypt_def ref_cbc_encrypt_def Let_def p_def[symmetric] ref_mask_mask)
qed

lemma ref_cbc_first_block:
  assumes "length iv = 16" and "length iv' = 16" and "ref_cbc_decrypt key iv c = Some m" and "16 \<le> length m"
  shows "ref_cbc_decrypt key iv' c = Some (xor_bytes (take 16 m) (xor_bytes iv iv') @ drop 16 m)"
proof -
  define p where "p = unat (last (ref_mask iv c))"
  have d: "c \<noteq> []" "length c mod 16 = 0" "0 < p" "p \<le> 16" "m = take (length c - p) (ref_mask iv c)"
    using assms(1,3) by (auto simp: ref_cbc_decrypt_def Let_def p_def split: if_splits)
  have len: "16 + p \<le> length c" using d(5) assms(1,4) d(3) by (cases "p \<le> length c") auto
  have last: "last (ref_mask v c) = last c" for v using len d(3) by (simp add: ref_mask_def last_append)
  have pm: "16 \<le> length c - p" using len by linarith
  have m: "take 16 m = xor_bytes (take 16 c) iv" "drop 16 m = take (length c - p - 16) (drop 16 c)"
    using len pm assms(1) d(3) by (simp_all add: d(5) ref_mask_def min_def drop_take)
  have "ref_cbc_decrypt key iv' c = Some (take (length c - p) (ref_mask iv' c))"
    using d(1-4) last assms(2) p_def by (simp add: ref_cbc_decrypt_def Let_def)
  moreover have "take (length c - p) (ref_mask iv' c) = xor_bytes (take 16 c) iv' @ drop 16 m"
    using len pm assms(2) by (simp add: ref_mask_def min_def m(2))
  moreover have "xor_bytes (take 16 m) (xor_bytes iv iv') = xor_bytes (take 16 c) iv'"
  proof -
    have "xor_bytes iv (xor_bytes iv iv') = iv'" using assms(1,2) by (simp add: xor_bytes_cancel_left)
    then show ?thesis unfolding m(1) xor_bytes_assoc by simp
  qed
  ultimately show ?thesis by simp
qed

lemma ref_curve_oids:
  "ref_oid_new EC_PUBLIC_KEY = Some OID_EC_PUBLIC_KEY" "ref_oid_new X_SECP256K1 = Some OID_SECP256K1"
  "ref_oid_new X_SECP256R1 = Some OID_SECP256R1" "ref_oid_new X_ED25519 = Some OID_ED25519"
  by (simp_all add: x509_oids ref_oid_new_def ref_oid_string_def of_decimal_def hex_value_def hex_char_def
      decimal_small decimal_large OID_EC_PUBLIC_KEY_def OID_SECP256K1_def OID_SECP256R1_def OID_ED25519_def)

lemma ref_oid_encode: "\<exists>v. oid_to_der ref_oid OID_SECP256K1 = Some v" "\<exists>v. oid_to_der ref_oid OID_SECP256R1 = Some v"
  by (simp_all add: ref_oid_def ref_oid_to_der_def OID_SECP256K1_def OID_SECP256R1_def)

lemma ref_hash_32: "length k = 32 \<Longrightarrow> ref_hash k = rev k"
  by (simp add: ref_hash_def)

lemma ref_sec1: "sec1_compress ref_lib curve bs = ref_compress bs"
  by (cases curve) auto

interpretation refk: key_laws "ref_keys certs" for certs
proof (intro key_laws.intro key_laws_axioms.intro)
  show "x509_laws (kl_x509 (ref_keys certs))" using refx.x509_laws_axioms by simp
  show "aes256_cbc_decrypt (ref_keys certs) key iv' c = Some (xor_bytes (take 16 m) (xor_bytes iv iv') @ drop 16 m)"
    if "length iv = 16" "length iv' = 16" "aes256_cbc_decrypt (ref_keys certs) key iv c = Some m" "16 \<le> length m" for key iv iv' c m
    using ref_cbc_first_block[OF that(1,2), of key c m] that(3,4) by (simp only: ref_keys_sel)
  show "16 \<le> length (aes256_cbc_encrypt (ref_keys certs) key iv m)" if "length iv = 16" for key iv m
    using that by (simp add: ref_cbc_encrypt_def Let_def)
qed (auto simp: ref_hash_32 ref_expand_def ref_cbc_inverse ref_secret_def ref_sec1 ref_compress_def ref_oid_encode ref_curve_oids xor_bytes_zero
    xor_bytes_commute split: if_splits)

end
