(* ===== verification/Wallet.thy ===== *)
theory Wallet
  imports KeyLaws Operation
begin

text \<open>
  The block component with accounts that hold keys: the signing and verification functions that
  blocks take from accounts are those of \<open>KeyedAccount\<close>.  In the source a required signer carries its
  private key; here \<open>wallet\<close> gives the keyed account of a public identity.
\<close>

definition keyed_block_lib :: "key_lib \<Rightarrow> (generic_account \<Rightarrow> keyed_account option) \<Rightarrow> block_lib \<Rightarrow> block_lib" where
  "keyed_block_lib K wallet B =
     B\<lparr>crypto := kl_crypto K,
       signature_verify := (\<lambda>a message signature. is_ok (account_key_verify K a message signature None)),
       signature_sign := (\<lambda>a message.
         case wallet a of Some w \<Rightarrow> account_key_sign K w message None | None \<Rightarrow> Err InvalidConstruction)\<rparr>"

definition holds_keys :: "key_lib \<Rightarrow> (generic_account \<Rightarrow> keyed_account option) \<Rightarrow> bool" where
  "holds_keys K wallet \<longleftrightarrow> (\<forall>a w. wallet a = Some w \<longrightarrow> ka_account w = a \<and> wf_keyed K w)"

lemma keyed_block_lib_sel [simp]:
  "crypto (keyed_block_lib K wallet B) = kl_crypto K"
  "signature_verify (keyed_block_lib K wallet B) a m s \<longleftrightarrow> is_ok (account_key_verify K a m s None)"
  "signature_sign (keyed_block_lib K wallet B) a m =
     (case wallet a of Some w \<Rightarrow> account_key_sign K w m None | None \<Rightarrow> Inl InvalidConstruction)"
  by (simp_all add: keyed_block_lib_def)

context key_laws
begin

lemma wallet_signature:
  assumes "holds_keys K wallet" and "signature_sign (keyed_block_lib K wallet B) a m = Inr s"
  shows "length s = 64 \<and> signature_verify (keyed_block_lib K wallet B) a m s \<and> \<not> is_identifier (to_keypair_type a)"
proof -
  obtain w where w: "wallet a = Some w" "account_key_sign K w m None = Inr s" using assms(2) by (auto split: option.splits)
  then have k: "ka_account w = a" "wf_keyed K w" using assms(1) by (auto simp: holds_keys_def)
  then have "\<not> is_identifier (to_keypair_type a)" using w(2) by (auto simp: account_key_sign_def identifier_no_algorithm)
  then show ?thesis using account_signature_verifies[OF k(2) w(2)] k(1) by simp
qed

end

end
