(* ===== verification/KeyProps.thy ===== *)
theory KeyProps
  imports KeyRef Wallet BlockProps X509Props
begin

text \<open>
  Properties of keys, keyed accounts and their use by certificates and blocks, for every library
  that satisfies \<open>key_laws\<close>; the witnesses are at the reference library of \<open>KeyRef\<close>.
\<close>

section \<open>Reference keys\<close>

definition ref_rng :: "nat os_rng" where
  "ref_rng r n = (Some (map (\<lambda>i. word_of_nat (r + i + 1)) [0..<n]), r + n)"

definition ref_keyed :: "algorithm \<Rightarrow> keyed_account" where
  "ref_keyed alg = account_of_private_key (ref_keys []) (any_private_key_of alg (replicate 32 1))"

lemma ref_rng_octets: "random_octets ref_rng"
  by (simp add: random_octets_def ref_rng_def)

lemma ref_keyed_wf: "wf_keyed (ref_keys []) (ref_keyed alg)" "ka_private (ref_keyed alg) = Some (replicate 32 1)"
  "to_keypair_type (ka_account (ref_keyed alg)) = keypair_type_of_algorithm alg"
proof -
  have "valid_private (ref_keys []) (any_private_key_of alg (replicate 32 1))"
    by (cases alg) (simp_all add: valid_private_def ref_secret_def)
  then show "wf_keyed (ref_keys []) (ref_keyed alg)" unfolding ref_keyed_def by (rule refk.account_of_private_key_wf)
qed (simp_all add: ref_keyed_def account_of_private_key_def)

section \<open>Encryption\<close>

text \<open>C24: an account with a private key, of any of the three signing key types, decrypts what was
  encrypted to its public key.  With a working random generator, encryption fails only when none of
  the hundred candidates for the ephemeral key is valid.\<close>
theorem account_decrypts_own_messages:
  assumes "key_laws K" and "random_octets G" and "wf_keyed K a" and "ka_private a = Some k"
  shows "case account_encrypt K G (ka_account a) m r of
      (Inr ct, r') \<Rightarrow> account_decrypt K a ct = Inr m
    | (Inl e, r') \<Rightarrow> e = InvalidConstruction \<and>
        (\<exists>alg curve seed r'. algorithm_of_keypair_type (to_keypair_type (ka_account a)) = Inr alg \<and>
           algorithm_curve alg = Some curve \<and> G r 32 = (Some seed, r') \<and> first_valid K curve seed = None)"
  by (rule key_laws.account_decrypts[OF assms])

theorem account_decrypts_own_messages_witness:
  "\<exists>ct r'. account_encrypt (ref_keys []) ref_rng (ka_account (ref_keyed Ed25519Alg)) [104, 105] 0 = (Inr ct, r') \<and>
     account_decrypt (ref_keys []) (ref_keyed Ed25519Alg) ct = Inr [104, 105]"
  using account_decrypts_own_messages[OF refk.key_laws_axioms ref_rng_octets ref_keyed_wf(1,2)[of Ed25519Alg], where m = "[104, 105]" and r = 0]
  by (auto simp: ref_keyed_wf(3) split: prod.splits sum.splits)

text \<open>C37: the authentication code of a message to a secp256r1 account does not cover the
  initialisation vector, which is the end of the message: from any accepted message of at least one
  block, and for any block \<open>t\<close>, changing only the last 16 octets gives a message that is accepted
  too and whose plaintext starts with \<open>t\<close> in place of the first block.\<close>
theorem secp256r1_message_malleable:
  assumes "key_laws K" and "to_keypair_type (ka_account a) = ECDSASECP256R1"
    and "account_decrypt K a ct = Inr m" and "16 \<le> length m" and "length t = 16"
  shows "\<exists>ct'. length ct' = length ct \<and> take (length ct - 16) ct' = take (length ct - 16) ct \<and>
    account_decrypt K a ct' = Inr (t @ drop 16 m)"
proof -
  obtain k where k: "ka_private a = Some k" "ecies_secp256r1_decrypt K k ct = Inr m"
    using assms(2,3) by (auto simp: account_decrypt_def)
  let ?iv = "drop (length ct - 16) ct"
  have len: "161 \<le> length ct" using k(2) by (auto simp: ecies_secp256r1_decrypt_def split: if_splits)
  define iv' where "iv' = xor_bytes ?iv (xor_bytes (take 16 m) t)"
  have iv: "length ?iv = 16" "length iv' = 16" using len assms(4,5) by (simp_all add: iv'_def)
  have "xor_bytes (take 16 m) (xor_bytes ?iv iv') = t"
    using assms(4,5) iv(1) by (simp add: iv'_def xor_bytes_cancel_left)
  then have "ecies_secp256r1_decrypt K k (take (length ct - 16) ct @ iv') = Inr (t @ drop 16 m)"
    using key_laws.secp256r1_iv_swap[OF assms(1) k(2) assms(4) iv(2)] by simp
  then show ?thesis using assms(2) k(1) iv(2) len
    by (intro exI[of _ "take (length ct - 16) ct @ iv'"]) (simp add: account_decrypt_def)
qed

lemma ref_encrypts: "\<exists>ct r'. account_encrypt (ref_keys []) ref_rng (ka_account (ref_keyed alg)) m 0 = (Inr ct, r') \<and>
  account_decrypt (ref_keys []) (ref_keyed alg) ct = Inr m"
proof -
  have "rev (map (\<lambda>i. word_of_nat (i + 1)) [0..<32]) ! 0 = (32 :: byte)" by (simp add: rev_nth)
  then have "first_valid (ref_keys []) curve (map (\<lambda>i. word_of_nat (i + 1)) [0..<32]) \<noteq> None" for curve
    by (simp add: first_valid_def refk.attempts_split candidate_def ref_expand_def ref_secret_def del: upt.simps upt_Suc)
  then have "first_valid (ref_keys []) curve seed \<noteq> None" if "ref_rng 0 32 = (Some seed, r')" for curve seed r'
    using that by (simp add: ref_rng_def)
  then show ?thesis
    using refk.account_decrypts[OF ref_rng_octets ref_keyed_wf(1,2), of alg, where m = m and r = 0]
    by (auto split: prod.splits sum.splits) (metis option.distinct(1))
qed

theorem secp256r1_message_malleable_witness:
  "\<exists>ct ct'. account_decrypt (ref_keys []) (ref_keyed Secp256r1) ct = Inr (replicate 20 65) \<and>
     take (length ct - 16) ct' = take (length ct - 16) ct \<and>
     account_decrypt (ref_keys []) (ref_keyed Secp256r1) ct' = Inr (replicate 16 90 @ replicate 4 65)"
proof -
  obtain ct where ct: "account_decrypt (ref_keys []) (ref_keyed Secp256r1) ct = Inr (replicate 20 65)"
    using ref_encrypts by blast
  from secp256r1_message_malleable[OF refk.key_laws_axioms _ ct, of "replicate 16 90"] ref_keyed_wf(3)[of Secp256r1] ct
  show ?thesis by auto
qed

section \<open>Signatures\<close>

text \<open>C26: a signature made by an account is 64 octets, the size the account reports, and verifies
  under the account and under its public-only copy, which holds no private key, for the same message
  and options.\<close>
theorem account_signature_accepted:
  assumes "key_laws K" and "wf_keyed K a" and "account_key_sign K a m options = Inr s"
  shows "length s = signature_size (ka_account a) \<and> length s = 64 \<and>
    account_key_verify K (ka_account a) m s options = Inr () \<and>
    (\<exists>p. to_public_account K a = Inr p \<and> has_private_key p = False \<and> account_key_verify K (ka_account p) m s options = Inr ())"
proof -
  have "length s = 64" "account_key_verify K (ka_account a) m s options = Inr ()"
    using key_laws.account_signature_verifies[OF assms] by auto
  moreover have "signature_size (ka_account a) = 64"
    using assms(3) by (auto simp: account_key_sign_def signature_size_def split: sum.splits)
  ultimately show ?thesis
    using key_laws.to_public_account_ok[OF assms(1,2)]
    by (auto simp: has_private_key_def public_only_def split: keypair_type.splits)
qed

theorem account_signature_accepted_witness:
  "\<exists>s. account_key_sign (ref_keys []) (ref_keyed Secp256k1) [1, 2, 3] None = Inr s \<and>
     account_key_verify (ref_keys []) (ka_account (ref_keyed Secp256k1)) [1, 2, 3] s None = Inr ()"
proof -
  obtain s where s: "account_key_sign (ref_keys []) (ref_keyed Secp256k1) [1, 2, 3] None = Inr s"
    by (simp add: account_key_sign_def ref_keyed_wf ecdsa_sign_with_options_def options_digest_def default_options_def)
  from account_signature_accepted[OF refk.key_laws_axioms ref_keyed_wf(1) s] s show ?thesis by blast
qed

section \<open>Derivation and construction\<close>

text \<open>C28: the constant-time derivation loop of the two ECDSA key types computes the first valid
  candidate: the expansion of the seed, or of the seed followed by a counter from 1 to 99.  It fails
  exactly when the seed is shorter than a hash or no candidate is valid.\<close>
theorem derive_scalar_spec:
  assumes "key_laws K"
  shows "derive_scalar K curve seed =
    (if length seed < 32 then Inl CryptoKeyDerivationFailed else ok_or CryptoKeyDerivationFailed (first_valid K curve seed))"
  by (rule key_laws.derive_scalar_first_valid[OF assms])

theorem derive_scalar_spec_witness:
  "derive_scalar (ref_keys []) CurveSecp256k1 (replicate 32 0) = Inr (1 # replicate 31 0) \<and>
   derive_scalar (ref_keys []) CurveSecp256k1 [1, 2, 3] = Inl CryptoKeyDerivationFailed"
proof -
  have "map word_of_nat [0..<100] = (0 :: 32 word) # 1 # map word_of_nat [2..<100]"
    by (simp add: upt_conv_Cons)
  moreover have "candidate (ref_keys []) (replicate 32 0) 0 = replicate 32 0"
    by (simp add: candidate_def ref_expand_def)
  moreover have "candidate (ref_keys []) (replicate 32 0) 1 = 1 # replicate 31 0"
    by (simp add: candidate_def ref_expand_def u32_to_be_bytes_def) (simp add: numeral_eq_Suc)
  ultimately have "first_valid (ref_keys []) CurveSecp256k1 (replicate 32 0) = Some (1 # replicate 31 0)"
    by (simp add: first_valid_def ref_secret_def)
  then show ?thesis using derive_scalar_spec[OF refk.key_laws_axioms] by simp
qed

text \<open>C27: whatever key material an account is constructed from, it has the requested type, its public
  key is well-formed and is the public key of its private key when it holds one; identifier
  accounts hold none, and the public-only copy is the same identity without the private key.\<close>
theorem constructed_account_wf:
  assumes "key_laws K" and "account_try_from K t (KeyAndType key t') = Inr a"
  shows "wf_keyed K a \<and> to_keypair_type (ka_account a) = t \<and> t' = t \<and>
    (if is_identifier t then ka_private a = None else True) \<and>
    to_public_account K a = Inr \<lparr>ka_account = ka_account a, ka_private = None\<rparr>"
proof -
  have k: "t' = t" "keypair_try_from K t key = Inr a" using assms(2) by (auto split: if_splits)
  then have wf: "wf_keyed K a" "to_keypair_type (ka_account a) = t" using key_laws.keypair_try_from_wf[OF assms(1)] by auto
  moreover have "is_identifier t \<Longrightarrow> ka_private a = None"
    using wf by (auto simp: wf_keyed_def identifier_no_algorithm split: option.splits)
  ultimately show ?thesis using k(1) key_laws.to_public_account_ok[OF assms(1) wf(1)] by (simp add: public_only_def)
qed

theorem constructed_account_wf_witness:
  "\<exists>a. account_try_from (ref_keys []) ED25519 (KeyAndType (KeyPrivateKey (replicate 32 3)) ED25519) = Inr a \<and>
     wf_keyed (ref_keys []) a \<and> to_public_account (ref_keys []) a = Inr \<lparr>ka_account = ka_account a, ka_private = None\<rparr>"
proof -
  obtain a where a: "account_try_from (ref_keys []) ED25519 (KeyAndType (KeyPrivateKey (replicate 32 3)) ED25519) = Inr a"
    by (simp add: keypair_try_from_def is_identifier_iff ed25519_private_try_from_def)
  from constructed_account_wf[OF refk.key_laws_axioms a] a show ?thesis by blast
qed

text \<open>C38: \<open>derive_public_key_string\<close> of a secp256r1 key writes the position of the algorithm in its
  enumeration, 2, where the address format wants 6: the result is the address of a NETWORK account
  whose key is the hash of the public key.  For the other two key types it is the address of the
  account of the private key.\<close>
theorem secp256r1_address_is_network:
  assumes "key_laws K" and "valid_private K (PrivSecp256r1 k)" and "valid_private K key"
  shows "(\<exists>s. derive_public_key_string K ECDSASECP256R1 (PrivSecp256r1 k) = Inr s \<and>
      account_from_str (kl_crypto K) s = Inr (Network (sha3_256 (kl_crypto K) (ec_public K CurveSecp256r1 k)))) \<and>
    (if private_key_algorithm key = Secp256r1 then True
     else derive_public_key_string K (keypair_type_of_algorithm (private_key_algorithm key)) key =
       Inr (account_to_string (kl_crypto K) (ka_account (account_of_private_key K key))))"
  using key_laws.secp256r1_string_is_network[OF assms(1,2)] key_laws.derived_string_is_address[OF assms(1,3)] by simp

theorem secp256r1_address_is_network_witness:
  "\<exists>s. derive_public_key_string (ref_keys []) ECDSASECP256R1 (PrivSecp256r1 (replicate 32 1)) = Inr s \<and>
     account_from_str ref_lib s = Inr (Network (ref_hash (2 # replicate 32 1)))"
proof -
  have "valid_private (ref_keys []) (PrivSecp256r1 (replicate 32 1))" by (simp add: valid_private_def ref_secret_def)
  from secp256r1_address_is_network[OF refk.key_laws_axioms this this] show ?thesis by simp
qed

text \<open>The hexadecimal form of an account, its type octet and public key in upper case, parses back
  to the account, without a private key, under the parser of its own key type.\<close>
theorem account_hex_roundtrip:
  assumes "key_laws K" and "wf_account (kl_crypto K) a"
  shows "typed_from_hex K (to_keypair_type a) (encode_hex (kl_crypto K) a) = Inr \<lparr>ka_account = a, ka_private = None\<rparr>"
  using key_laws.hex_parses[OF assms] by (simp add: public_only_def)

theorem account_hex_roundtrip_witness:
  "typed_from_hex (ref_keys []) STORAGE (encode_hex ref_lib (Storage (replicate 32 9))) =
     Inr \<lparr>ka_account = Storage (replicate 32 9), ka_private = None\<rparr>"
proof -
  have "wf_account (kl_crypto (ref_keys [])) (Storage (replicate 32 9))" by (simp add: wf_account_def)
  from account_hex_roundtrip[OF refk.key_laws_axioms this] show ?thesis by simp
qed

section \<open>Certificates and blocks\<close>

text \<open>C29: a certificate that the builder signs with an account verifies under the subject public key
  info of that account, for all three key types and every hash the builder accepts.\<close>
theorem account_certificate_verifies:
  assumes "key_laws K" and "wf_keyed K a" and "algorithm_of_keypair_type (to_keypair_type (ka_account a)) = Inr alg"
    and "build_certificate (kl_x509 K) (account_signer K alg a) b = Some (Inr cert)"
  shows "\<exists>key. spki_of_account K (ka_account a) = Inr key \<and> verify_signature (kl_x509 K) cert key = Inr True"
proof -
  obtain key where key: "spki_of_account K (ka_account a) = Inr key" using assms(3) by (simp add: spki_of_account_def)
  have "x509_laws (kl_x509 K)" using assms(1) by (simp add: key_laws_def)
  then show ?thesis
    using x509_laws.built_certificate[OF _ assms(4)] key_laws.account_signs_for[OF assms(1-3) key] key by blast
qed

lemma ref_account_builds:
  assumes "\<And>m. length m = 32 \<Longrightarrow> sg_sign signer m = sg_sign sample_signer m" and "sg_algorithm signer = AlgSecp256k1"
  shows "build_certificate (ref_x509 certs) signer (sample_builder i s) = build_certificate (ref_x509 certs) sample_signer (sample_builder i s)"
proof -
  have "sign_certificate (ref_x509 certs) signer Sha3_256 oid tbs = sign_certificate (ref_x509 certs) sample_signer Sha3_256 oid tbs" for oid tbs
    using assms by (simp add: sign_certificate_def sample_signer_def)
  moreover have "sg_algorithm sample_signer = AlgSecp256k1" by (simp add: sample_signer_def)
  ultimately show ?thesis using assms(2) by (simp add: build_certificate_def signature_algorithm_oid_def)
qed

theorem account_certificate_verifies_witness:
  "\<exists>a cert key. build_certificate (ref_x509 []) (account_signer (ref_keys []) Secp256k1 a) (sample_builder 1 2) = Some (Inr cert) \<and>
     spki_of_account (ref_keys []) (ka_account a) = Inr key \<and> verify_signature (ref_x509 []) cert key = Inr True"
proof -
  let ?K = "ref_keys []" and ?k = "PrivSecp256k1 (replicate 32 5)"
  let ?a = "account_of_private_key ?K ?k"
  have wf: "wf_keyed ?K ?a" by (rule refk.account_of_private_key_wf) (simp add: valid_private_def ref_secret_def)
  have sign: "sg_sign (account_signer ?K Secp256k1 ?a) m = sg_sign sample_signer m" if "length m = 32" for m
    using that by (simp add: account_signer_def sample_signer_def account_key_sign_def account_of_private_key_def
        ecdsa_sign_with_options_def options_digest_def raw_options_def)
  obtain cert where "build_certificate (ref_x509 []) sample_signer (sample_builder 1 2) = Some (Inr cert)" using sample_build by blast
  then have b: "build_certificate (ref_x509 []) (account_signer ?K Secp256k1 ?a) (sample_builder 1 2) = Some (Inr cert)"
    using ref_account_builds[OF sign] by (simp add: account_signer_algorithm)
  have "algorithm_of_keypair_type (to_keypair_type (ka_account ?a)) = Inr Secp256k1" by simp
  from account_certificate_verifies[OF refk.key_laws_axioms wf this] b show ?thesis by fastforce
qed

lemma traverse_sign_iff:
  assumes "\<And>a s. a \<in> set as \<Longrightarrow> signature_sign B a m = Inr s \<Longrightarrow> length s = 64 \<and> \<not> is_identifier (to_keypair_type a)"
  shows "traverse (\<lambda>a. and_then (map_err AccountErr (account_sign B a m)) signature_try_from) as = Inr sigs \<longleftrightarrow>
    list_all2 (\<lambda>a s. signature_sign B a m = Inr s) as sigs"
proof -
  have "and_then (map_err AccountErr (account_sign B a m)) signature_try_from = Inr s \<longleftrightarrow> signature_sign B a m = Inr s"
    if "a \<in> set as" for a s
    using assms[OF that] by (auto simp: account_sign_def)
  then show ?thesis unfolding traverse_eq_Inr by (intro list.rel_cong_simp refl) (simp add: simp_implies_def)
qed

text \<open>C25: signing a valid block with a wallet succeeds exactly when each required signer has a key in
  the wallet that produces a signature and the block can be encoded with these signatures; the
  other checks of sealing (number of signatures, their verification, validity) never fail.  The
  signed block has the data and hash of the unsigned block and one signature per required signer, in
  order.\<close>
theorem wallet_signs_blocks:
  assumes "key_laws K" and "holds_keys K wallet"
    and "unsigned_block_try_from_data (keyed_block_lib K wallet B) A data = Inr u"
  shows "unsigned_block_sign (keyed_block_lib K wallet B) A u = Inr b \<longleftrightarrow>
    list_all2 (\<lambda>a s. signature_sign (keyed_block_lib K wallet B) a (ub_hash u) = Inr s)
      (required_signers (kl_crypto K) (bd_signer data)) (blk_signatures b) \<and>
    encode_block (kl_crypto K) A data (Some (blk_signatures b)) = Inr (blk_bytes b) \<and>
    blk_data b = data \<and> blk_hash b = ub_hash u"
  (is "?l \<longleftrightarrow> ?r")
proof -
  let ?B = "keyed_block_lib K wallet B" and ?rs = "required_signers (kl_crypto K) (bd_signer data)"
  have s: "length s = 64 \<and> signature_verify ?B a (ub_hash u) s \<and> \<not> is_identifier (to_keypair_type a)"
    if "signature_sign ?B a (ub_hash u) = Inr s" for a s
    using key_laws.wallet_signature[OF assms(1,2) that] .
  then have t: "traverse (\<lambda>a. and_then (map_err AccountErr (account_sign ?B a (ub_hash u))) signature_try_from) ?rs = Inr sigs \<longleftrightarrow>
      list_all2 (\<lambda>a s. signature_sign ?B a (ub_hash u) = Inr s) ?rs sigs" for sigs
    by (intro traverse_sign_iff) blast
  have u: "encode_block (kl_crypto K) A data None = Inr (ub_bytes u)" "ub_data u = data"
    "ub_hash u = hash_default (kl_crypto K) (ub_bytes u)" "block_data_validate ?B data (ub_hash u) = Inr ()"
    using assms(3) by (auto simp: unsigned_block_try_from_data_def Let_def)
  show ?thesis
  proof
    assume ?l
    then obtain sigs where sigs: "list_all2 (\<lambda>a s. signature_sign ?B a (ub_hash u) = Inr s) ?rs sigs"
      and b: "block_try_from_parts ?B A data sigs = Inr b"
      by (auto simp: unsigned_block_sign_def unsigned_block_seal_def u(2) t simp del: keyed_block_lib_sel(2,3))
    from b show ?r unfolding block_try_from_parts_ok using sigs u(1,3) by auto
  next
    assume r: ?r
    then have len: "length (blk_signatures b) = length ?rs" by (auto dest: list_all2_lengthD simp del: keyed_block_lib_sel(2,3))
    have "?rs \<noteq> []" and V1: "bd_version data = V1 \<longrightarrow> length (blk_signatures b) = 1"
      using u(4) valid_required_nonempty[of "kl_crypto K" data] single_required len unfolding block_data_validate_ok by auto
    moreover have "list_all2 (signature_accepted ?B (ub_hash u)) ?rs (blk_signatures b)"
      using r s by (auto simp: signature_accepted_def[abs_def] simp del: keyed_block_lib_sel(2,3) elim!: list_all2_mono)
    ultimately have "block_try_from_parts ?B A data (blk_signatures b) = Inr b"
      using r u len by (auto simp: block_try_from_parts_ok simp del: keyed_block_lib_sel(2,3))
    then show ?l unfolding unsigned_block_sign_def unsigned_block_seal_def and_then_eq_Inr u(2) keyed_block_lib_sel(1) t using r by blast
  qed
qed

theorem wallet_signs_blocks_witness:
  "\<exists>u b. unsigned_block_try_from_data (keyed_block_lib (ref_keys []) [ref_account \<mapsto> ref_keyed Ed25519Alg] ref_blib) ref_backend ref_data = Inr u \<and>
     unsigned_block_sign (keyed_block_lib (ref_keys []) [ref_account \<mapsto> ref_keyed Ed25519Alg] ref_blib) ref_backend u = Inr b \<and>
     length (blk_signatures b) = 1"
proof -
  let ?w = "[ref_account \<mapsto> ref_keyed Ed25519Alg]" and ?K = "ref_keys []"
  let ?B = "keyed_block_lib ?K ?w ref_blib"
  have "ka_account (ref_keyed Ed25519Alg) = ref_account" by (simp add: ref_keyed_def account_of_private_key_def ref_account_def)
  then have h: "holds_keys ?K ?w" using ref_keyed_wf(1) by (simp add: holds_keys_def)
  obtain u where u: "unsigned_block_try_from_data ?B ref_backend ref_data = Inr u"
    using ref_unsigned_block_for[of ?B] by auto
  obtain s where s: "signature_sign ?B ref_account (ub_hash u) = Inr s"
    by (auto simp: account_key_sign_def ref_keyed_wf(2,3) ed25519_sign_with_options_def)
  have "length s = 64" using key_laws.wallet_signature[OF refk.key_laws_axioms h s] by simp
  then obtain bs where bs: "encode_block (kl_crypto ?K) ref_backend ref_data (Some [s]) = Inr bs" using ref_signed by auto
  have rs: "required_signers (kl_crypto ?K) (bd_signer ref_data) = [ref_account]"
    by (simp add: required_signers_eq ref_data_def)
  let ?b = "\<lparr>blk_data = ref_data, blk_signatures = [s], blk_bytes = bs, blk_hash = ub_hash u\<rparr>"
  have "unsigned_block_sign ?B ref_backend u = Inr ?b"
    using wallet_signs_blocks[OF refk.key_laws_axioms h u, of ?b] s bs rs by (simp del: keyed_block_lib_sel)
  then show ?thesis using u by (intro exI[of _ u] exI[of _ ?b]) simp
qed

end
