(* ===== verification/SchemaCodec.thy ===== *)
theory SchemaCodec
  imports Validation
begin

text \<open>
  The schema-driven positional codec of \<open>asn1/src/schema_codec.rs\<close>: schemas, the values between
  them and their octets, structural matching with backtracking over optional members, and the
  reader and writer of DER elements.  The parts that the source takes from the \<open>rasn\<close> and \<open>chrono\<close>
  crates (object identifiers and times) are the fields of \<open>rasn_lib\<close>.  Texts are UTF-8 octets;
  \<open>usize\<close> has 64 bits.
\<close>

unbundle bit_operations_syntax

section \<open>Schemas and values\<close>

datatype schema =
    SchUtf8 | SchOid | SchOctetString | SchDate
  | SchContext byte schema | SchOptional schema | SchChoice "schema list" | SchSequenceOf schema
  | SchStruct "field list"
and field = Field (field_name: string) (field_schema: schema)

datatype asn1_value =
    AsnSeq "asn1_value list" | AsnContext byte asn1_value | AsnStr rust_string | AsnOid rust_string
  | AsnOctets bytes | AsnDate int

datatype schema_codec_error =
    ScTruncated | ScTrailing | ScMalformedLength | ScUnsupportedTag byte | ScContextTagTooLarge byte
  | ScMultipleContextElements | ScSchemaMismatch | ScComponentCountOutOfBounds | ScInvalidOid | ScInvalidDateTime

fun is_optional :: "schema \<Rightarrow> bool" where
  "is_optional (SchOptional _) = True"
| "is_optional _ = False"

fun optional_inner :: "schema \<Rightarrow> schema" where
  "optional_inner (SchOptional inner) = inner"
| "optional_inner other = other"

fun unwrap_single :: "schema \<Rightarrow> schema" where
  "unwrap_single (SchContext _ inner) = inner"
| "unwrap_single other = other"

fun unwrap_field :: "schema \<Rightarrow> schema" where
  "unwrap_field (SchOptional inner) = SchOptional (unwrap_single inner)"
| "unwrap_field other = unwrap_single other"

fun unwrap_context_tags :: "schema \<Rightarrow> schema" where
  "unwrap_context_tags (SchStruct members) =
     SchStruct (map (\<lambda>f. Field (field_name f) (unwrap_field (field_schema f))) members)"
| "unwrap_context_tags other = other"

section \<open>Matching\<close>

definition pop_absent :: "'a option list \<Rightarrow> 'a option list" where
  "pop_absent out = rev (dropWhile (\<lambda>c. c = None) (rev out))"

definition component_get :: "'a list \<Rightarrow> nat \<Rightarrow> 'a option" where
  "component_get components index = (if index < length components then Some (components ! index) else None)"

lemma size_drop: "size_list size (drop n xs) \<le> size_list size xs"
  by (induction xs arbitrary: n) (auto simp: drop_Cons' split: nat.split intro: le_SucI trans_le_add2)

lemma size_member: "x \<in> set xs \<Longrightarrow> size x < size_list size xs"
  by (induction xs) auto

lemma size_schemas: "size_list size (map field_schema members) \<le> size_list size members"
proof (induction members)
  case (Cons f members)
  then show ?case by (cases f) auto
qed simp

lemma size_cut:
  "index < length schemas \<Longrightarrow> is_optional (schemas ! index) \<Longrightarrow>
     Suc (size (optional_inner (schemas ! index)) + size_list size (drop (Suc index) schemas)) < size_list size schemas"
proof (induction schemas arbitrary: index)
  case (Cons s schemas)
  show ?case
  proof (cases index)
    case 0
    then show ?thesis using Cons.prems by (cases s) auto
  next
    case (Suc i)
    then have "Suc (size (optional_inner (schemas ! i)) + size_list size (drop (Suc i) schemas)) < size_list size schemas"
      using Cons by simp
    then show ?thesis using Suc by simp
  qed
qed simp

lemma size_nth: "index < length xs \<Longrightarrow> size (xs ! index) < size_list size xs"
  by (simp add: size_member)

lemmas size_nths = add_strict_mono[OF size_nth size_nth] trans_less_add2[OF size_nth]

lemma size_cuts:
  "index < length schemas \<Longrightarrow> is_optional (schemas ! index) \<Longrightarrow>
     Suc (size_list size (drop index components) + (size (optional_inner (schemas ! index)) + size_list size (drop (Suc index) schemas)))
       < size_list size components + size_list size schemas"
  using size_cut[of index schemas] size_drop[of index components] by simp

lemma size_struct: "size_list (size \<circ> field_schema) members < Suc (Suc (size_list size members))"
  using size_schemas[of members] by simp

text \<open>
  The functions call each other: a struct inside a value is matched as a tuple, and members of a
  tuple are values.  \<open>resolve_ambiguous_optional\<close> gets the components and schemas from the index
  on, which the source cuts out of the whole lists first.
\<close>

function (sequential) matches_schema :: "asn1_value \<Rightarrow> schema \<Rightarrow> bool"
  and match_tuple :: "asn1_value list \<Rightarrow> schema list \<Rightarrow> schema_codec_error + asn1_value option list"
  and match_members ::
    "asn1_value list \<Rightarrow> schema list \<Rightarrow> nat \<Rightarrow> asn1_value option list \<Rightarrow> schema_codec_error + asn1_value option list"
  and resolve_ambiguous_optional ::
    "asn1_value list \<Rightarrow> schema \<Rightarrow> schema list \<Rightarrow> schema_codec_error + asn1_value option list"
  and against_one :: "asn1_value option \<Rightarrow> schema \<Rightarrow> schema_codec_error + asn1_value option" where
  "matches_schema value (SchOptional inner) = matches_schema value inner"
| "matches_schema value (SchContext tag inner) =
     (case value of AsnContext actual contains \<Rightarrow> actual = tag \<and> matches_schema contains inner | _ \<Rightarrow> False)"
| "matches_schema value (SchChoice alternatives) = list_ex (\<lambda>alternative. matches_schema value alternative) alternatives"
| "matches_schema value (SchSequenceOf inner) =
     (case value of AsnSeq items \<Rightarrow> list_all (\<lambda>item. matches_schema item inner) items | _ \<Rightarrow> False)"
| "matches_schema value (SchStruct members) =
     (case value of AsnSeq components \<Rightarrow> is_ok (match_tuple components (map field_schema members)) | _ \<Rightarrow> False)"
| "matches_schema value SchUtf8 = (case value of AsnStr _ \<Rightarrow> True | _ \<Rightarrow> False)"
| "matches_schema value SchOid = (case value of AsnOid _ \<Rightarrow> True | _ \<Rightarrow> False)"
| "matches_schema value SchOctetString = (case value of AsnOctets _ \<Rightarrow> True | _ \<Rightarrow> False)"
| "matches_schema value SchDate = (case value of AsnDate _ \<Rightarrow> True | _ \<Rightarrow> False)"
| "match_tuple components schemas =
     (let required = length (filter (\<lambda>schema. \<not> is_optional schema) schemas) in
      if length components < required \<or> length components > length schemas then Err ScComponentCountOutOfBounds
      else and_then (match_members components schemas 0 []) (\<lambda>out. Ok (pop_absent out)))"
| "match_members components schemas index out =
     (if index < length schemas then
        let schema = schemas ! index in
        if is_optional schema \<and> index < length schemas - 1 \<and> index < length components
        then and_then (resolve_ambiguous_optional (drop index components) (optional_inner schema) (drop (index + 1) schemas))
               (\<lambda>matched. Ok (out @ matched))
        else and_then (against_one (component_get components index) schema) (\<lambda>component.
               match_members components schemas (index + 1) (out @ [component]))
      else Ok out)"
| "resolve_ambiguous_optional head inner remaining =
     (case match_tuple head (inner # remaining) of
        Inr matched \<Rightarrow> Ok matched
      | Inl _ \<Rightarrow> and_then (match_tuple head remaining) (\<lambda>matched. Ok (None # matched)))"
| "against_one component schema =
     (case component of
        None \<Rightarrow> if is_optional schema then Ok None else Err ScSchemaMismatch
      | Some value \<Rightarrow> if matches_schema value schema then Ok (Some value) else Err ScSchemaMismatch)"
  by pat_completeness auto

termination
proof (relation "inv_image (less_than <*lex*> less_than <*lex*> less_than)
    (\<lambda>x. case x of
       Inl (Inl (value, schema)) \<Rightarrow> (size value + size schema, 0, 0)
     | Inl (Inr (components, schemas)) \<Rightarrow> (size_list size components + size_list size schemas, 3, 0)
     | Inr (Inl (components, schemas, index, out)) \<Rightarrow>
         (size_list size components + size_list size schemas, 2, length schemas - index)
     | Inr (Inr (Inl (head, inner, remaining))) \<Rightarrow>
         (size_list size head + Suc (size inner + size_list size remaining), 4, 0)
     | Inr (Inr (Inr (component, schema))) \<Rightarrow> (case_option 0 size component + size schema, 1, 0))")
qed (auto simp: component_get_def size_nths size_cuts dest: size_member intro: size_struct)

declare matches_schema.simps [simp del] match_tuple.simps [simp del] match_members.simps [simp del]
  resolve_ambiguous_optional.simps [simp del] against_one.simps [simp del]

section \<open>DER\<close>

record rasn_lib =
  rasn_oid_new :: "32 word list \<Rightarrow> bool"
  rasn_oid_encode :: "32 word list \<Rightarrow> bytes option"
  rasn_oid_decode :: "bytes \<Rightarrow> 32 word list option"
  rasn_oid_text :: "32 word list \<Rightarrow> rust_string"
  rasn_octets :: "byte \<Rightarrow> bytes \<Rightarrow> bytes option"
  rasn_any :: "bytes \<Rightarrow> bytes option"
  rasn_utc_time :: "bytes \<Rightarrow> int option"
  rasn_generalized_time :: "bytes \<Rightarrow> int option"
  chrono_seconds :: "int \<Rightarrow> bytes"
  chrono_millis :: "int \<Rightarrow> bytes"

text \<open>The \<open>rasn\<close> side of \<open>asn1_time.rs\<close>.  Times are milliseconds; the crate parses nanoseconds.\<close>

definition asn1_time_new :: "int \<Rightarrow> int" where
  "asn1_time_new nanos = nanos div 1000000"

definition format_transport :: "rasn_lib \<Rightarrow> int \<Rightarrow> bytes" where
  "format_transport R time = (if time mod 1000 = 0 then chrono_seconds R time else chrono_millis R time)"

definition asn1_time_encode :: "rasn_lib \<Rightarrow> int \<Rightarrow> bytes option" where
  "asn1_time_encode R time = rasn_octets R 0x18 (format_transport R time)"

definition asn1_time_decode :: "rasn_lib \<Rightarrow> bytes \<Rightarrow> int option" where
  "asn1_time_decode R raw =
     (case rasn_any R raw of
        None \<Rightarrow> None
      | Some bs \<Rightarrow>
          map_option asn1_time_new
            (if take 1 bs = [0x17] then rasn_utc_time R bs else rasn_generalized_time R bs))"

text \<open>Dotted text: \<open>split\<close> and \<open>u32::from_str\<close> of the standard library.\<close>

fun split_dots :: "rust_string \<Rightarrow> rust_string list" where
  "split_dots [] = [[]]"
| "split_dots (c # cs) =
     (if c = 46 then [] # split_dots cs
      else (case split_dots cs of w # ws \<Rightarrow> (c # w) # ws | [] \<Rightarrow> [[c]]))"

fun u32_digits :: "nat \<Rightarrow> rust_string \<Rightarrow> nat option" where
  "u32_digits acc [] = Some acc"
| "u32_digits acc (c # cs) =
     (if 48 \<le> c \<and> c \<le> 57 then
        let acc = acc * 10 + unat (c - 48) in if acc \<ge> 2 ^ 32 then None else u32_digits acc cs
      else None)"

definition parse_u32 :: "rust_string \<Rightarrow> 32 word option" where
  "parse_u32 s =
     (let ds = (case s of c # cs \<Rightarrow> if c = 43 then cs else s | [] \<Rightarrow> []) in
      if ds = [] then None else map_option word_of_nat (u32_digits 0 ds))"

definition parse_dotted_oid :: "rasn_lib \<Rightarrow> rust_string \<Rightarrow> schema_codec_error + 32 word list" where
  "parse_dotted_oid R dotted =
     and_then (traverse (\<lambda>arc. ok_or ScInvalidOid (parse_u32 arc)) (split_dots dotted)) (\<lambda>arcs.
       if rasn_oid_new R arcs then Ok arcs else Err ScInvalidOid)"

fun length_octets :: "nat \<Rightarrow> bytes" where
  "length_octets remaining =
     (if remaining > 0 then word_of_nat (remaining mod 256) # length_octets (remaining div 256) else [])"

declare length_octets.simps [simp del]

definition schema_der_length :: "nat \<Rightarrow> bytes" where
  "schema_der_length n =
     (if n < 0x80 then [word_of_nat n]
      else let bs = rev (length_octets n) in (0x80 OR word_of_nat (length bs)) # bs)"

definition wrap_element :: "byte \<Rightarrow> bytes \<Rightarrow> bytes" where
  "wrap_element tag body = tag # schema_der_length (length body) @ body"

fun schema_der_encode :: "rasn_lib \<Rightarrow> asn1_value \<Rightarrow> schema_codec_error + bytes" where
  "schema_der_encode R (AsnSeq items) =
     and_then (traverse (\<lambda>item. schema_der_encode R item) items) (\<lambda>encoded. Ok (wrap_element 0x30 (concat encoded)))"
| "schema_der_encode R (AsnContext tag contains) =
     (if tag > 30 then Err (ScContextTagTooLarge tag)
      else and_then (schema_der_encode R contains) (\<lambda>body. Ok (wrap_element (0xA0 OR tag) body)))"
| "schema_der_encode R (AsnStr text) = Ok (wrap_element 0x0C text)"
| "schema_der_encode R (AsnOid oid) =
     and_then (parse_dotted_oid R oid) (\<lambda>parsed. ok_or ScInvalidOid (rasn_oid_encode R parsed))"
| "schema_der_encode R (AsnOctets bs) = Ok (wrap_element 0x04 bs)"
| "schema_der_encode R (AsnDate time) = ok_or ScInvalidDateTime (asn1_time_encode R time)"

record tlv_element =
  el_tag :: byte
  el_value :: bytes
  el_raw :: bytes
  el_rest :: bytes

fun checked_length :: "nat \<Rightarrow> bytes \<Rightarrow> nat option" where
  "checked_length acc [] = Some acc"
| "checked_length acc (b # bs) =
     (if acc * 256 \<ge> 2 ^ 64 then None
      else if acc * 256 + unat b \<ge> 2 ^ 64 then None
      else checked_length (acc * 256 + unat b) bs)"

definition read_length :: "bytes \<Rightarrow> byte \<Rightarrow> schema_codec_error + nat \<times> nat" where
  "read_length input first =
     (if unat first < 0x80 then Ok (unat first, 2)
      else
        let count = unat (first AND 0x7F) in
        if count = 0 \<or> count > 8 then Err ScMalformedLength
        else if length input < 2 + count then Err ScTruncated
        else and_then (ok_or ScMalformedLength (checked_length 0 (take count (drop 2 input)))) (\<lambda>n. Ok (n, 2 + count)))"

definition read_tlv :: "bytes \<Rightarrow> schema_codec_error + tlv_element" where
  "read_tlv input =
     (case input of
        tag # first # _ \<Rightarrow>
          and_then (read_length input first) (\<lambda>(n, header).
            if header + n \<ge> 2 ^ 64 then Err ScMalformedLength
            else if length input < header + n then Err ScTruncated
            else Ok \<lparr>el_tag = tag, el_value = drop header (take (header + n) input),
                     el_raw = take (header + n) input, el_rest = drop (header + n) input\<rparr>)
      | _ \<Rightarrow> Err ScTruncated)"

lemma read_tlv_header: "read_length input first = Inr (n, header) \<Longrightarrow> 2 \<le> header"
  by (auto simp: read_length_def Let_def split: if_splits)

lemma read_tlv_split:
  assumes "read_tlv input = Inr t"
  shows "input = el_raw t @ el_rest t" "Suc (length (el_value t)) < length (el_raw t)"
  using assms by (auto simp: read_tlv_def min_def split: list.splits if_splits dest!: read_tlv_header)

lemma read_tlv_shrinks:
  assumes "read_tlv input = Inr t"
  shows "Suc (length (el_value t)) < length input" "Suc (length (el_rest t)) < length input"
  using read_tlv_split[OF assms] by (simp_all add: append_eq_conv_conj)

function schema_decode_tlv :: "rasn_lib \<Rightarrow> byte \<Rightarrow> bytes \<Rightarrow> bytes \<Rightarrow> schema_codec_error + asn1_value"
  and decode_components :: "rasn_lib \<Rightarrow> bytes \<Rightarrow> schema_codec_error + asn1_value list" where
  "schema_decode_tlv R tag value raw =
     (if tag AND 0xC0 = 0x80 then
        and_then (read_tlv value) (\<lambda>inner.
          if el_rest inner \<noteq> [] then Err ScMultipleContextElements
          else and_then (schema_decode_tlv R (el_tag inner) (el_value inner) (el_raw inner)) (\<lambda>contains.
                 Ok (AsnContext (tag AND 0x1F) contains)))
      else if tag = 0x30 then and_then (decode_components R value) (\<lambda>components. Ok (AsnSeq components))
      else if tag \<in> {0x0C, 0x13, 0x16} then (if valid_utf8 value then Ok (AsnStr value) else Err ScSchemaMismatch)
      else if tag = 0x06 then
        and_then (ok_or ScInvalidOid (rasn_oid_decode R raw)) (\<lambda>oid. Ok (AsnOid (rasn_oid_text R oid)))
      else if tag = 0x04 then Ok (AsnOctets value)
      else if tag \<in> {0x17, 0x18} then
        and_then (ok_or ScInvalidDateTime (asn1_time_decode R raw)) (\<lambda>time. Ok (AsnDate time))
      else Err (ScUnsupportedTag tag))"
| "decode_components R rest =
     (if rest \<noteq> [] then
        and_then (read_tlv rest) (\<lambda>tlv.
        and_then (schema_decode_tlv R (el_tag tlv) (el_value tlv) (el_raw tlv)) (\<lambda>component.
        and_then (decode_components R (el_rest tlv)) (\<lambda>components. Ok (component # components))))
      else Ok [])"
  by pat_completeness auto

termination
proof (relation "measure (\<lambda>x. case x of
       Inl (_, _, value, _) \<Rightarrow> Suc (2 * length value)
     | Inr (_, body) \<Rightarrow> 2 * length body)")
qed (auto dest: read_tlv_shrinks)

declare schema_decode_tlv.simps [simp del] decode_components.simps [simp del]

definition schema_der_decode :: "rasn_lib \<Rightarrow> bytes \<Rightarrow> schema_codec_error + asn1_value" where
  "schema_der_decode R der =
     and_then (read_tlv der) (\<lambda>tlv.
       if el_rest tlv \<noteq> [] then Err ScTrailing
       else schema_decode_tlv R (el_tag tlv) (el_value tlv) (el_raw tlv))"

end
