(* ===== verification/SchemaProps.thy ===== *)
theory SchemaProps
  imports SchemaCodec DerRef
begin

text \<open>
  Properties of the schema-driven codec: matching finds an alignment of components with members
  exactly when there is one, decoding inverts encoding, and what the decoder accepts beyond DER.
  \<open>rasn_laws\<close> states what is relied on of the \<open>rasn\<close> and \<open>chrono\<close> crates; \<open>ref_rasn\<close> is an instance.
\<close>

unbundle bit_operations_syntax

section \<open>Alignments\<close>

fun slot_ok :: "schema \<Rightarrow> asn1_value option \<Rightarrow> bool" where
  "slot_ok schema None \<longleftrightarrow> is_optional schema"
| "slot_ok schema (Some value) \<longleftrightarrow> matches_schema value schema"

definition present :: "'a option list \<Rightarrow> 'a list" where
  "present out = map the (filter (\<lambda>c. c \<noteq> None) out)"

definition aligned :: "asn1_value list \<Rightarrow> schema list \<Rightarrow> asn1_value option list \<Rightarrow> bool" where
  "aligned components schemas out \<longleftrightarrow> list_all2 slot_ok schemas out \<and> present out = components"

definition pad :: "nat \<Rightarrow> 'a option list \<Rightarrow> 'a option list" where
  "pad n out = out @ replicate (n - length out) None"

lemma present_simps [simp]: "present [] = []" "present (None # out) = present out" "present (Some v # out) = v # present out"
  "present (out @ out') = present out @ present out'" "present (replicate n None) = []"
  by (simp_all add: present_def)

lemma pad_Cons [simp]: "pad (Suc n) (c # out) = c # pad n out"
  by (simp add: pad_def)

lemma pop_absent_pad: "\<exists>k. out = pop_absent out @ replicate k None"
proof -
  have "rev out = takeWhile (\<lambda>c. c = None) (rev out) @ dropWhile (\<lambda>c. c = None) (rev out)" by simp
  moreover have "takeWhile (\<lambda>c. c = None) (rev out) = replicate (length (takeWhile (\<lambda>c. c = None) (rev out))) None"
    by (rule replicate_eqI[symmetric, THEN sym]) (auto dest: set_takeWhileD)
  ultimately show ?thesis unfolding pop_absent_def by (metis rev_append rev_rev_ident rev_replicate)
qed

lemma pad_pop_absent: "length out \<le> n \<Longrightarrow> pad n (pop_absent out) = pad n out"
proof -
  assume len: "length out \<le> n"
  obtain k where k: "out = pop_absent out @ replicate k None" using pop_absent_pad by blast
  define m where "m = length (pop_absent out)"
  have "length out = m + k" by (subst k) (simp add: m_def)
  then have "replicate (n - m) None = replicate k None @ replicate (n - length out) None"
    using len by (simp add: replicate_add[symmetric])
  then show ?thesis using \<open>length out = m + k\<close> by (subst (2) k) (simp add: pad_def m_def)
qed

lemma pop_absent_length: "length (pop_absent out) \<le> length out"
  using length_dropWhile_le[of "\<lambda>c. c = None" "rev out"] by (simp add: pop_absent_def)

lemma pop_absent_last: "pop_absent out = [] \<or> last (pop_absent out) \<noteq> None"
proof (cases "dropWhile (\<lambda>c. c = None) (rev out)")
  case Nil
  then show ?thesis by (simp add: pop_absent_def)
next
  case (Cons c cs)
  then have "c \<noteq> None" using hd_dropWhile[of "\<lambda>c. c = None" "rev out"] by (metis list.distinct(1) list.sel(1))
  then show ?thesis using Cons by (simp add: pop_absent_def last_rev)
qed

text \<open>The loop over members, on the lists that are left.\<close>

fun match_rest :: "asn1_value list \<Rightarrow> schema list \<Rightarrow> schema_codec_error + asn1_value option list" where
  "match_rest components [] = Ok []"
| "match_rest components (schema # schemas) =
     (if is_optional schema \<and> schemas \<noteq> [] \<and> components \<noteq> []
      then resolve_ambiguous_optional components (optional_inner schema) schemas
      else and_then (against_one (case components of [] \<Rightarrow> None | c # _ \<Rightarrow> Some c) schema) (\<lambda>component.
             and_then (match_rest (tl components) schemas) (\<lambda>out. Ok (component # out))))"

lemma match_members_rest:
  "match_members components schemas index out =
     and_then (match_rest (drop index components) (drop index schemas)) (\<lambda>rest. Ok (out @ rest))"
proof (induction "length schemas - index" arbitrary: index out)
  case 0
  then show ?case by (simp add: match_members.simps)
next
  case (Suc n)
  have i: "index < length schemas" using Suc.hyps(2) by simp
  then have d: "drop index schemas = schemas ! index # drop (Suc index) schemas" by (simp add: Cons_nth_drop_Suc)
  have c: "(case drop index components of [] \<Rightarrow> None | c # _ \<Rightarrow> Some c) = component_get components index"
    by (cases "index < length components") (auto simp: component_get_def Cons_nth_drop_Suc[symmetric])
  have t: "tl (drop index components) = drop (Suc index) components" by (simp add: tl_drop drop_Suc)
  have l: "drop (Suc index) schemas \<noteq> [] \<longleftrightarrow> index < length schemas - 1" using i by auto
  have n: "drop index components \<noteq> [] \<longleftrightarrow> index < length components" by auto
  show ?case
  proof (cases "is_optional (schemas ! index) \<and> index < length schemas - 1 \<and> index < length components")
    case True
    then show ?thesis by (subst match_members.simps) (use i d l n in auto)
  next
    case False
    have "n = length schemas - Suc index" using Suc.hyps(2) by simp
    note IH = Suc.hyps(1)[OF this]
    show ?thesis using False
      by (subst match_members.simps) (auto simp: i d c t IH and_then_assoc Let_def)
  qed
qed

lemma match_tuple_rest:
  "match_tuple components schemas =
     (if length components < length (filter (\<lambda>schema. \<not> is_optional schema) schemas) \<or> length components > length schemas
      then Err ScComponentCountOutOfBounds
      else and_then (match_rest components schemas) (\<lambda>out. Ok (pop_absent out)))"
  by (simp add: match_tuple.simps match_members_rest)

lemma aligned_counts:
  "list_all2 slot_ok schemas out \<Longrightarrow>
     length (filter (\<lambda>schema. \<not> is_optional schema) schemas) \<le> length (present out) \<and> length (present out) \<le> length schemas"
proof (induction schemas out rule: list_all2_induct)
  case (Cons schema schemas c out)
  then show ?case by (cases c) auto
qed simp

lemma matches_optional [simp]: "matches_schema value (SchOptional inner) = matches_schema value inner"
  by (simp add: matches_schema.simps)

lemma slot_ok_inner: "slot_ok (optional_inner schema) c \<Longrightarrow> slot_ok schema c"
  by (cases schema; cases c) (auto simp: matches_schema.simps)

lemma against_one_ok: "against_one c schema = Inr c' \<longleftrightarrow> c' = c \<and> slot_ok schema c"
  by (cases c) (auto simp: against_one.simps)

lemma resolve_ok:
  "resolve_ambiguous_optional head inner remaining = Inr out \<longleftrightarrow>
     match_tuple head (inner # remaining) = Inr out \<or>
     (\<nexists>m. match_tuple head (inner # remaining) = Inr m) \<and> (\<exists>m. match_tuple head remaining = Inr m \<and> out = None # m)"
  by (auto simp: resolve_ambiguous_optional.simps split: sum.splits)

lemma tuple_of_rest:
  assumes "\<And>out. match_rest components schemas = Inr out \<Longrightarrow> length components \<le> length schemas \<Longrightarrow>
      length out \<le> length schemas \<and> aligned components schemas (pad (length schemas) out)"
    and "match_tuple components schemas = Inr m"
  shows "length m \<le> length schemas \<and> aligned components schemas (pad (length schemas) m)"
proof -
  obtain out where out: "match_rest components schemas = Inr out" "length components \<le> length schemas" "m = pop_absent out"
    using assms(2) by (auto simp: match_tuple_rest split: if_splits)
  then show ?thesis using assms(1)[OF out(1,2)] pop_absent_length[of out] pad_pop_absent[of out "length schemas"] by simp
qed

lemma match_rest_sound:
  "match_rest components schemas = Inr out \<Longrightarrow> length components \<le> length schemas \<Longrightarrow>
     length out \<le> length schemas \<and> aligned components schemas (pad (length schemas) out)"
proof (induction "size_list size schemas" arbitrary: components schemas out rule: less_induct)
  case less
  show ?case
  proof (cases schemas)
    case Nil
    then show ?thesis using less.prems by (simp add: aligned_def pad_def)
  next
    case (Cons schema rest)
    have small: "size_list size rest < size_list size schemas" using Cons by simp
    show ?thesis
    proof (cases "is_optional schema \<and> rest \<noteq> [] \<and> components \<noteq> []")
      case True
      then have inner: "size_list size (optional_inner schema # rest) < size_list size schemas"
        using Cons by (cases schema) auto
      consider "match_tuple components (optional_inner schema # rest) = Inr out"
        | m where "match_tuple components rest = Inr m" "out = None # m"
        using less.prems(1) True Cons by (auto simp: resolve_ok)
      then show ?thesis
      proof cases
        case 1
        from tuple_of_rest[OF less.hyps[OF inner] this] show ?thesis
          using Cons slot_ok_inner by (auto simp: aligned_def list_all2_Cons1)
      next
        case 2
        from tuple_of_rest[OF less.hyps[OF small] 2(1)] show ?thesis
          using Cons True 2(2) by (auto simp: aligned_def)
      qed
    next
      case False
      then obtain m where m: "slot_ok schema (case components of [] \<Rightarrow> None | c # _ \<Rightarrow> Some c)"
        "match_rest (tl components) rest = Inr m" "out = (case components of [] \<Rightarrow> None | c # _ \<Rightarrow> Some c) # m"
        using less.prems(1) Cons by (auto simp: against_one_ok simp del: slot_ok.simps)
      moreover have "length (tl components) \<le> length rest" using less.prems(2) Cons by simp
      ultimately show ?thesis using less.hyps[OF small m(2)] Cons
        by (cases components) (auto simp: aligned_def)
    qed
  qed
qed

lemma match_tuple_of_rest:
  "aligned components schemas out \<Longrightarrow> \<exists>m. match_rest components schemas = Inr m \<Longrightarrow> \<exists>m. match_tuple components schemas = Inr m"
  using aligned_counts[of schemas out] by (auto simp: match_tuple_rest aligned_def)

lemma match_rest_complete: "aligned components schemas out \<Longrightarrow> \<exists>m. match_rest components schemas = Inr m"
proof (induction "size_list size schemas" arbitrary: components schemas out rule: less_induct)
  case less
  show ?case
  proof (cases schemas)
    case (Cons schema rest)
    then obtain c out' where o: "out = c # out'" "slot_ok schema c" "list_all2 slot_ok rest out'"
      and p: "present out = components" using less.prems by (auto simp: aligned_def list_all2_Cons1)
    have small: "size_list size rest < size_list size schemas" using Cons by simp
    show ?thesis
    proof (cases "is_optional schema \<and> rest \<noteq> [] \<and> components \<noteq> []")
      case True
      then have inner: "size_list size (optional_inner schema # rest) < size_list size schemas"
        using Cons by (cases schema) auto
      have "\<exists>m. match_tuple components (optional_inner schema # rest) = Inr m \<or> match_tuple components rest = Inr m"
      proof (cases c)
        case None
        then have "aligned components rest out'" using o p by (simp add: aligned_def)
        then show ?thesis using match_tuple_of_rest less.hyps[OF small] by blast
      next
        case (Some v)
        then have "aligned components (optional_inner schema # rest) out"
          using o p True by (cases schema) (auto simp: aligned_def)
        then show ?thesis using match_tuple_of_rest less.hyps[OF inner] by blast
      qed
      then have "\<exists>m. resolve_ambiguous_optional components (optional_inner schema) rest = Inr m"
        unfolding resolve_ok by blast
      then show ?thesis using True Cons by simp
    next
      case False
      have "c = (case components of [] \<Rightarrow> None | v # _ \<Rightarrow> Some v) \<and> aligned (tl components) rest out'"
      proof (cases c)
        case None
        then have "components = []" using False o p by (cases out') (auto simp: aligned_def)
        then show ?thesis using None o p by (simp add: aligned_def)
      next
        case (Some v)
        then show ?thesis using o p by (auto simp: aligned_def)
      qed
      moreover from this obtain m where "match_rest (tl components) rest = Inr m" using less.hyps[OF small] by blast
      ultimately have "against_one (case components of [] \<Rightarrow> None | v # _ \<Rightarrow> Some v) schema = Inr c" "match_rest (tl components) rest = Inr m"
        using o(2) by (auto simp: against_one_ok)
      then show ?thesis using False Cons by auto
    qed
  qed simp
qed

lemma match_rest_error: "match_rest components schemas = Inl e \<Longrightarrow> e \<in> {ScComponentCountOutOfBounds, ScSchemaMismatch}"
proof (induction "size_list size schemas" arbitrary: components schemas rule: less_induct)
  case less
  show ?case
  proof (cases schemas)
    case (Cons schema rest)
    have small: "size_list size rest < size_list size schemas" using Cons by simp
    show ?thesis
    proof (cases "is_optional schema \<and> rest \<noteq> [] \<and> components \<noteq> []")
      case True
      then have "match_tuple components rest = Inl e"
        using less.prems Cons by (auto simp: resolve_ambiguous_optional.simps and_then_eq_Inl split: sum.splits)
      then show ?thesis using less.hyps[OF small] by (auto simp: match_tuple_rest and_then_eq_Inl split: if_splits)
    next
      case False
      then consider "against_one (case components of [] \<Rightarrow> None | c # _ \<Rightarrow> Some c) schema = Inl e"
        | "match_rest (tl components) rest = Inl e" using less.prems Cons by (auto simp: and_then_eq_Inl)
      then show ?thesis using less.hyps[OF small]
        by cases (auto simp: against_one.simps split: option.splits if_splits list.splits)
    qed
  qed (use less.prems in simp)
qed

section \<open>Matching\<close>

text \<open>C30: matching the components of a sequence with the members of a struct succeeds exactly when
  there is an alignment: every component, in order, matches a member, and every member without a
  component is optional.  The result, filled up with absent members, is such an alignment, and its
  last entry is present.\<close>
theorem match_tuple_spec:
  "(\<exists>out. match_tuple components schemas = Inr out) = (\<exists>out. aligned components schemas out) \<and>
   (case match_tuple components schemas of
      Inl e \<Rightarrow> e \<in> {ScComponentCountOutOfBounds, ScSchemaMismatch}
    | Inr out \<Rightarrow> aligned components schemas (pad (length schemas) out) \<and> (if out = [] then True else last out \<noteq> None))"
proof (cases "match_tuple components schemas")
  case (Inl e)
  then have "\<nexists>out. aligned components schemas out" using match_tuple_of_rest match_rest_complete by fastforce
  then show ?thesis using Inl by (auto simp: match_tuple_rest and_then_eq_Inl split: if_splits dest: match_rest_error)
next
  case (Inr out)
  then have "aligned components schemas (pad (length schemas) out)" using tuple_of_rest[OF match_rest_sound] by blast
  moreover have "out = [] \<or> last out \<noteq> None"
    using Inr pop_absent_last by (auto simp: match_tuple_rest split: if_splits)
  ultimately show ?thesis using Inr by auto
qed

section \<open>Elements\<close>

definition be_value :: "nat \<Rightarrow> bytes \<Rightarrow> nat" where
  "be_value acc bs = foldl (\<lambda>acc b. acc * 256 + unat b) acc bs"

lemma be_value_simps [simp]:
  "be_value acc [] = acc" "be_value acc (b # bs) = be_value (acc * 256 + unat b) bs"
  "be_value acc (bs @ [b]) = be_value acc bs * 256 + unat b"
  by (simp_all add: be_value_def)

lemma be_value_mono: "acc \<le> be_value acc bs"
proof (induction bs arbitrary: acc)
  case (Cons b bs)
  have "acc \<le> acc * 256 + unat b" by simp
  also have "\<dots> \<le> be_value (acc * 256 + unat b) bs" by (rule Cons)
  finally show ?case by simp
qed simp

lemma checked_length_value: "be_value acc bs < 2 ^ 64 \<Longrightarrow> checked_length acc bs = Some (be_value acc bs)"
proof (induction bs arbitrary: acc)
  case (Cons b bs)
  have "acc * 256 + unat b < 2 ^ 64" using Cons.prems be_value_mono[of "acc * 256 + unat b" bs] by simp
  then show ?case using Cons by simp
qed simp

lemma unat_low_octet: "unat (word_of_nat (n mod 256) :: byte) = n mod 256"
  by (simp add: unat_of_nat)

lemma length_octets_value: "be_value 0 (rev (length_octets n)) = n"
proof (induction n rule: length_octets.induct)
  case (1 n)
  then show ?case by (subst length_octets.simps) (simp add: unat_low_octet)
qed

lemma length_octets_bound: "n < 256 ^ k \<Longrightarrow> length (length_octets n) \<le> k"
proof (induction k arbitrary: n)
  case 0
  then show ?case by (simp add: length_octets.simps)
next
  case (Suc k)
  then have "length (length_octets (n div 256)) \<le> k" by (simp add: less_mult_imp_div_less mult.commute)
  then show ?case by (subst length_octets.simps) simp
qed

lemma length_octets_pos: "0 < n \<Longrightarrow> 0 < length (length_octets n)"
  by (subst length_octets.simps) simp

lemma length_first_octet:
  assumes "0 < k" "k \<le> 8"
  shows "unat ((0x80 :: byte) OR word_of_nat k) = 128 + k" "unat (((0x80 :: byte) OR word_of_nat k) AND 0x7F) = k"
proof -
  have "k \<in> {1, 2, 3, 4, 5, 6, 7, 8}" using assms by auto
  then show "unat ((0x80 :: byte) OR word_of_nat k) = 128 + k" "unat (((0x80 :: byte) OR word_of_nat k) AND 0x7F) = k"
    by auto
qed

lemma read_length_written:
  assumes "n < 2 ^ 64"
  shows "\<exists>first more. schema_der_length n = first # more \<and>
    read_length (tag # schema_der_length n @ rest) first = Inr (n, Suc (length (schema_der_length n)))"
proof (cases "n < 128")
  case True
  then show ?thesis by (simp add: schema_der_length_def read_length_def unat_of_nat)
next
  case False
  let ?k = "length (length_octets n)"
  have k: "0 < ?k" "?k \<le> 8" using False assms length_octets_pos[of n] length_octets_bound[of n 8] by simp_all
  have "checked_length 0 (rev (length_octets n)) = Some n"
    using checked_length_value[of 0 "rev (length_octets n)"] assms by (simp add: length_octets_value)
  then show ?thesis using False k
    by (simp add: schema_der_length_def read_length_def Let_def length_first_octet)
qed

lemma read_tlv_wrap:
  assumes "length (wrap_element tag body) < 2 ^ 64"
  shows "read_tlv (wrap_element tag body @ rest) =
    Inr \<lparr>el_tag = tag, el_value = body, el_raw = wrap_element tag body, el_rest = rest\<rparr>"
proof -
  have "length body < 2 ^ 64" using assms by (simp add: wrap_element_def)
  then obtain first more where f: "schema_der_length (length body) = first # more"
    "read_length (tag # schema_der_length (length body) @ body @ rest) first =
      Inr (length body, Suc (length (schema_der_length (length body))))"
    using read_length_written[of "length body" tag "body @ rest"] by blast
  then show ?thesis using assms by (simp add: read_tlv_def wrap_element_def)
qed

lemma context_octet:
  assumes "\<not> (tag :: byte) > 30"
  shows "(0xA0 OR tag) AND 0xC0 = 0x80" "(0xA0 OR tag) AND 0x1F = tag"
proof -
  have "unat tag < 31" using assms by (simp add: word_less_nat_alt not_less unat_of_nat)
  then have "unat tag \<in> set [0..<31]" by simp
  then have "tag \<in> word_of_nat ` set [0..<31]" by (intro image_eqI[of _ _ "unat tag"]) simp_all
  then show "(0xA0 OR tag) AND 0xC0 = 0x80" "(0xA0 OR tag) AND 0x1F = tag"
    by (auto simp: upt_rec)
qed

section \<open>Texts of object identifiers\<close>

fun arc_decimal :: "nat \<Rightarrow> rust_string" where
  "arc_decimal n = (if n < 10 then [word_of_nat (48 + n)] else arc_decimal (n div 10) @ [word_of_nat (48 + n mod 10)])"

declare arc_decimal.simps [simp del]

fun dotted :: "32 word list \<Rightarrow> rust_string" where
  "dotted [] = []"
| "dotted [a] = arc_decimal (unat a)"
| "dotted (a # as) = arc_decimal (unat a) @ 46 # dotted as"

definition canonical_oid :: "rust_string \<Rightarrow> bool" where
  "canonical_oid text \<longleftrightarrow>
     (case traverse (\<lambda>arc. ok_or ScInvalidOid (parse_u32 arc)) (split_dots text) of
        Inl _ \<Rightarrow> True | Inr arcs \<Rightarrow> dotted arcs = text)"

lemma digit_octet:
  assumes "d < 10"
  shows "48 \<le> (word_of_nat (48 + d) :: byte)" "(word_of_nat (48 + d) :: byte) \<le> 57" "unat ((word_of_nat (48 + d) :: byte) - 48) = d"
    "(word_of_nat (48 + d) :: byte) \<noteq> 43" "(word_of_nat (48 + d) :: byte) \<noteq> 46"
proof -
  have "d \<in> {0, 1, 2, 3, 4, 5, 6, 7, 8, 9}" using assms by auto
  then show "48 \<le> (word_of_nat (48 + d) :: byte)" "(word_of_nat (48 + d) :: byte) \<le> 57" "unat ((word_of_nat (48 + d) :: byte) - 48) = d"
    "(word_of_nat (48 + d) :: byte) \<noteq> 43" "(word_of_nat (48 + d) :: byte) \<noteq> 46" by auto
qed

lemma digits_value_append:
  "u32_digits acc (ds @ [d]) = (case u32_digits acc ds of None \<Rightarrow> None | Some n \<Rightarrow> u32_digits n [d])"
  by (induction ds arbitrary: acc) (auto simp: Let_def)

lemma digits_value_decimal: "n < 2 ^ 32 \<Longrightarrow> u32_digits 0 (arc_decimal n) = Some n"
proof (induction n rule: arc_decimal.induct)
  case (1 n)
  show ?case
  proof (cases "n < 10")
    case True
    then show ?thesis by (subst arc_decimal.simps) (simp add: digit_octet[OF True, simplified] Let_def)
  next
    case False
    then have "u32_digits 0 (arc_decimal (n div 10)) = Some (n div 10)" using 1 by simp
    then show ?thesis using 1(2) False digit_octet[of "n mod 10", simplified]
      by (subst arc_decimal.simps) (simp add: digits_value_append Let_def)
  qed
qed

lemma decimal_octets: "arc_decimal n \<noteq> [] \<and> hd (arc_decimal n) \<noteq> 43 \<and> 46 \<notin> set (arc_decimal n)"
proof (induction n rule: arc_decimal.induct)
  case (1 n)
  show ?case
    by (subst (1 2 3) arc_decimal.simps)
      (use 1 digit_octet[of n, simplified] digit_octet[of "n mod 10", simplified] in \<open>auto simp: hd_append\<close>)
qed

lemma parse_decimal: "parse_u32 (arc_decimal (unat a)) = Some (a :: 32 word)"
proof -
  obtain c cs where d: "arc_decimal (unat a) = c # cs" "c \<noteq> 43" using decimal_octets[of "unat a"] by (cases "arc_decimal (unat a)") auto
  have "unat a < 2 ^ 32" using unsigned_less[of a] by simp
  from digits_value_decimal[OF this] show ?thesis using d by (simp add: parse_u32_def del: u32_digits.simps)
qed

lemma split_dots_word: "46 \<notin> set w \<Longrightarrow> split_dots w = [w]"
  by (induction w) auto

lemma split_dots_cons: "46 \<notin> set w \<Longrightarrow> split_dots (w @ 46 # s) = w # split_dots s"
  by (induction w) auto

lemma split_dotted: "arcs \<noteq> [] \<Longrightarrow> split_dots (dotted arcs) = map (\<lambda>a. arc_decimal (unat a)) arcs"
  by (induction arcs rule: dotted.induct) (auto simp: split_dots_word split_dots_cons decimal_octets)

lemma parse_dotted: "arcs \<noteq> [] \<Longrightarrow> traverse (\<lambda>arc. ok_or ScInvalidOid (parse_u32 arc)) (split_dots (dotted arcs)) = Inr arcs"
  by (simp add: split_dotted traverse_eq_Inr list.rel_map list.rel_refl parse_decimal)

lemma dotted_canonical: "canonical_oid (dotted arcs)"
proof (cases "arcs = []")
  case True
  then show ?thesis by (simp add: canonical_oid_def parse_u32_def)
next
  case False
  then show ?thesis by (simp add: canonical_oid_def parse_dotted)
qed

section \<open>The laws\<close>

definition time_in_range :: "int \<Rightarrow> bool" where
  "time_in_range time \<longleftrightarrow> - 62167219200000 \<le> time \<and> time < 253402300800000"

locale rasn_laws =
  fixes R :: rasn_lib
  assumes oid_element: "rasn_oid_new R arcs \<Longrightarrow> rasn_oid_encode R arcs = Some der \<Longrightarrow> \<exists>body. der = wrap_element 0x06 body"
    and oid_decode: "rasn_oid_new R arcs \<Longrightarrow> rasn_oid_encode R arcs = Some der \<Longrightarrow> rasn_oid_decode R der = Some arcs"
    and oid_text: "rasn_oid_text R arcs = dotted arcs"
    and octets_element: "rasn_octets R tag bs = Some der \<Longrightarrow> der = wrap_element tag bs \<and> rasn_any R der = Some der"
    and time_parsed: "time_in_range time \<Longrightarrow> rasn_octets R 0x18 (format_transport R time) = Some der \<Longrightarrow>
      rasn_generalized_time R der = Some (1000000 * time)"

fun texts_ok :: "asn1_value \<Rightarrow> bool" where
  "texts_ok (AsnSeq items) \<longleftrightarrow> list_all texts_ok items"
| "texts_ok (AsnContext _ contains) \<longleftrightarrow> texts_ok contains"
| "texts_ok (AsnStr text) \<longleftrightarrow> valid_utf8 text"
| "texts_ok (AsnOid text) \<longleftrightarrow> canonical_oid text"
| "texts_ok _ \<longleftrightarrow> True"

fun dates_in_range :: "asn1_value \<Rightarrow> bool" where
  "dates_in_range (AsnSeq items) \<longleftrightarrow> list_all dates_in_range items"
| "dates_in_range (AsnContext _ contains) \<longleftrightarrow> dates_in_range contains"
| "dates_in_range (AsnDate time) \<longleftrightarrow> time_in_range time"
| "dates_in_range _ \<longleftrightarrow> True"

lemma wrap_element_length: "length body < length (wrap_element tag body)"
  by (simp add: wrap_element_def)

lemma wrap_element_short: "length body < 128 \<Longrightarrow> length (wrap_element tag body) = length body + 2"
  by (simp add: wrap_element_def schema_der_length_def)

context rasn_laws
begin

lemma time_roundtrip:
  assumes "time_in_range time" and "asn1_time_encode R time = Some der"
  shows "der = wrap_element 0x18 (format_transport R time)" "asn1_time_decode R der = Some time"
proof -
  have e: "rasn_octets R 0x18 (format_transport R time) = Some der" using assms(2) by (simp add: asn1_time_encode_def)
  note o = octets_element[OF e]
  then show "der = wrap_element 0x18 (format_transport R time)" by simp
  have "take 1 der = [0x18]" by (simp add: conjunct1[OF o] wrap_element_def)
  moreover note conjunct2[OF o]
  ultimately show "asn1_time_decode R der = Some time"
    using time_parsed[OF assms(1) e] by (simp add: asn1_time_decode_def asn1_time_new_def)
qed

lemma components_of_elements:
  assumes "list_all2 (\<lambda>item bs. \<exists>tag body. bs = wrap_element tag body \<and> schema_decode_tlv R tag body bs = Inr item) items encoded"
    and "length (concat encoded) < 2 ^ 64"
  shows "decode_components R (concat encoded) = Inr items"
  using assms
proof (induction items encoded rule: list_all2_induct)
  case Nil
  then show ?case by (simp add: decode_components.simps)
next
  case (Cons item items bs encoded)
  then obtain tag body where b: "bs = wrap_element tag body" "schema_decode_tlv R tag body bs = Inr item" by blast
  have "length (wrap_element tag body) < 2 ^ 64" "length (concat encoded) < 2 ^ 64" using Cons.prems b(1) by simp_all
  then show ?case using Cons.IH b
    by (subst decode_components.simps) (auto simp: read_tlv_wrap, simp_all add: wrap_element_def)
qed

lemma element_of_value:
  "texts_ok v \<Longrightarrow> dates_in_range v \<Longrightarrow> schema_der_encode R v = Inr bs \<Longrightarrow> length bs < 2 ^ 64 \<Longrightarrow>
     \<exists>tag body. bs = wrap_element tag body \<and> schema_decode_tlv R tag body bs = Inr v"
proof (induction v arbitrary: bs)
  case (AsnSeq items)
  then obtain encoded where e: "traverse (schema_der_encode R) items = Inr encoded" "bs = wrap_element 0x30 (concat encoded)" by auto
  then have len: "length (concat encoded) < 2 ^ 64" using AsnSeq.prems(4) wrap_element_length[of "concat encoded"] by (meson less_trans)
  have "list_all2 (\<lambda>item bs. \<exists>tag body. bs = wrap_element tag body \<and> schema_decode_tlv R tag body bs = Inr item) items encoded"
  proof (rule list.rel_mono_strong)
    show "list_all2 (\<lambda>item bs. schema_der_encode R item = Inr bs) items encoded" using e(1) by (simp add: traverse_eq_Inr)
    fix item bs' assume i: "item \<in> set items" "bs' \<in> set encoded" "schema_der_encode R item = Inr bs'"
    have "length bs' \<le> length (concat encoded)" using i(2) by (auto dest!: split_list)
    then show "\<exists>tag body. bs' = wrap_element tag body \<and> schema_decode_tlv R tag body bs' = Inr item"
      using AsnSeq.IH[OF i(1) _ _ i(3)] AsnSeq.prems(1,2) i(1) len by (auto simp: list_all_iff)
  qed
  from components_of_elements[OF this len] show ?case
    using e(2) by (intro exI[of _ "0x30"] exI[of _ "concat encoded"]) (simp add: schema_decode_tlv.simps)
next
  case (AsnContext tag contains)
  then obtain body where b: "\<not> tag > 30" "schema_der_encode R contains = Inr body" "bs = wrap_element (0xA0 OR tag) body"
    by (auto split: if_splits)
  then have len: "length body < 2 ^ 64" using AsnContext.prems(4) wrap_element_length[of body] by (meson less_trans)
  obtain tag' body' where e: "body = wrap_element tag' body'" "schema_decode_tlv R tag' body' body = Inr contains"
    using AsnContext.IH[OF _ _ b(2) len] AsnContext.prems by auto
  have "read_tlv body = Inr \<lparr>el_tag = tag', el_value = body', el_raw = body, el_rest = []\<rparr>"
    using read_tlv_wrap[of tag' body' "[]"] e(1) len by simp
  then show ?case using b(3) e(2) context_octet[OF b(1)]
    by (intro exI[of _ "0xA0 OR tag"] exI[of _ body]) (simp add: schema_decode_tlv.simps)
next
  case (AsnStr s)
  then show ?case by (intro exI[of _ "0x0C"] exI[of _ s]) (simp add: schema_decode_tlv.simps)
next
  case (AsnOid s)
  then obtain arcs where a: "traverse (\<lambda>arc. ok_or ScInvalidOid (parse_u32 arc)) (split_dots s) = Inr arcs"
    "rasn_oid_new R arcs" "rasn_oid_encode R arcs = Some bs" by (auto simp: parse_dotted_oid_def split: if_splits)
  then have "dotted arcs = s" using AsnOid.prems(1) by (simp add: canonical_oid_def)
  moreover obtain body where "bs = wrap_element 0x06 body" using oid_element[OF a(2,3)] by blast
  ultimately show ?case using oid_decode[OF a(2,3)]
    by (intro exI[of _ "0x06"] exI[of _ body]) (simp add: schema_decode_tlv.simps oid_text)
next
  case (AsnOctets bs')
  then show ?case by (intro exI[of _ "0x04"] exI[of _ bs']) (simp add: schema_decode_tlv.simps)
next
  case (AsnDate time)
  then have "asn1_time_encode R time = Some bs" by simp
  with time_roundtrip[OF _ this] AsnDate.prems(2) show ?case
    by (intro exI[of _ "0x18"] exI[of _ "format_transport R time"]) (simp add: schema_decode_tlv.simps)
qed

lemma der_roundtrip:
  assumes "texts_ok v" and "dates_in_range v" and "schema_der_encode R v = Inr bs" and "length bs < 2 ^ 64"
  shows "schema_der_decode R bs = Inr v"
proof -
  obtain tag body where "bs = wrap_element tag body" "schema_decode_tlv R tag body bs = Inr v"
    using element_of_value[OF assms] by blast
  then show ?thesis using read_tlv_wrap[of tag body "[]"] assms(4) by (simp add: schema_der_decode_def)
qed

end

lemma decoded_texts:
  "rasn_laws R \<Longrightarrow> schema_decode_tlv R tag body raw = Inr v \<Longrightarrow> texts_ok v"
  "rasn_laws R \<Longrightarrow> decode_components R rest = Inr vs \<Longrightarrow> list_all texts_ok vs"
proof (induction R tag body raw and R rest arbitrary: v and vs rule: schema_decode_tlv_decode_components.induct)
  case (1 R tag body raw)
  then show ?case by (auto simp: schema_decode_tlv.simps[of R tag body raw] rasn_laws.oid_text dotted_canonical split: if_splits)
next
  case (2 R rest)
  then show ?case by (auto simp: decode_components.simps[of R rest] split: if_splits)
qed

section \<open>The reference library\<close>

definition ref_arc_octets :: "32 word \<Rightarrow> bytes" where
  "ref_arc_octets a = [ucast (drop_bit 24 a), ucast (drop_bit 16 a), ucast (drop_bit 8 a), ucast a]"

fun ref_arcs :: "bytes \<Rightarrow> 32 word list option" where
  "ref_arcs (a # b # c # d # bs) =
     map_option ((#) (push_bit 24 (ucast a) OR push_bit 16 (ucast b) OR push_bit 8 (ucast c) OR ucast d)) (ref_arcs bs)"
| "ref_arcs bs = (if bs = [] then Some [] else None)"

definition ref_element_value :: "bytes \<Rightarrow> bytes option" where
  "ref_element_value der = (case read_tlv der of Inr t \<Rightarrow> if el_rest t = [] then Some (el_value t) else None | Inl _ \<Rightarrow> None)"

definition ref_octets :: "byte \<Rightarrow> bytes \<Rightarrow> bytes option" where
  "ref_octets tag bs = (if length (wrap_element tag bs) < 2 ^ 64 then Some (wrap_element tag bs) else None)"

definition ref_rasn :: rasn_lib where
  "ref_rasn = \<lparr>rasn_oid_new = (\<lambda>arcs. 2 \<le> length arcs), rasn_oid_encode = (\<lambda>arcs. ref_octets 0x06 (concat (map ref_arc_octets arcs))),
     rasn_oid_decode = (\<lambda>der. Option.bind (ref_element_value der) ref_arcs), rasn_oid_text = dotted,
     rasn_octets = ref_octets, rasn_any = Some, rasn_utc_time = (\<lambda>_. None),
     rasn_generalized_time = (\<lambda>der. map_option (\<lambda>t. 1000000 * t) (Option.bind (ref_element_value der) ref_time_parse)),
     chrono_seconds = ref_time_format, chrono_millis = ref_time_format\<rparr>"

lemma ref_arc_value:
  "push_bit 24 (ucast (ucast (drop_bit 24 a) :: byte)) OR push_bit 16 (ucast (ucast (drop_bit 16 a) :: byte)) OR
   push_bit 8 (ucast (ucast (drop_bit 8 a) :: byte)) OR ucast (ucast a :: byte) = (a :: 32 word)"
proof (rule bit_word_eqI, goal_cases)
  case (1 n)
  consider "n < 8" | "8 \<le> n \<and> n < 16" | "16 \<le> n \<and> n < 24" | "24 \<le> n" by linarith
  then show ?case using 1 by cases (auto simp: bit_simps)
qed

lemma ref_arcs_octets: "ref_arcs (concat (map ref_arc_octets arcs)) = Some arcs"
  by (induction arcs) (simp_all add: ref_arc_octets_def ref_arc_value)

lemma ref_element_value_octets: "ref_octets tag bs = Some der \<Longrightarrow> der = wrap_element tag bs \<and> ref_element_value der = Some bs"
  using read_tlv_wrap[of tag bs "[]"] by (auto simp: ref_octets_def ref_element_value_def split: if_splits)

lemma ref_format: "format_transport ref_rasn time = ref_time_format time"
  by (simp add: format_transport_def ref_rasn_def)

interpretation refr: rasn_laws ref_rasn
proof unfold_locales
  fix time der
  assume a: "time_in_range time" "rasn_octets ref_rasn 0x18 (format_transport ref_rasn time) = Some der"
  have "ref_time_parse (ref_time_format time) = Some time"
    using a(1) ref_time_laws[of time] by (simp add: time_in_range_def asn1_time_range_def)
  then show "rasn_generalized_time ref_rasn der = Some (1000000 * time)"
    using ref_element_value_octets[of "0x18" _ der] a(2) unfolding ref_format by (simp add: ref_rasn_def)
qed (auto simp: ref_rasn_def ref_arcs_octets dest: ref_element_value_octets)

section \<open>Encoding and decoding\<close>

text \<open>C31: a value that the encoder accepts is read back from its octets as the same value, whatever
  its nesting, provided that its texts are UTF-8, its object identifiers are in canonical dotted form
  and its times lie in the years 0 to 9999.  The encoder also accepts other dotted forms, such as
  1.03.101.112, which are read back in canonical form.\<close>
theorem schema_der_roundtrip:
  assumes "rasn_laws R" and "texts_ok v" and "dates_in_range v" and "schema_der_encode R v = Inr bs" and "length bs < 2 ^ 64"
  shows "schema_der_decode R bs = Inr v"
  by (rule rasn_laws.der_roundtrip[OF assms])

definition ref_value :: asn1_value where
  "ref_value = AsnSeq [AsnContext 3 (AsnOctets [1, 2, 3]), AsnStr (str ''hello''), AsnOid (dotted [1, 3, 101, 112]), AsnDate 631152000000]"

lemma ref_value_encodes: "\<exists>bs. schema_der_encode ref_rasn ref_value = Inr bs \<and> length bs < 2 ^ 64"
proof -
  have o: "parse_dotted_oid ref_rasn (dotted [1, 3, 101, 112]) = Inr [1, 3, 101, 112]"
    using parse_dotted[of "[1, 3, 101, 112]"] by (simp add: parse_dotted_oid_def ref_rasn_def del: dotted.simps)
  have "length (ref_time_format 631152000000) = 15"
    using ref_time_laws[of 631152000000] by (simp add: asn1_time_range_def time_value_len_def)
  then show ?thesis using o
    by (simp add: ref_value_def asn1_time_encode_def ref_format ref_octets_def wrap_element_short ref_arc_octets_def str_def
        ref_rasn_def[THEN arg_cong[of _ _ rasn_octets]] ref_rasn_def[THEN arg_cong[of _ _ rasn_oid_encode]] del: dotted.simps)
qed

theorem schema_der_roundtrip_witness:
  "\<exists>bs. schema_der_encode ref_rasn ref_value = Inr bs \<and> schema_der_decode ref_rasn bs = Inr ref_value"
proof -
  have "texts_ok ref_value" by (simp add: ref_value_def dotted_canonical str_def valid_utf8_ascii del: dotted.simps)
  moreover have "dates_in_range ref_value" by (simp add: ref_value_def time_in_range_def)
  ultimately show ?thesis using ref_value_encodes schema_der_roundtrip[OF refr.rasn_laws_axioms] by blast
qed

text \<open>Decoding and encoding again normalises: the octets of the second encoding are read back as
  the value that was decoded, also when the first octets were not DER.\<close>
theorem schema_reencoding_stable:
  assumes "rasn_laws R" and "schema_der_decode R der = Inr v" and "dates_in_range v"
    and "schema_der_encode R v = Inr bs" and "length bs < 2 ^ 64"
  shows "schema_der_decode R bs = Inr v \<and> (\<exists>bs'. schema_der_encode R v = Inr bs' \<and> schema_der_decode R bs' = Inr v)"
proof -
  have "texts_ok v" using assms(2) decoded_texts(1)[OF assms(1)] by (auto simp: schema_der_decode_def split: if_splits)
  then show ?thesis using rasn_laws.der_roundtrip[OF assms(1) _ assms(3-5)] assms(4) by blast
qed

theorem schema_reencoding_stable_witness:
  "\<exists>der bs. der \<noteq> bs \<and> schema_der_decode ref_rasn der = Inr (AsnStr [104, 105]) \<and>
     schema_der_encode ref_rasn (AsnStr [104, 105]) = Inr bs \<and> schema_der_decode ref_rasn bs = Inr (AsnStr [104, 105])"
proof -
  let ?der = "[0x13, 2, 104, 105]" and ?bs = "wrap_element 0x0C [104, 105]"
  have d: "schema_der_decode ref_rasn ?der = Inr (AsnStr [104, 105])"
    by (simp add: schema_der_decode_def read_tlv_def read_length_def schema_decode_tlv.simps valid_utf8_ascii)
  have e: "schema_der_encode ref_rasn (AsnStr [104, 105]) = Inr ?bs" by simp
  have "schema_der_decode ref_rasn ?bs = Inr (AsnStr [104, 105])"
    using schema_reencoding_stable[OF refr.rasn_laws_axioms d _ e] by (simp add: wrap_element_short)
  then show ?thesis using d e by (intro exI[of _ ?der] exI[of _ ?bs]) (simp add: wrap_element_def)
qed

text \<open>C40: the decoder accepts more than DER: a length of one octet in the long form, the string types
  it normalises, and the context tag 31 of the multi-octet form, which is read as a tag number that
  the encoder refuses.\<close>
theorem schema_decoder_lenient:
  assumes "valid_utf8 s" and "length s < 100"
  shows "schema_der_encode R (AsnStr s) = Inr (0x0C # word_of_nat (length s) # s) \<and>
    schema_der_decode R (0x0C # 0x81 # word_of_nat (length s) # s) = Inr (AsnStr s) \<and>
    schema_der_decode R (0x16 # word_of_nat (length s) # s) = Inr (AsnStr s) \<and>
    schema_der_decode R (0xBF # word_of_nat (length s + 2) # 0x0C # word_of_nat (length s) # s) = Inr (AsnContext 31 (AsnStr s)) \<and>
    schema_der_encode R (AsnContext 31 (AsnStr s)) = Inl (ScContextTagTooLarge 31)"
proof -
  have "unat (word_of_nat (length s) :: byte) = length s" "unat (word_of_nat (length s + 2) :: byte) = length s + 2"
    using assms(2) by (simp_all only: unat_of_nat) simp_all
  then show ?thesis using assms
    by (simp add: schema_der_decode_def read_tlv_def read_length_def schema_decode_tlv.simps wrap_element_def schema_der_length_def)
qed

theorem schema_decoder_lenient_witness:
  "schema_der_decode ref_rasn [0x0C, 0x81, 2, 104, 105] = Inr (AsnStr [104, 105]) \<and>
   schema_der_decode ref_rasn [0xBF, 4, 0x0C, 2, 104, 105] = Inr (AsnContext 31 (AsnStr [104, 105]))"
  using schema_decoder_lenient[of "[104, 105]" ref_rasn] by (simp add: valid_utf8_ascii)

end
