(* ===== verification/Spec2Isabelle.thy ===== *)
theory Spec2Isabelle
  imports AccountProps Asn1Props BlockProps VoteProps TxProps UserProps X509Props KeyProps SchemaProps
begin

text \<open>
  \<^bold>\<open>Blocks, votes and transactions of the Keeta network.\<close>

  The program is a Rust workspace of client-side crates.  An \<^emph>\<open>account\<close> (crate \<open>account\<close>) names a key
  or an identifier derived from one, and may hold the private key (crate \<open>crypto\<close>) that signs for it.  A \<^emph>\<open>block\<close> (crate \<open>block\<close>) holds the operations of one account,
  chained to the account's previous block; it is validated, encoded to DER through the transport
  structures of crate \<open>asn1\<close>, hashed, and signed by the leaves of its signer tree.  Representatives
  answer with \<^emph>\<open>votes\<close> (crate \<open>vote\<close>), certificates over a list of block hashes with a validity window
  and optional fees; a \<^emph>\<open>staple\<close> bundles blocks with the votes on them.  The \<^emph>\<open>client\<close> (crate \<open>client\<close>)
  collects operations in a transaction builder, renders them into blocks and has them voted on.

  \<^bold>\<open>Theories and sources\<close> (paths below \<open>src/\<close>, with the prefix \<open>keetanetwork-\<close> of the crates left out)

  \<^item> \<open>Prelude\<close>: results as sums (\<open>Ok\<close>, \<open>Err\<close>, \<open>and_then\<close>), early-returning loops (\<open>for_each\<close>,
    \<open>traverse\<close>, \<open>try_fold\<close>), saturating 64-bit arithmetic, UTF-8 strings.
  \<^item> \<open>Account\<close>: \<open>account/src/account.rs\<close>, \<open>account/src/utils.rs\<close>, \<open>crypto/src/hash.rs\<close>.  Key types,
    typed keys, addresses with checksum, identifier derivation, opening hashes.  \<open>AccountProps\<close> shows
    the round trip of addresses and typed keys, the exact language of the address decoder and the
    exact conditions of identifier generation.
  \<^item> \<open>BlockError\<close>, \<open>Permissions\<close>, \<open>Validation\<close>, \<open>Signer\<close>, \<open>Operation\<close>: the files of the same names in
    \<open>block/src\<close>.  The error enums with their codes; base flags with their groups and normalisation;
    networks, text rules and limits; the signer tree with the work-list of required signers; the nine
    operations with their validators.  Each states the exact acceptance condition of its validators.
  \<^item> \<open>DerLib\<close>, \<open>Asn1Block\<close>: \<open>asn1/src/block\<close>.  Readers and writers of the two block versions,
    all operations, and the stack-based codec of nested multisig signers.  \<open>Asn1Props\<close> shows that
    decoding inverts encoding, that the stack-based encoder agrees with the recursive encoding, and
    that the decoder ends.
  \<^item> \<open>Transport\<close>, \<open>Block\<close>: \<open>block/src/transport.rs\<close>, \<open>block/src/block.rs\<close>, \<open>block/src/builder.rs\<close>.
    Conversion to and from the transport form, validation, sealing, signing, acceptance of octets and
    the block builder.  \<open>BlockCanonical\<close> defines the canonical form of block data, which the
    transport gives back for any data made by the constructors (\<open>constructed_data\<close>).  \<open>BlockProps\<close>
    shows that accepted octets are canonical and signed by every required signer, that built blocks
    are accepted in canonical form, that encoding is injective, and what valid blocks look like.
  \<^item> \<open>Asn1Vote\<close>, \<open>VoteError\<close>, \<open>Vote\<close>: \<open>asn1/src/vote\<close>, \<open>vote/src\<close>, \<open>account/src/cert.rs\<close>.  The vote
    certificates: validity windows, fee schedules, building, signing, decoding, verification, quotes.
  \<^item> \<open>Staple\<close>, \<open>VoteBuilder\<close>: \<open>vote/src/staple.rs\<close>, \<open>vote/src/hash.rs\<close>, \<open>vote/src/builder.rs\<close>.
    \<open>staple_inv\<close> is the invariant of staples, \<open>staple_spec\<close> the abstract specification (on multisets
    of blocks and votes) that construction refines.  \<open>VoteProps\<close> holds the properties: genuineness of
    verified votes, round trips of votes, quotes, fees and staples, the exact validity window, fee
    selection, permanence.
  \<^item> \<open>NodeError\<close>, \<open>TxBuilder\<close>: \<open>error/src/lib.rs\<close>, \<open>client/src/error.rs\<close>, \<open>client/src/builder.rs\<close>, the
    handles of \<open>client/src/model.rs\<close> and the sealing functions of \<open>client/src/client.rs\<close>.  \<open>TxProps\<close>
    shows the canonical order of rendered operations, the conservation of transfers (raw operations
    included), that created
    identifiers pass block validation and that the blocks of a build form chains.
  \<^item> \<open>F64\<close>, \<open>ClientMath\<close>, \<open>RepBook\<close>: binary64 values with rounding to nearest even,
    \<open>client/src/math.rs\<close>, \<open>client/src/rep.rs\<close>, \<open>client/src/config.rs\<close>.  Scores stay between floor and
    one; the selected representative has the greatest effective score.
  \<^item> \<open>ClientModel\<close>, \<open>Client\<close>, \<open>ClientReads\<close>, \<open>ClientRounds\<close>: \<open>client/src/model.rs\<close>, the trait of
    \<open>client/src/transport.rs\<close>, and \<open>client/src/client.rs\<close>: the shared state, voting rounds, publication,
    synchronisation, dispatch with retries, reads, fee blocks, transmission and recovery.
  \<^item> \<open>Genesis\<close>, \<open>UserClient\<close>: \<open>client/src/genesis.rs\<close>, \<open>client/src/user.rs\<close>, \<open>client/src/swap.rs\<close>.
  \<^item> \<open>ClientInv\<close>: locale \<open>client_inv\<close> states which changes of the shared state an invariant has to
    allow; in it every operation is shown to keep the invariant.  It is interpreted on the two
    invariants of the code (a transport for every representative; scores within bounds), which then
    hold in every client reachable by the step relation \<open>client_step\<close>.  \<open>ClientProps\<close>
    (voting, publication, and the two voting rounds behind a published staple), \<open>DispatchProps\<close> (when a dispatched call returns, paged reads,
    pending blocks) and \<open>UserProps\<close> (fee blocks, swaps, genesis) hold the properties of the client,
    \<open>ClientRef\<close> the concrete environments of their witnesses.

  \<^item> \<open>X509\<close>, \<open>X509Util\<close>, \<open>X509Cert\<close>, \<open>X509Chain\<close>, \<open>X509Builder\<close>: crate \<open>x509\<close>, with the hash algorithms
    and the ECDSA signature codec of crate \<open>crypto\<close> and the public keys of \<open>asn1/src/der.rs\<close>: certificates
    and their checks, chain building, the graph check, PEM, bundles, the builders of extensions and
    certificates.  \<open>X509Graph\<close> relates the search loops to relations between certificates.  \<open>X509Laws\<close>
    derives facts on built certificates from locale \<open>x509_laws\<close>.  \<open>X509Props\<close> shows that built
    certificates verify and are trusted under their root, which of them are accepted back from DER and
    PEM (\<open>acceptable_extensions\<close>, \<open>acceptable_names\<close>), what the graph check decides, and when chain
    building returns.
  \<^item> \<open>Crypto\<close>, \<open>Keys\<close>, \<open>Ecies\<close>: crate \<open>crypto\<close>.  Hashing to fixed lengths, HKDF, passphrases, random
    octets, the AES modes; private and public keys of the three algorithms with parsing, derivation
    from seeds, signing and key exchange; encryption to a public key in the three formats of
    \<open>algorithms/ecies.rs\<close>.
  \<^item> \<open>KeyedAccount\<close>: the rest of \<open>account/src/account.rs\<close>.  A \<open>keyed_account\<close> is a public identity with an
    optional private key; it is constructed from seeds, passphrases, private or public keys, signs,
    verifies, encrypts and decrypts.  \<open>KeyLaws\<close> states the laws of the crates below (\<open>key_laws\<close>) and
    derives the facts on derivation, encryption, signatures and construction.  \<open>Wallet\<close> gives
    \<open>block_lib\<close> the signing functions of keyed accounts.
  \<^item> \<open>KeyProps\<close>: messages are read back by the account they were encrypted to, signatures and
    certificates made with an account verify under it, derivation takes the first valid candidate,
    constructed accounts are well-formed, and exactly when a wallet signs a block; \<open>KeyRef\<close> is the library of the
    witnesses.  Three properties record deviations on secp256r1: messages whose first block
    can be replaced, an address of the wrong kind, and two accounts for one key.

  \<^item> \<open>SchemaCodec\<close>: \<open>asn1/src/schema_codec.rs\<close>, the schema-driven codec: matching of components with the
    members of a struct, and the reader and writer of DER elements.  \<open>SchemaProps\<close> shows that matching
    finds an alignment exactly when there is one, that decoding inverts encoding on canonical values, that encoding a
    decoded value is stable, and what is accepted beyond DER.  Its laws are locale \<open>rasn_laws\<close>.

  \<^bold>\<open>The client's world.\<close>  A request is a function on a world \<open>'w\<close> that stands for nodes and clocks: it
  changes the world and answers.  The open requests of a fan-out are answered one by one in an order
  that the environment chooses, so the properties hold for every order of answers.  A task of type
  \<open>'c \<Rightarrow> ('c \<times> (client_error + 'a)) option\<close> is \<open>None\<close> when it never returns; loops without a bound in
  the code (dispatch, cursor pages) are partial functions in the option monad.

  \<^bold>\<open>Parameters and their laws.\<close>  Functions of third-party crates are fields of records that the
  definitions take as arguments, with the documented behaviour the proofs rely on as a locale:
  \<open>crypto_lib\<close> (SHA3-256, base32, hex, key parsing; locale \<open>crypto_laws\<close>), \<open>der_lib\<close> (TLV framing,
  integers, times; \<open>der_laws\<close>), \<open>block_lib\<close> (signing, verification, X.509), \<open>oid_lib\<close> and \<open>vote_lib\<close>
  (object identifiers, raw signatures, hexadecimal integers; \<open>vote_laws\<close>), \<open>staple_lib\<close> (zlib;
  \<open>staple_laws\<close>), \<open>chrono_lib\<close> (calendar; \<open>chrono_laws\<close>), \<open>x509_lib\<close> (the derived certificate
  codec, object identifiers as text, base64, SHA-2, raw verification; \<open>x509_laws\<close>), \<open>key_lib\<close> (HKDF,
  PBKDF2, AES, HMAC, curve arithmetic, raw signing; \<open>key_laws\<close>).  The random generator of the operating
  system is a function on an explicit state that may fail; \<open>random_octets\<close> says that it works.  The contracts between the development's own
  components are locales too, interpreted on the model (\<open>block_transport\<close> for the codec that blocks
  rely on).  \<open>CryptoRef\<close>, \<open>DerRef\<close>, \<open>BlockRef\<close>, \<open>VoteRef\<close>, \<open>ClientRef\<close>, \<open>X509Ref\<close> and \<open>KeyRef\<close> give executable instances and
  discharge every law, so that each property is applied to a concrete input by its witness.

  \<^bold>\<open>Bounds and loops.\<close>  Loops over lists are structural; work-lists carry a measure; the multisig
  decoder runs in steps bounded by the octets of its input, and is proved to end within them.
  Repeated reads consume at least one octet each and recurse on the remaining length.  The depth
  of the search for cycles is bounded by the number of certificates plus two, which is proved enough;
  chain building has no bound in the code and is a partial function.  Key derivation makes exactly a
  hundred attempts, as in the source, and the counter-mode derivation of message keys ends because
  each round adds 32 octets.  The mutual recursions of the schema-driven codec descend on the sizes of
  values and schemas, and on the octets that are left.  The reference
  DER instance encodes lengths below \<open>2 ^ 28\<close>; the size limit that the \<open>der\<close> crate puts on a reader is not
  represented.  Times are milliseconds as integers with the source's saturation to 64 bits; indices
  and delays are words of the source's width; amounts are unbounded integers as in the source.

  \<^bold>\<open>Not modelled.\<close>  Curve arithmetic, digests and block ciphers (parameters); memory fences, zeroing
  and constant time, which values do not show; the signer traits without options, which hash with the
  default digest of the curve crates; the nonces of AES-GCM, which no operation uses; lower case of
  Unicode text (a parameter); the serialisation of certificates through serde; the link from
  certificate operations of blocks to the crate \<open>x509\<close>, which blocks see through parameters of
  \<open>block_lib\<close>; the rasn codec backend (derive macros); the scheduling of the client's background refresh
  task (its body is \<open>update_reps\<close>); endpoints that return opaque JSON; HTTP backends, the JSON codec and
  the runtimes behind the transport trait, which rest on generated code; foreign-function bindings;
  build scripts; placeholder crates.
\<close>

end
